(* ===== verification/Prelude.thy ===== *)
theory Prelude
  imports Complex_Main "HOL-Library.Word"
begin

text \<open>
  Shared vocabulary of the development: the names of the C integer types, counted loops,
  the readings of machine words as signed and unsigned numbers, and the generic lemmas on
  lists and loops the components use.
\<close>

unbundle bit_operations_syntax

section \<open>C integer types\<close>

text \<open>
  Unsigned and signed C integers of one width share a word type: arithmetic wraps, and the
  reading (\<open>unat\<close>/\<open>uint\<close> or \<open>sint\<close>) makes the difference. The kernel module is built with
  wrapping signed arithmetic, so \<open>int\<close> increments are word increments.
\<close>

type_synonym u8 = "8 word"
type_synonym u16 = "16 word"
type_synonym u32 = "32 word"
type_synonym u64 = "64 word"
type_synonym s32 = "32 word"
type_synonym s64 = "64 word"

text \<open>Collections of the rewrite rules the component proofs share.\<close>

named_theorems loop_simps
named_theorems parms_simps

section \<open>Counted loops\<close>

text \<open>\<open>for (i = a; i < b; i++) s = f i s\<close>\<close>

definition for_up :: "nat \<Rightarrow> nat \<Rightarrow> (nat \<Rightarrow> 's \<Rightarrow> 's) \<Rightarrow> 's \<Rightarrow> 's" where
  "for_up a b f s = fold f [a..<b] s"

lemma for_up_empty [simp]: "b \<le> a \<Longrightarrow> for_up a b f s = s"
  by (simp add: for_up_def)

lemma for_up_Suc: "a \<le> b \<Longrightarrow> for_up a (Suc b) f s = f b (for_up a b f s)"
  by (simp add: for_up_def)

lemma for_up_step: "a < b \<Longrightarrow> for_up a b f s = for_up (Suc a) b f (f a s)"
  by (simp add: for_up_def upt_conv_Cons)

text \<open>The invariant rule of a counted loop.\<close>

lemma for_up_invariant:
  assumes "a \<le> b"
    and "I a s"
    and "\<And>i s. a \<le> i \<Longrightarrow> i < b \<Longrightarrow> I i s \<Longrightarrow> I (Suc i) (f i s)"
  shows "I b (for_up a b f s)"
  using assms
proof (induction b)
  case 0
  then show ?case by simp
next
  case (Suc b)
  show ?case
  proof (cases "a \<le> b")
    case True
    with Suc have "I b (for_up a b f s)" by simp
    with Suc.prems(3) True show ?thesis by (simp add: for_up_Suc)
  next
    case False
    with Suc.prems(1,2) show ?thesis by (simp add: le_Suc_eq)
  qed
qed

text \<open>A loop whose body keeps a property keeps it.\<close>

lemma for_up_keeps:
  assumes "P s" and "\<And>i s. a \<le> i \<Longrightarrow> i < b \<Longrightarrow> P s \<Longrightarrow> P (f i s)"
  shows "P (for_up a b f s)"
proof (cases "a \<le> b")
  case True
  then show ?thesis using assms by (rule for_up_invariant [where I = "\<lambda>_. P"])
next
  case False
  with assms(1) show ?thesis by simp
qed

text \<open>A loop whose body does not change an observation does not change it.\<close>

lemma for_up_frame:
  assumes "\<And>i s. a \<le> i \<Longrightarrow> i < b \<Longrightarrow> v (f i s) = v s"
  shows "v (for_up a b f s) = v s"
  by (rule for_up_keeps [where P = "\<lambda>t. v t = v s"]) (simp_all add: assms)

text \<open>A loop seen through an observation its body acts on.\<close>

lemma for_up_hom:
  assumes "J s"
    and "\<And>i s. a \<le> i \<Longrightarrow> i < b \<Longrightarrow> J s \<Longrightarrow> J (f i s)"
    and "\<And>i s. a \<le> i \<Longrightarrow> i < b \<Longrightarrow> J s \<Longrightarrow> h (f i s) = g i (h s)"
  shows "h (for_up a b f s) = for_up a b g (h s)"
proof (cases "a \<le> b")
  case True
  have "J (for_up a b f s) \<and> h (for_up a b f s) = for_up a b g (h s)"
    using True
  proof (rule for_up_invariant [where I = "\<lambda>i t. J t \<and> h t = for_up a i g (h s)"])
    show "J s \<and> h s = for_up a a g (h s)" using assms(1) by simp
    show "J (f i t) \<and> h (f i t) = for_up a (Suc i) g (h s)"
      if "a \<le> i" "i < b" "J t \<and> h t = for_up a i g (h s)" for i t
      using that assms(2,3) by (simp add: for_up_Suc)
  qed
  then show ?thesis by blast
next
  case False
  then show ?thesis by simp
qed

text \<open>The loop that fills an array.\<close>

lemma for_up_fill:
  assumes "length xs = n"
  shows "for_up 0 n (\<lambda>i xs. xs[i := f i]) xs = map f [0..<n]"
proof -
  have "for_up 0 n (\<lambda>i xs. xs[i := f i]) xs = map f [0..<n] @ drop n xs"
    by (rule for_up_invariant [where I = "\<lambda>i ys. ys = map f [0..<i] @ drop i xs"])
      (use assms in \<open>auto simp: list_update_append Cons_nth_drop_Suc [symmetric]\<close>)
  with assms show ?thesis by simp
qed

end
