(* ===== verification/Double.thy ===== *)
theory Double
  imports Prelude
begin

text \<open>
  IEEE 754 binary64 as the C sources use it: a double is its 64-bit pattern, and every
  arithmetic operation rounds its exact result to the nearest representable value, ties to
  even. The special values (signed zeros, infinities, NaNs and the payload rules of the
  x86 instructions) are part of the model, because the kernel module stores raw bit
  patterns in its trace and because its clamps are comparisons, which a NaN passes.

  Exact values are counted in units of the smallest subnormal, \<open>2 ^ -1074\<close>, so that
  every finite double is an integer (\<open>sval\<close>) and rounding is arithmetic on naturals.
\<close>

section \<open>Bit patterns\<close>

datatype double = Double (dbits: u64)

text \<open>Sign and magnitude of a pattern. The magnitude orders the non-negative patterns.\<close>

definition dneg :: "double \<Rightarrow> bool" where
  "dneg x \<longleftrightarrow> 2 ^ 63 \<le> unat (dbits x)"

definition dmag :: "double \<Rightarrow> nat" where
  "dmag x = unat (dbits x) mod 2 ^ 63"

definition mk_double :: "bool \<Rightarrow> nat \<Rightarrow> double" where
  "mk_double s m = Double (word_of_nat ((if s then 2 ^ 63 else 0) + m))"

definition inf_mag :: nat where
  "inf_mag = 2047 * 2 ^ 52"

definition is_nan :: "double \<Rightarrow> bool" where
  "is_nan x \<longleftrightarrow> inf_mag < dmag x"

definition is_inf :: "double \<Rightarrow> bool" where
  "is_inf x \<longleftrightarrow> dmag x = inf_mag"

definition is_finite :: "double \<Rightarrow> bool" where
  "is_finite x \<longleftrightarrow> dmag x < inf_mag"

definition is_zero :: "double \<Rightarrow> bool" where
  "is_zero x \<longleftrightarrow> dmag x = 0"

text \<open>The default NaN of the processor, and the quiet form of a NaN operand.\<close>

definition default_nan :: double where
  "default_nan = mk_double True (inf_mag + 2 ^ 51)"

definition quiet :: "double \<Rightarrow> double" where
  "quiet x = Double (dbits x OR 2 ^ 51)"

section \<open>Exact values and rounding\<close>

text \<open>The value of a finite magnitude, in units of \<open>2 ^ -1074\<close>; the scale is kept as a name.\<close>

definition emin :: nat where
  "emin = 1074"

definition dsc :: "nat \<Rightarrow> nat" where
  "dsc m = (if m < 2 ^ 52 then m else (2 ^ 52 + m mod 2 ^ 52) * 2 ^ (m div 2 ^ 52 - 1))"

definition sval :: "double \<Rightarrow> int" where
  "sval x = (if dneg x then - int (dsc (dmag x)) else int (dsc (dmag x)))"

fun bitlen :: "nat \<Rightarrow> nat" where
  "bitlen n = (if n = 0 then 0 else Suc (bitlen (n div 2)))"

declare bitlen.simps [simp del]

text \<open>
  The magnitude nearest to \<open>n / d\<close> units, ties to even, infinity past the largest finite
  value. The quantum of the result is \<open>2 ^ k\<close> units, where \<open>k\<close> leaves 53 significant bits.
\<close>

definition rnd_mag :: "nat \<Rightarrow> nat \<Rightarrow> nat" where
  "rnd_mag n d =
     (let k = bitlen (n div d) - 53;
          D = d * 2 ^ k;
          q = n div D;
          r = n mod D
      in min inf_mag (k * 2 ^ 52 + (if D < 2 * r \<or> (D = 2 * r \<and> odd q) then q + 1 else q)))"

text \<open>Rounding of a signed fraction; \<open>z\<close> is the sign an exact zero gets.\<close>

definition dround :: "bool \<Rightarrow> int \<Rightarrow> nat \<Rightarrow> double" where
  "dround z n d =
     (if n = 0 then mk_double z 0
      else mk_double (n < 0) (rnd_mag (nat \<bar>n\<bar>) d))"

section \<open>Operations\<close>

text \<open>Comparisons: false on NaN; the signed magnitude orders everything else.\<close>

definition dkey :: "double \<Rightarrow> int" where
  "dkey x = (if dneg x then - int (dmag x) else int (dmag x))"

instantiation double :: ord
begin

definition less_double :: "double \<Rightarrow> double \<Rightarrow> bool" where
  "x < y \<longleftrightarrow> \<not> is_nan x \<and> \<not> is_nan y \<and> dkey x < dkey y"

definition less_eq_double :: "double \<Rightarrow> double \<Rightarrow> bool" where
  "x \<le> y \<longleftrightarrow> \<not> is_nan x \<and> \<not> is_nan y \<and> dkey x \<le> dkey y"

instance ..

end

instantiation double :: "{zero, one, uminus, plus, minus, times, inverse}"
begin

definition zero_double :: double where
  "0 = mk_double False 0"

definition one_double :: double where
  "1 = mk_double False (1023 * 2 ^ 52)"

definition uminus_double :: "double \<Rightarrow> double" where
  "- x = mk_double (\<not> dneg x) (dmag x)"

definition plus_double :: "double \<Rightarrow> double \<Rightarrow> double" where
  "x + y =
     (if is_nan x then quiet x else if is_nan y then quiet y
      else if is_inf x then (if is_inf y \<and> dneg x \<noteq> dneg y then default_nan else x)
      else if is_inf y then y
      else dround (dneg x \<and> dneg y) (sval x + sval y) 1)"

definition minus_double :: "double \<Rightarrow> double \<Rightarrow> double" where
  "x - y =
     (if is_nan x then quiet x else if is_nan y then quiet y
      else x + - y)"

definition times_double :: "double \<Rightarrow> double \<Rightarrow> double" where
  "x * y =
     (if is_nan x then quiet x else if is_nan y then quiet y
      else if is_inf x then
        (if is_zero y then default_nan else mk_double (dneg x \<noteq> dneg y) inf_mag)
      else if is_inf y then
        (if is_zero x then default_nan else mk_double (dneg x \<noteq> dneg y) inf_mag)
      else mk_double (dneg x \<noteq> dneg y) (rnd_mag (dsc (dmag x) * dsc (dmag y)) (2 ^ emin)))"

definition divide_double :: "double \<Rightarrow> double \<Rightarrow> double" where
  "divide_double x y =
     (if is_nan x then quiet x else if is_nan y then quiet y
      else if is_inf x then
        (if is_inf y then default_nan else mk_double (dneg x \<noteq> dneg y) inf_mag)
      else if is_inf y then mk_double (dneg x \<noteq> dneg y) 0
      else if is_zero y then
        (if is_zero x then default_nan else mk_double (dneg x \<noteq> dneg y) inf_mag)
      else mk_double (dneg x \<noteq> dneg y) (rnd_mag (dsc (dmag x) * 2 ^ emin) (dsc (dmag y))))"

definition inverse_double :: "double \<Rightarrow> double" where
  "inverse x = (1 :: double) div x"

instance ..

end

text \<open>Conversions: from integers and from literals \<open>n / d\<close>, and the C casts back.\<close>

definition d_of_int :: "int \<Rightarrow> double" where
  "d_of_int i = dround False (i * 2 ^ emin) 1"

definition dlit :: "int \<Rightarrow> nat \<Rightarrow> double" where
  "dlit n d = dround False (n * 2 ^ emin) d"

definition dtrunc :: "double \<Rightarrow> int" where
  "dtrunc x = (if dneg x then - (int (dsc (dmag x) div 2 ^ emin)) else int (dsc (dmag x) div 2 ^ emin))"

text \<open>\<open>(int) x\<close>: truncation; the processor's integer indefinite value out of range.\<close>

definition d_to_s32 :: "double \<Rightarrow> s32" where
  "d_to_s32 x =
     (if is_finite x \<and> - (2 ^ 31) \<le> dtrunc x \<and> dtrunc x < 2 ^ 31 then word_of_int (dtrunc x)
      else 2 ^ 31)"

end
