(* ===== verification/Double_Laws.thy ===== *)
theory Double_Laws
  imports Double
begin

text \<open>
  The laws of the binary64 model that the components rest on: the patterns are in bijection
  with sign and magnitude, the comparisons form a total preorder on the patterns that are
  not NaN, rounding is exact on representable values and monotone, and the sign of products
  and quotients. The preorder is stated as an interface (\<open>ieee_order\<close>) whose clients,
  clamping and minimum selection, are proved once.
\<close>

section \<open>Sign and magnitude\<close>

lemma dmag_less: "dmag x < 2 ^ 63"
  by (simp add: dmag_def)

lemma inf_mag_less: "inf_mag < 2 ^ 63"
  by (simp add: inf_mag_def)

lemma unat_mk_double:
  "m < 2 ^ 63 \<Longrightarrow> unat (dbits (mk_double s m)) = (if s then 2 ^ 63 else 0) + m"
  unfolding mk_double_def double.sel unsigned_of_nat by (simp add: take_bit_nat_eq_self)

lemma dmag_mk_double [simp]: "m < 2 ^ 63 \<Longrightarrow> dmag (mk_double s m) = m"
  by (simp add: dmag_def unat_mk_double)

lemma dneg_mk_double [simp]: "m < 2 ^ 63 \<Longrightarrow> dneg (mk_double s m) = s"
  by (simp add: dneg_def unat_mk_double)

lemma mk_double_eta [simp]: "mk_double (dneg x) (dmag x) = x"
proof -
  have u: "unat (dbits x) < 2 * 2 ^ 63"
    using unsigned_less [of "dbits x"] by simp
  have "(if dneg x then 2 ^ 63 else 0) + dmag x = unat (dbits x)"
  proof (cases "dneg x")
    case True
    then have "unat (dbits x) div 2 ^ 63 = 1"
      using u by (simp add: dneg_def div_nat_eqI)
    then show ?thesis
      using True div_mult_mod_eq [of "unat (dbits x)" "2 ^ 63"] by (simp add: dmag_def)
  next
    case False
    then show ?thesis by (simp add: dneg_def dmag_def)
  qed
  then show ?thesis
    by (simp add: mk_double_def)
qed

lemma double_eqI: "dneg x = dneg y \<Longrightarrow> dmag x = dmag y \<Longrightarrow> x = y"
  by (subst mk_double_eta [symmetric, of x], subst mk_double_eta [symmetric, of y]) (simp only:)

section \<open>Comparisons\<close>

text \<open>
  What a client of comparisons relies on: a strict relation that is irreflexive, transitive
  and total up to equality of keys on the comparable values, and false outside them.
\<close>

locale ieee_order =
  fixes lt :: "'a \<Rightarrow> 'a \<Rightarrow> bool"
    and le :: "'a \<Rightarrow> 'a \<Rightarrow> bool"
    and ok :: "'a \<Rightarrow> bool"
  assumes lt_ok: "lt x y \<Longrightarrow> ok x \<and> ok y"
    and le_ok: "le x y \<Longrightarrow> ok x \<and> ok y"
    and le_refl: "ok x \<Longrightarrow> le x x"
    and le_trans: "le x y \<Longrightarrow> le y z \<Longrightarrow> le x z"
    and lt_imp_le: "lt x y \<Longrightarrow> le x y"
    and not_lt: "ok x \<Longrightarrow> ok y \<Longrightarrow> \<not> lt x y \<longleftrightarrow> le y x"
begin

lemma le_cases: "ok x \<Longrightarrow> ok y \<Longrightarrow> le x y \<or> le y x"
  using lt_imp_le not_lt by blast

text \<open>The clamp of the sources: two assignments guarded by comparisons.\<close>

lemma clamp_range:
  assumes "le lo hi"
  shows "\<not> ok x \<or>
    le lo (let y = (if lt hi x then hi else x) in if lt y lo then lo else y) \<and>
    le (let y = (if lt hi x then hi else x) in if lt y lo then lo else y) hi"
  using assms le_ok [OF assms] by (auto simp: Let_def not_lt le_refl)

text \<open>
  Minimum selection as the sources write it: a scan that replaces the candidate by a
  strictly smaller value.
\<close>

lemma scan_step:
  assumes "ok b" and "\<And>y. y \<in> A \<Longrightarrow> ok y \<Longrightarrow> le b y"
  shows "ok (if lt x b then x else b)"
    and "y \<in> insert x A \<Longrightarrow> ok y \<Longrightarrow> le (if lt x b then x else b) y"
proof -
  show "ok (if lt x b then x else b)"
    using assms(1) lt_ok by simp
  show "le (if lt x b then x else b) y" if "y \<in> insert x A" and "ok y"
  proof (cases "y = x")
    case True
    then show ?thesis using that(2) assms(1) not_lt [of x b] le_refl by auto
  next
    case False
    with that have "le b y" using assms(2) by blast
    then show ?thesis using lt_imp_le [of x b] le_trans by auto
  qed
qed

end

lemma double_less_iff: "(x :: double) < y \<longleftrightarrow> \<not> is_nan x \<and> \<not> is_nan y \<and> dkey x < dkey y"
  by (rule less_double_def)

lemma double_le_iff: "(x :: double) \<le> y \<longleftrightarrow> \<not> is_nan x \<and> \<not> is_nan y \<and> dkey x \<le> dkey y"
  by (rule less_eq_double_def)

interpretation dord: ieee_order "(<)" "(\<le>)" "\<lambda>x :: double. \<not> is_nan x"
  by unfold_locales (auto simp: double_less_iff double_le_iff)

section \<open>Rounding\<close>

lemma bitlen_le_iff: "bitlen n \<le> k \<longleftrightarrow> n < 2 ^ k"
proof (induction n arbitrary: k rule: bitlen.induct)
  case (1 n)
  show ?case
  proof (cases "n = 0 \<or> k = 0")
    case True
    then show ?thesis by (auto simp: bitlen.simps [of n])
  next
    case False
    then obtain k' where k: "k = Suc k'" by (cases k) auto
    from False have "bitlen n \<le> k \<longleftrightarrow> n div 2 < 2 ^ k'"
      using "1.IH" [of k'] by (simp add: bitlen.simps [of n] k)
    also have "\<dots> \<longleftrightarrow> n < 2 ^ k" by (simp add: k div_less_iff_less_mult mult.commute)
    finally show ?thesis .
  qed
qed

lemma bitlen_mono: "m \<le> n \<Longrightarrow> bitlen m \<le> bitlen n"
  using bitlen_le_iff [of m "bitlen n"] bitlen_le_iff [of n "bitlen n"] by simp

lemma bitlen_eqI: "2 ^ k \<le> n \<Longrightarrow> n < 2 ^ Suc k \<Longrightarrow> bitlen n = Suc k"
  using bitlen_le_iff [of n "Suc k"] bitlen_le_iff [of n k] by simp

text \<open>Rounding to an integer quotient, ties to even.\<close>

definition rne :: "nat \<Rightarrow> nat \<Rightarrow> nat" where
  "rne n D = (if D < 2 * (n mod D) \<or> (D = 2 * (n mod D) \<and> odd (n div D)) then n div D + 1 else n div D)"

lemma rne_bounds: "n div D \<le> rne n D" "rne n D \<le> n div D + 1"
  by (simp_all add: rne_def)

lemma rne_exact: "0 < D \<Longrightarrow> rne (q * D) D = q"
  by (simp add: rne_def)

lemma rne_mono:
  assumes D: "0 < D1" "0 < D2" and le: "n1 * D2 \<le> n2 * D1"
  shows "rne n1 D1 \<le> rne n2 D2"
proof -
  let ?q = "n1 div D1" and ?r1 = "n1 mod D1" and ?r2 = "n2 mod D2"
  have "?q * D2 * D1 \<le> n1 * D2"
    by (simp add: mult.commute mult.left_commute)
  also note le
  finally have "?q * D2 \<le> n2"
    using D(1) by simp
  then have q: "?q \<le> n2 div D2"
    using D(2) by (simp add: less_eq_div_iff_mult_less_eq)
  show ?thesis
  proof (cases "?q = n2 div D2")
    case True
    have "n1 * D2 = ?q * D1 * D2 + ?r1 * D2"
      by (metis add_mult_distrib div_mult_mod_eq)
    moreover have "n2 * D1 = ?q * D1 * D2 + ?r2 * D1"
      unfolding True by (metis add_mult_distrib div_mult_mod_eq mult.assoc mult.commute)
    ultimately have r: "?r1 * D2 \<le> ?r2 * D1" using le by linarith
    have strict: "D2 < 2 * ?r2" if "D1 < 2 * ?r1"
    proof -
      have "D2 * D1 < 2 * ?r1 * D2"
        using that D(2) by (simp add: mult.commute)
      also have "\<dots> \<le> 2 * ?r2 * D1" using r by (simp add: mult.assoc)
      finally show ?thesis using D(1) by simp
    qed
    have tie: "D2 \<le> 2 * ?r2" if "D1 = 2 * ?r1"
    proof -
      have "D2 * D1 \<le> D2 * (2 * ?r1)"
        using that by (intro mult_le_mono2 eq_refl)
      also have "\<dots> = 2 * (?r1 * D2)" by (simp only: mult_ac)
      also have "\<dots> \<le> 2 * (?r2 * D1)" using r by (rule mult_le_mono2)
      finally show ?thesis using D(1) by simp
    qed
    show ?thesis
      using strict tie True by (auto simp: rne_def)
  next
    case False
    then have "?q + 1 \<le> n2 div D2" using q by simp
    then show ?thesis using rne_bounds(2) [of n1 D1] rne_bounds(1) [of n2 D2] by linarith
  qed
qed

definition quantum :: "nat \<Rightarrow> nat \<Rightarrow> nat" where
  "quantum n d = bitlen (n div d) - 53"

lemma rnd_mag_eq:
  "rnd_mag n d = min inf_mag (quantum n d * 2 ^ 52 + rne n (d * 2 ^ quantum n d))"
  by (simp add: rnd_mag_def quantum_def rne_def Let_def)

lemma rnd_mag_le: "rnd_mag n d \<le> inf_mag"
  by (simp add: rnd_mag_eq)

lemma rnd_mag_less [simp]: "rnd_mag n d < 2 ^ 63"
  using rnd_mag_le [of n d] inf_mag_less by simp

text \<open>The quotient the quantum leaves has at most 53 bits, and exactly 53 above the subnormals.\<close>

text \<open>A rounded result keeps its sign and its magnitude and is never a NaN.\<close>

lemma dneg_rnd [simp]: "dneg (mk_double s (rnd_mag n d)) = s"
  by (rule dneg_mk_double) (rule rnd_mag_less)

lemma dmag_rnd [simp]: "dmag (mk_double s (rnd_mag n d)) = rnd_mag n d"
  by (rule dmag_mk_double) (rule rnd_mag_less)

lemma nan_rnd [simp]: "\<not> is_nan (mk_double s (rnd_mag n d))"
  using rnd_mag_le [of n d] by (simp add: is_nan_def)

lemma quantum_quotient_less: "n div (d * 2 ^ quantum n d) < 2 ^ 53"
proof -
  have "bitlen (n div d) \<le> 53 + quantum n d"
    by (simp add: quantum_def)
  then have "n div d < 2 ^ quantum n d * 2 ^ 53"
    by (simp add: bitlen_le_iff power_add mult.commute)
  then show ?thesis
    by (simp add: div_mult2_eq div_less_iff_less_mult mult.commute)
qed

lemma quantum_quotient_ge:
  assumes "0 < quantum n d"
  shows "2 ^ 52 \<le> n div (d * 2 ^ quantum n d)"
proof -
  have "\<not> bitlen (n div d) \<le> 52 + quantum n d"
    using assms by (simp add: quantum_def)
  then have "2 ^ quantum n d * 2 ^ 52 \<le> n div d"
    by (simp add: bitlen_le_iff power_add mult.commute not_less)
  then show ?thesis
    by (simp add: div_mult2_eq less_eq_div_iff_mult_less_eq mult.commute)
qed

text \<open>Rounding is monotone in the fraction.\<close>

lemma rnd_mag_mono:
  assumes d: "0 < d1" "0 < d2" and le: "n1 * d2 \<le> n2 * d1"
  shows "rnd_mag n1 d1 \<le> rnd_mag n2 d2"
proof -
  let ?k1 = "quantum n1 d1" and ?k2 = "quantum n2 d2"
  have "n1 div d1 * d2 * d1 \<le> n1 * d2"
    by (simp add: mult.commute mult.left_commute)
  with le have "n1 div d1 * d2 * d1 \<le> n2 * d1" by linarith
  with d have "n1 div d1 \<le> n2 div d2"
    by (simp add: less_eq_div_iff_mult_less_eq)
  then have k: "?k1 \<le> ?k2"
    using bitlen_mono by (simp add: quantum_def diff_le_mono)
  have "?k1 * 2 ^ 52 + rne n1 (d1 * 2 ^ ?k1) \<le> ?k2 * 2 ^ 52 + rne n2 (d2 * 2 ^ ?k2)"
  proof (cases "?k1 = ?k2")
    case True
    have "n1 * (d2 * 2 ^ ?k2) \<le> n2 * (d1 * 2 ^ ?k1)"
      using le by (simp add: True mult.assoc [symmetric])
    then show ?thesis
      using rne_mono [of "d1 * 2 ^ ?k1" "d2 * 2 ^ ?k2" n1 n2] d True by simp
  next
    case False
    with k have lt: "?k1 + 1 \<le> ?k2" by simp
    have "rne n1 (d1 * 2 ^ ?k1) \<le> 2 * 2 ^ 52"
      using quantum_quotient_less [of n1 d1] rne_bounds(2) [of n1 "d1 * 2 ^ ?k1"] by simp
    moreover have "2 ^ 52 \<le> rne n2 (d2 * 2 ^ ?k2)"
      using quantum_quotient_ge [of n2 d2] lt rne_bounds(1) [of n2 "d2 * 2 ^ ?k2"] by linarith
    moreover have "(?k1 + 1) * 2 ^ 52 \<le> ?k2 * 2 ^ 52"
      using lt by (rule mult_le_mono1)
    ultimately show ?thesis by simp
  qed
  then show ?thesis by (simp add: rnd_mag_eq min.coboundedI2 min_def)
qed

text \<open>Rounding is exact on representable values.\<close>

lemma rnd_mag_exact:
  assumes "m < inf_mag" and d: "0 < d"
  shows "rnd_mag (dsc m * d) d = m"
proof (cases "m < 2 ^ 52")
  case True
  then have "bitlen m \<le> 53" by (simp add: bitlen_le_iff)
  then have "quantum (dsc m * d) d = 0"
    using d True by (simp add: quantum_def dsc_def)
  then show ?thesis
    using assms True by (simp add: rnd_mag_eq rne_exact dsc_def)
next
  case False
  define e where "e = m div 2 ^ 52 - 1"
  define f where "f = 2 ^ 52 + m mod 2 ^ 52"
  have "1 \<le> m div 2 ^ 52"
    using False by (simp add: less_eq_div_iff_mult_less_eq)
  then have m: "m = e * 2 ^ 52 + f"
    using div_mult_mod_eq [of m "2 ^ 52"] by (simp add: e_def f_def diff_mult_distrib)
  have dsc: "dsc m = f * 2 ^ e"
    using False by (simp add: dsc_def e_def f_def)
  have f: "2 ^ 52 \<le> f" "f < 2 ^ 53"
    by (simp_all add: f_def)
  have "2 ^ (52 + e) \<le> f * 2 ^ e" and "f * 2 ^ e < 2 ^ Suc (52 + e)"
    using f by (simp_all add: power_add)
  then have "bitlen (dsc m) = Suc (52 + e)"
    unfolding dsc by (rule bitlen_eqI)
  then have k: "quantum (dsc m * d) d = e"
    using d by (simp add: quantum_def)
  have "rne (f * (d * 2 ^ e)) (d * 2 ^ e) = f"
    using d by (intro rne_exact) simp
  then have "rne (dsc m * d) (d * 2 ^ e) = f"
    by (simp add: dsc mult.commute mult.left_commute)
  then show ?thesis
    using assms(1) by (simp add: rnd_mag_eq k) (simp add: m min_def)
qed

text \<open>A representable bound on the exact result is a bound on the rounded one.\<close>

lemma rnd_mag_upper:
  assumes "m < inf_mag" "0 < d" "n \<le> dsc m * d"
  shows "rnd_mag n d \<le> m"
  using rnd_mag_mono [of d d n "dsc m * d"] rnd_mag_exact [OF assms(1,2)] assms by simp

lemma rnd_mag_lower:
  assumes "m < inf_mag" "0 < d" "dsc m * d \<le> n"
  shows "m \<le> rnd_mag n d"
  using rnd_mag_mono [of d d "dsc m * d" n] rnd_mag_exact [OF assms(1,2)] assms by simp

lemma dsc_strict_mono:
  assumes "m < m'" "m' < inf_mag"
  shows "dsc m < dsc m'"
proof (rule ccontr)
  assume "\<not> dsc m < dsc m'"
  then have "rnd_mag (dsc m' * 1) 1 \<le> rnd_mag (dsc m * 1) 1"
    by (intro rnd_mag_mono) simp_all
  with assms show False
    by (simp only: rnd_mag_exact [of m 1] rnd_mag_exact [of m' 1])
qed

lemma dsc_less_iff:
  assumes "m < inf_mag" "m' < inf_mag"
  shows "dsc m < dsc m' \<longleftrightarrow> m < m'"
  using dsc_strict_mono [of m m'] dsc_strict_mono [of m' m] assms
  by (metis linorder_neqE_nat order_less_asym')

text \<open>On finite values the comparisons are those of the exact values.\<close>

lemma dsc_zero [simp]: "dsc 0 = 0"
  by (simp add: dsc_def)

lemma sval_less_iff:
  assumes "is_finite x" "is_finite y"
  shows "sval x < sval y \<longleftrightarrow> dkey x < dkey y"
proof -
  have fin: "dmag x < inf_mag" "dmag y < inf_mag" "(0 :: nat) < inf_mag"
    using assms by (simp_all add: is_finite_def inf_mag_def)
  have pos: "0 < dsc (dmag z) \<longleftrightarrow> 0 < dmag z" if "dmag z < inf_mag" for z
    using dsc_less_iff [OF fin(3) that] by simp
  show ?thesis
    using dsc_less_iff [OF fin(1,2)] dsc_less_iff [OF fin(2,1)] pos [OF fin(1)] pos [OF fin(2)]
    by (cases "dneg x"; cases "dneg y") (auto simp: sval_def dkey_def)
qed

end
