(* ===== verification/Double_Eval.thy ===== *)
theory Double_Eval
  imports Double_Laws
begin

text \<open>
  Evaluation of the double operations by rewriting. The defining equations count in units of
  \<open>2 ^ -1074\<close>, so their intermediate numbers have thousands of bits; the equations here
  carry mantissas and exponents separately. They are collected in \<open>double_eval\<close>.
\<close>

named_theorems double_eval

definition dmant :: "nat \<Rightarrow> nat" where
  "dmant m = (if m < 2 ^ 52 then m else 2 ^ 52 + m mod 2 ^ 52)"

definition dexpo :: "nat \<Rightarrow> nat" where
  "dexpo m = m div 2 ^ 52 - 1"

lemma dsc_split: "dsc m = dmant m * 2 ^ dexpo m"
  by (simp add: dsc_def dmant_def dexpo_def)

lemma bitlen_numeral [double_eval]:
  "bitlen 0 = 0"
  "bitlen 1 = 1"
  "bitlen (Suc 0) = 1"
  "bitlen (numeral Num.One) = 1"
  "bitlen (numeral (Num.Bit0 n)) = Suc (bitlen (numeral n))"
  "bitlen (numeral (Num.Bit1 n)) = Suc (bitlen (numeral n))"
  by (simp_all add: bitlen.simps)

lemma rne_mult: "0 < c \<Longrightarrow> rne (n * c) (D * c) = rne n D"
proof -
  assume c: "0 < c"
  have "n * c mod (D * c) = n mod D * c" "n * c div (D * c) = n div D"
    using c by (simp_all add: mult_mod_left)
  moreover have "D * c < 2 * (r * c) \<longleftrightarrow> D < 2 * r" "D * c = 2 * (r * c) \<longleftrightarrow> D = 2 * r" for r
    using c by (simp_all add: mult.assoc [symmetric] del: mult.assoc)
  ultimately show ?thesis by (simp add: rne_def)
qed

lemma bitlen_mult_pow: "0 < n \<Longrightarrow> bitlen (n * 2 ^ s) = bitlen n + s"
proof (induction s)
  case (Suc s)
  have "bitlen (n * 2 ^ Suc s) = Suc (bitlen (n * 2 ^ s))"
    using Suc.prems by (subst bitlen.simps) (simp add: mult.left_commute)
  with Suc show ?case by simp
qed simp

lemma bitlen_div_pow: "bitlen (n div 2 ^ t) = bitlen n - t"
proof (induction t)
  case (Suc t)
  have "bitlen (n div 2 ^ Suc t) = bitlen (n div 2 ^ t div 2)"
    by (simp add: power_Suc2 div_mult2_eq del: power_Suc)
  also have "\<dots> = bitlen (n div 2 ^ t) - 1"
    by (subst (2) bitlen.simps) (simp add: bitlen.simps)
  finally show ?case using Suc by simp
qed simp

text \<open>Rounding of \<open>N * 2 ^ s\<close> and of \<open>N / 2 ^ t\<close> units.\<close>

definition rnd_up :: "nat \<Rightarrow> nat \<Rightarrow> nat" where
  "rnd_up N s =
     (if N = 0 then 0
      else let K = bitlen N + s - 53
           in min inf_mag (K * 2 ^ 52 + (if s \<le> K then rne N (2 ^ (K - s)) else N * 2 ^ (s - K))))"

definition rnd_down :: "nat \<Rightarrow> nat \<Rightarrow> nat" where
  "rnd_down N t = (let K = bitlen N - t - 53 in min inf_mag (K * 2 ^ 52 + rne N (2 ^ (t + K))))"

lemma rnd_mag_up: "rnd_mag (N * 2 ^ s) 1 = rnd_up N s"
proof (cases "N = 0")
  case True
  then show ?thesis by (simp add: rnd_up_def rnd_mag_eq quantum_def bitlen_numeral rne_def)
next
  case False
  define K where "K = bitlen N + s - 53"
  have q: "quantum (N * 2 ^ s) 1 = K"
    using False by (simp add: quantum_def bitlen_mult_pow K_def)
  have "rne (N * 2 ^ s) (2 ^ K) = (if s \<le> K then rne N (2 ^ (K - s)) else N * 2 ^ (s - K))"
  proof (cases "s \<le> K")
    case True
    then have "(2::nat) ^ K = 2 ^ (K - s) * 2 ^ s" by (simp flip: power_add)
    then show ?thesis using True by (simp add: rne_mult)
  next
    case False
    then have "N * 2 ^ s = (N * 2 ^ (s - K)) * 2 ^ K"
      by (simp only: mult.assoc power_add [symmetric]) simp
    then show ?thesis using False rne_exact [of "2 ^ K" "N * 2 ^ (s - K)"] by (simp only: if_False) simp
  qed
  then show ?thesis
    using False by (simp add: rnd_up_def rnd_mag_eq q Let_def K_def [symmetric] del: One_nat_def)
qed

lemma rnd_mag_down: "rnd_mag N (2 ^ t) = rnd_down N t"
  by (simp add: rnd_mag_eq rnd_down_def quantum_def bitlen_div_pow Let_def power_add)

lemma quantum_mult: "0 < c \<Longrightarrow> quantum (n * c) (d * c) = quantum n d"
  by (simp add: quantum_def)

lemma rnd_mag_mult: "0 < c \<Longrightarrow> rnd_mag (n * c) (d * c) = rnd_mag n d"
proof -
  assume c: "0 < c"
  have "rne (n * c) (d * c * 2 ^ k) = rne n (d * 2 ^ k)" for k
    using rne_mult [OF c, of n "d * 2 ^ k"] by (simp add: mult.assoc mult.commute mult.left_commute)
  then show ?thesis using c by (simp add: rnd_mag_eq quantum_mult)
qed

definition rnd_scaled :: "nat \<Rightarrow> nat \<Rightarrow> nat" where
  "rnd_scaled N s = (if emin \<le> s then rnd_up N (s - emin) else rnd_down N (emin - s))"

lemma rnd_mag_scaled: "rnd_mag (N * 2 ^ s) (2 ^ emin) = rnd_scaled N s"
proof (cases "emin \<le> s")
  case True
  then have "rnd_mag (N * 2 ^ s) (2 ^ emin) = rnd_mag ((N * 2 ^ (s - emin)) * 2 ^ emin) (1 * 2 ^ emin)"
    by (simp only: mult.assoc power_add [symmetric]) simp
  also have "\<dots> = rnd_up N (s - emin)" by (subst rnd_mag_mult) (simp_all add: rnd_mag_up [unfolded One_nat_def])
  finally show ?thesis using True by (simp add: rnd_scaled_def)
next
  case False
  then have "rnd_mag (N * 2 ^ s) (2 ^ emin) = rnd_mag (N * 2 ^ s) (2 ^ (emin - s) * 2 ^ s)"
    by (simp flip: power_add)
  also have "\<dots> = rnd_down N (emin - s)" by (subst rnd_mag_mult) (simp_all add: rnd_mag_down)
  finally show ?thesis using False by (simp add: rnd_scaled_def)
qed

text \<open>
  A quotient: scaling the numerator by \<open>2 ^ b\<close> is enough to find the quantum once the
  scaled numerator reaches the denominator; \<open>b = 110\<close> does for quotients of mantissas.
\<close>

lemma bitlen_scaled_div:
  assumes "0 < d" "d \<le> n * 2 ^ b" "b \<le> c"
  shows "bitlen (n * 2 ^ c div d) = bitlen (n * 2 ^ b div d) + (c - b)"
proof -
  have "n * 2 ^ c div d div 2 ^ (c - b) = n * 2 ^ b div d"
  proof -
    have "n * 2 ^ c div d div 2 ^ (c - b) = n * 2 ^ c div 2 ^ (c - b) div d"
      by (simp flip: div_mult2_eq add: mult.commute)
    also have "n * 2 ^ c div 2 ^ (c - b) = n * 2 ^ b"
    proof -
      have "n * 2 ^ c = n * 2 ^ b * 2 ^ (c - b)"
        using assms(3) by (simp only: mult.assoc power_add [symmetric]) simp
      then show ?thesis by (simp only:) simp
    qed
    finally show ?thesis .
  qed
  then have "bitlen (n * 2 ^ b div d) = bitlen (n * 2 ^ c div d) - (c - b)"
    using bitlen_div_pow [of "n * 2 ^ c div d" "c - b"] by simp
  moreover have "0 < n * 2 ^ b div d"
    using assms(1,2) by (simp add: div_greater_zero_iff)
  then have "0 < bitlen (n * 2 ^ b div d)"
    using bitlen_le_iff [of "n * 2 ^ b div d" 0] by (simp only: power_0) linarith
  ultimately show ?thesis by linarith
qed

definition rnd_quot :: "nat \<Rightarrow> nat \<Rightarrow> nat \<Rightarrow> nat \<Rightarrow> nat" where
  "rnd_quot b n d c =
     (let L = bitlen (n * 2 ^ b div d) + (c - b); K = L - 53
      in min inf_mag (K * 2 ^ 52 + (if K \<le> c then rne (n * 2 ^ (c - K)) d else rne n (d * 2 ^ (K - c)))))"

lemma rnd_mag_quot:
  assumes d: "0 < d" "d \<le> n * 2 ^ b" and c: "b \<le> c"
  shows "rnd_mag (n * 2 ^ c) d = rnd_quot b n d c"
proof -
  define K where "K = quantum (n * 2 ^ c) d"
  have "rne (n * 2 ^ c) (d * 2 ^ K) = (if K \<le> c then rne (n * 2 ^ (c - K)) d else rne n (d * 2 ^ (K - c)))"
  proof (cases "K \<le> c")
    case True
    then have "n * 2 ^ c = n * 2 ^ (c - K) * 2 ^ K"
      by (simp only: mult.assoc power_add [symmetric]) simp
    then show ?thesis using True rne_mult [of "2 ^ K" "n * 2 ^ (c - K)" d] by (simp only: if_True) simp
  next
    case False
    then have "d * 2 ^ K = d * 2 ^ (K - c) * 2 ^ c"
      by (simp only: mult.assoc power_add [symmetric]) simp
    then show ?thesis using False rne_mult [of "2 ^ c" n "d * 2 ^ (K - c)"] by (simp only: if_False) simp
  qed
  moreover have "K = bitlen (n * 2 ^ b div d) + (c - b) - 53"
    unfolding K_def quantum_def bitlen_scaled_div [OF d c] ..
  ultimately show ?thesis
    unfolding rnd_mag_eq rnd_quot_def Let_def K_def [symmetric] by (simp only:)
qed

section \<open>The operations\<close>

lemma rnd_mag_zero [simp]: "rnd_mag 0 d = 0"
  by (simp add: rnd_mag_eq quantum_def rne_def bitlen_numeral)

lemma times_double_eval:
  "x * y =
     (if is_nan x then quiet x else if is_nan y then quiet y
      else if is_inf x then
        (if is_zero y then default_nan else mk_double (dneg x \<noteq> dneg y) inf_mag)
      else if is_inf y then
        (if is_zero x then default_nan else mk_double (dneg x \<noteq> dneg y) inf_mag)
      else mk_double (dneg x \<noteq> dneg y)
        (rnd_scaled (dmant (dmag x) * dmant (dmag y)) (dexpo (dmag x) + dexpo (dmag y))))"
proof -
  have "dsc (dmag x) * dsc (dmag y) =
      dmant (dmag x) * dmant (dmag y) * 2 ^ (dexpo (dmag x) + dexpo (dmag y))"
    by (simp add: dsc_split power_add mult_ac)
  then show ?thesis by (simp only: times_double_def rnd_mag_scaled)
qed

definition rnd_div :: "nat \<Rightarrow> nat \<Rightarrow> nat" where
  "rnd_div a b =
     (let c = dexpo a + emin; e = dexpo b
      in if dmant a = 0 then 0
         else if e + 110 \<le> c \<and> dmant b \<le> dmant a * 2 ^ 110 then rnd_quot 110 (dmant a) (dmant b) (c - e)
         else rnd_mag (dsc a * 2 ^ emin) (dsc b))"

lemma rnd_div_eq: "0 < dsc b \<Longrightarrow> rnd_mag (dsc a * 2 ^ emin) (dsc b) = rnd_div a b"
proof -
  assume b: "0 < dsc b"
  then have mb: "0 < dmant b" by (simp add: dsc_split)
  let ?c = "dexpo a + emin" and ?e = "dexpo b"
  show ?thesis
  proof (cases "?e + 110 \<le> ?c \<and> dmant b \<le> dmant a * 2 ^ 110")
    case True
    then have "dsc a * 2 ^ emin = dmant a * 2 ^ (?c - ?e) * 2 ^ ?e"
      by (simp only: dsc_split mult.assoc power_add [symmetric]) simp
    then have "rnd_mag (dsc a * 2 ^ emin) (dsc b) = rnd_mag (dmant a * 2 ^ (?c - ?e)) (dmant b)"
      by (simp only: dsc_split [of b]) (simp add: rnd_mag_mult)
    also have "\<dots> = rnd_quot 110 (dmant a) (dmant b) (?c - ?e)"
      using True mb by (intro rnd_mag_quot) auto
    finally show ?thesis using True mb by (auto simp: rnd_div_def Let_def)
  next
    case False
    then show ?thesis by (auto simp: rnd_div_def Let_def dsc_split)
  qed
qed

lemma dsc_pos: "dsc m = 0 \<longleftrightarrow> m = 0"
  by (simp add: dsc_def)

lemma divide_double_eval:
  "x / y =
     (if is_nan x then quiet x else if is_nan y then quiet y
      else if is_inf x then
        (if is_inf y then default_nan else mk_double (dneg x \<noteq> dneg y) inf_mag)
      else if is_inf y then mk_double (dneg x \<noteq> dneg y) 0
      else if is_zero y then
        (if is_zero x then default_nan else mk_double (dneg x \<noteq> dneg y) inf_mag)
      else mk_double (dneg x \<noteq> dneg y) (rnd_div (dmag x) (dmag y)))"
  using rnd_div_eq [of "dmag y" "dmag x"] dsc_pos [of "dmag y"]
  by (auto simp: divide_double_def is_zero_def)

definition sig_mant :: "double \<Rightarrow> nat \<Rightarrow> int" where
  "sig_mant x e = (if dneg x then - 1 else 1) * int (dmant (dmag x) * 2 ^ (dexpo (dmag x) - e))"

lemma sval_sig_mant: "e \<le> dexpo (dmag x) \<Longrightarrow> sval x = sig_mant x e * 2 ^ e"
proof -
  assume "e \<le> dexpo (dmag x)"
  then have "dsc (dmag x) = dmant (dmag x) * 2 ^ (dexpo (dmag x) - e) * 2 ^ e"
    by (simp only: dsc_split mult.assoc power_add [symmetric]) simp
  then show ?thesis by (simp add: sval_def sig_mant_def)
qed

lemma dround_scaled: "dround z (n * 2 ^ e) 1 = (if n = 0 then mk_double z 0 else mk_double (n < 0) (rnd_up (nat \<bar>n\<bar>) e))"
proof -
  have "nat \<bar>n * 2 ^ e\<bar> = nat \<bar>n\<bar> * 2 ^ e"
    by (simp add: abs_mult nat_mult_distrib nat_power_eq)
  moreover have "n * 2 ^ e < 0 \<longleftrightarrow> n < 0"
    by (simp add: mult_less_0_iff)
  ultimately show ?thesis by (simp add: dround_def rnd_mag_up [unfolded One_nat_def])
qed

lemma plus_double_eval:
  "x + y =
     (if is_nan x then quiet x else if is_nan y then quiet y
      else if is_inf x then (if is_inf y \<and> dneg x \<noteq> dneg y then default_nan else x)
      else if is_inf y then y
      else let e = min (dexpo (dmag x)) (dexpo (dmag y)); n = sig_mant x e + sig_mant y e
           in if n = 0 then mk_double (dneg x \<and> dneg y) 0
              else mk_double (n < 0) (rnd_up (nat \<bar>n\<bar>) e))"
proof -
  let ?e = "min (dexpo (dmag x)) (dexpo (dmag y))"
  have "sval x + sval y = (sig_mant x ?e + sig_mant y ?e) * 2 ^ ?e"
    by (simp add: sval_sig_mant [of ?e x] sval_sig_mant [of ?e y] distrib_right)
  then show ?thesis by (simp only: plus_double_def dround_scaled Let_def)
qed

lemma d_of_int_eval:
  "d_of_int i = (if i = 0 then mk_double False 0 else mk_double (i < 0) (rnd_up (nat \<bar>i\<bar>) emin))"
  by (simp only: d_of_int_def dround_scaled)

lemma dlit_eval:
  "0 < d \<Longrightarrow> d \<le> nat \<bar>n\<bar> * 2 ^ 110 \<Longrightarrow> dlit n d = mk_double (n < 0) (rnd_quot 110 (nat \<bar>n\<bar>) d emin)"
proof -
  assume d: "0 < d" "d \<le> nat \<bar>n\<bar> * 2 ^ 110"
  then have "n \<noteq> 0" by auto
  moreover have "nat \<bar>n * 2 ^ emin\<bar> = nat \<bar>n\<bar> * 2 ^ emin"
    by (simp add: abs_mult nat_mult_distrib nat_power_eq)
  moreover have "n * 2 ^ emin < 0 \<longleftrightarrow> n < 0"
    by (simp add: mult_less_0_iff)
  ultimately show ?thesis
    using rnd_mag_quot [OF d, of emin] by (simp add: dlit_def dround_def emin_def)
qed

text \<open>
  For literals with very large numerators or denominators, a rounded value is checked
  rather than computed: \<open>q\<close> is within half a quantum.
\<close>

lemma rnd_magI:
  assumes d: "0 < d" and D: "D = d * 2 ^ K"
    and lower: "K = 0 \<or> 2 ^ 52 * D \<le> n" and upper: "n < 2 ^ 53 * D"
    and near: "2 * n < 2 * q * D + D" "2 * q * D < 2 * n + D"
    and range: "K * 2 ^ 52 + q \<le> inf_mag"
  shows "rnd_mag n d = K * 2 ^ 52 + q"
proof -
  have "n div d < 2 ^ (53 + K)"
    using upper d by (simp add: D div_less_iff_less_mult power_add mult_ac)
  then have "bitlen (n div d) \<le> 53 + K" by (simp only: bitlen_le_iff)
  moreover have "K = 0 \<or> \<not> bitlen (n div d) \<le> 52 + K"
    using lower d
    by (auto simp: bitlen_le_iff not_less D less_eq_div_iff_mult_less_eq power_add mult_ac)
  ultimately have k: "quantum n d = K" by (auto simp: quantum_def)
  have D0: "0 < D" using d by (simp add: D)
  have "rne n D = q"
  proof (cases "q * D \<le> n")
    case True
    then obtain r where r: "n = q * D + r" by (metis le_add_diff_inverse)
    with near(1) have "2 * r < D" by (simp add: distrib_left mult.assoc)
    then show ?thesis using D0 by (simp add: r rne_def)
  next
    case False
    then obtain p where q: "q = Suc p" by (cases q) auto
    have "p * D \<le> n" using near(2) False q by (simp add: algebra_simps)
    then obtain r where r: "n = p * D + r" by (metis le_add_diff_inverse)
    have "r < D" "D < 2 * r" using False near(2) by (simp_all add: q r algebra_simps)
    then show ?thesis by (simp add: r q rne_def)
  qed
  then show ?thesis using range by (simp add: rnd_mag_eq k D)
qed

lemma dlit_roundI:
  assumes "rnd_mag (nat \<bar>n\<bar> * 2 ^ emin) d = m" "n \<noteq> 0"
  shows "dlit n d = mk_double (n < 0) m"
proof -
  have "nat \<bar>n * 2 ^ emin\<bar> = nat \<bar>n\<bar> * 2 ^ emin"
    by (simp add: abs_mult nat_mult_distrib nat_power_eq)
  moreover have "n * 2 ^ emin < 0 \<longleftrightarrow> n < 0"
    by (simp add: mult_less_0_iff)
  ultimately show ?thesis using assms by (simp add: dlit_def dround_def)
qed

lemma dtrunc_eval:
  "dtrunc x = (let m = dmant (dmag x); e = dexpo (dmag x);
                   t = int (if emin \<le> e then m * 2 ^ (e - emin) else m div 2 ^ (emin - e))
               in if dneg x then - t else t)"
proof -
  have "dsc (dmag x) div 2 ^ emin =
    (if emin \<le> dexpo (dmag x) then dmant (dmag x) * 2 ^ (dexpo (dmag x) - emin)
     else dmant (dmag x) div 2 ^ (emin - dexpo (dmag x)))"
  proof (cases "emin \<le> dexpo (dmag x)")
    case True
    then have "dsc (dmag x) = dmant (dmag x) * 2 ^ (dexpo (dmag x) - emin) * 2 ^ emin"
      by (simp only: dsc_split mult.assoc power_add [symmetric]) simp
    with True show ?thesis by simp
  next
    case False
    then have "(2::nat) ^ emin = 2 ^ dexpo (dmag x) * 2 ^ (emin - dexpo (dmag x))"
      by (simp only: power_add [symmetric]) simp
    with False show ?thesis by (simp add: dsc_split div_mult2_eq)
  qed
  then show ?thesis by (simp add: dtrunc_def Let_def)
qed

section \<open>Rules for ground terms\<close>

text \<open>
  Each rule computes its arguments once: the helper functions take numbers the simplifier
  has already evaluated.
\<close>

definition rne_sel :: "nat \<Rightarrow> nat \<Rightarrow> nat \<Rightarrow> nat" where
  "rne_sel q r D = (if D < r + r \<or> (D = r + r \<and> odd q) then q + 1 else q)"

lemma rne_ground: "rne n D = rne_sel (n div D) (n mod D) D"
  by (simp add: rne_def rne_sel_def mult_2)

definition up_sel :: "nat \<Rightarrow> nat \<Rightarrow> nat \<Rightarrow> nat" where
  "up_sel N s K = min 9218868437227405312 (K * 4503599627370496 + (if s \<le> K then rne N (2 ^ (K - s)) else N * 2 ^ (s - K)))"

lemma rnd_up_ground: "rnd_up N s = (if N = 0 then 0 else up_sel N s (bitlen N + s - 53))"
  by (simp add: rnd_up_def up_sel_def inf_mag_def Let_def)

definition down_sel :: "nat \<Rightarrow> nat \<Rightarrow> nat \<Rightarrow> nat" where
  "down_sel N t K = min 9218868437227405312 (K * 4503599627370496 + rne N (2 ^ (t + K)))"

lemma rnd_down_ground: "rnd_down N t = down_sel N t (bitlen N - t - 53)"
  by (simp add: rnd_down_def down_sel_def inf_mag_def Let_def)

definition quot_sel :: "nat \<Rightarrow> nat \<Rightarrow> nat \<Rightarrow> nat \<Rightarrow> nat" where
  "quot_sel n d c K = min 9218868437227405312
     (K * 4503599627370496 + (if K \<le> c then rne (n * 2 ^ (c - K)) d else rne n (d * 2 ^ (K - c))))"

lemma rnd_quot_ground: "rnd_quot b n d c = quot_sel n d c (bitlen (n * 2 ^ b div d) + (c - b) - 53)"
  by (simp add: rnd_quot_def quot_sel_def inf_mag_def Let_def)

definition div_sel :: "nat \<Rightarrow> nat \<Rightarrow> nat \<Rightarrow> nat \<Rightarrow> nat \<Rightarrow> nat \<Rightarrow> nat" where
  "div_sel a b ma mb c e =
     (if ma = 0 then 0
      else if e + 110 \<le> c \<and> mb \<le> ma * 2 ^ 110 then rnd_quot 110 ma mb (c - e)
      else rnd_mag (dsc a * 2 ^ emin) (dsc b))"

lemma rnd_div_ground: "rnd_div a b = div_sel a b (dmant a) (dmant b) (dexpo a + 1074) (dexpo b)"
  by (simp add: rnd_div_def div_sel_def Let_def emin_def)

definition add_sel :: "bool \<Rightarrow> int \<Rightarrow> nat \<Rightarrow> double" where
  "add_sel z n e = (if n = 0 then mk_double z 0 else mk_double (n < 0) (rnd_up (nat \<bar>n\<bar>) e))"

definition smant :: "bool \<Rightarrow> nat \<Rightarrow> nat \<Rightarrow> int" where
  "smant s m k = (if s then - int (m * 2 ^ k) else int (m * 2 ^ k))"

definition add_exp :: "bool \<Rightarrow> nat \<Rightarrow> nat \<Rightarrow> bool \<Rightarrow> nat \<Rightarrow> nat \<Rightarrow> nat \<Rightarrow> double" where
  "add_exp s m i t n j e = add_sel (s \<and> t) (smant s m (i - e) + smant t n (j - e)) e"

definition add_mag :: "bool \<Rightarrow> nat \<Rightarrow> nat \<Rightarrow> bool \<Rightarrow> nat \<Rightarrow> nat \<Rightarrow> double" where
  "add_mag s m i t n j = add_exp s m i t n j (min i j)"

lemma plus_double_ground:
  "is_finite x \<Longrightarrow> is_finite y \<Longrightarrow>
   x + y = add_mag (dneg x) (dmant (dmag x)) (dexpo (dmag x)) (dneg y) (dmant (dmag y)) (dexpo (dmag y))"
proof -
  assume fin: "is_finite x" "is_finite y"
  have smant: "smant (dneg z) (dmant (dmag z)) (dexpo (dmag z) - e) = sig_mant z e" for z e
    by (simp add: smant_def sig_mant_def)
  have "\<not> is_nan x" "\<not> is_nan y" "\<not> is_inf x" "\<not> is_inf y"
    using fin by (simp_all add: is_finite_def is_nan_def is_inf_def)
  then show ?thesis
    by (simp only: plus_double_eval add_mag_def add_exp_def add_sel_def smant Let_def if_False)
qed

lemma minus_double_ground: "is_finite x \<Longrightarrow> is_finite y \<Longrightarrow> x - y = x + - y"
  by (simp add: minus_double_def is_finite_def is_nan_def)

lemma times_double_ground:
  "is_finite x \<Longrightarrow> is_finite y \<Longrightarrow>
   x * y = mk_double (dneg x \<noteq> dneg y)
     (rnd_scaled (dmant (dmag x) * dmant (dmag y)) (dexpo (dmag x) + dexpo (dmag y)))"
  by (simp add: times_double_eval is_finite_def is_nan_def is_inf_def)

lemma divide_double_ground:
  "is_finite x \<Longrightarrow> is_finite y \<Longrightarrow> \<not> is_zero y \<Longrightarrow>
   x / y = mk_double (dneg x \<noteq> dneg y) (rnd_div (dmag x) (dmag y))"
  by (simp add: divide_double_eval is_finite_def is_nan_def is_inf_def)

definition trunc_sel :: "bool \<Rightarrow> nat \<Rightarrow> nat \<Rightarrow> int" where
  "trunc_sel s m e =
     (if s then - int (if 1074 \<le> e then m * 2 ^ (e - 1074) else m div 2 ^ (1074 - e))
      else int (if 1074 \<le> e then m * 2 ^ (e - 1074) else m div 2 ^ (1074 - e)))"

lemma dtrunc_ground: "dtrunc x = trunc_sel (dneg x) (dmant (dmag x)) (dexpo (dmag x))"
  by (simp add: dtrunc_eval trunc_sel_def Let_def emin_def)

definition to_s32_sel :: "bool \<Rightarrow> int \<Rightarrow> s32" where
  "to_s32_sel f t = (if f \<and> - 2147483648 \<le> t \<and> t < 2147483648 then word_of_int t else 2147483648)"

lemma d_to_s32_ground: "d_to_s32 x = to_s32_sel (is_finite x) (dtrunc x)"
  by (simp add: d_to_s32_def to_s32_sel_def)

lemma d_of_int_ground:
  "d_of_int i = (if i = 0 then mk_double False 0 else mk_double (i < 0) (rnd_up (nat \<bar>i\<bar>) 1074))"
  by (simp add: d_of_int_eval emin_def)

lemma dlit_ground:
  "0 < d \<Longrightarrow> d \<le> nat \<bar>n\<bar> * 2 ^ 110 \<Longrightarrow> dlit n d = mk_double (n < 0) (rnd_quot 110 (nat \<bar>n\<bar>) d 1074)"
  by (simp add: dlit_eval emin_def)

lemma dmag_ground: "dmag (Double w) = unat w mod 9223372036854775808"
  by (simp add: dmag_def)

lemma dneg_ground: "dneg (Double w) \<longleftrightarrow> 9223372036854775808 \<le> unat w"
  by (simp add: dneg_def)

lemma mant_expo_ground:
  "dmant m = (if m < 4503599627370496 then m else 4503599627370496 + m mod 4503599627370496)"
  "dexpo m = m div 4503599627370496 - 1"
  by (simp_all add: dmant_def dexpo_def)

lemma mk_double_ground:
  "mk_double True m = Double (word_of_nat (9223372036854775808 + m))"
  "mk_double False m = Double (word_of_nat m)"
  by (simp_all add: mk_double_def)

lemma scaled_ground: "rnd_scaled N s = (if 1074 \<le> s then rnd_up N (s - 1074) else rnd_down N (1074 - s))"
  by (simp add: rnd_scaled_def emin_def)

lemma uminus_double_ground: "- Double w = mk_double (\<not> 9223372036854775808 \<le> unat w) (unat w mod 9223372036854775808)"
  by (simp add: uminus_double_def dmag_def dneg_def)

lemma one_double_ground: "(1 :: double) = Double 0x3FF0000000000000"
  by (simp add: one_double_def mk_double_def)

lemma zero_double_ground: "(0 :: double) = Double 0"
  by (simp add: zero_double_def mk_double_def)

lemma class_ground:
  "is_finite (Double w) \<longleftrightarrow> unat w mod 9223372036854775808 < 9218868437227405312"
  "is_nan (Double w) \<longleftrightarrow> 9218868437227405312 < unat w mod 9223372036854775808"
  "is_inf (Double w) \<longleftrightarrow> unat w mod 9223372036854775808 = 9218868437227405312"
  "is_zero (Double w) \<longleftrightarrow> unat w mod 9223372036854775808 = 0"
  by (simp_all add: is_finite_def is_nan_def is_inf_def is_zero_def dmag_def inf_mag_def)

lemmas double_ground [double_eval] =
  rne_ground rne_sel_def rnd_up_ground up_sel_def rnd_down_ground down_sel_def rnd_quot_ground quot_sel_def
  rnd_div_ground div_sel_def add_sel_def smant_def add_exp_def add_mag_def
  plus_double_ground minus_double_ground times_double_ground divide_double_ground
  trunc_sel_def dtrunc_ground to_s32_sel_def d_to_s32_ground d_of_int_ground dlit_ground
  dmag_ground dneg_ground mant_expo_ground mk_double_ground scaled_ground uminus_double_ground
  one_double_ground zero_double_ground class_ground less_double_def less_eq_double_def dkey_def

end
