(* ===== verification/Double_Mono.thy ===== *)
theory Double_Mono
  imports Double_Eval
begin

text \<open>
  Monotonicity of the rounded operations on finite doubles, and the signs of squares. With
  them the range of an expression follows from its values at the end points, which are
  evaluated.
\<close>

section \<open>Keys of rounded results\<close>

lemma dkey_rnd [simp]: "dkey (mk_double s (rnd_mag n d)) = (if s then - int (rnd_mag n d) else int (rnd_mag n d))"
  by (simp add: dkey_def)

lemma dkey_mk_zero [simp]: "dkey (mk_double s 0) = 0"
  by (simp add: dkey_def)

lemma nan_mk_zero [simp]: "\<not> is_nan (mk_double s 0)"
  by (simp add: is_nan_def)

lemma nan_dround [simp]: "\<not> is_nan (dround z n d)"
  by (simp add: dround_def)

lemma dkey_dround:
  "dkey (dround z n d) = (if n < 0 then - int (rnd_mag (nat (- n)) d) else int (rnd_mag (nat n) d))"
  by (simp add: dround_def)

lemma dkey_dround_mono:
  assumes "0 < d" "n \<le> n'"
  shows "dkey (dround z n d) \<le> dkey (dround z' n' d)"
proof -
  have "rnd_mag (nat a) d \<le> rnd_mag (nat b) d" if "a \<le> b" for a b
    using assms(1) that by (intro rnd_mag_mono) (simp_all add: nat_mono)
  with assms(2) show ?thesis by (auto simp: dkey_dround)
qed

lemma d_of_int_mono: "i \<le> j \<Longrightarrow> d_of_int i \<le> d_of_int j"
  unfolding d_of_int_def double_le_iff by (simp add: dkey_dround_mono del: One_nat_def)

lemma d_of_int_not_nan [simp]: "\<not> is_nan (d_of_int i)"
  by (simp add: d_of_int_def)

lemma dlit_not_nan [simp]: "\<not> is_nan (dlit n d)"
  by (simp add: dlit_def)

lemma sval_le_iff: "is_finite x \<Longrightarrow> is_finite y \<Longrightarrow> sval x \<le> sval y \<longleftrightarrow> dkey x \<le> dkey y"
  using sval_less_iff [of y x] by linarith

lemma finite_not_nan: "is_finite x \<Longrightarrow> \<not> is_nan x" "is_finite x \<Longrightarrow> \<not> is_inf x"
  by (simp_all add: is_finite_def is_nan_def is_inf_def)

section \<open>Monotone operations\<close>

lemma plus_finite: "is_finite x \<Longrightarrow> is_finite y \<Longrightarrow> x + y = dround (dneg x \<and> dneg y) (sval x + sval y) 1"
  by (simp add: plus_double_def finite_not_nan)

lemma plus_mono:
  assumes "is_finite x" "is_finite y" "is_finite c" "x \<le> y"
  shows "x + c \<le> y + c"
  using assms sval_le_iff [of x y]
  by (simp add: plus_finite double_le_iff dkey_dround_mono del: One_nat_def)

lemma times_finite:
  "is_finite x \<Longrightarrow> is_finite y \<Longrightarrow>
   x * y = mk_double (dneg x \<noteq> dneg y) (rnd_mag (dsc (dmag x) * dsc (dmag y)) (2 ^ emin))"
  by (simp add: times_double_def finite_not_nan)

lemma dsc_mono: "m \<le> m' \<Longrightarrow> m' < inf_mag \<Longrightarrow> dsc m \<le> dsc m'"
  using dsc_strict_mono [of m m'] by (cases "m = m'") auto

lemma signed_mag_mono:
  assumes "dkey x \<le> dkey y" "is_finite x" "is_finite y"
    and mono: "\<And>m m'. m \<le> m' \<Longrightarrow> m' < inf_mag \<Longrightarrow> f m \<le> (f m' :: nat)" and zero: "f 0 = 0"
  shows "(if dneg x then - int (f (dmag x)) else int (f (dmag x)))
       \<le> (if dneg y then - int (f (dmag y)) else int (f (dmag y)))"
proof -
  have "dmag y \<le> dmag x" if "dneg x" "dneg y" using assms(1) that by (simp add: dkey_def)
  moreover have "dmag x \<le> dmag y" if "\<not> dneg x" "\<not> dneg y" using assms(1) that by (simp add: dkey_def)
  moreover have "dmag x = 0 \<and> dmag y = 0" if "\<not> dneg x" "dneg y" using assms(1) that by (simp add: dkey_def)
  ultimately show ?thesis
    using mono [of "dmag y" "dmag x"] mono [of "dmag x" "dmag y"] assms(2,3) zero
    by (auto simp: is_finite_def)
qed

lemma times_mono:
  assumes fin: "is_finite x" "is_finite y" "is_finite c" and c: "\<not> dneg c" and le: "x \<le> y"
  shows "x * c \<le> y * c"
proof -
  let ?f = "\<lambda>m. rnd_mag (dsc m * dsc (dmag c)) (2 ^ emin)"
  have "?f m \<le> ?f m'" if "m \<le> m'" "m' < inf_mag" for m m'
    using dsc_mono [OF that] by (intro rnd_mag_mono) simp_all
  then show ?thesis
    using signed_mag_mono [of x y ?f] fin c le by (simp add: times_finite double_le_iff)
qed

lemma times_finite_commute: "is_finite x \<Longrightarrow> is_finite y \<Longrightarrow> x * y = y * x"
  by (simp add: times_finite mult.commute eq_commute [of "dneg x"])

lemma divide_finite:
  "is_finite x \<Longrightarrow> is_finite y \<Longrightarrow> \<not> is_zero y \<Longrightarrow>
   x / y = mk_double (dneg x \<noteq> dneg y) (rnd_mag (dsc (dmag x) * 2 ^ emin) (dsc (dmag y)))"
  by (simp add: divide_double_def finite_not_nan)

lemma divide_mono:
  assumes fin: "is_finite x" "is_finite y" "is_finite c" and c: "\<not> dneg c" "\<not> is_zero c" and le: "x \<le> y"
  shows "x / c \<le> y / c"
proof -
  let ?f = "\<lambda>m. rnd_mag (dsc m * 2 ^ emin) (dsc (dmag c))"
  have "0 < dsc (dmag c)" using c dsc_pos [of "dmag c"] by (simp add: is_zero_def)
  then have "?f m \<le> ?f m'" if "m \<le> m'" "m' < inf_mag" for m m'
    using dsc_mono [OF that] by (intro rnd_mag_mono) simp_all
  then show ?thesis
    using signed_mag_mono [of x y ?f] fin c le by (simp add: divide_finite double_le_iff)
qed

text \<open>A value between two finite ones is finite.\<close>

lemma between_finite: "lo \<le> x \<Longrightarrow> x \<le> hi \<Longrightarrow> is_finite lo \<Longrightarrow> is_finite hi \<Longrightarrow> is_finite x"
  by (auto simp: double_le_iff dkey_def is_finite_def split: if_splits)

section \<open>Signs\<close>

lemma zero_le_iff: "(0 :: double) \<le> x \<longleftrightarrow> \<not> is_nan x \<and> (dneg x \<longrightarrow> is_zero x)"
  by (auto simp: double_le_iff zero_double_def dkey_def is_zero_def)

lemma nan_quiet: "is_nan x \<Longrightarrow> is_nan (quiet x)"
proof -
  have mag: "int (dmag y) = take_bit 63 (uint (dbits y))" for y
    by (simp add: dmag_def take_bit_eq_mod zmod_int)
  have "take_bit 63 (uint (dbits x)) \<le> take_bit 63 (uint (dbits x OR 2 ^ 51))"
    by (simp only: unsigned_or_eq take_bit_or or_greater_eq take_bit_nonnegative)
  then have "dmag x \<le> dmag (quiet x)"
    using mag [of x] mag [of "quiet x"] unfolding quiet_def double.sel by linarith
  then show "is_nan x \<Longrightarrow> is_nan (quiet x)" by (simp add: is_nan_def)
qed

lemma square_nonneg: "is_nan (x * x) \<or> (0 :: double) \<le> x * x"
proof -
  consider "is_nan x" | "is_inf x" "\<not> is_nan x" | "is_finite x"
    using linorder_cases [of "dmag x" inf_mag] unfolding is_nan_def is_inf_def is_finite_def by blast
  then show ?thesis
  proof cases
    case 1
    then show ?thesis by (simp add: times_double_def nan_quiet)
  next
    case 2
    then show ?thesis
      by (simp add: times_double_def zero_le_iff is_nan_def is_inf_def is_zero_def inf_mag_def)
  next
    case 3
    then show ?thesis by (simp add: times_finite zero_le_iff)
  qed
qed

end
