(* ===== verification/Exp_Fabs.thy ===== *)
theory Exp_Fabs
  imports Double_Mono
begin

text \<open>
  The floating-point routines the kernel module brings with it: \<open>include/exp.h\<close> (the Sun
  exponential) and \<open>include/fabs.h\<close>. The bit-level macros work on the two halves of the
  pattern, little-endian; the locals the C code may leave uninitialised are parameters of
  the model, and the first theorem says that they never matter.
\<close>

section \<open>Access to the halves of a double\<close>

definition GET_HIGH_WORD :: "double \<Rightarrow> u32" where
  "GET_HIGH_WORD d = ucast (drop_bit 32 (dbits d))"

definition GET_LOW_WORD :: "double \<Rightarrow> u32" where
  "GET_LOW_WORD d = ucast (dbits d)"

definition SET_HIGH_WORD :: "double \<Rightarrow> u32 \<Rightarrow> double" where
  "SET_HIGH_WORD d v = Double (push_bit 32 (ucast v) OR (dbits d AND 0xFFFFFFFF))"

definition SET_LOW_WORD :: "double \<Rightarrow> u32 \<Rightarrow> double" where
  "SET_LOW_WORD d v = Double ((dbits d AND 0xFFFFFFFF00000000) OR ucast v)"

section \<open>Constants\<close>

text \<open>The decimal literals of the source; a literal is rounded to the nearest double.\<close>

definition exp_one :: double where "exp_one = dlit 1 1"
definition halF :: "nat \<Rightarrow> double" where
  "halF i = [dlit 5 10, dlit (- 5) 10] ! i"
definition exp_huge :: double where "exp_huge = dlit (10 ^ 300) 1"
definition twom1000 :: double where "twom1000 = dlit 933263618503218878990 (10 ^ 322)"
definition o_threshold :: double where "o_threshold = dlit 709782712893383973096 (10 ^ 18)"
definition u_threshold :: double where "u_threshold = dlit (- 745133219101941108420) (10 ^ 18)"
definition ln2HI :: "nat \<Rightarrow> double" where
  "ln2HI i = [dlit 693147180369123816490 (10 ^ 21), dlit (- 693147180369123816490) (10 ^ 21)] ! i"
definition ln2LO :: "nat \<Rightarrow> double" where
  "ln2LO i = [dlit 190821492927058770002 (10 ^ 30), dlit (- 190821492927058770002) (10 ^ 30)] ! i"
definition invln2 :: double where "invln2 = dlit 144269504088896338700 (10 ^ 20)"
definition exp_P1 :: double where "exp_P1 = dlit 166666666666666019037 (10 ^ 21)"
definition exp_P2 :: double where "exp_P2 = dlit (- 277777777770155933842) (10 ^ 23)"
definition exp_P3 :: double where "exp_P3 = dlit 661375632143793436117 (10 ^ 25)"
definition exp_P4 :: double where "exp_P4 = dlit (- 165339022054652515390) (10 ^ 26)"
definition exp_P5 :: double where "exp_P5 = dlit 413813679705723846039 (10 ^ 28)"

section \<open>The exponential\<close>

text \<open>The primary-range evaluation after argument reduction, and the scaling by \<open>2 ^ k\<close>.\<close>

definition exp_primary :: "double \<Rightarrow> double \<Rightarrow> double \<Rightarrow> s32 \<Rightarrow> double" where
  "exp_primary x hi lo k =
     (let t = x * x;
          c = x - t * (exp_P1 + t * (exp_P2 + t * (exp_P3 + t * (exp_P4 + t * exp_P5))))
      in if k = 0 then exp_one - ((x * c) / (c - dlit 2 1) - x)
         else
           let y = exp_one - ((lo - (x * c) / (dlit 2 1 - c)) - hi)
           in if - 1021 \<le> sint k
              then SET_HIGH_WORD y (GET_HIGH_WORD y + push_bit 20 k)
              else SET_HIGH_WORD y (GET_HIGH_WORD y + push_bit 20 (k + 1000)) * twom1000)"

text \<open>
  \<open>hi0\<close>, \<open>lo0\<close> and \<open>k0\<close> are the values the locals \<open>hi\<close>, \<open>lo\<close> and \<open>k\<close> happen to have on
  entry; the branch for tiny arguments falls through without assigning them.
\<close>

definition ieee754_exp :: "double \<Rightarrow> double \<Rightarrow> s32 \<Rightarrow> double \<Rightarrow> double" where
  "ieee754_exp hi0 lo0 k0 x =
     (let hx0 = GET_HIGH_WORD x;
          xsb = unat (drop_bit 31 hx0 AND 1);
          hx = hx0 AND 0x7fffffff
      in if 0x40862E42 \<le> hx \<and> 0x7ff00000 \<le> hx then
           (if (hx AND 0xfffff) OR GET_LOW_WORD x \<noteq> 0 then x + x
            else if xsb = 0 then x else dlit 0 1)
         else if 0x40862E42 \<le> hx \<and> o_threshold < x then exp_huge * exp_huge
         else if 0x40862E42 \<le> hx \<and> x < u_threshold then twom1000 * twom1000
         else if 0x3fd62e42 < hx then
           (if hx < 0x3FF0A2B2 then
              let hi = x - ln2HI xsb; lo = ln2LO xsb; k = 1 - of_nat xsb - of_nat xsb
              in exp_primary (hi - lo) hi lo k
            else
              let k = d_to_s32 (invln2 * x + halF xsb);
                  t = d_of_int (sint k);
                  hi = x - t * ln2HI 0; lo = t * ln2LO 0
              in exp_primary (hi - lo) hi lo k)
         else if hx < 0x3e300000 then
           (if exp_one < exp_huge + x then exp_one + x else exp_primary x hi0 lo0 k0)
         else exp_primary x hi0 lo0 0)"

definition kexp :: "double \<Rightarrow> double" where
  "kexp x = ieee754_exp 0 0 0 x"

section \<open>Absolute value\<close>

definition kfabs :: "double \<Rightarrow> double" where
  "kfabs a = (if dlit 0 1 < a then a else - a)"

section \<open>Bit-level lemmas\<close>

lemma unat_high: "unat (GET_HIGH_WORD d) = unat (dbits d) div 2 ^ 32"
proof -
  have "unat (dbits d) < 2 ^ 64" using unsigned_less [of "dbits d"] by simp
  then have "unat (dbits d) div 2 ^ 32 < 2 ^ 32" by (simp add: div_less_iff_less_mult)
  then show ?thesis
    by (simp add: GET_HIGH_WORD_def unsigned_ucast_eq drop_bit_eq_div unat_div_distrib
        take_bit_nat_eq_self)
qed

lemma unat_low: "unat (GET_LOW_WORD d) = unat (dbits d) mod 2 ^ 32"
  by (simp add: GET_LOW_WORD_def unsigned_ucast_eq take_bit_eq_mod)

lemma and_mask_31: "unat ((w :: u32) AND 0x7fffffff) = unat w mod 2 ^ 31"
proof -
  have "w AND 0x7fffffff = take_bit 31 w"
    by (simp add: take_bit_eq_mask mask_eq_exp_minus_1)
  then show ?thesis by (simp add: take_bit_eq_mod unat_mod_distrib)
qed

lemma and_mask_20: "unat ((w :: u32) AND 0xfffff) = unat w mod 2 ^ 20"
proof -
  have "w AND 0xfffff = take_bit 20 w"
    by (simp add: take_bit_eq_mask mask_eq_exp_minus_1)
  then show ?thesis by (simp add: take_bit_eq_mod unat_mod_distrib)
qed

text \<open>The masked high word is the high half of the magnitude.\<close>

lemma unat_hx: "unat (GET_HIGH_WORD d AND 0x7fffffff) = dmag d div 2 ^ 32"
proof -
  have "(2::nat) ^ 63 = 2 ^ 32 * 2 ^ 31" by simp
  then show ?thesis
    by (simp only: and_mask_31 unat_high dmag_def mod_mult2_eq) simp
qed

lemma xsb_sign: "unat (drop_bit 31 (GET_HIGH_WORD d) AND 1) = (if dneg d then 1 else 0)"
proof -
  have b: "unat (dbits d) < 2 * 2 ^ 63" using unsigned_less [of "dbits d"] by simp
  have "unat (drop_bit 31 (GET_HIGH_WORD d) AND 1) = unat (dbits d) div 2 ^ 63 mod 2"
    by (simp add: and_one_eq unat_mod_distrib unat_div_distrib drop_bit_eq_div unat_high
        div_mult2_eq [symmetric])
  also have "\<dots> = (if dneg d then 1 else 0)"
    using b by (auto simp: dneg_def div_nat_eqI)
  finally show ?thesis .
qed

lemma hx_le_iff: "numeral n \<le> GET_HIGH_WORD x AND 0x7fffffff \<longleftrightarrow> unat (numeral n :: u32) * 2 ^ 32 \<le> dmag x"
  by (simp add: word_le_nat_alt unat_hx less_eq_div_iff_mult_less_eq)

lemma hx_less_iff: "GET_HIGH_WORD x AND 0x7fffffff < numeral n \<longleftrightarrow> dmag x < unat (numeral n :: u32) * 2 ^ 32"
  by (simp add: word_less_nat_alt unat_hx div_less_iff_less_mult)

text \<open>The test for a NaN: the fraction bits, split over the two halves, are not all zero.\<close>

lemma frac_zero_iff:
  assumes "0x7ff00000 * 2 ^ 32 \<le> dmag x"
  shows "((GET_HIGH_WORD x AND 0x7fffffff) AND 0xfffff) OR GET_LOW_WORD x = 0 \<longleftrightarrow> dmag x = inf_mag"
proof -
  have "((GET_HIGH_WORD x AND 0x7fffffff) AND 0xfffff) OR GET_LOW_WORD x = 0 \<longleftrightarrow>
      unat ((GET_HIGH_WORD x AND 0x7fffffff) AND 0xfffff) = 0 \<and> unat (GET_LOW_WORD x) = 0"
    by (simp add: or_eq_0_iff unsigned_eq_0_iff)
  also have "\<dots> \<longleftrightarrow> dmag x div 2 ^ 32 mod 2 ^ 20 = 0 \<and> dmag x mod 2 ^ 32 = 0"
  proof -
    have "(2::nat) ^ 63 = 2 ^ 32 * 2 ^ 31" by simp
    then have "dmag x mod 2 ^ 32 = unat (dbits x) mod 2 ^ 32"
      by (simp only: dmag_def mod_mult2_eq) simp
    then show ?thesis by (simp only: and_mask_20 unat_hx unat_low)
  qed
  also have "\<dots> \<longleftrightarrow> dmag x = inf_mag"
  proof -
    define A where "A = dmag x div 2 ^ 32 - 0x7ff00000"
    have ge: "0x7ff00000 \<le> dmag x div 2 ^ 32"
      using assms by (simp add: less_eq_div_iff_mult_less_eq)
    have "dmag x div 2 ^ 32 < 2 ^ 31"
      using dmag_less [of x] by (simp add: div_less_iff_less_mult)
    then have A: "dmag x div 2 ^ 32 = 0x7ff00000 + A" "A < 2 ^ 20"
      using ge by (simp_all add: A_def)
    have "(0x7ff00000 + A) mod 2 ^ 20 = A"
      using A(2) mod_mult_self3 [of "0x7ff" "2 ^ 20" A] by simp
    then show ?thesis
      using div_mult_mod_eq [of "dmag x" "2 ^ 32"] A by (auto simp: inf_mag_def)
  qed
  finally show ?thesis .
qed

section \<open>Properties of the exponential\<close>

text \<open>The literals have the bit patterns the source's comments intend.\<close>

lemma exp_constants:
  "exp_one = Double 0x3FF0000000000000"
  "o_threshold = Double 0x40862E42FEFA39EF"
  "u_threshold = Double 0xC0874910D52D3051"
  by (simp_all add: exp_one_def o_threshold_def u_threshold_def double_eval)

lemma exp_huge_bits: "exp_huge = Double 0x7E37E43C8800759C"
proof -
  have "rnd_mag (nat \<bar>10 ^ 300\<bar> * 2 ^ emin) 1 = 2018 * 2 ^ 52 + 0x17E43C8800759C"
    by (rule rnd_magI [where D = "2 ^ 2018"]) (simp_all add: emin_def inf_mag_def)
  then have "exp_huge = mk_double (10 ^ 300 < (0::int)) (2018 * 2 ^ 52 + 0x17E43C8800759C)"
    unfolding exp_huge_def by (rule dlit_roundI) simp
  then show ?thesis by (simp add: mk_double_def)
qed

lemma twom1000_bits: "twom1000 = Double 0x0170000000000000"
proof -
  have "rnd_mag (nat \<bar>933263618503218878990\<bar> * 2 ^ emin) (10 ^ 322) = 21 * 2 ^ 52 + 2 ^ 53"
    by (rule rnd_magI [where D = "10 ^ 322 * 2 ^ 21"]) (simp_all add: emin_def inf_mag_def)
  then have "twom1000 = mk_double (933263618503218878990 < (0::int)) (21 * 2 ^ 52 + 2 ^ 53)"
    unfolding twom1000_def by (rule dlit_roundI) simp
  then show ?thesis by (simp add: mk_double_def)
qed

text \<open>Adding a tiny value to \<open>huge\<close> stays above one.\<close>

lemma dsc_double:
  assumes "2 ^ 53 \<le> m"
  shows "dsc m = 2 * dsc (m - 2 ^ 52)"
proof -
  have e: "2 \<le> m div 2 ^ 52" using assms by (simp add: less_eq_div_iff_mult_less_eq)
  have "(m - 2 ^ 52) mod 2 ^ 52 = m mod 2 ^ 52" "(m - 2 ^ 52) div 2 ^ 52 = m div 2 ^ 52 - 1"
    using assms by (simp_all add: le_mod_geq [symmetric] le_div_geq)
  moreover have "(2::nat) ^ (m div 2 ^ 52 - 1) = 2 * 2 ^ (m div 2 ^ 52 - 1 - 1)"
    using e by (simp add: Suc_diff_Suc numeral_2_eq_2 flip: power_Suc)
  ultimately show ?thesis
    using assms linorder_not_less [of m "2 ^ 52"] le_diff_conv2 [of "2 ^ 52" m "2 ^ 52"]
    by (simp add: dsc_def linorder_not_less)
qed

lemma huge_plus_tiny:
  assumes "dmag x < 0x3e300000 * 2 ^ 32"
  shows "exp_one < exp_huge + x"
proof -
  let ?H = "0x7E37E43C8800759C :: nat" and ?M = "0x3e300000 * 2 ^ 32 :: nat"
  have fin: "is_finite x" "is_finite exp_huge"
    using assms by (simp_all add: is_finite_def inf_mag_def exp_huge_bits dmag_ground)
  have h: "sval exp_huge = int (dsc ?H)"
    by (simp add: sval_def exp_huge_bits dneg_ground dmag_ground)
  have "dsc (dmag x) \<le> dsc ?M"
    using dsc_strict_mono [of "dmag x" ?M] assms by (simp add: inf_mag_def)
  then have "- int (dsc ?M) \<le> sval x" by (simp add: sval_def)
  moreover have "dsc 0x4000000000000000 + dsc ?M \<le> dsc ?H"
  proof -
    have "dsc 0x4000000000000000 \<le> dsc (?H - 2 ^ 52)" and "dsc ?M \<le> dsc (?H - 2 ^ 52)"
      by (intro less_imp_le dsc_strict_mono, simp, simp add: inf_mag_def)+
    moreover have "dsc ?H = 2 * dsc (?H - 2 ^ 52)" by (rule dsc_double) simp
    ultimately show ?thesis by linarith
  qed
  ultimately have ge: "int (dsc 0x4000000000000000) \<le> sval exp_huge + sval x"
    unfolding h by linarith
  have pos: "0 < int (dsc 0x4000000000000000)" by (simp only: of_nat_0_less_iff neq0_conv [symmetric] dsc_pos)
  with ge have n: "0 < sval exp_huge + sval x" by linarith
  have "dsc 0x4000000000000000 * 1 \<le> nat \<bar>sval exp_huge + sval x\<bar>"
    using ge n by linarith
  then have "0x4000000000000000 \<le> rnd_mag (nat \<bar>sval exp_huge + sval x\<bar>) 1"
    by (intro rnd_mag_lower) (simp_all add: inf_mag_def)
  moreover have "exp_huge + x = mk_double False (rnd_mag (nat \<bar>sval exp_huge + sval x\<bar>) 1)"
    using fin n by (simp add: plus_double_def is_finite_def is_nan_def is_inf_def dround_def)
  moreover have "\<not> is_nan exp_one" "dkey exp_one = 0x3FF0000000000000"
    by (simp_all add: exp_constants(1) double_eval)
  ultimately show ?thesis
    by (simp add: double_less_iff dkey_def [of "mk_double s m" for s m])
qed

text \<open>
  The locals \<open>hi\<close>, \<open>lo\<close> and \<open>k\<close> that the branch for tiny arguments leaves unassigned
  never reach the result of the exponential, whatever they hold on entry.
\<close>

lemma exp_locals_irrelevant: "ieee754_exp hi0 lo0 k0 x = kexp x"
proof -
  have p0: "exp_primary x hi0 lo0 0 = exp_primary x 0 0 0"
    by (simp add: exp_primary_def)
  show ?thesis
  proof (cases "GET_HIGH_WORD x AND 0x7fffffff < 0x3e300000")
    case True
    then have "exp_one < exp_huge + x"
      using huge_plus_tiny [of x] by (simp add: hx_less_iff)
    then show ?thesis
      unfolding kexp_def ieee754_exp_def Let_def by (simp only: if_True p0)
  next
    case False
    then show ?thesis
      unfolding kexp_def ieee754_exp_def Let_def by (simp only: if_False p0)
  qed
qed

text \<open>The branches of the exponential outside its primary range.\<close>

lemma hx_cases:
  "0x40862E42 \<le> GET_HIGH_WORD x AND 0x7fffffff \<longleftrightarrow> 0x40862E4200000000 \<le> dmag x"
  "0x7ff00000 \<le> GET_HIGH_WORD x AND 0x7fffffff \<longleftrightarrow> inf_mag \<le> dmag x"
  by (simp_all add: hx_le_iff inf_mag_def)

lemma huge_squared: "exp_huge * exp_huge = mk_double False inf_mag"
  by (simp add: exp_huge_bits double_eval inf_mag_def)

lemma twom1000_squared: "twom1000 * twom1000 = 0"
  by (simp add: twom1000_bits double_eval)

lemma threshold_keys:
  "o_threshold < x \<longleftrightarrow> \<not> is_nan x \<and> 0x40862E42FEFA39EF < dkey x"
  "x < u_threshold \<longleftrightarrow> \<not> is_nan x \<and> dkey x < - 0x40874910D52D3051"
  by (simp_all add: exp_constants double_less_iff) (simp_all add: double_eval)

lemma exp_nan: "is_nan x \<Longrightarrow> kexp x = quiet x"
  using frac_zero_iff [of x]
  by (simp add: kexp_def ieee754_exp_def hx_cases is_nan_def inf_mag_def plus_double_def Let_def)

lemma exp_overflow: "o_threshold < x \<Longrightarrow> kexp x = mk_double False inf_mag"
proof -
  assume o: "o_threshold < x"
  then have k: "\<not> is_nan x" "0x40862E42FEFA39EF < dkey x" by (simp_all add: threshold_keys)
  then have s: "\<not> dneg x" "0x40862E42FEFA39EF < dmag x" by (auto simp: dkey_def split: if_splits)
  show ?thesis
  proof (cases "is_inf x")
    case True
    then have "x = mk_double False inf_mag"
      using s by (intro double_eqI) (simp_all add: is_inf_def inf_mag_def)
    then show ?thesis
      using s True frac_zero_iff [of x] xsb_sign [of x]
      by (simp add: kexp_def ieee754_exp_def hx_cases is_inf_def inf_mag_def Let_def)
  next
    case False
    then show ?thesis
      using s k o by (simp add: kexp_def ieee754_exp_def hx_cases is_inf_def is_nan_def huge_squared Let_def)
  qed
qed

lemma exp_underflow: "x < u_threshold \<Longrightarrow> kexp x = 0"
proof -
  assume u: "x < u_threshold"
  then have k: "\<not> is_nan x" "dkey x < - 0x40874910D52D3051" by (simp_all add: threshold_keys)
  then have s: "dneg x" "0x40874910D52D3051 < dmag x" by (auto simp: dkey_def split: if_splits)
  have no: "\<not> o_threshold < x" using k by (simp add: threshold_keys)
  show ?thesis
  proof (cases "is_inf x")
    case True
    then show ?thesis
      using s frac_zero_iff [of x] xsb_sign [of x]
      by (simp add: kexp_def ieee754_exp_def hx_cases is_inf_def inf_mag_def Let_def dlit_def
          dround_def zero_double_def)
  next
    case False
    then show ?thesis
      using s k u no
      by (simp add: kexp_def ieee754_exp_def hx_cases is_inf_def is_nan_def twom1000_squared Let_def)
  qed
qed

lemma exp_tiny: "dmag x < 0x3e300000 * 2 ^ 32 \<Longrightarrow> kexp x = 1 + x"
proof -
  assume t: "dmag x < 0x3e300000 * 2 ^ 32"
  have "\<not> 0x3fd62e42 < GET_HIGH_WORD x AND 0x7fffffff"
    using t by (simp add: word_less_nat_alt unat_hx div_le_dividend linorder_not_less)
  moreover have "exp_one = 1" by (simp add: exp_constants one_double_ground)
  ultimately show ?thesis
    using t huge_plus_tiny [OF t]
    by (simp add: kexp_def ieee754_exp_def hx_cases hx_less_iff Let_def)
qed

text \<open>
  Outside its primary range the exponential has the values the source promises: a quiet
  NaN for a NaN, infinity above the overflow threshold, zero below the underflow threshold and
  \<open>1 + x\<close> for an argument below \<open>2 ^ -28\<close>.
\<close>

lemma exp_special_values:
  "(is_nan x \<longrightarrow> kexp x = quiet x) \<and>
   (o_threshold < x \<longrightarrow> kexp x = mk_double False inf_mag) \<and>
   (x < u_threshold \<longrightarrow> kexp x = 0) \<and>
   (dmag x < 0x3e300000 * 2 ^ 32 \<longrightarrow> kexp x = 1 + x)"
  by (intro conjI impI exp_nan exp_overflow exp_underflow exp_tiny)

section \<open>Properties of the absolute value\<close>

lemma kfabs_cases: "kfabs x = (if \<not> is_nan x \<and> \<not> dneg x \<and> \<not> is_zero x then x else - x)"
  by (auto simp: kfabs_def double_less_iff dlit_def dround_def dkey_def is_nan_def is_zero_def)

lemma uminus_double_parts [simp]:
  "dmag (- x) = dmag x" "dneg (- x) \<longleftrightarrow> \<not> dneg x" "is_nan (- x) = is_nan x" for x :: double
  by (simp_all only: uminus_double_def dmag_mk_double [OF dmag_less] dneg_mk_double [OF dmag_less]
      is_nan_def)

text \<open>
  \<open>fabs\<close> keeps the magnitude and clears the sign of every number but zero; on a zero it
  flips the sign, so that the absolute value of \<open>+0\<close> is \<open>-0\<close>, and on a NaN too.
\<close>

lemma kfabs_spec:
  "dmag (kfabs x) = dmag x \<and>
   dneg (kfabs x) = (if is_nan x \<or> is_zero x then \<not> dneg x else False)"
  by (simp add: kfabs_cases)

end
