(* ===== verification/Rbf_Parms.thy ===== *)
theory Rbf_Parms
  imports Exp_Fabs
begin

text \<open>
  \<open>include/rbfgrad.h\<close>: the parameter block of the controller, its initialisation from the
  user's configuration, and the decision to mark a packet. The random number source
  \<open>random32\<close> is a kernel function; it is a parameter, threaded through its state.
\<close>

section \<open>Constants\<close>

definition RAND_MAX :: int where "RAND_MAX = 2147483647"
definition RBFGRAD_STAB_SIZE :: nat where "RBFGRAD_STAB_SIZE = 256"
definition SAM_NUM :: nat where "SAM_NUM = 10"
definition UNIT_NUM :: nat where "UNIT_NUM = 6"
definition PARTICLE_NUM :: nat where "PARTICLE_NUM = 90"
definition MAX_EPOCH :: nat where "MAX_EPOCH = 10"

type_synonym 'r random_source = "'r \<Rightarrow> u32 \<times> 'r"

section \<open>Structures\<close>

record rbfgrad_stats =
  prob_drop :: u32
  prob_mark :: u32
  forced_drop :: u32
  forced_mark :: u32
  pdrop :: u32
  other :: u32

record rbfgrad_parms =
  sampl_period :: s32
  Scell_max :: u32
  Scell_log :: u8
  Stab :: "u8 list"
  q_ref :: s32
  p_init :: double
  p_min :: double
  p_max :: double
  eta_p :: double
  eta_i :: double
  eta_d :: double
  SamNum :: s32
  n_in :: s32
  m_hid :: s32
  alpha :: double
  eta :: double
  MaxEpoch :: s32
  E0 :: double
  iw1 :: double
  iw2 :: double
  iwe :: double
  ac1 :: double
  ac2 :: double
  mv :: double
  mwav :: double
  ergrd :: double
  ergrdep :: double
  p_k :: double
  p_k_1 :: double
  e_k :: s32
  e_k_1 :: s32
  e_k_2 :: s32
  kp_k :: double
  kp_k_1 :: double
  ki_k :: double
  ki_k_1 :: double
  kd_k :: double
  kd_k_1 :: double
  w_k :: "double list"
  w_k_1 :: "double list"
  w_k_2 :: "double list"
  c_k :: "double list list"
  c_k_1 :: "double list list"
  c_k_2 :: "double list list"
  delta_k :: "double list"
  delta_k_1 :: "double list"
  delta_k_2 :: "double list"
  jacobian :: double
  NetOut :: "double list"
  w_pso :: "double list list"
  pos :: "double list list"
  vel :: "double list list"
  pbest :: "double list list"
  pbestval :: "double list"
  gbest :: "double list"
  gbestval :: double
  gbest_index :: s32
  q_k :: s32
  proba :: "double list"
  queue_len :: "s32 list"
  SamIn :: "double list"
  SamOut :: "double list"

text \<open>Updates of an array of arrays, \<open>a[i][j] = v\<close>.\<close>

definition upd2 :: "'a list list \<Rightarrow> nat \<Rightarrow> nat \<Rightarrow> 'a \<Rightarrow> 'a list list" where
  "upd2 a i j v = a[i := (a ! i)[j := v]]"

section \<open>Initialisation\<close>

text \<open>
  The macro \<open>rand_my\<close> with integer and with double bounds. \<open>random32\<close> is unsigned, so with
  integer bounds the product wraps at 32 bits before it becomes a double; with double bounds
  the conversion comes first.
\<close>

definition rand_span :: double where
  "rand_span = d_of_int RAND_MAX + dlit 1 1"

definition rand_my_int :: "int \<Rightarrow> int \<Rightarrow> u32 \<Rightarrow> double" where
  "rand_my_int mn mx r = d_of_int (uint (word_of_int (mx - mn) * r)) / rand_span + d_of_int mn"

definition rand_my :: "double \<Rightarrow> double \<Rightarrow> u32 \<Rightarrow> double" where
  "rand_my mn mx r = (mx - mn) * d_of_int (uint r) / rand_span + mn"

text \<open>One hidden unit: random weights, centres and widths.\<close>

definition init_unit :: "'r random_source \<Rightarrow> double \<Rightarrow> double \<Rightarrow> nat \<Rightarrow>
    rbfgrad_parms \<times> 'r \<Rightarrow> rbfgrad_parms \<times> 'r" where
  "init_unit random32 e_min e_max i = (\<lambda>(p, s).
     let (r1, s1) = random32 s;
         p = p\<lparr>w_k := (w_k p)[i := rand_my_int (- 1) 1 r1]\<rparr>;
         (r2, s2) = random32 s1;
         p = p\<lparr>w_k_1 := (w_k_1 p)[i := rand_my_int (- 1) 1 r2]\<rparr>;
         p = for_up 0 SAM_NUM (\<lambda>j p. p\<lparr>
               c_k := upd2 (c_k p) i j (dlit 0 1),
               c_k_1 := upd2 (c_k_1 p) i j
                 (e_min + d_of_int (int i - 1) * (e_max - e_min) * d_of_int (int UNIT_NUM - 1))\<rparr>) p;
         p = p\<lparr>delta_k := (delta_k p)[i := dlit 40 1], delta_k_1 := (delta_k_1 p)[i := dlit 40 1]\<rparr>
     in (p, s2))"

definition init_samples :: "nat \<Rightarrow> rbfgrad_parms \<Rightarrow> rbfgrad_parms" where
  "init_samples i p = p\<lparr>
     proba := (proba p)[i := p_init p],
     queue_len := (queue_len p)[i := 0],
     SamIn := (SamIn p)[i := dlit 0 1],
     SamOut := (SamOut p)[i := dlit 0 1]\<rparr>"

text \<open>The swarm: particle 0 starts at the weights, the others at random places.\<close>

definition init_leader :: "'r random_source \<Rightarrow> nat \<Rightarrow> rbfgrad_parms \<times> 'r \<Rightarrow> rbfgrad_parms \<times> 'r" where
  "init_leader random32 j = (\<lambda>(p, s).
     let p = p\<lparr>pos := upd2 (pos p) 0 j (w_k p ! j)\<rparr>;
         (r, s') = random32 s
     in (p\<lparr>vel := upd2 (vel p) 0 j (rand_my (- mv p) (mv p) r)\<rparr>, s'))"

definition init_particle :: "'r random_source \<Rightarrow> nat \<Rightarrow> rbfgrad_parms \<times> 'r \<Rightarrow> rbfgrad_parms \<times> 'r" where
  "init_particle random32 i =
     for_up 0 UNIT_NUM (\<lambda>j (p, s).
       let (r1, s1) = random32 s;
           p = p\<lparr>pos := upd2 (pos p) i j (rand_my (- mwav p) (mwav p) r1)\<rparr>;
           (r2, s2) = random32 s1
       in (p\<lparr>vel := upd2 (vel p) i j (rand_my (- mv p) (mv p) r2)\<rparr>, s2))"

definition init_swarm :: "'r random_source \<Rightarrow> rbfgrad_parms \<times> 'r \<Rightarrow> rbfgrad_parms \<times> 'r" where
  "init_swarm random32 ps =
     for_up 1 PARTICLE_NUM (init_particle random32)
       (for_up 0 UNIT_NUM (init_leader random32) ps)"

definition pso_constants :: "rbfgrad_parms \<Rightarrow> rbfgrad_parms" where
  "pso_constants p = p\<lparr>
     iw1 := dlit 9 10, iw2 := dlit 2 10,
     iwe := d_of_int (int MAX_EPOCH) * dlit 3 1 / dlit 4 1,
     ac1 := dlit 2 1, ac2 := dlit 2 1, mv := dlit 1 100, mwav := dlit 1 1,
     ergrd := dlit 1 (10 ^ 9), ergrdep := d_of_int (int MAX_EPOCH) / dlit 20 1\<rparr>"

text \<open>
  \<open>rbfgrad_set_parms\<close>. Fields it does not assign keep what the block held: \<open>p_k_1\<close>, the
  \<open>_1\<close> gains, the \<open>_2\<close> arrays, \<open>jacobian\<close>, \<open>w_pso\<close>, the best positions and \<open>q_k\<close>. The shift
  count of \<open>Scell_max\<close> is taken modulo 32, as the shift instruction does.
\<close>

definition rbfgrad_set_parms :: "'r random_source \<Rightarrow> rbfgrad_parms \<Rightarrow> s32 \<Rightarrow> s32 \<Rightarrow>
    double \<Rightarrow> double \<Rightarrow> double \<Rightarrow> double \<Rightarrow> double \<Rightarrow> double \<Rightarrow> double \<Rightarrow> double \<Rightarrow> double \<Rightarrow>
    s32 \<Rightarrow> s32 \<Rightarrow> double \<Rightarrow> double \<Rightarrow> u8 \<Rightarrow> u8 list \<Rightarrow> 'r \<Rightarrow> rbfgrad_parms \<times> 'r" where
  "rbfgrad_set_parms random32 p period ref init mn mx kp ki kd etap etai etad n m al et slog stab s =
     (let p = p\<lparr>sampl_period := period, q_ref := ref, p_init := init, p_min := mn, p_max := mx,
                 eta_p := etap, eta_i := etai, eta_d := etad, SamNum := 10, n_in := n, m_hid := m,
                 alpha := al, eta := et, MaxEpoch := 1, E0 := dlit 1 (10 ^ 6)\<rparr>;
          p = p\<lparr>p_k := init, e_k := 0, e_k_1 := 0, e_k_2 := 0, kp_k := kp, ki_k := ki, kd_k := kd\<rparr>;
          (p, s) = for_up 0 UNIT_NUM (init_unit random32 (- dlit 1 1) (dlit 1 1)) (p, s);
          p = for_up 0 SAM_NUM init_samples p;
          p = for_up 0 PARTICLE_NUM (\<lambda>i p. p\<lparr>NetOut := (NetOut p)[i := dlit 0 1]\<rparr>) p;
          p = p\<lparr>e_k := 0, e_k_1 := 0, e_k_2 := 0\<rparr>;
          (p, s) = init_swarm random32 (pso_constants p, s);
          p = p\<lparr>gbestval := dlit 0 1, gbest_index := 0\<rparr>;
          p = p\<lparr>Scell_log := slog, Scell_max := push_bit (unat slog mod 32) 255,
                Stab := take RBFGRAD_STAB_SIZE stab\<rparr>
      in (p, s))"

definition rbfgrad_restart :: "rbfgrad_parms \<Rightarrow> rbfgrad_parms" where
  "rbfgrad_restart p = p"

section \<open>The marking decision\<close>

datatype prob_cmp = RBFGRAD_BELOW_PROB | RBFGRAD_ABOVE_PROB
datatype mark_action = RBFGRAD_DONT_MARK | RBFGRAD_PROB_MARK

text \<open>\<open>abs\<close> on \<open>int\<close>: the most negative value is its own absolute value.\<close>

definition abs_s32 :: "s32 \<Rightarrow> s32" where
  "abs_s32 x = (if sint x < 0 then - x else x)"

text \<open>\<open>r\<close> is the value \<open>net_random()\<close> returned.\<close>

definition rbfgrad_cmp_prob :: "rbfgrad_parms \<Rightarrow> u32 \<Rightarrow> prob_cmp" where
  "rbfgrad_cmp_prob p r =
     (let p_random = abs_s32 r;
          current_p = d_to_s32 (p_k p * d_of_int RAND_MAX)
      in if sint p_random < sint current_p then RBFGRAD_BELOW_PROB else RBFGRAD_ABOVE_PROB)"

definition rbfgrad_action :: "rbfgrad_parms \<Rightarrow> u32 \<Rightarrow> mark_action" where
  "rbfgrad_action p r =
     (case rbfgrad_cmp_prob p r of
        RBFGRAD_ABOVE_PROB \<Rightarrow> RBFGRAD_DONT_MARK
      | RBFGRAD_BELOW_PROB \<Rightarrow> RBFGRAD_PROB_MARK)"

section \<open>Well-formed parameter blocks\<close>

definition matrix_wf :: "nat \<Rightarrow> nat \<Rightarrow> 'a list list \<Rightarrow> bool" where
  "matrix_wf r c a \<longleftrightarrow> length a = r \<and> (\<forall>x \<in> set a. length x = c)"

text \<open>The sizes of the arrays of the block, which the types do not carry.\<close>

definition parms_wf :: "rbfgrad_parms \<Rightarrow> bool" where
  "parms_wf p \<longleftrightarrow>
     length (w_k p) = UNIT_NUM \<and> length (w_k_1 p) = UNIT_NUM \<and> length (w_k_2 p) = UNIT_NUM \<and>
     matrix_wf UNIT_NUM SAM_NUM (c_k p) \<and> matrix_wf UNIT_NUM SAM_NUM (c_k_1 p) \<and>
     matrix_wf UNIT_NUM SAM_NUM (c_k_2 p) \<and>
     length (delta_k p) = UNIT_NUM \<and> length (delta_k_1 p) = UNIT_NUM \<and> length (delta_k_2 p) = UNIT_NUM \<and>
     length (NetOut p) = PARTICLE_NUM \<and>
     matrix_wf PARTICLE_NUM UNIT_NUM (w_pso p) \<and> matrix_wf PARTICLE_NUM UNIT_NUM (pos p) \<and>
     matrix_wf PARTICLE_NUM UNIT_NUM (vel p) \<and> matrix_wf PARTICLE_NUM UNIT_NUM (pbest p) \<and>
     length (pbestval p) = PARTICLE_NUM \<and> length (gbest p) = UNIT_NUM \<and>
     length (proba p) = SAM_NUM \<and> length (queue_len p) = SAM_NUM \<and>
     length (SamIn p) = SAM_NUM \<and> length (SamOut p) = SAM_NUM"

text \<open>The block of a queueing discipline that has just been allocated, all bytes zero.\<close>

definition zero_parms :: rbfgrad_parms where
  "zero_parms = \<lparr>sampl_period = 0, Scell_max = 0, Scell_log = 0, Stab = replicate RBFGRAD_STAB_SIZE 0,
     q_ref = 0, p_init = 0, p_min = 0, p_max = 0, eta_p = 0, eta_i = 0, eta_d = 0, SamNum = 0,
     n_in = 0, m_hid = 0, alpha = 0, eta = 0, MaxEpoch = 0, E0 = 0, iw1 = 0, iw2 = 0, iwe = 0,
     ac1 = 0, ac2 = 0, mv = 0, mwav = 0, ergrd = 0, ergrdep = 0, p_k = 0, p_k_1 = 0,
     e_k = 0, e_k_1 = 0, e_k_2 = 0, kp_k = 0, kp_k_1 = 0, ki_k = 0, ki_k_1 = 0, kd_k = 0, kd_k_1 = 0,
     w_k = replicate UNIT_NUM 0, w_k_1 = replicate UNIT_NUM 0, w_k_2 = replicate UNIT_NUM 0,
     c_k = replicate UNIT_NUM (replicate SAM_NUM 0), c_k_1 = replicate UNIT_NUM (replicate SAM_NUM 0),
     c_k_2 = replicate UNIT_NUM (replicate SAM_NUM 0),
     delta_k = replicate UNIT_NUM 0, delta_k_1 = replicate UNIT_NUM 0, delta_k_2 = replicate UNIT_NUM 0,
     jacobian = 0, NetOut = replicate PARTICLE_NUM 0,
     w_pso = replicate PARTICLE_NUM (replicate UNIT_NUM 0),
     pos = replicate PARTICLE_NUM (replicate UNIT_NUM 0),
     vel = replicate PARTICLE_NUM (replicate UNIT_NUM 0),
     pbest = replicate PARTICLE_NUM (replicate UNIT_NUM 0),
     pbestval = replicate PARTICLE_NUM 0, gbest = replicate UNIT_NUM 0, gbestval = 0, gbest_index = 0,
     q_k = 0, proba = replicate SAM_NUM 0, queue_len = replicate SAM_NUM 0,
     SamIn = replicate SAM_NUM 0, SamOut = replicate SAM_NUM 0\<rparr>"

lemma zero_parms_wf [simp]: "parms_wf zero_parms"
  by (simp add: parms_wf_def zero_parms_def matrix_wf_def)

lemma matrix_wf_upd2 [simp]: "matrix_wf r c a \<Longrightarrow> matrix_wf r c (upd2 a i j v)"
proof (cases "i < length a")
  case True
  assume "matrix_wf r c a"
  with True show ?thesis
    by (auto simp: matrix_wf_def upd2_def dest: set_update_subset_insert [THEN subsetD])
next
  case False
  assume "matrix_wf r c a"
  with False show ?thesis by (simp add: upd2_def list_update_beyond)
qed

section \<open>Ranges of the random numbers\<close>

lemma rand_span_eval: "rand_span = Double 0x41E0000000000000"
  by (simp add: rand_span_def RAND_MAX_def double_eval)

lemma uint_u32_bounds: "0 \<le> uint (r :: u32)" "uint (r :: u32) \<le> 4294967295"
  using uint_lt2p [of r] by simp_all

text \<open>A random fraction \<open>random32() / 2 ^ 31\<close> lies between zero and just below two.\<close>

lemma d_of_u32_range:
  "Double 0 \<le> d_of_int (uint r)" "d_of_int (uint r) \<le> Double 0x41EFFFFFFFE00000"
  "is_finite (d_of_int (uint r))" for r :: u32
proof -
  have e: "d_of_int 0 = Double 0" "d_of_int 4294967295 = Double 0x41EFFFFFFFE00000"
    by (simp_all add: double_eval)
  show l: "Double 0 \<le> d_of_int (uint r)" "d_of_int (uint r) \<le> Double 0x41EFFFFFFFE00000"
    using d_of_int_mono [OF uint_u32_bounds(1) [of r]] d_of_int_mono [OF uint_u32_bounds(2) [of r]]
    by (simp_all add: e)
  show "is_finite (d_of_int (uint r))"
    by (rule between_finite [OF l]) (simp_all add: class_ground)
qed

lemma u32_fraction_range:
  "Double 0 \<le> d_of_int (uint r) / rand_span" "d_of_int (uint r) / rand_span \<le> Double 0x3FFFFFFFFFE00000"
  "is_finite (d_of_int (uint r) / rand_span)" for r :: u32
proof -
  have e: "Double 0 / rand_span = Double 0" "Double 0x41EFFFFFFFE00000 / rand_span = Double 0x3FFFFFFFFFE00000"
    by (simp_all add: rand_span_eval double_eval)
  have s: "is_finite rand_span" "\<not> dneg rand_span" "\<not> is_zero rand_span"
    by (simp_all add: rand_span_eval class_ground dneg_ground)
  show l: "Double 0 \<le> d_of_int (uint r) / rand_span" "d_of_int (uint r) / rand_span \<le> Double 0x3FFFFFFFFFE00000"
    using divide_mono [OF _ d_of_u32_range(3) s d_of_u32_range(1), of r]
      divide_mono [OF d_of_u32_range(3) _ s d_of_u32_range(2), of r]
    by (simp_all add: e class_ground)
  show "is_finite (d_of_int (uint r) / rand_span)"
    by (rule between_finite [OF l]) (simp_all add: class_ground)
qed

lemma plus_range:
  assumes "lo \<le> x" "x \<le> hi" "is_finite lo" "is_finite hi" "is_finite c"
  shows "lo + c \<le> x + c" "x + c \<le> hi + c"
  using plus_mono [of lo x c] plus_mono [of x hi c] assms between_finite [of lo x hi] by simp_all

lemma rand_my_int_bounds: "- 1 \<le> rand_my_int (- 1) 1 r \<and> rand_my_int (- 1) 1 r < 1"
proof -
  let ?x = "d_of_int (uint (2 * r)) / rand_span"
  have c: "d_of_int (- 1) = Double 0xBFF0000000000000" by (simp add: double_eval)
  have "Double 0 + d_of_int (- 1) \<le> ?x + d_of_int (- 1)"
    "?x + d_of_int (- 1) \<le> Double 0x3FFFFFFFFFE00000 + d_of_int (- 1)"
    using plus_range [OF u32_fraction_range(1,2), of "d_of_int (- 1)" "2 * r"]
    by (simp_all add: c class_ground)
  moreover have "Double 0 + d_of_int (- 1) = - 1" "Double 0x3FFFFFFFFFE00000 + d_of_int (- 1) < 1"
    by (simp_all add: double_eval)
  moreover have "rand_my_int (- 1) 1 r = ?x + d_of_int (- 1)"
    by (simp add: rand_my_int_def)
  ultimately show ?thesis
    by (metis double_le_iff double_less_iff le_less_trans)
qed

text \<open>
  A weight drawn by \<open>rand_my(-1, 1)\<close> lies in \<open>[-1, 1)\<close> for every random number: the
  product wraps at 32 bits, which keeps the fraction below two.
\<close>

lemma rand_my_int_range: "- 1 \<le> rand_my_int (- 1) 1 r \<and> rand_my_int (- 1) 1 r < 1"
  by (rule rand_my_int_bounds)

lemma mv_eval: "dlit 1 100 = Double 0x3F847AE147AE147B"
  by (simp add: double_eval)

lemma rand_velocity_ends:
  "(dlit 1 100 - - dlit 1 100) * Double 0 / rand_span + - dlit 1 100 = Double 0xBF847AE147AE147B"
  "(dlit 1 100 - - dlit 1 100) * Double 0x41DFFFFFFFC00000 / rand_span + - dlit 1 100 = Double 0x3F847AE1475C28F5"
  "(dlit 1 100 - - dlit 1 100) * Double 0x41E0000000000000 / rand_span + - dlit 1 100 = Double 0x3F847AE147AE147B"
  "(dlit 1 100 - - dlit 1 100) * Double 0x41EFFFFFFFE00000 / rand_span + - dlit 1 100 = Double 0x3F9EB851EB5C28F6"
  by (simp_all add: mv_eval rand_span_eval double_eval)

text \<open>The map from the random number to the velocity is monotone.\<close>

lemma rand_velocity_mono:
  assumes "x \<le> y" "Double 0 \<le> x" "y \<le> Double 0x41EFFFFFFFE00000"
  shows "(dlit 1 100 - - dlit 1 100) * x / rand_span + - dlit 1 100
       \<le> (dlit 1 100 - - dlit 1 100) * y / rand_span + - dlit 1 100"
proof -
  let ?c = "Double 0x3F947AE147AE147B"
  have c: "dlit 1 100 - - dlit 1 100 = ?c" by (simp add: mv_eval double_eval)
  have xy: "x \<le> Double 0x41EFFFFFFFE00000" "Double 0 \<le> y"
    using assms by (auto simp: double_le_iff)
  have s: "is_finite rand_span" "\<not> dneg rand_span" "\<not> is_zero rand_span" "is_finite ?c" "\<not> dneg ?c"
    by (simp_all add: rand_span_eval class_ground dneg_ground)
  have e: "is_finite (Double 0)" "is_finite (Double 0x41EFFFFFFFE00000)" by (simp_all add: class_ground)
  have fin: "is_finite x" "is_finite y"
    using between_finite [OF assms(2) xy(1) e] between_finite [OF xy(2) assms(3) e] by simp_all
  have top: "Double 0x41EFFFFFFFE00000 * ?c = Double 0x41947ae14799999a" "Double 0 * ?c = Double 0"
    by (simp_all add: double_eval)
  have m: "x * ?c \<le> y * ?c" "Double 0 * ?c \<le> x * ?c" "Double 0 * ?c \<le> y * ?c"
    "x * ?c \<le> Double 0x41EFFFFFFFE00000 * ?c" "y * ?c \<le> Double 0x41EFFFFFFFE00000 * ?c"
    by (intro times_mono; use s e fin assms xy in simp)+
  have mf: "is_finite (x * ?c)" "is_finite (y * ?c)"
    using between_finite [OF m(2,4)] between_finite [OF m(3,5)] unfolding top by (simp_all add: class_ground)
  have d: "x * ?c / rand_span \<le> y * ?c / rand_span" "Double 0 * ?c / rand_span \<le> x * ?c / rand_span"
    "y * ?c / rand_span \<le> Double 0x41EFFFFFFFE00000 * ?c / rand_span"
    by (intro divide_mono; use s mf m in \<open>simp add: top class_ground\<close>)+
  have dtop: "Double 0 * ?c / rand_span = Double 0"
    "Double 0x41EFFFFFFFE00000 * ?c / rand_span = Double 0x3fa47ae14799999a"
    unfolding top by (simp_all add: rand_span_eval double_eval)
  have d': "x * ?c / rand_span \<le> Double 0x41EFFFFFFFE00000 * ?c / rand_span"
    "Double 0 * ?c / rand_span \<le> y * ?c / rand_span"
    using d by (auto simp: double_le_iff)
  have df: "is_finite (x * ?c / rand_span)" "is_finite (y * ?c / rand_span)"
    using between_finite [OF d(2) d'(1)] between_finite [OF d'(2) d(3)] unfolding dtop
    by (simp_all add: class_ground)
  have "x * ?c / rand_span + - dlit 1 100 \<le> y * ?c / rand_span + - dlit 1 100"
    by (rule plus_mono [OF df _ d(1)]) (simp add: mv_eval double_eval)
  then show ?thesis
    using s fin by (simp add: c times_finite_commute [of ?c])
qed

lemma d_of_u32_31:
  "2 ^ 31 \<le> uint r \<Longrightarrow> Double 0x41E0000000000000 \<le> d_of_int (uint r)"
  "uint r < 2 ^ 31 \<Longrightarrow> d_of_int (uint r) \<le> Double 0x41DFFFFFFFC00000" for r :: u32
proof -
  have e: "d_of_int 2147483648 = Double 0x41E0000000000000" "d_of_int 2147483647 = Double 0x41DFFFFFFFC00000"
    by (simp_all add: double_eval)
  show "2 ^ 31 \<le> uint r \<Longrightarrow> Double 0x41E0000000000000 \<le> d_of_int (uint r)"
    using d_of_int_mono [of 2147483648 "uint r"] by (simp add: e)
  show "uint r < 2 ^ 31 \<Longrightarrow> d_of_int (uint r) \<le> Double 0x41DFFFFFFFC00000"
    using d_of_int_mono [of "uint r" 2147483647] by (simp add: e)
qed

lemma rand_velocity_bounds:
  "- dlit 1 100 \<le> rand_my (- dlit 1 100) (dlit 1 100) r \<and>
   rand_my (- dlit 1 100) (dlit 1 100) r \<le> dlit 3 100 \<and>
   (dlit 1 100 \<le> rand_my (- dlit 1 100) (dlit 1 100) r \<longleftrightarrow> 2 ^ 31 \<le> uint r)"
proof -
  let ?v = "(dlit 1 100 - - dlit 1 100) * d_of_int (uint r) / rand_span + - dlit 1 100"
  have v: "rand_my (- dlit 1 100) (dlit 1 100) r = ?v"
    by (simp add: rand_my_def)
  have z: "Double 0 \<le> Double 0x41E0000000000000" "Double 0x41DFFFFFFFC00000 \<le> Double 0x41EFFFFFFFE00000"
    "Double 0 \<le> Double 0" "Double 0x41EFFFFFFFE00000 \<le> Double 0x41EFFFFFFFE00000"
    by (simp_all add: double_eval)
  have ends: "Double 0xBF847AE147AE147B \<le> ?v" "?v \<le> Double 0x3F9EB851EB5C28F6"
    using rand_velocity_mono [OF d_of_u32_range(1) z(3) d_of_u32_range(2), of r]
      rand_velocity_mono [OF d_of_u32_range(2) d_of_u32_range(1) z(4), of r]
    unfolding rand_velocity_ends .
  have "dlit 1 100 \<le> ?v \<longleftrightarrow> 2 ^ 31 \<le> uint r"
  proof (cases "2 ^ 31 \<le> uint r")
    case True
    have "Double 0x3F847AE147AE147B \<le> ?v"
      using rand_velocity_mono [OF d_of_u32_31(1) [OF True] z(1) d_of_u32_range(2)]
      unfolding rand_velocity_ends .
    with True show ?thesis by (simp add: v mv_eval)
  next
    case False
    have "?v \<le> Double 0x3F847AE1475C28F5"
      using rand_velocity_mono [OF d_of_u32_31(2) d_of_u32_range(1) z(2)] False
      unfolding rand_velocity_ends by simp
    moreover have "Double 0x3F847AE1475C28F5 < dlit 1 100" by (simp add: double_eval)
    ultimately have "?v < dlit 1 100" by (auto simp: double_le_iff double_less_iff)
    with False show ?thesis by (auto simp: v double_le_iff double_less_iff)
  qed
  moreover have "- dlit 1 100 = Double 0xBF847AE147AE147B" "Double 0x3F9EB851EB5C28F6 \<le> dlit 3 100"
    by (simp_all add: double_eval)
  then have "- dlit 1 100 \<le> ?v" "?v \<le> dlit 3 100"
    using ends dord.le_trans [OF ends(2)] by simp_all
  ultimately show ?thesis by (simp only: v)
qed

text \<open>
  A velocity drawn by \<open>rand_my(-mv, mv)\<close> with the module's \<open>mv = 0.01\<close> is at least \<open>-mv\<close>
  but reaches \<open>3 * mv\<close>: \<open>random32\<close> has twice the range of the divisor. The upper half of
  the random numbers gives velocities above \<open>mv\<close>.
\<close>

lemma rand_velocity_range:
  "- mv (pso_constants p) \<le> rand_my (- mv (pso_constants p)) (mv (pso_constants p)) r \<and>
   rand_my (- mv (pso_constants p)) (mv (pso_constants p)) r \<le> dlit 3 100 \<and>
   (mv (pso_constants p) \<le> rand_my (- mv (pso_constants p)) (mv (pso_constants p)) r
      \<longleftrightarrow> 2 ^ 31 \<le> uint r)"
  using rand_velocity_bounds [of r] by (simp add: pso_constants_def)

section \<open>Marking frequency\<close>

definition mark_threshold :: "double \<Rightarrow> int" where
  "mark_threshold x = sint (d_to_s32 (x * d_of_int RAND_MAX))"

lemma action_mark_iff:
  "rbfgrad_action p r = RBFGRAD_PROB_MARK \<longleftrightarrow> sint (abs_s32 r) < mark_threshold (p_k p)"
  by (simp add: rbfgrad_action_def rbfgrad_cmp_prob_def mark_threshold_def Let_def)

lemma sint_s32_bounds: "- (2 ^ 31) \<le> sint (w :: s32)" "sint (w :: s32) < 2 ^ 31"
  using sint_ge [of w] sint_lt [of w] by simp_all

lemma sint_of_s32: "- (2 ^ 31) \<le> i \<Longrightarrow> i < 2 ^ 31 \<Longrightarrow> sint (word_of_int i :: s32) = i"
  by (simp add: signed_of_int signed_take_bit_int_eq_self)

lemma sint_abs_s32: "sint (abs_s32 r) = (if sint r = - (2 ^ 31) then - (2 ^ 31) else \<bar>sint r\<bar>)"
proof (cases "sint r < 0")
  case True
  have m: "- r = word_of_int (- sint r)" by simp
  show ?thesis
  proof (cases "sint r = - (2 ^ 31)")
    case True
    then have "sint (- r) = - (2 ^ 31)" unfolding m by (simp add: signed_take_bit_int_eq_self_iff)
    with True show ?thesis by (simp add: abs_s32_def)
  next
    case False
    then have "sint (- r) = - sint r"
      unfolding m using sint_s32_bounds [of r] True by (intro sint_of_s32) simp_all
    with True False show ?thesis by (simp add: abs_s32_def)
  qed
next
  case False
  then show ?thesis by (simp add: abs_s32_def)
qed

lemma sint_image_UNIV: "range (sint :: s32 \<Rightarrow> int) = {- (2 ^ 31) ..< 2 ^ 31}"
proof -
  have "i \<in> range (sint :: s32 \<Rightarrow> int)" if "i \<in> {- (2 ^ 31) ..< 2 ^ 31}" for i
    using that sint_of_s32 [of i] by (metis atLeastLessThan_iff rangeI)
  moreover have "range (sint :: s32 \<Rightarrow> int) \<subseteq> {- (2 ^ 31) ..< 2 ^ 31}"
    using sint_s32_bounds by fastforce
  ultimately show ?thesis by blast
qed

lemma card_sint_set: "card {r :: s32. P (sint r)} = card {i \<in> {- (2 ^ 31) ..< 2 ^ 31}. P i}"
proof -
  have "sint ` {r :: s32. P (sint r)} = {i \<in> range (sint :: s32 \<Rightarrow> int). P i}" by auto
  moreover have "inj_on (sint :: s32 \<Rightarrow> int) {r. P (sint r)}"
    using inj_signed by (rule inj_on_subset) simp
  ultimately show ?thesis
    using card_image [of "sint :: s32 \<Rightarrow> int" "{r. P (sint r)}"] by (simp only: sint_image_UNIV)
qed

lemma below_threshold_set:
  fixes t :: int
  assumes "- (2 ^ 31) < t" "t < 2 ^ 31"
  shows "{i \<in> {- (2 ^ 31) ..< 2 ^ 31}. (if i = - (2 ^ 31) then - (2 ^ 31) else \<bar>i\<bar>) < t}
       = insert (- (2 ^ 31)) {1 - t ..< t}"
  using assms by auto

text \<open>
  C5: of the \<open>2 ^ 32\<close> values of \<open>net_random\<close>, exactly \<open>2 * t\<close> mark the packet, where
  \<open>t = (int)(p_k * RAND_MAX)\<close>: the marking frequency is \<open>t / 2 ^ 31\<close>. The most negative value is
  its own absolute value, so one value marks even when \<open>t\<close> is zero, and when the
  conversion overflows (a NaN or a value out of range) no value marks.
\<close>

theorem mark_frequency:
  "card {r. rbfgrad_action p r = RBFGRAD_PROB_MARK} =
     (if mark_threshold (p_k p) = - (2 ^ 31) then 0
      else if mark_threshold (p_k p) \<le> 0 then 1
      else nat (2 * mark_threshold (p_k p)))"
proof -
  let ?t = "mark_threshold (p_k p)"
  have b: "- (2 ^ 31) \<le> ?t" "?t < 2 ^ 31"
    unfolding mark_threshold_def by (rule sint_s32_bounds)+
  have c: "card {r. rbfgrad_action p r = RBFGRAD_PROB_MARK} =
      card {i \<in> {- (2 ^ 31) ..< 2 ^ 31}. (if i = - (2 ^ 31) then - (2 ^ 31) else \<bar>i\<bar>) < ?t}"
    unfolding action_mark_iff sint_abs_s32 by (rule card_sint_set)
  show ?thesis
  proof (cases "?t = - (2 ^ 31)")
    case True
    then have "{i \<in> {- (2 ^ 31) ..< 2 ^ 31}. (if i = - (2 ^ 31) then - (2 ^ 31) else \<bar>i\<bar>) < ?t} = {}"
      by auto
    with True show ?thesis unfolding c by (simp only: card.empty if_True refl)
  next
    case False
    then have "- (2 ^ 31) < ?t" using b by linarith
    then have "card {r. rbfgrad_action p r = RBFGRAD_PROB_MARK} = Suc (card {1 - ?t ..< ?t})"
      unfolding c below_threshold_set [OF \<open>- (2 ^ 31) < ?t\<close> b(2)]
      using b by (intro card_insert_disjoint) auto
    with False show ?thesis by (simp add: Suc_nat_eq_nat_zadd1)
  qed
qed

lemma dtrunc_nonneg_mono:
  assumes "x \<le> y" "is_finite x" "is_finite y" "\<not> dneg x" "\<not> dneg y"
  shows "dtrunc x \<le> dtrunc y"
proof -
  have "dsc (dmag x) \<le> dsc (dmag y)"
    using assms by (intro dsc_mono) (simp_all add: double_le_iff dkey_def is_finite_def)
  then show ?thesis using assms by (simp add: dtrunc_def div_le_mono)
qed

text \<open>The unit interval, negative zero included.\<close>

lemma unit_product:
  assumes "0 \<le> x" "x \<le> 1" "\<not> dneg x"
  shows "is_finite (x * d_of_int RAND_MAX)" "\<not> dneg (x * d_of_int RAND_MAX)"
    and "dtrunc (x * d_of_int RAND_MAX) \<le> RAND_MAX"
proof -
  let ?R = "Double 0x41DFFFFFFFC00000"
  have R: "d_of_int RAND_MAX = ?R" by (simp add: RAND_MAX_def double_eval)
  have Rf: "is_finite ?R" "\<not> dneg ?R" by (simp_all add: class_ground dneg_ground)
  have e: "1 * ?R = ?R" "0 * ?R = Double 0" "dtrunc ?R = RAND_MAX"
    by (simp_all add: RAND_MAX_def double_eval)
  have f01: "is_finite (0 :: double)" "is_finite (1 :: double)" by (simp_all add: double_eval)
  have fx: "is_finite x" by (rule between_finite [OF assms(1,2) f01])
  have m: "x * ?R \<le> ?R" "Double 0 \<le> x * ?R"
    using times_mono [OF fx f01(2) Rf assms(2)] times_mono [OF f01(1) fx Rf assms(1)] by (simp_all only: e)
  show fin: "is_finite (x * d_of_int RAND_MAX)"
    unfolding R by (rule between_finite [OF m(2,1)]) (simp_all add: class_ground)
  show pos: "\<not> dneg (x * d_of_int RAND_MAX)"
    unfolding R using fx Rf assms(3) by (simp add: times_finite)
  show "dtrunc (x * d_of_int RAND_MAX) \<le> RAND_MAX"
    using dtrunc_nonneg_mono [OF m(1) fin [unfolded R] Rf(1) pos [unfolded R] Rf(2)]
    unfolding R e .
qed

lemma mark_threshold_unit:
  assumes "0 \<le> x" "x \<le> 1" "\<not> dneg x"
  shows "mark_threshold x = dtrunc (x * d_of_int RAND_MAX)" "0 \<le> mark_threshold x"
proof -
  note u = unit_product [OF assms]
  have "0 \<le> dtrunc (x * d_of_int RAND_MAX)" using u(2) by (simp add: dtrunc_def)
  with u show "mark_threshold x = dtrunc (x * d_of_int RAND_MAX)" "0 \<le> mark_threshold x"
    by (simp_all add: mark_threshold_def d_to_s32_def RAND_MAX_def sint_of_s32)
qed

lemma mark_threshold_zero: "is_zero x \<Longrightarrow> mark_threshold x = 0"
proof -
  assume "is_zero x"
  then have "x = mk_double (dneg x) 0" by (intro double_eqI) (simp_all add: is_zero_def)
  then consider "x = mk_double False 0" | "x = mk_double True 0" by (cases "dneg x") auto
  then show ?thesis
    by cases (simp_all add: mark_threshold_def RAND_MAX_def double_eval)
qed

text \<open>
  On probabilities in the unit interval the decision is monotone: a random number that
  marks a packet at probability \<open>p_k p\<close> marks it at every greater probability.
\<close>

lemma mark_monotone:
  assumes "0 \<le> p_k p" "p_k p \<le> p_k p'" "p_k p' \<le> 1"
    and "rbfgrad_action p r = RBFGRAD_PROB_MARK"
  shows "rbfgrad_action p' r = RBFGRAD_PROB_MARK"
proof -
  have u: "p_k p \<le> 1" "0 \<le> p_k p'" using assms(1-3) by (auto simp: double_le_iff)
  have sign: "is_zero x \<or> \<not> dneg x" if "0 \<le> x" for x using that by (auto simp: zero_le_iff)
  have "mark_threshold (p_k p) \<le> mark_threshold (p_k p')"
  proof (cases "is_zero (p_k p)")
    case True
    then show ?thesis
      using sign [OF u(2)] mark_threshold_unit(2) [OF u(2) assms(3)]
      by (auto simp: mark_threshold_zero)
  next
    case False
    then have s: "\<not> dneg (p_k p)" "\<not> dneg (p_k p')"
      using sign [OF assms(1)] sign [OF u(2)] assms(2)
      by (auto simp: double_le_iff dkey_def is_zero_def split: if_splits)
    note f = unit_product [OF assms(1) u(1) s(1)] unit_product [OF u(2) assms(3) s(2)]
    have "is_finite (p_k p)" "is_finite (p_k p')"
      by (rule between_finite [OF assms(1) u(1)] between_finite [OF u(2) assms(3)]; simp add: double_eval)+
    then have "p_k p * d_of_int RAND_MAX \<le> p_k p' * d_of_int RAND_MAX"
      using assms(2) by (intro times_mono) (simp_all add: RAND_MAX_def double_eval)
    with f have "dtrunc (p_k p * d_of_int RAND_MAX) \<le> dtrunc (p_k p' * d_of_int RAND_MAX)"
      by (intro dtrunc_nonneg_mono)
    then show ?thesis
      by (simp only: mark_threshold_unit(1) [OF assms(1) u(1) s(1)] mark_threshold_unit(1) [OF u(2) assms(3) s(2)])
  qed
  with assms(4) show ?thesis by (simp add: action_mark_iff)
qed

section \<open>Initialisation keeps the block well-formed\<close>

lemma init_unit_wf: "parms_wf (fst ps) \<Longrightarrow> parms_wf (fst (init_unit random32 lo hi i ps))"
proof -
  assume wf: "parms_wf (fst ps)"
  obtain p s where ps: "ps = (p, s)" by (cases ps)
  let ?body = "\<lambda>j p. p\<lparr>c_k := upd2 (c_k p) i j (dlit 0 1), c_k_1 := upd2 (c_k_1 p) i j
      (lo + d_of_int (int i - 1) * (hi - lo) * d_of_int (int UNIT_NUM - 1))\<rparr>"
  have "parms_wf (for_up 0 SAM_NUM ?body q)" if "parms_wf q" for q
    using that by (rule for_up_keeps) (simp add: parms_wf_def)
  then show ?thesis
    using wf by (simp add: ps init_unit_def Let_def split_beta parms_wf_def [of "_\<lparr>delta_k := _, delta_k_1 := _\<rparr>"])
      (simp add: parms_wf_def)
qed

text \<open>
  Each phase of the initialisation changes only its own arrays: erasing them gives back the
  block it started from.
\<close>

definition erase_units :: "rbfgrad_parms \<Rightarrow> rbfgrad_parms" where
  "erase_units p = p\<lparr>w_k := [], w_k_1 := [], c_k := [], c_k_1 := [], delta_k := [], delta_k_1 := []\<rparr>"

definition erase_samples :: "rbfgrad_parms \<Rightarrow> rbfgrad_parms" where
  "erase_samples p = p\<lparr>proba := [], queue_len := [], SamIn := [], SamOut := []\<rparr>"

definition erase_swarm :: "rbfgrad_parms \<Rightarrow> rbfgrad_parms" where
  "erase_swarm p = p\<lparr>pos := [], vel := []\<rparr>"

lemma erase_units_loop:
  "erase_units (for_up 0 SAM_NUM (\<lambda>j p. p\<lparr>c_k := upd2 (c_k p) i j x, c_k_1 := upd2 (c_k_1 p) i j y\<rparr>) q)
   = erase_units q"
  by (rule for_up_frame) (simp add: erase_units_def)

lemma erase_units_frame:
  "erase_units (fst (for_up a b (init_unit random32 lo hi) ps)) = erase_units (fst ps)"
proof (rule for_up_frame [where v = "\<lambda>ps. erase_units (fst ps)"])
  show "erase_units (fst (init_unit random32 lo hi i ps)) = erase_units (fst ps)" for i ps
  proof -
    have "erase_units (q\<lparr>delta_k := x, delta_k_1 := y\<rparr>) = erase_units q"
      "erase_units (q\<lparr>w_k := x\<rparr>) = erase_units q" "erase_units (q\<lparr>w_k_1 := x\<rparr>) = erase_units q" for q x y
      by (simp_all add: erase_units_def)
    then show ?thesis
      by (simp add: init_unit_def Let_def split_beta erase_units_loop)
  qed
qed

lemma erase_samples_frame: "erase_samples (for_up a b init_samples p) = erase_samples p"
  by (rule for_up_frame) (simp add: erase_samples_def init_samples_def)

lemma erase_swarm_frame: "erase_swarm (fst (init_swarm random32 ps)) = erase_swarm (fst ps)"
proof -
  have l: "erase_swarm (fst (init_leader random32 j qs)) = erase_swarm (fst qs)" for j qs
    by (simp add: init_leader_def Let_def split_beta erase_swarm_def)
  have p: "erase_swarm (fst (init_particle random32 i qs)) = erase_swarm (fst qs)" for i qs
    unfolding init_particle_def
    by (rule for_up_frame [where v = "\<lambda>qs. erase_swarm (fst qs)"])
      (simp add: Let_def split_beta erase_swarm_def)
  show ?thesis
    unfolding init_swarm_def
    by (simp add: for_up_frame [where v = "\<lambda>qs. erase_swarm (fst qs)"] l p)
qed

lemma erase_netout_frame:
  "(for_up a b (\<lambda>i p. p\<lparr>NetOut := (NetOut p)[i := x]\<rparr>) p)\<lparr>NetOut := []\<rparr> = p\<lparr>NetOut := []\<rparr>"
  by (rule for_up_frame) simp

text \<open>The block between the phases, for the proofs about the whole initialisation.\<close>

definition set_scalars :: "rbfgrad_parms \<Rightarrow> s32 \<Rightarrow> s32 \<Rightarrow>
    double \<Rightarrow> double \<Rightarrow> double \<Rightarrow> double \<Rightarrow> double \<Rightarrow> double \<Rightarrow> double \<Rightarrow> double \<Rightarrow> double \<Rightarrow>
    s32 \<Rightarrow> s32 \<Rightarrow> double \<Rightarrow> double \<Rightarrow> rbfgrad_parms" where
  "set_scalars p period ref init mn mx kp ki kd etap etai etad n m al et =
     p\<lparr>sampl_period := period, q_ref := ref, p_init := init, p_min := mn, p_max := mx,
       eta_p := etap, eta_i := etai, eta_d := etad, SamNum := 10, n_in := n, m_hid := m,
       alpha := al, eta := et, MaxEpoch := 1, E0 := dlit 1 (10 ^ 6),
       p_k := init, e_k := 0, e_k_1 := 0, e_k_2 := 0, kp_k := kp, ki_k := ki, kd_k := kd\<rparr>"

definition set_arrays :: "'r random_source \<Rightarrow> rbfgrad_parms \<times> 'r \<Rightarrow> rbfgrad_parms \<times> 'r" where
  "set_arrays random32 = (\<lambda>(p, s).
     let (p, s) = for_up 0 UNIT_NUM (init_unit random32 (- dlit 1 1) (dlit 1 1)) (p, s);
         p = for_up 0 SAM_NUM init_samples p;
         p = for_up 0 PARTICLE_NUM (\<lambda>i p. p\<lparr>NetOut := (NetOut p)[i := dlit 0 1]\<rparr>) p;
         p = p\<lparr>e_k := 0, e_k_1 := 0, e_k_2 := 0\<rparr>
     in init_swarm random32 (pso_constants p, s))"

lemma set_parms_phases:
  "fst (rbfgrad_set_parms random32 p period ref init mn mx kp ki kd etap etai etad n m al et slog stab s) =
     (fst (set_arrays random32 (set_scalars p period ref init mn mx kp ki kd etap etai etad n m al et, s)))
       \<lparr>gbestval := dlit 0 1, gbest_index := 0, Scell_log := slog,
        Scell_max := push_bit (unat slog mod 32) 255, Stab := take RBFGRAD_STAB_SIZE stab\<rparr>"
  by (simp add: rbfgrad_set_parms_def set_arrays_def set_scalars_def Let_def split_beta)

definition erase_arrays :: "rbfgrad_parms \<Rightarrow> rbfgrad_parms" where
  "erase_arrays p = erase_swarm (erase_samples (erase_units (p\<lparr>NetOut := []\<rparr>)))"

lemma erase_arrays_frame:
  "erase_arrays (fst (set_arrays random32 (p, s))) =
     erase_arrays (pso_constants (p\<lparr>e_k := 0, e_k_1 := 0, e_k_2 := 0\<rparr>))"
proof -
  define p1 where "p1 = fst (for_up 0 UNIT_NUM (init_unit random32 (- dlit 1 1) (dlit 1 1)) (p, s))"
  define s1 where "s1 = snd (for_up 0 UNIT_NUM (init_unit random32 (- dlit 1 1) (dlit 1 1)) (p, s))"
  define p2 where "p2 = for_up 0 SAM_NUM init_samples p1"
  define p3 where "p3 = for_up 0 PARTICLE_NUM (\<lambda>i p. p\<lparr>NetOut := (NetOut p)[i := dlit 0 1]\<rparr>) p2"
  define p4 where "p4 = pso_constants (p3\<lparr>e_k := 0, e_k_1 := 0, e_k_2 := 0\<rparr>)"
  have swap: "erase_swarm (erase_samples q) = erase_samples (erase_swarm q)"
    "erase_swarm (erase_units q) = erase_units (erase_swarm q)"
    "erase_samples (erase_units q) = erase_units (erase_samples q)"
    "erase_swarm (q\<lparr>NetOut := x\<rparr>) = (erase_swarm q)\<lparr>NetOut := x\<rparr>"
    "erase_samples (q\<lparr>NetOut := x\<rparr>) = (erase_samples q)\<lparr>NetOut := x\<rparr>"
    "erase_units (q\<lparr>NetOut := x\<rparr>) = (erase_units q)\<lparr>NetOut := x\<rparr>" for q x
    by (simp_all add: erase_units_def erase_samples_def erase_swarm_def)
  have "fst (set_arrays random32 (p, s)) = fst (init_swarm random32 (p4, s1))"
    by (simp add: set_arrays_def Let_def split_beta p1_def s1_def p2_def p3_def p4_def)
  then have "erase_arrays (fst (set_arrays random32 (p, s))) = erase_arrays p4"
    using erase_swarm_frame [of random32 "(p4, s1)"] by (simp add: erase_arrays_def swap)
  also have "\<dots> = pso_constants ((erase_arrays p3)\<lparr>e_k := 0, e_k_1 := 0, e_k_2 := 0\<rparr>)"
    by (simp add: p4_def erase_arrays_def pso_constants_def erase_units_def erase_samples_def erase_swarm_def)
  also have "erase_arrays p3 = erase_arrays p"
    using erase_netout_frame [of 0 PARTICLE_NUM "dlit 0 1" p2] erase_samples_frame [of 0 SAM_NUM p1]
      erase_units_frame [of 0 UNIT_NUM random32 "- dlit 1 1" "dlit 1 1" "(p, s)"]
    by (simp add: erase_arrays_def swap p3_def p2_def p1_def) (metis swap)
  finally show ?thesis
    by (simp add: erase_arrays_def pso_constants_def erase_units_def erase_samples_def erase_swarm_def)
qed

section \<open>The arrays after initialisation\<close>

lemma upd2_nth:
  "i' < length a \<Longrightarrow> upd2 a i j v ! i' = (if i' = i then (a ! i)[j := v] else a ! i')"
  by (simp add: upd2_def)

lemma length_upd2 [simp]: "length (upd2 a i j v) = length a"
  by (simp add: upd2_def)

lemma matrix_wf_row [simp]: "matrix_wf r c a \<Longrightarrow> i < r \<Longrightarrow> length (a ! i) = c"
  by (simp add: matrix_wf_def)

lemma matrix_wf_length: "matrix_wf r c a \<Longrightarrow> length a = r"
  by (simp add: matrix_wf_def)

definition weight_ok :: "double \<Rightarrow> bool" where
  "weight_ok w \<longleftrightarrow> - 1 \<le> w \<and> w < 1"

definition velocity_ok :: "double \<Rightarrow> bool" where
  "velocity_ok v \<longleftrightarrow> - dlit 1 100 \<le> v \<and> v \<le> dlit 3 100"

text \<open>What a unit, and the leader and a particle of the swarm, are after their phases.\<close>

definition unit_ready :: "rbfgrad_parms \<Rightarrow> nat \<Rightarrow> bool" where
  "unit_ready p j \<longleftrightarrow> weight_ok (w_k p ! j) \<and> delta_k p ! j = dlit 40 1 \<and> c_k p ! j = replicate SAM_NUM (dlit 0 1)"

lemma centre_loop_row:
  assumes "parms_wf q" "i < UNIT_NUM"
  shows "c_k (for_up 0 SAM_NUM (\<lambda>j p. p\<lparr>c_k := upd2 (c_k p) i j x, c_k_1 := upd2 (c_k_1 p) i j y\<rparr>) q) ! i
       = replicate SAM_NUM x"
    and "i' < UNIT_NUM \<Longrightarrow> i' \<noteq> i \<Longrightarrow>
       c_k (for_up 0 SAM_NUM (\<lambda>j p. p\<lparr>c_k := upd2 (c_k p) i j x, c_k_1 := upd2 (c_k_1 p) i j y\<rparr>) q) ! i' = c_k q ! i'"
proof -
  let ?f = "\<lambda>j p. p\<lparr>c_k := upd2 (c_k p) i j x, c_k_1 := upd2 (c_k_1 p) i j y\<rparr>"
  have len: "length (c_k q) = UNIT_NUM" "length (c_k q ! i) = SAM_NUM"
    using assms by (auto simp: parms_wf_def matrix_wf_def)
  have "c_k (for_up 0 SAM_NUM ?f q) ! i = for_up 0 SAM_NUM (\<lambda>j row. row[j := x]) (c_k q ! i)"
    by (rule for_up_hom [where J = "\<lambda>p. length (c_k p) = UNIT_NUM" and h = "\<lambda>p. c_k p ! i"])
      (use len assms in \<open>simp_all add: upd2_nth\<close>)
  also have "\<dots> = replicate SAM_NUM x"
    using for_up_fill [OF len(2), of "\<lambda>_. x"] by (simp add: map_replicate_const)
  finally show "c_k (for_up 0 SAM_NUM ?f q) ! i = replicate SAM_NUM x" .
  show "c_k (for_up 0 SAM_NUM ?f q) ! i' = c_k q ! i'" if "i' < UNIT_NUM" "i' \<noteq> i"
  proof -
    have "length (c_k (for_up 0 SAM_NUM ?f q)) = UNIT_NUM \<and> c_k (for_up 0 SAM_NUM ?f q) ! i' = c_k q ! i'"
      by (rule for_up_keeps) (use len that in \<open>simp_all add: upd2_nth\<close>)
    then show ?thesis by blast
  qed
qed

lemma init_unit_step:
  assumes wf: "parms_wf p" and i: "i < UNIT_NUM" and rdy: "\<forall>j<i. unit_ready p j"
  shows "\<forall>j<Suc i. unit_ready (fst (init_unit random32 (- dlit 1 1) (dlit 1 1) i (p, s))) j"
proof -
  define r1 s1 r2 s2 where "r1 = fst (random32 s)" "s1 = snd (random32 s)"
    "r2 = fst (random32 s1)" "s2 = snd (random32 s1)"
  define q where "q = p\<lparr>w_k := (w_k p)[i := rand_my_int (- 1) 1 r1], w_k_1 := (w_k_1 p)[i := rand_my_int (- 1) 1 r2]\<rparr>"
  define y where "y = - dlit 1 1 + d_of_int (int i - 1) * (dlit 1 1 - - dlit 1 1) * d_of_int (int UNIT_NUM - 1)"
  define q' where "q' = for_up 0 SAM_NUM (\<lambda>j p. p\<lparr>c_k := upd2 (c_k p) i j (dlit 0 1), c_k_1 := upd2 (c_k_1 p) i j y\<rparr>) q"
  have res: "fst (init_unit random32 (- dlit 1 1) (dlit 1 1) i (p, s)) =
      q'\<lparr>delta_k := (delta_k q')[i := dlit 40 1], delta_k_1 := (delta_k_1 q')[i := dlit 40 1]\<rparr>"
    by (simp add: init_unit_def Let_def split_beta q'_def q_def y_def r1_s1_r2_s2_def)
  have wq: "parms_wf q" using wf by (simp add: q_def parms_wf_def)
  have fr: "w_k q' = w_k q" "delta_k q' = delta_k q"
    unfolding q'_def by (rule for_up_frame; simp)+
  have "weight_ok (rand_my_int (- 1) 1 r1)"
    using rand_my_int_bounds [of r1] by (simp add: weight_ok_def)
  moreover have "i < length (w_k p)" "i < length (delta_k p)"
    using wf i by (simp_all add: parms_wf_def)
  moreover have "c_k q' ! i = replicate SAM_NUM (dlit 0 1)"
    unfolding q'_def using wq i by (rule centre_loop_row)
  moreover have "c_k q' ! j = c_k p ! j" if "j < i" for j
    using centre_loop_row(2) [OF wq i, of j] that i by (simp add: q'_def q_def)
  ultimately show ?thesis
    using rdy unfolding res by (auto simp: unit_ready_def fr q_def less_Suc_eq)
qed

lemma init_units_ready:
  assumes "parms_wf p"
  shows "parms_wf (fst (for_up 0 UNIT_NUM (init_unit random32 (- dlit 1 1) (dlit 1 1)) (p, s))) \<and>
    (\<forall>j<UNIT_NUM. unit_ready (fst (for_up 0 UNIT_NUM (init_unit random32 (- dlit 1 1) (dlit 1 1)) (p, s))) j)"
proof (rule for_up_invariant [where I = "\<lambda>i ps. parms_wf (fst ps) \<and> (\<forall>j<i. unit_ready (fst ps) j)"])
  show "parms_wf (fst (p, s)) \<and> (\<forall>j<0. unit_ready (fst (p, s)) j)" using assms by simp
  show "parms_wf (fst (init_unit random32 (- dlit 1 1) (dlit 1 1) i ps)) \<and>
      (\<forall>j<Suc i. unit_ready (fst (init_unit random32 (- dlit 1 1) (dlit 1 1) i ps)) j)"
    if "i < UNIT_NUM" "parms_wf (fst ps) \<and> (\<forall>j<i. unit_ready (fst ps) j)" for i ps
    using that init_unit_wf [of ps random32 "- dlit 1 1" "dlit 1 1" i]
      init_unit_step [of "fst ps" i random32 "snd ps"] by simp
qed simp

lemma init_samples_loop:
  assumes "parms_wf p"
  shows "parms_wf (for_up 0 SAM_NUM init_samples p)"
    and "proba (for_up 0 SAM_NUM init_samples p) = replicate SAM_NUM (p_init p)"
    and "queue_len (for_up 0 SAM_NUM init_samples p) = replicate SAM_NUM 0"
proof -
  show "parms_wf (for_up 0 SAM_NUM init_samples p)"
    by (rule for_up_keeps) (use assms in \<open>simp_all add: parms_wf_def init_samples_def\<close>)
  have len: "length (proba p) = SAM_NUM" "length (queue_len p) = SAM_NUM"
    using assms by (simp_all add: parms_wf_def)
  have "proba (for_up 0 SAM_NUM init_samples p) = for_up 0 SAM_NUM (\<lambda>i xs. xs[i := p_init p]) (proba p)"
    by (rule for_up_hom [where J = "\<lambda>q. p_init q = p_init p"]) (simp_all add: init_samples_def)
  then show "proba (for_up 0 SAM_NUM init_samples p) = replicate SAM_NUM (p_init p)"
    using for_up_fill [OF len(1), of "\<lambda>_. p_init p"] by (simp add: map_replicate_const)
  have "queue_len (for_up 0 SAM_NUM init_samples p) = for_up 0 SAM_NUM (\<lambda>i xs. xs[i := 0]) (queue_len p)"
    by (rule for_up_hom [where J = "\<lambda>_. True"]) (simp_all add: init_samples_def)
  then show "queue_len (for_up 0 SAM_NUM init_samples p) = replicate SAM_NUM 0"
    using for_up_fill [OF len(2), of "\<lambda>_. 0"] by (simp add: map_replicate_const)
qed

text \<open>The swarm: the leader sits at the weights, and every velocity so far is in range.\<close>

definition swarm_ready :: "nat \<Rightarrow> nat \<Rightarrow> rbfgrad_parms \<Rightarrow> bool" where
  "swarm_ready i j p \<longleftrightarrow> parms_wf p \<and> mv p = dlit 1 100 \<and>
     (if i = 0 then \<forall>j'<j. pos p ! 0 ! j' = w_k p ! j' else pos p ! 0 = w_k p) \<and>
     (\<forall>i'<i. \<forall>j'<UNIT_NUM. velocity_ok (vel p ! i' ! j')) \<and> (\<forall>j'<j. velocity_ok (vel p ! i ! j'))"

lemma swarm_ready_row:
  assumes "swarm_ready i UNIT_NUM p"
  shows "swarm_ready (Suc i) 0 p"
proof -
  have "pos p ! 0 = w_k p" if "i = 0"
    using assms that by (intro nth_equalityI) (auto simp: swarm_ready_def parms_wf_def PARTICLE_NUM_def)
  with assms show ?thesis by (auto simp: swarm_ready_def less_Suc_eq split: if_splits)
qed

lemma velocity_ok_rand: "velocity_ok (rand_my (- dlit 1 100) (dlit 1 100) r)"
  using rand_velocity_bounds [of r] by (simp add: velocity_ok_def)

lemma leader_step:
  assumes "swarm_ready 0 j p" "j < UNIT_NUM"
  shows "swarm_ready 0 (Suc j) (fst (init_leader random32 j (p, s)))"
proof -
  have "length (pos p) = PARTICLE_NUM" "length (vel p) = PARTICLE_NUM"
    "length (pos p ! 0) = UNIT_NUM" "length (vel p ! 0) = UNIT_NUM"
    using assms by (auto simp: swarm_ready_def parms_wf_def PARTICLE_NUM_def matrix_wf_length)
  then show ?thesis
    using assms velocity_ok_rand
    by (auto simp: swarm_ready_def init_leader_def Let_def split_beta parms_wf_def upd2_nth
        PARTICLE_NUM_def less_Suc_eq)
qed

lemma particle_ready:
  assumes "swarm_ready i 0 (fst ps)" "0 < i" "i < PARTICLE_NUM"
  shows "swarm_ready (Suc i) 0 (fst (init_particle random32 i ps))"
proof (rule swarm_ready_row)
  let ?f = "\<lambda>j (p, s). let (r1, s1) = random32 s;
      p = p\<lparr>pos := upd2 (pos p) i j (rand_my (- mwav p) (mwav p) r1)\<rparr>; (r2, s2) = random32 s1
    in (p\<lparr>vel := upd2 (vel p) i j (rand_my (- mv p) (mv p) r2)\<rparr>, s2)"
  show "swarm_ready i UNIT_NUM (fst (init_particle random32 i ps))"
    unfolding init_particle_def
  proof (rule for_up_invariant [where I = "\<lambda>j ps. swarm_ready i j (fst ps)"])
    show "swarm_ready i (Suc j) (fst (?f j ps))" if j: "j < UNIT_NUM" and rdy: "swarm_ready i j (fst ps)" for j ps
    proof -
      have "length (pos (fst ps)) = PARTICLE_NUM" "length (vel (fst ps)) = PARTICLE_NUM"
        "length (vel (fst ps) ! i) = UNIT_NUM"
        using rdy assms(3) by (auto simp: swarm_ready_def parms_wf_def matrix_wf_length)
      then show ?thesis
        using rdy j velocity_ok_rand assms(2,3)
        by (auto simp: swarm_ready_def Let_def split_beta parms_wf_def upd2_nth less_Suc_eq)
    qed
  qed (use assms in simp_all)
qed

lemma init_swarm_ready:
  assumes "parms_wf p" "mv p = dlit 1 100"
  shows "swarm_ready PARTICLE_NUM 0 (fst (init_swarm random32 (p, s)))"
proof -
  have "swarm_ready 0 UNIT_NUM (fst (for_up 0 UNIT_NUM (init_leader random32) (p, s)))"
  proof (rule for_up_invariant [where I = "\<lambda>j ps. swarm_ready 0 j (fst ps)"])
    show "swarm_ready 0 0 (fst (p, s))" using assms by (simp add: swarm_ready_def)
    show "swarm_ready 0 (Suc j) (fst (init_leader random32 j ps))"
      if "j < UNIT_NUM" "swarm_ready 0 j (fst ps)" for j ps
      using leader_step [of j "fst ps" random32 "snd ps"] that by simp
  qed simp
  then have "swarm_ready 1 0 (fst (for_up 0 UNIT_NUM (init_leader random32) (p, s)))"
    using swarm_ready_row by fastforce
  then show ?thesis
    unfolding init_swarm_def
    by (intro for_up_invariant [where I = "\<lambda>i ps. swarm_ready i 0 (fst ps)"])
      (simp_all add: particle_ready PARTICLE_NUM_def)
qed

text \<open>The arrays the later phases leave alone.\<close>

lemma set_arrays_ready:
  assumes "parms_wf p"
  shows "swarm_ready PARTICLE_NUM 0 (fst (set_arrays random32 (p, s)))"
    and "\<forall>j<UNIT_NUM. unit_ready (fst (set_arrays random32 (p, s))) j"
    and "proba (fst (set_arrays random32 (p, s))) = replicate SAM_NUM (p_init p)"
    and "queue_len (fst (set_arrays random32 (p, s))) = replicate SAM_NUM 0"
proof -
  define p1 where "p1 = fst (for_up 0 UNIT_NUM (init_unit random32 (- dlit 1 1) (dlit 1 1)) (p, s))"
  define s1 where "s1 = snd (for_up 0 UNIT_NUM (init_unit random32 (- dlit 1 1) (dlit 1 1)) (p, s))"
  define p2 where "p2 = for_up 0 SAM_NUM init_samples p1"
  define p3 where "p3 = for_up 0 PARTICLE_NUM (\<lambda>i p. p\<lparr>NetOut := (NetOut p)[i := dlit 0 1]\<rparr>) p2"
  define p4 where "p4 = pso_constants (p3\<lparr>e_k := 0, e_k_1 := 0, e_k_2 := 0\<rparr>)"
  have res: "fst (set_arrays random32 (p, s)) = fst (init_swarm random32 (p4, s1))"
    by (simp add: set_arrays_def Let_def split_beta p1_def s1_def p2_def p3_def p4_def)
  have p1: "parms_wf p1" "\<forall>j<UNIT_NUM. unit_ready p1 j" "p_init p1 = p_init p"
    using init_units_ready [OF assms, of random32 s]
      arg_cong [OF erase_units_frame [of 0 UNIT_NUM random32 "- dlit 1 1" "dlit 1 1" "(p, s)"], of p_init]
    by (simp_all add: p1_def erase_units_def)
  note p2 = init_samples_loop [OF p1(1), folded p2_def]
  have p2u: "w_k p2 = w_k p1" "delta_k p2 = delta_k p1" "c_k p2 = c_k p1"
    unfolding p2_def by (rule for_up_frame; simp add: init_samples_def)+
  have p3: "parms_wf p3"
    unfolding p3_def by (rule for_up_keeps) (use p2(1) in \<open>simp_all add: parms_wf_def\<close>)
  have p3u: "w_k p3 = w_k p2" "delta_k p3 = delta_k p2" "c_k p3 = c_k p2" "proba p3 = proba p2" "queue_len p3 = queue_len p2"
    unfolding p3_def by (rule for_up_frame; simp)+
  have p4: "parms_wf p4" "mv p4 = dlit 1 100"
    using p3 by (simp_all add: p4_def pso_constants_def parms_wf_def)
  have sw: "g (fst (init_swarm random32 (p4, s1))) = g p3"
    if "\<And>q. g (erase_swarm q) = g q" "g p4 = g p3" for g :: "rbfgrad_parms \<Rightarrow> 'x"
    using arg_cong [OF erase_swarm_frame [of random32 "(p4, s1)"], of g] that by simp
  have sel: "w_k p4 = w_k p3" "delta_k p4 = delta_k p3" "c_k p4 = c_k p3" "proba p4 = proba p3" "queue_len p4 = queue_len p3"
    by (simp_all add: p4_def pso_constants_def)
  show "swarm_ready PARTICLE_NUM 0 (fst (set_arrays random32 (p, s)))"
    unfolding res using p4 by (rule init_swarm_ready)
  show "\<forall>j<UNIT_NUM. unit_ready (fst (set_arrays random32 (p, s))) j"
    using p1(2) unfolding res unit_ready_def
    using sw [of w_k] sw [of delta_k] sw [of c_k] by (simp add: erase_swarm_def sel p2u p3u)
  show "proba (fst (set_arrays random32 (p, s))) = replicate SAM_NUM (p_init p)"
    unfolding res using sw [of proba] by (simp add: erase_swarm_def sel p3u p2 p1)
  show "queue_len (fst (set_arrays random32 (p, s))) = replicate SAM_NUM 0"
    unfolding res using sw [of queue_len] by (simp add: erase_swarm_def sel p3u p2)
qed

text \<open>The scalar fields, seen through the erased arrays.\<close>

lemma set_arrays_scalars:
  assumes "\<And>q. g (erase_arrays q) = g q"
  shows "g (fst (set_arrays random32 (p, s))) = g (pso_constants (p\<lparr>e_k := 0, e_k_1 := 0, e_k_2 := 0\<rparr>))"
  using arg_cong [OF erase_arrays_frame [of random32 p s], of g] assms by simp

lemma set_parms_wf:
  assumes "parms_wf p"
  shows "parms_wf (fst (rbfgrad_set_parms random32 p period ref init mn mx kp ki kd etap etai etad n m al et slog stab s))"
proof -
  define q where "q = set_scalars p period ref init mn mx kp ki kd etap etai etad n m al et"
  have "parms_wf q" using assms by (simp add: q_def set_scalars_def parms_wf_def)
  then have "parms_wf (fst (set_arrays random32 (q, s)))"
    using set_arrays_ready(1) [of q random32 s] by (simp add: swarm_ready_def)
  then show ?thesis unfolding set_parms_phases by (simp add: q_def parms_wf_def)
qed

text \<open>
  C6: \<open>rbfgrad_set_parms\<close> leaves a well-formed block that holds every parameter of the user
  (sampling period, reference, initial, least and greatest probability, the three gains, the
  three learning rates, the two sizes, \<open>alpha\<close>, \<open>eta\<close>, the cell size and the table) and the
  constants of the training; the marking probability and its history are the initial
  probability, the queue history, the samples, the outputs and the errors are zero, every weight
  is in \<open>[-1, 1)\<close>, every width is 40, every centre is zero, the first particle is the weight
  vector and every velocity lies between \<open>-mv\<close> and \<open>3 * mv\<close>; the previous probability \<open>p_k_1\<close>
  is not initialised.
\<close>

theorem set_parms_spec:
  assumes "parms_wf p"
    and "p' = fst (rbfgrad_set_parms random32 p period ref init mn mx kp ki kd etap etai etad n m al et slog stab s)"
  shows "parms_wf p' \<and>
    sampl_period p' = period \<and> q_ref p' = ref \<and> p_init p' = init \<and> p_min p' = mn \<and> p_max p' = mx \<and>
    kp_k p' = kp \<and> ki_k p' = ki \<and> kd_k p' = kd \<and> eta_p p' = etap \<and> eta_i p' = etai \<and> eta_d p' = etad \<and>
    n_in p' = n \<and> m_hid p' = m \<and> alpha p' = al \<and> eta p' = et \<and>
    Scell_log p' = slog \<and> Scell_max p' = push_bit (unat slog mod 32) 255 \<and> Stab p' = take RBFGRAD_STAB_SIZE stab \<and>
    SamNum p' = 10 \<and> MaxEpoch p' = 1 \<and> E0 p' = dlit 1 (10 ^ 6) \<and>
    iw1 p' = dlit 9 10 \<and> iw2 p' = dlit 2 10 \<and> iwe p' = d_of_int (int MAX_EPOCH) * dlit 3 1 / dlit 4 1 \<and>
    ac1 p' = dlit 2 1 \<and> ac2 p' = dlit 2 1 \<and> mv p' = dlit 1 100 \<and> mwav p' = dlit 1 1 \<and>
    ergrd p' = dlit 1 (10 ^ 9) \<and> ergrdep p' = d_of_int (int MAX_EPOCH) / dlit 20 1 \<and>
    gbestval p' = dlit 0 1 \<and> gbest_index p' = 0 \<and>
    p_k p' = init \<and> p_k_1 p' = p_k_1 p \<and> e_k p' = 0 \<and> e_k_1 p' = 0 \<and> e_k_2 p' = 0 \<and>
    proba p' = replicate SAM_NUM init \<and> queue_len p' = replicate SAM_NUM 0 \<and> pos p' ! 0 = w_k p' \<and>
    (\<forall>j<UNIT_NUM. - 1 \<le> w_k p' ! j \<and> w_k p' ! j < 1 \<and> delta_k p' ! j = dlit 40 1 \<and>
       c_k p' ! j = replicate SAM_NUM (dlit 0 1)) \<and>
    (\<forall>i<PARTICLE_NUM. \<forall>j<UNIT_NUM. - mv p' \<le> vel p' ! i ! j \<and> vel p' ! i ! j \<le> dlit 3 100)"
proof -
  define q where "q = set_scalars p period ref init mn mx kp ki kd etap etai etad n m al et"
  define r where "r = fst (set_arrays random32 (q, s))"
  have p': "p' = r\<lparr>gbestval := dlit 0 1, gbest_index := 0, Scell_log := slog,
      Scell_max := push_bit (unat slog mod 32) 255, Stab := take RBFGRAD_STAB_SIZE stab\<rparr>"
    unfolding assms(2) r_def q_def by (rule set_parms_phases)
  have "parms_wf q" using assms(1) by (simp add: q_def set_scalars_def parms_wf_def)
  note rdy = set_arrays_ready [OF this, of random32 s, folded r_def]
  have sw: "parms_wf r" "mv r = dlit 1 100" "pos r ! 0 = w_k r"
    "\<forall>i<PARTICLE_NUM. \<forall>j<UNIT_NUM. velocity_ok (vel r ! i ! j)"
    using rdy(1) by (simp_all add: swarm_ready_def PARTICLE_NUM_def)
  have g: "g r = g (pso_constants (q\<lparr>e_k := 0, e_k_1 := 0, e_k_2 := 0\<rparr>))"
    if "\<And>x. g (erase_arrays x) = g x" for g :: "rbfgrad_parms \<Rightarrow> 'x"
    unfolding r_def using that by (rule set_arrays_scalars)
  note defs = erase_arrays_def erase_swarm_def erase_samples_def erase_units_def pso_constants_def q_def set_scalars_def
  have "q_ref r = ref" "p_init r = init" "p_min r = mn" "p_max r = mx" "p_k r = init" "p_k_1 r = p_k_1 p"
    using g [of q_ref] g [of p_init] g [of p_min] g [of p_max] g [of p_k] g [of p_k_1] by (simp_all add: defs)
  moreover have "kp_k r = kp" "ki_k r = ki" "kd_k r = kd" "e_k r = 0" "e_k_1 r = 0" "e_k_2 r = 0"
    using g [of kp_k] g [of ki_k] g [of kd_k] g [of e_k] g [of e_k_1] g [of e_k_2] by (simp_all add: defs)
  moreover have "sampl_period r = period" "eta_p r = etap" "eta_i r = etai" "eta_d r = etad" "n_in r = n" "m_hid r = m"
    using g [of sampl_period] g [of eta_p] g [of eta_i] g [of eta_d] g [of n_in] g [of m_hid] by (simp_all add: defs)
  moreover have "alpha r = al" "eta r = et" "SamNum r = 10" "MaxEpoch r = 1" "E0 r = dlit 1 (10 ^ 6)"
    using g [of alpha] g [of eta] g [of SamNum] g [of MaxEpoch] g [of E0] by (simp_all add: defs)
  moreover have "iw1 r = dlit 9 10" "iw2 r = dlit 2 10" "iwe r = d_of_int (int MAX_EPOCH) * dlit 3 1 / dlit 4 1"
    "ac1 r = dlit 2 1" "ac2 r = dlit 2 1"
    using g [of iw1] g [of iw2] g [of iwe] g [of ac1] g [of ac2] by (simp_all add: defs)
  moreover have "mwav r = dlit 1 1" "ergrd r = dlit 1 (10 ^ 9)" "ergrdep r = d_of_int (int MAX_EPOCH) / dlit 20 1"
    using g [of mwav] g [of ergrd] g [of ergrdep] by (simp_all add: defs)
  moreover have "proba r = replicate SAM_NUM init" using rdy(3) by (simp add: q_def set_scalars_def)
  moreover have "parms_wf p'" using sw(1) by (simp add: p' parms_wf_def)
  ultimately show ?thesis
    using sw rdy(2,4) unfolding p' by (simp add: velocity_ok_def unit_ready_def weight_ok_def)
qed

theorem set_parms_spec_witness:
  "eta_p (fst (rbfgrad_set_parms (\<lambda>s. (s, s + 1)) zero_parms 1 300 0 0 1 0 0 0 1 0 0 10 6 0 0 3 [] (7 :: u32))) = 1 \<and>
   proba (fst (rbfgrad_set_parms (\<lambda>s. (s, s + 1)) zero_parms 1 300 0 0 1 0 0 0 1 0 0 10 6 0 0 3 [] (7 :: u32)))
     = replicate SAM_NUM 0"
  using set_parms_spec [OF zero_parms_wf refl, of "\<lambda>s. (s, s + 1)" 1 300 0 0 1 0 0 0 1 0 0 10 6 0 0 3 "[]" "7 :: u32"]
  by blast

end
