(* ===== verification/Rbf_Control.thy ===== *)
theory Rbf_Control
  imports Rbf_Parms
begin

text \<open>
  The controller of \<open>modules/sch_rbfgrad.c\<close>: the error of the radial basis function network at
  a particle (\<open>get_rbf_SSE\<close>) and the update of the marking probability
  (\<open>rbfgrad_mark_probability\<close>), which trains the weights by particle swarm, derives the
  Jacobian, adapts the PID gains and moves and clamps the probability. The long function is
  cut at its comments; \<open>rbfgrad_mark_probability\<close> composes the pieces in the source's order.
\<close>

section \<open>The error of a particle\<close>

text \<open>The squared distance of the sample to a centre, and the output of a hidden unit.\<close>

definition rbf_sum :: "rbfgrad_parms \<Rightarrow> nat \<Rightarrow> double" where
  "rbf_sum p i =
     for_up 0 SAM_NUM (\<lambda>j t. t + (SamIn p ! j - c_k p ! i ! j) * (SamIn p ! j - c_k p ! i ! j)) (dlit 0 1)"

definition rbf_hidden :: "rbfgrad_parms \<Rightarrow> nat \<Rightarrow> double" where
  "rbf_hidden p i = kexp (- rbf_sum p i / (dlit 2 1 * delta_k p ! i * delta_k p ! i))"

definition get_rbf_SSE :: "rbfgrad_parms \<Rightarrow> nat \<Rightarrow> double \<times> rbfgrad_parms" where
  "get_rbf_SSE p which =
     (let w = pos p ! which;
          p = p\<lparr>NetOut := (NetOut p)[which := dlit 0 1]\<rparr>;
          p = for_up 0 UNIT_NUM (\<lambda>i p.
                p\<lparr>NetOut := (NetOut p)[which := NetOut p ! which + w ! i * rbf_hidden p i]\<rparr>) p;
          SSE = (d_of_int (sint (queue_len p ! 0)) / dlit 6500 1 - NetOut p ! which) *
                (d_of_int (sint (queue_len p ! 0)) / dlit 6500 1 - NetOut p ! which) / dlit 2 1
      in (SSE, p))"

section \<open>The marking probability\<close>

text \<open>The local copies \<open>rbfgrad_mark_probability\<close> makes of the block on entry.\<close>

record mp_locals =
  l_eta_p :: double
  l_eta_i :: double
  l_eta_d :: double
  l_e_k :: double
  l_e_k_1 :: double
  l_e_k_2 :: double
  l_iw1 :: double
  l_iw2 :: double
  l_iwe :: double
  l_ac1 :: double
  l_ac2 :: double
  l_mv :: double

definition mp_locals_of :: "rbfgrad_parms \<Rightarrow> mp_locals" where
  "mp_locals_of p = \<lparr>l_eta_p = eta_p p, l_eta_i = eta_i p, l_eta_d = eta_d p,
     l_e_k = d_of_int (sint (e_k p)) / dlit 6500 1,
     l_e_k_1 = d_of_int (sint (e_k_1 p)) / dlit 6500 1,
     l_e_k_2 = d_of_int (sint (e_k_2 p)) / dlit 6500 1,
     l_iw1 = iw1 p, l_iw2 = iw2 p, l_iwe = iwe p, l_ac1 = ac1 p, l_ac2 = ac2 p, l_mv = mv p\<rparr>"

text \<open>The sample: half of it past probabilities, half of it normalised queue lengths.\<close>

definition mp_load :: "rbfgrad_parms \<Rightarrow> rbfgrad_parms" where
  "mp_load p =
     (let p = p\<lparr>jacobian := dlit 0 1\<rparr>
      in for_up 0 SAM_NUM (\<lambda>i p. p\<lparr>SamIn := (SamIn p)[i :=
           (if i < SAM_NUM div 2 then proba p ! i
            else d_of_int (sint (queue_len p ! (i - SAM_NUM div 2))) / dlit 6500 1)]\<rparr>) p)"

text \<open>The particle with the least best value; the first one wins a tie.\<close>

definition find_gbest :: "rbfgrad_parms \<Rightarrow> rbfgrad_parms \<times> nat" where
  "find_gbest p =
     (let (p, index) = for_up 0 PARTICLE_NUM (\<lambda>j (p, index).
            if pbestval p ! j < gbestval p then (p\<lparr>gbestval := pbestval p ! j\<rparr>, j) else (p, index))
            (p\<lparr>gbestval := pbestval p ! 0\<rparr>, 0)
      in (for_up 0 UNIT_NUM (\<lambda>k p. p\<lparr>gbest := (gbest p)[k := pbest p ! index ! k]\<rparr>) p, index))"

definition pso_start :: "rbfgrad_parms \<Rightarrow> rbfgrad_parms \<times> nat" where
  "pso_start p =
     (let p = for_up 0 PARTICLE_NUM (\<lambda>i. for_up 0 UNIT_NUM (\<lambda>j p.
                p\<lparr>pbest := upd2 (pbest p) i j (pos p ! i ! j)\<rparr>)) p;
          p = for_up 0 PARTICLE_NUM (\<lambda>i p.
                let (v, p) = get_rbf_SSE p i in p\<lparr>pbestval := (pbestval p)[i := v]\<rparr>) p
      in find_gbest p)"

definition eval_particle :: "nat \<Rightarrow> rbfgrad_parms \<Rightarrow> rbfgrad_parms" where
  "eval_particle j p =
     (let (SSE, p) = get_rbf_SSE p j
      in if SSE < pbestval p ! j
         then for_up 0 UNIT_NUM (\<lambda>k p. p\<lparr>pbest := upd2 (pbest p) j k (pos p ! j ! k)\<rparr>)
                (p\<lparr>pbestval := (pbestval p)[j := SSE]\<rparr>)
         else p)"

definition inertia :: "mp_locals \<Rightarrow> nat \<Rightarrow> double" where
  "inertia l i =
     (if d_of_int (int i) < l_iwe l
      then (l_iw2 l - l_iw1 l) / (l_iwe l - dlit 1 1) * d_of_int (int i) + l_iw1 l
      else l_iw2 l)"

definition move_velocity :: "'r random_source \<Rightarrow> mp_locals \<Rightarrow> double \<Rightarrow> nat \<Rightarrow> nat \<Rightarrow>
    rbfgrad_parms \<times> 'r \<Rightarrow> rbfgrad_parms \<times> 'r" where
  "move_velocity random32 l iwt j k = (\<lambda>(p, s).
     let (r1, s) = random32 s;
         rannum1 = d_of_int (uint r1) / rand_span;
         (r2, s) = random32 s;
         rannum2 = d_of_int (uint r2) / rand_span;
         v = iwt * vel p ! j ! k + l_ac1 l * rannum1 * (pbest p ! j ! k - pos p ! j ! k)
             + l_ac2 l * rannum2 * (gbest p ! k - pos p ! j ! k);
         v = (if l_mv l < v then l_mv l else v);
         v = (if v < - l_mv l then - l_mv l else v)
     in (p\<lparr>vel := upd2 (vel p) j k v\<rparr>, s))"

definition move_particle :: "'r random_source \<Rightarrow> mp_locals \<Rightarrow> double \<Rightarrow> nat \<Rightarrow>
    rbfgrad_parms \<times> 'r \<Rightarrow> rbfgrad_parms \<times> 'r" where
  "move_particle random32 l iwt j ps =
     (let (p, s) = for_up 0 UNIT_NUM (move_velocity random32 l iwt j) ps
      in (for_up 0 UNIT_NUM (\<lambda>k p. p\<lparr>pos := upd2 (pos p) j k (pos p ! j ! k + vel p ! j ! k)\<rparr>) p, s))"

text \<open>One pass of the main loop, and the loop; \<open>index\<close> is the C variable of that name.\<close>

definition pso_epoch :: "'r random_source \<Rightarrow> mp_locals \<Rightarrow> nat \<Rightarrow>
    rbfgrad_parms \<times> nat \<times> 'r \<Rightarrow> rbfgrad_parms \<times> nat \<times> 'r" where
  "pso_epoch random32 l i = (\<lambda>(p, index, s).
     let p = for_up 0 PARTICLE_NUM eval_particle p;
         (p, index) = find_gbest p;
         (p, s) = for_up 0 PARTICLE_NUM (move_particle random32 l (inertia l i)) (p, s)
     in (p, index, s))"

definition pso_train :: "'r random_source \<Rightarrow> mp_locals \<Rightarrow> rbfgrad_parms \<times> 'r \<Rightarrow> rbfgrad_parms \<times> 'r" where
  "pso_train random32 l = (\<lambda>(p, s).
     let (p, index) = pso_start p;
         (p, index, s) = for_up 0 MAX_EPOCH (pso_epoch random32 l) (p, index, s);
         p = for_up 0 UNIT_NUM (\<lambda>j p. p\<lparr>w_k := (w_k p)[j := gbest p ! j]\<rparr>) p
     in (p\<lparr>gbest_index := word_of_nat index\<rparr>, s))"

text \<open>The Jacobian and the gains, when the network is accurate enough.\<close>

definition mp_jacobian :: "rbfgrad_parms \<Rightarrow> rbfgrad_parms" where
  "mp_jacobian p =
     for_up 0 UNIT_NUM (\<lambda>i p. p\<lparr>jacobian := jacobian p +
       w_k p ! i * rbf_hidden p i * (c_k p ! i ! 0 - p_k p) / (delta_k p ! i * delta_k p ! i)\<rparr>) p"

definition mp_gains :: "mp_locals \<Rightarrow> rbfgrad_parms \<Rightarrow> rbfgrad_parms" where
  "mp_gains l p =
     (let p = p\<lparr>kp_k_1 := kp_k p, ki_k_1 := ki_k p, kd_k_1 := kd_k p\<rparr>;
          p = p\<lparr>kp_k := kp_k_1 p + l_eta_p l * l_e_k l * jacobian p * (l_e_k l - l_e_k_1 l)\<rparr>;
          p = p\<lparr>ki_k := ki_k_1 p + l_eta_i l * l_e_k l * jacobian p * l_e_k l\<rparr>;
          p = p\<lparr>kd_k := kd_k_1 p + l_eta_d l * l_e_k l * jacobian p *
                  (l_e_k l - dlit 2 1 * l_e_k_1 l + l_e_k_2 l)\<rparr>;
          p = (if kp_k p < dlit 0 1 then p\<lparr>kp_k := dlit 0 1\<rparr> else p);
          p = (if ki_k p < dlit 0 1 then p\<lparr>ki_k := dlit 0 1\<rparr> else p)
      in if kd_k p < dlit 0 1 then p\<lparr>kd_k := dlit 0 1\<rparr> else p)"

definition mp_adapt :: "mp_locals \<Rightarrow> rbfgrad_parms \<Rightarrow> rbfgrad_parms" where
  "mp_adapt l p = (if gbestval p < E0 p then mp_gains l (mp_jacobian p) else p)"

text \<open>The incremental PID law, and the clamp that follows it.\<close>

definition mp_update :: "mp_locals \<Rightarrow> rbfgrad_parms \<Rightarrow> rbfgrad_parms" where
  "mp_update l p =
     (let p = p\<lparr>p_k_1 := p_k p\<rparr>
      in p\<lparr>p_k := p_k_1 p + kp_k p * (l_e_k l - l_e_k_1 l) + ki_k p * l_e_k l
                 + kd_k p * (l_e_k l - dlit 2 1 * l_e_k_1 l + l_e_k_2 l)\<rparr>)"

definition mp_clamp :: "rbfgrad_parms \<Rightarrow> rbfgrad_parms" where
  "mp_clamp p =
     (let p = (if p_max p < p_k p then p\<lparr>p_k := p_max p\<rparr> else p)
      in if p_k p < p_min p then p\<lparr>p_k := p_min p\<rparr> else p)"

definition rbfgrad_mark_probability :: "'r random_source \<Rightarrow> rbfgrad_parms \<times> s32 \<times> 'r \<Rightarrow>
    rbfgrad_parms \<times> s32 \<times> 'r" where
  "rbfgrad_mark_probability random32 = (\<lambda>(p, prob_number, s).
     let l = mp_locals_of p;
         (p, s) = pso_train random32 l (mp_load p, s);
         p = mp_clamp (mp_update l (mp_adapt l p))
     in (p, prob_number + 1, s))"

section \<open>The error as a function of the weights\<close>

text \<open>
  The reference: the network output and half the squared error at a weight vector, for the
  samples, centres, widths and queue length of a block.
\<close>

definition net_out :: "rbfgrad_parms \<Rightarrow> double list \<Rightarrow> double" where
  "net_out p w = fold (\<lambda>i t. t + w ! i * rbf_hidden p i) [0..<UNIT_NUM] (dlit 0 1)"

definition rbf_error :: "rbfgrad_parms \<Rightarrow> double list \<Rightarrow> double" where
  "rbf_error p w =
     (let d = d_of_int (sint (queue_len p ! 0)) / dlit 6500 1 - net_out p w in d * d / dlit 2 1)"

definition rbf_inputs :: "rbfgrad_parms \<Rightarrow> double list \<times> double list list \<times> double list \<times> s32 list" where
  "rbf_inputs p = (SamIn p, c_k p, delta_k p, queue_len p)"

lemma rbf_hidden_cong: "rbf_inputs p = rbf_inputs q \<Longrightarrow> rbf_hidden p = rbf_hidden q"
  by (simp add: rbf_inputs_def rbf_hidden_def rbf_sum_def fun_eq_iff)

lemma net_out_cong: "rbf_inputs p = rbf_inputs q \<Longrightarrow> net_out p = net_out q"
  by (simp add: net_out_def fun_eq_iff rbf_hidden_cong [of p q])

lemma rbf_error_cong: "rbf_inputs p = rbf_inputs q \<Longrightarrow> rbf_error p = rbf_error q"
  by (simp add: rbf_error_def fun_eq_iff net_out_cong [of p q]) (simp add: rbf_inputs_def)

lemma get_rbf_SSE_eq:
  assumes "which < length (NetOut p)"
  shows "get_rbf_SSE p which =
    (rbf_error p (pos p ! which), p\<lparr>NetOut := (NetOut p)[which := net_out p (pos p ! which)]\<rparr>)"
proof -
  let ?w = "pos p ! which" and ?p0 = "p\<lparr>NetOut := (NetOut p)[which := dlit 0 1]\<rparr>"
  let ?f = "\<lambda>i q. q\<lparr>NetOut := (NetOut q)[which := NetOut q ! which + ?w ! i * rbf_hidden q i]\<rparr>"
  have hid: "rbf_hidden (p\<lparr>NetOut := x\<rparr>) = rbf_hidden p" for x
    by (rule rbf_hidden_cong) (simp add: rbf_inputs_def)
  have "for_up 0 UNIT_NUM ?f ?p0 =
      p\<lparr>NetOut := (NetOut p)[which := fold (\<lambda>i t. t + ?w ! i * rbf_hidden p i) [0..<UNIT_NUM] (dlit 0 1)]\<rparr>"
    by (rule for_up_invariant [where I = "\<lambda>n q. q = p\<lparr>NetOut := (NetOut p)[which :=
          fold (\<lambda>i t. t + ?w ! i * rbf_hidden p i) [0..<n] (dlit 0 1)]\<rparr>"])
      (use assms in \<open>auto simp: hid\<close>)
  then have loop: "for_up 0 UNIT_NUM ?f ?p0 = p\<lparr>NetOut := (NetOut p)[which := net_out p ?w]\<rparr>"
    by (simp add: net_out_def)
  show ?thesis
    using assms unfolding get_rbf_SSE_def Let_def loop by (simp add: rbf_error_def Let_def)
qed

lemma half_square_nonneg: "is_nan (d * d / dlit 2 1) \<or> 0 \<le> d * d / dlit 2 1" for d :: double
proof -
  have two: "dlit 2 1 = Double 0x4000000000000000" by (simp add: double_eval)
  consider "is_nan (d * d)" | "is_inf (d * d)" "\<not> dneg (d * d)" | "is_finite (d * d)" "\<not> dneg (d * d) \<or> is_zero (d * d)"
    using square_nonneg [of d] linorder_cases [of "dmag (d * d)" inf_mag]
    unfolding zero_le_iff is_nan_def is_inf_def is_finite_def is_zero_def inf_mag_def by fastforce
  then show ?thesis
  proof cases
    case 1
    then show ?thesis by (simp add: divide_double_def nan_quiet)
  next
    case 2
    then have "d * d / dlit 2 1 = mk_double False inf_mag"
      unfolding two by (simp add: divide_double_def is_nan_def is_inf_def dmag_ground dneg_ground inf_mag_def)
    then show ?thesis by (simp add: zero_le_iff is_nan_def inf_mag_def)
  next
    case 3
    have "d * d / dlit 2 1 = mk_double (dneg (d * d)) (rnd_mag (dsc (dmag (d * d)) * 2 ^ emin) (dsc 0x4000000000000000))"
      using 3(1) divide_finite [of "d * d" "dlit 2 1"] unfolding two
      by (simp add: class_ground dmag_ground dneg_ground)
    with 3(2) show ?thesis by (auto simp: zero_le_iff is_zero_def)
  qed
qed

text \<open>
  C7: \<open>get_rbf_SSE\<close> computes the error of the particle's position: half the squared
  difference between the normalised queue length and the network output, a function of the
  position, the samples, the centres and the widths alone. It writes only the particle's
  \<open>NetOut\<close>, and its result is never negative.
\<close>

theorem get_rbf_SSE_spec:
  assumes "parms_wf p" "which < PARTICLE_NUM"
  shows "get_rbf_SSE p which =
      (rbf_error p (pos p ! which), p\<lparr>NetOut := (NetOut p)[which := net_out p (pos p ! which)]\<rparr>) \<and>
    (is_nan (fst (get_rbf_SSE p which)) \<or> 0 \<le> fst (get_rbf_SSE p which))"
proof -
  have "get_rbf_SSE p which =
      (rbf_error p (pos p ! which), p\<lparr>NetOut := (NetOut p)[which := net_out p (pos p ! which)]\<rparr>)"
    using assms by (intro get_rbf_SSE_eq) (simp add: parms_wf_def)
  then show ?thesis using half_square_nonneg by (simp add: rbf_error_def Let_def)
qed

theorem get_rbf_SSE_spec_witness:
  "get_rbf_SSE zero_parms 3 =
     (rbf_error zero_parms (pos zero_parms ! 3),
      zero_parms\<lparr>NetOut := (NetOut zero_parms)[3 := net_out zero_parms (pos zero_parms ! 3)]\<rparr>)"
  using get_rbf_SSE_spec [of zero_parms 3] by (simp add: PARTICLE_NUM_def)

section \<open>The swarm\<close>

lemma copy_row:
  assumes "length (get p ! j) = UNIT_NUM" "length (get p) = N" "j < N"
    and "\<And>q x. get (put x q) = x" "\<And>q x y. put x (put y q) = put x q" "put (get p) p = p"
    and "\<And>q x. src (put x q) = src q" "length (src p) = UNIT_NUM"
  shows "for_up 0 UNIT_NUM (\<lambda>k q. put (upd2 (get q) j k (src q ! k)) q) p = put ((get p)[j := src p]) p"
proof -
  have "for_up 0 UNIT_NUM (\<lambda>k q. put (upd2 (get q) j k (src q ! k)) q) p =
      put ((get p)[j := take UNIT_NUM (src p) @ drop UNIT_NUM (get p ! j)]) p"
    by (rule for_up_invariant [where I = "\<lambda>n q. q = put ((get p)[j := take n (src p) @ drop n (get p ! j)]) p"])
      (use assms in \<open>auto simp: upd2_def list_update_append take_Suc_conv_app_nth Cons_nth_drop_Suc [symmetric]\<close>)
  with assms show ?thesis by simp
qed

lemma copy_pbest_row:
  assumes "parms_wf p" "j < PARTICLE_NUM"
  shows "for_up 0 UNIT_NUM (\<lambda>k p. p\<lparr>pbest := upd2 (pbest p) j k (pos p ! j ! k)\<rparr>) p
       = p\<lparr>pbest := (pbest p)[j := pos p ! j]\<rparr>"
  by (rule copy_row [where get = pbest and put = "\<lambda>x. pbest_update (\<lambda>_. x)" and src = "\<lambda>p. pos p ! j" and N = PARTICLE_NUM])
    (use assms in \<open>auto simp: parms_wf_def matrix_wf_length\<close>)

lemma matrix_wf_row_update [simp]:
  "matrix_wf r c a \<Longrightarrow> length x = c \<Longrightarrow> matrix_wf r c (a[j := x])"
  by (auto simp: matrix_wf_def dest: set_update_subset_insert [THEN subsetD])

lemma eval_particle_eq:
  assumes "parms_wf p" "j < PARTICLE_NUM"
  shows "eval_particle j p =
    (let e = rbf_error p (pos p ! j); q = p\<lparr>NetOut := (NetOut p)[j := net_out p (pos p ! j)]\<rparr>
     in if e < pbestval p ! j
        then q\<lparr>pbestval := (pbestval p)[j := e], pbest := (pbest p)[j := pos p ! j]\<rparr> else q)"
proof -
  have n: "j < length (NetOut p)" using assms by (simp add: parms_wf_def)
  have wf: "parms_wf (p\<lparr>NetOut := (NetOut p)[j := x], pbestval := (pbestval p)[j := y]\<rparr>)" for x y
    using assms(1) by (simp add: parms_wf_def)
  show ?thesis
    using copy_pbest_row [OF wf assms(2)]
    by (simp add: eval_particle_def get_rbf_SSE_eq [OF n] Let_def)
qed

lemma find_gbest_spec:
  assumes wf: "parms_wf p"
  obtains idx where "idx < PARTICLE_NUM"
    and "find_gbest p = (p\<lparr>gbestval := pbestval p ! idx, gbest := pbest p ! idx\<rparr>, idx)"
    and "\<not> is_nan (pbestval p ! 0) \<Longrightarrow> \<not> is_nan (pbestval p ! idx)"
    and "\<And>j. \<not> is_nan (pbestval p ! 0) \<Longrightarrow> j < PARTICLE_NUM \<Longrightarrow> \<not> is_nan (pbestval p ! j) \<Longrightarrow> pbestval p ! idx \<le> pbestval p ! j"
proof -
  let ?v = "pbestval p" and ?p0 = "p\<lparr>gbestval := pbestval p ! 0\<rparr>"
  let ?f = "\<lambda>j (q, index). if pbestval q ! j < gbestval q then (q\<lparr>gbestval := pbestval q ! j\<rparr>, j) else (q, index)"
  let ?I = "\<lambda>n (q, idx). q = p\<lparr>gbestval := ?v ! idx\<rparr> \<and> idx < max 1 n \<and>
    (\<not> is_nan (?v ! 0) \<longrightarrow> \<not> is_nan (?v ! idx) \<and> (\<forall>y \<in> (!) ?v ` {..<n}. \<not> is_nan y \<longrightarrow> ?v ! idx \<le> y))"
  obtain q idx where r: "for_up 0 PARTICLE_NUM ?f (?p0, 0) = (q, idx)" by fastforce
  have "?I PARTICLE_NUM (for_up 0 PARTICLE_NUM ?f (?p0, 0))"
  proof (rule for_up_invariant [where I = ?I])
    show "?I (Suc j) (?f j qi)" if Ij: "?I j qi" for j qi
    proof -
      obtain i where qi: "qi = (p\<lparr>gbestval := ?v ! i\<rparr>, i)" "i < max 1 j" using Ij by auto
      have f: "?f j qi = (let i' = (if ?v ! j < ?v ! i then j else i) in (p\<lparr>gbestval := ?v ! i'\<rparr>, i'))"
        by (simp add: qi)
      have *: "\<not> is_nan (if ?v ! j < ?v ! i then ?v ! j else ?v ! i) \<and>
          (\<forall>y \<in> insert (?v ! j) ((!) ?v ` {..<j}). \<not> is_nan y \<longrightarrow> (if ?v ! j < ?v ! i then ?v ! j else ?v ! i) \<le> y)"
        if "\<not> is_nan (?v ! 0)"
      proof -
        have b: "\<not> is_nan (?v ! i)" and A: "\<And>y. y \<in> (!) ?v ` {..<j} \<Longrightarrow> \<not> is_nan y \<Longrightarrow> ?v ! i \<le> y"
          using Ij that by (auto simp: qi)
        show ?thesis using dord.scan_step [OF b A] by blast
      qed
      show ?thesis
        using * qi(2) by (auto simp: f Let_def lessThan_Suc split: if_splits)
    qed
  qed auto
  with r have I: "?I PARTICLE_NUM (q, idx)" by simp
  then have idx: "idx < PARTICLE_NUM" by (simp add: PARTICLE_NUM_def)
  have len: "length (pbest p ! idx) = UNIT_NUM" "length (gbest p) = UNIT_NUM"
    using wf idx by (auto simp: parms_wf_def)
  have "for_up 0 UNIT_NUM (\<lambda>k q. q\<lparr>gbest := (gbest q)[k := pbest q ! idx ! k]\<rparr>) (p\<lparr>gbestval := x\<rparr>) =
      p\<lparr>gbestval := x, gbest := take UNIT_NUM (pbest p ! idx) @ drop UNIT_NUM (gbest p)\<rparr>" for x
    by (rule for_up_invariant [where I = "\<lambda>n q. q = p\<lparr>gbestval := x, gbest := take n (pbest p ! idx) @ drop n (gbest p)\<rparr>"])
      (use len in \<open>auto simp: list_update_append take_Suc_conv_app_nth Cons_nth_drop_Suc [symmetric]\<close>)
  then have fg: "find_gbest p = (p\<lparr>gbestval := ?v ! idx, gbest := pbest p ! idx\<rparr>, idx)"
    using I len by (simp add: find_gbest_def r)
  have "\<not> is_nan (?v ! idx)" if "\<not> is_nan (?v ! 0)" using I that by simp
  moreover have "?v ! idx \<le> ?v ! j" if "\<not> is_nan (?v ! 0)" "j < PARTICLE_NUM" "\<not> is_nan (?v ! j)" for j
    using I that by simp
  ultimately show thesis using that [OF idx fg] by blast
qed

text \<open>
  What training keeps: the inputs of the network are those of \<open>p0\<close>, and every particle's
  best value is the error at its best position.
\<close>

definition swarm_inv :: "rbfgrad_parms \<Rightarrow> rbfgrad_parms \<Rightarrow> bool" where
  "swarm_inv p0 p \<longleftrightarrow> parms_wf p \<and> rbf_inputs p = rbf_inputs p0 \<and>
     (\<forall>j<PARTICLE_NUM. pbestval p ! j = rbf_error p0 (pbest p ! j))"

text \<open>A best value that is at least as good: the same, or smaller.\<close>

definition no_worse :: "double \<Rightarrow> double \<Rightarrow> bool" where
  "no_worse a b \<longleftrightarrow> a = b \<or> a < b"

lemma no_worse_refl [simp]: "no_worse a a"
  by (simp add: no_worse_def)

lemma no_worse_trans: "no_worse a b \<Longrightarrow> no_worse b c \<Longrightarrow> no_worse a c"
  by (auto simp: no_worse_def double_less_iff)

lemma no_worse_le: "no_worse a b \<Longrightarrow> b \<le> c \<Longrightarrow> a \<le> c"
  by (auto simp: no_worse_def double_less_iff double_le_iff)

lemma no_worse_nan: "no_worse a b \<Longrightarrow> is_nan a = is_nan b"
  by (auto simp: no_worse_def double_less_iff)

lemma eval_particle_inv:
  assumes inv: "swarm_inv p0 p" and j: "j < PARTICLE_NUM"
  shows "swarm_inv p0 (eval_particle j p)"
    and "pos (eval_particle j p) = pos p"
    and "\<And>i. i < PARTICLE_NUM \<Longrightarrow> no_worse (pbestval (eval_particle j p) ! i) (pbestval p ! i)"
    and "\<not> is_nan (pbestval p ! j) \<Longrightarrow> \<not> is_nan (rbf_error p0 (pos p ! j)) \<Longrightarrow>
      pbestval (eval_particle j p) ! j \<le> rbf_error p0 (pos p ! j)"
proof -
  have wf: "parms_wf p" and inp: "rbf_inputs p = rbf_inputs p0"
    and val: "i < PARTICLE_NUM \<Longrightarrow> pbestval p ! i = rbf_error p0 (pbest p ! i)" for i
    using inv by (auto simp: swarm_inv_def)
  have len: "length (pbestval p) = PARTICLE_NUM" "length (pbest p) = PARTICLE_NUM" "length (pos p ! j) = UNIT_NUM"
    using wf j by (auto simp: parms_wf_def matrix_wf_length)
  note eq = eval_particle_eq [OF wf j] rbf_error_cong [OF inp]
  show "swarm_inv p0 (eval_particle j p)"
    using wf inp val len j
    by (auto simp: eq swarm_inv_def Let_def parms_wf_def rbf_inputs_def nth_list_update)
  show "pos (eval_particle j p) = pos p" by (simp add: eq Let_def)
  show "no_worse (pbestval (eval_particle j p) ! i) (pbestval p ! i)" if "i < PARTICLE_NUM" for i
    using that len by (cases "i = j") (auto simp: eq Let_def no_worse_def)
  show "pbestval (eval_particle j p) ! j \<le> rbf_error p0 (pos p ! j)"
    if "\<not> is_nan (pbestval p ! j)" "\<not> is_nan (rbf_error p0 (pos p ! j))"
    using that len j dord.le_refl dord.not_lt by (auto simp: eq Let_def)
qed

text \<open>Evaluating the whole swarm.\<close>

lemma eval_swarm_inv:
  assumes inv: "swarm_inv p0 p"
  defines "q \<equiv> for_up 0 PARTICLE_NUM eval_particle p"
  shows "swarm_inv p0 q" and "pos q = pos p"
    and "\<And>i. i < PARTICLE_NUM \<Longrightarrow> no_worse (pbestval q ! i) (pbestval p ! i)"
    and "\<And>j. j < PARTICLE_NUM \<Longrightarrow> \<not> is_nan (pbestval p ! j) \<Longrightarrow> \<not> is_nan (rbf_error p0 (pos p ! j)) \<Longrightarrow>
      pbestval q ! j \<le> rbf_error p0 (pos p ! j)"
proof -
  let ?I = "\<lambda>n r. swarm_inv p0 r \<and> pos r = pos p \<and>
    (\<forall>i<PARTICLE_NUM. no_worse (pbestval r ! i) (pbestval p ! i)) \<and>
    (\<forall>j<n. \<not> is_nan (pbestval p ! j) \<longrightarrow> \<not> is_nan (rbf_error p0 (pos p ! j)) \<longrightarrow>
      pbestval r ! j \<le> rbf_error p0 (pos p ! j))"
  have "?I PARTICLE_NUM q"
    unfolding q_def
  proof (rule for_up_invariant [where I = ?I])
    show "?I 0 p" using inv by simp
    show "?I (Suc j) (eval_particle j r)" if j: "j < PARTICLE_NUM" and I: "?I j r" for j r
    proof -
      note e = eval_particle_inv [OF conjunct1 [OF I] j]
      have "no_worse (pbestval (eval_particle j r) ! i) (pbestval p ! i)" if "i < PARTICLE_NUM" for i
        using e(3) [OF that] I that no_worse_trans by blast
      moreover have "pbestval (eval_particle j r) ! i \<le> rbf_error p0 (pos p ! i)"
        if "i < Suc j" "\<not> is_nan (pbestval p ! i)" "\<not> is_nan (rbf_error p0 (pos p ! i))" for i
      proof (cases "i = j")
        case True
        then show ?thesis using e(4) I that j no_worse_nan by metis
      next
        case False
        then show ?thesis using e(3) [of i] I that j no_worse_le by (simp add: less_Suc_eq)
      qed
      ultimately show ?thesis using e(1,2) I by simp
    qed
  qed simp
  then show "swarm_inv p0 q" "pos q = pos p"
    "\<And>i. i < PARTICLE_NUM \<Longrightarrow> no_worse (pbestval q ! i) (pbestval p ! i)"
    "\<And>j. j < PARTICLE_NUM \<Longrightarrow> \<not> is_nan (pbestval p ! j) \<Longrightarrow> \<not> is_nan (rbf_error p0 (pos p ! j)) \<Longrightarrow>
      pbestval q ! j \<le> rbf_error p0 (pos p ! j)"
    by blast+
qed

text \<open>Moving the swarm changes positions and velocities only, and bounds the velocities.\<close>

definition speed_ok :: "double \<Rightarrow> double \<Rightarrow> bool" where
  "speed_ok m v \<longleftrightarrow> is_nan v \<or> - m \<le> v \<and> v \<le> m"

lemma move_velocity_eq:
  obtains v where "fst (move_velocity random32 l iwt j k (p, s)) = p\<lparr>vel := upd2 (vel p) j k v\<rparr>"
    and "- l_mv l \<le> l_mv l \<Longrightarrow> speed_ok (l_mv l) v"
proof -
  define x where "x = iwt * vel p ! j ! k
    + l_ac1 l * (d_of_int (uint (fst (random32 s))) / rand_span) * (pbest p ! j ! k - pos p ! j ! k)
    + l_ac2 l * (d_of_int (uint (fst (random32 (snd (random32 s))))) / rand_span) * (gbest p ! k - pos p ! j ! k)"
  define v where "v = (let y = (if l_mv l < x then l_mv l else x) in if y < - l_mv l then - l_mv l else y)"
  show thesis
  proof (rule that [of v])
    show "fst (move_velocity random32 l iwt j k (p, s)) = p\<lparr>vel := upd2 (vel p) j k v\<rparr>"
      by (simp add: move_velocity_def Let_def split_beta v_def x_def)
    show "speed_ok (l_mv l) v" if "- l_mv l \<le> l_mv l"
    proof (cases "is_nan x")
      case True
      then show ?thesis by (simp add: v_def Let_def speed_ok_def double_less_iff)
    next
      case False
      then show ?thesis using dord.clamp_range [OF that, of x] by (simp add: v_def speed_ok_def)
    qed
  qed
qed

lemma move_particle_inv:
  fixes random32 :: "'a random_source" and l :: mp_locals and iwt :: double
  assumes wf: "parms_wf (fst ps)" and j: "j < PARTICLE_NUM"
  defines "q \<equiv> fst (move_particle random32 l iwt j ps)"
  shows "parms_wf q" and "erase_swarm q = erase_swarm (fst ps)"
    and "- l_mv l \<le> l_mv l \<Longrightarrow> \<forall>k<UNIT_NUM. speed_ok (l_mv l) (vel q ! j ! k)"
    and "\<And>i. i < PARTICLE_NUM \<Longrightarrow> i \<noteq> j \<Longrightarrow> vel q ! i = vel (fst ps) ! i"
proof -
  let ?p = "fst ps"
  define u where "u = fst (for_up 0 UNIT_NUM (move_velocity random32 l iwt j) ps)"
  have q: "q = for_up 0 UNIT_NUM (\<lambda>k p. p\<lparr>pos := upd2 (pos p) j k (pos p ! j ! k + vel p ! j ! k)\<rparr>) u"
    by (simp add: q_def u_def move_particle_def split_beta)
  let ?I = "\<lambda>n (qs :: rbfgrad_parms \<times> 'a). parms_wf (fst qs) \<and> erase_swarm (fst qs) = erase_swarm ?p \<and>
    (- l_mv l \<le> l_mv l \<longrightarrow> (\<forall>k<n. speed_ok (l_mv l) (vel (fst qs) ! j ! k))) \<and>
    (\<forall>i<PARTICLE_NUM. i \<noteq> j \<longrightarrow> vel (fst qs) ! i = vel ?p ! i)"
  have "?I UNIT_NUM (for_up 0 UNIT_NUM (move_velocity random32 l iwt j) ps)"
  proof (rule for_up_invariant [where I = ?I])
    show "?I 0 ps" using wf by simp
    show "?I (Suc k) (move_velocity random32 l iwt j k qs)" if k: "k < UNIT_NUM" and I: "?I k qs" for k qs
    proof -
      obtain v where v: "fst (move_velocity random32 l iwt j k qs) = (fst qs)\<lparr>vel := upd2 (vel (fst qs)) j k v\<rparr>"
        "- l_mv l \<le> l_mv l \<Longrightarrow> speed_ok (l_mv l) v"
        using move_velocity_eq [of random32 l iwt j k "fst qs" "snd qs"] by auto
      have len: "length (vel (fst qs)) = PARTICLE_NUM" "length (vel (fst qs) ! j) = UNIT_NUM"
        using I j by (auto simp: parms_wf_def matrix_wf_length)
      show ?thesis
        using I v(2) len j k unfolding v(1)
        by (auto simp: parms_wf_def erase_swarm_def upd2_nth less_Suc_eq)
    qed
  qed simp
  then have u: "?I UNIT_NUM (u, undefined)" by (simp add: u_def)
  have "vel q = vel u" unfolding q by (rule for_up_frame) simp
  moreover have "erase_swarm q = erase_swarm u" unfolding q by (rule for_up_frame) (simp add: erase_swarm_def)
  moreover have "parms_wf q"
    unfolding q by (rule for_up_keeps) (use u in \<open>simp_all add: parms_wf_def\<close>)
  ultimately show "parms_wf q" "erase_swarm q = erase_swarm (fst ps)"
    "- l_mv l \<le> l_mv l \<Longrightarrow> \<forall>k<UNIT_NUM. speed_ok (l_mv l) (vel q ! j ! k)"
    "\<And>i. i < PARTICLE_NUM \<Longrightarrow> i \<noteq> j \<Longrightarrow> vel q ! i = vel (fst ps) ! i"
    using u by simp_all
qed

lemma move_swarm_inv:
  fixes random32 :: "'a random_source" and l :: mp_locals and iwt :: double and s :: 'a
  assumes "parms_wf p"
  defines "q \<equiv> fst (for_up 0 PARTICLE_NUM (move_particle random32 l iwt) (p, s))"
  shows "parms_wf q" and "erase_swarm q = erase_swarm p"
    and "- l_mv l \<le> l_mv l \<Longrightarrow> \<forall>j<PARTICLE_NUM. \<forall>k<UNIT_NUM. speed_ok (l_mv l) (vel q ! j ! k)"
proof -
  let ?I = "\<lambda>n (qs :: rbfgrad_parms \<times> 'a). parms_wf (fst qs) \<and> erase_swarm (fst qs) = erase_swarm p \<and>
    (- l_mv l \<le> l_mv l \<longrightarrow> (\<forall>j<n. \<forall>k<UNIT_NUM. speed_ok (l_mv l) (vel (fst qs) ! j ! k)))"
  have "?I PARTICLE_NUM (for_up 0 PARTICLE_NUM (move_particle random32 l iwt) (p, s))"
  proof (rule for_up_invariant [where I = ?I])
    show "?I (Suc j) (move_particle random32 l iwt j qs)" if "j < PARTICLE_NUM" "?I j qs" for j qs
      using move_particle_inv [where ps = qs and j = j and ?random32.0 = random32 and l = l and iwt = iwt] that by (simp add: less_Suc_eq)
  qed (use assms in simp_all)
  then show "parms_wf q" "erase_swarm q = erase_swarm p"
    "- l_mv l \<le> l_mv l \<Longrightarrow> \<forall>j<PARTICLE_NUM. \<forall>k<UNIT_NUM. speed_ok (l_mv l) (vel q ! j ! k)"
    by (simp_all add: q_def)
qed

lemma erase_swarm_inv:
  assumes "erase_swarm q = erase_swarm p" "parms_wf q" "swarm_inv p0 p"
  shows "swarm_inv p0 q" "pbestval q = pbestval p" "pbest q = pbest p" "gbestval q = gbestval p" "gbest q = gbest p"
proof -
  have e: "SamIn q = SamIn p" "c_k q = c_k p" "delta_k q = delta_k p" "queue_len q = queue_len p"
    and f: "pbestval q = pbestval p" "pbest q = pbest p" "gbestval q = gbestval p" "gbest q = gbest p"
    using arg_cong [OF assms(1), of SamIn] arg_cong [OF assms(1), of c_k] arg_cong [OF assms(1), of delta_k]
      arg_cong [OF assms(1), of queue_len] arg_cong [OF assms(1), of pbestval] arg_cong [OF assms(1), of pbest]
      arg_cong [OF assms(1), of gbestval] arg_cong [OF assms(1), of gbest]
    by (simp_all add: erase_swarm_def)
  then show "swarm_inv p0 q" using assms(2,3) by (simp add: swarm_inv_def rbf_inputs_def)
  show "pbestval q = pbestval p" "pbest q = pbest p" "gbestval q = gbestval p" "gbest q = gbest p" by (fact f)+
qed

text \<open>The start of the training: every best position is the position itself.\<close>

lemma pso_start_copy:
  assumes "parms_wf p"
  shows "for_up 0 PARTICLE_NUM (\<lambda>i. for_up 0 UNIT_NUM (\<lambda>j p. p\<lparr>pbest := upd2 (pbest p) i j (pos p ! i ! j)\<rparr>)) p
       = p\<lparr>pbest := pos p\<rparr>"
proof -
  have len: "length (pos p) = PARTICLE_NUM" "length (pbest p) = PARTICLE_NUM"
    using assms by (auto simp: parms_wf_def matrix_wf_length)
  let ?I = "\<lambda>n q. parms_wf q \<and> q = p\<lparr>pbest := take n (pos p) @ drop n (pbest p)\<rparr>"
  have "?I PARTICLE_NUM (for_up 0 PARTICLE_NUM (\<lambda>i. for_up 0 UNIT_NUM (\<lambda>j p. p\<lparr>pbest := upd2 (pbest p) i j (pos p ! i ! j)\<rparr>)) p)"
  proof (rule for_up_invariant [where I = ?I])
    show "?I 0 p" using assms by simp
    show "?I (Suc i) (for_up 0 UNIT_NUM (\<lambda>j p. p\<lparr>pbest := upd2 (pbest p) i j (pos p ! i ! j)\<rparr>) q)"
      if i: "i < PARTICLE_NUM" and I: "?I i q" for i q
    proof -
      have r: "for_up 0 UNIT_NUM (\<lambda>j p. p\<lparr>pbest := upd2 (pbest p) i j (pos p ! i ! j)\<rparr>) q
          = q\<lparr>pbest := (pbest q)[i := pos q ! i]\<rparr>"
        using conjunct1 [OF I] i by (rule copy_pbest_row)
      have q: "q = p\<lparr>pbest := take i (pos p) @ drop i (pbest p)\<rparr>" using I by blast
      have "parms_wf (q\<lparr>pbest := (pbest q)[i := pos q ! i]\<rparr>)"
        using conjunct1 [OF I] i by (auto simp: parms_wf_def)
      moreover have "(pbest q)[i := pos q ! i] = take (Suc i) (pos p) @ drop (Suc i) (pbest p)"
        using len i
        by (simp add: q list_update_append take_Suc_conv_app_nth Cons_nth_drop_Suc [symmetric])
      ultimately show ?thesis unfolding r using q by simp
    qed
  qed simp
  then show ?thesis using len by simp
qed

lemma pso_start_values:
  assumes wf: "parms_wf p" and best: "pbest p = pos p"
  defines "q \<equiv> for_up 0 PARTICLE_NUM (\<lambda>i p. let (v, p) = get_rbf_SSE p i in p\<lparr>pbestval := (pbestval p)[i := v]\<rparr>) p"
  shows "swarm_inv p q" "pos q = pos p" "pbest q = pbest p"
proof -
  let ?I = "\<lambda>n q. parms_wf q \<and> rbf_inputs q = rbf_inputs p \<and> pos q = pos p \<and> pbest q = pbest p \<and>
    (\<forall>j<n. pbestval q ! j = rbf_error p (pos p ! j))"
  have "?I PARTICLE_NUM q"
    unfolding q_def
  proof (rule for_up_invariant [where I = ?I])
    show "?I (Suc i) (let (v, q) = get_rbf_SSE q i in q\<lparr>pbestval := (pbestval q)[i := v]\<rparr>)"
      if i: "i < PARTICLE_NUM" and I: "?I i q" for i q
    proof -
      have len: "i < length (NetOut q)" "length (pbestval q) = PARTICLE_NUM"
        using I i by (auto simp: parms_wf_def)
      show ?thesis
        using I i len rbf_error_cong [of q p]
        by (auto simp: get_rbf_SSE_eq parms_wf_def rbf_inputs_def less_Suc_eq)
    qed
  qed (use wf in simp_all)
  then show "swarm_inv p q" "pos q = pos p" "pbest q = pbest p"
    by (simp_all add: swarm_inv_def best)
qed

text \<open>After the choice of the global best.\<close>

definition best_chosen :: "rbfgrad_parms \<Rightarrow> rbfgrad_parms \<Rightarrow> nat \<Rightarrow> bool" where
  "best_chosen p0 p idx \<longleftrightarrow> swarm_inv p0 p \<and> idx < PARTICLE_NUM \<and> gbest p = pbest p ! idx \<and>
     gbestval p = pbestval p ! idx \<and>
     (\<not> is_nan (pbestval p ! 0) \<longrightarrow> (\<forall>j<PARTICLE_NUM. is_nan (pbestval p ! j) \<or> gbestval p \<le> pbestval p ! j))"

lemma find_gbest_inv:
  assumes inv: "swarm_inv p0 p"
  shows "best_chosen p0 (fst (find_gbest p)) (snd (find_gbest p))" "pos (fst (find_gbest p)) = pos p"
    "pbestval (fst (find_gbest p)) = pbestval p" "vel (fst (find_gbest p)) = vel p"
proof -
  have wf: "parms_wf p" using inv by (simp add: swarm_inv_def)
  obtain idx where i: "idx < PARTICLE_NUM"
    and f: "find_gbest p = (p\<lparr>gbestval := pbestval p ! idx, gbest := pbest p ! idx\<rparr>, idx)"
    and m: "\<And>j. \<not> is_nan (pbestval p ! 0) \<Longrightarrow> j < PARTICLE_NUM \<Longrightarrow> \<not> is_nan (pbestval p ! j) \<Longrightarrow>
      pbestval p ! idx \<le> pbestval p ! j"
    using find_gbest_spec [OF wf] by metis
  have "swarm_inv p0 (p\<lparr>gbestval := pbestval p ! idx, gbest := pbest p ! idx\<rparr>)"
    using inv i by (auto simp: swarm_inv_def parms_wf_def rbf_inputs_def)
  then show "best_chosen p0 (fst (find_gbest p)) (snd (find_gbest p))"
    unfolding f best_chosen_def using i m by auto
  show "pos (fst (find_gbest p)) = pos p" "pbestval (fst (find_gbest p)) = pbestval p"
    "vel (fst (find_gbest p)) = vel p" by (simp_all add: f)
qed

text \<open>The training loop: what holds after \<open>n\<close> epochs, with the positions visited so far.\<close>

definition swarm_at :: "'r random_source \<Rightarrow> mp_locals \<Rightarrow> rbfgrad_parms \<times> 'r \<Rightarrow> nat \<Rightarrow> rbfgrad_parms \<times> nat \<times> 'r" where
  "swarm_at random32 l ps n =
     (let (p, index) = pso_start (fst ps) in for_up 0 n (pso_epoch random32 l) (p, index, snd ps))"

lemma pso_start_inv:
  assumes wf: "parms_wf p"
  shows "best_chosen p (fst (pso_start p)) (snd (pso_start p))" "pos (fst (pso_start p)) = pos p"
    "j < PARTICLE_NUM \<Longrightarrow> pbestval (fst (pso_start p)) ! j = rbf_error p (pos p ! j)"
proof -
  let ?q = "p\<lparr>pbest := pos p\<rparr>"
  define r where "r = for_up 0 PARTICLE_NUM (\<lambda>i p. let (v, p) = get_rbf_SSE p i in p\<lparr>pbestval := (pbestval p)[i := v]\<rparr>) ?q"
  have wq: "parms_wf ?q" using wf by (simp add: parms_wf_def)
  have s: "pso_start p = find_gbest r" by (simp add: pso_start_def pso_start_copy [OF wf] r_def)
  have err: "rbf_error ?q = rbf_error p" by (rule rbf_error_cong) (simp add: rbf_inputs_def)
  have r: "swarm_inv ?q r" "pos r = pos p" "pbest r = pos p"
    using pso_start_values [OF wq] by (simp_all add: r_def)
  then have inv: "swarm_inv p r" by (simp add: swarm_inv_def err rbf_inputs_def)
  show "best_chosen p (fst (pso_start p)) (snd (pso_start p))" "pos (fst (pso_start p)) = pos p"
    using find_gbest_inv [OF inv] r(2) by (simp_all add: s)
  show "j < PARTICLE_NUM \<Longrightarrow> pbestval (fst (pso_start p)) ! j = rbf_error p (pos p ! j)"
    using find_gbest_inv(3) [OF inv] inv r(3) by (simp add: s swarm_inv_def)
qed

lemma pso_epoch_inv:
  fixes random32 :: "'a random_source" and l :: mp_locals and i idx :: nat and s :: 'a
  assumes inv: "swarm_inv p0 p"
  defines "q \<equiv> fst (pso_epoch random32 l i (p, idx, s))"
  shows "best_chosen p0 q (fst (snd (pso_epoch random32 l i (p, idx, s))))"
    and "\<And>j. j < PARTICLE_NUM \<Longrightarrow> no_worse (pbestval q ! j) (pbestval p ! j)"
    and "\<And>j. j < PARTICLE_NUM \<Longrightarrow> \<not> is_nan (pbestval p ! j) \<Longrightarrow> \<not> is_nan (rbf_error p0 (pos p ! j)) \<Longrightarrow>
      pbestval q ! j \<le> rbf_error p0 (pos p ! j)"
    and "- l_mv l \<le> l_mv l \<Longrightarrow> \<forall>j<PARTICLE_NUM. \<forall>k<UNIT_NUM. speed_ok (l_mv l) (vel q ! j ! k)"
proof -
  define e where "e = for_up 0 PARTICLE_NUM eval_particle p"
  note ev = eval_swarm_inv [OF inv, folded e_def]
  define g where "g = fst (find_gbest e)"
  note fg = find_gbest_inv [OF ev(1), folded g_def]
  have idx: "fst (snd (pso_epoch random32 l i (p, idx, s))) = snd (find_gbest e)"
    and q: "q = fst (for_up 0 PARTICLE_NUM (move_particle random32 l (inertia l i)) (g, s))"
    by (simp_all add: q_def e_def g_def pso_epoch_def Let_def split_beta)
  have wg: "parms_wf g" "swarm_inv p0 g" using fg(1) by (auto simp: best_chosen_def swarm_inv_def)
  have mv: "parms_wf q" "erase_swarm q = erase_swarm g"
    "- l_mv l \<le> l_mv l \<Longrightarrow> \<forall>j<PARTICLE_NUM. \<forall>k<UNIT_NUM. speed_ok (l_mv l) (vel q ! j ! k)"
    unfolding q by (rule move_swarm_inv [OF wg(1)]; assumption)+
  note es = erase_swarm_inv [OF mv(2,1) wg(2)]
  show "best_chosen p0 q (fst (snd (pso_epoch random32 l i (p, idx, s))))"
    using fg(1) es(1) unfolding best_chosen_def idx es(2-5) by blast
  show "no_worse (pbestval q ! j) (pbestval p ! j)" if "j < PARTICLE_NUM" for j
    using ev(3) [OF that] by (simp add: es fg)
  show "pbestval q ! j \<le> rbf_error p0 (pos p ! j)"
    if "j < PARTICLE_NUM" "\<not> is_nan (pbestval p ! j)" "\<not> is_nan (rbf_error p0 (pos p ! j))" for j
    using ev(4) [OF that] by (simp add: es fg)
  show "- l_mv l \<le> l_mv l \<Longrightarrow> \<forall>j<PARTICLE_NUM. \<forall>k<UNIT_NUM. speed_ok (l_mv l) (vel q ! j ! k)"
    by (fact mv(3))
qed

lemma swarm_at_Suc:
  "swarm_at random32 l ps (Suc n) = pso_epoch random32 l n (swarm_at random32 l ps n)"
  by (simp add: swarm_at_def split_beta for_up_Suc)

lemma swarm_at_inv:
  assumes wf: "parms_wf p"
  shows "best_chosen p (fst (swarm_at random32 l (p, s) n)) (fst (snd (swarm_at random32 l (p, s) n)))"
    and "\<forall>j<PARTICLE_NUM. no_worse (pbestval (fst (swarm_at random32 l (p, s) n)) ! j) (rbf_error p (pos p ! j))"
    and "\<forall>e<n. \<forall>j<PARTICLE_NUM. \<not> is_nan (rbf_error p (pos p ! j)) \<longrightarrow>
      \<not> is_nan (rbf_error p (pos (fst (swarm_at random32 l (p, s) e)) ! j)) \<longrightarrow>
      pbestval (fst (swarm_at random32 l (p, s) n)) ! j \<le> rbf_error p (pos (fst (swarm_at random32 l (p, s) e)) ! j)"
proof (induction n)
  case 0
  have z: "fst (swarm_at random32 l (p, s) 0) = fst (pso_start p)"
    "fst (snd (swarm_at random32 l (p, s) 0)) = snd (pso_start p)"
    by (simp_all add: swarm_at_def split_beta)
  case 1 show ?case unfolding z by (rule pso_start_inv [OF wf])
  case 2 show ?case using pso_start_inv(3) [OF wf] by (simp add: z)
  case 3 show ?case by simp
next
  case (Suc n)
  obtain q idx t where q: "swarm_at random32 l (p, s) n = (q, idx, t)" by (cases "swarm_at random32 l (p, s) n") auto
  have inv: "swarm_inv p q" using Suc(1) by (simp add: q best_chosen_def)
  note e = pso_epoch_inv [OF inv, where ?random32.0 = random32 and l = l and i = n and idx = idx and s = t]
  case 1 show ?case using e(1) by (simp add: swarm_at_Suc q)
  case 2 show ?case using e(2) Suc(2) no_worse_trans by (fastforce simp: swarm_at_Suc q)
  case 3 show ?case
  proof (intro allI impI)
    fix d j
    assume d: "d < Suc n" and j: "j < PARTICLE_NUM" and n0: "\<not> is_nan (rbf_error p (pos p ! j))"
      and nd: "\<not> is_nan (rbf_error p (pos (fst (swarm_at random32 l (p, s) d)) ! j))"
    have nq: "\<not> is_nan (pbestval q ! j)" using Suc(2) j n0 no_worse_nan by (auto simp: q)
    show "pbestval (fst (swarm_at random32 l (p, s) (Suc n))) ! j
        \<le> rbf_error p (pos (fst (swarm_at random32 l (p, s) d)) ! j)"
    proof (cases "d = n")
      case True
      with e(3) [OF j nq] nd show ?thesis by (simp add: swarm_at_Suc q)
    next
      case False
      with Suc(3) d j n0 nd have "pbestval q ! j \<le> rbf_error p (pos (fst (swarm_at random32 l (p, s) d)) ! j)"
        by (simp add: q)
      then show ?thesis using no_worse_le e(2) [OF j] by (simp add: swarm_at_Suc q)
    qed
  qed
qed

section \<open>Training\<close>

lemma pso_train_eq:
  "fst (pso_train random32 l (p, s)) =
     (for_up 0 UNIT_NUM (\<lambda>j p. p\<lparr>w_k := (w_k p)[j := gbest p ! j]\<rparr>) (fst (swarm_at random32 l (p, s) MAX_EPOCH)))
       \<lparr>gbest_index := word_of_nat (fst (snd (swarm_at random32 l (p, s) MAX_EPOCH)))\<rparr>"
  by (simp add: pso_train_def swarm_at_def Let_def split_beta)

lemma install_weights:
  assumes "length (w_k p) = UNIT_NUM" "length (gbest p) = UNIT_NUM"
  shows "for_up 0 UNIT_NUM (\<lambda>j p. p\<lparr>w_k := (w_k p)[j := gbest p ! j]\<rparr>) p = p\<lparr>w_k := gbest p\<rparr>"
proof -
  have "for_up 0 UNIT_NUM (\<lambda>j p. p\<lparr>w_k := (w_k p)[j := gbest p ! j]\<rparr>) p
      = p\<lparr>w_k := take UNIT_NUM (gbest p) @ drop UNIT_NUM (w_k p)\<rparr>"
    by (rule for_up_invariant [where I = "\<lambda>n q. q = p\<lparr>w_k := take n (gbest p) @ drop n (w_k p)\<rparr>"])
      (use assms in \<open>auto simp: list_update_append take_Suc_conv_app_nth Cons_nth_drop_Suc [symmetric]\<close>)
  with assms show ?thesis by simp
qed

text \<open>The trained block, through the state after the last epoch.\<close>

lemma pso_train_result:
  assumes wf: "parms_wf p"
    and P_def: "P = fst (swarm_at random32 l (p, s) MAX_EPOCH)"
    and i_def: "i = fst (snd (swarm_at random32 l (p, s) MAX_EPOCH))"
  shows "fst (pso_train random32 l (p, s)) = P\<lparr>w_k := gbest P, gbest_index := word_of_nat i\<rparr>"
    and "best_chosen p P i" and "parms_wf (fst (pso_train random32 l (p, s)))"
proof -
  show b: "best_chosen p P i" unfolding P_def i_def by (rule swarm_at_inv [OF wf])
  then have w: "parms_wf P" by (simp add: best_chosen_def swarm_inv_def)
  then show r: "fst (pso_train random32 l (p, s)) = P\<lparr>w_k := gbest P, gbest_index := word_of_nat i\<rparr>"
    using install_weights [of P] by (simp add: pso_train_eq parms_wf_def flip: P_def i_def)
  from w show "parms_wf (fst (pso_train random32 l (p, s)))" unfolding r by (simp add: parms_wf_def)
qed

text \<open>
  C2: the training installs weights whose error is the recorded best value, and no position
  the swarm visits in any epoch has a smaller error. A particle whose first error is a NaN is
  left out: a NaN best value is never replaced. The hypothesis says that the first particle's
  is a number, on which the search for the best starts.
\<close>

theorem pso_train_optimal:
  assumes "parms_wf p" "\<not> is_nan (rbf_error p (pos p ! 0))"
    and "q = fst (pso_train random32 l (p, s))"
  shows "gbestval q = rbf_error p (w_k q) \<and> unat (gbest_index q) < PARTICLE_NUM \<and>
    w_k q = pbest q ! unat (gbest_index q) \<and>
    (\<forall>e<MAX_EPOCH. \<forall>j<PARTICLE_NUM. \<not> is_nan (rbf_error p (pos p ! j)) \<longrightarrow>
      \<not> is_nan (rbf_error p (pos (fst (swarm_at random32 l (p, s) e)) ! j)) \<longrightarrow>
      gbestval q \<le> rbf_error p (pos (fst (swarm_at random32 l (p, s) e)) ! j))"
proof -
  define P where "P = fst (swarm_at random32 l (p, s) MAX_EPOCH)"
  define i where "i = fst (snd (swarm_at random32 l (p, s) MAX_EPOCH))"
  note r = pso_train_result [OF assms(1) P_def i_def]
  note sw = swarm_at_inv [OF assms(1), where n = MAX_EPOCH and ?random32.0 = random32 and l = l and s = s, folded P_def i_def]
  have b: "i < PARTICLE_NUM" "gbest P = pbest P ! i" "gbestval P = rbf_error p (gbest P)"
    using r(2) by (auto simp: best_chosen_def swarm_inv_def)
  then have i: "unat (word_of_nat i :: s32) = i" by (simp add: unsigned_of_nat take_bit_nat_eq_self PARTICLE_NUM_def)
  have nan: "is_nan (pbestval P ! j) = is_nan (rbf_error p (pos p ! j))" if "j < PARTICLE_NUM" for j
    using sw(2) that by (intro no_worse_nan) blast
  have "\<not> is_nan (pbestval P ! 0)" using nan [of 0] assms(2) by (simp add: PARTICLE_NUM_def)
  then have least: "gbestval P \<le> pbestval P ! j" if "j < PARTICLE_NUM" "\<not> is_nan (rbf_error p (pos p ! j))" for j
    using r(2) that nan [OF that(1)] by (auto simp: best_chosen_def)
  have "gbestval P \<le> rbf_error p (pos (fst (swarm_at random32 l (p, s) e)) ! j)"
    if "e < MAX_EPOCH" "j < PARTICLE_NUM" "\<not> is_nan (rbf_error p (pos p ! j))"
      "\<not> is_nan (rbf_error p (pos (fst (swarm_at random32 l (p, s) e)) ! j))" for e j
    using dord.le_trans [OF least [OF that(2,3)]] sw(3) that by blast
  then show ?thesis using b i unfolding assms(3) r(1) by simp
qed

text \<open>
  C8: after training every velocity is bounded by the maximal speed in absolute value, unless
  it is a NaN.
\<close>

theorem pso_train_speed:
  assumes "parms_wf p" "- l_mv l \<le> l_mv l" "j < PARTICLE_NUM" "k < UNIT_NUM"
    and "v = vel (fst (pso_train random32 l (p, s))) ! j ! k"
  shows "is_nan v \<or> - l_mv l \<le> v \<and> v \<le> l_mv l"
proof -
  obtain q idx t where q: "swarm_at random32 l (p, s) 9 = (q, idx, t)" by (cases "swarm_at random32 l (p, s) 9") auto
  have "swarm_inv p q"
    using swarm_at_inv(1) [OF assms(1), where n = 9 and ?random32.0 = random32 and l = l and s = s] by (simp add: q best_chosen_def)
  moreover have "swarm_at random32 l (p, s) MAX_EPOCH = pso_epoch random32 l 9 (q, idx, t)"
    using swarm_at_Suc [of random32 l "(p, s)" 9] by (simp add: q MAX_EPOCH_def)
  ultimately have "speed_ok (l_mv l) (vel (fst (swarm_at random32 l (p, s) MAX_EPOCH)) ! j ! k)"
    using pso_epoch_inv(4) assms(2-4) by metis
  then show ?thesis
    unfolding assms(5) pso_train_result(1) [OF assms(1) refl refl] by (simp add: speed_ok_def)
qed

section \<open>The update of the probability\<close>

text \<open>The fields training may change; the rest of the block is as the training found it.\<close>

definition erase_training :: "rbfgrad_parms \<Rightarrow> rbfgrad_parms" where
  "erase_training p = p\<lparr>NetOut := [], pbest := [], pbestval := [], gbest := [], gbestval := 0,
     pos := [], vel := [], w_k := [], gbest_index := 0\<rparr>"

lemma erase_training_updates [simp]:
  "erase_training (p\<lparr>NetOut := a\<rparr>) = erase_training p"
  "erase_training (p\<lparr>pbest := b\<rparr>) = erase_training p"
  "erase_training (p\<lparr>pbestval := a\<rparr>) = erase_training p"
  "erase_training (p\<lparr>gbest := a\<rparr>) = erase_training p"
  "erase_training (p\<lparr>gbestval := x\<rparr>) = erase_training p"
  "erase_training (p\<lparr>pos := b\<rparr>) = erase_training p"
  "erase_training (p\<lparr>vel := b\<rparr>) = erase_training p"
  "erase_training (p\<lparr>w_k := a\<rparr>) = erase_training p"
  "erase_training (p\<lparr>gbest_index := i\<rparr>) = erase_training p"
  by (simp_all add: erase_training_def)

lemma erase_training_SSE: "erase_training (snd (get_rbf_SSE p j)) = erase_training p"
  by (simp add: get_rbf_SSE_def Let_def for_up_frame [where v = erase_training])

lemma erase_training_gbest: "erase_training (fst (find_gbest p)) = erase_training p"
proof -
  have "erase_training (fst (for_up 0 PARTICLE_NUM (\<lambda>j (p, index).
      if pbestval p ! j < gbestval p then (p\<lparr>gbestval := pbestval p ! j\<rparr>, j) else (p, index)) (q, i)))
    = erase_training q" for q i
    by (subst for_up_frame [where v = "\<lambda>x. erase_training (fst x)"]) (auto split: prod.splits)
  then show ?thesis
    by (simp add: find_gbest_def split_beta for_up_frame [where v = erase_training])
qed

lemma erase_training_eval: "erase_training (eval_particle j p) = erase_training p"
  using erase_training_SSE [of p j]
  by (auto simp: eval_particle_def split_beta for_up_frame [where v = erase_training])

lemma erase_training_move:
  "erase_training (fst (move_particle random32 l iwt j ps)) = erase_training (fst ps)"
proof -
  have "erase_training (fst (move_velocity random32 l iwt j k qs)) = erase_training (fst qs)" for k qs
    by (simp add: move_velocity_def Let_def split_beta)
  then show ?thesis
    by (simp add: move_particle_def split_beta for_up_frame [where v = erase_training]
        for_up_frame [where v = "\<lambda>x. erase_training (fst x)"])
qed

lemma erase_training_epoch:
  "erase_training (fst (pso_epoch random32 l i ps)) = erase_training (fst ps)"
  by (cases ps) (simp add: pso_epoch_def Let_def split_beta for_up_frame [where v = "\<lambda>x. erase_training (fst x)"]
      erase_training_move erase_training_gbest for_up_frame [where v = erase_training] erase_training_eval)

lemma erase_training_start: "erase_training (fst (pso_start p)) = erase_training p"
proof -
  have "erase_training (let (v, q) = get_rbf_SSE p i in q\<lparr>pbestval := (pbestval q)[i := v]\<rparr>) = erase_training p" for i p
    using erase_training_SSE [of p i] by (simp add: split_beta)
  then show ?thesis
    by (simp add: pso_start_def Let_def erase_training_gbest for_up_frame [where v = erase_training])
qed

lemma erase_training_train:
  "erase_training (fst (pso_train random32 l (p, s))) = erase_training p"
  by (simp add: pso_train_def Let_def split_beta for_up_frame [where v = "\<lambda>x. erase_training (fst x)"]
      erase_training_epoch for_up_frame [where v = erase_training] erase_training_start)

lemma train_frame:
  assumes "\<And>q. g (erase_training q) = g q"
  shows "g (fst (pso_train random32 l (p, s))) = g p"
  using arg_cong [OF erase_training_train [of random32 l p s], of g] assms by simp

lemma mp_load_frame: "(mp_load p)\<lparr>SamIn := []\<rparr> = p\<lparr>jacobian := dlit 0 1, SamIn := []\<rparr>"
  by (simp add: mp_load_def for_up_frame [where v = "\<lambda>p. p\<lparr>SamIn := []\<rparr>"])

lemma mp_load_sel:
  assumes "\<And>q. g (q\<lparr>SamIn := []\<rparr>) = g q"
  shows "g (mp_load p) = g (p\<lparr>jacobian := dlit 0 1\<rparr>)"
  using arg_cong [OF mp_load_frame [of p], of g] assms [of "mp_load p"] assms [of "p\<lparr>jacobian := dlit 0 1\<rparr>"] by simp

lemma mp_load_wf: "parms_wf p \<Longrightarrow> parms_wf (mp_load p)"
  unfolding mp_load_def Let_def by (rule for_up_keeps) (simp_all add: parms_wf_def)

lemma mp_jacobian_frame: "(mp_jacobian p)\<lparr>jacobian := 0\<rparr> = p\<lparr>jacobian := 0\<rparr>"
  unfolding mp_jacobian_def by (rule for_up_frame) simp

lemma mp_jacobian_sel:
  assumes "\<And>q. g (q\<lparr>jacobian := 0\<rparr>) = g q"
  shows "g (mp_jacobian p) = g p"
  using arg_cong [OF mp_jacobian_frame [of p], of g] assms by simp

text \<open>The fields of the block that neither training nor the control law changes.\<close>

definition control_frame :: "rbfgrad_parms \<Rightarrow> rbfgrad_parms" where
  "control_frame p = (erase_training p)\<lparr>SamIn := [], jacobian := 0, kp_k := 0, kp_k_1 := 0, ki_k := 0,
     ki_k_1 := 0, kd_k := 0, kd_k_1 := 0, p_k := 0, p_k_1 := 0\<rparr>"

lemma control_frame_adapt: "control_frame (mp_adapt l p) = control_frame p"
proof -
  have "control_frame (mp_jacobian p) = control_frame p"
    by (rule mp_jacobian_sel) (simp add: control_frame_def erase_training_def)
  moreover have "control_frame (mp_gains l q) = control_frame q" for q
    by (simp add: mp_gains_def Let_def control_frame_def erase_training_def)
  ultimately show ?thesis by (simp add: mp_adapt_def)
qed

lemma control_frame_mark:
  "control_frame (fst (rbfgrad_mark_probability random32 (p, n, s))) = control_frame p"
proof -
  have "control_frame (mp_clamp q) = control_frame q" "control_frame (mp_update l q) = control_frame q" for l q
    by (simp_all add: mp_clamp_def mp_update_def Let_def control_frame_def erase_training_def)
  moreover have "control_frame (fst (pso_train random32 l (q, s))) = control_frame q" for l q
    by (rule train_frame) (simp add: control_frame_def erase_training_def)
  moreover have "control_frame (mp_load p) = control_frame (p\<lparr>jacobian := dlit 0 1\<rparr>)"
    by (rule mp_load_sel) (simp add: control_frame_def erase_training_def)
  moreover have "control_frame (p\<lparr>jacobian := dlit 0 1\<rparr>) = control_frame p"
    by (simp add: control_frame_def erase_training_def)
  ultimately show ?thesis
    by (simp add: rbfgrad_mark_probability_def Let_def split_beta control_frame_adapt)
qed

lemma mark_frame:
  assumes "\<And>q. g (control_frame q) = g q"
  shows "g (fst (rbfgrad_mark_probability random32 (p, n, s))) = g p"
  using arg_cong [OF control_frame_mark [of random32 p n s], of g] assms by simp

lemma mark_probability_phases:
  assumes "l = mp_locals_of p" "t = fst (pso_train random32 l (mp_load p, s))"
  shows "fst (rbfgrad_mark_probability random32 (p, n, s)) = mp_clamp (mp_update l (mp_adapt l t))"
  by (simp add: rbfgrad_mark_probability_def Let_def split_beta assms)

lemma mark_probability_wf:
  assumes "parms_wf p"
  shows "parms_wf (fst (rbfgrad_mark_probability random32 (p, n, s)))"
proof -
  define t where "t = fst (pso_train random32 (mp_locals_of p) (mp_load p, s))"
  have wf: "parms_wf t"
    unfolding t_def by (rule pso_train_result [OF mp_load_wf [OF assms] refl refl])
  have "parms_wf (mp_jacobian q) = parms_wf q" for q
    by (rule mp_jacobian_sel) (simp add: parms_wf_def)
  moreover have "parms_wf (mp_gains l q) = parms_wf q" "parms_wf (mp_update l q) = parms_wf q"
    "parms_wf (mp_clamp q) = parms_wf q" for l q
    by (simp_all add: mp_gains_def mp_update_def mp_clamp_def Let_def parms_wf_def)
  ultimately show ?thesis
    using wf by (simp add: mark_probability_phases [OF refl t_def] mp_adapt_def)
qed

text \<open>
  C4: after an update the marking probability lies between the configured bounds, unless it
  is a NaN, which both comparisons of the clamp let through.
\<close>

theorem mark_probability_range:
  assumes "p_min p \<le> p_max p" "p' = fst (rbfgrad_mark_probability random32 (p, n, s))"
  shows "is_nan (p_k p') \<or> p_min p \<le> p_k p' \<and> p_k p' \<le> p_max p"
proof -
  define l where "l = mp_locals_of p"
  define t where "t = fst (pso_train random32 l (mp_load p, s))"
  define u where "u = mp_update l (mp_adapt l t)"
  have p': "p' = mp_clamp u"
    unfolding assms(2) u_def by (rule mark_probability_phases [OF l_def t_def])
  have b: "p_min p' = p_min p" "p_max p' = p_max p"
    unfolding assms(2) by (rule mark_frame; simp add: control_frame_def erase_training_def)+
  moreover have "p_min p' = p_min u" "p_max p' = p_max u" by (simp_all add: p' mp_clamp_def Let_def)
  ultimately have u: "p_min u \<le> p_max u" using assms(1) by simp
  have c: "p_k p' = (let y = (if p_max u < p_k u then p_max u else p_k u) in if y < p_min u then p_min u else y)"
    by (simp add: p' mp_clamp_def Let_def)
  show ?thesis
  proof (cases "is_nan (p_k u)")
    case True
    then show ?thesis unfolding c by (simp add: Let_def double_less_iff)
  next
    case False
    then show ?thesis using dord.clamp_range [OF u, of "p_k u"] unfolding c
      using b \<open>p_min p' = p_min u\<close> \<open>p_max p' = p_max u\<close> by simp
  qed
qed

definition clamp_prob :: "rbfgrad_parms \<Rightarrow> double \<Rightarrow> double" where
  "clamp_prob p x = (let y = (if p_max p < x then p_max p else x) in if y < p_min p then p_min p else y)"

lemma adapt_fields:
  "p_k (mp_adapt l t) = p_k t" "p_min (mp_adapt l t) = p_min t" "p_max (mp_adapt l t) = p_max t"
  "E0 (mp_adapt l t) = E0 t" "gbestval (mp_adapt l t) = gbestval t"
proof -
  have j: "p_k (mp_jacobian t) = p_k t" "p_min (mp_jacobian t) = p_min t" "p_max (mp_jacobian t) = p_max t"
    "E0 (mp_jacobian t) = E0 t" "gbestval (mp_jacobian t) = gbestval t"
    by (rule mp_jacobian_sel; simp)+
  have "p_k (mp_gains l q) = p_k q" "p_min (mp_gains l q) = p_min q" "p_max (mp_gains l q) = p_max q"
    "E0 (mp_gains l q) = E0 q" "gbestval (mp_gains l q) = gbestval q" for q
    by (simp_all add: mp_gains_def Let_def)
  with j show "p_k (mp_adapt l t) = p_k t" "p_min (mp_adapt l t) = p_min t" "p_max (mp_adapt l t) = p_max t"
    "E0 (mp_adapt l t) = E0 t" "gbestval (mp_adapt l t) = gbestval t"
    by (simp_all add: mp_adapt_def)
qed

lemma trained_fields:
  assumes "t = fst (pso_train random32 l (mp_load p, s))"
  shows "p_k t = p_k p" "p_min t = p_min p" "p_max t = p_max p" "E0 t = E0 p" "jacobian t = dlit 0 1"
    "kp_k t = kp_k p" "ki_k t = ki_k p" "kd_k t = kd_k p"
proof -
  have t: "g t = g (p\<lparr>jacobian := dlit 0 1\<rparr>)"
    if "\<And>q. g (erase_training q) = g q" "\<And>q. g (q\<lparr>SamIn := []\<rparr>) = g q" for g :: "rbfgrad_parms \<Rightarrow> 'x"
    unfolding assms by (rule trans [OF train_frame [where g = g, OF that(1)] mp_load_sel [where g = g, OF that(2)]])
  show "p_k t = p_k p" "p_min t = p_min p" "p_max t = p_max p" "E0 t = E0 p" "jacobian t = dlit 0 1"
    "kp_k t = kp_k p" "ki_k t = ki_k p" "kd_k t = kd_k p"
    using t [of p_k] t [of p_min] t [of p_max] t [of E0] t [of jacobian] t [of kp_k] t [of ki_k] t [of kd_k]
    by (simp_all add: erase_training_def)
qed

lemma mark_probability_fields:
  assumes "l = mp_locals_of p" "t = fst (pso_train random32 l (mp_load p, s))"
    "p' = fst (rbfgrad_mark_probability random32 (p, n, s))"
  shows "kp_k p' = kp_k (mp_adapt l t)" "ki_k p' = ki_k (mp_adapt l t)" "kd_k p' = kd_k (mp_adapt l t)"
    "jacobian p' = jacobian (mp_adapt l t)" "gbestval p' = gbestval t" "p_k_1 p' = p_k p"
    "p_k p' = clamp_prob p (p_k p + kp_k p' * (l_e_k l - l_e_k_1 l) + ki_k p' * l_e_k l
       + kd_k p' * (l_e_k l - dlit 2 1 * l_e_k_1 l + l_e_k_2 l))"
  unfolding assms(3) mark_probability_phases [OF assms(1,2)]
  by (simp_all add: mp_clamp_def mp_update_def clamp_prob_def Let_def adapt_fields trained_fields [OF assms(2)])

text \<open>
  C9: the control law. The previous probability becomes \<open>p_k_1\<close>; the new one is the clamped
  sum of the old one and the proportional, integral and derivative terms over the normalised
  errors. The gains change, and the Jacobian is other than zero, only when the error of the
  trained network is below the precision \<open>E0\<close>.
\<close>

theorem mark_probability_law:
  assumes "p' = fst (rbfgrad_mark_probability random32 (p, n, s))" "l = mp_locals_of p"
  shows "p_k_1 p' = p_k p \<and>
    p_k p' = clamp_prob p (p_k p + kp_k p' * (l_e_k l - l_e_k_1 l) + ki_k p' * l_e_k l
       + kd_k p' * (l_e_k l - dlit 2 1 * l_e_k_1 l + l_e_k_2 l)) \<and>
    (\<not> gbestval p' < E0 p \<longrightarrow>
       kp_k p' = kp_k p \<and> ki_k p' = ki_k p \<and> kd_k p' = kd_k p \<and> jacobian p' = dlit 0 1)"
proof -
  define t where "t = fst (pso_train random32 l (mp_load p, s))"
  note f = mark_probability_fields [OF assms(2) t_def assms(1)]
  have "mp_adapt l t = t" if "\<not> gbestval p' < E0 p"
    using that by (simp add: mp_adapt_def f(5) trained_fields [OF t_def])
  then show ?thesis using f trained_fields [OF t_def] by simp
qed

definition gain_ok :: "double \<Rightarrow> bool" where
  "gain_ok x \<longleftrightarrow> is_nan x \<or> 0 \<le> x"

lemma gain_floor: "gain_ok (dlit 0 1)" "\<not> x < dlit 0 1 \<Longrightarrow> gain_ok x"
  using dord.not_lt [of x "dlit 0 1"] dlit_not_nan [of 0 1]
  by (auto simp: gain_ok_def zero_double_def dlit_def dround_def double_le_iff)

text \<open>
  C10: no gain is ever negative: an update keeps each of the three gains either a NaN or at
  least zero.
\<close>

theorem mark_probability_gains:
  assumes "gain_ok (kp_k p)" "gain_ok (ki_k p)" "gain_ok (kd_k p)"
    and "p' = fst (rbfgrad_mark_probability random32 (p, n, s))"
  shows "gain_ok (kp_k p') \<and> gain_ok (ki_k p') \<and> gain_ok (kd_k p')"
proof -
  define l where "l = mp_locals_of p"
  define t where "t = fst (pso_train random32 l (mp_load p, s))"
  note f = mark_probability_fields [OF l_def t_def assms(4)]
  have g: "gain_ok (kp_k (mp_gains l q))" "gain_ok (ki_k (mp_gains l q))" "gain_ok (kd_k (mp_gains l q))" for q
    unfolding mp_gains_def Let_def
    by (simp_all add: if_distrib [of kp_k] if_distrib [of ki_k] if_distrib [of kd_k] gain_floor cong: if_cong del: One_nat_def)
  show ?thesis
    using assms(1-3) g unfolding f by (simp add: mp_adapt_def trained_fields [OF t_def])
qed

text \<open>A block with the widths of a configured one, for evaluation.\<close>

definition sample_parms :: rbfgrad_parms where
  "sample_parms = zero_parms\<lparr>p_max := 1, mv := dlit 1 100, delta_k := replicate UNIT_NUM (dlit 40 1)\<rparr>"

lemma sample_parms_wf: "parms_wf sample_parms"
  using zero_parms_wf by (simp add: sample_parms_def parms_wf_def)

lemma sample_rbf_sum:
  assumes "i < UNIT_NUM"
  shows "rbf_sum sample_parms i = Double 0"
proof -
  have c: "c_k sample_parms ! i ! j = Double 0" "SamIn sample_parms ! j = Double 0" if "j < SAM_NUM" for j
    using assms that by (simp_all add: sample_parms_def zero_parms_def zero_double_ground)
  have z: "Double 0 + (Double 0 - Double 0) * (Double 0 - Double 0) = Double 0" "dlit 0 1 = Double 0"
    by (simp_all add: double_eval) (simp add: dlit_def dround_def mk_double_def)
  have "(\<lambda>j t. t + (SamIn sample_parms ! j - c_k sample_parms ! i ! j) * (SamIn sample_parms ! j - c_k sample_parms ! i ! j)) j t
      = Double 0" if "j < SAM_NUM" "t = Double 0" for j t
    using that z by (simp add: c)
  then have "for_up 0 SAM_NUM (\<lambda>j t. t + (SamIn sample_parms ! j - c_k sample_parms ! i ! j) *
      (SamIn sample_parms ! j - c_k sample_parms ! i ! j)) (dlit 0 1) = Double 0"
    by (intro for_up_keeps [where P = "\<lambda>t. t = Double 0"]) (simp_all add: z(2) del: One_nat_def)
  then show ?thesis by (simp add: rbf_sum_def)
qed

lemma sample_rbf_hidden:
  assumes "i < UNIT_NUM"
  shows "rbf_hidden sample_parms i = 1"
proof -
  have d: "delta_k sample_parms ! i = Double 0x4044000000000000"
    using assms by (simp add: sample_parms_def double_eval)
  have e: "- Double 0 / (dlit 2 1 * Double 0x4044000000000000 * Double 0x4044000000000000) = Double 0x8000000000000000"
    by (simp add: double_eval)
  have "kexp (Double 0x8000000000000000) = 1 + Double 0x8000000000000000"
    by (rule exp_tiny) (simp add: dmag_ground)
  then show ?thesis
    unfolding rbf_hidden_def sample_rbf_sum [OF assms] d e by (simp add: double_eval)
qed

lemma sample_rbf_error: "rbf_error sample_parms (pos sample_parms ! 0) = Double 0"
proof -
  have w: "pos sample_parms ! 0 ! i = Double 0" if "i < UNIT_NUM" for i
    using that by (simp add: sample_parms_def zero_parms_def zero_double_ground PARTICLE_NUM_def)
  have "fold (\<lambda>i t. t + pos sample_parms ! 0 ! i * rbf_hidden sample_parms i) [0..<n] (dlit 0 1) = Double 0"
    if "n \<le> UNIT_NUM" for n
    using that
  proof (induction n)
    case 0
    then show ?case by (simp add: dlit_def dround_def mk_double_def)
  next
    case (Suc n)
    then show ?case by (simp add: w sample_rbf_hidden) (simp add: double_eval)
  qed
  then have "net_out sample_parms (pos sample_parms ! 0) = Double 0" by (simp add: net_out_def)
  moreover have "queue_len sample_parms ! 0 = 0" by (simp add: sample_parms_def zero_parms_def SAM_NUM_def)
  ultimately show ?thesis by (simp add: rbf_error_def Let_def) (simp add: double_eval)
qed

theorem pso_train_optimal_witness:
  "gbestval (fst (pso_train (\<lambda>s. (s, s + 1)) (mp_locals_of sample_parms) (sample_parms, 7)))
     = rbf_error sample_parms (w_k (fst (pso_train (\<lambda>s. (s, s + 1)) (mp_locals_of sample_parms) (sample_parms, 7)))) \<and>
   gbestval (fst (pso_train (\<lambda>s. (s, s + 1)) (mp_locals_of sample_parms) (sample_parms, 7))) \<le> 0"
proof -
  let ?r = "\<lambda>s :: u32. (s, s + 1)" and ?l = "mp_locals_of sample_parms"
  have n: "\<not> is_nan (rbf_error sample_parms (pos sample_parms ! 0))"
    by (simp add: sample_rbf_error class_ground)
  note o = pso_train_optimal [OF sample_parms_wf n refl, of ?r ?l 7]
  have "pos (fst (swarm_at ?r ?l (sample_parms, 7) 0)) = pos sample_parms"
    using pso_start_inv(2) [OF sample_parms_wf] by (simp add: swarm_at_def split_beta)
  then have "gbestval (fst (pso_train ?r ?l (sample_parms, 7))) \<le> rbf_error sample_parms (pos sample_parms ! 0)"
    using o [THEN conjunct2, THEN conjunct2, THEN conjunct2, rule_format, of 0 0] n
    by (simp add: MAX_EPOCH_def PARTICLE_NUM_def)
  with o show ?thesis by (simp add: sample_rbf_error zero_double_ground)
qed

theorem pso_train_speed_witness:
  "speed_ok (dlit 1 100) (vel (fst (pso_train (\<lambda>s. (s, s + 1)) (mp_locals_of sample_parms) (sample_parms, 7 :: u32))) ! 3 ! 2)"
proof -
  have l: "l_mv (mp_locals_of sample_parms) = dlit 1 100" by (simp add: mp_locals_of_def sample_parms_def)
  have "- l_mv (mp_locals_of sample_parms) \<le> l_mv (mp_locals_of sample_parms)"
    unfolding l by (simp add: mv_eval double_eval)
  from pso_train_speed [OF sample_parms_wf this _ _ refl, of 3 2 "\<lambda>s. (s, s + 1)" "7 :: u32"]
  show ?thesis by (simp add: speed_ok_def l PARTICLE_NUM_def UNIT_NUM_def)
qed

theorem mark_probability_range_witness:
  "is_nan (p_k (fst (rbfgrad_mark_probability (\<lambda>s. (s, s + 1)) (sample_parms, 0, 7 :: u32)))) \<or>
   0 \<le> p_k (fst (rbfgrad_mark_probability (\<lambda>s. (s, s + 1)) (sample_parms, 0, 7 :: u32))) \<and>
   p_k (fst (rbfgrad_mark_probability (\<lambda>s. (s, s + 1)) (sample_parms, 0, 7 :: u32))) \<le> 1"
proof -
  have "p_min sample_parms = 0" "p_max sample_parms = 1"
    by (simp_all add: sample_parms_def zero_parms_def)
  moreover have "(0 :: double) \<le> 1" by (simp add: double_eval)
  ultimately show ?thesis
    using mark_probability_range [of sample_parms, OF _ refl, of "\<lambda>s. (s, s + 1)" 0 "7 :: u32"] by simp
qed

theorem mark_probability_law_witness:
  "p_k_1 (fst (rbfgrad_mark_probability (\<lambda>s. (s, s + 1)) (sample_parms, 0, 7 :: u32))) = 0"
  using mark_probability_law [OF refl refl, of "\<lambda>s. (s, s + 1)" sample_parms 0 "7 :: u32"]
  by (simp add: sample_parms_def zero_parms_def)

theorem mark_probability_gains_witness:
  "gain_ok (kp_k (fst (rbfgrad_mark_probability (\<lambda>s. (s, s + 1)) (sample_parms, 0, 7 :: u32))))"
proof -
  have "gain_ok (kp_k sample_parms)" "gain_ok (ki_k sample_parms)" "gain_ok (kd_k sample_parms)"
    by (simp_all add: sample_parms_def zero_parms_def gain_ok_def) (simp_all add: double_eval)
  then show ?thesis
    using mark_probability_gains [OF _ _ _ refl, of sample_parms "\<lambda>s. (s, s + 1)" 0 "7 :: u32"] by blast
qed

end
