(* ===== verification/Byte_Order.thy ===== *)
theory Byte_Order
  imports Prelude
begin

text \<open>
  Words as the bytes that hold them on a little-endian machine, which is the platform of the
  kernel module, and the conversions between host and network order.
\<close>

definition le16 :: "u8 list \<Rightarrow> u16" where
  "le16 bs = ucast (bs ! 0) OR push_bit 8 (ucast (bs ! 1))"

definition le16_bytes :: "u16 \<Rightarrow> u8 list" where
  "le16_bytes w = [ucast w, ucast (drop_bit 8 w)]"

definition le32 :: "u8 list \<Rightarrow> u32" where
  "le32 bs = ucast (bs ! 0) OR push_bit 8 (ucast (bs ! 1)) OR push_bit 16 (ucast (bs ! 2)) OR push_bit 24 (ucast (bs ! 3))"

definition le32_bytes :: "u32 \<Rightarrow> u8 list" where
  "le32_bytes w = [ucast w, ucast (drop_bit 8 w), ucast (drop_bit 16 w), ucast (drop_bit 24 w)]"

definition le64 :: "u8 list \<Rightarrow> u64" where
  "le64 bs = ucast (le32 bs) OR push_bit 32 (ucast (le32 (drop 4 bs)))"

definition le64_bytes :: "u64 \<Rightarrow> u8 list" where
  "le64_bytes w = le32_bytes (ucast w) @ le32_bytes (ucast (drop_bit 32 w))"

definition be32 :: "u8 list \<Rightarrow> u32" where
  "be32 bs = ucast (bs ! 3) OR push_bit 8 (ucast (bs ! 2)) OR push_bit 16 (ucast (bs ! 1)) OR push_bit 24 (ucast (bs ! 0))"

definition bswap32 :: "u32 \<Rightarrow> u32" where
  "bswap32 w = be32 (le32_bytes w)"

abbreviation ntohl :: "u32 \<Rightarrow> u32" where
  "ntohl \<equiv> bswap32"

abbreviation htonl :: "u32 \<Rightarrow> u32" where
  "htonl \<equiv> bswap32"

definition bswap16 :: "u16 \<Rightarrow> u16" where
  "bswap16 w = push_bit 8 w OR drop_bit 8 w"

abbreviation ntohs :: "u16 \<Rightarrow> u16" where
  "ntohs \<equiv> bswap16"

abbreviation htons :: "u16 \<Rightarrow> u16" where
  "htons \<equiv> bswap16"

text \<open>A character string in memory: its bytes up to the first NUL, and the bytes of a string.\<close>

definition c_str :: "u8 list \<Rightarrow> string" where
  "c_str bs = map (\<lambda>b. char_of (unat b)) (takeWhile (\<lambda>b. b \<noteq> 0) bs)"

definition str_bytes :: "string \<Rightarrow> u8 list" where
  "str_bytes s = map (\<lambda>c. word_of_nat (of_char c)) s"

lemma unat_bound: "unat (w :: 'a::len word) < 2 ^ LENGTH('a)"
  by (rule unsigned_less)

lemma length_le_bytes [simp]: "length (le16_bytes w) = 2" "length (le32_bytes v) = 4"
  by (simp_all add: le16_bytes_def le32_bytes_def)

lemma length4_cases: "length bs = 4 \<Longrightarrow> \<exists>a b c d. bs = [a, b, c, d]"
  by (auto simp: length_Suc_conv numeral_eq_Suc)

lemma length2_cases: "length bs = 2 \<Longrightarrow> \<exists>a b. bs = [a, b]"
  by (auto simp: length_Suc_conv numeral_eq_Suc)

lemma u8_no_bit: "8 \<le> n \<Longrightarrow> \<not> bit (b :: u8) n"
  using bit_imp_le_length [of b n] by auto

lemma le16_le16_bytes [simp]: "le16 (le16_bytes w @ r) = w"
  by (rule bit_word_eqI) (auto simp: le16_def le16_bytes_def bit_simps)

lemma le32_le32_bytes [simp]: "le32 (le32_bytes w @ r) = w"
proof (rule bit_word_eqI)
  fix n assume "n < LENGTH(32)"
  then consider "n < 8" | "8 \<le> n" "n < 16" | "16 \<le> n" "n < 24" | "24 \<le> n" "n < 32" by force
  then show "bit (le32 (le32_bytes w @ r)) n \<longleftrightarrow> bit w n"
    by cases (auto simp: le32_def le32_bytes_def bit_simps)
qed

lemma length_le64_bytes [simp]: "length (le64_bytes w) = 8"
  by (simp add: le64_bytes_def)

lemma le64_le64_bytes [simp]: "le64 (le64_bytes w @ r) = w"
proof -
  have "le64 (le64_bytes w @ r) = ucast (ucast w :: u32) OR push_bit 32 (ucast (ucast (drop_bit 32 w) :: u32))"
    by (simp add: le64_def le64_bytes_def)
  also have "\<dots> = w" by (rule bit_word_eqI) (auto simp: bit_simps)
  finally show ?thesis .
qed

lemma be32_le32_bytes: "be32 (le32_bytes w @ r) = bswap32 w"
  by (simp add: bswap32_def be32_def le32_bytes_def)

lemma le16_bytes_le16 [simp]:
  assumes "length bs = 2"
  shows "le16_bytes (le16 bs) = bs"
proof -
  obtain a b where bs: "bs = [a, b]" using length2_cases [OF assms] by blast
  have "(ucast (le16 bs) :: u8) = a" "(ucast (drop_bit 8 (le16 bs)) :: u8) = b"
    by (rule bit_word_eqI, auto simp: bs le16_def bit_simps u8_no_bit)+
  then show ?thesis by (simp add: le16_bytes_def bs)
qed

lemma le32_bytes_le32 [simp]:
  assumes "length bs = 4"
  shows "le32_bytes (le32 bs) = bs"
proof -
  obtain a b c d where bs: "bs = [a, b, c, d]" using length4_cases [OF assms] by blast
  have "(ucast (le32 bs) :: u8) = a" "(ucast (drop_bit 8 (le32 bs)) :: u8) = b"
    "(ucast (drop_bit 16 (le32 bs)) :: u8) = c" "(ucast (drop_bit 24 (le32 bs)) :: u8) = d"
    by (rule bit_word_eqI, use u8_no_bit in \<open>auto simp: bs le32_def bit_simps\<close>)+
  then show ?thesis by (simp add: le32_bytes_def bs)
qed

lemma bswap16_bswap16 [simp]: "bswap16 (bswap16 w) = w"
  by (rule bit_word_eqI) (auto simp: bswap16_def bit_simps)

lemma bswap32_le32: "length bs = 4 \<Longrightarrow> bswap32 (le32 bs) = be32 bs"
  by (simp add: bswap32_def)

lemma bswap32_bswap32 [simp]: "bswap32 (bswap32 w) = w"
proof -
  have "be32 (rev bs) = le32 bs" if "length bs = 4" for bs
    using length4_cases [OF that] by (auto simp: be32_def le32_def or.commute or.left_commute or.assoc)
  moreover have "be32 bs = le32 (rev bs)" if "length bs = 4" for bs
    using length4_cases [OF that] by (auto simp: be32_def le32_def)
  ultimately show ?thesis
    using le32_le32_bytes [of w "[]"] by (simp add: bswap32_def)
qed

lemma bit_bswap32:
  "bit (bswap32 w) i \<longleftrightarrow> (if i < 8 then bit w (24 + i) else if i < 16 then bit w (8 + i)
     else if i < 24 then bit w (i - 8) else i < 32 \<and> bit w (i - 24))"
  by (auto simp: bswap32_def be32_def le32_bytes_def bit_simps algebra_simps)

lemma bswap32_and: "bswap32 (a AND b) = bswap32 a AND bswap32 b"
  and bswap32_xor: "bswap32 (a XOR b) = bswap32 a XOR bswap32 b"
  by (rule bit_word_eqI, simp add: bit_bswap32 bit_simps)+

lemma bswap32_eq_0 [simp]: "bswap32 w = 0 \<longleftrightarrow> w = 0"
  by (metis bswap32_bswap32 bswap32_xor xor_self_eq)

section \<open>Strings\<close>

lemma length_str_bytes [simp]: "length (str_bytes s) = length s"
  by (simp add: str_bytes_def)

lemma unat_of_char [simp]: "unat (word_of_nat (of_char c) :: u8) = of_char c"
  using of_char_mod_256 [of c] by (simp add: unat_of_nat)

lemma char_byte_eq_0 [simp]: "(word_of_nat (of_char c) :: u8) = 0 \<longleftrightarrow> c = CHR 0x00"
proof -
  have "of_char (CHR 0x00) = (0::nat)" by simp
  then have "(of_char c :: nat) = 0 \<longleftrightarrow> c = CHR 0x00" by (metis of_char_eq_iff)
  then show ?thesis by (metis unat_of_char unat_eq_zero)
qed

text \<open>What is in memory behind the NUL does not matter.\<close>

lemma c_str_bytes [simp]: "CHR 0x00 \<notin> set s \<Longrightarrow> c_str (str_bytes s @ 0 # r) = s"
  by (induction s) (auto simp: c_str_def str_bytes_def)

lemma c_str_bytes_nil [simp]: "CHR 0x00 \<notin> set s \<Longrightarrow> c_str (str_bytes s) = s"
  by (induction s) (auto simp: c_str_def str_bytes_def)

end
