(* ===== verification/Rbf_Abi.thy ===== *)
theory Rbf_Abi
  imports Double Byte_Order
begin

text \<open>
  What the \<open>tc\<close> command and the kernel module share (\<open>linux/pkt_sched.h\<close>): the options of the
  queueing discipline, its statistics, and how the options lie in memory. Both sides are
  compiled for the same machine, where a double and the structure are aligned to eight
  bytes; the bytes between the fields are zero in what the command sends.
\<close>

section \<open>Data\<close>

definition TCA_RBFGRAD_PARMS :: nat where "TCA_RBFGRAD_PARMS = 1"
definition TCA_RBFGRAD_STAB :: nat where "TCA_RBFGRAD_STAB = 2"
definition TC_RBFGRAD_ECN :: u32 where "TC_RBFGRAD_ECN = 1"
definition TC_RBFGRAD_HARDDROP :: u32 where "TC_RBFGRAD_HARDDROP = 2"

text \<open>The configuration the user sends, and the statistics the module reports.\<close>

record tc_rbfgrad_qopt =
  o_q_ref :: s32
  o_p_init :: double
  o_p_min :: double
  o_p_max :: double
  o_kp_k :: double
  o_ki_k :: double
  o_kd_k :: double
  o_eta_p :: double
  o_eta_i :: double
  o_eta_d :: double
  o_n :: s32
  o_m :: s32
  o_alpha :: double
  o_eta :: double
  o_sampl_period :: s32
  o_Scell_log :: u8
  o_limit :: u32
  o_flags :: u32

record tc_rbfgrad_xstats =
  x_early :: u32
  x_pdrop :: u32
  x_other :: u32
  x_marked :: u32

text \<open>Cleared memory.\<close>

definition zero_qopt :: tc_rbfgrad_qopt where
  "zero_qopt = \<lparr>o_q_ref = 0, o_p_init = 0, o_p_min = 0, o_p_max = 0, o_kp_k = 0, o_ki_k = 0, o_kd_k = 0,
     o_eta_p = 0, o_eta_i = 0, o_eta_d = 0, o_n = 0, o_m = 0, o_alpha = 0, o_eta = 0, o_sampl_period = 0,
     o_Scell_log = 0, o_limit = 0, o_flags = 0\<rparr>"

section \<open>Layout\<close>

definition qopt_bytes :: "tc_rbfgrad_qopt \<Rightarrow> u8 list" where
  "qopt_bytes q =
     le32_bytes (o_q_ref q) @ [0, 0, 0, 0]
     @ le64_bytes (dbits (o_p_init q)) @ le64_bytes (dbits (o_p_min q)) @ le64_bytes (dbits (o_p_max q))
     @ le64_bytes (dbits (o_kp_k q)) @ le64_bytes (dbits (o_ki_k q)) @ le64_bytes (dbits (o_kd_k q))
     @ le64_bytes (dbits (o_eta_p q)) @ le64_bytes (dbits (o_eta_i q)) @ le64_bytes (dbits (o_eta_d q))
     @ le32_bytes (o_n q) @ le32_bytes (o_m q)
     @ le64_bytes (dbits (o_alpha q)) @ le64_bytes (dbits (o_eta q))
     @ le32_bytes (o_sampl_period q) @ [o_Scell_log q, 0, 0, 0]
     @ le32_bytes (o_limit q) @ le32_bytes (o_flags q)"

definition double_at :: "nat \<Rightarrow> u8 list \<Rightarrow> double" where
  "double_at off bs = Double (le64 (drop off bs))"

definition qopt_of_bytes :: "u8 list \<Rightarrow> tc_rbfgrad_qopt" where
  "qopt_of_bytes bs = \<lparr>
     o_q_ref = le32 bs, o_p_init = double_at 8 bs, o_p_min = double_at 16 bs, o_p_max = double_at 24 bs,
     o_kp_k = double_at 32 bs, o_ki_k = double_at 40 bs, o_kd_k = double_at 48 bs,
     o_eta_p = double_at 56 bs, o_eta_i = double_at 64 bs, o_eta_d = double_at 72 bs,
     o_n = le32 (drop 80 bs), o_m = le32 (drop 84 bs), o_alpha = double_at 88 bs, o_eta = double_at 96 bs,
     o_sampl_period = le32 (drop 104 bs), o_Scell_log = bs ! 108,
     o_limit = le32 (drop 112 bs), o_flags = le32 (drop 116 bs)\<rparr>"

definition qopt_size :: nat where
  "qopt_size = 120"

lemma length_qopt_bytes [simp]: "length (qopt_bytes q) = qopt_size"
  by (simp add: qopt_bytes_def qopt_size_def)

lemma qopt_of_bytes_inverse [simp]: "qopt_of_bytes (qopt_bytes q @ r) = q"
  by (simp add: qopt_of_bytes_def qopt_bytes_def double_at_def nth_append)

end
