(* ===== verification/Rbf_Qdisc.thy ===== *)
theory Rbf_Qdisc
  imports Rbf_Control Rbf_Abi "HOL-Library.Signed_Division"
begin

text \<open>
  The queueing discipline of \<open>modules/sch_rbfgrad.c\<close>: its private data, the module's globals
  with the trace of queue lengths (\<open>include/rbfgrad_queue.h\<close>), and every handler of its
  operation tables. What the handlers call in the kernel (the child queueing discipline, the
  random numbers, netlink attributes, ECN marking) is the record \<open>kernel_env\<close> of functions.
\<close>

section \<open>Data\<close>

definition CYC_MAX :: s32 where "CYC_MAX = 20"
definition QUEUE_SHOW_MAX :: nat where "QUEUE_SHOW_MAX = 30000"

text \<open>Results of the kernel's transmit functions and error numbers.\<close>

definition NET_XMIT_SUCCESS :: s32 where "NET_XMIT_SUCCESS = 0"
definition NET_XMIT_CN :: s32 where "NET_XMIT_CN = 2"
definition EINVAL :: s32 where "EINVAL = 22"
definition EMSGSIZE :: s32 where "EMSGSIZE = 90"

text \<open>One line of the trace; \<open>long long\<close> fields hold the bit patterns of doubles.\<close>

record queue_show =
  qs_numbers :: s32
  qs_length :: u32
  qs_mark_type :: s32
  qs_jacobian :: s64
  qs_NetOut :: s64
  qs_p :: s64
  qs_kp :: s64
  qs_ki :: s64
  qs_kd :: s64
  qs_SamIn :: "s64 list"
  qs_SamOut :: "s64 list"
  qs_proba :: "s64 list"
  qs_queue_len :: "s32 list"
  qs_e_k :: s32
  qs_e_k_1 :: s32
  qs_e_k_2 :: s32

text \<open>
  The parts of \<open>struct sk_buff\<close> and \<open>struct Qdisc\<close> the module touches. \<open>skb_pkt_len\<close> is
  \<open>qdisc_pkt_len\<close>, the length the kernel computes for the packet before it enters a discipline:
  \<open>skb_len\<close>, unless a size table changes it. The module counts the one, its child the other.
\<close>

record sk_buff =
  skb_len :: u32
  skb_pkt_len :: u32
  skb_head :: "u8 list"

record gnet_stats_queue =
  backlog :: u32
  drops :: u32
  overlimits :: u32

record gnet_stats_basic =
  bytes :: u64
  packets :: u32

record 'c rbfgrad_sched_data =
  limit :: u32
  flags :: u8
  parms :: rbfgrad_parms
  stats :: rbfgrad_stats
  qdisc :: 'c

record 'c Qdisc =
  qlen :: u32
  qstats :: gnet_stats_queue
  bstats :: gnet_stats_basic
  priv :: "'c rbfgrad_sched_data"

text \<open>
  What a \<open>task_struct\<close> pointer of the module is: null before any initialisation, the error
  pointer of a failed \<open>kthread_run\<close>, a running thread, or a thread that was told to stop.
\<close>

datatype task = No_Task | Err_Task s32 | Running | Stopped

datatype thread = Prob_Thread | Stop_Prob_Thread

record module_globals =
  cyc_count :: s32
  prob_number :: s32
  pkg_number :: s32
  queue_show_base :: "queue_show list"
  array_element :: s32
  tsk_prob :: task
  tsk_stop_prob :: task

text \<open>
  The kernel functions the module calls; \<open>'c\<close> is the child, \<open>'n\<close> an attribute, \<open>'r\<close> the random
  state. \<open>kthread_run\<close> gives the error with which the creation of a thread fails, if it does.
\<close>

record ('c, 'n, 'r) kernel_env =
  random32 :: "'r random_source"
  INET_ECN_set_ce :: "sk_buff \<Rightarrow> bool \<times> sk_buff"
  qdisc_drop :: "sk_buff \<Rightarrow> gnet_stats_queue \<Rightarrow> gnet_stats_queue"
  net_xmit_drop_count :: "s32 \<Rightarrow> bool"
  qdisc_bstats_update :: "sk_buff \<Rightarrow> gnet_stats_basic \<Rightarrow> gnet_stats_basic"
  qdisc_enqueue :: "sk_buff \<Rightarrow> 'c \<Rightarrow> s32 \<times> 'c"
  child_dequeue :: "'c \<Rightarrow> sk_buff option \<times> 'c"
  child_peek :: "'c \<Rightarrow> sk_buff option \<times> 'c"
  child_drop :: "'c \<Rightarrow> (u32 \<times> 'c) option"
  qdisc_reset :: "'c \<Rightarrow> 'c"
  child_qlen :: "'c \<Rightarrow> u32"
  child_backlog :: "'c \<Rightarrow> u32"
  child_handle :: "'c \<Rightarrow> u32"
  qdisc_tree_decrease_qlen :: "'c \<Rightarrow> u32 \<Rightarrow> u32 \<Rightarrow> u32"
  noop_qdisc :: 'c
  fifo_create_dflt :: "u32 \<Rightarrow> s32 + 'c"
  nla_parse_nested :: "'n \<Rightarrow> s32 + tc_rbfgrad_qopt option \<times> u8 list option"
  kthread_run :: "thread \<Rightarrow> s32 option"

section \<open>Operations\<close>

definition rbfgrad_use_ecn :: "'c rbfgrad_sched_data \<Rightarrow> bool" where
  "rbfgrad_use_ecn q \<longleftrightarrow> ucast (flags q) AND TC_RBFGRAD_ECN \<noteq> 0"

definition rbfgrad_use_harddrop :: "'c rbfgrad_sched_data \<Rightarrow> bool" where
  "rbfgrad_use_harddrop q \<longleftrightarrow> ucast (flags q) AND TC_RBFGRAD_HARDDROP \<noteq> 0"

text \<open>Writing the current line of the trace.\<close>

definition show_entry :: "mark_action \<Rightarrow> u32 \<Rightarrow> s32 \<Rightarrow> rbfgrad_parms \<Rightarrow> queue_show \<Rightarrow> queue_show" where
  "show_entry a len num p e = e\<lparr>
     qs_length := len, qs_numbers := num,
     qs_mark_type := (case a of RBFGRAD_DONT_MARK \<Rightarrow> 0 | RBFGRAD_PROB_MARK \<Rightarrow> 1),
     qs_p := dbits (p_k p), qs_kp := dbits (kp_k p), qs_ki := dbits (ki_k p), qs_kd := dbits (kd_k p),
     qs_jacobian := dbits (jacobian p), qs_NetOut := dbits (NetOut p ! unat (gbest_index p)),
     qs_e_k := e_k p, qs_e_k_1 := e_k_1 p, qs_e_k_2 := e_k_2 p\<rparr>"

text \<open>Shifting the histories by one place and updating the errors.\<close>

definition shift_history :: "u32 \<Rightarrow> rbfgrad_parms \<Rightarrow> rbfgrad_parms" where
  "shift_history len p =
     (let p = fold (\<lambda>i p. p\<lparr>proba := (proba p)[i := proba p ! (i - 1)],
                queue_len := (queue_len p)[i := queue_len p ! (i - 1)]\<rparr>) (rev [1..<SAM_NUM]) p;
          p = p\<lparr>proba := (proba p)[0 := p_k_1 p]\<rparr>;
          p = p\<lparr>queue_len := (queue_len p)[0 := len]\<rparr>;
          p = p\<lparr>e_k_2 := e_k_1 p\<rparr>;
          p = p\<lparr>e_k_1 := e_k p\<rparr>
      in p\<lparr>e_k := len - q_ref p\<rparr>)"

text \<open>The block both cases of \<open>rbfgrad_enqueue\<close> start with: one line of the trace every \<open>CYC_MAX\<close> packets.\<close>

definition record_queue :: "mark_action \<Rightarrow> u32 \<Rightarrow> rbfgrad_parms \<times> module_globals \<Rightarrow> rbfgrad_parms \<times> module_globals" where
  "record_queue a len = (\<lambda>(p, g).
     let g = g\<lparr>cyc_count := cyc_count g + 1\<rparr>
     in if cyc_count g = CYC_MAX then
          let i = unat (array_element g);
              g = g\<lparr>queue_show_base := (queue_show_base g)[i :=
                    show_entry a len (array_element g) p (queue_show_base g ! i)]\<rparr>;
              p = shift_history len p;
              g = (if sint (array_element g) < int QUEUE_SHOW_MAX - 1
                   then g\<lparr>array_element := array_element g + 1\<rparr> else g)
          in (p, g\<lparr>cyc_count := 0\<rparr>)
        else (p, g))"

text \<open>The tail of \<open>rbfgrad_enqueue\<close>: the packet goes to the child.\<close>

definition enqueue_child :: "('c, 'n, 'r) kernel_env \<Rightarrow> sk_buff \<Rightarrow> 'c Qdisc \<Rightarrow> s32 \<times> 'c Qdisc" where
  "enqueue_child env skb sch =
     (let (ret, c) = qdisc_enqueue env skb (qdisc (priv sch));
          sch = sch\<lparr>priv := (priv sch)\<lparr>qdisc := c\<rparr>\<rparr>
      in if ret = NET_XMIT_SUCCESS then
           (ret, sch\<lparr>qlen := qlen sch + 1,
             qstats := (qstats sch)\<lparr>backlog := backlog (qstats sch) + skb_len skb\<rparr>\<rparr>)
         else if net_xmit_drop_count env ret then
           (ret, sch\<lparr>priv := (priv sch)\<lparr>stats := (stats (priv sch))\<lparr>pdrop := pdrop (stats (priv sch)) + 1\<rparr>\<rparr>,
             qstats := (qstats sch)\<lparr>drops := drops (qstats sch) + 1\<rparr>\<rparr>)
         else (ret, sch))"

definition rbfgrad_enqueue :: "('c, 'n, 'r) kernel_env \<Rightarrow> sk_buff \<Rightarrow> 'c Qdisc \<times> module_globals \<times> 'r \<Rightarrow>
    s32 \<times> 'c Qdisc \<times> module_globals \<times> 'r" where
  "rbfgrad_enqueue env skb = (\<lambda>(sch, g, s).
     let q = priv sch;
         g = g\<lparr>pkg_number := pkg_number g + 1\<rparr>;
         (r, s) = random32 env s;
         act = rbfgrad_action (parms q) r;
         (p, g) = record_queue act (qlen sch) (parms q, g);
         q = q\<lparr>parms := p\<rparr>;
         sch = sch\<lparr>priv := q\<rparr>
     in case act of
          RBFGRAD_DONT_MARK \<Rightarrow> (case enqueue_child env skb sch of (ret, sch) \<Rightarrow> (ret, sch, g, s))
        | RBFGRAD_PROB_MARK \<Rightarrow>
            let sch = sch\<lparr>qstats := (qstats sch)\<lparr>overlimits := overlimits (qstats sch) + 1\<rparr>\<rparr>;
                (ce, skb') = INET_ECN_set_ce env skb
            in if \<not> rbfgrad_use_ecn q \<or> \<not> ce then
                 let sch = sch\<lparr>priv := q\<lparr>stats := (stats q)\<lparr>prob_drop := prob_drop (stats q) + 1\<rparr>\<rparr>\<rparr>;
                     skb = (if rbfgrad_use_ecn q then skb' else skb)
                 in (NET_XMIT_CN, sch\<lparr>qstats := qdisc_drop env skb (qstats sch)\<rparr>, g, s)
               else
                 case enqueue_child env skb' (sch\<lparr>priv := q\<lparr>stats := (stats q)\<lparr>prob_mark := prob_mark (stats q) + 1\<rparr>\<rparr>\<rparr>)
                 of (ret, sch) \<Rightarrow> (ret, sch, g, s))"

definition rbfgrad_dequeue :: "('c, 'n, 'r) kernel_env \<Rightarrow> 'c Qdisc \<Rightarrow> sk_buff option \<times> 'c Qdisc" where
  "rbfgrad_dequeue env sch =
     (let (skb, c) = child_dequeue env (qdisc (priv sch));
          sch = sch\<lparr>priv := (priv sch)\<lparr>qdisc := c\<rparr>\<rparr>
      in case skb of
           None \<Rightarrow> (None, sch)
         | Some k \<Rightarrow>
             let sch = sch\<lparr>bstats := qdisc_bstats_update env k (bstats sch)\<rparr>;
                 sch = sch\<lparr>qstats := (qstats sch)\<lparr>backlog := backlog (qstats sch) - skb_len k\<rparr>\<rparr>
             in (Some k, sch\<lparr>qlen := qlen sch - 1\<rparr>))"

definition rbfgrad_peek :: "('c, 'n, 'r) kernel_env \<Rightarrow> 'c Qdisc \<Rightarrow> sk_buff option \<times> 'c Qdisc" where
  "rbfgrad_peek env sch =
     (let (skb, c) = child_peek env (qdisc (priv sch)) in (skb, sch\<lparr>priv := (priv sch)\<lparr>qdisc := c\<rparr>\<rparr>))"

definition rbfgrad_drop :: "('c, 'n, 'r) kernel_env \<Rightarrow> 'c Qdisc \<Rightarrow> u32 \<times> 'c Qdisc" where
  "rbfgrad_drop env sch =
     (case child_drop env (qdisc (priv sch)) of
        None \<Rightarrow> (0, sch)
      | Some (len, c) \<Rightarrow>
          let sch = sch\<lparr>priv := (priv sch)\<lparr>qdisc := c\<rparr>\<rparr>
          in if 0 < len then
               let q = priv sch;
                   sch = sch\<lparr>qstats := (qstats sch)\<lparr>backlog := backlog (qstats sch) - len\<rparr>\<rparr>;
                   sch = sch\<lparr>priv := q\<lparr>stats := (stats q)\<lparr>other := other (stats q) + 1\<rparr>\<rparr>\<rparr>;
                   sch = sch\<lparr>qstats := (qstats sch)\<lparr>drops := drops (qstats sch) + 1\<rparr>\<rparr>
               in (len, sch\<lparr>qlen := qlen sch - 1\<rparr>)
             else (0, sch))"

definition rbfgrad_reset :: "('c, 'n, 'r) kernel_env \<Rightarrow> 'c Qdisc \<times> module_globals \<Rightarrow> 'c Qdisc \<times> module_globals" where
  "rbfgrad_reset env = (\<lambda>(sch, g).
     let sch = sch\<lparr>priv := (priv sch)\<lparr>qdisc := qdisc_reset env (qdisc (priv sch))\<rparr>\<rparr>;
         sch = sch\<lparr>qstats := (qstats sch)\<lparr>backlog := 0\<rparr>\<rparr>;
         sch = sch\<lparr>qlen := 0\<rparr>;
         g = g\<lparr>array_element := 0\<rparr>
     in (sch\<lparr>priv := (priv sch)\<lparr>parms := rbfgrad_restart (parms (priv sch))\<rparr>\<rparr>, g))"

text \<open>
  \<open>rbfgrad_destroy\<close>: the statements that would stop the two threads are commented out, so the
  thread handles keep their value. The child handed to \<open>qdisc_destroy\<close> is the result.
\<close>

definition rbfgrad_destroy :: "'c Qdisc \<times> module_globals \<Rightarrow> 'c \<times> module_globals" where
  "rbfgrad_destroy = (\<lambda>(sch, g). (qdisc (priv sch), g\<lparr>array_element := 0\<rparr>))"

definition rbfgrad_change :: "('c, 'n, 'r) kernel_env \<Rightarrow> 'n option \<Rightarrow> 'c Qdisc \<times> module_globals \<times> 'r \<Rightarrow>
    s32 \<times> 'c Qdisc \<times> module_globals \<times> 'r" where
  "rbfgrad_change env opt = (\<lambda>(sch, g, s).
     case opt of
       None \<Rightarrow> (- EINVAL, sch, g, s)
     | Some nla \<Rightarrow>
       (case nla_parse_nested env nla of
          Inl err \<Rightarrow> (err, sch, g, s)
        | Inr (Some ctl, Some stab) \<Rightarrow>
          (case (if 0 < o_limit ctl then
                   (case fifo_create_dflt env (o_limit ctl) of Inl err \<Rightarrow> Inl err | Inr c \<Rightarrow> Inr (Some c))
                 else Inr None) of
             Inl err \<Rightarrow> (err, sch, g, s)
           | Inr child \<Rightarrow>
             let sch = sch\<lparr>priv := (priv sch)\<lparr>flags := ucast (o_flags ctl), limit := o_limit ctl\<rparr>\<rparr>;
                 sch = (case child of
                          None \<Rightarrow> sch
                        | Some c \<Rightarrow>
                          let old = qdisc (priv sch)
                          in sch\<lparr>qlen := qdisc_tree_decrease_qlen env old (child_qlen env old) (qlen sch),
                                 priv := (priv sch)\<lparr>qdisc := c\<rparr>\<rparr>);
                 (p, s) = rbfgrad_set_parms (random32 env) (parms (priv sch)) (o_sampl_period ctl)
                            (o_q_ref ctl) (o_p_init ctl) (o_p_min ctl) (o_p_max ctl)
                            (o_kp_k ctl) (o_ki_k ctl) (o_kd_k ctl) (o_eta_p ctl) (o_eta_i ctl) (o_eta_d ctl)
                            (o_n ctl) (o_m ctl) (o_alpha ctl) (o_eta ctl) (o_Scell_log ctl) stab s
             in (0, sch\<lparr>priv := (priv sch)\<lparr>parms := p\<rparr>\<rparr>, g\<lparr>array_element := 0\<rparr>, s))
        | _ \<Rightarrow> (- EINVAL, sch, g, s)))"

definition task_of :: "s32 option \<Rightarrow> task" where
  "task_of err = (case err of None \<Rightarrow> Running | Some e \<Rightarrow> Err_Task e)"

text \<open>\<open>rbfgrad_init\<close> looks at neither the handles of the threads nor the result of the change.\<close>

definition rbfgrad_init :: "('c, 'n, 'r) kernel_env \<Rightarrow> 'n option \<Rightarrow> 'c Qdisc \<times> module_globals \<times> 'r \<Rightarrow>
    s32 \<times> 'c Qdisc \<times> module_globals \<times> 'r" where
  "rbfgrad_init env opt = (\<lambda>(sch, g, s).
     let g = g\<lparr>array_element := 0, cyc_count := 0, prob_number := 0, pkg_number := 0\<rparr>;
         sch = sch\<lparr>priv := (priv sch)\<lparr>qdisc := noop_qdisc env\<rparr>\<rparr>;
         (ret, sch, g, s) = rbfgrad_change env opt (sch, g, s);
         g = g\<lparr>tsk_prob := task_of (kthread_run env Prob_Thread)\<rparr>;
         g = g\<lparr>tsk_stop_prob := task_of (kthread_run env Stop_Prob_Thread)\<rparr>
     in (ret, sch, g, s))"

text \<open>
  \<open>rbfgrad_dump\<close> builds the option block from the private data. The fields its initialiser
  does not name are zero: \<open>p_init\<close>, \<open>p_min\<close>, \<open>Scell_log\<close> and \<open>flags\<close>. The message functions
  are parameters: \<open>nest_start\<close> and \<open>put\<close> fail when the message has no room.
\<close>

definition dump_opt :: "'c rbfgrad_sched_data \<Rightarrow> tc_rbfgrad_qopt" where
  "dump_opt q = \<lparr>o_q_ref = q_ref (parms q), o_p_init = 0, o_p_min = 0, o_p_max = p_max (parms q),
     o_kp_k = kp_k (parms q), o_ki_k = ki_k (parms q), o_kd_k = kd_k (parms q),
     o_eta_p = eta_p (parms q), o_eta_i = eta_i (parms q), o_eta_d = eta_d (parms q),
     o_n = n_in (parms q), o_m = m_hid (parms q), o_alpha = alpha (parms q), o_eta = eta (parms q),
     o_sampl_period = sampl_period (parms q), o_Scell_log = 0, o_limit = limit q, o_flags = 0\<rparr>"

record 'm nla_ops =
  nla_nest_start :: "'m \<Rightarrow> 'm option"
  nla_put :: "tc_rbfgrad_qopt \<Rightarrow> 'm \<Rightarrow> 'm option"
  nla_nest_end :: "'m \<Rightarrow> s32 \<times> 'm"
  nla_nest_cancel :: "'m \<Rightarrow> 'm"

definition rbfgrad_dump :: "('c, 'n, 'r) kernel_env \<Rightarrow> 'm nla_ops \<Rightarrow> 'c Qdisc \<times> 'm \<Rightarrow> s32 \<times> 'c Qdisc \<times> 'm" where
  "rbfgrad_dump env nla = (\<lambda>(sch, skb).
     let q = priv sch;
         sch = sch\<lparr>qstats := (qstats sch)\<lparr>backlog := child_backlog env (qdisc q)\<rparr>\<rparr>
     in case nla_nest_start nla skb of
          None \<Rightarrow> (- EMSGSIZE, sch, nla_nest_cancel nla skb)
        | Some skb1 \<Rightarrow>
          (case nla_put nla (dump_opt q) skb1 of
             None \<Rightarrow> (- EMSGSIZE, sch, nla_nest_cancel nla skb1)
           | Some skb2 \<Rightarrow> let (ret, skb3) = nla_nest_end nla skb2 in (ret, sch, skb3)))"

definition rbfgrad_dump_stats :: "(tc_rbfgrad_xstats \<Rightarrow> 'd \<Rightarrow> s32 \<times> 'd) \<Rightarrow> 'c Qdisc \<Rightarrow> 'd \<Rightarrow> s32 \<times> 'd" where
  "rbfgrad_dump_stats gnet_stats_copy_app sch d =
     (let st = stats (priv sch)
      in gnet_stats_copy_app \<lparr>x_early = prob_drop st + forced_drop st, x_pdrop = pdrop st,
           x_other = other st, x_marked = prob_mark st + forced_mark st\<rparr> d)"

record tcmsg =
  tcm_handle :: u32
  tcm_info :: u32

definition rbfgrad_dump_class :: "('c, 'n, 'r) kernel_env \<Rightarrow> 'c Qdisc \<Rightarrow> tcmsg \<Rightarrow> s32 \<times> tcmsg" where
  "rbfgrad_dump_class env sch tcm =
     (0, tcm\<lparr>tcm_handle := tcm_handle tcm OR (1 AND 0xFFFF), tcm_info := child_handle env (qdisc (priv sch))\<rparr>)"

text \<open>\<open>rbfgrad_graft\<close>: the old child is handed back reset.\<close>

definition rbfgrad_graft :: "('c, 'n, 'r) kernel_env \<Rightarrow> 'c option \<Rightarrow> 'c Qdisc \<Rightarrow> s32 \<times> 'c \<times> 'c Qdisc" where
  "rbfgrad_graft env new sch =
     (let new = (case new of None \<Rightarrow> noop_qdisc env | Some c \<Rightarrow> c);
          old = qdisc (priv sch);
          sch = sch\<lparr>priv := (priv sch)\<lparr>qdisc := new\<rparr>\<rparr>;
          sch = sch\<lparr>qlen := qdisc_tree_decrease_qlen env old (child_qlen env old) (qlen sch)\<rparr>
      in (0, qdisc_reset env old, sch))"

definition rbfgrad_leaf :: "'c Qdisc \<Rightarrow> 'c" where
  "rbfgrad_leaf sch = qdisc (priv sch)"

definition rbfgrad_get :: "'c Qdisc \<Rightarrow> u32 \<Rightarrow> u64" where
  "rbfgrad_get sch classid = 1"

definition rbfgrad_put :: "'c Qdisc \<Rightarrow> 'c Qdisc" where
  "rbfgrad_put sch = sch"

record walker =
  w_stop :: s32
  w_skip :: s32
  w_count :: s32

text \<open>\<open>fn\<close> may change the walker it is given.\<close>

definition rbfgrad_walk :: "(u64 \<Rightarrow> walker \<Rightarrow> s32 \<times> walker) \<Rightarrow> walker \<Rightarrow> walker" where
  "rbfgrad_walk fn w =
     (if w_stop w = 0 then
        (if sint (w_skip w) \<le> sint (w_count w) then
           let (ret, w) = fn 1 w
           in if sint ret < 0 then w\<lparr>w_stop := 1\<rparr> else w\<lparr>w_count := w_count w + 1\<rparr>
         else w\<lparr>w_count := w_count w + 1\<rparr>)
      else w)"

text \<open>
  The controller thread: one update, a sleep, and again until \<open>kthread_should_stop\<close> answers
  true. The answers are a list; when it ends the thread is still running.
\<close>

definition mark_step :: "('c, 'n, 'r) kernel_env \<Rightarrow> 'c Qdisc \<times> module_globals \<times> 'r \<Rightarrow> 'c Qdisc \<times> module_globals \<times> 'r" where
  "mark_step env = (\<lambda>(sch, g, s).
     let (p, k, s) = rbfgrad_mark_probability (random32 env) (parms (priv sch), prob_number g, s)
     in (sch\<lparr>priv := (priv sch)\<lparr>parms := p\<rparr>\<rparr>, g\<lparr>prob_number := k\<rparr>, s))"

fun rbfgrad_thread_func :: "('c, 'n, 'r) kernel_env \<Rightarrow> bool list \<Rightarrow> 'c Qdisc \<times> module_globals \<times> 'r \<Rightarrow>
    (s32 \<times> 'c Qdisc \<times> module_globals \<times> 'r) option" where
  "rbfgrad_thread_func env [] st = None"
| "rbfgrad_thread_func env (stop # stops) st =
     (let st = mark_step env st in if stop then Some (0, st) else rbfgrad_thread_func env stops st)"

text \<open>
  The sleep of the stopping thread. \<open>PROB_TIME * HZ / 1000\<close> is an \<open>int\<close>, with a product that
  wraps at 32 bits and a division that truncates, before it becomes a \<open>long\<close>. The loop asks
  \<open>schedule_timeout\<close> again for what the last call left; its answers are a list, since the thread
  stays runnable and a call may return at once with any number of ticks left. When the list
  ends the thread is still in the loop.
\<close>

definition PROB_TIME :: s32 where "PROB_TIME = 55000"

definition stop_timeout :: "s32 \<Rightarrow> s64" where
  "stop_timeout HZ = word_of_int (sint (word_of_int (sint (PROB_TIME * HZ) sdiv 1000) :: s32))"

fun sleep_loop :: "s64 list \<Rightarrow> s64 \<Rightarrow> bool" where
  "sleep_loop [] timeout = (sint timeout \<le> 0)"
| "sleep_loop (left # answers) timeout = (if 0 < sint timeout then sleep_loop answers left else True)"

text \<open>
  \<open>kthread_stop\<close> marks a running thread; of anything else it would follow a pointer that does
  not lead to a live task.
\<close>

definition kthread_stop :: "task \<Rightarrow> task option" where
  "kthread_stop t = (if t = Running then Some Stopped else None)"

datatype stop_result = Asleep | Oops | Returned s32 module_globals

definition rbfgrad_stop_prob_thread_func :: "s32 \<Rightarrow> s64 list \<Rightarrow> module_globals \<Rightarrow> stop_result" where
  "rbfgrad_stop_prob_thread_func HZ answers g =
     (if sleep_loop answers (stop_timeout HZ) then
        (case kthread_stop (tsk_prob g) of None \<Rightarrow> Oops | Some t \<Rightarrow> Returned 0 (g\<lparr>tsk_prob := t\<rparr>))
      else Asleep)"

section \<open>The trace and the histories\<close>

lemma sint_of_s64: "- (2 ^ 63) \<le> i \<Longrightarrow> i < 2 ^ 63 \<Longrightarrow> sint (word_of_int i :: s64) = i"
  by (simp add: signed_of_int signed_take_bit_int_eq_self)

lemma fold_hom:
  assumes "\<And>i s. h (f i s) = g i (h s)"
  shows "h (fold f xs s) = fold g xs (h s)"
  by (induction xs arbitrary: s) (simp_all add: assms)

lemma shift_right:
  assumes "n < length xs"
  shows "fold (\<lambda>i xs. xs[i := xs ! (i - 1)]) (rev [1..<Suc n]) xs = xs ! 0 # take n xs @ drop (Suc n) xs"
  using assms
proof (induction n arbitrary: xs)
  case 0
  then show ?case by (simp add: Cons_nth_drop_Suc)
next
  case (Suc n)
  have IH: "fold (\<lambda>i xs. xs[i := xs ! (i - 1)]) (rev [1..<Suc n]) (xs[Suc n := xs ! n])
      = xs[Suc n := xs ! n] ! 0 # take n (xs[Suc n := xs ! n]) @ drop (Suc n) (xs[Suc n := xs ! n])"
    using Suc by (intro Suc.IH) simp
  have "rev [1..<Suc (Suc n)] = Suc n # rev [1..<Suc n]" by simp
  then show ?case
    using Suc.prems IH
    by (simp add: take_Suc_conv_app_nth drop_update_swap Cons_nth_drop_Suc [symmetric])
qed

lemma shift_history_arrays:
  assumes "parms_wf p"
  shows "proba (shift_history len p) = p_k_1 p # butlast (proba p)"
    and "queue_len (shift_history len p) = len # butlast (queue_len p)"
proof -
  let ?f = "\<lambda>i p. p\<lparr>proba := (proba p)[i := proba p ! (i - 1)], queue_len := (queue_len p)[i := queue_len p ! (i - 1)]\<rparr>"
  let ?q = "fold ?f (rev [1..<SAM_NUM]) p"
  have len: "length (proba p) = SAM_NUM" "length (queue_len p) = SAM_NUM" using assms by (simp_all add: parms_wf_def)
  have sam: "SAM_NUM = Suc 9" by (simp add: SAM_NUM_def)
  have "proba ?q = fold (\<lambda>i xs. xs[i := xs ! (i - 1)]) (rev [1..<SAM_NUM]) (proba p)"
    by (rule fold_hom [of proba]) simp
  then have 1: "proba ?q = proba p ! 0 # butlast (proba p)"
    using shift_right [of 9 "proba p"] len by (simp add: sam butlast_conv_take)
  have "queue_len ?q = fold (\<lambda>i xs. xs[i := xs ! (i - 1)]) (rev [1..<SAM_NUM]) (queue_len p)"
    by (rule fold_hom [of queue_len]) simp
  then have 2: "queue_len ?q = queue_len p ! 0 # butlast (queue_len p)"
    using shift_right [of 9 "queue_len p"] len by (simp add: sam butlast_conv_take)
  have 3: "p_k_1 ?q = p_k_1 p" using fold_hom [of p_k_1 ?f "\<lambda>_ x. x" "rev [1..<SAM_NUM]" p]
    by (simp add: fold_invariant [where P = "\<lambda>x. x = p_k_1 p" and Q = "\<lambda>_. True"])
  show "proba (shift_history len p) = p_k_1 p # butlast (proba p)"
    using 1 3 by (simp add: shift_history_def Let_def)
  show "queue_len (shift_history len p) = len # butlast (queue_len p)"
    using 2 by (simp add: shift_history_def Let_def)
qed

definition erase_history :: "rbfgrad_parms \<Rightarrow> rbfgrad_parms" where
  "erase_history p = p\<lparr>proba := [], queue_len := [], e_k := 0, e_k_1 := 0, e_k_2 := 0\<rparr>"

lemma fold_frame: "(\<And>i s. v (f i s) = v s) \<Longrightarrow> v (fold f xs s) = v s"
  by (induction xs arbitrary: s) simp_all

lemma shift_history_frame: "erase_history (shift_history len p) = erase_history p"
proof -
  have u: "erase_history (q\<lparr>proba := a\<rparr>) = erase_history q" "erase_history (q\<lparr>queue_len := b\<rparr>) = erase_history q"
    "erase_history (q\<lparr>proba := a, queue_len := b\<rparr>) = erase_history q"
    "erase_history (q\<lparr>e_k := x\<rparr>) = erase_history q" "erase_history (q\<lparr>e_k_1 := x\<rparr>) = erase_history q"
    "erase_history (q\<lparr>e_k_2 := x\<rparr>) = erase_history q" for q a b x
    by (simp_all add: erase_history_def)
  show ?thesis by (simp add: shift_history_def Let_def u fold_frame [where v = erase_history])
qed

lemma shift_history_errors:
  "e_k (shift_history len p) = len - q_ref p" "e_k_1 (shift_history len p) = e_k p"
  "e_k_2 (shift_history len p) = e_k_1 p"
  by (simp_all add: shift_history_def Let_def fold_frame [where v = e_k] fold_frame [where v = e_k_1]
      fold_frame [where v = q_ref])

lemma shift_history_sel:
  assumes "\<And>q. g (erase_history q) = g q"
  shows "g (shift_history len p) = g p"
  using arg_cong [OF shift_history_frame [of len p], of g] assms by simp

lemma shift_history_wf:
  assumes "parms_wf p"
  shows "parms_wf (shift_history len p)"
proof -
  let ?g = "\<lambda>q. parms_wf (q\<lparr>proba := replicate SAM_NUM 0, queue_len := replicate SAM_NUM 0\<rparr>)"
  have "?g (shift_history len p) = ?g p" by (rule shift_history_sel) (simp add: erase_history_def parms_wf_def)
  moreover have "length (proba (shift_history len p)) = SAM_NUM" "length (queue_len (shift_history len p)) = SAM_NUM"
    using assms by (simp_all add: shift_history_arrays parms_wf_def SAM_NUM_def)
  ultimately show ?thesis using assms by (simp add: parms_wf_def)
qed

section \<open>The memory-safety invariant\<close>

text \<open>
  Every array access of the module is in bounds: the arrays of the block have their sizes, the
  index of the best particle is a particle, and the trace index stays inside the trace.
\<close>

definition block_ok :: "rbfgrad_parms \<Rightarrow> bool" where
  "block_ok p \<longleftrightarrow> parms_wf p \<and> unat (gbest_index p) < PARTICLE_NUM"

definition log_ok :: "module_globals \<Rightarrow> bool" where
  "log_ok g \<longleftrightarrow> length (queue_show_base g) = QUEUE_SHOW_MAX \<and>
     0 \<le> sint (array_element g) \<and> sint (array_element g) < int QUEUE_SHOW_MAX \<and>
     0 \<le> sint (cyc_count g) \<and> sint (cyc_count g) < sint CYC_MAX"

definition module_ok :: "'c Qdisc \<times> module_globals \<times> 'r \<Rightarrow> bool" where
  "module_ok = (\<lambda>(sch, g, s). block_ok (parms (priv sch)) \<and> log_ok g)"

lemma sint_plus_one:
  assumes "- (2 ^ 31) \<le> sint (w :: s32)" "sint w < 2 ^ 31 - 1"
  shows "sint (w + 1) = sint w + 1"
proof -
  have "w + 1 = word_of_int (sint w + 1)" by simp
  then show ?thesis using assms sint_of_s32 [of "sint w + 1"] by (simp del: of_int_add)
qed

lemma cyc_next:
  assumes "0 \<le> sint c" "sint c < sint CYC_MAX"
  shows "c + 1 = CYC_MAX \<longleftrightarrow> sint c = sint CYC_MAX - 1"
    and "c + 1 \<noteq> CYC_MAX \<Longrightarrow> sint (c + 1) = sint c + 1"
proof -
  have b: "sint (c + 1) = sint c + 1"
    using assms sint_s32_bounds [of c] by (intro sint_plus_one) (simp_all add: CYC_MAX_def)
  then show "c + 1 = CYC_MAX \<longleftrightarrow> sint c = sint CYC_MAX - 1"
    by (metis add_diff_cancel_right' diff_add_cancel signed_word_eqI)
  show "c + 1 \<noteq> CYC_MAX \<Longrightarrow> sint (c + 1) = sint c + 1" using b by simp
qed

lemma record_queue_ok:
  assumes "block_ok p" "log_ok g"
  shows "block_ok (fst (record_queue a len (p, g)))" "log_ok (snd (record_queue a len (p, g)))"
proof -
  have e: "sint (array_element g + 1) = sint (array_element g) + 1"
    if "sint (array_element g) < int QUEUE_SHOW_MAX - 1"
    using that assms(2) sint_s32_bounds [of "array_element g"]
    by (intro sint_plus_one) (simp_all add: QUEUE_SHOW_MAX_def)
  have c: "sint (cyc_count g + 1) = sint (cyc_count g) + 1 \<and> sint (cyc_count g) + 1 < sint CYC_MAX"
    if "cyc_count g + 1 \<noteq> CYC_MAX"
    using that assms(2) cyc_next [of "cyc_count g"] by (auto simp: log_ok_def)
  have "gbest_index (shift_history len p) = gbest_index p"
    by (rule shift_history_sel) (simp add: erase_history_def)
  then show "block_ok (fst (record_queue a len (p, g)))"
    using assms(1) shift_history_wf [of p len] by (simp add: record_queue_def Let_def block_ok_def)
  show "log_ok (snd (record_queue a len (p, g)))"
    using assms(2) e c by (auto simp: record_queue_def Let_def log_ok_def CYC_MAX_def)
qed

lemma enqueue_child_parms: "parms (priv (snd (enqueue_child env k sch))) = parms (priv sch)"
  by (simp add: enqueue_child_def Let_def split_beta)

text \<open>What \<open>rbfgrad_enqueue\<close> leaves of the block and of the globals.\<close>

lemma enqueue_block:
  assumes "rbfgrad_enqueue env skb (sch, g, s) = (ret, sch', g', s')"
  shows "(parms (priv sch'), g') = record_queue (rbfgrad_action (parms (priv sch)) (fst (random32 env s))) (qlen sch)
           (parms (priv sch), g\<lparr>pkg_number := pkg_number g + 1\<rparr>)"
    and "s' = snd (random32 env s)"
  using assms enqueue_child_parms [of env] unfolding rbfgrad_enqueue_def
  by (auto simp: Let_def split_beta split: if_splits mark_action.splits)

lemma enqueue_module_ok:
  assumes "module_ok st" "rbfgrad_enqueue env skb st = (ret, st')"
  shows "module_ok st'"
proof -
  obtain sch g s where st: "st = (sch, g, s)" by (cases st)
  obtain sch' g' s' where st': "st' = (sch', g', s')" by (cases st')
  let ?a = "rbfgrad_action (parms (priv sch)) (fst (random32 env s))"
  note e = enqueue_block(1) [OF assms(2) [unfolded st st']]
  have "log_ok (g\<lparr>pkg_number := pkg_number g + 1\<rparr>)" using assms(1) by (simp add: st module_ok_def log_ok_def)
  then show ?thesis
    using record_queue_ok [of "parms (priv sch)" _ ?a "qlen sch"] assms(1) arg_cong [OF e, of fst] arg_cong [OF e, of snd]
    by (simp add: st st' module_ok_def)
qed

lemma mark_step_module_ok:
  assumes "module_ok st"
  shows "module_ok (mark_step env st)"
proof -
  obtain sch g s where st: "st = (sch, g, s)" by (cases st)
  let ?p = "parms (priv sch)"
  let ?m = "rbfgrad_mark_probability (random32 env) (?p, prob_number g, s)"
  have wf: "parms_wf ?p" using assms by (simp add: st module_ok_def block_ok_def)
  define l where "l = mp_locals_of ?p"
  define t where "t = fst (pso_train (random32 env) l (mp_load ?p, s))"
  have "gbest_index (mp_jacobian q) = gbest_index q" for q by (rule mp_jacobian_sel) simp
  then have "gbest_index (fst ?m) = gbest_index t"
    by (simp add: mark_probability_phases [OF l_def t_def] mp_clamp_def mp_update_def mp_adapt_def mp_gains_def Let_def)
  moreover have "unat (gbest_index t) < PARTICLE_NUM"
  proof -
    note r = pso_train_result [OF mp_load_wf [OF wf] refl refl, of "random32 env" l s]
    have "i < PARTICLE_NUM \<Longrightarrow> unat (word_of_nat i :: s32) = i" for i
      by (simp add: unsigned_of_nat take_bit_nat_eq_self PARTICLE_NUM_def)
    then show ?thesis using r(2) unfolding t_def r(1) by (simp add: best_chosen_def)
  qed
  ultimately show ?thesis
    using assms mark_probability_wf [OF wf, of "random32 env" "prob_number g" s]
    by (simp add: st module_ok_def mark_step_def split_beta block_ok_def log_ok_def)
qed

lemma set_parms_block_ok:
  "parms_wf p \<Longrightarrow> block_ok (fst (rbfgrad_set_parms rnd p a b c d e f h i j k l m n x y z stab t))"
  using set_parms_wf [of p] by (simp add: block_ok_def set_parms_phases PARTICLE_NUM_def)

lemma change_module_ok:
  assumes "module_ok st" "rbfgrad_change env opt st = (ret, st')"
  shows "module_ok st'"
proof -
  obtain sch g s where st: "st = (sch, g, s)" by (cases st)
  have wf: "parms_wf (parms (priv sch))" using assms(1) by (simp add: st module_ok_def block_ok_def)
  note sp = set_parms_block_ok [OF wf]
  have lg: "log_ok (g\<lparr>array_element := 0\<rparr>)" "log_ok g"
    using assms(1) by (simp_all add: st module_ok_def log_ok_def QUEUE_SHOW_MAX_def)
  show ?thesis
    using assms sp lg unfolding rbfgrad_change_def st
    by (auto simp: module_ok_def Let_def split_beta split: option.splits sum.splits if_splits prod.splits)
qed

section \<open>Packets\<close>

text \<open>The decision for the packet: the random number the handler draws, and the mark.\<close>

definition packet_action :: "('c, 'n, 'r) kernel_env \<Rightarrow> 'c Qdisc \<Rightarrow> 'r \<Rightarrow> mark_action" where
  "packet_action env sch s = rbfgrad_action (parms (priv sch)) (fst (random32 env s))"

lemma enqueue_dropped:
  assumes "rbfgrad_enqueue env skb (sch, g, s) = (ret, sch', g', s')"
    and "packet_action env sch s = RBFGRAD_PROB_MARK"
    and "\<not> rbfgrad_use_ecn (priv sch) \<or> \<not> fst (INET_ECN_set_ce env skb)"
  shows "ret = NET_XMIT_CN" "qlen sch' = qlen sch" "qdisc (priv sch') = qdisc (priv sch)"
    "stats (priv sch') = (stats (priv sch))\<lparr>prob_drop := prob_drop (stats (priv sch)) + 1\<rparr>"
    "qstats sch' = qdisc_drop env (if rbfgrad_use_ecn (priv sch) then snd (INET_ECN_set_ce env skb) else skb)
       ((qstats sch)\<lparr>overlimits := overlimits (qstats sch) + 1\<rparr>)"
  using assms unfolding rbfgrad_enqueue_def packet_action_def
  by (auto simp: Let_def split_beta rbfgrad_use_ecn_def)

text \<open>The packet the child gets, and the mark counted for it.\<close>

lemma enqueue_delivered:
  assumes "rbfgrad_enqueue env skb (sch, g, s) = (ret, sch', g', s')"
    and "packet_action env sch s = RBFGRAD_DONT_MARK \<and> k = skb \<and> d = 0 \<or>
      packet_action env sch s = RBFGRAD_PROB_MARK \<and> rbfgrad_use_ecn (priv sch) \<and>
      INET_ECN_set_ce env skb = (True, k) \<and> d = 1"
  obtains u where "(ret, sch') = enqueue_child env k u" "qdisc (priv u) = qdisc (priv sch)" "qlen u = qlen sch"
    "qstats u = (qstats sch)\<lparr>overlimits := overlimits (qstats sch) + d\<rparr>"
    "stats (priv u) = (stats (priv sch))\<lparr>prob_mark := prob_mark (stats (priv sch)) + d\<rparr>"
proof -
  define p where "p = fst (record_queue (packet_action env sch s) (qlen sch) (parms (priv sch), g\<lparr>pkg_number := pkg_number g + 1\<rparr>))"
  define u where "u = sch\<lparr>qstats := (qstats sch)\<lparr>overlimits := overlimits (qstats sch) + d\<rparr>,
    priv := (priv sch)\<lparr>parms := p, stats := (stats (priv sch))\<lparr>prob_mark := prob_mark (stats (priv sch)) + d\<rparr>\<rparr>\<rparr>"
  have "(ret, sch') = enqueue_child env k u"
    using assms(2)
  proof
    assume a: "packet_action env sch s = RBFGRAD_DONT_MARK \<and> k = skb \<and> d = 0"
    then have "u = sch\<lparr>priv := (priv sch)\<lparr>parms := p\<rparr>\<rparr>" by (simp add: u_def)
    with assms(1) a show ?thesis
      by (simp add: rbfgrad_enqueue_def packet_action_def Let_def split_beta p_def prod_eq_iff)
  next
    assume "packet_action env sch s = RBFGRAD_PROB_MARK \<and> rbfgrad_use_ecn (priv sch) \<and>
      INET_ECN_set_ce env skb = (True, k) \<and> d = 1"
    with assms(1) show ?thesis
      by (auto simp: rbfgrad_enqueue_def packet_action_def rbfgrad_use_ecn_def Let_def split_beta p_def u_def prod_eq_iff)
  qed
  then show thesis by (rule that) (simp_all add: u_def)
qed

lemma enqueue_cases:
  obtains (dropped) "packet_action env sch s = RBFGRAD_PROB_MARK"
      "\<not> rbfgrad_use_ecn (priv sch) \<or> \<not> fst (INET_ECN_set_ce env skb)"
  | (delivered) k d where "packet_action env sch s = RBFGRAD_DONT_MARK \<and> k = skb \<and> d = (0 :: u32) \<or>
      packet_action env sch s = RBFGRAD_PROB_MARK \<and> rbfgrad_use_ecn (priv sch) \<and>
      INET_ECN_set_ce env skb = (True, k) \<and> d = 1"
  by (metis (full_types) mark_action.exhaust prod.collapse)

end
