(* ===== verification/Rbf_Packets.thy ===== *)
theory Rbf_Packets
  imports Rbf_Qdisc
begin

text \<open>
  Sequences of packet operations on the queueing discipline: conservation of packets over the
  statistics, agreement of the queue length and backlog with the child, and what a change of
  configuration and a graft leave behind.
\<close>

section \<open>Operations in sequence\<close>

datatype pkt_op = Enqueue sk_buff | Dequeue | Drop | Peek | Control

text \<open>The second component counts the packets \<open>rbfgrad_dequeue\<close> handed out.\<close>

fun run_op :: "('c, 'n, 'r) kernel_env \<Rightarrow> pkt_op \<Rightarrow> ('c Qdisc \<times> module_globals \<times> 'r) \<times> u32 \<Rightarrow>
    ('c Qdisc \<times> module_globals \<times> 'r) \<times> u32" where
  "run_op env (Enqueue skb) (st, sent) = (snd (rbfgrad_enqueue env skb st), sent)"
| "run_op env Dequeue ((sch, g, s), sent) =
     (case rbfgrad_dequeue env sch of (skb, sch) \<Rightarrow> ((sch, g, s), if skb = None then sent else sent + 1))"
| "run_op env Drop ((sch, g, s), sent) = ((snd (rbfgrad_drop env sch), g, s), sent)"
| "run_op env Peek ((sch, g, s), sent) = ((snd (rbfgrad_peek env sch), g, s), sent)"
| "run_op env Control (st, sent) = (mark_step env st, sent)"

definition run_ops :: "('c, 'n, 'r) kernel_env \<Rightarrow> pkt_op list \<Rightarrow> 'c Qdisc \<times> module_globals \<times> 'r \<Rightarrow>
    ('c Qdisc \<times> module_globals \<times> 'r) \<times> u32" where
  "run_ops env ops st = fold (run_op env) ops (st, 0)"

section \<open>Conservation of packets\<close>

text \<open>Packets accounted for: queued, dropped early, dropped by the child, dropped on request, sent.\<close>

definition accounted :: "('c Qdisc \<times> module_globals \<times> 'r) \<times> u32 \<Rightarrow> u32" where
  "accounted = (\<lambda>((sch, g, s), sent). qlen sch + prob_drop (stats (priv sch)) + pdrop (stats (priv sch)) +
     other (stats (priv sch)) + sent)"

definition arrived :: "('c Qdisc \<times> module_globals \<times> 'r) \<times> u32 \<Rightarrow> u32" where
  "arrived = (\<lambda>((sch, g, s), sent). pkg_number g)"

text \<open>The child reports every packet it refuses: none is stolen.\<close>

definition counts_refusals :: "('c, 'n, 'r) kernel_env \<Rightarrow> bool" where
  "counts_refusals env \<longleftrightarrow> (\<forall>k c. fst (qdisc_enqueue env k c) = NET_XMIT_SUCCESS \<or>
     net_xmit_drop_count env (fst (qdisc_enqueue env k c)))"

lemma record_queue_globals [simp]: "pkg_number (snd (record_queue a len (p, g))) = pkg_number g"
  by (simp add: record_queue_def Let_def)

lemma enqueue_accounted:
  assumes "counts_refusals env" "rbfgrad_enqueue env skb (sch, g, s) = (ret, sch', g', s')"
  shows "accounted ((sch', g', s'), n) = accounted ((sch, g, s), n) + 1" "pkg_number g' = pkg_number g + 1"
proof -
  show "pkg_number g' = pkg_number g + 1"
    using arg_cong [OF enqueue_block(1) [OF assms(2)], of "\<lambda>x. pkg_number (snd x)"] by simp
  show "accounted ((sch', g', s'), n) = accounted ((sch, g, s), n) + 1"
  proof (cases rule: enqueue_cases [of env sch s skb])
    case dropped
    then show ?thesis using enqueue_dropped [OF assms(2)] by (simp add: accounted_def)
  next
    case (delivered k d)
    then obtain u where u: "(ret, sch') = enqueue_child env k u" "qlen u = qlen sch"
      "stats (priv u) = (stats (priv sch))\<lparr>prob_mark := prob_mark (stats (priv sch)) + d\<rparr>"
      using enqueue_delivered [OF assms(2)] by metis
    have "net_xmit_drop_count env (fst (qdisc_enqueue env k (qdisc (priv u))))"
      if "fst (qdisc_enqueue env k (qdisc (priv u))) \<noteq> NET_XMIT_SUCCESS"
      using assms(1) that by (auto simp: counts_refusals_def)
    then show ?thesis using u by (auto simp: enqueue_child_def Let_def split_beta accounted_def split: if_splits)
  qed
qed

lemma mark_step_other: 
  "mark_step env (sch, g, s) = (sch', g', s') \<Longrightarrow> qlen sch' = qlen sch \<and> stats (priv sch') = stats (priv sch) \<and>
    qdisc (priv sch') = qdisc (priv sch) \<and> qstats sch' = qstats sch \<and> pkg_number g' = pkg_number g"
  by (auto simp: mark_step_def split_beta)

lemma run_op_accounted:
  assumes "counts_refusals env"
  shows "arrived (run_op env op x) - accounted (run_op env op x) = arrived x - accounted x"
proof -
  obtain sch g s n where x: "x = ((sch, g, s), n)" by (cases x) auto
  show ?thesis
  proof (cases op)
    case (Enqueue skb)
    obtain ret sch' g' s' where e: "rbfgrad_enqueue env skb (sch, g, s) = (ret, sch', g', s')"
      by (cases "rbfgrad_enqueue env skb (sch, g, s)") auto
    show ?thesis using enqueue_accounted [OF assms e] by (simp add: Enqueue x e arrived_def)
  next
    case Dequeue
    then show ?thesis
      by (auto simp: x rbfgrad_dequeue_def Let_def split_beta accounted_def arrived_def split: option.splits)
  next
    case Drop
    then show ?thesis
      by (auto simp: x rbfgrad_drop_def Let_def accounted_def arrived_def split: option.splits)
  next
    case Peek
    then show ?thesis by (simp add: x rbfgrad_peek_def Let_def split_beta accounted_def arrived_def)
  next
    case Control
    then show ?thesis
      using mark_step_other [of env sch g s] by (cases "mark_step env (sch, g, s)") (simp add: x accounted_def arrived_def)
  qed
qed

text \<open>
  C3: packets are conserved. Over any sequence of arrivals, departures, drops, peeks and
  controller updates, the packets that arrived are exactly those queued, sent and counted as
  dropped in the statistics, in the 32-bit arithmetic of the counters, when the child reports
  the packets it refuses.
\<close>

theorem packet_conservation:
  assumes "counts_refusals env" "run_ops env ops (sch, g, s) = ((sch', g', s'), sent)"
  shows "pkg_number g' - pkg_number g =
    (qlen sch' - qlen sch) + (prob_drop (stats (priv sch')) - prob_drop (stats (priv sch))) +
    (pdrop (stats (priv sch')) - pdrop (stats (priv sch))) + (other (stats (priv sch')) - other (stats (priv sch))) + sent"
proof -
  have "arrived (fold (run_op env) ops x) - accounted (fold (run_op env) ops x) = arrived x - accounted x" for x
    by (rule fold_frame) (rule run_op_accounted [OF assms(1)])
  from this [of "((sch, g, s), 0)"] show ?thesis
    using assms(2) by (simp add: run_ops_def arrived_def accounted_def algebra_simps)
qed

section \<open>Agreement with the child\<close>

text \<open>
  The child a change creates is a fifo, and so is the one a discipline starts with, which
  accepts nothing: an accepted packet is appended, the first packet leaves, a peek leaves the
  queue as it is, and a drop, where the child has one, takes the last packet and answers its
  length. The child counts the lengths the kernel computed, \<open>skb_pkt_len\<close>.
\<close>

definition fifo_child :: "('c, 'n, 'r) kernel_env \<Rightarrow> ('c \<Rightarrow> sk_buff list) \<Rightarrow> bool" where
  "fifo_child env queue_of \<longleftrightarrow>
     (\<forall>k c. queue_of (snd (qdisc_enqueue env k c)) =
        (if fst (qdisc_enqueue env k c) = NET_XMIT_SUCCESS then queue_of c @ [k] else queue_of c)) \<and>
     (\<forall>c. (fst (child_dequeue env c), queue_of (snd (child_dequeue env c))) =
        (case queue_of c of [] \<Rightarrow> (None, []) | k # ks \<Rightarrow> (Some k, ks))) \<and>
     (\<forall>c. queue_of (snd (child_peek env c)) = queue_of c) \<and>
     (\<forall>c len c'. child_drop env c = Some (len, c') \<longrightarrow>
        (if queue_of c = [] then len = 0 \<and> queue_of c' = []
         else len = skb_pkt_len (last (queue_of c)) \<and> queue_of c' = butlast (queue_of c))) \<and>
     (\<forall>c. child_qlen env c = word_of_nat (length (queue_of c)) \<and>
        child_backlog env c = sum_list (map skb_pkt_len (queue_of c)))"

text \<open>Marking a packet and counting a dropped one leave lengths and the backlog alone.\<close>

definition lengths_kept :: "('c, 'n, 'r) kernel_env \<Rightarrow> bool" where
  "lengths_kept env \<longleftrightarrow>
     (\<forall>k. skb_len (snd (INET_ECN_set_ce env k)) = skb_len k \<and>
        skb_pkt_len (snd (INET_ECN_set_ce env k)) = skb_pkt_len k) \<and>
     (\<forall>k q. backlog (qdisc_drop env k q) = backlog q)"

text \<open>A packet whose length no size table has changed.\<close>

definition plain_length :: "sk_buff \<Rightarrow> bool" where
  "plain_length k \<longleftrightarrow> 0 < skb_len k \<and> skb_pkt_len k = skb_len k"

definition queue_ok :: "('c, 'n, 'r) kernel_env \<Rightarrow> 'c Qdisc \<Rightarrow> bool" where
  "queue_ok env sch \<longleftrightarrow> qlen sch = child_qlen env (qdisc (priv sch)) \<and>
     backlog (qstats sch) = child_backlog env (qdisc (priv sch))"

definition child_queue :: "('c \<Rightarrow> sk_buff list) \<Rightarrow> 'c Qdisc \<Rightarrow> sk_buff list" where
  "child_queue queue_of sch = queue_of (qdisc (priv sch))"

text \<open>The counters of the discipline against the packets in its child.\<close>

definition counters_ok :: "('c \<Rightarrow> sk_buff list) \<Rightarrow> 'c Qdisc \<Rightarrow> bool" where
  "counters_ok queue_of sch \<longleftrightarrow> qlen sch = word_of_nat (length (child_queue queue_of sch)) \<and>
     backlog (qstats sch) = sum_list (map skb_len (child_queue queue_of sch))"

lemma fifo_childD:
  assumes "fifo_child env queue_of"
  shows "queue_of (snd (qdisc_enqueue env k c)) =
      (if fst (qdisc_enqueue env k c) = NET_XMIT_SUCCESS then queue_of c @ [k] else queue_of c)"
    and "(fst (child_dequeue env c), queue_of (snd (child_dequeue env c))) =
      (case queue_of c of [] \<Rightarrow> (None, []) | k # ks \<Rightarrow> (Some k, ks))"
    and "queue_of (snd (child_peek env c)) = queue_of c"
    and "child_drop env c = Some (len, c') \<Longrightarrow> (if queue_of c = [] then len = 0 \<and> queue_of c' = []
      else len = skb_pkt_len (last (queue_of c)) \<and> queue_of c' = butlast (queue_of c))"
    and "child_qlen env c = word_of_nat (length (queue_of c))"
    and "child_backlog env c = sum_list (map skb_pkt_len (queue_of c))"
  using assms by (simp_all add: fifo_child_def)

lemma fifo_queue_ok:
  assumes "fifo_child env queue_of" "counters_ok queue_of sch" "\<forall>k \<in> set (child_queue queue_of sch). plain_length k"
  shows "queue_ok env sch"
proof -
  have "map skb_pkt_len (child_queue queue_of sch) = map skb_len (child_queue queue_of sch)"
    using assms(3) by (intro map_cong) (simp_all add: plain_length_def)
  then have "child_backlog env (qdisc (priv sch)) = backlog (qstats sch)"
    using assms(2) by (simp only: fifo_childD(6) [OF assms(1)] counters_ok_def child_queue_def)
  then show ?thesis
    using assms(2) fifo_childD(5) [OF assms(1)] by (simp add: queue_ok_def counters_ok_def child_queue_def)
qed

lemma enqueue_counters:
  assumes fifo: "fifo_child env queue_of" and kept: "lengths_kept env" and ok: "counters_ok queue_of sch"
    and e: "rbfgrad_enqueue env skb (sch, g, s) = (ret, sch', g', s')"
  shows "counters_ok queue_of sch' \<and>
    (child_queue queue_of sch' = child_queue queue_of sch \<or>
     (\<exists>k. child_queue queue_of sch' = child_queue queue_of sch @ [k] \<and>
        skb_len k = skb_len skb \<and> skb_pkt_len k = skb_pkt_len skb))"
proof (cases rule: enqueue_cases [of env sch s skb])
  case dropped
  then show ?thesis
    using enqueue_dropped [OF e] kept ok by (simp add: counters_ok_def child_queue_def lengths_kept_def)
next
  case (delivered k d)
  then obtain u where u: "(ret, sch') = enqueue_child env k u" "qdisc (priv u) = qdisc (priv sch)" "qlen u = qlen sch"
    "qstats u = (qstats sch)\<lparr>overlimits := overlimits (qstats sch) + d\<rparr>"
    using enqueue_delivered [OF e] by metis
  have k: "skb_len k = skb_len skb" "skb_pkt_len k = skb_pkt_len skb"
    using delivered kept by (auto simp: lengths_kept_def split_beta dest: arg_cong [where f = snd])
      (metis snd_conv)+
  obtain r c where c: "qdisc_enqueue env k (qdisc (priv sch)) = (r, c)" by fastforce
  note q = fifo_childD(1) [OF fifo, of k "qdisc (priv sch)", unfolded c, simplified]
  show ?thesis
  proof (cases "r = NET_XMIT_SUCCESS")
    case True
    then have "counters_ok queue_of sch' \<and> child_queue queue_of sch' = child_queue queue_of sch @ [k]"
      using u ok q by (simp add: enqueue_child_def c counters_ok_def child_queue_def)
    then show ?thesis using k by blast
  next
    case False
    then have "counters_ok queue_of sch' \<and> child_queue queue_of sch' = child_queue queue_of sch"
      using u ok q by (auto simp: enqueue_child_def c counters_ok_def child_queue_def Let_def split: if_splits)
    then show ?thesis by blast
  qed
qed

text \<open>
  A drop on request: the length the child answers comes off the backlog, so with a size table
  the backlog moves away from the packets by the difference of the two lengths.
\<close>

lemma drop_counters:
  assumes fifo: "fifo_child env queue_of" and d: "child_drop env (qdisc (priv sch)) = Some (len, c)"
    and q: "child_queue queue_of sch = ks @ [k]" "0 < skb_pkt_len k" and ok: "counters_ok queue_of sch"
  shows "child_queue queue_of (snd (rbfgrad_drop env sch)) = ks"
    and "qlen (snd (rbfgrad_drop env sch)) = word_of_nat (length ks)"
    and "backlog (qstats (snd (rbfgrad_drop env sch))) = sum_list (map skb_len ks) + (skb_len k - skb_pkt_len k)"
  using fifo_childD(4) [OF fifo d] q ok
  by (simp_all add: rbfgrad_drop_def d Let_def child_queue_def counters_ok_def)

lemma rev_cases_queue:
  obtains "child_queue queue_of sch = []" | ks k where "child_queue queue_of sch = ks @ [k]"
  by (cases "child_queue queue_of sch" rule: rev_cases) auto

lemma dequeue_counters:
  assumes "fifo_child env queue_of" "counters_ok queue_of sch"
  shows "counters_ok queue_of (snd (rbfgrad_dequeue env sch)) \<and>
    child_queue queue_of (snd (rbfgrad_dequeue env sch)) = tl (child_queue queue_of sch)"
proof -
  obtain po c where d: "child_dequeue env (qdisc (priv sch)) = (po, c)" by fastforce
  then show ?thesis
    using fifo_childD(2) [OF assms(1), of "qdisc (priv sch)"] assms(2)
    by (auto simp: rbfgrad_dequeue_def Let_def counters_ok_def child_queue_def split: list.splits)
qed

text \<open>Requests to drop are harmless to the counters as long as the two lengths agree.\<close>

definition drops_agree :: "('c \<Rightarrow> sk_buff list) \<Rightarrow> pkt_op list \<Rightarrow> 'c Qdisc \<Rightarrow> bool" where
  "drops_agree queue_of ops sch \<longleftrightarrow> Drop \<notin> set ops \<or>
     (\<forall>k. k \<in> set (child_queue queue_of sch) \<or> Enqueue k \<in> set ops \<longrightarrow> plain_length k)"

lemma run_op_counters:
  assumes fifo: "fifo_child env queue_of" and kept: "lengths_kept env"
    and ok: "counters_ok queue_of (fst (fst x))" and agree: "drops_agree queue_of (op # ops) (fst (fst x))"
  shows "counters_ok queue_of (fst (fst (run_op env op x))) \<and> drops_agree queue_of ops (fst (fst (run_op env op x)))"
proof -
  obtain sch g s n where x: "x = ((sch, g, s), n)" by (cases x) auto
  have ok': "counters_ok queue_of sch" and agree': "drops_agree queue_of (op # ops) sch"
    using ok agree by (simp_all add: x)
  have sub: "drops_agree queue_of ops sch'" if "set (child_queue queue_of sch') \<subseteq> set (child_queue queue_of sch)" for sch'
    using agree' that by (auto simp: drops_agree_def)
  show ?thesis
  proof (cases op)
    case (Enqueue skb)
    obtain ret sch' g' s' where e: "rbfgrad_enqueue env skb (sch, g, s) = (ret, sch', g', s')"
      by (cases "rbfgrad_enqueue env skb (sch, g, s)") auto
    from enqueue_counters [OF fifo kept ok' e]
    have c: "counters_ok queue_of sch'" and "child_queue queue_of sch' = child_queue queue_of sch \<or>
        (\<exists>k. child_queue queue_of sch' = child_queue queue_of sch @ [k] \<and> plain_length k = plain_length skb)"
      by (auto simp: plain_length_def)
    then consider "child_queue queue_of sch' = child_queue queue_of sch"
      | k where "child_queue queue_of sch' = child_queue queue_of sch @ [k]" "plain_length k = plain_length skb"
      by blast
    then have "drops_agree queue_of ops sch'"
    proof cases
      case 1
      then show ?thesis using sub by simp
    next
      case (2 k)
      then show ?thesis using agree' unfolding drops_agree_def Enqueue by (metis (no_types) Un_iff empty_iff
            insert_iff list.set(1,2) list.set_intros(1,2) set_append)
    qed
    then show ?thesis using c by (simp add: Enqueue x e)
  next
    case Dequeue
    have "set (tl ks) \<subseteq> set ks" for ks :: "sk_buff list" by (cases ks) auto
    then have "drops_agree queue_of ops (snd (rbfgrad_dequeue env sch))"
      using dequeue_counters [OF fifo ok'] by (intro sub) simp
    then show ?thesis
      using dequeue_counters [OF fifo ok'] by (simp add: Dequeue x split_beta)
  next
    case Drop
    have pl: "plain_length k" if "k \<in> set (child_queue queue_of sch)" for k
      using agree' that by (auto simp: drops_agree_def Drop)
    have "counters_ok queue_of (snd (rbfgrad_drop env sch)) \<and>
        set (child_queue queue_of (snd (rbfgrad_drop env sch))) \<subseteq> set (child_queue queue_of sch)"
    proof (cases "child_drop env (qdisc (priv sch))")
      case None
      then show ?thesis using ok' by (simp add: rbfgrad_drop_def)
    next
      case (Some lc)
      obtain len c where d: "child_drop env (qdisc (priv sch)) = Some (len, c)" using Some by (cases lc) simp
      show ?thesis
      proof (cases rule: rev_cases_queue [of queue_of sch])
        case 1
        then show ?thesis
          using fifo_childD(4) [OF fifo d] ok' d by (simp add: rbfgrad_drop_def Let_def child_queue_def counters_ok_def)
      next
        case (2 ks k)
        then have "0 < skb_pkt_len k" "skb_len k = skb_pkt_len k" using pl [of k] by (simp_all add: plain_length_def)
        with drop_counters [OF fifo d 2 _ ok'] show ?thesis by (auto simp: counters_ok_def 2)
      qed
    qed
    then show ?thesis using sub by (simp add: Drop x)
  next
    case Peek
    have "child_queue queue_of (snd (rbfgrad_peek env sch)) = child_queue queue_of sch"
      using fifo_childD(3) [OF fifo] by (simp add: rbfgrad_peek_def Let_def split_beta child_queue_def)
    then show ?thesis
      using ok' sub [of "snd (rbfgrad_peek env sch)"]
      by (simp add: Peek x counters_ok_def) (simp add: rbfgrad_peek_def Let_def split_beta)
  next
    case Control
    obtain sch' g' s' where m: "mark_step env (sch, g, s) = (sch', g', s')" by (cases "mark_step env (sch, g, s)") auto
    have "counters_ok queue_of sch' = counters_ok queue_of sch" "child_queue queue_of sch' = child_queue queue_of sch"
      using mark_step_other [OF m] by (simp_all only: counters_ok_def child_queue_def)
    then show ?thesis using ok' sub [of sch'] by (simp add: Control x m)
  qed
qed

text \<open>
  C12: with a fifo for its child, the discipline counts its queue exactly: over any sequence of
  packet operations and controller updates its queue length is the number of packets in the
  child and its backlog the sum of their lengths, provided no packet is dropped on request or
  no size table changes the lengths the child counts. When no size table does, both counters
  are those of the child.
\<close>

theorem queue_agreement:
  assumes "fifo_child env queue_of" "lengths_kept env" "counters_ok queue_of sch" "drops_agree queue_of ops sch"
    and "run_ops env ops (sch, g, s) = ((sch', g', s'), sent)"
  shows "qlen sch' = word_of_nat (length (child_queue queue_of sch')) \<and>
    backlog (qstats sch') = sum_list (map skb_len (child_queue queue_of sch')) \<and>
    ((\<forall>k \<in> set (child_queue queue_of sch'). plain_length k) \<longrightarrow> queue_ok env sch')"
proof -
  have "counters_ok queue_of (fst (fst (fold (run_op env) ops x)))"
    if "counters_ok queue_of (fst (fst x))" "drops_agree queue_of ops (fst (fst x))" for x
    using that
  proof (induction ops arbitrary: x)
    case (Cons op ops)
    then show ?case using run_op_counters [OF assms(1,2), of x op ops] by simp
  qed simp
  from this [of "((sch, g, s), 0)"] have "counters_ok queue_of sch'"
    using assms(3-5) by (simp add: run_ops_def)
  then show ?thesis using fifo_queue_ok [OF assms(1)] by (simp add: counters_ok_def)
qed

section \<open>One arrival\<close>

text \<open>
  C13: an arrival that the controller marks is dropped early, with the congestion result, when
  ECN is off or the packet cannot carry the mark; otherwise the packet, marked or not, goes to
  the child, whose answer is returned and decides between the queue counters and the drop
  counters.
\<close>

theorem enqueue_outcome:
  assumes "rbfgrad_enqueue env skb (sch, g, s) = (ret, sch', g', s')"
  shows "(packet_action env sch s = RBFGRAD_PROB_MARK \<and>
        (\<not> rbfgrad_use_ecn (priv sch) \<or> \<not> fst (INET_ECN_set_ce env skb)) \<longrightarrow>
      ret = NET_XMIT_CN \<and> qlen sch' = qlen sch \<and> qdisc (priv sch') = qdisc (priv sch) \<and>
      stats (priv sch') = (stats (priv sch))\<lparr>prob_drop := prob_drop (stats (priv sch)) + 1\<rparr>) \<and>
    (\<forall>k d. packet_action env sch s = RBFGRAD_DONT_MARK \<and> k = skb \<and> d = 0 \<or>
        packet_action env sch s = RBFGRAD_PROB_MARK \<and> rbfgrad_use_ecn (priv sch) \<and>
        INET_ECN_set_ce env skb = (True, k) \<and> d = 1 \<longrightarrow>
      (ret, qdisc (priv sch')) = qdisc_enqueue env k (qdisc (priv sch)) \<and>
      prob_mark (stats (priv sch')) = prob_mark (stats (priv sch)) + d \<and>
      overlimits (qstats sch') = overlimits (qstats sch) + d \<and>
      (if ret = NET_XMIT_SUCCESS
       then qlen sch' = qlen sch + 1 \<and> backlog (qstats sch') = backlog (qstats sch) + skb_len k
       else qlen sch' = qlen sch \<and> backlog (qstats sch') = backlog (qstats sch) \<and>
         pdrop (stats (priv sch')) = pdrop (stats (priv sch)) + (if net_xmit_drop_count env ret then 1 else 0)))"
proof (intro conjI allI impI)
  fix k and d :: u32
  assume a: "packet_action env sch s = RBFGRAD_DONT_MARK \<and> k = skb \<and> d = 0 \<or>
    packet_action env sch s = RBFGRAD_PROB_MARK \<and> rbfgrad_use_ecn (priv sch) \<and>
    INET_ECN_set_ce env skb = (True, k) \<and> d = 1"
  obtain u where u: "(ret, sch') = enqueue_child env k u" "qdisc (priv u) = qdisc (priv sch)" "qlen u = qlen sch"
    "qstats u = (qstats sch)\<lparr>overlimits := overlimits (qstats sch) + d\<rparr>"
    "stats (priv u) = (stats (priv sch))\<lparr>prob_mark := prob_mark (stats (priv sch)) + d\<rparr>"
    using enqueue_delivered [OF assms a] by metis
  note c = u(1) [unfolded enqueue_child_def Let_def split_beta]
  show "(ret, qdisc (priv sch')) = qdisc_enqueue env k (qdisc (priv sch))"
    "prob_mark (stats (priv sch')) = prob_mark (stats (priv sch)) + d"
    "overlimits (qstats sch') = overlimits (qstats sch) + d"
    using c u(2-5) by (auto simp: prod_eq_iff split: if_splits)
  show "if ret = NET_XMIT_SUCCESS
      then qlen sch' = qlen sch + 1 \<and> backlog (qstats sch') = backlog (qstats sch) + skb_len k
      else qlen sch' = qlen sch \<and> backlog (qstats sch') = backlog (qstats sch) \<and>
        pdrop (stats (priv sch')) = pdrop (stats (priv sch)) + (if net_xmit_drop_count env ret then 1 else 0)"
    using c u(2-5) by (auto split: if_splits)
qed (use enqueue_dropped [OF assms] in simp_all)

text \<open>
  C14: every twentieth arrival is sampled: the two histories move by one place and take in the
  previous probability and the queue length, the three errors move, the current line of the
  trace is written and the index moves unless it is at the end. Other arrivals only count.
\<close>

theorem enqueue_sampling:
  assumes "module_ok (sch, g, s)" "rbfgrad_enqueue env skb (sch, g, s) = (ret, sch', g', s')"
    "p = parms (priv sch)" "p' = parms (priv sch')"
  shows "if sint (cyc_count g) = sint CYC_MAX - 1
    then cyc_count g' = 0 \<and> proba p' = p_k_1 p # butlast (proba p) \<and> queue_len p' = qlen sch # butlast (queue_len p) \<and>
      e_k p' = qlen sch - q_ref p \<and> e_k_1 p' = e_k p \<and> e_k_2 p' = e_k_1 p \<and>
      queue_show_base g' = (queue_show_base g)[unat (array_element g) :=
        show_entry (packet_action env sch s) (qlen sch) (array_element g) p (queue_show_base g ! unat (array_element g))] \<and>
      sint (array_element g') = min (sint (array_element g) + 1) (int QUEUE_SHOW_MAX - 1)
    else p' = p \<and> g' = g\<lparr>pkg_number := pkg_number g + 1, cyc_count := cyc_count g + 1\<rparr>"
proof -
  have wf: "parms_wf p" and lg: "log_ok g" using assms(1,3) by (simp_all add: module_ok_def block_ok_def)
  have c: "cyc_count g + 1 = CYC_MAX \<longleftrightarrow> sint (cyc_count g) = sint CYC_MAX - 1"
    using lg by (intro cyc_next) (simp_all add: log_ok_def)
  have e: "sint (array_element g + 1) = sint (array_element g) + 1"
    using lg sint_s32_bounds [of "array_element g"]
    by (intro sint_plus_one) (simp_all add: log_ok_def QUEUE_SHOW_MAX_def)
  have r: "(p', g') = record_queue (packet_action env sch s) (qlen sch) (p, g\<lparr>pkg_number := pkg_number g + 1\<rparr>)"
    using enqueue_block(1) [OF assms(2)] by (simp add: assms(3,4) packet_action_def)
  show ?thesis
  proof (cases "sint (cyc_count g) = sint CYC_MAX - 1")
    case True
    then show ?thesis
      using r c lg e shift_history_arrays [OF wf] shift_history_errors
      by (auto simp: record_queue_def Let_def log_ok_def split: if_splits)
  next
    case False
    then show ?thesis using r c by (simp add: record_queue_def Let_def)
  qed
qed

section \<open>Changing the configuration\<close>

text \<open>
  C15: a change that fails changes nothing: without options, with options that do not parse or
  lack an attribute, or when the new queue cannot be created, the error is returned and the
  discipline, the globals and the random state are as before.
\<close>

theorem change_errors:
  "rbfgrad_change env None st = (- EINVAL, st) \<and>
   (nla_parse_nested env nla = Inl err \<longrightarrow> rbfgrad_change env (Some nla) st = (err, st)) \<and>
   (nla_parse_nested env nla = Inr (tb1, tb2) \<and> (tb1 = None \<or> tb2 = None) \<longrightarrow>
      rbfgrad_change env (Some nla) st = (- EINVAL, st)) \<and>
   (nla_parse_nested env nla = Inr (Some ctl, Some stab) \<and> 0 < o_limit ctl \<and>
      fifo_create_dflt env (o_limit ctl) = Inl err \<longrightarrow> rbfgrad_change env (Some nla) st = (err, st))"
  by (cases st) (auto simp: rbfgrad_change_def split: option.splits)

lemma change_ok:
  assumes "nla_parse_nested env nla = Inr (Some ctl, Some stab)"
    and "0 < o_limit ctl \<Longrightarrow> fifo_create_dflt env (o_limit ctl) = Inr c"
    and "rbfgrad_change env (Some nla) (sch, g, s) = (ret, sch', g', s')"
  shows "ret = 0" "limit (priv sch') = o_limit ctl" "flags (priv sch') = ucast (o_flags ctl)" "array_element g' = 0"
    "qstats sch' = qstats sch" "stats (priv sch') = stats (priv sch)"
    "(parms (priv sch'), s') = rbfgrad_set_parms (random32 env) (parms (priv sch)) (o_sampl_period ctl)
       (o_q_ref ctl) (o_p_init ctl) (o_p_min ctl) (o_p_max ctl) (o_kp_k ctl) (o_ki_k ctl) (o_kd_k ctl)
       (o_eta_p ctl) (o_eta_i ctl) (o_eta_d ctl) (o_n ctl) (o_m ctl) (o_alpha ctl) (o_eta ctl) (o_Scell_log ctl) stab s"
    "qdisc (priv sch') = (if 0 < o_limit ctl then c else qdisc (priv sch))"
    "qlen sch' = (if 0 < o_limit ctl
       then qdisc_tree_decrease_qlen env (qdisc (priv sch)) (child_qlen env (qdisc (priv sch))) (qlen sch) else qlen sch)"
proof -
  note d = assms(3) [unfolded rbfgrad_change_def, simplified, unfolded assms(1), simplified]
  show "ret = 0" "limit (priv sch') = o_limit ctl" "flags (priv sch') = ucast (o_flags ctl)" "array_element g' = 0"
    "qstats sch' = qstats sch" "stats (priv sch') = stats (priv sch)"
    using d assms(2) by (cases "0 < o_limit ctl"; auto simp: Let_def split_beta)+
  show "(parms (priv sch'), s') = rbfgrad_set_parms (random32 env) (parms (priv sch)) (o_sampl_period ctl)
       (o_q_ref ctl) (o_p_init ctl) (o_p_min ctl) (o_p_max ctl) (o_kp_k ctl) (o_ki_k ctl) (o_kd_k ctl)
       (o_eta_p ctl) (o_eta_i ctl) (o_eta_d ctl) (o_n ctl) (o_m ctl) (o_alpha ctl) (o_eta ctl) (o_Scell_log ctl) stab s"
    using d assms(2) by (cases "0 < o_limit ctl"; auto simp: Let_def split_beta)
  show "qdisc (priv sch') = (if 0 < o_limit ctl then c else qdisc (priv sch))"
    "qlen sch' = (if 0 < o_limit ctl
       then qdisc_tree_decrease_qlen env (qdisc (priv sch)) (child_qlen env (qdisc (priv sch))) (qlen sch) else qlen sch)"
    using d assms(2) by (cases "0 < o_limit ctl"; auto simp: Let_def split_beta)+
qed

text \<open>
  A successful change to a new queue empties the discipline but forgets its backlog: the
  queue length becomes that of the empty child, while the backlog counter keeps the bytes of
  the packets that were destroyed with the old child.
\<close>

lemma change_stale_backlog:
  assumes "nla_parse_nested env nla = Inr (Some ctl, Some stab)" "0 < o_limit ctl"
    and "fifo_create_dflt env (o_limit ctl) = Inr c" "child_qlen env c = 0" "child_backlog env c = 0"
    and "qdisc_tree_decrease_qlen env = (\<lambda>_ n len. len - n)" "queue_ok env sch"
    and "rbfgrad_change env (Some nla) (sch, g, s) = (ret, sch', g', s')"
  shows "ret = 0 \<and> qlen sch' = 0 \<and> backlog (qstats sch') = backlog (qstats sch) \<and>
    (queue_ok env sch' \<longleftrightarrow> backlog (qstats sch) = 0)"
  using change_ok [OF assms(1,3,8)] assms(2,4-7) by (simp add: queue_ok_def)

text \<open>What the module dumps after a change.\<close>

lemma change_dump:
  assumes "nla_parse_nested env nla = Inr (Some ctl, Some stab)"
    and "0 < o_limit ctl \<Longrightarrow> fifo_create_dflt env (o_limit ctl) = Inr c"
    and "rbfgrad_change env (Some nla) (sch, g, s) = (ret, sch', g', s')"
  shows "dump_opt (priv sch') = ctl\<lparr>o_p_init := 0, o_p_min := 0, o_Scell_log := 0, o_flags := 0\<rparr>"
proof -
  note ok = change_ok [OF assms]
  define p where "p = parms (priv sch')"
  have g: "h p = h (pso_constants ((set_scalars (parms (priv sch)) (o_sampl_period ctl)
       (o_q_ref ctl) (o_p_init ctl) (o_p_min ctl) (o_p_max ctl) (o_kp_k ctl) (o_ki_k ctl) (o_kd_k ctl)
       (o_eta_p ctl) (o_eta_i ctl) (o_eta_d ctl) (o_n ctl) (o_m ctl) (o_alpha ctl) (o_eta ctl))\<lparr>e_k := 0, e_k_1 := 0, e_k_2 := 0\<rparr>))"
    if "\<And>x. h (erase_arrays x) = h x"
      "\<And>x a b c d e. h (x\<lparr>gbestval := a, gbest_index := b, Scell_log := c, Scell_max := d, Stab := e\<rparr>) = h x"
    for h :: "rbfgrad_parms \<Rightarrow> 'z"
    unfolding p_def arg_cong [OF ok(7), of fst, simplified] set_parms_phases that(2)
    by (rule set_arrays_scalars) (rule that(1))
  note defs = erase_arrays_def erase_swarm_def erase_samples_def erase_units_def pso_constants_def set_scalars_def
  have "q_ref p = o_q_ref ctl" "p_max p = o_p_max ctl" "kp_k p = o_kp_k ctl" "ki_k p = o_ki_k ctl" "kd_k p = o_kd_k ctl"
    using g [of q_ref] g [of p_max] g [of kp_k] g [of ki_k] g [of kd_k] by (simp_all add: defs)
  moreover have "eta_p p = o_eta_p ctl" "eta_i p = o_eta_i ctl" "eta_d p = o_eta_d ctl" "n_in p = o_n ctl" "m_hid p = o_m ctl"
    using g [of eta_p] g [of eta_i] g [of eta_d] g [of n_in] g [of m_hid] by (simp_all add: defs)
  moreover have "alpha p = o_alpha ctl" "eta p = o_eta ctl" "sampl_period p = o_sampl_period ctl"
    using g [of alpha] g [of eta] g [of sampl_period] by (simp_all add: defs)
  ultimately show ?thesis using ok(2) by (simp add: dump_opt_def flip: p_def)
qed

text \<open>
  C16: right after a successful change, the options the module dumps are those of the change
  except the initial and the least probability, the cell size and the flags, which it reports
  as zero.
\<close>
theorem dump_after_change:
  assumes "nla_parse_nested env nla = Inr (Some ctl, Some stab)"
    and "0 < o_limit ctl \<Longrightarrow> fifo_create_dflt env (o_limit ctl) = Inr c"
    and "rbfgrad_change env (Some nla) (sch, g, s) = (ret, sch', g', s')"
  shows "dump_opt (priv sch') = ctl\<lparr>o_p_init := 0, o_p_min := 0, o_Scell_log := 0, o_flags := 0\<rparr>"
  by (rule change_dump [OF assms])

section \<open>The threads\<close>

text \<open>
  C17: the controller thread performs one update per answer of \<open>kthread_should_stop\<close> up to and
  including the first positive one, and returns zero; as long as no answer is positive it
  does not return.
\<close>

theorem thread_func_updates:
  "rbfgrad_thread_func env (replicate n False @ True # stops) st = Some (0, (mark_step env ^^ Suc n) st) \<and>
   rbfgrad_thread_func env (replicate n False) st = None"
proof (induction n arbitrary: st)
  case 0
  then show ?case by simp
next
  case (Suc n)
  then show ?case by (simp add: funpow_swap1)
qed

lemma sleep_loop_answers:
  assumes "\<forall>x \<in> set xs. 0 < sint x" "0 < sint t"
  shows "\<not> sleep_loop xs t" "sint y \<le> 0 \<Longrightarrow> sleep_loop (xs @ y # rest) t"
proof -
  show "\<not> sleep_loop xs t" using assms by (induction xs arbitrary: t) simp_all
  have "sleep_loop (y # rest) u" if "sint y \<le> 0" for u
    using that by (cases rest) simp_all
  then show "sleep_loop (xs @ y # rest) t" if "sint y \<le> 0"
    using that assms by (induction xs arbitrary: t) simp_all
qed

lemma stop_timeout_ticks:
  assumes "0 < sint HZ" "sint HZ \<le> 39045"
  shows "sint (stop_timeout HZ) = 55 * sint HZ"
proof -
  have "PROB_TIME * HZ = word_of_int (55000 * sint HZ)" by (simp add: PROB_TIME_def)
  then have "sint (PROB_TIME * HZ) = 55000 * sint HZ"
    using assms by (simp only:) (subst sint_of_s32; simp)
  moreover have "55000 * sint HZ sdiv 1000 = 55 * sint HZ"
    using assms by (simp add: signed_divide_int_def sgn_if)
  ultimately have "stop_timeout HZ = word_of_int (sint (word_of_int (55 * sint HZ) :: s32))"
    by (simp only: stop_timeout_def)
  also have "\<dots> = word_of_int (55 * sint HZ)"
    using assms by (subst sint_of_s32) simp_all
  finally have e: "stop_timeout HZ = word_of_int (55 * sint HZ)" .
  show ?thesis unfolding e by (rule sint_of_s64) (use assms in simp_all)
qed

text \<open>
  C18: the stopping thread asks for 55 seconds of ticks at any tick rate at which the product
  fits an \<open>int\<close>, and goes on asking as long as \<open>schedule_timeout\<close> answers that ticks are left;
  the first answer that none are left ends the sleep. It then stops the controller thread and
  returns zero if that thread was created, and follows an invalid pointer if it was not.
\<close>

theorem stop_thread_stops:
  assumes "0 < sint HZ" "sint HZ \<le> 39045" "\<forall>x \<in> set xs. 0 < sint x" "sint y \<le> 0"
  shows "sint (stop_timeout HZ) = 55 * sint HZ \<and>
    rbfgrad_stop_prob_thread_func HZ xs g = Asleep \<and>
    rbfgrad_stop_prob_thread_func HZ (xs @ y # rest) g =
      (if tsk_prob g = Running then Returned 0 (g\<lparr>tsk_prob := Stopped\<rparr>) else Oops)"
proof -
  have t: "sint (stop_timeout HZ) = 55 * sint HZ" by (rule stop_timeout_ticks [OF assms(1,2)])
  then have "0 < sint (stop_timeout HZ)" using assms(1) by simp
  then show ?thesis
    using t sleep_loop_answers [OF assms(3)] assms(4)
    by (simp add: rbfgrad_stop_prob_thread_func_def kthread_stop_def)
qed

section \<open>A child for evaluation\<close>

text \<open>
  An environment in which the child is a plain list of packets without a limit, for the
  instances of the theorems above.
\<close>

definition list_env :: "(sk_buff list, tc_rbfgrad_qopt, u32) kernel_env" where
  "list_env = \<lparr>random32 = (\<lambda>s. (s, s + 1)), INET_ECN_set_ce = (\<lambda>k. (True, k)),
     qdisc_drop = (\<lambda>k q. q\<lparr>drops := drops q + 1\<rparr>), net_xmit_drop_count = (\<lambda>_. True),
     qdisc_bstats_update = (\<lambda>k b. b\<lparr>packets := packets b + 1\<rparr>), qdisc_enqueue = (\<lambda>k c. (0, c @ [k])),
     child_dequeue = (\<lambda>c. case c of [] \<Rightarrow> (None, []) | k # c \<Rightarrow> (Some k, c)),
     child_peek = (\<lambda>c. (case c of [] \<Rightarrow> None | k # _ \<Rightarrow> Some k, c)), 
     child_drop = (\<lambda>c. Some (if c = [] then (0, []) else (skb_pkt_len (last c), butlast c))),
     qdisc_reset = (\<lambda>_. []), child_qlen = (\<lambda>c. word_of_nat (length c)),
     child_backlog = (\<lambda>c. sum_list (map skb_pkt_len c)), child_handle = (\<lambda>_. 0),
     qdisc_tree_decrease_qlen = (\<lambda>_ n len. len - n), noop_qdisc = [], fifo_create_dflt = (\<lambda>_. Inr []),
     nla_parse_nested = (\<lambda>ctl. Inr (Some ctl, Some (replicate RBFGRAD_STAB_SIZE 0))), kthread_run = (\<lambda>_. None)\<rparr>"

definition sample_sch :: "sk_buff list \<Rightarrow> sk_buff list Qdisc" where
  "sample_sch c = \<lparr>qlen = word_of_nat (length c),
     qstats = \<lparr>backlog = sum_list (map skb_len c), drops = 0, overlimits = 0\<rparr>, bstats = \<lparr>bytes = 0, packets = 0\<rparr>,
     priv = \<lparr>limit = 0, flags = 0, parms = sample_parms,
       stats = \<lparr>prob_drop = 0, prob_mark = 0, forced_drop = 0, forced_mark = 0, pdrop = 0, other = 0\<rparr>, qdisc = c\<rparr>\<rparr>"

definition sample_globals :: module_globals where
  "sample_globals = \<lparr>cyc_count = 0, prob_number = 0, pkg_number = 0,
     queue_show_base = replicate QUEUE_SHOW_MAX \<lparr>qs_numbers = 0, qs_length = 0, qs_mark_type = 0, qs_jacobian = 0,
       qs_NetOut = 0, qs_p = 0, qs_kp = 0, qs_ki = 0, qs_kd = 0, qs_SamIn = replicate SAM_NUM 0,
       qs_SamOut = replicate SAM_NUM 0, qs_proba = replicate SAM_NUM 0, qs_queue_len = replicate SAM_NUM 0,
       qs_e_k = 0, qs_e_k_1 = 0, qs_e_k_2 = 0\<rparr>,
     array_element = 0, tsk_prob = Running, tsk_stop_prob = Running\<rparr>"

definition sample_packet :: "u32 \<Rightarrow> sk_buff" where
  "sample_packet n = \<lparr>skb_len = n, skb_pkt_len = n, skb_head = []\<rparr>"

definition sample_qopt :: tc_rbfgrad_qopt where
  "sample_qopt = \<lparr>o_q_ref = 300, o_p_init = 0, o_p_min = 0, o_p_max = 1, o_kp_k = 0, o_ki_k = 0, o_kd_k = 0,
     o_eta_p = 0, o_eta_i = 0, o_eta_d = 0, o_n = 10, o_m = 6, o_alpha = 0, o_eta = 0, o_sampl_period = 1,
     o_Scell_log = 3, o_limit = 1000, o_flags = 1\<rparr>"

lemma list_env_counts: "counts_refusals list_env"
  by (simp add: counts_refusals_def list_env_def NET_XMIT_SUCCESS_def)

lemma list_env_fifo: "fifo_child list_env id" "lengths_kept list_env"
  by (auto simp: fifo_child_def lengths_kept_def list_env_def NET_XMIT_SUCCESS_def split: list.splits)

lemma sample_counters: "counters_ok id (sample_sch c)"
  by (simp add: counters_ok_def child_queue_def sample_sch_def)

theorem packet_conservation_witness:
  "case run_ops list_env [Enqueue (sample_packet 1500), Dequeue, Dequeue] (sample_sch [sample_packet 40], sample_globals, 7) of
     ((sch', g', s'), sent) \<Rightarrow> pkg_number g' = (qlen sch' - 1) + prob_drop (stats (priv sch')) +
       pdrop (stats (priv sch')) + other (stats (priv sch')) + sent"
proof -
  obtain sch' g' s' sent where r: "run_ops list_env [Enqueue (sample_packet 1500), Dequeue, Dequeue]
      (sample_sch [sample_packet 40], sample_globals, 7) = ((sch', g', s'), sent)"
    by (metis surj_pair)
  show ?thesis
    using packet_conservation [OF list_env_counts r] unfolding r
    by (simp add: sample_sch_def sample_globals_def)
qed

theorem queue_agreement_witness:
  "case run_ops list_env [Enqueue (sample_packet 1500), Drop, Dequeue] (sample_sch [sample_packet 40], sample_globals, 7) of
     ((sch', g', s'), sent) \<Rightarrow> backlog (qstats sch') = sum_list (map skb_len (qdisc (priv sch')))"
proof -
  obtain sch' g' s' sent where r: "run_ops list_env [Enqueue (sample_packet 1500), Drop, Dequeue]
      (sample_sch [sample_packet 40], sample_globals, 7) = ((sch', g', s'), sent)"
    by (metis surj_pair)
  have "drops_agree id [Enqueue (sample_packet 1500), Drop, Dequeue] (sample_sch [sample_packet 40])"
    by (auto simp: drops_agree_def child_queue_def sample_sch_def plain_length_def sample_packet_def)
  from queue_agreement [OF list_env_fifo sample_counters this r] show ?thesis
    by (simp add: r child_queue_def)
qed

theorem change_errors_witness:
  "rbfgrad_change (list_env\<lparr>fifo_create_dflt := \<lambda>_. Inl (- 12)\<rparr>) (Some sample_qopt) (sample_sch [], sample_globals, 7)
     = (- 12, sample_sch [], sample_globals, 7)"
  using change_errors [of "list_env\<lparr>fifo_create_dflt := \<lambda>_. Inl (- 12)\<rparr>" "(sample_sch [], sample_globals, 7)"
      sample_qopt "- 12" None None sample_qopt "replicate RBFGRAD_STAB_SIZE 0"]
  by (simp add: list_env_def sample_qopt_def)

theorem dump_after_change_witness:
  "case rbfgrad_change list_env (Some sample_qopt) (sample_sch [], sample_globals, 7) of
     (ret, sch', g', s') \<Rightarrow> o_flags (dump_opt (priv sch')) = 0 \<and> o_limit (dump_opt (priv sch')) = 1000"
proof -
  obtain ret sch' g' s' where r: "rbfgrad_change list_env (Some sample_qopt)
      (sample_sch [], sample_globals, 7) = (ret, sch', g', s')"
    by (metis surj_pair)
  have e: "nla_parse_nested list_env sample_qopt = Inr (Some sample_qopt, Some (replicate RBFGRAD_STAB_SIZE 0))"
    "fifo_create_dflt list_env (o_limit sample_qopt) = Inr []"
    by (simp_all add: list_env_def)
  show ?thesis
    using dump_after_change [OF e r] unfolding r by (simp add: sample_qopt_def)
qed

theorem stop_thread_stops_witness:
  "rbfgrad_stop_prob_thread_func 100 [3000, 0] sample_globals = Returned 0 (sample_globals\<lparr>tsk_prob := Stopped\<rparr>)"
  using stop_thread_stops [of 100 "[3000]" 0 sample_globals "[]"] by (simp add: sample_globals_def)

theorem enqueue_outcome_witness:
  "case rbfgrad_enqueue list_env (sample_packet 1500) (sample_sch [], sample_globals, 7) of
     (ret, sch', g', s') \<Rightarrow> ret = 0 \<and> qdisc (priv sch') = [sample_packet 1500] \<and> qlen sch' = 1"
proof -
  obtain ret sch' g' s' where r: "rbfgrad_enqueue list_env (sample_packet 1500) (sample_sch [], sample_globals, 7) = (ret, sch', g', s')"
    by (metis surj_pair)
  have a: "packet_action list_env (sample_sch []) 7 = RBFGRAD_DONT_MARK"
    by (simp add: packet_action_def action_mark_iff sample_sch_def sample_parms_def zero_parms_def list_env_def
        rbfgrad_action_def rbfgrad_cmp_prob_def RAND_MAX_def abs_s32_def double_eval)
  have "qdisc_enqueue list_env (sample_packet 1500) (qdisc (priv (sample_sch []))) = (0, [sample_packet 1500])"
    by (simp add: list_env_def sample_sch_def)
  then show ?thesis
    using enqueue_outcome [OF r] a unfolding r
    by (simp add: sample_sch_def NET_XMIT_SUCCESS_def prod_eq_iff split: if_splits)
qed

theorem enqueue_sampling_witness:
  "case rbfgrad_enqueue list_env (sample_packet 1500) (sample_sch [], sample_globals\<lparr>cyc_count := 19\<rparr>, 7) of
     (ret, sch', g', s') \<Rightarrow> cyc_count g' = 0 \<and> sint (array_element g') = 1"
proof -
  obtain ret sch' g' s' where r: "rbfgrad_enqueue list_env (sample_packet 1500)
      (sample_sch [], sample_globals\<lparr>cyc_count := 19\<rparr>, 7) = (ret, sch', g', s')"
    by (metis surj_pair)
  have "parms_wf sample_parms" "unat (gbest_index sample_parms) < PARTICLE_NUM"
    using sample_parms_wf by (simp_all add: sample_parms_def zero_parms_def PARTICLE_NUM_def)
  then have ok: "module_ok (sample_sch [], sample_globals\<lparr>cyc_count := 19\<rparr>, 7)"
    by (simp add: module_ok_def block_ok_def log_ok_def sample_sch_def sample_globals_def QUEUE_SHOW_MAX_def CYC_MAX_def)
  show ?thesis
    using enqueue_sampling [OF ok r refl refl] unfolding r
    by (simp add: CYC_MAX_def sample_globals_def QUEUE_SHOW_MAX_def)
qed

end
