(* ===== verification/Rbf_System.thy ===== *)
theory Rbf_System
  imports Rbf_Packets
begin

text \<open>
  The module as a concurrent system. The handlers exclude each other by the lock of the queue,
  but the controller thread takes no lock: packets arrive and configurations are installed
  between its steps. The thread's position is a program counter whose steps are the phases of
  an update and, for the clamp at its end, every single load, comparison and store; a change of
  configuration is the list of the stores it still has to make. The invariants hold in every
  reachable state, whatever the interleaving.
\<close>

section \<open>Transition systems\<close>

text \<open>Executions of a labelled transition relation.\<close>

inductive exec :: "('l \<Rightarrow> 's \<Rightarrow> 's \<Rightarrow> bool) \<Rightarrow> 's \<Rightarrow> 'l list \<Rightarrow> 's \<Rightarrow> bool" for step where
  exec_nil: "exec step s [] s"
| exec_step: "step l s t \<Longrightarrow> exec step t ls u \<Longrightarrow> exec step s (l # ls) u"

inductive_cases exec_nilE: "exec step s [] t"
inductive_cases exec_consE: "exec step s (l # ls) t"

text \<open>The interface of an invariant: it holds at the start, and every step keeps it.\<close>

locale inductive_invariant =
  fixes start :: "'s \<Rightarrow> bool"
    and step :: "'l \<Rightarrow> 's \<Rightarrow> 's \<Rightarrow> bool"
    and inv :: "'s \<Rightarrow> bool"
  assumes inv_start: "start s \<Longrightarrow> inv s"
    and inv_step: "inv s \<Longrightarrow> step l s t \<Longrightarrow> inv t"
begin

lemma exec_keeps: "exec step s ls t \<Longrightarrow> inv s \<Longrightarrow> inv t"
  by (induction rule: exec.induct) (auto intro: inv_step)

lemma reachable_inv: "start s \<Longrightarrow> exec step s ls t \<Longrightarrow> inv t"
  using exec_keeps inv_start by blast

end

section \<open>The phases of the controller\<close>

datatype mp_pc =
    Idle
  | Start mp_locals
  | Epoch mp_locals nat nat
  | Install mp_locals nat
  | Adapt mp_locals
  | Update mp_locals
  | TestMax
  | CmpMax double
  | LoadMax
  | StoreMax double
  | TestMin
  | CmpMin double
  | LoadMin
  | StoreMin double
  | Count

text \<open>
  One phase of \<open>rbfgrad_mark_probability\<close>, on the block, the update counter and the random
  state. The clamp loads \<open>p_k\<close>, compares it with a bound, loads the bound again and stores it.
\<close>

fun ctl_step :: "'r random_source \<Rightarrow> mp_pc \<times> rbfgrad_parms \<times> s32 \<times> 'r \<Rightarrow> mp_pc \<times> rbfgrad_parms \<times> s32 \<times> 'r" where
  "ctl_step rnd (Idle, p, k, s) = (Start (mp_locals_of p), mp_load p, k, s)"
| "ctl_step rnd (Start l, p, k, s) = (let (p, idx) = pso_start p in (Epoch l 0 idx, p, k, s))"
| "ctl_step rnd (Epoch l i idx, p, k, s) =
     (if i < MAX_EPOCH then let (p, idx, s) = pso_epoch rnd l i (p, idx, s) in (Epoch l (Suc i) idx, p, k, s)
      else (Install l idx, p, k, s))"
| "ctl_step rnd (Install l idx, p, k, s) =
     (Adapt l, (for_up 0 UNIT_NUM (\<lambda>j p. p\<lparr>w_k := (w_k p)[j := gbest p ! j]\<rparr>) p)\<lparr>gbest_index := word_of_nat idx\<rparr>, k, s)"
| "ctl_step rnd (Adapt l, p, k, s) = (Update l, mp_adapt l p, k, s)"
| "ctl_step rnd (Update l, p, k, s) = (TestMax, mp_update l p, k, s)"
| "ctl_step rnd (TestMax, p, k, s) = (CmpMax (p_k p), p, k, s)"
| "ctl_step rnd (CmpMax v, p, k, s) = (if p_max p < v then LoadMax else TestMin, p, k, s)"
| "ctl_step rnd (LoadMax, p, k, s) = (StoreMax (p_max p), p, k, s)"
| "ctl_step rnd (StoreMax v, p, k, s) = (TestMin, p\<lparr>p_k := v\<rparr>, k, s)"
| "ctl_step rnd (TestMin, p, k, s) = (CmpMin (p_k p), p, k, s)"
| "ctl_step rnd (CmpMin v, p, k, s) = (if v < p_min p then LoadMin else Count, p, k, s)"
| "ctl_step rnd (LoadMin, p, k, s) = (StoreMin (p_min p), p, k, s)"
| "ctl_step rnd (StoreMin v, p, k, s) = (Count, p\<lparr>p_k := v\<rparr>, k, s)"
| "ctl_step rnd (Count, p, k, s) = (Idle, p, k + 1, s)"

text \<open>Without interference the phases are the function.\<close>

lemma ctl_epochs:
  "(ctl_step rnd ^^ n) (Epoch l i idx, p, k, s) =
     (case for_up i (i + n) (pso_epoch rnd l) (p, idx, s) of (p, idx, s) \<Rightarrow> (Epoch l (i + n) idx, p, k, s))"
  if "i + n \<le> MAX_EPOCH"
  using that
proof (induction n)
  case 0
  then show ?case by simp
next
  case (Suc n)
  obtain p1 i1 s1 where r: "for_up i (i + n) (pso_epoch rnd l) (p, idx, s) = (p1, i1, s1)"
    by (metis surj_pair)
  have "for_up i (i + Suc n) (pso_epoch rnd l) (p, idx, s) = pso_epoch rnd l (i + n) (p1, i1, s1)"
    using for_up_Suc [of i "i + n" "pso_epoch rnd l" "(p, idx, s)"] by (simp add: r)
  with Suc r show ?case by (simp add: split_beta)
qed

lemma ctl_clamp:
  obtains n where "(ctl_step rnd ^^ n) (TestMax, p, k, s) = (Idle, mp_clamp p, k + 1, s)"
proof -
  define q where "q = (if p_max p < p_k p then p\<lparr>p_k := p_max p\<rparr> else p)"
  have "(ctl_step rnd ^^ (if p_max p < p_k p then 4 else 2)) (TestMax, p, k, s) = (TestMin, q, k, s)"
    by (simp add: eval_nat_numeral q_def)
  moreover have "(ctl_step rnd ^^ (if p_k q < p_min q then 5 else 3)) (TestMin, q, k, s) = (Idle, mp_clamp p, k + 1, s)"
    by (simp add: eval_nat_numeral mp_clamp_def flip: q_def)
  ultimately have "(ctl_step rnd ^^ ((if p_k q < p_min q then 5 else 3) + (if p_max p < p_k p then 4 else 2))) (TestMax, p, k, s)
      = (Idle, mp_clamp p, k + 1, s)"
    by (simp only: funpow_add comp_def)
  then show thesis by (rule that)
qed

text \<open>
  Run without interference, the controller goes from idle to idle by one call of
  \<open>rbfgrad_mark_probability\<close>.
\<close>

lemma ctl_phases:
  "\<exists>n. (ctl_step rnd ^^ n) (Idle, p, k, s) = (Idle, rbfgrad_mark_probability rnd (p, k, s))"
proof -
  let ?l = "mp_locals_of p" and ?p0 = "mp_load p"
  obtain p1 i1 where st: "pso_start ?p0 = (p1, i1)" by fastforce
  obtain p2 i2 s2 where ep: "for_up 0 MAX_EPOCH (pso_epoch rnd ?l) (p1, i1, s) = (p2, i2, s2)"
    by (metis surj_pair)
  have 1: "(ctl_step rnd ^^ 2) (Idle, p, k, s) = (Epoch ?l 0 i1, p1, k, s)"
    by (simp add: numeral_2_eq_2 st)
  have 2: "(ctl_step rnd ^^ MAX_EPOCH) (Epoch ?l 0 i1, p1, k, s) = (Epoch ?l MAX_EPOCH i2, p2, k, s2)"
    using ctl_epochs [of 0 MAX_EPOCH rnd ?l i1 p1 k s] by (simp add: ep)
  define q where "q = mp_update ?l (mp_adapt ?l ((for_up 0 UNIT_NUM (\<lambda>j p. p\<lparr>w_k := (w_k p)[j := gbest p ! j]\<rparr>) p2)
      \<lparr>gbest_index := word_of_nat i2\<rparr>))"
  have 3: "(ctl_step rnd ^^ 4) (Epoch ?l MAX_EPOCH i2, p2, k, s2) = (TestMax, q, k, s2)"
    by (simp add: eval_nat_numeral q_def)
  have 4: "rbfgrad_mark_probability rnd (p, k, s) = (mp_clamp q, k + 1, s2)"
    by (simp add: rbfgrad_mark_probability_def pso_train_def st ep Let_def q_def)
  obtain n where 5: "(ctl_step rnd ^^ n) (TestMax, q, k, s2) = (Idle, mp_clamp q, k + 1, s2)" using ctl_clamp .
  have "(ctl_step rnd ^^ (n + 4 + MAX_EPOCH + 2)) (Idle, p, k, s) = (Idle, mp_clamp q, k + 1, s2)"
    by (simp only: funpow_add comp_def 1 2 3 5)
  then show ?thesis using 4 by metis
qed

section \<open>The stores of a change of configuration\<close>

text \<open>
  \<open>rbfgrad_change\<close> up to the call of \<open>rbfgrad_set_parms\<close>: the error, or the discipline with its
  new child, the options and the table.
\<close>

definition change_begin :: "('c, 'n, 'r) kernel_env \<Rightarrow> 'n option \<Rightarrow> 'c Qdisc \<Rightarrow>
    s32 + 'c Qdisc \<times> tc_rbfgrad_qopt \<times> u8 list" where
  "change_begin env opt sch =
     (case opt of
       None \<Rightarrow> Inl (- EINVAL)
     | Some nla \<Rightarrow>
       (case nla_parse_nested env nla of
          Inl err \<Rightarrow> Inl err
        | Inr (Some ctl, Some stab) \<Rightarrow>
          (case (if 0 < o_limit ctl then
                   (case fifo_create_dflt env (o_limit ctl) of Inl err \<Rightarrow> Inl err | Inr c \<Rightarrow> Inr (Some c))
                 else Inr None) of
             Inl err \<Rightarrow> Inl err
           | Inr child \<Rightarrow>
             let sch = sch\<lparr>priv := (priv sch)\<lparr>flags := ucast (o_flags ctl), limit := o_limit ctl\<rparr>\<rparr>
             in Inr (case child of
                       None \<Rightarrow> sch
                     | Some c \<Rightarrow>
                       let old = qdisc (priv sch)
                       in sch\<lparr>qlen := qdisc_tree_decrease_qlen env old (child_qlen env old) (qlen sch),
                              priv := (priv sch)\<lparr>qdisc := c\<rparr>\<rparr>, ctl, stab))
        | _ \<Rightarrow> Inl (- EINVAL)))"

type_synonym 'r store = "rbfgrad_parms \<times> 'r \<Rightarrow> rbfgrad_parms \<times> 'r"

definition on_block :: "(rbfgrad_parms \<Rightarrow> rbfgrad_parms) \<Rightarrow> 'r store" where
  "on_block f = (\<lambda>(p, s). (f p, s))"

text \<open>\<open>rbfgrad_set_parms\<close> as the list of its stores, one per field and per row of an array.\<close>

definition set_stores :: "'r random_source \<Rightarrow> tc_rbfgrad_qopt \<Rightarrow> u8 list \<Rightarrow> 'r store list" where
  "set_stores rnd ctl stab =
     map on_block
       [\<lambda>p. p\<lparr>sampl_period := o_sampl_period ctl\<rparr>, \<lambda>p. p\<lparr>q_ref := o_q_ref ctl\<rparr>, \<lambda>p. p\<lparr>p_init := o_p_init ctl\<rparr>,
        \<lambda>p. p\<lparr>p_min := o_p_min ctl\<rparr>, \<lambda>p. p\<lparr>p_max := o_p_max ctl\<rparr>, \<lambda>p. p\<lparr>eta_p := o_eta_p ctl\<rparr>,
        \<lambda>p. p\<lparr>eta_i := o_eta_i ctl\<rparr>, \<lambda>p. p\<lparr>eta_d := o_eta_d ctl\<rparr>, \<lambda>p. p\<lparr>SamNum := 10\<rparr>, \<lambda>p. p\<lparr>n_in := o_n ctl\<rparr>,
        \<lambda>p. p\<lparr>m_hid := o_m ctl\<rparr>, \<lambda>p. p\<lparr>alpha := o_alpha ctl\<rparr>, \<lambda>p. p\<lparr>eta := o_eta ctl\<rparr>, \<lambda>p. p\<lparr>MaxEpoch := 1\<rparr>,
        \<lambda>p. p\<lparr>E0 := dlit 1 (10 ^ 6)\<rparr>, \<lambda>p. p\<lparr>p_k := o_p_init ctl\<rparr>, \<lambda>p. p\<lparr>e_k := 0\<rparr>, \<lambda>p. p\<lparr>e_k_1 := 0\<rparr>,
        \<lambda>p. p\<lparr>e_k_2 := 0\<rparr>, \<lambda>p. p\<lparr>kp_k := o_kp_k ctl\<rparr>, \<lambda>p. p\<lparr>ki_k := o_ki_k ctl\<rparr>, \<lambda>p. p\<lparr>kd_k := o_kd_k ctl\<rparr>]
     @ map (init_unit rnd (- dlit 1 1) (dlit 1 1)) [0..<UNIT_NUM]
     @ map (\<lambda>i. on_block (init_samples i)) [0..<SAM_NUM]
     @ map (\<lambda>i. on_block (\<lambda>p. p\<lparr>NetOut := (NetOut p)[i := dlit 0 1]\<rparr>)) [0..<PARTICLE_NUM]
     @ map on_block [\<lambda>p. p\<lparr>e_k := 0\<rparr>, \<lambda>p. p\<lparr>e_k_1 := 0\<rparr>, \<lambda>p. p\<lparr>e_k_2 := 0\<rparr>, pso_constants]
     @ map (init_leader rnd) [0..<UNIT_NUM]
     @ map (init_particle rnd) [1..<PARTICLE_NUM]
     @ map on_block [\<lambda>p. p\<lparr>gbestval := dlit 0 1\<rparr>, \<lambda>p. p\<lparr>gbest_index := 0\<rparr>, \<lambda>p. p\<lparr>Scell_log := o_Scell_log ctl\<rparr>,
         \<lambda>p. p\<lparr>Scell_max := push_bit (unat (o_Scell_log ctl) mod 32) 255\<rparr>, \<lambda>p. p\<lparr>Stab := take RBFGRAD_STAB_SIZE stab\<rparr>]"

definition run_stores :: "'r store list \<Rightarrow> rbfgrad_parms \<times> 'r \<Rightarrow> rbfgrad_parms \<times> 'r" where
  "run_stores fs = fold (\<lambda>f. f) fs"

lemma run_stores_simps [simp]:
  "run_stores [] ps = ps" "run_stores (f # fs) ps = run_stores fs (f ps)"
  "run_stores (fs @ fs') ps = run_stores fs' (run_stores fs ps)"
  by (simp_all add: run_stores_def)

lemma on_block_apply [simp]: "on_block f ps = (f (fst ps), snd ps)"
  by (simp add: on_block_def split_beta)

lemma run_stores_loop:
  "run_stores (map f [a..<b]) ps = for_up a b f ps"
  by (simp add: run_stores_def for_up_def fold_map comp_def)

lemma for_up_on_block: "for_up a b (\<lambda>i. on_block (h i)) ps = (for_up a b h (fst ps), snd ps)"
proof -
  have "fold (\<lambda>i. on_block (h i)) xs ps = (fold h xs (fst ps), snd ps)" for xs
    by (induction xs arbitrary: ps) simp_all
  then show ?thesis by (simp add: for_up_def)
qed

lemma run_set_stores:
  "run_stores (set_stores rnd ctl stab) (p, s) =
     rbfgrad_set_parms rnd p (o_sampl_period ctl) (o_q_ref ctl) (o_p_init ctl) (o_p_min ctl) (o_p_max ctl)
       (o_kp_k ctl) (o_ki_k ctl) (o_kd_k ctl) (o_eta_p ctl) (o_eta_i ctl) (o_eta_d ctl) (o_n ctl) (o_m ctl)
       (o_alpha ctl) (o_eta ctl) (o_Scell_log ctl) stab s"
  by (simp add: set_stores_def run_stores_loop for_up_on_block rbfgrad_set_parms_def init_swarm_def Let_def split_beta del: upt_Suc)

text \<open>The handler is its beginning, its stores and the reset of the trace.\<close>

lemma change_stores:
  "rbfgrad_change env opt (sch, g, s) =
     (case change_begin env opt sch of
        Inl err \<Rightarrow> (err, sch, g, s)
      | Inr (sch', ctl, stab) \<Rightarrow>
          let (p, s') = run_stores (set_stores (random32 env) ctl stab) (parms (priv sch'), s)
          in (0, sch'\<lparr>priv := (priv sch')\<lparr>parms := p\<rparr>\<rparr>, g\<lparr>array_element := 0\<rparr>, s'))"
  by (auto simp: rbfgrad_change_def change_begin_def run_set_stores Let_def split_beta
      split: option.splits sum.splits)

section \<open>The system\<close>

datatype ('c, 'n) event =
    Arrive sk_buff
  | Depart
  | DropReq
  | PeekReq
  | ResetReq
  | ChangeReq "'n option"
  | Store
  | GraftReq "'c option"
  | DumpReq
  | StopReq
  | Ctl

text \<open>Where the holder of the lock is: outside, or in a change with these stores left.\<close>

datatype 'r chg_pc = Quiet | Installing "'r store list"

type_synonym ('c, 'r) sys = "(mp_pc \<times> 'r chg_pc) \<times> 'c Qdisc \<times> module_globals \<times> 'r"

text \<open>The thread is between two updates when it finds out that it should stop.\<close>

definition thread_runs :: "mp_pc \<Rightarrow> module_globals \<Rightarrow> bool" where
  "thread_runs pc g \<longleftrightarrow> tsk_prob g = Running \<or> tsk_prob g = Stopped \<and> pc \<noteq> Idle"

inductive sys_step :: "('c, 'n, 'r) kernel_env \<Rightarrow> ('c, 'n) event \<Rightarrow> ('c, 'r) sys \<Rightarrow> ('c, 'r) sys \<Rightarrow> bool" for env where
  arrive: "rbfgrad_enqueue env skb (sch, g, s) = (ret, sch', g', s') \<Longrightarrow>
    sys_step env (Arrive skb) ((pc, Quiet), sch, g, s) ((pc, Quiet), sch', g', s')"
| depart: "rbfgrad_dequeue env sch = (skb, sch') \<Longrightarrow> sys_step env Depart ((pc, Quiet), sch, g, s) ((pc, Quiet), sch', g, s)"
| drop: "rbfgrad_drop env sch = (len, sch') \<Longrightarrow> sys_step env DropReq ((pc, Quiet), sch, g, s) ((pc, Quiet), sch', g, s)"
| peek: "rbfgrad_peek env sch = (skb, sch') \<Longrightarrow> sys_step env PeekReq ((pc, Quiet), sch, g, s) ((pc, Quiet), sch', g, s)"
| reset: "rbfgrad_reset env (sch, g) = (sch', g') \<Longrightarrow>
    sys_step env ResetReq ((pc, Quiet), sch, g, s) ((pc, Quiet), sch', g', s)"
| change_fails: "change_begin env opt sch = Inl err \<Longrightarrow>
    sys_step env (ChangeReq opt) ((pc, Quiet), sch, g, s) ((pc, Quiet), sch, g, s)"
| change_starts: "change_begin env opt sch = Inr (sch', ctl, stab) \<Longrightarrow>
    sys_step env (ChangeReq opt) ((pc, Quiet), sch, g, s) ((pc, Installing (set_stores (random32 env) ctl stab)), sch', g, s)"
| store: "f (parms (priv sch), s) = (p, s') \<Longrightarrow>
    sys_step env Store ((pc, Installing (f # fs)), sch, g, s)
      ((pc, Installing fs), sch\<lparr>priv := (priv sch)\<lparr>parms := p\<rparr>\<rparr>, g, s')"
| change_ends: "sys_step env Store ((pc, Installing []), sch, g, s) ((pc, Quiet), sch, g\<lparr>array_element := 0\<rparr>, s)"
| graft: "rbfgrad_graft env new sch = (ret, old, sch') \<Longrightarrow>
    sys_step env (GraftReq new) ((pc, Quiet), sch, g, s) ((pc, Quiet), sch', g, s)"
| dump: "rbfgrad_dump env (nla :: u8 list nla_ops) (sch, m) = (ret, sch', m') \<Longrightarrow>
    sys_step env DumpReq ((pc, Quiet), sch, g, s) ((pc, Quiet), sch', g, s)"
| stop: "kthread_stop (tsk_prob g) = Some t \<Longrightarrow> sys_step env StopReq (pcs, sch, g, s) (pcs, sch, g\<lparr>tsk_prob := t\<rparr>, s)"
| ctl: "ctl_step (random32 env) (pc, parms (priv sch), prob_number g, s) = (pc', p, k, s') \<Longrightarrow> thread_runs pc g \<Longrightarrow>
    sys_step env Ctl ((pc, chg), sch, g, s) ((pc', chg), sch\<lparr>priv := (priv sch)\<lparr>parms := p\<rparr>\<rparr>, g\<lparr>prob_number := k\<rparr>, s')"

inductive_cases sys_stepE: "sys_step env l st st'"

text \<open>A change whose stores are not interrupted is the handler.\<close>

lemma exec_stores:
  "run_stores fs (parms (priv sch), s) = (p, s') \<Longrightarrow>
    exec (sys_step env) ((pc, Installing fs), sch, g, s) (replicate (Suc (length fs)) Store)
      ((pc, Quiet), sch\<lparr>priv := (priv sch)\<lparr>parms := p\<rparr>\<rparr>, g\<lparr>array_element := 0\<rparr>, s')"
proof (induction fs arbitrary: sch s)
  case Nil
  then show ?case using exec_step [where step = "sys_step env", OF change_ends exec_nil, of pc sch g s] by auto
next
  case (Cons f fs)
  obtain p1 s1 where f: "f (parms (priv sch), s) = (p1, s1)" by fastforce
  have "run_stores fs (parms (priv (sch\<lparr>priv := (priv sch)\<lparr>parms := p1\<rparr>\<rparr>)), s1) = (p, s')"
    using Cons.prems by (simp add: f)
  from Cons.IH [OF this] show ?case
    using exec_step [where step = "sys_step env", OF store [where f = f, OF f]] by simp
qed

lemma change_uninterrupted:
  assumes "change_begin env opt sch = Inr (sch1, ctl, stab)" "rbfgrad_change env opt (sch, g, s) = (ret, sch', g', s')"
  shows "exec (sys_step env) ((pc, Quiet), sch, g, s)
    (ChangeReq opt # replicate (Suc (length (set_stores (random32 env) ctl stab))) Store) ((pc, Quiet), sch', g', s')"
proof -
  obtain p t where "run_stores (set_stores (random32 env) ctl stab) (parms (priv sch1), s) = (p, t)" by fastforce
  from exec_stores [OF this, of env pc g] show ?thesis
    using assms(2) \<open>run_stores _ _ = _\<close> exec_step [where step = "sys_step env", OF change_starts [OF assms(1)]]
    by (auto simp: change_stores assms(1))
qed

text \<open>The start: a freshly allocated block and the initialisation handler, whatever it returns.\<close>

definition sys_start :: "('c, 'n, 'r) kernel_env \<Rightarrow> 'n option \<Rightarrow> ('c, 'r) sys \<Rightarrow> bool" where
  "sys_start env opt = (\<lambda>(pcs, sch, g, s). pcs = (Idle, Quiet) \<and>
     (\<exists>sch0 g0 s0 ret. parms (priv sch0) = zero_parms \<and> length (queue_show_base g0) = QUEUE_SHOW_MAX \<and>
        rbfgrad_init env opt (sch0, g0, s0) = (ret, sch, g, s)))"

section \<open>Memory safety under interleaving\<close>

definition pc_ok :: "mp_pc \<Rightarrow> bool" where
  "pc_ok pc = (case pc of Epoch l i idx \<Rightarrow> idx < PARTICLE_NUM | Install l idx \<Rightarrow> idx < PARTICLE_NUM | _ \<Rightarrow> True)"

text \<open>Every store a change still has to make keeps a property of the block.\<close>

definition stores_keep :: "(rbfgrad_parms \<Rightarrow> bool) \<Rightarrow> 'r store list \<Rightarrow> bool" where
  "stores_keep P fs \<longleftrightarrow> (\<forall>f \<in> set fs. \<forall>p s. P p \<longrightarrow> P (fst (f (p, s))))"

lemma stores_keep_simps [simp]:
  "stores_keep P []" "stores_keep P (f # fs) \<longleftrightarrow> (\<forall>p s. P p \<longrightarrow> P (fst (f (p, s)))) \<and> stores_keep P fs"
  "stores_keep P (fs @ fs') \<longleftrightarrow> stores_keep P fs \<and> stores_keep P fs'"
  "stores_keep P (map h xs) \<longleftrightarrow> (\<forall>x \<in> set xs. \<forall>p s. P p \<longrightarrow> P (fst (h x (p, s))))"
  by (auto simp: stores_keep_def)

definition chg_ok :: "(rbfgrad_parms \<Rightarrow> bool) \<Rightarrow> 'r chg_pc \<Rightarrow> bool" where
  "chg_ok P chg = (case chg of Quiet \<Rightarrow> True | Installing fs \<Rightarrow> stores_keep P fs)"

lemma chg_ok_simps [simp]: "chg_ok P Quiet" "chg_ok P (Installing fs) = stores_keep P fs"
  by (simp_all add: chg_ok_def)

text \<open>What the stores into the arrays leave alone, seen through an observation of other fields.\<close>

lemma init_store_frames:
  assumes "\<And>q a b c d e f. v (q\<lparr>w_k := a, w_k_1 := b, c_k := c, c_k_1 := d, delta_k := e, delta_k_1 := f\<rparr>) = v q"
    and "\<And>q a b. v (q\<lparr>pos := a, vel := b\<rparr>) = v q"
  shows "v (fst (init_unit rnd lo hi i (p, s))) = v p"
    and "v (fst (init_leader rnd i (p, s))) = v p"
    and "v (fst (init_particle rnd i (p, s))) = v p"
proof -
  have c: "v (q\<lparr>c_k := a, c_k_1 := b\<rparr>) = v q" for q a b using assms(1) [where q = q and a = "w_k q" and b = "w_k_1 q" and c = a and d = b and e = "delta_k q" and f = "delta_k_1 q"] by simp
  have w: "v (q\<lparr>w_k := a, w_k_1 := b\<rparr>) = v q" for q a b using assms(1) [where q = q and a = a and b = b and c = "c_k q" and d = "c_k_1 q" and e = "delta_k q" and f = "delta_k_1 q"] by simp
  have d: "v (q\<lparr>delta_k := a, delta_k_1 := b\<rparr>) = v q" for q a b using assms(1) [where q = q and a = "w_k q" and b = "w_k_1 q" and c = "c_k q" and d = "c_k_1 q" and e = a and f = b] by simp
  show "v (fst (init_unit rnd lo hi i (p, s))) = v p"
    by (simp add: init_unit_def Let_def split_beta c d w for_up_frame [where v = v])
  show "v (fst (init_leader rnd i (p, s))) = v p"
    by (simp add: init_leader_def Let_def split_beta assms(2))
  show "v (fst (init_particle rnd i (p, s))) = v p"
    using for_up_frame [where v = "\<lambda>x. v (fst x)" and s = "(p, s)"]
    by (simp add: init_particle_def Let_def split_beta assms(2))
qed

lemma init_store_wf:
  "parms_wf p \<Longrightarrow> parms_wf (fst (init_unit rnd lo hi i (p, s)))"
  "parms_wf p \<Longrightarrow> parms_wf (fst (init_leader rnd i (p, s)))"
  "parms_wf p \<Longrightarrow> parms_wf (fst (init_particle rnd i (p, s)))"
proof -
  show "parms_wf p \<Longrightarrow> parms_wf (fst (init_unit rnd lo hi i (p, s)))"
    using init_unit_wf [of "(p, s)"] by simp
  show "parms_wf p \<Longrightarrow> parms_wf (fst (init_leader rnd i (p, s)))"
    by (simp add: init_leader_def Let_def split_beta parms_wf_def)
  show "parms_wf p \<Longrightarrow> parms_wf (fst (init_particle rnd i (p, s)))"
    unfolding init_particle_def
    by (rule for_up_keeps [where P = "\<lambda>x. parms_wf (fst x)"]) (auto simp: Let_def split_beta parms_wf_def)
qed

lemma set_stores_safe: "stores_keep block_ok (set_stores rnd ctl stab)"
proof -
  have "gbest_index (fst (init_unit rnd lo hi i (p, s))) = gbest_index p"
    "gbest_index (fst (init_leader rnd i (p, s))) = gbest_index p"
    "gbest_index (fst (init_particle rnd i (p, s))) = gbest_index p" for lo hi i p s
    by (rule init_store_frames; simp)+
  then have "stores_keep block_ok (map (init_unit rnd (- dlit 1 1) (dlit 1 1)) [0..<UNIT_NUM])"
    "stores_keep block_ok (map (init_leader rnd) [0..<UNIT_NUM])"
    "stores_keep block_ok (map (init_particle rnd) [1..<PARTICLE_NUM])"
    by (simp_all add: block_ok_def init_store_wf)
  then show ?thesis
    unfolding set_stores_def
    by (simp add: block_ok_def parms_wf_def init_samples_def pso_constants_def PARTICLE_NUM_def)
qed

definition sys_safe :: "('c, 'r) sys \<Rightarrow> bool" where
  "sys_safe = (\<lambda>((pc, chg), st). pc_ok pc \<and> chg_ok block_ok chg \<and> module_ok st)"

lemma eval_swarm_wf: "parms_wf p \<Longrightarrow> parms_wf (for_up 0 PARTICLE_NUM eval_particle p)"
proof (rule for_up_keeps)
  show "parms_wf (eval_particle j q)" if "j < PARTICLE_NUM" "parms_wf q" for j q
    using that by (auto simp: eval_particle_eq Let_def parms_wf_def)
qed

lemma find_gbest_wf:
  assumes "parms_wf p"
  shows "parms_wf (fst (find_gbest p)) \<and> snd (find_gbest p) < PARTICLE_NUM"
  using assms by (cases rule: find_gbest_spec [OF assms]) (auto simp: parms_wf_def)

lemma pso_epoch_wf:
  assumes "parms_wf p"
  shows "parms_wf (fst (pso_epoch rnd l i (p, idx, s))) \<and> fst (snd (pso_epoch rnd l i (p, idx, s))) < PARTICLE_NUM"
proof -
  define e where "e = for_up 0 PARTICLE_NUM eval_particle p"
  have f: "parms_wf (fst (find_gbest e))" "snd (find_gbest e) < PARTICLE_NUM"
    using find_gbest_wf [OF eval_swarm_wf [OF assms]] by (simp_all add: e_def)
  show ?thesis
    using move_swarm_inv(1) [OF f(1)] f(2) by (simp add: pso_epoch_def Let_def split_beta flip: e_def)
qed

lemma pso_start_wf:
  "parms_wf p \<Longrightarrow> parms_wf (fst (pso_start p)) \<and> snd (pso_start p) < PARTICLE_NUM"
  using pso_start_inv(1) [of p] by (simp add: best_chosen_def swarm_inv_def)

text \<open>The index of the best particle is written by the install phase only.\<close>

lemma gbest_index_frames:
  "gbest_index (mp_load p) = gbest_index p" "gbest_index (fst (pso_start p)) = gbest_index p"
  "gbest_index (fst (pso_epoch rnd l i (p, idx, s))) = gbest_index p"
  "gbest_index (mp_adapt l p) = gbest_index p" "gbest_index (mp_update l p) = gbest_index p"
proof -
  have j: "gbest_index (mp_jacobian q) = gbest_index q" for q by (rule mp_jacobian_sel) simp
  show "gbest_index (mp_load p) = gbest_index p" using mp_load_sel [of gbest_index p] by simp
  have fg: "gbest_index (fst (find_gbest q)) = gbest_index q" for q
  proof -
    have "gbest_index (fst (for_up 0 PARTICLE_NUM (\<lambda>j (p, index).
        if pbestval p ! j < gbestval p then (p\<lparr>gbestval := pbestval p ! j\<rparr>, j) else (p, index)) (q, i))) = gbest_index q" for q :: rbfgrad_parms and i
      by (subst for_up_frame [where v = "\<lambda>x. gbest_index (fst x)"]) (auto split: prod.splits)
    then show ?thesis by (simp add: find_gbest_def split_beta for_up_frame [where v = gbest_index])
  qed
  have sse: "gbest_index (snd (get_rbf_SSE q i)) = gbest_index q" for q i
    by (simp add: get_rbf_SSE_def Let_def for_up_frame [where v = gbest_index])
  then show "gbest_index (fst (pso_start p)) = gbest_index p"
    by (simp add: pso_start_def Let_def fg split_beta for_up_frame [where v = gbest_index])
  have ev: "gbest_index (eval_particle i q) = gbest_index q" for q i
    using sse by (simp add: eval_particle_def split_beta for_up_frame [where v = gbest_index])
  have mv: "gbest_index (fst (move_particle rnd l w i qs)) = gbest_index (fst qs)" for w i qs
    by (simp add: move_particle_def split_beta for_up_frame [where v = gbest_index]
        for_up_frame [where v = "\<lambda>x. gbest_index (fst x)"] move_velocity_def Let_def)
  show "gbest_index (fst (pso_epoch rnd l i (p, idx, s))) = gbest_index p"
    by (simp add: pso_epoch_def Let_def split_beta for_up_frame [where v = "\<lambda>x. gbest_index (fst x)"] mv fg
        for_up_frame [where v = gbest_index] ev)
  show "gbest_index (mp_adapt l p) = gbest_index p" "gbest_index (mp_update l p) = gbest_index p"
    by (simp_all add: mp_adapt_def mp_gains_def mp_update_def Let_def j)
qed

lemma adapt_update_wf: "parms_wf p \<Longrightarrow> parms_wf (mp_adapt l p)" "parms_wf p \<Longrightarrow> parms_wf (mp_update l p)"
proof -
  have "parms_wf (mp_jacobian q) = parms_wf q" for q by (rule mp_jacobian_sel) (simp add: parms_wf_def)
  then show "parms_wf p \<Longrightarrow> parms_wf (mp_adapt l p)" "parms_wf p \<Longrightarrow> parms_wf (mp_update l p)"
    by (simp_all add: mp_adapt_def mp_gains_def mp_update_def Let_def parms_wf_def)
qed

lemma ctl_step_safe:
  assumes "pc_ok pc" "block_ok p" "ctl_step rnd (pc, p, k, s) = (pc', p', k', s')"
  shows "pc_ok pc' \<and> block_ok p'"
proof (cases pc)
  case Idle
  then show ?thesis using assms mp_load_wf by (auto simp: pc_ok_def block_ok_def gbest_index_frames)
next
  case (Start l)
  then show ?thesis
    using assms pso_start_wf [of p] gbest_index_frames(2) [of p] by (auto simp: pc_ok_def block_ok_def split_beta)
next
  case (Epoch l i idx)
  then show ?thesis
    using assms pso_epoch_wf [of p rnd l i idx s] gbest_index_frames(3) [of rnd l i p idx s]
    by (auto simp: pc_ok_def block_ok_def split_beta split: if_splits)
next
  case (Install l idx)
  have "unat (word_of_nat idx :: s32) = idx" if "idx < PARTICLE_NUM"
    using that by (simp add: unsigned_of_nat take_bit_nat_eq_self PARTICLE_NUM_def)
  moreover have "parms_wf (for_up 0 UNIT_NUM (\<lambda>j p. p\<lparr>w_k := (w_k p)[j := gbest p ! j]\<rparr>) p)"
    by (rule for_up_keeps) (use assms(2) in \<open>simp_all add: block_ok_def parms_wf_def\<close>)
  ultimately show ?thesis
    using Install assms by (auto simp: pc_ok_def block_ok_def parms_wf_def)
next
  case (Adapt l)
  then show ?thesis using assms by (auto simp: pc_ok_def block_ok_def gbest_index_frames adapt_update_wf)
next
  case (Update l)
  then show ?thesis using assms by (auto simp: pc_ok_def block_ok_def gbest_index_frames adapt_update_wf)
qed (use assms in \<open>auto simp: pc_ok_def block_ok_def parms_wf_def\<close>)

lemma change_begin_parms:
  "change_begin env opt sch = Inr (sch', ctl, stab) \<Longrightarrow> parms (priv sch') = parms (priv sch)"
  by (auto simp: change_begin_def Let_def split: option.splits sum.splits if_splits)

lemma sys_step_safe:
  assumes "sys_safe st" "sys_step env l st st'"
  shows "sys_safe st'"
  using assms(2,1)
proof (cases rule: sys_step.cases)
  case (arrive skb sch g s ret sch' g' s' pc)
  then show ?thesis using assms(1) enqueue_module_ok [of "(sch, g, s)"] by (auto simp: sys_safe_def)
next
  case (change_starts opt sch sch' ctl stab pc g s)
  then show ?thesis
    using assms(1) change_begin_parms [OF change_starts(4)] set_stores_safe by (auto simp: sys_safe_def module_ok_def)
next
  case (store f sch s p s' pc fs g)
  have "block_ok (fst (f (parms (priv sch), s)))" "stores_keep block_ok fs" "log_ok g" "pc_ok pc"
    using assms(1) store(2) by (auto simp: sys_safe_def module_ok_def)
  then show ?thesis by (simp add: store(3,4) sys_safe_def module_ok_def)
next
  case (ctl pc sch g s pc' p k s' chg)
  have "pc_ok pc" "block_ok (parms (priv sch))" "log_ok g" "chg_ok block_ok chg"
    using assms(1) ctl(2) by (simp_all add: sys_safe_def module_ok_def)
  with ctl_step_safe [OF this(1,2) ctl(4)] show ?thesis
    by (simp add: ctl(3) sys_safe_def module_ok_def log_ok_def)
qed (use assms(1) in \<open>auto simp: sys_safe_def module_ok_def log_ok_def rbfgrad_dequeue_def rbfgrad_drop_def rbfgrad_peek_def
    rbfgrad_reset_def rbfgrad_restart_def rbfgrad_graft_def rbfgrad_dump_def QUEUE_SHOW_MAX_def Let_def split_beta
    split: option.splits if_splits\<close>)

lemma sys_start_safe:
  assumes "sys_start env opt st"
  shows "sys_safe st"
proof -
  obtain sch g s where st: "st = ((Idle, Quiet), sch, g, s)" using assms by (cases st) (auto simp: sys_start_def)
  obtain sch0 g0 s0 ret where i: "parms (priv sch0) = zero_parms" "length (queue_show_base g0) = QUEUE_SHOW_MAX"
    "rbfgrad_init env opt (sch0, g0, s0) = (ret, sch, g, s)"
    using assms by (auto simp: st sys_start_def)
  let ?g = "g0\<lparr>array_element := 0, cyc_count := 0, prob_number := 0, pkg_number := 0\<rparr>"
  let ?sch = "sch0\<lparr>priv := (priv sch0)\<lparr>qdisc := noop_qdisc env\<rparr>\<rparr>"
  obtain sch1 g1 s1 where c: "rbfgrad_change env opt (?sch, ?g, s0) = (ret, sch1, g1, s1)"
    "sch = sch1" "g = g1\<lparr>tsk_prob := task_of (kthread_run env Prob_Thread),
      tsk_stop_prob := task_of (kthread_run env Stop_Prob_Thread)\<rparr>" "s = s1"
    using i(3) by (auto simp: rbfgrad_init_def Let_def split_beta prod_eq_iff)
  have "unat (gbest_index zero_parms) < PARTICLE_NUM" by (simp add: zero_parms_def PARTICLE_NUM_def)
  then have "module_ok (?sch, ?g, s0)"
    using i(1,2) by (simp add: module_ok_def block_ok_def log_ok_def QUEUE_SHOW_MAX_def CYC_MAX_def)
  then have "module_ok (sch1, g1, s1)" using c(1) by (rule change_module_ok)
  then show ?thesis using c by (simp add: st sys_safe_def pc_ok_def module_ok_def log_ok_def)
qed

interpretation safe: inductive_invariant "sys_start env opt" "sys_step env" sys_safe
  by unfold_locales (auto intro: sys_start_safe sys_step_safe)

text \<open>
  C1: memory safety under every interleaving. From the initialisation of a freshly allocated
  discipline, in every state reached by any sequence of arrivals, departures, drops, peeks,
  resets, grafts, dumps, single stores of changes and controller phases, the arrays of the block have their
  sizes, the index of the best particle is below the number of particles, the trace index is
  inside the trace and the packet counter is below its period.
\<close>

theorem system_memory_safe:
  assumes "sys_start env opt st" "exec (sys_step env) st ls (pc, sch, g, s)"
  shows "parms_wf (parms (priv sch)) \<and> unat (gbest_index (parms (priv sch))) < PARTICLE_NUM \<and>
    length (queue_show_base g) = QUEUE_SHOW_MAX \<and> 0 \<le> sint (array_element g) \<and>
    sint (array_element g) < int QUEUE_SHOW_MAX \<and> 0 \<le> sint (cyc_count g) \<and> sint (cyc_count g) < sint CYC_MAX"
  using safe.reachable_inv [OF assms] by (cases pc) (simp add: sys_safe_def module_ok_def block_ok_def log_ok_def)

section \<open>The range of the probability under interleaving\<close>

text \<open>The interval of every configuration: no NaN, and between \<open>lo\<close> and \<open>hi\<close>.\<close>

definition in_range :: "double \<Rightarrow> double \<Rightarrow> double \<Rightarrow> bool" where
  "in_range lo hi x \<longleftrightarrow> lo \<le> x \<and> x \<le> hi"

definition block_within :: "double \<Rightarrow> double \<Rightarrow> rbfgrad_parms \<Rightarrow> bool" where
  "block_within lo hi p \<longleftrightarrow> in_range lo hi (p_init p) \<and> in_range lo hi (p_min p) \<and> in_range lo hi (p_max p)"

definition config_ok :: "double \<Rightarrow> double \<Rightarrow> ('c, 'n, 'r) kernel_env \<Rightarrow> 'n option \<Rightarrow> bool" where
  "config_ok lo hi env opt \<longleftrightarrow> (\<forall>nla ctl stab. opt = Some nla \<longrightarrow> nla_parse_nested env nla = Inr (Some ctl, Some stab) \<longrightarrow>
     in_range lo hi (o_p_init ctl) \<and> in_range lo hi (o_p_min ctl) \<and> in_range lo hi (o_p_max ctl))"

definition event_ok :: "double \<Rightarrow> double \<Rightarrow> ('c, 'n, 'r) kernel_env \<Rightarrow> ('c, 'n) event \<Rightarrow> bool" where
  "event_ok lo hi env l = (case l of ChangeReq opt \<Rightarrow> config_ok lo hi env opt | _ \<Rightarrow> True)"

text \<open>The controller between the assignment of the new probability and the end of its clamp.\<close>

definition clamping :: "mp_pc \<Rightarrow> bool" where
  "clamping pc = (case pc of TestMax \<Rightarrow> True | CmpMax _ \<Rightarrow> True | LoadMax \<Rightarrow> True | StoreMax _ \<Rightarrow> True
     | TestMin \<Rightarrow> True | CmpMin _ \<Rightarrow> True | LoadMin \<Rightarrow> True | StoreMin _ \<Rightarrow> True | _ \<Rightarrow> False)"

text \<open>
  What holds of \<open>p_k\<close> at every position: nothing before the upper bound is applied, then that
  it is not above, then that it is in the interval. A value the controller has loaded is the
  one in memory unless a change has stored its own in between.
\<close>

definition below :: "double \<Rightarrow> double \<Rightarrow> bool" where
  "below hi x \<longleftrightarrow> is_nan x \<or> x \<le> hi"

definition prob_within :: "double \<Rightarrow> double \<Rightarrow> double \<Rightarrow> bool" where
  "prob_within lo hi x \<longleftrightarrow> is_nan x \<or> in_range lo hi x"

fun clamp_inv :: "double \<Rightarrow> double \<Rightarrow> mp_pc \<Rightarrow> double \<Rightarrow> bool" where
  "clamp_inv lo hi TestMax x = True"
| "clamp_inv lo hi (CmpMax v) x = (x = v \<or> in_range lo hi x)"
| "clamp_inv lo hi LoadMax x = True"
| "clamp_inv lo hi (StoreMax v) x = in_range lo hi v"
| "clamp_inv lo hi TestMin x = below hi x"
| "clamp_inv lo hi (CmpMin v) x = (x = v \<and> below hi x \<or> in_range lo hi x)"
| "clamp_inv lo hi LoadMin x = below hi x"
| "clamp_inv lo hi (StoreMin v) x = in_range lo hi v"
| "clamp_inv lo hi pc x = prob_within lo hi x"

lemma clamp_inv_within: "in_range lo hi x \<Longrightarrow> clamp_inv lo hi pc y \<Longrightarrow> clamp_inv lo hi pc x"
  by (cases pc) (simp_all add: in_range_def below_def prob_within_def)

lemma clamp_inv_outside: "\<not> clamping pc \<Longrightarrow> clamp_inv lo hi pc x = prob_within lo hi x"
  by (cases pc) (simp_all add: clamping_def)

definition bounds :: "rbfgrad_parms \<Rightarrow> double \<times> double \<times> double \<times> double" where
  "bounds p = (p_init p, p_min p, p_max p, p_k p)"

lemma boundsD: "bounds q = bounds p \<Longrightarrow> block_within lo hi q = block_within lo hi p \<and> p_k q = p_k p"
  by (simp add: bounds_def block_within_def)

text \<open>The stores of a sound configuration: they keep the interval, and write \<open>p_k\<close> inside it or not at all.\<close>

definition store_within :: "double \<Rightarrow> double \<Rightarrow> 'r store \<Rightarrow> bool" where
  "store_within lo hi f \<longleftrightarrow> (\<forall>p s. block_within lo hi p \<longrightarrow> block_within lo hi (fst (f (p, s))) \<and>
     (p_k (fst (f (p, s))) = p_k p \<or> in_range lo hi (p_k (fst (f (p, s))))))"

definition chg_within :: "double \<Rightarrow> double \<Rightarrow> 'r chg_pc \<Rightarrow> bool" where
  "chg_within lo hi chg = (case chg of Quiet \<Rightarrow> True | Installing fs \<Rightarrow> \<forall>f \<in> set fs. store_within lo hi f)"

lemma chg_within_simps [simp]:
  "chg_within lo hi Quiet" "chg_within lo hi (Installing fs) = (\<forall>f \<in> set fs. store_within lo hi f)"
  by (simp_all add: chg_within_def)

lemma store_within_frame: "(\<And>p s. bounds (fst (f (p, s))) = bounds p) \<Longrightarrow> store_within lo hi f"
  unfolding store_within_def using boundsD by blast

lemma store_within_block:
  "(\<And>p. block_within lo hi p \<Longrightarrow> block_within lo hi (h p)) \<Longrightarrow> (\<And>p. p_k (h p) = p_k p \<or> in_range lo hi (p_k (h p))) \<Longrightarrow>
    store_within lo hi (on_block h)"
  by (auto simp: store_within_def)

lemma set_stores_within:
  fixes rnd :: "'r random_source"
  assumes "in_range lo hi (o_p_init ctl)" "in_range lo hi (o_p_min ctl)" "in_range lo hi (o_p_max ctl)"
    "f \<in> set (set_stores rnd ctl stab)"
  shows "store_within lo hi f"
proof -
  have "bounds (fst (init_unit rnd a b i (p, s))) = bounds p" "bounds (fst (init_leader rnd i (p, s))) = bounds p"
    "bounds (fst (init_particle rnd i (p, s))) = bounds p" for a b i p s
    by (rule init_store_frames; simp add: bounds_def)+
  then have a: "store_within lo hi (init_unit rnd a b i)" "store_within lo hi (init_leader rnd i)"
    "store_within lo hi (init_particle rnd i)" for a b i
    by (simp_all add: store_within_frame)
  have b: "\<forall>f \<in> set (map on_block hs). store_within lo hi f"
    if "\<forall>h \<in> set hs. \<forall>p. (block_within lo hi p \<longrightarrow> block_within lo hi (h p)) \<and> (p_k (h p) = p_k p \<or> in_range lo hi (p_k (h p)))"
    for hs
    using that by (auto intro!: store_within_block)
  have c: "store_within lo hi (on_block (init_samples i) :: 'r store)"
    "store_within lo hi (on_block (\<lambda>p. p\<lparr>NetOut := (NetOut p)[i := dlit 0 1]\<rparr>) :: 'r store)" for i
    by (rule store_within_frame; simp add: bounds_def init_samples_def)+
  have "\<forall>f \<in> set (set_stores rnd ctl stab). store_within lo hi f"
    unfolding set_stores_def set_append ball_Un
    by (intro conjI b) (use assms(1-3) a c in \<open>simp_all add: block_within_def pso_constants_def\<close>)
  with assms(4) show ?thesis by blast
qed

definition sys_range :: "double \<Rightarrow> double \<Rightarrow> ('c, 'r) sys \<Rightarrow> bool" where
  "sys_range lo hi = (\<lambda>((pc, chg), sch, g, s). block_within lo hi (parms (priv sch)) \<and> chg_within lo hi chg \<and>
     clamp_inv lo hi pc (p_k (parms (priv sch))))"

lemma bounds_frames:
  "bounds (mp_load p) = bounds p" "bounds (fst (pso_start p)) = bounds p"
  "bounds (fst (pso_epoch rnd l i (p, idx, s))) = bounds p"
  "bounds (for_up 0 UNIT_NUM (\<lambda>j p. p\<lparr>w_k := (w_k p)[j := gbest p ! j]\<rparr>) p) = bounds p"
  "bounds (mp_adapt l p) = bounds p" "bounds (shift_history len p) = bounds p"
proof -
  have t: "bounds (erase_training q) = bounds q" for q by (simp add: bounds_def erase_training_def)
  show "bounds (mp_load p) = bounds p" using mp_load_sel [of bounds p] by (simp add: bounds_def)
  show "bounds (fst (pso_start p)) = bounds p" using arg_cong [OF erase_training_start [of p], of bounds] by (simp add: t)
  show "bounds (fst (pso_epoch rnd l i (p, idx, s))) = bounds p"
    using arg_cong [OF erase_training_epoch [of rnd l i "(p, idx, s)"], of bounds] by (simp add: t)
  show "bounds (for_up 0 UNIT_NUM (\<lambda>j p. p\<lparr>w_k := (w_k p)[j := gbest p ! j]\<rparr>) p) = bounds p"
    by (rule for_up_frame) (simp add: bounds_def)
  have "bounds (mp_jacobian q) = bounds q" for q by (rule mp_jacobian_sel) (simp add: bounds_def)
  then show "bounds (mp_adapt l p) = bounds p" by (simp add: mp_adapt_def mp_gains_def Let_def bounds_def)
  show "bounds (shift_history len p) = bounds p" by (rule shift_history_sel) (simp add: bounds_def erase_history_def)
qed

lemma enqueue_bounds:
  assumes "rbfgrad_enqueue env skb (sch, g, s) = (ret, sch', g', s')"
  shows "bounds (parms (priv sch')) = bounds (parms (priv sch))"
  using arg_cong [OF enqueue_block(1) [OF assms], of fst] bounds_frames(6)
  by (simp add: record_queue_def Let_def split: if_splits)

text \<open>A step of the controller: the training phases leave the bounds alone, the clamp applies them.\<close>

lemma ctl_step_within:
  assumes "ctl_step rnd (pc, p, k, s) = (pc', p', k', s')" "block_within lo hi p" "clamp_inv lo hi pc (p_k p)"
  shows "block_within lo hi p' \<and> clamp_inv lo hi pc' (p_k p')"
proof -
  have same: ?thesis if "bounds p' = bounds p" "clamp_inv lo hi pc' (p_k p)"
    using that boundsD [OF that(1)] assms(2) by simp
  have mx: "below hi v" if "\<not> p_max p < v" for v
    using that assms(2) dord.not_lt [of "p_max p" v] dord.le_ok [of "p_max p" hi] dord.le_trans [of v "p_max p" hi]
    by (auto simp: block_within_def in_range_def below_def)
  have mn: "prob_within lo hi v" if "\<not> v < p_min p" "below hi v" for v
    using that assms(2) dord.not_lt [of v "p_min p"] dord.le_ok [of lo "p_min p"] dord.le_trans [of lo "p_min p" v]
    by (auto simp: block_within_def in_range_def below_def prob_within_def)
  show ?thesis
  proof (cases pc)
    case (Epoch l i idx)
    then show ?thesis
      using assms bounds_frames(3) [of rnd l i p idx s] by (intro same) (auto simp: split_beta split: if_splits)
  next
    case (Install l idx)
    then show ?thesis
      using assms bounds_frames(4) [of p] by (intro same) (auto simp: bounds_def)
  next
    case (Update l)
    then show ?thesis using assms by (auto simp: mp_update_def Let_def block_within_def)
  next
    case (CmpMax v)
    then show ?thesis
      using assms mx [of v] by (auto simp: in_range_def below_def)
  next
    case (CmpMin v)
    then show ?thesis
      using assms mn [of v] by (auto simp: in_range_def below_def prob_within_def)
  next
    case Idle
    then show ?thesis using assms bounds_frames(1) [of p] by (intro same) auto
  next
    case (Start l)
    then show ?thesis using assms bounds_frames(2) [of p] by (intro same) (auto simp: split_beta)
  next
    case (Adapt l)
    then show ?thesis using assms bounds_frames(5) [of l p] by (intro same) auto
  qed (use assms in \<open>auto simp: block_within_def in_range_def below_def prob_within_def\<close>)
qed

lemma change_begin_options:
  assumes "change_begin env opt sch = Inr (sch', ctl, stab)"
  obtains nla stab' where "opt = Some nla" "nla_parse_nested env nla = Inr (Some ctl, Some stab')"
  using assms by (auto simp: change_begin_def Let_def split: option.splits sum.splits if_splits)

lemma quiet_handlers:
  "parms (priv (snd (rbfgrad_dequeue env sch))) = parms (priv sch)"
  "parms (priv (snd (rbfgrad_drop env sch))) = parms (priv sch)"
  "parms (priv (snd (rbfgrad_peek env sch))) = parms (priv sch)"
  "parms (priv (fst (rbfgrad_reset env (sch, g)))) = parms (priv sch)"
  "parms (priv (snd (snd (rbfgrad_graft env new sch)))) = parms (priv sch)"
  "parms (priv (fst (snd (rbfgrad_dump env nla (sch, m))))) = parms (priv sch)"
  by (simp_all add: rbfgrad_dequeue_def rbfgrad_drop_def rbfgrad_peek_def rbfgrad_reset_def rbfgrad_restart_def
      rbfgrad_graft_def rbfgrad_dump_def Let_def split_beta split: option.splits)

lemma sys_range_cong:
  "bounds (parms (priv sch')) = bounds (parms (priv sch)) \<Longrightarrow>
    sys_range lo hi ((pc, chg), sch, g, s) \<Longrightarrow> sys_range lo hi ((pc, chg), sch', g', s')"
  using boundsD [of "parms (priv sch')" "parms (priv sch)" lo hi] by (simp add: sys_range_def)

lemma sys_step_range:
  assumes "sys_range lo hi st" "sys_step env l st st'" "event_ok lo hi env l"
  shows "sys_range lo hi st'"
  using assms(2)
proof (cases rule: sys_step.cases)
  case (arrive skb sch g s ret sch' g' s' pc)
  then show ?thesis using assms(1) enqueue_bounds [OF arrive(4)] sys_range_cong by metis
next
  case (change_starts opt sch sch' ctl stab pc g s)
  obtain nla stab' where o: "opt = Some nla" "nla_parse_nested env nla = Inr (Some ctl, Some stab')"
    using change_begin_options [OF change_starts(4)] .
  then have "in_range lo hi (o_p_init ctl)" "in_range lo hi (o_p_min ctl)" "in_range lo hi (o_p_max ctl)"
    using assms(3) change_starts(1) by (auto simp: event_ok_def config_ok_def)
  then have "chg_within lo hi (Installing (set_stores (random32 env) ctl stab))"
    using set_stores_within [of lo hi ctl _ "random32 env" stab] by simp
  then show ?thesis
    using assms(1) change_begin_parms [OF change_starts(4)] by (simp add: change_starts(2,3) sys_range_def)
next
  case (store f sch s p s' pc fs g)
  have "block_within lo hi (parms (priv sch))" "store_within lo hi f" "\<forall>f \<in> set fs. store_within lo hi f"
    "clamp_inv lo hi pc (p_k (parms (priv sch)))"
    using assms(1) by (simp_all add: store(2) sys_range_def)
  then show ?thesis
    using clamp_inv_within [of lo hi "p_k p" pc] store(4)
    by (auto simp: store(3) sys_range_def store_within_def dest!: spec [of _ "parms (priv sch)"] spec [of _ s])
next
  case (ctl pc sch g s pc' p k s' chg)
  then show ?thesis
    using assms(1) ctl_step_within [OF ctl(4)] by (simp add: sys_range_def)
next
  case (depart sch skb sch' pc g s)
  then show ?thesis using assms(1) quiet_handlers(1) [of env sch] sys_range_cong by (metis snd_conv)
next
  case (drop sch len sch' pc g s)
  then show ?thesis using assms(1) quiet_handlers(2) [of env sch] sys_range_cong by (metis snd_conv)
next
  case (peek sch skb sch' pc g s)
  then show ?thesis using assms(1) quiet_handlers(3) [of env sch] sys_range_cong by (metis snd_conv)
next
  case (reset sch g sch' g' pc s)
  then show ?thesis using assms(1) quiet_handlers(4) [of env sch g] sys_range_cong by (metis fst_conv)
next
  case (graft new sch ret old sch' pc g s)
  then show ?thesis using assms(1) quiet_handlers(5) [of env new sch] sys_range_cong by (metis snd_conv)
next
  case (dump nla sch m ret sch' m' pc g s)
  then show ?thesis using assms(1) quiet_handlers(6) [of env nla sch m] sys_range_cong by (metis fst_conv snd_conv)
next
  case (stop g t pcs sch s)
  then show ?thesis using assms(1) by (cases pcs) (simp add: sys_range_def)
qed (use assms(1) in \<open>simp_all add: sys_range_def\<close>)

lemma set_parms_bounds:
  "bounds (fst (rbfgrad_set_parms rnd p period ref init mn mx kp ki kd etap etai etad n m al et slog stab s)) = (init, mn, mx, init)"
proof -
  have "bounds (fst (set_arrays rnd (q, s))) = bounds q" for q
    using set_arrays_scalars [of bounds rnd q s]
    by (simp add: bounds_def erase_arrays_def erase_swarm_def erase_samples_def erase_units_def pso_constants_def)
  then show ?thesis unfolding set_parms_phases by (simp add: bounds_def set_scalars_def)
qed

text \<open>After initialisation the probability is the initial one, whether the options were accepted or not.\<close>

lemma sys_start_prob:
  assumes "sys_start env opt (pcs, sch, g, s)"
  shows "pcs = (Idle, Quiet) \<and> p_k (parms (priv sch)) = p_init (parms (priv sch))"
proof -
  obtain sch0 g0 s0 ret where i: "parms (priv sch0) = zero_parms" "rbfgrad_init env opt (sch0, g0, s0) = (ret, sch, g, s)"
    "pcs = (Idle, Quiet)"
    using assms by (auto simp: sys_start_def)
  let ?g = "g0\<lparr>array_element := 0, cyc_count := 0, prob_number := 0, pkg_number := 0\<rparr>"
  let ?sch = "sch0\<lparr>priv := (priv sch0)\<lparr>qdisc := noop_qdisc env\<rparr>\<rparr>"
  obtain g1 where c: "rbfgrad_change env opt (?sch, ?g, s0) = (ret, sch, g1, s)"
    using i(2) by (auto simp: rbfgrad_init_def Let_def split_beta prod_eq_iff)
  show ?thesis
  proof (cases "change_begin env opt ?sch")
    case (Inl err)
    then show ?thesis using c i(1,3) by (auto simp: change_stores zero_parms_def)
  next
    case (Inr r)
    obtain sch' ctl stab where r: "r = (sch', ctl, stab)" by (cases r)
    have "bounds (parms (priv sch)) = (o_p_init ctl, o_p_min ctl, o_p_max ctl, o_p_init ctl)"
      using c by (auto simp: change_stores Inr r run_set_stores set_parms_bounds Let_def split_beta)
    then show ?thesis using i(3) by (simp add: bounds_def)
  qed
qed

text \<open>Executions all of whose configurations lie in the interval.\<close>

definition sound_step :: "double \<Rightarrow> double \<Rightarrow> ('c, 'n, 'r) kernel_env \<Rightarrow> ('c, 'n) event \<Rightarrow> ('c, 'r) sys \<Rightarrow> ('c, 'r) sys \<Rightarrow> bool" where
  "sound_step lo hi env l st st' \<longleftrightarrow> sys_step env l st st' \<and> event_ok lo hi env l"

definition sound_start :: "double \<Rightarrow> double \<Rightarrow> ('c, 'n, 'r) kernel_env \<Rightarrow> 'n option \<Rightarrow> ('c, 'r) sys \<Rightarrow> bool" where
  "sound_start lo hi env opt st \<longleftrightarrow> sys_start env opt st \<and> block_within lo hi (parms (priv (fst (snd st))))"

lemma sound_start_range:
  assumes "sound_start lo hi env opt st"
  shows "sys_range lo hi st"
proof -
  obtain pcs sch g s where st: "st = (pcs, sch, g, s)" by (cases st)
  have "sys_start env opt (pcs, sch, g, s)" "block_within lo hi (parms (priv sch))"
    using assms by (simp_all add: st sound_start_def)
  with sys_start_prob [OF this(1)] show ?thesis
    by (simp add: st sys_range_def prob_within_def block_within_def)
qed

interpretation range_inv: inductive_invariant "sound_start lo hi env opt" "sound_step lo hi env" "sys_range lo hi"
  by unfold_locales (auto simp: sound_step_def intro: sound_start_range sys_step_range)

text \<open>
  C11: the range of the marking probability survives every race. If the initial, the least and
  the greatest probability of the configuration the module starts with and of every one
  installed later lie between \<open>lo\<close> and \<open>hi\<close>, then in every state reached by any interleaving
  of the handlers, of the single stores of a change and of the steps of the controller, its
  clamp one memory access at a time, the probability is a NaN or between \<open>lo\<close> and \<open>hi\<close>, except
  while the controller is between the assignment of a new probability and the end of the clamp;
  and the three parameters themselves are between \<open>lo\<close> and \<open>hi\<close> in every state. For a
  discipline that is never reconfigured, \<open>lo\<close> and \<open>hi\<close> are its \<open>p_min\<close> and \<open>p_max\<close>.
\<close>

theorem system_probability_range:
  assumes "sound_start lo hi env opt st" "exec (sound_step lo hi env) st ls ((pc, chg), sch, g, s)"
  shows "(\<not> clamping pc \<longrightarrow> is_nan (p_k (parms (priv sch))) \<or>
      lo \<le> p_k (parms (priv sch)) \<and> p_k (parms (priv sch)) \<le> hi) \<and>
    (\<forall>x \<in> {p_init (parms (priv sch)), p_min (parms (priv sch)), p_max (parms (priv sch))}. lo \<le> x \<and> x \<le> hi)"
  using range_inv.reachable_inv [OF assms] clamp_inv_outside [of pc lo hi]
  by (auto simp: sys_range_def prob_within_def block_within_def in_range_def)

section \<open>An execution\<close>

definition fresh_sch :: "sk_buff list Qdisc" where
  "fresh_sch = (sample_sch [])\<lparr>priv := (priv (sample_sch []))\<lparr>parms := zero_parms\<rparr>\<rparr>"

lemma sample_start:
  obtains sch g s where "sys_start list_env (Some sample_qopt) ((Idle, Quiet), sch, g, s)" "tsk_prob g = Running"
    "rbfgrad_init list_env (Some sample_qopt) (fresh_sch, sample_globals, 7) = (0, sch, g, s)"
proof -
  obtain ret sch g s where r: "rbfgrad_init list_env (Some sample_qopt) (fresh_sch, sample_globals, 7) = (ret, sch, g, s)"
    by (metis surj_pair)
  have "ret = 0" "tsk_prob g = Running"
    using r by (auto simp: rbfgrad_init_def rbfgrad_change_def list_env_def sample_qopt_def task_of_def Let_def split_beta)
  moreover have "sys_start list_env (Some sample_qopt) ((Idle, Quiet), sch, g, s)"
  proof -
    have "parms (priv fresh_sch) = zero_parms" "length (queue_show_base sample_globals) = QUEUE_SHOW_MAX"
      by (simp_all add: fresh_sch_def sample_globals_def)
    with r show ?thesis unfolding sys_start_def by blast
  qed
  ultimately show thesis using that r by simp
qed

theorem system_memory_safe_witness:
  "\<exists>st ls pc sch g s. sys_start list_env (Some sample_qopt) st \<and> exec (sys_step list_env) st ls (pc, sch, g, s) \<and>
     ls = [Ctl, Depart] \<and> sint (array_element g) < int QUEUE_SHOW_MAX"
proof -
  obtain sch g s where st: "sys_start list_env (Some sample_qopt) ((Idle, Quiet), sch, g, s)" and t: "tsk_prob g = Running"
    using sample_start by metis
  obtain pc1 p k s1 where c: "ctl_step (random32 list_env) (Idle, parms (priv sch), prob_number g, s) = (pc1, p, k, s1)"
    by (metis surj_pair)
  obtain skb sch2 where d: "rbfgrad_dequeue list_env (sch\<lparr>priv := (priv sch)\<lparr>parms := p\<rparr>\<rparr>) = (skb, sch2)" by fastforce
  have run: "thread_runs Idle g" using t by (simp add: thread_runs_def)
  have e: "exec (sys_step list_env) ((Idle, Quiet), sch, g, s) [Ctl, Depart] ((pc1, Quiet), sch2, g\<lparr>prob_number := k\<rparr>, s1)"
    by (rule exec_step, rule ctl, rule c, rule run, rule exec_step, rule depart, rule d, rule exec_nil)
  show ?thesis using st e system_memory_safe [OF st e] by blast
qed

text \<open>The controller starts an update, a new configuration begins and makes its first store.\<close>

theorem system_probability_range_witness:
  "\<exists>st ls pc chg sch g s. sound_start 0 1 list_env (Some sample_qopt) st \<and>
     exec (sound_step 0 1 list_env) st ls ((pc, chg), sch, g, s) \<and> ls = [Ctl, ChangeReq (Some sample_qopt), Store] \<and>
     chg \<noteq> Quiet \<and> (is_nan (p_k (parms (priv sch))) \<or> 0 \<le> p_k (parms (priv sch)) \<and> p_k (parms (priv sch)) \<le> 1)"
proof -
  obtain sch g s where st: "sys_start list_env (Some sample_qopt) ((Idle, Quiet), sch, g, s)" and t: "tsk_prob g = Running"
    and i: "rbfgrad_init list_env (Some sample_qopt) (fresh_sch, sample_globals, 7) = (0, sch, g, s)"
    using sample_start by metis
  have w: "in_range 0 1 (o_p_init sample_qopt)" "in_range 0 1 (o_p_min sample_qopt)" "in_range 0 1 (o_p_max sample_qopt)"
    by (simp_all add: in_range_def sample_qopt_def) (simp_all add: double_eval)
  have cfg: "config_ok 0 1 list_env (Some sample_qopt)"
    using w by (simp add: config_ok_def list_env_def)
  have "bounds (parms (priv sch)) = (o_p_init sample_qopt, o_p_min sample_qopt, o_p_max sample_qopt, o_p_init sample_qopt)"
    using i by (auto simp: rbfgrad_init_def change_stores change_begin_def list_env_def run_set_stores set_parms_bounds
        sample_qopt_def Let_def split_beta)
  then have "block_within 0 1 (parms (priv sch))" using w by (simp add: bounds_def block_within_def)
  then have ss: "sound_start 0 1 list_env (Some sample_qopt) ((Idle, Quiet), sch, g, s)"
    using st by (simp add: sound_start_def)
  define sch1 where "sch1 = sch\<lparr>priv := (priv sch)\<lparr>parms := mp_load (parms (priv sch))\<rparr>\<rparr>"
  define l where "l = mp_locals_of (parms (priv sch))"
  have c1: "sound_step 0 1 list_env Ctl ((Idle, Quiet), sch, g, s) ((Start l, Quiet), sch1, g, s)"
    using ctl [of list_env Idle sch g s "Start l" "mp_load (parms (priv sch))" "prob_number g" s Quiet] t
    by (simp add: sound_step_def event_ok_def thread_runs_def sch1_def l_def)
  obtain sch2 stab where b: "change_begin list_env (Some sample_qopt) sch1 = Inr (sch2, sample_qopt, stab)"
    by (simp add: change_begin_def list_env_def sample_qopt_def Let_def)
  obtain f fs where f: "set_stores (random32 list_env) sample_qopt stab = f # fs"
    by (simp add: set_stores_def)
  have c2: "sound_step 0 1 list_env (ChangeReq (Some sample_qopt)) ((Start l, Quiet), sch1, g, s)
      ((Start l, Installing (f # fs)), sch2, g, s)"
    using change_starts [OF b, of "Start l" g s] cfg by (simp add: sound_step_def event_ok_def f)
  obtain p s3 where p: "f (parms (priv sch2), s) = (p, s3)" by fastforce
  have c3: "sound_step 0 1 list_env Store ((Start l, Installing (f # fs)), sch2, g, s)
      ((Start l, Installing fs), sch2\<lparr>priv := (priv sch2)\<lparr>parms := p\<rparr>\<rparr>, g, s3)"
    using store [of f sch2 s p s3 list_env "Start l" fs g, OF p] by (simp add: sound_step_def event_ok_def)
  have e: "exec (sound_step 0 1 list_env) ((Idle, Quiet), sch, g, s) [Ctl, ChangeReq (Some sample_qopt), Store]
      ((Start l, Installing fs), sch2\<lparr>priv := (priv sch2)\<lparr>parms := p\<rparr>\<rparr>, g, s3)"
    by (rule exec_step, rule c1, rule exec_step, rule c2, rule exec_step, rule c3, rule exec_nil)
  have "\<not> clamping (Start l)" by (simp add: clamping_def)
  then show ?thesis using ss e system_probability_range [OF ss e] by blast
qed

end
