(* ===== verification/C_String.thy ===== *)
theory C_String
  imports Double
begin

text \<open>
  What the user-space tools use of the C library: characters and strings without the
  terminating NUL (the end of the list stands for it), the \<open>strto*\<close> family on an LP64
  machine, comparison and search in strings, tokenising, and the integer conversions of
  \<open>printf\<close>. A conversion function returns its value and the unread rest of the string,
  which is what the C pointer argument \<open>endptr\<close> points at; it returns the whole string as
  the rest when nothing could be converted.
\<close>

section \<open>Characters and digits\<close>

definition c_isspace :: "char \<Rightarrow> bool" where
  "c_isspace c \<longleftrightarrow> of_char c = (32::nat) \<or> (9::nat) \<le> of_char c \<and> of_char c \<le> (13::nat)"

definition c_tolower :: "char \<Rightarrow> char" where
  "c_tolower c = (let n = of_char c :: nat in if 65 \<le> n \<and> n \<le> 90 then char_of (n + 32) else c)"

definition digit_val :: "char \<Rightarrow> nat option" where
  "digit_val c = (let n = of_char c in
     if 48 \<le> n \<and> n \<le> 57 then Some (n - 48)
     else if 97 \<le> n \<and> n \<le> 122 then Some (n - 87)
     else if 65 \<le> n \<and> n \<le> 90 then Some (n - 55) else None)"

definition is_digit :: "nat \<Rightarrow> char \<Rightarrow> bool" where
  "is_digit b c \<longleftrightarrow> (case digit_val c of Some d \<Rightarrow> d < b | None \<Rightarrow> False)"

definition digit_char :: "nat \<Rightarrow> char" where
  "digit_char d = (if d < 10 then char_of (48 + d) else char_of (87 + d))"

text \<open>The value of a digit string, most significant digit first.\<close>

definition digits_val :: "nat \<Rightarrow> string \<Rightarrow> nat" where
  "digits_val b ds = foldl (\<lambda>a c. a * b + the (digit_val c)) 0 ds"

section \<open>Integer conversions\<close>

text \<open>\<open>0x\<close> counts as a prefix only when a hexadecimal digit follows.\<close>

fun has_hex :: "string \<Rightarrow> bool" where
  "has_hex (z # x # h # _) \<longleftrightarrow> z = CHR ''0'' \<and> (x = CHR ''x'' \<or> x = CHR ''X'') \<and> is_digit 16 h"
| "has_hex _ \<longleftrightarrow> False"

definition take_sign :: "string \<Rightarrow> bool \<times> string" where
  "take_sign s = (case s of
     [] \<Rightarrow> (False, [])
   | c # cs \<Rightarrow> if c = CHR ''-'' then (True, cs) else if c = CHR ''+'' then (False, cs) else (False, s))"

definition num_prefix :: "nat \<Rightarrow> string \<Rightarrow> nat \<times> string" where
  "num_prefix base s =
     (if (base = 0 \<or> base = 16) \<and> has_hex s then (16, drop 2 s)
      else if base = 0 then (if take 1 s = ''0'' then (8, s) else (10, s))
      else (base, s))"

text \<open>Sign, magnitude and rest of the longest numeral; \<open>None\<close> when there is no digit.\<close>

definition strto_mag :: "nat \<Rightarrow> string \<Rightarrow> (bool \<times> nat \<times> string) option" where
  "strto_mag base s =
     (let (neg, s2) = take_sign (dropWhile c_isspace s);
          (b, s3) = num_prefix base s2;
          ds = takeWhile (is_digit b) s3
      in if ds = [] then None else Some (neg, digits_val b ds, dropWhile (is_digit b) s3))"

text \<open>The saturating results on overflow are those of the library; the tools do not look at \<open>errno\<close>.\<close>

definition strtoul :: "string \<Rightarrow> nat \<Rightarrow> u64 \<times> string" where
  "strtoul s base = (case strto_mag base s of
     None \<Rightarrow> (0, s)
   | Some (neg, m, rest) \<Rightarrow>
       (if 2 ^ 64 \<le> m then (- 1) else if neg then - word_of_nat m else word_of_nat m, rest))"

definition strtol :: "string \<Rightarrow> nat \<Rightarrow> s64 \<times> string" where
  "strtol s base = (case strto_mag base s of
     None \<Rightarrow> (0, s)
   | Some (neg, m, rest) \<Rightarrow>
       (if neg then (if 2 ^ 63 < m then 2 ^ 63 else - word_of_nat m)
        else if 2 ^ 63 \<le> m then 2 ^ 63 - 1 else word_of_nat m, rest))"

definition atoi :: "string \<Rightarrow> s32" where
  "atoi s = ucast (fst (strtol s 10))"

section \<open>Floating point conversion\<close>

definition scan_exp :: "char \<Rightarrow> string \<Rightarrow> int \<times> string" where
  "scan_exp e s = (case s of
     [] \<Rightarrow> (0, s)
   | c # cs \<Rightarrow>
       if c_tolower c = e then
         (let (neg, s1) = take_sign cs;
              ds = takeWhile (is_digit 10) s1
          in if ds = [] then (0, s)
             else (if neg then - int (digits_val 10 ds) else int (digits_val 10 ds), dropWhile (is_digit 10) s1))
       else (0, s))"

text \<open>
  Digits, an optional point and more digits in one base: the digits, how many of them
  stand after the point, and the rest.
\<close>

definition scan_mantissa :: "nat \<Rightarrow> string \<Rightarrow> string \<times> nat \<times> string" where
  "scan_mantissa b s =
     (let ds = takeWhile (is_digit b) s;
          r = dropWhile (is_digit b) s
      in if take 1 r = ''.'' then
           let fs = takeWhile (is_digit b) (tl r)
           in if ds = [] \<and> fs = [] then ([], 0, s) else (ds @ fs, length fs, dropWhile (is_digit b) (tl r))
         else (ds, 0, r))"

text \<open>\<open>m * 2 ^ e2 * 10 ^ e10\<close> rounded once.\<close>

definition scaled :: "nat \<Rightarrow> nat \<Rightarrow> int \<Rightarrow> double" where
  "scaled m r e = (if 0 \<le> e then dlit (int (m * r ^ nat e)) 1 else dlit (int m) (r ^ nat (- e)))"

definition strtod_abs :: "string \<Rightarrow> (double \<times> string) option" where
  "strtod_abs s =
     (if map c_tolower (take 8 s) = ''infinity'' then Some (mk_double False inf_mag, drop 8 s)
      else if map c_tolower (take 3 s) = ''inf'' then Some (mk_double False inf_mag, drop 3 s)
      else if map c_tolower (take 3 s) = ''nan'' then
        (let r = drop 3 s; k = dropWhile (\<lambda>c. is_digit 36 c \<or> c = CHR ''_'') (tl r)
         in Some (mk_double False (inf_mag + 2 ^ 51), if take 1 r = ''('' \<and> take 1 k = '')'' then tl k else r))
      else if take 1 s = ''0'' \<and> map c_tolower (take 1 (drop 1 s)) = ''x'' \<and> fst (scan_mantissa 16 (drop 2 s)) \<noteq> [] then
        (let (ds, f, r) = scan_mantissa 16 (drop 2 s);
             (e, r) = scan_exp (CHR ''p'') r
         in Some (scaled (digits_val 16 ds) 2 (e - 4 * int f), r))
      else
        (let (ds, f, r) = scan_mantissa 10 s;
             (e, r) = scan_exp (CHR ''e'') r
         in if ds = [] then None else Some (scaled (digits_val 10 ds) 10 (e - int f), r)))"

definition strtod :: "string \<Rightarrow> double \<times> string" where
  "strtod s =
     (let (neg, s2) = take_sign (dropWhile c_isspace s)
      in case strtod_abs s2 of
           None \<Rightarrow> (0, s)
         | Some (x, rest) \<Rightarrow> (if neg then - x else x, rest))"

section \<open>Comparison, search, tokens\<close>

text \<open>\<open>memcmp\<close>: the sign of the result is that of the first difference.\<close>

fun memcmp :: "string \<Rightarrow> string \<Rightarrow> nat \<Rightarrow> int" where
  "memcmp (a # as) (b # bs) (Suc n) =
     (if a = b then memcmp as bs n else of_char a - of_char b)"
| "memcmp _ _ _ = 0"

definition strcaseeq :: "string \<Rightarrow> string \<Rightarrow> bool" where
  "strcaseeq s t \<longleftrightarrow> map c_tolower s = map c_tolower t"

text \<open>\<open>strchr\<close>: the suffix that starts with the character.\<close>

definition strchr :: "string \<Rightarrow> char \<Rightarrow> string option" where
  "strchr s c = (if c \<in> set s then Some (dropWhile (\<lambda>x. x \<noteq> c) s) else None)"

text \<open>\<open>fgets\<close>: a line with its newline, at most \<open>n - 1\<close> characters, and the rest of the file; no line at the end.\<close>

definition fgets :: "nat \<Rightarrow> string \<Rightarrow> (string \<times> string) option" where
  "fgets n fp =
     (if fp = [] then None
      else let l = takeWhile (\<lambda>c. c \<noteq> CHR 0x0A) fp;
               l = (if length l < length fp then l @ [CHR 0x0A] else l);
               l = take (n - 1) l
           in Some (l, drop (length l) fp))"

text \<open>All tokens \<open>strtok\<close> finds: the maximal runs of characters outside \<open>delims\<close>.\<close>

function strtok_all :: "char list \<Rightarrow> string \<Rightarrow> string list" where
  "strtok_all delims s =
     (let s = dropWhile (\<lambda>c. c \<in> set delims) s
      in if s = [] then []
         else takeWhile (\<lambda>c. c \<notin> set delims) s # strtok_all delims (dropWhile (\<lambda>c. c \<notin> set delims) s))"
  by pat_completeness auto

termination
proof (relation "measure (\<lambda>(_, s). length s)", simp)
  fix delims :: "char list" and s x
  assume x: "x = dropWhile (\<lambda>c. c \<in> set delims) s" and "x \<noteq> []"
  then have "hd x \<notin> set delims" using hd_dropWhile by blast
  then have "length (dropWhile (\<lambda>c. c \<notin> set delims) x) < length x"
    using \<open>x \<noteq> []\<close> by (cases x) (auto simp: le_imp_less_Suc length_dropWhile_le)
  moreover have "length x \<le> length s" unfolding x by (rule length_dropWhile_le)
  ultimately show "((delims, dropWhile (\<lambda>c. c \<notin> set delims) x), (delims, s)) \<in> measure (\<lambda>(_, s). length s)"
    by simp
qed

declare strtok_all.simps [simp del]

section \<open>Printing integers\<close>

fun show_base :: "nat \<Rightarrow> nat \<Rightarrow> string" where
  "show_base b n = (if n < b \<or> b < 2 then [digit_char n] else show_base b (n div b) @ [digit_char (n mod b)])"

declare show_base.simps [simp del]

abbreviation show_dec :: "nat \<Rightarrow> string" where
  "show_dec \<equiv> show_base 10"

abbreviation show_hex :: "nat \<Rightarrow> string" where
  "show_hex \<equiv> show_base 16"

definition show_int :: "int \<Rightarrow> string" where
  "show_int i = (if i < 0 then CHR ''-'' # show_dec (nat (- i)) else show_dec (nat i))"

text \<open>\<open>%02x\<close> of a byte.\<close>

definition show_byte :: "u8 \<Rightarrow> string" where
  "show_byte b = [digit_char (unat b div 16), digit_char (unat b mod 16)]"

section \<open>Laws\<close>

lemma of_char_char_of: "n < 256 \<Longrightarrow> of_char (char_of n) = (n::nat)"
  by simp

lemma digit_val_digit_char [simp]: "d < 36 \<Longrightarrow> digit_val (digit_char d) = Some d"
  by (simp add: digit_val_def digit_char_def Let_def)

lemma is_digit_digit_char [simp]: "d < 36 \<Longrightarrow> is_digit b (digit_char d) \<longleftrightarrow> d < b"
  by (simp add: is_digit_def)

lemma digits_val_snoc: "digits_val b (ds @ [c]) = digits_val b ds * b + the (digit_val c)"
  by (simp add: digits_val_def)

lemma show_base_nonempty [simp]: "show_base b n \<noteq> []"
  by (subst show_base.simps) simp

lemma show_base_digits:
  assumes "2 \<le> b" "b \<le> 36"
  shows "list_all (is_digit b) (show_base b n)"
proof (induction n rule: less_induct)
  case (less n)
  have m: "n mod b < 36"
    using assms mod_less_divisor [of b n] by linarith
  show ?case
  proof (cases "n < b")
    case True
    then show ?thesis using assms by (simp add: show_base.simps [of b n])
  next
    case False
    then have "n div b < n" using assms by simp
    from less.IH [OF this] m show ?thesis
      using False assms by (simp add: show_base.simps [of b n])
  qed
qed

lemma digits_val_show_base [simp]:
  assumes "2 \<le> b" "b \<le> 36"
  shows "digits_val b (show_base b n) = n"
proof (induction n rule: less_induct)
  case (less n)
  have m: "n mod b < 36"
    using assms mod_less_divisor [of b n] by linarith
  show ?case
  proof (cases "n < b")
    case True
    then show ?thesis using assms by (simp add: show_base.simps [of b n] digits_val_def)
  next
    case False
    then have "n div b < n" using assms by simp
    from less.IH [OF this] m show ?thesis
      using False assms by (simp add: show_base.simps [of b n] digits_val_snoc mult.commute)
  qed
qed

text \<open>A prefix whose elements all satisfy the test, before an element that does not.\<close>

lemma takeWhile_prefix:
  assumes "\<forall>c \<in> set t. P c" "rest = [] \<or> \<not> P (hd rest)"
  shows "takeWhile P (t @ rest) = t" "dropWhile P (t @ rest) = rest"
proof -
  have "takeWhile P rest = []" "dropWhile P rest = rest" using assms(2) by (cases rest; simp)+
  then show "takeWhile P (t @ rest) = t" "dropWhile P (t @ rest) = rest"
    using assms(1) by (simp_all add: takeWhile_append2 dropWhile_append2)
qed

text \<open>A printed number is read back, whatever follows it, unless a digit follows.\<close>

lemma takeWhile_show_base:
  assumes "2 \<le> b" "b \<le> 36" "rest = [] \<or> \<not> is_digit b (hd rest)"
  shows "takeWhile (is_digit b) (show_base b n @ rest) = show_base b n"
    and "dropWhile (is_digit b) (show_base b n @ rest) = rest"
  using takeWhile_prefix [of "show_base b n" "is_digit b" rest] assms(3) show_base_digits [OF assms(1,2), of n]
  by (simp_all add: list_all_iff)

lemma length_show_base:
  assumes "2 \<le> b" "n < b ^ Suc k"
  shows "length (show_base b n) \<le> Suc k"
  using assms(2)
proof (induction k arbitrary: n)
  case 0
  then show ?case by (simp add: show_base.simps)
next
  case (Suc k)
  show ?case
  proof (cases "n < b")
    case True
    then show ?thesis by (simp add: show_base.simps)
  next
    case False
    have "n div b < b ^ Suc k" using Suc.prems assms(1) by (intro less_mult_imp_div_less) (simp add: mult.commute)
    from Suc.IH [OF this] False assms(1) show ?thesis by (subst show_base.simps) simp
  qed
qed

text \<open>The first character of a printed number.\<close>

lemma hd_show_base:
  assumes "2 \<le> b" "b \<le> 36"
  shows "\<exists>d < b. hd (show_base b n) = digit_char d \<and> (0 < n \<longrightarrow> 0 < d)"
proof (induction n rule: less_induct)
  case (less n)
  show ?case
  proof (cases "n < b")
    case True
    then show ?thesis by (auto simp: show_base.simps [of b n])
  next
    case False
    then have "n div b < n" "0 < n div b" using assms by (simp_all add: div_greater_zero_iff)
    with less.IH [of "n div b"] False assms show ?thesis by (simp add: show_base.simps [of b n])
  qed
qed

lemma digit_char_0: "digit_char 0 = CHR ''0''"
  by (simp add: digit_char_def char_of_def bit_0)

lemma digit_char_inj: "d < 36 \<Longrightarrow> e < 36 \<Longrightarrow> digit_char d = digit_char e \<Longrightarrow> d = e"
  using digit_val_digit_char by (metis option.inject)

lemma digit_char_not:
  assumes "d < 36"
  shows "\<not> c_isspace (digit_char d)" "digit_char d \<noteq> CHR ''-''" "digit_char d \<noteq> CHR ''+''"
    "digit_char d \<noteq> CHR '':''" "digit_char d \<noteq> CHR ''.''"
proof -
  have "digit_val (CHR ''-'') = None" "digit_val (CHR ''+'') = None"
    "digit_val (CHR '':'') = None" "digit_val (CHR ''.'') = None"
    by (simp_all add: digit_val_def)
  then show "digit_char d \<noteq> CHR ''-''" "digit_char d \<noteq> CHR ''+''"
    "digit_char d \<noteq> CHR '':''" "digit_char d \<noteq> CHR ''.''"
    using digit_val_digit_char [OF assms] by (auto simp del: digit_val_digit_char)
  show "\<not> c_isspace (digit_char d)"
    using assms by (simp add: c_isspace_def digit_char_def)
qed

text \<open>White space and signs do not begin a printed number.\<close>

lemma show_base_start:
  assumes "2 \<le> b" "b \<le> 36"
  shows "dropWhile c_isspace (show_base b n @ rest) = show_base b n @ rest"
    and "take_sign (show_base b n @ rest) = (False, show_base b n @ rest)"
proof -
  obtain d where d: "d < b" "hd (show_base b n) = digit_char d"
    using hd_show_base [OF assms] by blast
  then obtain cs where c: "show_base b n = digit_char d # cs"
    by (metis list.collapse show_base_nonempty)
  show "dropWhile c_isspace (show_base b n @ rest) = show_base b n @ rest"
    and "take_sign (show_base b n @ rest) = (False, show_base b n @ rest)"
    using d(1) assms(2) by (simp_all add: c take_sign_def digit_char_not)
qed

text \<open>No \<open>0x\<close> inside a printed number, so an explicit base reads it as it stands.\<close>

lemma has_hex_show_base:
  assumes "2 \<le> b" "b \<le> 16" "rest = [] \<or> hd rest \<noteq> CHR ''x'' \<and> hd rest \<noteq> CHR ''X''"
  shows "\<not> has_hex (show_base b n @ rest)"
proof
  assume h: "has_hex (show_base b n @ rest)"
  then obtain x t where e: "show_base b n @ rest = CHR ''0'' # x # t" and x: "x = CHR ''x'' \<or> x = CHR ''X''"
    by (cases "show_base b n @ rest" rule: has_hex.cases) auto
  have x33: "digit_val x = Some 33" using x by (auto simp: digit_val_def)
  then have "\<not> is_digit b x" using assms(2) by (auto simp: is_digit_def)
  moreover have "list_all (is_digit b) (show_base b n)"
    using assms by (intro show_base_digits) auto
  ultimately have "show_base b n = ''0''"
    using e by (cases "show_base b n" rule: has_hex.cases) auto
  with e x assms(3) show False by auto
qed

lemma strto_mag_show:
  assumes "2 \<le> b" "b \<le> 16" "rest = [] \<or> \<not> is_digit b (hd rest) \<and> hd rest \<noteq> CHR ''x'' \<and> hd rest \<noteq> CHR ''X''"
  shows "strto_mag b (show_base b n @ rest) = Some (False, n, rest)"
proof -
  have b: "b \<noteq> 0" "2 \<le> b" "b \<le> 36" and r: "rest = [] \<or> \<not> is_digit b (hd rest)"
    and x: "rest = [] \<or> hd rest \<noteq> CHR ''x'' \<and> hd rest \<noteq> CHR ''X''"
    using assms by auto
  show ?thesis
    unfolding strto_mag_def num_prefix_def show_base_start [OF b(2,3)]
    by (simp add: b(1) has_hex_show_base [OF assms(1,2) x] takeWhile_show_base [OF b(2,3) r]
        digits_val_show_base [OF b(2,3)])
qed

lemma strto_mag_negative:
  assumes "rest = [] \<or> \<not> is_digit 10 (hd rest)"
  shows "strto_mag 10 (CHR ''-'' # show_dec n @ rest) = Some (True, n, rest)"
  using takeWhile_show_base [OF _ _ assms, of n]
  by (simp add: strto_mag_def take_sign_def num_prefix_def c_isspace_def)

text \<open>With base 0 a decimal number is read as decimal: only \<open>0\<close> itself starts with the digit 0.\<close>

lemma strto_mag_show_auto:
  assumes "rest = [] \<or> \<not> is_digit 10 (hd rest) \<and> hd rest \<noteq> CHR ''x'' \<and> hd rest \<noteq> CHR ''X''"
  shows "strto_mag 0 (show_dec n @ rest) = Some (False, n, rest)"
proof (cases "n = 0")
  case True
  have e: "show_dec 0 = ''0''" by (simp add: show_base.simps digit_char_0)
  have "rest = [] \<or> \<not> is_digit 8 (hd rest)" using assms by (auto simp: is_digit_def split: option.splits)
  moreover have "is_digit 8 (CHR ''0'')" "digits_val 8 ''0'' = 0"
    by (simp_all add: is_digit_def digits_val_def digit_val_def)
  moreover have "\<not> has_hex (show_dec 0 @ rest)"
    using assms by (intro has_hex_show_base) auto
  ultimately show ?thesis
    using True show_base_start [of 10 0 rest]
    by (cases rest) (auto simp: strto_mag_def num_prefix_def e Let_def)
next
  case False
  then obtain d where d: "d < 10" "hd (show_dec n) = digit_char d" "0 < d"
    using hd_show_base [of 10 n] by auto
  then have "hd (show_dec n) \<noteq> CHR ''0''"
    using digit_char_inj [of d 0] by (auto simp: digit_char_0)
  then have "take 1 (show_dec n @ rest) \<noteq> ''0''" by (cases "show_dec n") auto
  moreover have "\<not> has_hex (show_dec n @ rest)" using assms by (intro has_hex_show_base) auto
  moreover have r: "rest = [] \<or> \<not> is_digit 10 (hd rest)" using assms by auto
  ultimately show ?thesis
    by (simp add: strto_mag_def num_prefix_def show_base_start takeWhile_show_base [OF _ _ r])
qed

text \<open>The unread rest of a conversion is shorter than the string exactly when there was a numeral.\<close>

lemma take_sign_length: "length (snd (take_sign s)) \<le> length s"
  by (auto simp: take_sign_def split: list.splits)

lemma strto_mag_rest:
  assumes "strto_mag base s = Some (neg, m, rest)"
  shows "length rest < length s"
proof -
  obtain neg' s2 where ts: "take_sign (dropWhile c_isspace s) = (neg', s2)" by fastforce
  obtain b s3 where np: "num_prefix base s2 = (b, s3)" by fastforce
  have r: "rest = dropWhile (is_digit b) s3" and ne: "takeWhile (is_digit b) s3 \<noteq> []"
    using assms by (auto simp: strto_mag_def ts np Let_def split: if_splits)
  have "length s3 = length (takeWhile (is_digit b) s3) + length (dropWhile (is_digit b) s3)"
    by (metis length_append takeWhile_dropWhile_id)
  then have "length rest < length s3" using r ne by simp
  also have "length s3 \<le> length s2" using np by (auto simp: num_prefix_def split: if_splits)
  also have "length s2 \<le> length s"
    using take_sign_length [of "dropWhile c_isspace s"] length_dropWhile_le [of c_isspace s] ts by simp
  finally show ?thesis .
qed

lemma strtoul_rest: "snd (strtoul s base) = s \<longleftrightarrow> strto_mag base s = None"
  using strto_mag_rest by (fastforce simp: strtoul_def split: option.splits prod.splits)

lemma strtol_rest: "snd (strtol s base) = s \<longleftrightarrow> strto_mag base s = None"
  using strto_mag_rest by (fastforce simp: strtol_def split: option.splits prod.splits)

end
