(* ===== verification/Utils_Num.thy ===== *)
theory Utils_Num
  imports C_String
begin

text \<open>
  The number parsers of \<open>lib/utils.c\<close>. Each returns \<open>None\<close> where the C function returns
  \<open>-1\<close> and leaves \<open>*val\<close> alone, and \<open>Some v\<close> where it stores \<open>v\<close> and returns \<open>0\<close>. The string is
  an element of the argument vector, so the test for a null pointer has no counterpart.
\<close>

lemma ucast_u64_u32 [simp]: "ucast (ucast (w :: u32) :: u64) = w"
  by (rule bit_word_eqI) (auto simp: bit_simps)

section \<open>The parsers\<close>

definition INT_MAX :: int where
  "INT_MAX = 2147483647"

definition INT_MIN :: int where
  "INT_MIN = - 2147483648"

definition UINT_MAX :: int where
  "UINT_MAX = 4294967295"

definition get_integer :: "string \<Rightarrow> nat \<Rightarrow> s32 option" where
  "get_integer arg base =
     (if arg = [] then None
      else let (res, ptr) = strtol arg base
           in if ptr = arg \<or> ptr \<noteq> [] \<or> INT_MAX < sint res \<or> sint res < INT_MIN then None
              else Some (ucast res))"

definition get_unsigned :: "string \<Rightarrow> nat \<Rightarrow> u32 option" where
  "get_unsigned arg base =
     (if arg = [] then None
      else let (res, ptr) = strtoul arg base
           in if ptr = arg \<or> ptr \<noteq> [] \<or> UINT_MAX < uint res then None else Some (ucast res))"

definition get_u64 :: "string \<Rightarrow> nat \<Rightarrow> u64 option" where
  "get_u64 arg base =
     (if arg = [] then None
      else let (res, ptr) = strtoul arg base
           in if ptr = arg \<or> ptr \<noteq> [] \<or> res = 0xFFFFFFFF then None else Some res)"

definition get_u32 :: "string \<Rightarrow> nat \<Rightarrow> u32 option" where
  "get_u32 arg base =
     (if arg = [] then None
      else let (res, ptr) = strtoul arg base
           in if ptr = arg \<or> ptr \<noteq> [] \<or> 0xFFFFFFFF < uint res then None else Some (ucast res))"

definition get_u16 :: "string \<Rightarrow> nat \<Rightarrow> u16 option" where
  "get_u16 arg base =
     (if arg = [] then None
      else let (res, ptr) = strtoul arg base
           in if ptr = arg \<or> ptr \<noteq> [] \<or> 0xFFFF < uint res then None else Some (ucast res))"

definition get_u8 :: "string \<Rightarrow> nat \<Rightarrow> u8 option" where
  "get_u8 arg base =
     (if arg = [] then None
      else let (res, ptr) = strtoul arg base
           in if ptr = arg \<or> ptr \<noteq> [] \<or> 0xFF < uint res then None else Some (ucast res))"

definition get_s16 :: "string \<Rightarrow> nat \<Rightarrow> 16 word option" where
  "get_s16 arg base =
     (if arg = [] then None
      else let (res, ptr) = strtol arg base
           in if ptr = arg \<or> ptr \<noteq> [] \<or> 0x7FFF < sint res \<or> sint res < - 0x8000 then None
              else Some (ucast res))"

definition get_s8 :: "string \<Rightarrow> nat \<Rightarrow> 8 word option" where
  "get_s8 arg base =
     (if arg = [] then None
      else let (res, ptr) = strtol arg base
           in if ptr = arg \<or> ptr \<noteq> [] \<or> 0x7F < sint res \<or> sint res < - 0x80 then None
              else Some (ucast res))"

text \<open>
  \<open>get_time_rtt\<close>: milliseconds, rounded up. The second component is what \<open>*raw\<close> has been set
  to, also on the failing path after the number. The cast of a double to \<open>unsigned\<close> is the
  low half of the 64-bit truncation, as the compiler emits it.
\<close>

definition d_to_u32 :: "double \<Rightarrow> u32" where
  "d_to_u32 x = (if is_finite x \<and> \<bar>dtrunc x\<bar> < 2 ^ 63 then word_of_int (dtrunc x) else 0)"

definition get_time_rtt :: "string \<Rightarrow> u32 option \<times> bool option" where
  "get_time_rtt arg =
     (case (if strchr arg (CHR ''.'') \<noteq> None
            then let (t, p) = strtod arg in if t < 0 then None else Some (t, p)
            else let (res, p) = strtoul arg 0 in if UINT_MAX < uint res then None else Some (d_of_int (uint res), p)) of
        None \<Rightarrow> (None, None)
      | Some (t, p) \<Rightarrow>
          if p = arg then (None, None)
          else case (if p = [] then Some (t, True)
                     else if strcaseeq p ''s'' \<or> strcaseeq p ''sec'' \<or> strcaseeq p ''secs'' then Some (t * d_of_int 1000, False)
                     else if strcaseeq p ''ms'' \<or> strcaseeq p ''msec'' \<or> strcaseeq p ''msecs'' then Some (t * 1, False)
                     else None) of
                 None \<Rightarrow> (None, Some False)
               | Some (t, raw) \<Rightarrow>
                   let val = d_to_u32 t
                   in (Some (if d_of_int (uint val) < t then val + 1 else val), Some raw))"

section \<open>The contract of a bounded parser\<close>

text \<open>
  A bounded parser accepts exactly the strings that are one numeral to the end and whose
  converted value lies in its range, and stores that value. \<open>conv\<close> is what the library call
  makes of a sign and a magnitude.
\<close>

locale bounded_parser =
  fixes get :: "string \<Rightarrow> nat \<Rightarrow> 'a::len word option"
    and conv :: "bool \<Rightarrow> nat \<Rightarrow> int"
    and lo hi :: int
  assumes get_iff: "get s base = Some v \<longleftrightarrow>
      (\<exists>neg m. strto_mag base s = Some (neg, m, []) \<and> lo \<le> conv neg m \<and> conv neg m \<le> hi \<and> v = word_of_int (conv neg m))"
    and conv_small: "m < 2 ^ 63 \<Longrightarrow> conv False m = int m"
    and conv_large: "2 ^ 63 \<le> m \<Longrightarrow> hi < conv False m"
    and range: "lo \<le> 0" "hi < 2 ^ 63"
begin

lemma none_iff: "get s base = None \<longleftrightarrow>
    (\<forall>neg m. strto_mag base s = Some (neg, m, []) \<longrightarrow> conv neg m < lo \<or> hi < conv neg m)"
  using get_iff [of s base] by (cases "get s base") (force simp: not_le)+

lemma unsigned_value:
  assumes "strto_mag base s = Some (False, n, [])"
  shows "get s base = (if int n \<le> hi then Some (word_of_nat n) else None)"
proof (cases "n < 2 ^ 63")
  case True
  show ?thesis
  proof (cases "int n \<le> hi")
    case le: True
    then have "get s base = Some (word_of_int (int n))"
      unfolding get_iff using assms conv_small [OF True] range(1) by (intro exI [of _ False] exI [of _ n]) simp
    then show ?thesis using le by simp
  next
    case False
    then show ?thesis using assms conv_small [OF True] by (auto simp: none_iff)
  qed
next
  case False
  then have "2 ^ 63 \<le> n" by simp
  then have "int (2 ^ 63) \<le> int n" by (simp only: of_nat_le_iff)
  then have "hi < int n" using range(2) by simp
  then show ?thesis using assms conv_large [OF \<open>2 ^ 63 \<le> n\<close>] by (auto simp: none_iff)
qed

lemma decimal: "get (show_dec n) 10 = (if int n \<le> hi then Some (word_of_nat n) else None)"
  using unsigned_value strto_mag_show [of 10 "[]" n] by simp

lemma auto_base: "get (show_dec n) 0 = (if int n \<le> hi then Some (word_of_nat n) else None)"
  using unsigned_value strto_mag_show_auto [of "[]" n] by simp

lemma hexadecimal: "get (show_hex n) 16 = (if int n \<le> hi then Some (word_of_nat n) else None)"
  using unsigned_value strto_mag_show [of 16 "[]" n] by simp

lemma in_range:
  assumes "get s base = Some v"
  shows "\<exists>i. lo \<le> i \<and> i \<le> hi \<and> v = word_of_int i"
  using assms unfolding get_iff by blast

end

section \<open>The parsers keep the contract\<close>

definition ulong_conv :: "bool \<Rightarrow> nat \<Rightarrow> int" where
  "ulong_conv neg m = (if 2 ^ 64 \<le> m then 2 ^ 64 - 1 else if neg then (- int m) mod 2 ^ 64 else int m)"

definition long_conv :: "bool \<Rightarrow> nat \<Rightarrow> int" where
  "long_conv neg m =
     (if neg then (if 2 ^ 63 < m then - (2 ^ 63) else - int m)
      else if 2 ^ 63 \<le> m then 2 ^ 63 - 1 else int m)"

lemma strtoul_conv:
  assumes "strto_mag base s = Some (neg, m, rest)"
  shows "uint (fst (strtoul s base)) = ulong_conv neg m"
proof -
  have "(- word_of_nat m :: u64) = word_of_int (- int m)" by simp
  then have "uint (- word_of_nat m :: u64) = (- int m) mod 2 ^ 64"
    by (simp only: uint_word_of_int) simp
  moreover have "uint (word_of_nat m :: u64) = int m" if "m < 2 ^ 64"
    using that by (simp add: uint_nat unat_of_nat)
  ultimately show ?thesis
    using assms by (simp add: strtoul_def ulong_conv_def unsigned_minus_1_eq_mask mask_eq_exp_minus_1)
qed

lemma sint_s64: "- (2 ^ 63) \<le> i \<Longrightarrow> i < 2 ^ 63 \<Longrightarrow> sint (word_of_int i :: s64) = i"
  using signed_take_bit_int_eq_self [of 63 i] by (simp add: sint_sbintrunc')

lemma strtol_conv:
  assumes "strto_mag base s = Some (neg, m, rest)"
  shows "sint (fst (strtol s base)) = long_conv neg m"
proof -
  have w: "fst (strtol s base) = word_of_int (long_conv neg m)"
    using assms by (simp add: strtol_def long_conv_def)
  have "- (2 ^ 63) \<le> long_conv neg m \<and> long_conv neg m < 2 ^ 63"
    by (auto simp: long_conv_def not_less not_le nat_less_real_le)
  then show ?thesis unfolding w by (simp add: sint_s64)
qed

text \<open>A parser over \<open>strtoul\<close> with an upper limit, and one over \<open>strtol\<close> with two.\<close>

lemma strtoul_parser:
  "(if s = [] then None
    else let (res, ptr) = strtoul s base
         in if ptr = s \<or> ptr \<noteq> [] \<or> hi < uint res then None else Some (ucast res)) = Some (v :: 'a::len word) \<longleftrightarrow>
   (\<exists>neg m. strto_mag base s = Some (neg, m, []) \<and> 0 \<le> ulong_conv neg m \<and> ulong_conv neg m \<le> hi
      \<and> v = word_of_int (ulong_conv neg m))"
proof (cases "strto_mag base s")
  case None
  then show ?thesis by (simp add: strtoul_def)
next
  case (Some nmr)
  then obtain neg m rest where e: "strto_mag base s = Some (neg, m, rest)" by (cases nmr) auto
  have "s \<noteq> []" "rest \<noteq> s" using strto_mag_rest [OF e] by auto
  moreover obtain res where r: "strtoul s base = (res, rest)"
    using e by (simp add: strtoul_def)
  moreover have u: "uint res = ulong_conv neg m" using strtoul_conv [OF e] r by simp
  moreover have "0 \<le> ulong_conv neg m" by (simp add: ulong_conv_def)
  moreover have "(ucast res :: 'a word) = word_of_int (ulong_conv neg m)" by (simp flip: u)
  ultimately show ?thesis using e by (auto simp: not_less)
qed

lemma strtol_parser:
  "(if s = [] then None
    else let (res, ptr) = strtol s base
         in if ptr = s \<or> ptr \<noteq> [] \<or> hi < sint res \<or> sint res < lo then None else Some (ucast res)) = Some (v :: 'a::len word) \<longleftrightarrow>
   (\<exists>neg m. strto_mag base s = Some (neg, m, []) \<and> lo \<le> long_conv neg m \<and> long_conv neg m \<le> hi
      \<and> v = word_of_int (long_conv neg m))"
  if "LENGTH('a) \<le> 64"
proof (cases "strto_mag base s")
  case None
  then show ?thesis by (simp add: strtol_def)
next
  case (Some nmr)
  then obtain neg m rest where e: "strto_mag base s = Some (neg, m, rest)" by (cases nmr) auto
  have "s \<noteq> []" "rest \<noteq> s" using strto_mag_rest [OF e] by auto
  moreover obtain res where r: "strtol s base = (res, rest)"
    using e by (simp add: strtol_def)
  moreover have "sint res = long_conv neg m" using strtol_conv [OF e] r by simp
  moreover have "(ucast res :: 'a word) = word_of_int (sint res)"
  proof (rule bit_word_eqI)
    fix n assume n: "n < LENGTH('a)"
    then have "n = 63 \<or> n < 63" using that by linarith
    then show "bit (ucast res :: 'a word) n \<longleftrightarrow> bit (word_of_int (sint res) :: 'a word) n"
      using n by (auto simp: bit_simps)
  qed
  ultimately show ?thesis using e by (auto simp: not_less)
qed

lemma ulong_conv_bounds:
  "m < 2 ^ 63 \<Longrightarrow> ulong_conv False m = int m"
  "hi < 2 ^ 63 \<Longrightarrow> 2 ^ 63 \<le> m \<Longrightarrow> hi < ulong_conv False m"
  by (auto simp: ulong_conv_def nat_less_real_le)

lemma long_conv_bounds:
  "m < 2 ^ 63 \<Longrightarrow> long_conv False m = int m"
  "2 ^ 63 \<le> m \<Longrightarrow> long_conv False m = 2 ^ 63 - 1"
  "m < 2 ^ 63 \<Longrightarrow> long_conv True m = - int m"
  "2 ^ 63 \<le> m \<Longrightarrow> long_conv True m = - (2 ^ 63)"
  by (auto simp: long_conv_def)

interpretation unsigned_parser: bounded_parser get_unsigned ulong_conv 0 UINT_MAX
  by unfold_locales (auto intro: ulong_conv_bounds simp: get_unsigned_def strtoul_parser UINT_MAX_def)

interpretation u32_parser: bounded_parser get_u32 ulong_conv 0 "0xFFFFFFFF"
  by unfold_locales (auto intro: ulong_conv_bounds simp: get_u32_def strtoul_parser)

interpretation u16_parser: bounded_parser get_u16 ulong_conv 0 "0xFFFF"
  by unfold_locales (auto intro: ulong_conv_bounds simp: get_u16_def strtoul_parser)

interpretation u8_parser: bounded_parser get_u8 ulong_conv 0 "0xFF"
  by unfold_locales (auto intro: ulong_conv_bounds simp: get_u8_def strtoul_parser)

interpretation integer_parser: bounded_parser get_integer long_conv INT_MIN INT_MAX
  by unfold_locales (use long_conv_bounds in \<open>auto simp: get_integer_def strtol_parser INT_MIN_def INT_MAX_def\<close>)

interpretation s16_parser: bounded_parser get_s16 long_conv "- 0x8000" "0x7FFF"
  by unfold_locales (use long_conv_bounds in \<open>auto simp: get_s16_def strtol_parser\<close>)

interpretation s8_parser: bounded_parser get_s8 long_conv "- 0x80" "0x7F"
  by unfold_locales (use long_conv_bounds in \<open>auto simp: get_s8_def strtol_parser\<close>)

text \<open>\<open>get_u64\<close> has no bound to test: it refuses one value in the middle of its range.\<close>

lemma get_u64_value:
  assumes "strto_mag base s = Some (False, n, [])"
  shows "get_u64 s base = (if n = 0xFFFFFFFF then None else if n < 2 ^ 64 then Some (word_of_nat n) else Some (- 1))"
proof -
  have "s \<noteq> []" using strto_mag_rest [OF assms] by auto
  moreover have "(word_of_nat n :: u64) = 0xFFFFFFFF \<longleftrightarrow> n = 0xFFFFFFFF" if "n < 2 ^ 64"
    using that by (simp add: word_unat_eq_iff unat_of_nat)
  ultimately show ?thesis using assms by (auto simp: get_u64_def strtoul_def)
qed

text \<open>A minus sign in front of a printed number.\<close>

lemma get_integer_negative:
  "get_integer (CHR ''-'' # show_dec n) 10 = (if n \<le> 2147483648 then Some (- word_of_nat n) else None)"
proof -
  have c: "long_conv True n = (if n < 2 ^ 63 then - int n else - (2 ^ 63))"
    using long_conv_bounds by auto
  show ?thesis
  proof (cases "n \<le> 2147483648")
    case True
    then have "get_integer (CHR ''-'' # show_dec n) 10 = Some (word_of_int (- int n))"
      unfolding integer_parser.get_iff using strto_mag_negative [of "[]" n]
      by (intro exI [of _ True] exI [of _ n]) (simp add: c INT_MIN_def INT_MAX_def)
    then show ?thesis using True by simp
  next
    case False
    then show ?thesis
      using strto_mag_negative [of "[]" n] by (auto simp: integer_parser.none_iff c INT_MIN_def)
  qed
qed

section \<open>The parsers on printed numbers\<close>

text \<open>
  C19: a printed decimal number is read back by every parser, with base ten given and with
  the base left open, exactly when it is within the range of the type; \<open>get_integer\<close> also
  reads the negative numbers of its range. \<open>get_u64\<close> is different: it refuses 4294967295,
  although that fits, and reads every number of 2 ^ 64 or more as 2 ^ 64 - 1.
\<close>
theorem number_parsers_decimal:
  assumes "base = 0 \<or> base = 10"
  shows "get_unsigned (show_dec n) base = (if n \<le> 4294967295 then Some (word_of_nat n) else None)
    \<and> get_u32 (show_dec n) base = (if n \<le> 4294967295 then Some (word_of_nat n) else None)
    \<and> get_u16 (show_dec n) base = (if n \<le> 65535 then Some (word_of_nat n) else None)
    \<and> get_u8 (show_dec n) base = (if n \<le> 255 then Some (word_of_nat n) else None)
    \<and> get_integer (show_dec n) base = (if n \<le> 2147483647 then Some (word_of_nat n) else None)
    \<and> get_s16 (show_dec n) base = (if n \<le> 32767 then Some (word_of_nat n) else None)
    \<and> get_s8 (show_dec n) base = (if n \<le> 127 then Some (word_of_nat n) else None)
    \<and> get_integer (CHR ''-'' # show_dec n) 10 = (if n \<le> 2147483648 then Some (- word_of_nat n) else None)
    \<and> get_u64 (show_dec n) base =
        (if n = 4294967295 then None else if n < 2 ^ 64 then Some (word_of_nat n) else Some (- 1))"
proof -
  have n: "strto_mag base (show_dec n) = Some (False, n, [])"
    using assms strto_mag_show [of 10 "[]" n] strto_mag_show_auto [of "[]" n] by auto
  show ?thesis
    using unsigned_parser.unsigned_value [OF n] u32_parser.unsigned_value [OF n] u16_parser.unsigned_value [OF n]
      u8_parser.unsigned_value [OF n] integer_parser.unsigned_value [OF n] s16_parser.unsigned_value [OF n]
      s8_parser.unsigned_value [OF n] get_integer_negative [of n] get_u64_value [OF n]
    by (simp add: UINT_MAX_def INT_MAX_def)
qed

theorem number_parsers_decimal_witness:
  "get_u16 (show_dec 65535) 0 = Some 65535 \<and> get_u16 (show_dec 65536) 0 = None \<and> get_u64 (show_dec 4294967295) 0 = None"
  using number_parsers_decimal [of 0 65535] number_parsers_decimal [of 0 65536] number_parsers_decimal [of 0 4294967295]
  by simp

end
