(* ===== verification/Utils_Cli.thy ===== *)
theory Utils_Cli
  imports C_String "HOL-Library.Sublist"
begin

text \<open>
  The command line support of \<open>lib/utils.c\<close>: the error exits, keyword abbreviation, reading
  of batch files with continuation lines and comments, and splitting a line into arguments.
\<close>

section \<open>Exits\<close>

text \<open>A command either goes on with a value or ends the process with a status and a message.\<close>

datatype 'a cli = Exit int string | Ret 'a

definition incomplete_command :: "'a cli" where
  "incomplete_command = Exit (- 1) (''Command line is not complete. Try option \"help\"'' @ [CHR 0x0A])"

definition missarg :: "string \<Rightarrow> 'a cli" where
  "missarg key = Exit (- 1) (''Error: argument \"'' @ key @ ''\" is required'' @ [CHR 0x0A])"

definition invarg :: "string \<Rightarrow> string \<Rightarrow> 'a cli" where
  "invarg msg arg = Exit (- 1) (''Error: argument \"'' @ arg @ ''\" is wrong: '' @ msg @ [CHR 0x0A])"

definition duparg :: "string \<Rightarrow> string \<Rightarrow> 'a cli" where
  "duparg key arg = Exit (- 1) (''Error: duplicate \"'' @ key @ ''\": \"'' @ arg @ ''\" is the second value.'' @ [CHR 0x0A])"

definition duparg2 :: "string \<Rightarrow> string \<Rightarrow> 'a cli" where
  "duparg2 key arg = Exit (- 1) (''Error: either \"'' @ key @ ''\" is duplicate, or \"'' @ arg @ ''\" is a garbage.'' @ [CHR 0x0A])"

text \<open>\<open>NEXT_ARG\<close>: the argument vector is the list that starts at the current argument.\<close>

definition NEXT_ARG :: "string list \<Rightarrow> string list cli" where
  "NEXT_ARG argv = (if length (tl argv) \<le> 0 then incomplete_command else Ret (tl argv))"

lemma NEXT_ARG_shorter: "NEXT_ARG argv = Ret rest \<Longrightarrow> length rest < length argv"
  by (cases argv) (auto simp: NEXT_ARG_def incomplete_command_def split: if_splits)

section \<open>Keywords\<close>

definition matches :: "string \<Rightarrow> string \<Rightarrow> int" where
  "matches cmd pattern =
     (let len = length cmd
      in if length pattern < len then - 1 else memcmp pattern cmd len)"

lemma memcmp_eq_0: "memcmp a b n = 0 \<longleftrightarrow> take n a = take n b" if "n \<le> length a" "n \<le> length b"
  using that
proof (induction a b n rule: memcmp.induct)
  case (1 a as b bs n)
  then show ?case by simp
qed auto

text \<open>
  A word on the command line stands for a keyword exactly when it is a prefix of it;
  the empty word stands for every keyword.
\<close>
lemma matches_prefix: "matches cmd pattern = 0 \<longleftrightarrow> prefix cmd pattern"
proof (cases "length pattern < length cmd")
  case True
  then show ?thesis using prefix_length_le by (fastforce simp: matches_def)
next
  case False
  then have "matches cmd pattern = 0 \<longleftrightarrow> take (length cmd) pattern = cmd"
    by (simp add: matches_def memcmp_eq_0)
  also have "\<dots> \<longleftrightarrow> prefix cmd pattern" by (metis append_take_drop_id prefix_def append_eq_conv_conj)
  finally show ?thesis .
qed

section \<open>Batch files\<close>

text \<open>\<open>getline\<close>: the next line with its newline, and what is left of the file.\<close>

definition getline :: "string \<Rightarrow> (string \<times> string) option" where
  "getline fp =
     (if fp = [] then None
      else let l = takeWhile (\<lambda>c. c \<noteq> CHR 0x0A) fp;
               r = dropWhile (\<lambda>c. c \<noteq> CHR 0x0A) fp
           in Some (if r = [] then (l, []) else (l @ [CHR 0x0A], tl r)))"

definition strip_comment :: "string \<Rightarrow> string" where
  "strip_comment l = takeWhile (\<lambda>c. c \<noteq> CHR ''#'') l"

text \<open>The text before the first backslash followed by a newline.\<close>

fun before_continuation :: "string \<Rightarrow> string option" where
  "before_continuation (a # b # s) =
     (if a = CHR 0x5C \<and> b = CHR 0x0A then Some [] else map_option ((#) a) (before_continuation (b # s)))"
| "before_continuation _ = None"

lemma getline_shorter: "length r < length fp" if "getline fp = Some (l, r)" for fp
  using that length_dropWhile_le [of "\<lambda>c. c \<noteq> CHR 0x0A" fp]
  by (cases "dropWhile (\<lambda>c. c \<noteq> CHR 0x0A) fp") (auto simp: getline_def Let_def split: if_splits)

text \<open>
  The loop of \<open>getcmdline\<close>; memory allocation succeeds. The result holds the returned count,
  the line, the rest of the fp and the line counter; it is negative at the end of the fp.
\<close>

function getcmdline_loop :: "int \<Rightarrow> string \<Rightarrow> string \<Rightarrow> int \<Rightarrow> int \<times> string \<times> string \<times> int" where
  "getcmdline_loop cc line fp cmdlineno =
     (case before_continuation line of
        None \<Rightarrow> (cc, line, fp, cmdlineno)
      | Some pre \<Rightarrow>
          (case getline fp of
             None \<Rightarrow> (- 1, line, fp, cmdlineno)
           | Some (line1, fp') \<Rightarrow>
               getcmdline_loop (cc + (int (length line1) - 2)) (pre @ strip_comment line1) fp' (cmdlineno + 1)))"
  by pat_completeness auto

termination
  by (relation "measure (\<lambda>(_, _, fp, _). length fp)") (auto simp: getline_shorter)

declare getcmdline_loop.simps [simp del]

definition getcmdline :: "string \<Rightarrow> int \<Rightarrow> int \<times> string \<times> string \<times> int" where
  "getcmdline fp cmdlineno =
     (case getline fp of
        None \<Rightarrow> (- 1, [], fp, cmdlineno)
      | Some (line, fp') \<Rightarrow> getcmdline_loop (int (length line)) (strip_comment line) fp' (cmdlineno + 1))"

section \<open>Splitting a line\<close>

definition makeargs_ws :: "char list" where
  "makeargs_ws = [CHR '' '', CHR 0x09, CHR 0x0D, CHR 0x0A]"

fun makeargs_loop :: "string list \<Rightarrow> string list \<Rightarrow> int \<Rightarrow> string list cli" where
  "makeargs_loop [] argv maxargs = Ret argv"
| "makeargs_loop (cp # cps) argv maxargs =
     (if maxargs - 1 \<le> int (length argv) then Exit 1 (''Too many arguments to command'' @ [CHR 0x0A])
      else makeargs_loop cps (argv @ [cp]) maxargs)"

text \<open>The result is the argument vector; its length is the count the function returns.\<close>

definition makeargs :: "string \<Rightarrow> int \<Rightarrow> string list cli" where
  "makeargs line maxargs = makeargs_loop (strtok_all makeargs_ws line) [] maxargs"

lemma makeargs_loop_eq:
  "int (length argv) < maxargs \<Longrightarrow> makeargs_loop cps argv maxargs =
    (if int (length argv + length cps) \<le> maxargs - 1 then Ret (argv @ cps)
     else Exit 1 (''Too many arguments to command'' @ [CHR 0x0A]))"
  by (induction cps argv maxargs rule: makeargs_loop.induct) auto

lemma strtok_all_step:
  assumes "t \<noteq> []" "set t \<inter> set ws = {}" "set sep \<subseteq> set ws" "rest = [] \<or> hd rest \<in> set ws"
  shows "strtok_all ws (sep @ t @ rest) = t # strtok_all ws rest"
proof -
  have d: "dropWhile (\<lambda>c. c \<in> set ws) (sep @ t @ rest) = t @ rest"
    using assms(1-3) by (cases t) (auto simp: dropWhile_append2 subset_iff)
  have "takeWhile (\<lambda>c. c \<notin> set ws) (t @ rest) = t" "dropWhile (\<lambda>c. c \<notin> set ws) (t @ rest) = rest"
    using assms(2,4) by (auto intro!: takeWhile_prefix)
  then show ?thesis using assms(1) by (subst strtok_all.simps) (simp add: d Let_def)
qed

lemma strtok_all_blank: "set sep \<subseteq> set ws \<Longrightarrow> strtok_all ws sep = []"
  by (subst strtok_all.simps) (auto simp: Let_def subset_iff)

text \<open>Words, each with the blanks in front of it, and blanks at the end.\<close>

definition spaced :: "(string \<times> string) list \<Rightarrow> string \<Rightarrow> string" where
  "spaced xs e = concat (map (\<lambda>(sep, t). sep @ t) xs) @ e"

lemma strtok_all_spaced:
  assumes "\<forall>(sep, t) \<in> set xs. sep \<noteq> [] \<and> set sep \<subseteq> set ws \<and> t \<noteq> [] \<and> set t \<inter> set ws = {}" "set e \<subseteq> set ws"
  shows "strtok_all ws (spaced xs e) = map snd xs"
  using assms(1)
proof (induction xs)
  case Nil
  then show ?case using strtok_all_blank [OF assms(2)] by (simp add: spaced_def)
next
  case (Cons x xs)
  obtain sep t where x: "x = (sep, t)" by fastforce
  have "spaced xs e = [] \<or> hd (spaced xs e) \<in> set ws"
    using Cons.prems assms(2) by (cases xs; cases e) (auto simp: spaced_def hd_append subset_iff)
  then have "strtok_all ws (sep @ t @ spaced xs e) = t # strtok_all ws (spaced xs e)"
    using Cons.prems by (intro strtok_all_step) (auto simp: x)
  then show ?case using Cons by (simp add: x spaced_def)
qed

text \<open>
  Splitting a line gives its words in order, whatever blanks separate them, when there
  are fewer of them than \<open>maxargs\<close>, and ends the process with status 1 otherwise.
\<close>
lemma makeargs_words:
  assumes "0 < maxargs" "set e \<subseteq> set makeargs_ws"
    and "\<forall>(sep, t) \<in> set xs. sep \<noteq> [] \<and> set sep \<subseteq> set makeargs_ws \<and> t \<noteq> [] \<and> set t \<inter> set makeargs_ws = {}"
  shows "makeargs (spaced xs e) maxargs =
    (if int (length xs) < maxargs then Ret (map snd xs) else Exit 1 (''Too many arguments to command'' @ [CHR 0x0A]))"
  using assms(1) makeargs_loop_eq [of "[]" maxargs "map snd xs"]
  by (simp add: makeargs_def strtok_all_spaced [OF assms(3,2)])

section \<open>Continuation lines\<close>

definition plain_line :: "string \<Rightarrow> bool" where
  "plain_line l \<longleftrightarrow> CHR ''#'' \<notin> set l \<and> CHR 0x5C \<notin> set l \<and> CHR 0x0A \<notin> set l"

text \<open>A file of lines joined by continuation marks, with the rest of the file after it.\<close>

definition continued :: "string list \<Rightarrow> string \<Rightarrow> string \<Rightarrow> string" where
  "continued ls l rest = concat (map (\<lambda>l. l @ [CHR 0x5C, CHR 0x0A]) ls) @ l @ [CHR 0x0A] @ rest"

lemma before_continuation_plain:
  "CHR 0x5C \<notin> set l \<Longrightarrow> before_continuation (l @ [CHR 0x5C, CHR 0x0A]) = Some l"
  "CHR 0x5C \<notin> set l \<Longrightarrow> before_continuation (l @ [CHR 0x0A]) = None"
  by (induction l rule: before_continuation.induct; auto)+

lemma getline_newline:
  assumes "CHR 0x0A \<notin> set l"
  shows "getline (l @ CHR 0x0A # rest) = Some (l @ [CHR 0x0A], rest)"
proof -
  have "\<forall>c \<in> set l. c \<noteq> CHR 0x0A" using assms by auto
  note takeWhile_prefix [where rest = "CHR 0x0A # rest", OF this, simplified]
  then show ?thesis by (simp add: getline_def Let_def)
qed

lemma strip_comment_plain: "CHR ''#'' \<notin> set l \<Longrightarrow> strip_comment l = l"
  by (auto simp: strip_comment_def takeWhile_eq_all_conv)

lemma getcmdline_loop_joins:
  assumes "CHR 0x5C \<notin> set pre" "list_all plain_line ls" "plain_line l"
  shows "getcmdline_loop cc (pre @ [CHR 0x5C, CHR 0x0A]) (continued ls l rest) k =
    (cc + int (length (concat ls @ l)) - 1, pre @ concat ls @ l @ [CHR 0x0A], rest, k + int (length ls) + 1)"
  using assms
proof (induction ls arbitrary: cc pre k)
  case Nil
  have "getline (continued [] l rest) = Some (l @ [CHR 0x0A], rest)"
    using Nil.prems getline_newline [of l rest] by (simp add: continued_def plain_line_def)
  moreover have "before_continuation (pre @ l @ [CHR 0x0A]) = None"
    using before_continuation_plain(2) [of "pre @ l"] Nil.prems by (simp add: plain_line_def)
  ultimately show ?case
    using Nil.prems before_continuation_plain(1) [of pre] strip_comment_plain [of "l @ [CHR 0x0A]"]
    by (simp add: getcmdline_loop.simps [of cc] getcmdline_loop.simps [of _ _ rest] plain_line_def)
next
  case (Cons x ls)
  have "getline (continued (x # ls) l rest) = Some (x @ [CHR 0x5C, CHR 0x0A], continued ls l rest)"
    using Cons.prems getline_newline [of "x @ [CHR 0x5C]" "continued ls l rest"] by (simp add: continued_def plain_line_def)
  moreover have "strip_comment (x @ [CHR 0x5C, CHR 0x0A]) = x @ [CHR 0x5C, CHR 0x0A]"
    using Cons.prems by (intro strip_comment_plain) (simp add: plain_line_def)
  ultimately show ?case
    using Cons.prems Cons.IH [of "pre @ x"] before_continuation_plain(1) [of pre]
    by (simp add: getcmdline_loop.simps [of cc] plain_line_def)
qed

text \<open>
  Lines ended by a backslash are joined to one command line without the backslashes and
  newlines; the returned count is the length of the joined line, the line counter moves on
  by the number of lines read, and the rest of the file is left for the next call.
\<close>
lemma getcmdline_joins:
  assumes "list_all plain_line ls" "plain_line l"
  shows "getcmdline (continued ls l rest) k =
    (int (length (concat ls @ l @ [CHR 0x0A])), concat ls @ l @ [CHR 0x0A], rest, k + int (length ls) + 1)"
proof (cases ls)
  case Nil
  have "getline (continued [] l rest) = Some (l @ [CHR 0x0A], rest)"
    using assms getline_newline [of l rest] by (simp add: continued_def plain_line_def)
  then show ?thesis
    using assms Nil before_continuation_plain(2) [of l] strip_comment_plain [of "l @ [CHR 0x0A]"]
    by (simp add: getcmdline_def getcmdline_loop.simps plain_line_def)
next
  case (Cons x xs)
  have "getline (continued (x # xs) l rest) = Some (x @ [CHR 0x5C, CHR 0x0A], continued xs l rest)"
    using assms Cons getline_newline [of "x @ [CHR 0x5C]" "continued xs l rest"] by (simp add: continued_def plain_line_def)
  moreover have "strip_comment (x @ [CHR 0x5C, CHR 0x0A]) = x @ [CHR 0x5C, CHR 0x0A]"
    using assms Cons by (intro strip_comment_plain) (simp add: plain_line_def)
  ultimately show ?thesis
    using assms Cons getcmdline_loop_joins [of x xs l _ rest "k + 1"] by (simp add: getcmdline_def plain_line_def)
qed

end
