(* ===== verification/Lib_Addr.thy ===== *)
theory Lib_Addr
  imports C_String Byte_Order
begin

text \<open>
  The DECnet and IPX addresses of \<open>lib/dnet_pton.c\<close>, \<open>lib/dnet_ntop.c\<close>, \<open>lib/ipx_pton.c\<close> and
  \<open>lib/ipx_ntop.c\<close>. A printing function writes into a buffer of \<open>len\<close> characters; the model
  returns the characters written, whose number is the variable \<open>pos\<close> of the code, and
  whether a terminating NUL was written after them.
\<close>

section \<open>Address families\<close>

definition AF_UNSPEC :: s32 where "AF_UNSPEC = 0"
definition AF_INET :: s32 where "AF_INET = 2"
definition AF_IPX :: s32 where "AF_IPX = 4"
definition AF_INET6 :: s32 where "AF_INET6 = 10"
definition AF_DECnet :: s32 where "AF_DECnet = 12"
definition AF_PACKET :: s32 where "AF_PACKET = 17"

lemmas AF_defs = AF_UNSPEC_def AF_INET_def AF_IPX_def AF_INET6_def AF_DECnet_def AF_PACKET_def

type_synonym text_buf = "string \<times> bool"

section \<open>DECnet\<close>

record dn_naddr =
  a_len :: u16
  a_addr :: "u8 list"

text \<open>Both byte order functions read the two bytes of a word as a little-endian number.\<close>

definition dn_htons :: "u16 \<Rightarrow> u16" where
  "dn_htons addr = le16 (le16_bytes addr)"

definition dn_ntohs :: "u16 \<Rightarrow> u16" where
  "dn_ntohs addr = le16 (le16_bytes addr)"

text \<open>\<open>dnet_num\<close>: the number of digits and their value modulo 2 ^ 16.\<close>

fun dnet_num_loop :: "string \<Rightarrow> nat \<Rightarrow> u16 \<Rightarrow> nat \<times> u16" where
  "dnet_num_loop [] rv dst = (rv, dst)"
| "dnet_num_loop (c # src) rv dst =
     (let tmp = of_char c - 48 :: int
      in if tmp < 0 \<or> 9 < tmp then (rv, dst)
         else dnet_num_loop src (rv + 1) (dst * 10 + word_of_int tmp))"

definition dnet_num :: "string \<Rightarrow> nat \<times> u16" where
  "dnet_num src = dnet_num_loop src 0 0"

definition dnet_pton1 :: "string \<Rightarrow> dn_naddr \<Rightarrow> int \<times> dn_naddr" where
  "dnet_pton1 src dna =
     (let (pos, area) = dnet_num src
      in if pos = 0 \<or> 63 < area \<or> take 1 (drop pos src) \<noteq> ''.'' then (0, dna)
         else let (pos', node) = dnet_num (drop (pos + 1) src)
              in if pos' = 0 \<or> 1023 < node then (0, dna)
                 else (1, dna\<lparr>a_len := 2,
                        a_addr := le16_bytes (dn_htons (push_bit 10 area OR node)) @ drop 2 (a_addr dna)\<rparr>))"

definition dnet_pton :: "s32 \<Rightarrow> string \<Rightarrow> dn_naddr \<Rightarrow> int \<times> dn_naddr" where
  "dnet_pton af src addr = (if af = AF_DECnet then dnet_pton1 src addr else (- 1, addr))"

text \<open>
  One digit of weight \<open>scale\<close>. The flag of the result says that the buffer is full; the
  state is the text so far, what is left of the number, and whether a digit was written.
\<close>

definition dnet_do_digit :: "nat \<Rightarrow> u16 \<Rightarrow> string \<times> u16 \<times> bool \<Rightarrow> bool \<times> string \<times> u16 \<times> bool" where
  "dnet_do_digit len scale = (\<lambda>(str, addr, started).
     let tmp = addr div scale
     in if length str = len then (True, str, addr, started)
        else if 0 < tmp \<or> started \<or> scale = 1
        then (False, str @ [char_of (unat tmp + 48)], addr - tmp * scale, True)
        else (False, str, addr, started))"

fun dnet_do_digits :: "nat \<Rightarrow> u16 list \<Rightarrow> string \<times> u16 \<times> bool \<Rightarrow> bool \<times> string \<times> u16 \<times> bool" where
  "dnet_do_digits len [] st = (False, st)"
| "dnet_do_digits len (scale # scales) st =
     (case dnet_do_digit len scale st of
        (True, st') \<Rightarrow> (True, st')
      | (False, st') \<Rightarrow> dnet_do_digits len scales st')"

definition dnet_ntop1 :: "dn_naddr \<Rightarrow> nat \<Rightarrow> text_buf option" where
  "dnet_ntop1 dna len =
     (let addr = dn_ntohs (le16 (a_addr dna));
          area = drop_bit 10 addr
      in if a_len dna \<noteq> 2 then None
         else let addr = addr AND 0x03ff
              in if len = 0 then Some ([], False)
                 else case dnet_do_digits len [10, 1] ([], area, False) of
                        (True, str, _) \<Rightarrow> Some (str, False)
                      | (False, str, _) \<Rightarrow>
                          if length str = len then Some (str, False)
                          else (case dnet_do_digits len [1000, 100, 10, 1] (str @ ''.'', addr, False) of
                                  (True, str, _) \<Rightarrow> Some (str, False)
                                | (False, str, _) \<Rightarrow> Some (str, length str \<noteq> len)))"

definition dnet_ntop :: "s32 \<Rightarrow> dn_naddr \<Rightarrow> nat \<Rightarrow> text_buf option" where
  "dnet_ntop af addr len = (if af = AF_DECnet then dnet_ntop1 addr len else None)"

section \<open>IPX\<close>

record ipx_addr =
  ipx_net :: u32
  ipx_node :: "u8 list"

definition hexget :: "char \<Rightarrow> u32" where
  "hexget ch = (let c = of_char ch :: nat in
     if 65 \<le> c \<and> c \<le> 70 then word_of_nat (c - 65 + 10)
     else if 97 \<le> c \<and> c \<le> 102 then word_of_nat (c - 97 + 10)
     else if 48 \<le> c \<and> c \<le> 57 then word_of_nat (c - 48) else 0xf0)"

text \<open>\<open>ipx_getnet\<close>: at most eight digits; a point may end them, but only before the eighth.\<close>

fun ipx_getnet_loop :: "nat \<Rightarrow> u32 \<Rightarrow> string \<Rightarrow> int \<times> u32" where
  "ipx_getnet_loop i net [] = (0, net)"
| "ipx_getnet_loop i net (c # str) =
     (if i < 8 then
        (let tmp = hexget c
         in if tmp AND 0xf0 \<noteq> 0 then (if c = CHR ''.'' then (0, net) else (- 1, net))
            else ipx_getnet_loop (i + 1) (push_bit 4 net OR tmp) str)
      else (- 1, net))"

definition ipx_getnet :: "u32 \<Rightarrow> string \<Rightarrow> int \<times> u32" where
  "ipx_getnet net str = ipx_getnet_loop 0 net str"

text \<open>\<open>hexget\<close> of the character at the read position; the NUL at the end is no digit.\<close>

definition hexget_hd :: "string \<Rightarrow> u32" where
  "hexget_hd s = (case s of [] \<Rightarrow> 0xf0 | c # _ \<Rightarrow> hexget c)"

function ipx_getnode_loop :: "nat \<Rightarrow> u8 list \<Rightarrow> string \<Rightarrow> int \<times> u8 list" where
  "ipx_getnode_loop i node str =
     (if i < 6 then
        (let tmp = hexget_hd str
         in if tmp AND 0xf0 \<noteq> 0 then (- 1, node)
            else let node = node[i := push_bit 4 (ucast tmp)];
                     tmp = hexget_hd (drop 1 str)
                 in if tmp AND 0xf0 \<noteq> 0 then (- 1, node)
                    else let node = node[i := node ! i OR ucast tmp];
                             str = drop 2 str
                         in ipx_getnode_loop (i + 1) node (if take 1 str = '':'' then drop 1 str else str))
      else (0, node))"
  by pat_completeness auto

termination by (relation "measure (\<lambda>(i, _). 6 - i)") auto

declare ipx_getnode_loop.simps [simp del]

definition ipx_getnode :: "u8 list \<Rightarrow> string \<Rightarrow> int \<times> u8 list" where
  "ipx_getnode node str = ipx_getnode_loop 0 node str"

definition ipx_pton1 :: "string \<Rightarrow> int \<times> ipx_addr" where
  "ipx_pton1 src =
     (let addr = \<lparr>ipx_net = 0, ipx_node = replicate 6 0\<rparr>;
          sep = dropWhile (\<lambda>c. c \<noteq> CHR ''.'') src;
          no_node = (sep = []);
          (err, net) = ipx_getnet (ipx_net addr) src;
          addr = addr\<lparr>ipx_net := net\<rparr>
      in if err \<noteq> 0 then (0, addr)
         else let addr = addr\<lparr>ipx_net := htonl (ipx_net addr)\<rparr>
              in if no_node then (1, addr)
                 else let (err, node) = ipx_getnode (ipx_node addr) (drop 1 sep);
                          addr = addr\<lparr>ipx_node := node\<rparr>
                      in if err \<noteq> 0 then (0, addr) else (1, addr))"

text \<open>For another family the function returns \<open>-1\<close> without touching the address.\<close>

definition ipx_pton :: "s32 \<Rightarrow> string \<Rightarrow> ipx_addr \<Rightarrow> int \<times> ipx_addr" where
  "ipx_pton af src addr = (if af = AF_IPX then ipx_pton1 src else (- 1, addr))"

definition ipx_do_digit :: "nat \<Rightarrow> u32 \<Rightarrow> nat \<Rightarrow> string \<Rightarrow> bool \<times> string" where
  "ipx_do_digit len addr scale str =
     (let tmp = drop_bit (scale * 4) addr AND 0x0f
      in if length str = len then (True, str)
         else (False, str @ [char_of (if 9 < tmp then unat tmp + 65 - 10 else unat tmp + 48)]))"

fun ipx_do_digits :: "nat \<Rightarrow> (u32 \<times> nat) list \<Rightarrow> string \<Rightarrow> bool \<times> string" where
  "ipx_do_digits len [] str = (False, str)"
| "ipx_do_digits len ((addr, scale) # ds) str =
     (case ipx_do_digit len addr scale str of
        (True, str') \<Rightarrow> (True, str')
      | (False, str') \<Rightarrow> ipx_do_digits len ds str')"

definition ipx_ntop1 :: "ipx_addr \<Rightarrow> nat \<Rightarrow> text_buf" where
  "ipx_ntop1 addr len =
     (if len = 0 then ([], False)
      else case ipx_do_digits len (map (\<lambda>i. (ntohl (ipx_net addr), i)) (rev [0..<8])) [] of
             (True, str) \<Rightarrow> (str, False)
           | (False, str) \<Rightarrow>
               if length str = len then (str, False)
               else (case ipx_do_digits len (concat (map (\<lambda>i. [(ucast (ipx_node addr ! i), 1), (ucast (ipx_node addr ! i), 0)]) [0..<6])) (str @ ''.'') of
                       (True, str) \<Rightarrow> (str, False)
                     | (False, str) \<Rightarrow> (str, length str \<noteq> len)))"

definition ipx_ntop :: "s32 \<Rightarrow> ipx_addr \<Rightarrow> nat \<Rightarrow> text_buf option" where
  "ipx_ntop af addr len = (if af = AF_IPX then Some (ipx_ntop1 addr len) else None)"

section \<open>What DECnet prints is what it reads\<close>

text \<open>The digits of a number below 10000, and what the digit loop makes of them.\<close>

lemma unat_u16_of_nat: "n < 2 ^ 16 \<Longrightarrow> unat (word_of_nat n :: u16) = n"
  by (simp add: unat_of_nat)

lemma dnet_do_digit_nat:
  assumes "n < 2 ^ 16" "k < 2 ^ 16" "0 < k" "length s < len"
  shows "dnet_do_digit len (word_of_nat k) (s, word_of_nat n, st) =
    (if 0 < n div k \<or> st \<or> k = 1
     then (False, s @ [char_of (n div k + 48)], word_of_nat (n mod k), True)
     else (False, s, word_of_nat n, st))"
proof -
  have d: "unat ((word_of_nat n :: u16) div word_of_nat k) = n div k"
    using assms by (simp add: unat_div unat_of_nat)
  have le: "n div k * k \<le> n" "n div k < 2 ^ 16"
    using le_less_trans [OF div_le_dividend assms(1)] by simp_all
  have w: "(word_of_nat n :: u16) div word_of_nat k = word_of_nat (n div k)"
    using d le(2) by (simp add: word_unat_eq_iff unat_of_nat)
  then have "(word_of_nat n :: u16) - word_of_nat n div word_of_nat k * word_of_nat k = word_of_nat (n - n div k * k)"
    using le(1) by (simp add: of_nat_diff)
  also have "n - n div k * k = n mod k" by (simp add: minus_div_mult_eq_mod)
  finally show ?thesis
    using assms d by (auto simp: dnet_do_digit_def Let_def word_less_nat_alt word_unat_eq_iff unat_u16_of_nat)
qed

lemmas dnet_do_digit_num =
  dnet_do_digit_nat [of _ 1000, simplified] dnet_do_digit_nat [of _ 100, simplified]
  dnet_do_digit_nat [of _ 10, simplified] dnet_do_digit_nat [of _ 1, simplified]

lemma char_digit: "d < 10 \<Longrightarrow> char_of (d + 48) = digit_char d"
  by (simp add: digit_char_def add.commute)

lemma show_dec_ge: "10 \<le> n \<Longrightarrow> show_dec n = show_dec (n div 10) @ [digit_char (n mod 10)]"
  by (simp add: show_base.simps [of 10 n])

lemma show_dec_steps:
  "n < 10 \<Longrightarrow> show_dec n = [digit_char n]"
  "10 \<le> n \<Longrightarrow> n < 100 \<Longrightarrow> show_dec n = [digit_char (n div 10), digit_char (n mod 10)]"
  "100 \<le> n \<Longrightarrow> n < 1000 \<Longrightarrow> show_dec n = [digit_char (n div 100), digit_char (n mod 100 div 10), digit_char (n mod 10)]"
  "1000 \<le> n \<Longrightarrow> n < 10000 \<Longrightarrow> show_dec n =
     [digit_char (n div 1000), digit_char (n mod 1000 div 100), digit_char (n mod 100 div 10), digit_char (n mod 10)]"
proof -
  show one: "show_dec n = [digit_char n]" if "n < 10" for n using that by (simp add: show_base.simps)
  show two: "show_dec n = [digit_char (n div 10), digit_char (n mod 10)]" if "10 \<le> n" "n < 100" for n
    using that one [of "n div 10"] by (simp add: show_dec_ge)
  have dm: "n div 10 mod 10 = n mod 100 div 10" for n :: nat
    using mod_mult2_eq [of n 10 10] by simp
  show three: "show_dec n = [digit_char (n div 100), digit_char (n mod 100 div 10), digit_char (n mod 10)]"
    if "100 \<le> n" "n < 1000" for n
    using that two [of "n div 10"] by (simp add: show_dec_ge [of n] dm flip: div_mult2_eq)
  have dm': "n div 10 mod 100 div 10 = n mod 1000 div 100" for n :: nat
    using mod_mult2_eq [of n 10 100] div_mult2_eq [of "n mod 1000" 10 10] by simp
  show "show_dec n = [digit_char (n div 1000), digit_char (n mod 1000 div 100), digit_char (n mod 100 div 10), digit_char (n mod 10)]"
    if "1000 \<le> n" "n < 10000"
    using that three [of "n div 10"] by (simp add: show_dec_ge [of n] dm dm' flip: div_mult2_eq)
qed

lemma dnet_digits2:
  assumes "n < 100" "length s + 2 \<le> len"
  shows "dnet_do_digits len [10, 1] (s, word_of_nat n, False) = (False, s @ show_dec n, 0, True)"
proof (cases "n < 10")
  case True
  then show ?thesis using assms by (simp add: dnet_do_digit_num show_dec_steps char_digit)
next
  case False
  then show ?thesis using assms by (simp add: dnet_do_digit_num show_dec_steps char_digit)
qed

lemma dnet_digits4:
  assumes "n < 10000" "length s + 4 \<le> len"
  shows "dnet_do_digits len [1000, 100, 10, 1] (s, word_of_nat n, False) = (False, s @ show_dec n, 0, True)"
proof -
  consider "n < 10" | "10 \<le> n" "n < 100" | "100 \<le> n" "n < 1000" | "1000 \<le> n" "n < 10000"
    using assms(1) by linarith
  then show ?thesis
    using assms(2) by cases (simp_all add: dnet_do_digit_num show_dec_steps char_digit mod_mod_cancel)
qed

lemma dnet_num_digits:
  assumes "list_all (is_digit 10) ds"
  shows "dnet_num_loop (ds @ rest) rv dst =
    dnet_num_loop rest (rv + length ds) (foldl (\<lambda>a c. a * 10 + word_of_nat (the (digit_val c))) dst ds)"
  using assms
proof (induction ds arbitrary: rv dst)
  case (Cons c ds)
  then obtain d where d: "digit_val c = Some d" "d < 10" by (auto simp: is_digit_def split: option.splits)
  then have "(of_char c :: nat) = 48 + d" by (auto simp: digit_val_def Let_def split: if_splits)
  then have "(of_char c :: int) = 48 + int d" by (metis of_nat_add of_nat_numeral of_nat_of_char)
  then show ?case using Cons d by simp
qed simp

lemma foldl_digits_u16:
  "foldl (\<lambda>a c. a * 10 + word_of_nat (the (digit_val c))) (0 :: u16) ds = word_of_nat (digits_val 10 ds)"
  by (induction ds rule: rev_induct) (simp_all add: digits_val_snoc, simp add: digits_val_def)

lemma dnet_num_show:
  assumes "rest = [] \<or> (\<exists>cs. rest = CHR ''.'' # cs)"
  shows "dnet_num (show_dec n @ rest) = (length (show_dec n), word_of_nat n)"
proof -
  have "dnet_num_loop rest rv dst = (rv, dst)" for rv dst using assms by auto
  then show ?thesis
    using show_base_digits [of 10 n] by (simp add: dnet_num_def dnet_num_digits foldl_digits_u16)
qed

lemma u16_area_node:
  "drop_bit 10 w = word_of_nat (unat w div 1024)" "w AND 0x03ff = word_of_nat (unat w mod 1024)" for w :: u16
proof -
  have "0x03ff = (mask 10 :: u16)" by (simp add: mask_eq_exp_minus_1)
  then have m: "w AND 0x03ff = take_bit 10 w" by (simp add: take_bit_eq_mask)
  have "unat w div 1024 < 2 ^ 16"
    using le_less_trans [OF div_le_dividend unat_bound [of w]] by simp
  then show "drop_bit 10 w = word_of_nat (unat w div 1024)"
    by (simp add: word_unat_eq_iff unat_drop_bit_eq unat_of_nat, simp add: drop_bit_eq_div unat_div)
  have "unat w mod 1024 < 2 ^ 16" by (rule less_trans [OF mod_less_divisor]) simp_all
  then show "w AND 0x03ff = word_of_nat (unat w mod 1024)"
    unfolding m by (simp add: word_unat_eq_iff take_bit_eq_mod unat_mod unat_of_nat)
qed

lemma u16_join: "push_bit 10 (drop_bit 10 w) OR (w AND 0x03ff) = (w :: u16)"
proof -
  have "0x03ff = (mask 10 :: u16)" by (simp add: mask_eq_exp_minus_1)
  show ?thesis unfolding \<open>0x03ff = (mask 10 :: u16)\<close> by (intro bit_word_eqI) (auto simp: bit_simps)
qed

lemma show_dec_length: "n < 10 ^ Suc k \<Longrightarrow> length (show_dec n) \<le> Suc k"
  by (rule length_show_base) simp_all

text \<open>
  A DECnet address printed into a buffer of at least eight characters is the text
  \<open>area.node\<close>, terminated, and reading that text gives the address back.
\<close>
lemma dnet_roundtrip:
  assumes "a_len dna = 2" "2 \<le> length (a_addr dna)" "8 \<le> len"
  shows "\<exists>str. dnet_ntop AF_DECnet dna len = Some (str, True)
    \<and> str = show_dec (unat (le16 (a_addr dna)) div 1024) @ ''.'' @ show_dec (unat (le16 (a_addr dna)) mod 1024)
    \<and> dnet_pton AF_DECnet str dna = (1, dna)"
proof -
  define w where "w = le16 (a_addr dna)"
  define area where "area = unat w div 1024"
  define node where "node = unat w mod 1024"
  let ?str = "show_dec area @ ''.'' @ show_dec node"
  have b: "area < 64" "node < 1024" unfolding area_def node_def using unat_bound [of w] by simp_all
  have a: "drop_bit 10 w = word_of_nat area" "w AND 0x03ff = word_of_nat node"
    unfolding area_def node_def by (rule u16_area_node)+
  have l: "length (show_dec area) \<le> 2" "length (show_dec node) \<le> 4"
    using b show_dec_length [of area 1] show_dec_length [of node 3] by simp_all
  have p: "dnet_ntop AF_DECnet dna len = Some (?str, True)"
    using assms b l dnet_digits2 [of area "[]" len] dnet_digits4 [of node "show_dec area @ ''.''" len]
    by (simp add: dnet_ntop_def dnet_ntop1_def dn_ntohs_def a le16_le16_bytes [of _ "[]", simplified] flip: w_def)
  have "le16_bytes w @ drop 2 (a_addr dna) = a_addr dna"
    using le16_bytes_le16 [of "take 2 (a_addr dna)"] assms(2) by (simp add: w_def le16_def)
  moreover have "unat (drop_bit 10 w) < 64" "unat (w AND 0x03ff) < 1024"
    using b by (simp_all add: a unat_u16_of_nat)
  ultimately have "dnet_pton AF_DECnet ?str dna = (1, dna)"
    using b assms(1) dnet_num_show [of "''.'' @ show_dec node" area] dnet_num_show [of "[]" node] u16_join [of w]
    by (simp add: dnet_pton_def dnet_pton1_def word_less_nat_alt dn_htons_def
        le16_le16_bytes [of _ "[]", simplified] flip: a)
  with p show ?thesis unfolding area_def node_def w_def by blast
qed

section \<open>What IPX prints it does not read\<close>

lemma hexget_digit:
  "n < 16 \<Longrightarrow> hexget (char_of (if 9 < n then n + 65 - 10 else n + 48)) = word_of_nat n"
  by (auto simp: hexget_def Let_def)

lemma low_nibble: "n < 16 \<Longrightarrow> (word_of_nat n :: u32) AND 0xf0 = 0"
proof -
  assume "n < 16"
  then have "(word_of_nat n :: u32) = take_bit 4 (word_of_nat n)"
    by (simp add: word_unat_eq_iff take_bit_eq_mod unat_mod unat_of_nat)
  moreover have "(0xf0 :: u32) = push_bit 4 0xf" by simp
  moreover have "take_bit 4 v AND push_bit 4 w = 0" for v w :: u32
    by (rule bit_word_eqI) (auto simp: bit_simps)
  ultimately show ?thesis by metis
qed

lemma ipx_do_digits_append:
  assumes "length str + length ds < len"
  shows "\<exists>cs. ipx_do_digits len ds str = (False, str @ cs) \<and> length cs = length ds
    \<and> (\<forall>c \<in> set cs. hexget c AND 0xf0 = 0)"
  using assms
proof (induction ds arbitrary: str)
  case (Cons d ds)
  obtain addr scale where d: "d = (addr, scale)" by fastforce
  define tmp where "tmp = drop_bit (scale * 4) addr AND 0x0f"
  define c where "c = (char_of (if 9 < unat tmp then unat tmp + 65 - 10 else unat tmp + 48) :: char)"
  have "0x0f = (mask 4 :: u32)" by (simp add: mask_eq_exp_minus_1)
  then have m: "tmp = take_bit 4 (drop_bit (scale * 4) addr)" by (simp add: tmp_def take_bit_eq_mask)
  then have t: "unat tmp < 16" by (simp add: take_bit_eq_mod unat_mod)
  have "ipx_do_digit len addr scale str = (False, str @ [c])"
    using Cons.prems by (simp add: ipx_do_digit_def Let_def c_def word_less_nat_alt flip: tmp_def)
  moreover have "hexget c AND 0xf0 = 0"
    using hexget_digit [OF t] low_nibble [OF t] by (simp add: c_def)
  ultimately show ?case using Cons.IH [of "str @ [c]"] Cons.prems by (auto simp: d)
qed simp

lemma ipx_getnet_full:
  assumes "\<forall>c \<in> set cs. hexget c AND 0xf0 = 0" "i + length cs = 8"
  shows "fst (ipx_getnet_loop i net (cs @ CHR ''.'' # rest)) = - 1"
  using assms by (induction cs arbitrary: i net) auto

text \<open>
  The text of an IPX address has eight digits of network number before the point, and
  reading a network number of eight digits fails unless the string ends there. So no
  printed IPX address is ever read back.
\<close>
lemma ipx_no_roundtrip:
  assumes "22 \<le> len"
  shows "\<exists>str. ipx_ntop AF_IPX addr len = Some (str, True) \<and> length str = 21 \<and> fst (ipx_pton AF_IPX str dst) = 0"
proof -
  let ?net = "map (\<lambda>i. (ntohl (ipx_net addr), i)) (rev [0..<8])"
  let ?node = "concat (map (\<lambda>i. [(ucast (ipx_node addr ! i), 1), (ucast (ipx_node addr ! i), 0)]) [0..<6]) :: (u32 \<times> nat) list"
  obtain cs where cs: "ipx_do_digits len ?net [] = (False, cs)" "length cs = 8" "\<forall>c \<in> set cs. hexget c AND 0xf0 = 0"
    using ipx_do_digits_append [of "[]" ?net len] assms by auto
  have l: "length ?node = 12" by (simp add: upt_rec)
  obtain ds where ds: "ipx_do_digits len ?node (cs @ ''.'') = (False, cs @ ''.'' @ ds)" "length ds = 12"
    using ipx_do_digits_append [of "cs @ ''.''" ?node len] assms cs(2) l by auto
  have "ipx_ntop AF_IPX addr len = Some (cs @ ''.'' @ ds, True)"
    using assms cs ds by (simp add: ipx_ntop_def ipx_ntop1_def)
  moreover have "fst (ipx_getnet 0 (cs @ ''.'' @ ds)) = - 1"
    using ipx_getnet_full [of cs 0 0 ds] cs by (simp add: ipx_getnet_def)
  then have "fst (ipx_pton AF_IPX (cs @ ''.'' @ ds) dst) = 0"
    by (cases "ipx_getnet 0 (cs @ ''.'' @ ds)") (simp add: ipx_pton_def ipx_pton1_def Let_def)
  ultimately show ?thesis using cs ds by auto
qed

end
