(* ===== verification/Utils_Addr.thy ===== *)
theory Utils_Addr
  imports Utils_Num Utils_Cli Lib_Addr
begin

text \<open>
  Addresses and prefixes of \<open>lib/utils.c\<close>: netmasks, the dotted quad parser, address and
  prefix arguments, comparison under a prefix length, hexadecimal strings and the name
  cache. The library functions \<open>inet_pton\<close>, \<open>inet_ntop\<close> and the resolver are parameters.
\<close>

section \<open>Addresses\<close>

text \<open>The words of the field \<open>data\<close> are kept as the bytes that hold them.\<close>

record inet_prefix =
  ip_family :: u8
  ip_bytelen :: u8
  ip_bitlen :: u16
  ip_flags :: u32
  ip_data :: "u8 list"

definition zero_prefix :: inet_prefix where
  "zero_prefix = \<lparr>ip_family = 0, ip_bytelen = 0, ip_bitlen = 0, ip_flags = 0, ip_data = replicate 32 0\<rparr>"

definition PREFIXLEN_SPECIFIED :: u32 where
  "PREFIXLEN_SPECIFIED = 1"

text \<open>Bytes copied to the start of the data field.\<close>

definition put_data :: "u8 list \<Rightarrow> inet_prefix \<Rightarrow> inet_prefix" where
  "put_data bs addr = addr\<lparr>ip_data := bs @ drop (length bs) (ip_data addr)\<rparr>"

section \<open>Netmasks\<close>

lemma push_bit_out: "32 \<le> n \<Longrightarrow> push_bit n (m :: u32) = 0"
  by (intro bit_word_eqI) (auto simp: bit_simps)

lemma shift_set_smaller:
  assumes "m \<noteq> (0 :: u32)"
  shows "card {n. n < 32 \<and> push_bit n (push_bit 1 m) \<noteq> 0} < card {n. n < 32 \<and> push_bit n m \<noteq> 0}"
proof -
  let ?A = "{n. n < 32 \<and> push_bit n (push_bit 1 m) \<noteq> 0}" and ?B = "{n. n < 32 \<and> push_bit n m \<noteq> 0}"
  have "Suc n < 32" if "push_bit n (push_bit 1 m) \<noteq> 0" for n
  proof (rule ccontr)
    assume "\<not> Suc n < 32"
    then have "push_bit (n + 1) m = 0" by (intro push_bit_out) simp
    with that show False unfolding push_bit_push_bit by simp
  qed
  moreover have "push_bit (Suc n) m \<noteq> 0" if "push_bit n (push_bit 1 m) \<noteq> 0" for n
    using that unfolding push_bit_push_bit by simp
  ultimately have "Suc ` ?A \<subseteq> ?B - {0}" by (auto simp del: push_bit_Suc)
  then have "card (Suc ` ?A) \<le> card (?B - {0})" by (intro card_mono) auto
  then have "card ?A \<le> card (?B - {0})" by (simp add: card_image)
  also have "\<dots> < card ?B" using assms by (intro card_Diff1_less) auto
  finally show ?thesis .
qed

function mask2bits_loop :: "u32 \<Rightarrow> nat \<Rightarrow> nat" where
  "mask2bits_loop m bits = (if m = 0 then bits else mask2bits_loop (push_bit 1 m) (bits + 1))"
  by pat_completeness auto

termination
  by (relation "measure (\<lambda>(m, _). card {n. n < 32 \<and> push_bit n m \<noteq> 0})") (use shift_set_smaller in auto)

declare mask2bits_loop.simps [simp del]

definition mask2bits :: "u32 \<Rightarrow> int" where
  "mask2bits netmask =
     (let mask = ntohl netmask;
          host = NOT mask
      in if host AND (host + 1) \<noteq> 0 then - 1 else int (mask2bits_loop mask 0))"

section \<open>Dotted quads\<close>

function get_addr_ipv4_loop :: "nat \<Rightarrow> u8 list \<Rightarrow> string \<Rightarrow> int \<times> u8 list" where
  "get_addr_ipv4_loop i ap cp =
     (if i < 4 then
        (let (n, endp) = strtoul cp 0
         in if 255 < n then (- 1, ap)
            else if endp = cp then (- 1, ap)
            else let ap = ap[i := ucast n]
                 in if endp = [] then (1, ap)
                    else if i = 3 \<or> hd endp \<noteq> CHR ''.'' then (- 1, ap)
                    else get_addr_ipv4_loop (i + 1) ap (tl endp))
      else (1, ap))"
  by pat_completeness auto

termination
  by (relation "measure (\<lambda>(i, _). 4 - i)") auto

declare get_addr_ipv4_loop.simps [simp del]

definition get_addr_ipv4 :: "u8 list \<Rightarrow> string \<Rightarrow> int \<times> u8 list" where
  "get_addr_ipv4 ap cp = get_addr_ipv4_loop 0 ap cp"

section \<open>Address and prefix arguments\<close>

text \<open>
  \<open>inet_pton\<close> is the result of the library function on an IPv6 text: the sixteen bytes, or
  \<open>None\<close> when it returns zero or less. Every function returns the status of the C function
  and the structure, which a failing call may leave partly filled.
\<close>

definition get_addr_1 :: "(string \<Rightarrow> u8 list option) \<Rightarrow> string \<Rightarrow> s32 \<Rightarrow> int \<times> inet_prefix" where
  "get_addr_1 inet_pton name family =
     (let addr = zero_prefix
      in if name = ''default'' \<or> name = ''all'' \<or> name = ''any'' then
           (if family = AF_DECnet then (- 1, addr)
            else (0, addr\<lparr>ip_family := ucast family, ip_bytelen := (if family = AF_INET6 then 16 else 4), ip_bitlen := - 1\<rparr>))
         else if CHR '':'' \<in> set name then
           (let addr = addr\<lparr>ip_family := ucast AF_INET6\<rparr>
            in if family \<noteq> AF_UNSPEC \<and> family \<noteq> AF_INET6 then (- 1, addr)
               else case inet_pton name of
                      None \<Rightarrow> (- 1, addr)
                    | Some bs \<Rightarrow> (0, (put_data bs addr)\<lparr>ip_bytelen := 16, ip_bitlen := - 1\<rparr>))
         else if family = AF_DECnet then
           (let addr = addr\<lparr>ip_family := ucast AF_DECnet\<rparr>
            in case dnet_pton AF_DECnet name \<lparr>a_len = 0, a_addr = replicate 20 0\<rparr> of
                 (err, dna) \<Rightarrow>
                   if err \<le> 0 then (- 1, addr)
                   else (0, (put_data (take 2 (a_addr dna)) addr)\<lparr>ip_bytelen := 2, ip_bitlen := - 1\<rparr>))
         else
           (let addr = addr\<lparr>ip_family := ucast AF_INET\<rparr>
            in if family \<noteq> AF_UNSPEC \<and> family \<noteq> AF_INET then (- 1, addr)
               else let (r, ap) = get_addr_ipv4 (ip_data addr) name;
                        addr = addr\<lparr>ip_data := ap\<rparr>
                    in if r \<le> 0 then (- 1, addr)
                       else (0, addr\<lparr>ip_bytelen := 4, ip_bitlen := - 1\<rparr>)))"

definition get_netmask :: "(string \<Rightarrow> u8 list option) \<Rightarrow> string \<Rightarrow> nat \<Rightarrow> u32 option" where
  "get_netmask inet_pton arg base =
     (case get_unsigned arg base of
        Some v \<Rightarrow> Some v
      | None \<Rightarrow>
          (case get_addr_1 inet_pton arg AF_INET of
             (err, addr) \<Rightarrow>
               if err = 0 \<and> ip_family addr = ucast AF_INET then
                 (let b = mask2bits (le32 (ip_data addr)) in if 0 \<le> b then Some (word_of_int b) else None)
               else None))"

definition get_prefix_1 :: "(string \<Rightarrow> u8 list option) \<Rightarrow> string \<Rightarrow> s32 \<Rightarrow> int \<times> inet_prefix" where
  "get_prefix_1 inet_pton arg family =
     (if arg = ''default'' \<or> arg = ''any'' \<or> arg = ''all'' then
        (if family = AF_DECnet then (- 1, zero_prefix)
         else (0, zero_prefix\<lparr>ip_family := ucast family, ip_bytelen := 0, ip_bitlen := 0\<rparr>))
      else
        let slash = strchr arg (CHR ''/'');
            (err, dst) = get_addr_1 inet_pton (takeWhile (\<lambda>c. c \<noteq> CHR ''/'') arg) family
        in if err = 0 then
             let dst = dst\<lparr>ip_bitlen := (if ip_family dst = ucast AF_INET6 then 128
                            else if ip_family dst = ucast AF_DECnet then 16 else 32)\<rparr>
             in (case slash of
                   None \<Rightarrow> (err, dst)
                 | Some s \<Rightarrow>
                     (case get_netmask inet_pton (tl s) 0 of
                        None \<Rightarrow> (- 1, dst)
                      | Some plen \<Rightarrow>
                          if uint plen > sint (ip_bitlen dst) then (- 1, dst)
                          else (err, dst\<lparr>ip_flags := ip_flags dst OR PREFIXLEN_SPECIFIED, ip_bitlen := ucast plen\<rparr>)))
           else (err, dst))"

definition get_addr :: "(string \<Rightarrow> u8 list option) \<Rightarrow> string \<Rightarrow> s32 \<Rightarrow> inet_prefix cli" where
  "get_addr inet_pton arg family =
     (if family = AF_PACKET then
        Exit 1 (''Error: \"'' @ arg @ ''\" may be inet address, but it is not allowed in this context.'' @ [CHR 0x0A])
      else case get_addr_1 inet_pton arg family of (err, dst) \<Rightarrow>
        if err \<noteq> 0 then Exit 1 (''Error: an inet address is expected rather than \"'' @ arg @ ''\".'' @ [CHR 0x0A])
        else Ret dst)"

definition get_prefix :: "(string \<Rightarrow> u8 list option) \<Rightarrow> string \<Rightarrow> s32 \<Rightarrow> inet_prefix cli" where
  "get_prefix inet_pton arg family =
     (if family = AF_PACKET then
        Exit 1 (''Error: \"'' @ arg @ ''\" may be inet prefix, but it is not allowed in this context.'' @ [CHR 0x0A])
      else case get_prefix_1 inet_pton arg family of (err, dst) \<Rightarrow>
        if err \<noteq> 0 then Exit 1 (''Error: an inet prefix is expected rather than \"'' @ arg @ ''\".'' @ [CHR 0x0A])
        else Ret dst)"

definition get_addr32 :: "(string \<Rightarrow> u8 list option) \<Rightarrow> string \<Rightarrow> u32 cli" where
  "get_addr32 inet_pton name =
     (case get_addr_1 inet_pton name AF_INET of (err, addr) \<Rightarrow>
        if err \<noteq> 0 then Exit 1 (''Error: an IP address is expected rather than \"'' @ name @ ''\"'' @ [CHR 0x0A])
        else Ret (le32 (ip_data addr)))"

section \<open>Comparison\<close>

text \<open>
  \<open>inet_addr_match\<close> compares whole words as memory and the last, partial word under a mask.
  The sign of the result of \<open>memcmp\<close> is not used by any caller.
\<close>

definition data_word :: "inet_prefix \<Rightarrow> nat \<Rightarrow> u32" where
  "data_word a i = le32 (take 4 (drop (4 * i) (ip_data a)))"

definition inet_addr_match :: "inet_prefix \<Rightarrow> inet_prefix \<Rightarrow> nat \<Rightarrow> int" where
  "inet_addr_match a b bits =
     (let words = drop_bit 5 bits;
          bits = bits AND 0x1f
      in if words \<noteq> 0 \<and> take (4 * words) (ip_data a) \<noteq> take (4 * words) (ip_data b) then - 1
         else if bits \<noteq> 0 then
           (let w1 = data_word a words;
                w2 = data_word b words;
                mask = htonl (push_bit (0x20 - bits) 0xffffffff)
            in if (w1 XOR w2) AND mask \<noteq> 0 then 1 else 0)
         else 0)"

section \<open>Which words are netmasks\<close>

lemma and_Suc_eq_0: "h AND Suc h = 0 \<longleftrightarrow> (\<exists>k. h = 2 ^ k - 1)" for h :: nat
proof (induction h rule: less_induct)
  case (less h)
  show ?case
  proof (cases "even h")
    case True
    then have "h AND Suc h = h" using and_rec [of h "Suc h"] by simp
    moreover have "h = 0" if "h = 2 ^ k - 1" for k using True that by (cases k) auto
    moreover have "(0 :: nat) = 2 ^ 0 - 1" by simp
    ultimately show ?thesis by metis
  next
    case False
    then obtain g where g: "h = Suc (2 * g)" by (auto elim: oddE)
    have "h AND Suc h = 2 * (g AND Suc g)" using and_rec [of h "Suc h"] by (simp add: g)
    then have "h AND Suc h = 0 \<longleftrightarrow> (\<exists>k. g = 2 ^ k - 1)" using less.IH [of g] g by simp
    also have "\<dots> \<longleftrightarrow> (\<exists>k. h = 2 ^ k - 1)"
    proof
      assume "\<exists>k. g = 2 ^ k - 1"
      then obtain k where "g = 2 ^ k - 1" ..
      then have "h = 2 ^ Suc k - 1" using g less_eq_Suc_le by (cases "2 ^ k :: nat") auto
      then show "\<exists>k. h = 2 ^ k - 1" by blast
    next
      assume "\<exists>k. h = 2 ^ k - 1"
      then obtain k where k: "h = 2 ^ k - 1" ..
      then obtain j where "k = Suc j" using g by (cases k) auto
      then have "g = 2 ^ j - 1" using k g by simp
      then show "\<exists>k. g = 2 ^ k - 1" by blast
    qed
    finally show ?thesis .
  qed
qed

lemma host_part: "host AND (host + 1) = 0 \<longleftrightarrow> (\<exists>k \<le> 32. host = mask k)" for host :: u32
proof (cases "host = - 1")
  case True
  moreover have "(- 1 :: u32) = mask 32" by (simp add: mask_eq_exp_minus_1)
  moreover have "host AND (host + 1) = 0" unfolding True by simp
  ultimately show ?thesis by (metis order_refl)
next
  case False
  have "1 + host \<noteq> 0" using False by (simp add: add_eq_0_iff)
  then have u: "unat (host + 1) = Suc (unat host)" by (simp add: unatSuc add.commute)
  have "host AND (host + 1) = 0 \<longleftrightarrow> unat (host AND (host + 1)) = 0" by (simp add: unat_eq_0)
  also have "\<dots> \<longleftrightarrow> unat host AND Suc (unat host) = 0" by (simp add: unsigned_and_eq u)
  also have "\<dots> \<longleftrightarrow> (\<exists>k. unat host = 2 ^ k - 1)" by (rule and_Suc_eq_0)
  also have "\<dots> \<longleftrightarrow> (\<exists>k \<le> 32. host = mask k)"
  proof -
    have m: "(mask k :: u32) = word_of_nat (2 ^ k - 1)" for k by (simp add: mask_eq_exp_minus_1 of_nat_diff)
    have "k \<le> 32" if "unat host = 2 ^ k - 1" for k
    proof (rule ccontr)
      assume "\<not> k \<le> 32"
      then have "(2 :: nat) ^ 33 \<le> 2 ^ k" by (intro power_increasing) auto
      then show False using that unat_bound [of host] by simp
    qed
    moreover have "unat (mask k :: u32) = 2 ^ k - 1" if "k \<le> 32" for k
    proof -
      have "(2 :: nat) ^ k \<le> 2 ^ 32" "0 < (2 :: nat) ^ k" using that by (simp_all only: power_increasing) auto
      then have "(2 :: nat) ^ k - 1 < 2 ^ LENGTH(32)" by simp
      then show ?thesis unfolding m unat_of_nat by (rule mod_less)
    qed
    ultimately show ?thesis unfolding word_unat_eq_iff by metis
  qed
  finally show ?thesis .
qed

lemma push_bit_not_mask: "push_bit j (NOT (mask k) :: u32) = NOT (mask (k + j))"
  by (rule bit_word_eqI) (auto simp: bit_simps)

lemma mask2bits_loop_shift: "mask2bits_loop (NOT (mask k)) b = b + (32 - k)"
proof (induction "32 - k" arbitrary: k b)
  case 0
  then have "NOT (mask k) = (0 :: u32)" by (intro bit_word_eqI) (auto simp: bit_simps)
  then show ?case using 0 by (simp add: mask2bits_loop.simps)
next
  case (Suc n)
  then have "bit (NOT (mask k) :: u32) k" by (simp add: bit_simps)
  then have nz: "NOT (mask k) \<noteq> (0 :: u32)" by (metis bit_0_eq bot_apply bot_bool_def)
  have "mask2bits_loop (NOT (mask k)) b = mask2bits_loop (NOT (mask (k + 1))) (b + 1)"
    by (subst mask2bits_loop.simps) (simp only: nz push_bit_not_mask if_False)
  moreover have "n = 32 - (k + 1)" using Suc.hyps(2) by simp
  ultimately show ?case
    using Suc.hyps(1) [of "k + 1" "b + 1"] Suc.hyps(2) by simp
qed

text \<open>
  A netmask in network order is accepted exactly when it is a run of ones followed by
  zeros, and the result is the number of ones; every other word gives \<open>-1\<close>.
\<close>
lemma mask2bits_spec:
  "(mask2bits netmask = int n \<longleftrightarrow> n \<le> 32 \<and> ntohl netmask = NOT (mask (32 - n)))
    \<and> (mask2bits netmask < 0 \<longleftrightarrow> (\<nexists>k. ntohl netmask = NOT (mask k)))"
proof (cases "\<exists>k \<le> 32. NOT (ntohl netmask) = mask k")
  case True
  then obtain k where k: "k \<le> 32" "NOT (ntohl netmask) = mask k" by blast
  then have e: "ntohl netmask = NOT (mask k)" by (metis bit.double_compl)
  have hz: "NOT (ntohl netmask) AND (NOT (ntohl netmask) + 1) = 0" using k host_part by blast
  have m: "mask2bits netmask = int (32 - k)"
    unfolding mask2bits_def Let_def hz unfolding e by (simp add: mask2bits_loop_shift)
  moreover have "n \<le> 32 \<and> NOT (mask k :: u32) = NOT (mask (32 - n)) \<longleftrightarrow> n = 32 - k"
  proof
    assume a: "n \<le> 32 \<and> NOT (mask k :: u32) = NOT (mask (32 - n))"
    then have "32 - k = 32 - (32 - n)"
      using mask2bits_loop_shift [of k 0] mask2bits_loop_shift [of "32 - n" 0] by (simp only: add_0)
    then show "n = 32 - k" using a k(1) by linarith
  next
    assume "n = 32 - k"
    then show "n \<le> 32 \<and> NOT (mask k :: u32) = NOT (mask (32 - n))" using k(1) by simp
  qed
  ultimately show ?thesis unfolding e using k(1) by auto
next
  case False
  then have "mask2bits netmask = - 1" using host_part [of "NOT (ntohl netmask)"] by (simp add: mask2bits_def)
  moreover have "ntohl netmask \<noteq> NOT (mask k)" for k
  proof
    assume e: "ntohl netmask = NOT (mask k)"
    have "(mask k :: u32) = mask (min k 32)" by (rule bit_word_eqI) (auto simp: bit_simps)
    then show False using False e by (auto dest!: spec [of _ "min k 32"])
  qed
  ultimately show ?thesis by auto
qed

section \<open>Prefix arguments\<close>

definition dotted :: "u8 list \<Rightarrow> string" where
  "dotted bs = (case bs of
     [a, b, c, d] \<Rightarrow> show_dec (unat a) @ ''.'' @ show_dec (unat b) @ ''.'' @ show_dec (unat c) @ ''.'' @ show_dec (unat d)
   | _ \<Rightarrow> [])"

text \<open>One octet of a dotted quad, and the whole.\<close>

lemma strtoul_octet:
  assumes "rest = [] \<or> hd rest = CHR ''.''"
  shows "strtoul (show_dec (unat (b :: u8)) @ rest) 0 = (ucast b, rest)"
proof -
  have "rest = [] \<or> \<not> is_digit 10 (hd rest) \<and> hd rest \<noteq> CHR ''x'' \<and> hd rest \<noteq> CHR ''X''"
    using assms by (auto simp: is_digit_def digit_val_def)
  from strto_mag_show_auto [OF this, of "unat b"]
  have "strtoul (show_dec (unat b) @ rest) 0 = (word_of_nat (unat b), rest)"
    using unat_bound [of b] by (simp add: strtoul_def)
  moreover have "(word_of_nat (unat b) :: u64) = ucast b" by simp
  ultimately show ?thesis by simp
qed

lemma octet_small: "\<not> 255 < (ucast (b :: u8) :: u64)"
proof -
  have "unat (ucast b :: u64) = unat b"
    using unat_bound [of b] by (simp add: unsigned_ucast_eq take_bit_nat_eq_self)
  then show ?thesis using unat_bound [of b] by (simp add: word_less_nat_alt)
qed

lemma ucast_octet: "ucast (ucast (b :: u8) :: u64) = b"
  by (rule bit_word_eqI) (simp add: bit_simps)

lemma get_addr_ipv4_dotted:
  assumes "length bs = 4" "4 \<le> length ap"
  shows "get_addr_ipv4 ap (dotted bs) = (1, bs @ drop 4 ap)"
proof -
  obtain a b c d where bs: "bs = [a, b, c, d]" using length4_cases [OF assms(1)] by blast
  obtain p q r s rest where ap: "ap = p # q # r # s # rest"
    using assms(2) by (auto simp: Suc_le_length_iff numeral_eq_Suc)
  have ne: "xs \<noteq> show_dec n @ xs" "show_dec n @ xs \<noteq> []" for n and xs :: string by simp_all
  show ?thesis
    unfolding get_addr_ipv4_def bs dotted_def ap
    by (simp add: get_addr_ipv4_loop.simps strtoul_octet strtoul_octet [of "[]", simplified] octet_small ne
        show_base_nonempty [symmetric] ucast_octet Let_def)
qed

text \<open>A dotted quad is no keyword and no IPv6 text, and has no slash.\<close>

lemma dotted_chars:
  assumes "length bs = 4" "c \<in> set (dotted bs)"
  shows "is_digit 10 c \<or> c = CHR ''.''"
proof -
  obtain p q r s where bs: "bs = [p, q, r, s]" using length4_cases [OF assms(1)] by blast
  have "is_digit 10 c" if "c \<in> set (show_dec n)" for c n
    using show_base_digits [of 10 n] that by (auto simp: list_all_iff)
  then show ?thesis using assms(2) by (auto simp: dotted_def bs)
qed

lemma dotted_no_char:
  assumes "length bs = 4" "\<not> is_digit 10 c" "c \<noteq> CHR ''.''"
  shows "c \<notin> set (dotted bs)"
  using dotted_chars [OF assms(1)] assms(2,3) by blast

lemma dotted_no_word:
  assumes "length bs = 4" "c \<in> set w" "\<not> is_digit 10 c" "c \<noteq> CHR ''.''"
  shows "dotted bs \<noteq> w"
  using dotted_no_char [OF assms(1,3,4)] assms(2) by auto

lemma not_digit [simp]:
  "\<not> is_digit 10 (CHR '':'')" "\<not> is_digit 10 (CHR ''/'')" "\<not> is_digit 10 (CHR ''a'')"
  by (simp_all add: is_digit_def digit_val_def)

lemma get_addr_1_dotted:
  assumes "length bs = 4" "family = AF_INET \<or> family = AF_UNSPEC"
  shows "get_addr_1 inet_pton (dotted bs) family = (0, (put_data bs zero_prefix)
    \<lparr>ip_family := 2, ip_bytelen := 4, ip_bitlen := - 1\<rparr>)"
proof -
  have "dotted bs \<noteq> ''default''" "dotted bs \<noteq> ''all''" "dotted bs \<noteq> ''any''"
    using dotted_no_word [OF assms(1), of "CHR ''a''"] by simp_all
  moreover have "CHR '':'' \<notin> set (dotted bs)" using dotted_no_char [OF assms(1)] by simp
  moreover have "family \<noteq> AF_DECnet" "family = AF_UNSPEC \<or> family = AF_INET" using assms(2) by (auto simp: AF_defs)
  moreover have "get_addr_ipv4 (replicate 32 0) (dotted bs) = (1, bs @ drop 4 (replicate 32 0))"
    by (rule get_addr_ipv4_dotted [OF assms(1)]) simp
  ultimately show ?thesis
    using assms(1) by (auto simp: get_addr_1_def Let_def zero_prefix_def put_data_def AF_INET_def)
qed

definition inet_prefix_of :: "u8 list \<Rightarrow> nat \<Rightarrow> inet_prefix" where
  "inet_prefix_of bs n = \<lparr>ip_family = 2, ip_bytelen = 4, ip_bitlen = word_of_nat n, ip_flags = PREFIXLEN_SPECIFIED,
     ip_data = bs @ replicate 28 0\<rparr>"

lemma get_prefix_1_slash:
  assumes "length bs = 4" "family = AF_INET \<or> family = AF_UNSPEC"
  shows "get_prefix_1 inet_pton (dotted bs @ ''/'' @ msk) family =
    (case get_netmask inet_pton msk 0 of
       None \<Rightarrow> (- 1, (put_data bs zero_prefix)\<lparr>ip_family := 2, ip_bytelen := 4, ip_bitlen := 32\<rparr>)
     | Some plen \<Rightarrow>
         if 32 < unat plen then (- 1, (put_data bs zero_prefix)\<lparr>ip_family := 2, ip_bytelen := 4, ip_bitlen := 32\<rparr>)
         else (0, inet_prefix_of bs (unat plen)))"
proof -
  have ns: "CHR ''/'' \<notin> set (dotted bs)" using dotted_no_char [OF assms(1)] by simp
  have "dotted bs @ ''/'' @ msk \<noteq> v" if "CHR ''/'' \<notin> set v" for v
    using that by (metis in_set_conv_decomp append_Cons append_Nil)
  then have k: "dotted bs @ ''/'' @ msk \<noteq> ''default''" "dotted bs @ ''/'' @ msk \<noteq> ''any''" "dotted bs @ ''/'' @ msk \<noteq> ''all''"
    by simp_all
  have w: "takeWhile (\<lambda>c. c \<noteq> CHR ''/'') (dotted bs @ ''/'' @ msk) = dotted bs"
    "dropWhile (\<lambda>c. c \<noteq> CHR ''/'') (dotted bs @ ''/'' @ msk) = ''/'' @ msk"
  proof -
    have t: "\<forall>c \<in> set (dotted bs). c \<noteq> CHR ''/''" using ns by blast
    have r: "''/'' @ msk = [] \<or> \<not> hd (''/'' @ msk) \<noteq> CHR ''/''" by simp
    show "takeWhile (\<lambda>c. c \<noteq> CHR ''/'') (dotted bs @ ''/'' @ msk) = dotted bs"
      "dropWhile (\<lambda>c. c \<noteq> CHR ''/'') (dotted bs @ ''/'' @ msk) = ''/'' @ msk"
      by (rule takeWhile_prefix [where P = "\<lambda>c. c \<noteq> CHR ''/''", OF t r])+
  qed
  have s: "strchr (dotted bs @ ''/'' @ msk) (CHR ''/'') = Some (''/'' @ msk)" unfolding strchr_def w by simp
  have u: "uint plen > 32 \<longleftrightarrow> 32 < unat plen" for plen :: u32
    by (subst uint_nat) (metis of_nat_less_iff of_nat_numeral)
  have "ip_data zero_prefix = replicate 32 0" by (simp add: zero_prefix_def)
  then have p: "(put_data bs zero_prefix)\<lparr>ip_family := 2, ip_bytelen := 4, ip_bitlen := word_of_nat n, ip_flags := PREFIXLEN_SPECIFIED\<rparr>
      = inet_prefix_of bs n" for n
    using assms(1) by (simp add: put_data_def inet_prefix_of_def zero_prefix_def)
  have z: "ip_flags (put_data bs zero_prefix) = 0" by (simp add: put_data_def zero_prefix_def)
  show ?thesis
    unfolding get_prefix_1_def s w get_addr_1_dotted [OF assms] using k
    by (simp add: u AF_INET6_def AF_DECnet_def z split: option.splits) (simp add: p [symmetric])
qed

lemma get_netmask_dotted:
  assumes "length ms = 4"
  shows "get_netmask inet_pton (dotted ms) 0 =
    (let b = mask2bits (le32 ms) in if 0 \<le> b then Some (word_of_int b) else None)"
proof -
  obtain p q r s where ms: "ms = [p, q, r, s]" using length4_cases [OF assms] by blast
  let ?rest = "''.'' @ show_dec (unat q) @ ''.'' @ show_dec (unat r) @ ''.'' @ show_dec (unat s)"
  have "strto_mag 0 (show_dec (unat p) @ ?rest) = Some (False, unat p, ?rest)"
    by (rule strto_mag_show_auto) (simp add: is_digit_def digit_val_def)
  then have "get_unsigned (dotted ms) 0 = None"
    by (simp add: unsigned_parser.none_iff dotted_def ms)
  moreover have "le32 (ip_data ((put_data ms zero_prefix)\<lparr>ip_family := 2, ip_bytelen := 4, ip_bitlen := - 1\<rparr>)) = le32 ms"
    by (simp add: put_data_def ms le32_def)
  ultimately show ?thesis
    using get_addr_1_dotted [OF assms, of AF_INET inet_pton] by (simp add: get_netmask_def AF_INET_def)
qed

lemma get_netmask_number:
  "get_netmask inet_pton (show_dec n) 0 = (if n \<le> 4294967295 then Some (word_of_nat n) else None)"
proof (cases "n \<le> 4294967295")
  case True
  then show ?thesis using unsigned_parser.auto_base [of n] by (simp add: get_netmask_def UINT_MAX_def)
next
  case False
  have d: "is_digit 10 c" if "c \<in> set (show_dec n)" for c
    using show_base_digits [of 10 n] that by (auto simp: list_all_iff)
  have ne: "show_dec n \<noteq> w" if "CHR ''a'' \<in> set w" for w using that d by fastforce
  have "CHR '':'' \<notin> set (show_dec n)" using d by fastforce
  moreover have "255 < fst (strtoul (show_dec n) 0)"
    using strto_mag_show_auto [of "[]" n] False
    by (auto simp: strtoul_def word_less_nat_alt unat_of_nat unsigned_minus_1_eq_mask mask_eq_exp_minus_1)
  then have "fst (get_addr_ipv4 (ip_data zero_prefix) (show_dec n)) = - 1"
    by (auto simp: get_addr_ipv4_def get_addr_ipv4_loop.simps split: prod.splits)
  ultimately have "fst (get_addr_1 inet_pton (show_dec n) AF_INET) = - 1"
    using ne by (cases "get_addr_ipv4 (ip_data zero_prefix) (show_dec n)") (auto simp: get_addr_1_def AF_defs Let_def)
  then show ?thesis
    using False unsigned_parser.auto_base [of n] by (auto simp: get_netmask_def UINT_MAX_def split: prod.splits)
qed

definition prefix_error :: "string \<Rightarrow> 'a cli" where
  "prefix_error arg = Exit 1 (''Error: an inet prefix is expected rather than \"'' @ arg @ ''\".'' @ [CHR 0x0A])"

text \<open>
  An IPv4 prefix written as a dotted quad, a slash and a decimal length is read as that
  address and length when the length is at most 32 and refused otherwise; written with a
  dotted netmask it is read with the number of leading ones of the mask, and refused when
  the mask is not contiguous.
\<close>
lemma get_prefix_dotted:
  assumes "length bs = 4" "length ms = 4" "family = AF_INET \<or> family = AF_UNSPEC"
  shows "get_prefix inet_pton (dotted bs @ ''/'' @ show_dec n) family =
      (if n \<le> 32 then Ret (inet_prefix_of bs n) else prefix_error (dotted bs @ ''/'' @ show_dec n))
    \<and> (k \<le> 32 \<and> be32 ms = NOT (mask (32 - k)) \<longrightarrow>
        get_prefix inet_pton (dotted bs @ ''/'' @ dotted ms) family = Ret (inet_prefix_of bs k))
    \<and> ((\<nexists>j. be32 ms = NOT (mask j)) \<longrightarrow>
        get_prefix inet_pton (dotted bs @ ''/'' @ dotted ms) family = prefix_error (dotted bs @ ''/'' @ dotted ms))"
proof (intro conjI impI)
  have f: "family \<noteq> AF_PACKET" using assms(3) by (auto simp: AF_defs)
  note p = get_prefix_1_slash [OF assms(1,3), of inet_pton]
  show "get_prefix inet_pton (dotted bs @ ''/'' @ show_dec n) family =
      (if n \<le> 32 then Ret (inet_prefix_of bs n) else prefix_error (dotted bs @ ''/'' @ show_dec n))"
    using f unfolding get_prefix_def p get_netmask_number
    by (auto simp: prefix_error_def unat_of_nat not_le)
  have b: "be32 ms = ntohl (le32 ms)" by (simp add: bswap32_le32 assms(2))
  show "get_prefix inet_pton (dotted bs @ ''/'' @ dotted ms) family = Ret (inet_prefix_of bs k)"
    if "k \<le> 32 \<and> be32 ms = NOT (mask (32 - k))"
  proof -
    have "mask2bits (le32 ms) = int k" using mask2bits_spec [of "le32 ms" k] that unfolding b by blast
    then show ?thesis
      using f that unfolding get_prefix_def p get_netmask_dotted [OF assms(2)] by (simp add: unat_of_nat)
  qed
  show "get_prefix inet_pton (dotted bs @ ''/'' @ dotted ms) family = prefix_error (dotted bs @ ''/'' @ dotted ms)"
    if "\<nexists>j. be32 ms = NOT (mask j)"
  proof -
    have "mask2bits (le32 ms) < 0" using mask2bits_spec [of "le32 ms"] that unfolding b by blast
    then show ?thesis
      using f unfolding get_prefix_def p get_netmask_dotted [OF assms(2)] by (simp add: prefix_error_def)
  qed
qed

section \<open>Comparison under a prefix length\<close>

text \<open>Bit \<open>i\<close> of an address in network order, the most significant bit of the first byte first.\<close>

definition addr_bit :: "u8 list \<Rightarrow> nat \<Rightarrow> bool" where
  "addr_bit d i = bit (d ! (i div 8)) (7 - i mod 8)"

lemma byte_eq_iff: "x = y \<longleftrightarrow> (\<forall>j < 8. bit x (7 - j) = bit y (7 - j))" for x y :: u8
proof
  assume a: "\<forall>j < 8. bit x (7 - j) = bit y (7 - j)"
  show "x = y"
  proof (rule bit_word_eqI)
    fix n assume "n < LENGTH(8)"
    then show "bit x n \<longleftrightarrow> bit y n" using a [rule_format, of "7 - n"] by simp
  qed
qed simp

lemma take_eq_bits:
  assumes "n \<le> length d" "n \<le> length e"
  shows "take n d = take n e \<longleftrightarrow> (\<forall>i < 8 * n. addr_bit d i = addr_bit e i)"
proof
  assume t: "take n d = take n e"
  show "\<forall>i < 8 * n. addr_bit d i = addr_bit e i"
  proof (intro allI impI)
    fix i assume "i < 8 * n"
    then have "i div 8 < n" by (simp add: less_mult_imp_div_less mult.commute)
    then have "d ! (i div 8) = e ! (i div 8)" using t by (metis nth_take)
    then show "addr_bit d i = addr_bit e i" by (simp add: addr_bit_def)
  qed
next
  assume a: "\<forall>i < 8 * n. addr_bit d i = addr_bit e i"
  have "d ! k = e ! k" if "k < n" for k
    unfolding byte_eq_iff
  proof (intro allI impI)
    fix j :: nat assume "j < 8"
    then show "bit (d ! k) (7 - j) = bit (e ! k) (7 - j)"
      using a [rule_format, of "8 * k + j"] that by (simp add: addr_bit_def)
  qed
  then show "take n d = take n e" using assms by (intro nth_equalityI) auto
qed

lemma bit_be32:
  assumes "length bs = 4" "j < 32"
  shows "bit (be32 bs) (31 - j) = addr_bit bs j"
proof -
  obtain p q r s where bs: "bs = [p, q, r, s]" using length4_cases [OF assms(1)] by blast
  consider "j < 8" | "8 \<le> j" "j < 16" | "16 \<le> j" "j < 24" | "24 \<le> j" "j < 32" using assms(2) by linarith
  then show ?thesis
  proof cases
    case 1
    then have "j div 8 = 0" "j mod 8 = j" by simp_all
    with 1 show ?thesis using u8_no_bit by (auto simp add: be32_def bs bit_simps addr_bit_def)
  next
    case 2
    then have "j div 8 = 1" "j mod 8 = j - 8" by (simp_all add: mod_if)
    with 2 show ?thesis using u8_no_bit by (auto simp add: be32_def bs bit_simps addr_bit_def)
  next
    case 3
    then have "j div 8 = 2" "j mod 8 = j - 16" by (simp_all add: mod_if)
    with 3 show ?thesis using u8_no_bit by (auto simp add: be32_def bs bit_simps addr_bit_def)
  next
    case 4
    then have "j div 8 = 3" "j mod 8 = j - 24" by (simp_all add: mod_if)
    with 4 show ?thesis using u8_no_bit by (auto simp add: be32_def bs bit_simps addr_bit_def)
  qed
qed

text \<open>The masked comparison of one word.\<close>

lemma masked_word_eq:
  assumes "length bs = 4" "length cs = 4" "0 < r" "r < 32"
  shows "(le32 bs XOR le32 cs) AND htonl (push_bit (32 - r) 0xffffffff) = 0 \<longleftrightarrow>
    (\<forall>j < r. addr_bit bs j = addr_bit cs j)"
proof -
  have f: "(0xffffffff :: u32) = - 1" by simp
  let ?m = "push_bit (32 - r) 0xffffffff :: u32"
  have "(le32 bs XOR le32 cs) AND htonl ?m = 0 \<longleftrightarrow> bswap32 ((le32 bs XOR le32 cs) AND htonl ?m) = 0"
    by (simp only: bswap32_eq_0)
  also have "bswap32 ((le32 bs XOR le32 cs) AND htonl ?m) = (be32 bs XOR be32 cs) AND ?m"
    by (simp only: bswap32_and bswap32_xor bswap32_bswap32 bswap32_le32 assms)
  also have "\<dots> = 0 \<longleftrightarrow> (\<forall>i < 32. 32 - r \<le> i \<longrightarrow> bit (be32 bs) i = bit (be32 cs) i)"
    unfolding f by (auto simp: bit_eq_iff bit_simps not_le)
  also have "\<dots> \<longleftrightarrow> (\<forall>j < r. bit (be32 bs) (31 - j) = bit (be32 cs) (31 - j))"
  proof (rule iffI; intro allI impI)
    fix j assume "\<forall>i < 32. 32 - r \<le> i \<longrightarrow> bit (be32 bs) i = bit (be32 cs) i" "j < r"
    then show "bit (be32 bs) (31 - j) = bit (be32 cs) (31 - j)" using assms(4) by simp
  next
    fix i :: nat assume a: "\<forall>j < r. bit (be32 bs) (31 - j) = bit (be32 cs) (31 - j)" and i: "i < 32" "32 - r \<le> i"
    then show "bit (be32 bs) i = bit (be32 cs) i" using a [rule_format, of "31 - i"] by simp
  qed
  also have "\<dots> \<longleftrightarrow> (\<forall>j < r. addr_bit bs j = addr_bit cs j)"
    using assms(4) by (simp add: bit_be32 [OF assms(1)] bit_be32 [OF assms(2)])
  finally show ?thesis .
qed

lemma all_less_add: "(\<forall>i < (m :: nat) + n. P i) \<longleftrightarrow> (\<forall>i < m. P i) \<and> (\<forall>j < n. P (m + j))"
  by (metis add_less_cancel_left le_add_diff_inverse not_less trans_less_add1)

text \<open>
  Two addresses match under a prefix length exactly when their first bits, as many as
  the length says and counted in network order, are the same.
\<close>
lemma inet_addr_match_spec:
  assumes "length (ip_data a) = 32" "length (ip_data b) = 32" "bits \<le> 256"
  shows "inet_addr_match a b bits = 0 \<longleftrightarrow> (\<forall>i < bits. addr_bit (ip_data a) i = addr_bit (ip_data b) i)"
proof -
  define w where "w = bits div 32"
  define r where "r = bits mod 32"
  have bits: "bits = 8 * (4 * w) + r" by (simp add: w_def r_def)
  have d: "drop_bit 5 bits = w" by (simp add: w_def drop_bit_eq_div)
  have "0x1f = (mask 5 :: nat)" by (simp add: mask_eq_exp_minus_1)
  then have m: "bits AND 0x1f = r" by (simp only: r_def take_bit_eq_mask [symmetric] take_bit_eq_mod) simp
  have r: "r < 32" by (simp add: r_def)
  have l: "4 * w \<le> 32" using assms(3) bits by linarith
  have W: "take (4 * w) (ip_data a) = take (4 * w) (ip_data b) \<longleftrightarrow>
      (\<forall>i < 8 * (4 * w). addr_bit (ip_data a) i = addr_bit (ip_data b) i)"
    using l assms by (intro take_eq_bits) simp_all
  have R: "(data_word a w XOR data_word b w) AND htonl (push_bit (0x20 - r) 0xffffffff) = 0 \<longleftrightarrow>
      (\<forall>j < r. addr_bit (ip_data a) (8 * (4 * w) + j) = addr_bit (ip_data b) (8 * (4 * w) + j))" if "r \<noteq> 0"
  proof -
    have w4: "4 * w + 4 \<le> 32" using that assms(3) bits by arith
    have "addr_bit (take 4 (drop (4 * w) d)) j = addr_bit d (8 * (4 * w) + j)" if "j < 32" "length d = 32" for d j
    proof -
      have "j div 8 < 4" using that(1) by simp
      moreover have "(8 * (4 * w) + j) div 8 = 4 * w + j div 8" "(8 * (4 * w) + j) mod 8 = j mod 8"
        using div_mult_self4 [of 8 "4 * w" j] mod_mult_self4 [of 8 "4 * w" j] by (simp_all only: add.commute)
      ultimately show ?thesis using w4 that by (simp add: addr_bit_def)
    qed
    then show ?thesis
      unfolding data_word_def using masked_word_eq [of "take 4 (drop (4 * w) (ip_data a))" "take 4 (drop (4 * w) (ip_data b))" r]
        that r w4 assms(1,2) by simp
  qed
  show ?thesis
    unfolding bits all_less_add using W R unfolding inet_addr_match_def Let_def d [unfolded bits] m [unfolded bits]
    by (cases "r = 0") auto
qed

end
