(* ===== verification/Utils_Host.thy ===== *)
theory Utils_Host
  imports Utils_Addr
begin

text \<open>
  The rest of \<open>lib/utils.c\<close>: hexadecimal strings, printing of addresses, the cache of host
  names, and the clock frequency. The resolver, \<open>inet_ntop\<close>, the environment and the file
  \<open>/proc/net/psched\<close> are parameters; memory allocation succeeds.
\<close>

section \<open>Hexadecimal strings\<close>

text \<open>
  The state of \<open>hexstring_n2a\<close>: the characters written, whether a NUL follows them, and the
  room that is left.
\<close>

fun hexstring_n2a_loop :: "u8 list \<Rightarrow> string \<times> bool \<times> int \<Rightarrow> string \<times> bool" where
  "hexstring_n2a_loop [] (ptr, nul, blen) = (ptr, nul)"
| "hexstring_n2a_loop (b # bs) (ptr, nul, blen) =
     (if blen < 3 then (ptr, nul)
      else let ptr = ptr @ show_byte b;
               blen = blen - 2
           in if bs \<noteq> [] \<and> 1 < blen then hexstring_n2a_loop bs (ptr @ '':'', False, blen - 1)
              else hexstring_n2a_loop bs (ptr, True, blen))"

definition hexstring_n2a :: "u8 list \<Rightarrow> int \<Rightarrow> string \<times> bool" where
  "hexstring_n2a str blen = hexstring_n2a_loop str ([], False, blen)"

text \<open>One group of digits of \<open>hexstring_a2n\<close>, accumulated in 32 bits, and the rest from the colon on.\<close>

fun hex_group :: "u32 \<Rightarrow> string \<Rightarrow> (u32 \<times> string) option" where
  "hex_group acc [] = Some (acc, [])"
| "hex_group acc (ch # str) =
     (let c = of_char ch :: nat
      in if ch = CHR '':'' then Some (acc, ch # str)
         else if 48 \<le> c \<and> c \<le> 57 then hex_group (push_bit 4 acc + word_of_nat (c - 48)) str
         else if 97 \<le> c \<and> c \<le> 102 then hex_group (push_bit 4 acc + word_of_nat (c - 97 + 10)) str
         else if 65 \<le> c \<and> c \<le> 70 then hex_group (push_bit 4 acc + word_of_nat (c - 65 + 10)) str
         else None)"

lemma hex_group_length: "hex_group acc s = Some (a, r) \<Longrightarrow> length r \<le> length s"
  by (induction acc s rule: hex_group.induct) (auto simp: Let_def split: if_splits)

function hexstring_a2n_loop :: "string \<Rightarrow> u8 list \<Rightarrow> nat \<Rightarrow> u8 list option" where
  "hexstring_a2n_loop str buf blen =
     (case hex_group 0 str of
        None \<Rightarrow> None
      | Some (acc, rest) \<Rightarrow>
          if 255 < acc then None
          else let buf = (if length buf < blen then buf @ [ucast acc] else buf)
               in if rest = [] then Some buf else hexstring_a2n_loop (tl rest) buf blen)"
  by pat_completeness auto

termination
proof (relation "measure (\<lambda>(s, _). length s)", simp)
  fix str :: string and buf :: "u8 list" and blen and p :: "u32 \<times> string" and acc rest x
  assume "hex_group 0 str = Some p" "(acc, rest) = p" "rest \<noteq> []"
  then have "length rest \<le> length str" "0 < length rest" using hex_group_length [of 0 str acc rest] by auto
  then show "((tl rest, x, blen), str, buf, blen) \<in> measure (\<lambda>(s, _). length s)" by (cases rest) auto
qed

declare hexstring_a2n_loop.simps [simp del]

text \<open>The buffer of \<open>blen\<close> bytes that is left; \<open>None\<close> is the null pointer.\<close>

definition hexstring_a2n :: "string \<Rightarrow> nat \<Rightarrow> u8 list option" where
  "hexstring_a2n str blen = map_option (\<lambda>buf. buf @ replicate (blen - length buf) 0) (hexstring_a2n_loop str [] blen)"

section \<open>Printing addresses\<close>

text \<open>
  \<open>rt_addr_n2a\<close>: the text in the buffer, or the constant text. \<open>inet_ntop\<close> is the text the
  library writes for a family and the bytes of an address.
\<close>

definition rt_addr_n2a :: "(s32 \<Rightarrow> u8 list \<Rightarrow> text_buf option) \<Rightarrow> s32 \<Rightarrow> u8 list \<Rightarrow> nat \<Rightarrow> text_buf option" where
  "rt_addr_n2a inet_ntop af addr buflen =
     (if af = AF_INET \<or> af = AF_INET6 then inet_ntop af addr
      else if af = AF_IPX then ipx_ntop af \<lparr>ipx_net = le32 (take 4 addr), ipx_node = take 6 (drop 4 addr)\<rparr> buflen
      else if af = AF_DECnet then dnet_ntop af \<lparr>a_len = 2, a_addr = take 2 addr @ replicate 18 0\<rparr> buflen
      else Some (''???'', True))"

section \<open>The cache of host names\<close>

record namerec =
  nr_name :: "string option"
  nr_family :: s32
  nr_data :: "u8 list"

record name_cache =
  nht :: "namerec list list"
  notfirst :: nat

definition NHASH :: nat where
  "NHASH = 257"

text \<open>The key of an address: a mapped IPv4 address counts as an IPv4 address.\<close>

definition host_key :: "u8 list \<Rightarrow> s32 \<Rightarrow> u8 list \<times> s32" where
  "host_key addr af =
     (if af = AF_INET6 \<and> le32 (take 4 addr) = 0 \<and> le32 (take 4 (drop 4 addr)) = 0 \<and> le32 (take 4 (drop 8 addr)) = htonl 0xffff
      then (take 4 (drop 12 addr), AF_INET) else (addr, af))"

text \<open>
  The hash reads the last four bytes that end with the address. \<open>front\<close> holds the bytes in
  memory in front of it: an address of two bytes is hashed together with two of them.
\<close>

definition host_hash :: "u8 list \<Rightarrow> u8 list \<Rightarrow> nat" where
  "host_hash front addr =
     (let bs = front @ addr in unat (le32 (drop (length bs - 4) bs)) mod NHASH)"

fun name_lookup :: "s32 \<Rightarrow> u8 list \<Rightarrow> namerec list \<Rightarrow> namerec option" where
  "name_lookup af addr [] = None"
| "name_lookup af addr (n # ns) =
     (if nr_family n = af \<and> length (nr_data n) = length addr \<and> nr_data n = addr then Some n
      else name_lookup af addr ns)"

text \<open>
  \<open>addr\<close> holds the \<open>len\<close> bytes of the address. The entry is linked in before the resolver is
  asked, and keeps a missing answer.
\<close>

definition resolve_address :: "(u8 list \<Rightarrow> s32 \<Rightarrow> string option) \<Rightarrow> u8 list \<Rightarrow> u8 list \<Rightarrow> s32 \<Rightarrow> name_cache \<Rightarrow>
    string option \<times> name_cache" where
  "resolve_address gethostbyaddr front addr af c =
     (let (addr, af) = host_key addr af;
          hash = host_hash front addr
      in case name_lookup af addr (nht c ! hash) of
           Some n \<Rightarrow> (nr_name n, c)
         | None \<Rightarrow>
             let name = gethostbyaddr addr af;
                 n = \<lparr>nr_name = name, nr_family = af, nr_data = addr\<rparr>
             in (name, c\<lparr>nht := (nht c)[hash := n # nht c ! hash], notfirst := notfirst c + 1\<rparr>))"

definition format_host :: "(u8 list \<Rightarrow> s32 \<Rightarrow> string option) \<Rightarrow> (s32 \<Rightarrow> u8 list \<Rightarrow> text_buf option) \<Rightarrow> bool \<Rightarrow>
    s32 \<Rightarrow> int \<Rightarrow> u8 list \<Rightarrow> u8 list \<Rightarrow> nat \<Rightarrow> name_cache \<Rightarrow> text_buf option \<times> name_cache" where
  "format_host gethostbyaddr inet_ntop resolve_hosts af len front addr buflen c =
     (let len = (if resolve_hosts \<and> len \<le> 0 then
                   (if af = AF_INET then 4 else if af = AF_INET6 then 16 else if af = AF_IPX then 10
                    else if af = AF_DECnet then 2 else len)
                 else len)
      in if resolve_hosts \<and> 0 < len then
           (case resolve_address gethostbyaddr front (take (nat len) addr) af c of
              (Some n, c) \<Rightarrow> (Some (n, True), c)
            | (None, c) \<Rightarrow> (rt_addr_n2a inet_ntop af addr buflen, c))
         else (rt_addr_n2a inet_ntop af addr buflen, c))"

section \<open>The clock frequency\<close>

text \<open>
  \<open>read_psched\<close> is what reading the third and the fourth number of the named file gives.
\<close>

definition psched_name :: "(string \<Rightarrow> string option) \<Rightarrow> string" where
  "psched_name getenv =
     (case getenv ''PROC_NET_PSCHED'' of
        Some s \<Rightarrow> take 1022 s
      | None \<Rightarrow>
          (case getenv ''PROC_ROOT'' of
             Some s \<Rightarrow> take 1022 (s @ ''/net/psched'')
           | None \<Rightarrow> ''/proc/net/psched''))"

definition get_hz_value :: "(string \<Rightarrow> string option) \<Rightarrow> (string \<Rightarrow> (u32 \<times> u32) option) \<Rightarrow> s32 \<Rightarrow> s32" where
  "get_hz_value getenv read_psched HZ =
     (case getenv ''HZ'' of
        Some s \<Rightarrow> (let v = atoi s in if v \<noteq> 0 then v else HZ)
      | None \<Rightarrow>
          let hz = (case read_psched (psched_name getenv) of
                      Some (nom, denom) \<Rightarrow> if nom = 1000000 then denom else 0
                    | None \<Rightarrow> 0)
          in if hz \<noteq> 0 then hz else HZ)"

text \<open>\<open>get_hz\<close> keeps the value in a global that is zero at first.\<close>

definition get_hz :: "(string \<Rightarrow> string option) \<Rightarrow> (string \<Rightarrow> (u32 \<times> u32) option) \<Rightarrow> s32 \<Rightarrow> s32 \<Rightarrow> s32 \<times> s32" where
  "get_hz getenv read_psched HZ hz_internal =
     (let hz_internal = (if hz_internal = 0 then get_hz_value getenv read_psched HZ else hz_internal)
      in (hz_internal, hz_internal))"

definition nl_mgrp :: "u32 \<Rightarrow> u32 cli" where
  "nl_mgrp grp =
     (if 31 < grp then Exit (- 1) (''Use setsockopt for this group '' @ show_int (sint grp) @ [CHR 0x0A])
      else Ret (if grp \<noteq> 0 then push_bit (unat (grp - 1)) 1 else 0))"

section \<open>Hexadecimal strings are read back\<close>

text \<open>The bytes of a string, separated by colons.\<close>

fun colon_hex :: "u8 list \<Rightarrow> string" where
  "colon_hex [] = []"
| "colon_hex [b] = show_byte b"
| "colon_hex (b # bs) = show_byte b @ '':'' @ colon_hex bs"

lemma hexstring_n2a_loop_eq:
  "3 * int (length bs) \<le> blen \<Longrightarrow> bs \<noteq> [] \<Longrightarrow> hexstring_n2a_loop bs (ptr, nul, blen) = (ptr @ colon_hex bs, True)"
proof (induction bs arbitrary: ptr nul blen rule: colon_hex.induct)
  case (3 b c bs)
  then show ?case using "3.IH" [of "blen - 3" "ptr @ show_byte b @ '':''" False] by simp
qed auto

lemma hex_group_digit:
  assumes "d < 16"
  shows "hex_group acc (digit_char d # s) = hex_group (push_bit 4 acc + word_of_nat d) s"
proof -
  have "(of_char (digit_char d) :: nat) = (if d < 10 then 48 + d else 87 + d)"
    using assms by (simp add: digit_char_def)
  moreover have "digit_char d \<noteq> CHR '':''" using digit_char_not [of d] assms by simp
  ultimately show ?thesis using assms by (auto simp: Let_def)
qed

lemma hex_group_byte:
  assumes "rest = [] \<or> hd rest = CHR '':''"
  shows "hex_group 0 (show_byte b @ rest) = Some (ucast b, rest)"
proof -
  have d: "unat b div 16 < 16" "unat b mod 16 < 16" using unat_bound [of b] by (simp_all add: less_mult_imp_div_less)
  have "hex_group 0 (show_byte b @ rest) = hex_group (push_bit 4 (word_of_nat (unat b div 16)) + word_of_nat (unat b mod 16)) rest"
    by (simp add: show_byte_def hex_group_digit d del: hex_group.simps(2))
  also have "push_bit 4 (word_of_nat (unat b div 16)) + word_of_nat (unat b mod 16) = (word_of_nat (16 * (unat b div 16) + unat b mod 16) :: u32)"
    by (simp only: push_bit_eq_mult of_nat_add of_nat_mult) simp
  also have "16 * (unat b div 16) + unat b mod 16 = unat b" by simp
  also have "(word_of_nat (unat b) :: u32) = ucast b" by simp
  finally show ?thesis using assms by (cases rest) auto
qed

lemma ucast_byte32: "ucast (ucast (b :: u8) :: u32) = b" "\<not> 255 < (ucast b :: u32)"
proof -
  show "ucast (ucast b :: u32) = b" by (rule bit_word_eqI) (simp add: bit_simps)
  have "unat (ucast b :: u32) = unat b"
    using unat_bound [of b] by (simp add: unsigned_ucast_eq take_bit_nat_eq_self)
  then show "\<not> 255 < (ucast b :: u32)" using unat_bound [of b] by (simp add: word_less_nat_alt)
qed

lemma hexstring_a2n_loop_eq:
  "bs \<noteq> [] \<Longrightarrow> length buf + length bs \<le> blen \<Longrightarrow> hexstring_a2n_loop (colon_hex bs) buf blen = Some (buf @ bs)"
proof (induction bs arbitrary: buf rule: colon_hex.induct)
  case (2 b)
  then show ?case using hex_group_byte [of "[]" b] by (simp add: hexstring_a2n_loop.simps ucast_byte32)
next
  case (3 b c bs)
  then show ?case
    using hex_group_byte [of "'':'' @ colon_hex (c # bs)" b] "3.IH" [of "buf @ [b]"]
    by (simp add: hexstring_a2n_loop.simps [of "show_byte b @ CHR '':'' # colon_hex (c # bs)"] ucast_byte32)
qed simp

text \<open>
  C39: a byte string of at least one byte, printed with room for three characters a byte, is
  its bytes in hexadecimal separated by colons, terminated, and reading the text into a buffer
  that is large enough gives the bytes back, followed by zeros.
\<close>
theorem hexstring_roundtrip:
  assumes "bs \<noteq> []" "3 * int (length bs) \<le> blen" "length bs \<le> n"
  shows "hexstring_n2a bs blen = (colon_hex bs, True) \<and> hexstring_a2n (colon_hex bs) n = Some (bs @ replicate (n - length bs) 0)"
  using assms by (simp add: hexstring_n2a_def hexstring_n2a_loop_eq hexstring_a2n_def hexstring_a2n_loop_eq)

theorem hexstring_roundtrip_witness:
  "hexstring_n2a [0xDE, 0x0A, 0] 9 = (''de:0a:00'', True) \<and> hexstring_a2n ''de:0a:00'' 4 = Some [0xDE, 0x0A, 0, 0]"
proof -
  have "colon_hex [0xDE, 0x0A, 0] = ''de:0a:00''" by code_simp
  then show ?thesis using hexstring_roundtrip [of "[0xDE, 0x0A, 0]" 9 4] by simp
qed

section \<open>A memo table and its contract\<close>

text \<open>
  A table that answers a query from its entries and adds an entry when it finds none computes
  the function it remembers, whatever was asked before. Two queries may ask the same question
  and still be looked up in different places: an entry then serves one of them or both.
\<close>

locale memo_table =
  fixes lookup :: "'s \<Rightarrow> 'k \<Rightarrow> 'v option"
    and add :: "'k \<Rightarrow> 'v \<Rightarrow> 's \<Rightarrow> 's"
    and ok :: "'s \<Rightarrow> bool"
    and question :: "'k \<Rightarrow> 'q"
  assumes lookup_added: "ok s \<Longrightarrow> lookup (add k v s) k = Some v"
    and lookup_add: "ok s \<Longrightarrow> lookup (add k v s) k' = Some w \<Longrightarrow> lookup s k' = Some w \<or> question k' = question k \<and> w = v"
    and ok_add: "ok s \<Longrightarrow> ok (add k v s)"
begin

definition memo :: "('q \<Rightarrow> 'v) \<Rightarrow> 'k \<Rightarrow> 's \<Rightarrow> 'v \<times> 's" where
  "memo f k s = (case lookup s k of Some v \<Rightarrow> (v, s) | None \<Rightarrow> (f (question k), add k (f (question k)) s))"

definition sound :: "('q \<Rightarrow> 'v) \<Rightarrow> 's \<Rightarrow> bool" where
  "sound f s \<longleftrightarrow> ok s \<and> (\<forall>k v. lookup s k = Some v \<longrightarrow> v = f (question k))"

lemma memo_sound:
  assumes "sound f s"
  shows "fst (memo f k s) = f (question k)" "sound f (snd (memo f k s))" "lookup (snd (memo f k s)) k = Some (f (question k))"
proof -
  have ok: "ok s" and f: "lookup s k' = Some v \<Longrightarrow> v = f (question k')" for k' v using assms by (auto simp: sound_def)
  show "fst (memo f k s) = f (question k)" using f by (auto simp: memo_def split: option.splits)
  have "sound f (add k (f (question k)) s)"
    unfolding sound_def using ok ok_add f lookup_add [OF ok] by metis
  then show "sound f (snd (memo f k s))" using assms by (auto simp: memo_def split: option.splits)
  show "lookup (snd (memo f k s)) k = Some (f (question k))"
    using f ok lookup_added by (auto simp: memo_def split: option.splits)
qed

lemma memo_again:
  assumes "sound f s" "lookup (snd (memo f k s)) k' = lookup (snd (memo f k s)) k" "question k' = question k"
  shows "memo f k' (snd (memo f k s)) = (f (question k), snd (memo f k s))"
  using memo_sound(3) [OF assms(1), of k] assms(2) by (simp add: memo_def [of f k'])

end

text \<open>A query: the bytes in front of the address, and the key of the address.\<close>

definition cache_lookup :: "name_cache \<Rightarrow> u8 list \<times> u8 list \<times> s32 \<Rightarrow> string option option" where
  "cache_lookup c = (\<lambda>(front, addr, af). map_option nr_name (name_lookup af addr (nht c ! host_hash front addr)))"

definition cache_add :: "u8 list \<times> u8 list \<times> s32 \<Rightarrow> string option \<Rightarrow> name_cache \<Rightarrow> name_cache" where
  "cache_add = (\<lambda>(front, addr, af) name c. c\<lparr>nht := (nht c)[host_hash front addr :=
     \<lparr>nr_name = name, nr_family = af, nr_data = addr\<rparr> # nht c ! host_hash front addr], notfirst := notfirst c + 1\<rparr>)"

lemma host_hash_less [simp]: "host_hash front addr < NHASH"
  by (simp add: host_hash_def NHASH_def Let_def)

text \<open>Only addresses shorter than the word that is hashed depend on what lies in front of them.\<close>

lemma host_hash_front:
  assumes "4 \<le> length addr"
  shows "host_hash front addr = host_hash front' addr"
proof -
  have "drop (length (f @ addr) - 4) (f @ addr) = drop (length addr - 4) addr" for f :: "u8 list"
    using assms by (simp add: add_diff_assoc)
  then show ?thesis by (simp only: host_hash_def Let_def)
qed

interpretation host_cache: memo_table cache_lookup cache_add "\<lambda>c. length (nht c) = NHASH" snd
proof (unfold_locales, goal_cases)
  case (1 c k v)
  then show ?case by (auto simp: cache_lookup_def cache_add_def split: prod.splits)
next
  case (2 c k v k' w)
  show ?case
  proof (cases "host_hash (fst k) (fst (snd k)) = host_hash (fst k') (fst (snd k'))")
    case True
    with 2 show ?thesis by (auto simp: cache_lookup_def cache_add_def split: prod.splits if_splits)
  next
    case False
    with 2 show ?thesis by (auto simp: cache_lookup_def cache_add_def split: prod.splits)
  qed
next
  case (3 c k v)
  then show ?case by (simp add: cache_add_def split: prod.splits)
qed

lemma resolve_address_memo:
  "resolve_address gethostbyaddr front addr af c = host_cache.memo (\<lambda>(a, f). gethostbyaddr a f) (front, host_key addr af) c"
  unfolding host_cache.memo_def
  by (auto simp: resolve_address_def cache_lookup_def cache_add_def Let_def split: prod.splits option.splits)

text \<open>The empty cache, and the caches that queries can produce from it.\<close>

definition empty_cache :: name_cache where
  "empty_cache = \<lparr>nht = replicate NHASH [], notfirst = 0\<rparr>"

fun run_queries :: "(u8 list \<Rightarrow> s32 \<Rightarrow> string option) \<Rightarrow> (u8 list \<times> u8 list \<times> s32) list \<Rightarrow> name_cache \<Rightarrow>
    string option list \<times> name_cache" where
  "run_queries g [] c = ([], c)"
| "run_queries g ((front, addr, af) # qs) c =
     (let (n, c) = resolve_address g front addr af c; (ns, c) = run_queries g qs c in (n # ns, c))"

lemma run_queries_sound:
  assumes "host_cache.sound (\<lambda>(a, f). g a f) c"
  shows "fst (run_queries g qs c) = map (\<lambda>(front, addr, af). case host_key addr af of (a, f) \<Rightarrow> g a f) qs
    \<and> host_cache.sound (\<lambda>(a, f). g a f) (snd (run_queries g qs c))"
  using assms
proof (induction g qs c rule: run_queries.induct)
  case (2 g front addr af qs c)
  obtain n c' where r: "resolve_address g front addr af c = (n, c')" by fastforce
  have "n = (case host_key addr af of (a, f) \<Rightarrow> g a f)" "host_cache.sound (\<lambda>(a, f). g a f) c'"
    using host_cache.memo_sound [OF "2.prems", of "(front, host_key addr af)"] r by (simp_all add: resolve_address_memo)
  moreover obtain ns c'' where "run_queries g qs c' = (ns, c'')" by fastforce
  ultimately show ?case using "2.IH" [OF r [symmetric]] r by (cases "host_key addr af") simp
qed simp

lemma empty_cache_sound: "host_cache.sound f empty_cache"
  unfolding host_cache.sound_def by (auto simp: empty_cache_def cache_lookup_def split: prod.splits)

text \<open>
  The same DECnet address asked for twice, with different bytes in front of it, is resolved
  twice and stored twice.
\<close>

lemma short_address_stored_twice:
  "notfirst (snd (run_queries g [([0, 0], [1, 2], AF_DECnet), ([1, 0], [1, 2], AF_DECnet)] empty_cache)) = 2"
  by (simp add: resolve_address_def host_key_def host_hash_def Let_def empty_cache_def NHASH_def AF_DECnet_def AF_INET6_def
      le32_def)

text \<open>
  C20: the cache of host names never changes an answer: whatever addresses were asked for,
  in whatever order and whatever lay in front of them in memory, each answer is what the
  resolver says about that address, or about the IPv4 address inside a mapped IPv6 address.
  Asking again gives the same answer and leaves the cache as it is, if the address has at
  least the four bytes the hash reads or the bytes in front of it are the same as before.
\<close>
theorem resolve_address_transparent:
  "fst (run_queries gethostbyaddr qs empty_cache) =
      map (\<lambda>(front, addr, af). case host_key addr af of (a, f) \<Rightarrow> gethostbyaddr a f) qs
    \<and> (let c = snd (run_queries gethostbyaddr qs empty_cache); (n, c') = resolve_address gethostbyaddr front addr af c
       in 4 \<le> length (fst (host_key addr af)) \<or> front' = front \<longrightarrow> resolve_address gethostbyaddr front' addr af c' = (n, c'))"
proof -
  let ?g = "\<lambda>(a, f). gethostbyaddr a f"
  let ?c = "snd (run_queries gethostbyaddr qs empty_cache)"
  have s: "fst (run_queries gethostbyaddr qs empty_cache) = map (\<lambda>(front, addr, af). case host_key addr af of (a, f) \<Rightarrow> gethostbyaddr a f) qs"
    "host_cache.sound ?g ?c"
    using run_queries_sound [OF empty_cache_sound, of gethostbyaddr qs] by auto
  obtain a f where k: "host_key addr af = (a, f)" by fastforce
  let ?r = "resolve_address gethostbyaddr front addr af ?c"
  have n: "fst ?r = gethostbyaddr a f"
    using host_cache.memo_sound(1) [OF s(2)] by (simp only: resolve_address_memo k snd_conv split_conv)
  have "resolve_address gethostbyaddr front' addr af (snd ?r) = (fst ?r, snd ?r)"
    if "4 \<le> length a \<or> front' = front"
  proof -
    have "host_hash front' a = host_hash front a" using that host_hash_front by blast
    then have "cache_lookup c' (front', a, f) = cache_lookup c' (front, a, f)" for c' by (simp add: cache_lookup_def)
    from host_cache.memo_again [OF s(2) this] show ?thesis unfolding n by (simp add: resolve_address_memo k)
  qed
  then have "4 \<le> length (fst (host_key addr af)) \<or> front' = front \<longrightarrow>
      resolve_address gethostbyaddr front' addr af (snd ?r) = (fst ?r, snd ?r)"
    unfolding k fst_conv by blast
  then show ?thesis unfolding Let_def split_beta using s(1) [unfolded split_beta] by blast
qed

theorem resolve_address_transparent_witness:
  "let g = \<lambda>a f. if a = [10, 0, 0, 1] then Some ''gw'' else None;
       c = snd (run_queries g [([0, 0], [1, 2], AF_DECnet)] empty_cache);
       (n, c') = resolve_address g [7] [10, 0, 0, 1] AF_INET c
   in resolve_address g [8] [10, 0, 0, 1] AF_INET c' = (n, c')"
proof -
  have "4 \<le> length (fst (host_key [10, 0, 0, 1] AF_INET))" by (simp add: host_key_def AF_INET_def AF_INET6_def)
  then show ?thesis
    using resolve_address_transparent [of "\<lambda>a f. if a = [10, 0, 0, 1] then Some ''gw'' else None" "[([0, 0], [1, 2], AF_DECnet)]"
        "[7]" "[10, 0, 0, 1]" AF_INET "[8]"]
    by (simp only: Let_def simp_thms split_beta)
qed

end
