(* ===== verification/C_Printf.thy ===== *)
theory C_Printf
  imports C_String Double_Laws
begin

text \<open>
  The conversions of floating point numbers to text the tools use (\<open>%f\<close> with a number of
  decimals, \<open>%g\<close>), rounding to an integral value, and the room a caller of \<open>snprintf\<close> gives.
  The library rounds the exact value of the double to the digits it prints, to even in the
  middle.
\<close>

definition snprintf :: "nat \<Rightarrow> string \<Rightarrow> string" where
  "snprintf len s = take (len - 1) s"

text \<open>\<open>rint\<close> in the default rounding mode, and \<open>fabs\<close>.\<close>

definition rint :: "double \<Rightarrow> double" where
  "rint x =
     (if is_nan x then quiet x else if is_inf x then x
      else mk_double (dneg x) (rnd_mag (rne (dsc (dmag x)) (2 ^ emin) * 2 ^ emin) 1))"

definition c_fabs :: "double \<Rightarrow> double" where
  "c_fabs x = mk_double False (dmag x)"

text \<open>Digits with leading zeros up to a width.\<close>

definition pad_zeros :: "nat \<Rightarrow> string \<Rightarrow> string" where
  "pad_zeros w s = replicate (w - length s) (CHR ''0'') @ s"

text \<open>Sign and the texts of infinities and NaNs; \<open>f\<close> prints a finite magnitude.\<close>

definition show_double :: "(nat \<Rightarrow> string) \<Rightarrow> double \<Rightarrow> string" where
  "show_double f x =
     (if dneg x then ''-'' else []) @
     (if is_nan x then ''nan'' else if is_inf x then ''inf'' else f (dsc (dmag x)))"

text \<open>\<open>m / 10 ^ k\<close> in decimal.\<close>

definition show_decimals :: "nat \<Rightarrow> nat \<Rightarrow> string" where
  "show_decimals k m =
     show_dec (m div 10 ^ k) @ (if k = 0 then [] else ''.'' @ pad_zeros k (show_dec (m mod 10 ^ k)))"

definition show_f :: "nat \<Rightarrow> double \<Rightarrow> string" where
  "show_f k = show_double (\<lambda>n. show_decimals k (rne (n * 10 ^ k) (2 ^ emin)))"

text \<open>
  The decimal exponent of a positive value of \<open>n\<close> units, and its first \<open>p\<close> digits: six
  significant digits for \<open>%g\<close>, one exponent more when rounding carries.
\<close>

definition dec_exponent :: "nat \<Rightarrow> int" where
  "dec_exponent n =
     (if 2 ^ emin \<le> n then int (length (show_dec (n div 2 ^ emin))) - 1
      else case find (\<lambda>k. 2 ^ emin \<le> n * 10 ^ k) [1..<330] of Some k \<Rightarrow> - int k | None \<Rightarrow> 0)"

definition sig_digits :: "nat \<Rightarrow> int \<Rightarrow> nat \<Rightarrow> nat" where
  "sig_digits p e n =
     (let s = int p - 1 - e in if 0 \<le> s then rne (n * 10 ^ nat s) (2 ^ emin) else rne n (2 ^ emin * 10 ^ nat (- s)))"

definition strip_zeros :: "string \<Rightarrow> string" where
  "strip_zeros s =
     (if CHR ''.'' \<in> set s
      then let t = rev (dropWhile (\<lambda>c. c = CHR ''0'') (rev s))
           in if last t = CHR ''.'' then butlast t else t
      else s)"

definition show_g :: "double \<Rightarrow> string" where
  "show_g = show_double (\<lambda>n.
     if n = 0 then ''0''
     else let e0 = dec_exponent n;
              e = (if sig_digits 6 e0 n = 10 ^ 6 then e0 + 1 else e0);
              d = sig_digits 6 e n
          in if - 4 \<le> e \<and> e < 6
             then strip_zeros (show_decimals (nat (5 - e)) d)
             else strip_zeros (show_decimals 5 d) @ ''e'' @ (if e < 0 then ''-'' else ''+'')
                  @ pad_zeros 2 (show_dec (nat \<bar>e\<bar>)))"

end
