(* ===== verification/Rt_Names.thy ===== *)
theory Rt_Names
  imports C_Printf Utils_Num
begin

text \<open>
  The names of routing protocols, scopes, realms, tables, service fields and device groups
  (\<open>lib/rt_names.c\<close>). Each has a table that a file of \<open>/etc/iproute2\<close> fills on the first query
  that needs it, and a cache of the name found last. The file is an argument, \<open>None\<close> when it
  cannot be opened. A write behind the end of a table has no value in the model.
\<close>

section \<open>Files of names\<close>

function db_lines :: "string \<Rightarrow> string list" where
  "db_lines fp = (case fgets 512 fp of None \<Rightarrow> [] | Some (buf, fp) \<Rightarrow> buf # db_lines fp)"
  by pat_completeness auto
termination
proof (relation "measure length", goal_cases)
  case (2 fp r buf fp')
  then have "length buf \<noteq> 0" by (cases fp) (auto simp: fgets_def Let_def split: if_splits)
  with 2 show ?case by (auto simp: fgets_def Let_def split: if_splits)
qed simp

declare db_lines.simps [simp del]

text \<open>
  The conversions of \<open>sscanf\<close>: \<open>%x\<close> and \<open>%d\<close> skip blanks and store the low 32 bits of the value
  \<open>strtoul\<close> and \<open>strtol\<close> give, a prefix without digits fails; \<open>%s\<close> takes a word. What a format
  has behind its last conversion does not change the number of conversions.
\<close>

definition scan_hex :: "string \<Rightarrow> (s32 \<times> string) option" where
  "scan_hex s =
     (let t = snd (take_sign (dropWhile c_isspace s)); (v, r) = strtoul s 16
      in if r = s \<or> map c_tolower (take 2 t) = ''0x'' \<and> \<not> has_hex t then None else Some (ucast v, r))"

definition scan_dec :: "string \<Rightarrow> (s32 \<times> string) option" where
  "scan_dec s = (let (v, r) = strtol s 10 in if r = s then None else Some (ucast v, r))"

definition scan_s :: "string \<Rightarrow> string option" where
  "scan_s s = (let w = takeWhile (\<lambda>c. \<not> c_isspace c) (dropWhile c_isspace s) in if w = [] then None else Some w)"

definition scan_hex_entry :: "string \<Rightarrow> (s32 \<times> string) option" where
  "scan_hex_entry p =
     (if take 2 p \<noteq> ''0x'' then None
      else case scan_hex (drop 2 p) of None \<Rightarrow> None | Some (i, r) \<Rightarrow> map_option (Pair i) (scan_s r))"

definition scan_dec_entry :: "string \<Rightarrow> (s32 \<times> string) option" where
  "scan_dec_entry p = (case scan_dec p of None \<Rightarrow> None | Some (i, r) \<Rightarrow> map_option (Pair i) (scan_s r))"

datatype db_line = Ignored | Corrupted string | Entry s32 string

definition read_line :: "string \<Rightarrow> db_line" where
  "read_line buf =
     (let p = dropWhile (\<lambda>c. c = CHR '' '' \<or> c = CHR 0x09) (takeWhile (\<lambda>c. c \<noteq> CHR 0x00) buf)
      in if p = [] \<or> hd p = CHR ''#'' \<or> hd p = CHR 0x0A then Ignored
         else case scan_hex_entry p of
                Some (i, n) \<Rightarrow> Entry i n
              | None \<Rightarrow> (case scan_dec_entry p of Some (i, n) \<Rightarrow> Entry i n | None \<Rightarrow> Corrupted p))"

definition corrupted_text :: "string \<Rightarrow> string \<Rightarrow> string" where
  "corrupted_text path p = ''Database '' @ path @ '' is corrupted at '' @ p @ [CHR 0x0A]"

section \<open>The two kinds of tables\<close>

record rtnl_hash_entry =
  he_name :: string
  he_id :: u32

fun hash_lines :: "string \<Rightarrow> nat \<Rightarrow> string list \<Rightarrow> rtnl_hash_entry list list \<Rightarrow> rtnl_hash_entry list list \<times> string" where
  "hash_lines path n [] hash = (hash, [])"
| "hash_lines path n (l # ls) hash =
     (case read_line l of
        Ignored \<Rightarrow> hash_lines path n ls hash
      | Corrupted p \<Rightarrow> (hash, corrupted_text path p)
      | Entry i name \<Rightarrow>
          if sint i < 0 then hash_lines path n ls hash
          else let h = unat (i AND word_of_nat (n - 1))
               in hash_lines path n ls (hash[h := \<lparr>he_name = name, he_id = i\<rparr> # hash ! h]))"

definition rtnl_hash_initialize :: "string \<Rightarrow> string option \<Rightarrow> nat \<Rightarrow> rtnl_hash_entry list list \<Rightarrow> rtnl_hash_entry list list \<times> string" where
  "rtnl_hash_initialize path contents n hash =
     (case contents of None \<Rightarrow> (hash, []) | Some fp \<Rightarrow> hash_lines path n (db_lines fp) hash)"

text \<open>The test of the index lets the size of the table pass.\<close>

fun tab_lines :: "string \<Rightarrow> nat \<Rightarrow> string list \<Rightarrow> string option list \<Rightarrow> (string option list \<times> string) option" where
  "tab_lines path n [] tab = Some (tab, [])"
| "tab_lines path n (l # ls) tab =
     (case read_line l of
        Ignored \<Rightarrow> tab_lines path n ls tab
      | Corrupted p \<Rightarrow> Some (tab, corrupted_text path p)
      | Entry i name \<Rightarrow>
          if sint i < 0 \<or> int n < sint i then tab_lines path n ls tab
          else if length tab \<le> nat (sint i) then None
          else tab_lines path n ls (tab[nat (sint i) := Some name]))"

definition rtnl_tab_initialize :: "string \<Rightarrow> string option \<Rightarrow> nat \<Rightarrow> string option list \<Rightarrow> (string option list \<times> string) option" where
  "rtnl_tab_initialize path contents n tab =
     (case contents of None \<Rightarrow> Some (tab, []) | Some fp \<Rightarrow> tab_lines path n (db_lines fp) tab)"

text \<open>A table with its static variables and what was written to the standard error.\<close>

record 'a names =
  nm_tab :: 'a
  nm_init :: bool
  nm_cache :: "string option"
  nm_res :: u64
  nm_err :: string

definition fresh_names :: "'a \<Rightarrow> 'a names" where
  "fresh_names t = \<lparr>nm_tab = t, nm_init = False, nm_cache = None, nm_res = 0, nm_err = []\<rparr>"

section \<open>Tables indexed by number\<close>

type_synonym tab_names = "string option list names"

definition tab_initialize :: "string \<Rightarrow> string option \<Rightarrow> tab_names \<Rightarrow> tab_names option" where
  "tab_initialize path contents st =
     (case rtnl_tab_initialize path contents 256 (nm_tab st) of
        None \<Rightarrow> None
      | Some (t, err) \<Rightarrow> Some (st\<lparr>nm_tab := t, nm_init := True, nm_err := nm_err st @ err\<rparr>))"

text \<open>\<open>init\<close> fills the table, \<open>show_id\<close> prints a number without a name.\<close>

definition tab_n2a :: "(tab_names \<Rightarrow> tab_names option) \<Rightarrow> (s32 \<Rightarrow> string) \<Rightarrow> s32 \<Rightarrow> nat \<Rightarrow> tab_names \<Rightarrow> (string \<times> tab_names) option" where
  "tab_n2a init show_id i len st =
     (if sint i < 0 \<or> 256 \<le> sint i then Some (snprintf len (show_int (sint i)), st)
      else let k = nat (sint i)
           in case (if nm_tab st ! k = None \<and> \<not> nm_init st then init st else Some st) of
                None \<Rightarrow> None
              | Some st \<Rightarrow> Some (case nm_tab st ! k of Some s \<Rightarrow> s | None \<Rightarrow> snprintf len (show_id i), st))"

definition tab_a2n :: "(tab_names \<Rightarrow> tab_names option) \<Rightarrow> nat \<Rightarrow> string \<Rightarrow> tab_names \<Rightarrow> (u32 option \<times> tab_names) option" where
  "tab_a2n init base arg st =
     (if nm_cache st = Some arg then Some (Some (ucast (nm_res st)), st)
      else case (if nm_init st then Some st else init st) of
             None \<Rightarrow> None
           | Some st \<Rightarrow>
               (case find (\<lambda>k. nm_tab st ! k = Some arg) [0..<256] of
                  Some k \<Rightarrow> Some (Some (word_of_nat k), st\<lparr>nm_cache := nm_tab st ! k, nm_res := word_of_nat k\<rparr>)
                | None \<Rightarrow>
                    let (res, rest) = strtoul arg base; st = st\<lparr>nm_res := res\<rparr>
                    in Some (if rest = arg \<or> rest \<noteq> [] \<or> 255 < res then None else Some (ucast res), st)))"

definition rtnl_rtprot_tab :: "string option list" where
  "rtnl_rtprot_tab = map Some [''none'', ''redirect'', ''kernel'', ''boot'', ''static''] @ replicate 3 None
     @ map Some [''gated'', ''ra'', ''mrt'', ''zebra'', ''bird'', ''dnrouted'', ''xorp'', ''ntk'', ''dhcp''] @ replicate 239 None"

definition rtnl_rtprot_initialize :: "string option \<Rightarrow> tab_names \<Rightarrow> tab_names option" where
  "rtnl_rtprot_initialize = tab_initialize ''/etc/iproute2/rt_protos''"

definition rtnl_rtprot_n2a :: "string option \<Rightarrow> s32 \<Rightarrow> nat \<Rightarrow> tab_names \<Rightarrow> (string \<times> tab_names) option" where
  "rtnl_rtprot_n2a contents = tab_n2a (rtnl_rtprot_initialize contents) (\<lambda>i. show_int (sint i))"

definition rtnl_rtprot_a2n :: "string option \<Rightarrow> string \<Rightarrow> tab_names \<Rightarrow> (u32 option \<times> tab_names) option" where
  "rtnl_rtprot_a2n contents = tab_a2n (rtnl_rtprot_initialize contents) 0"

definition rtnl_rtscope_tab :: "string option list" where
  "rtnl_rtscope_tab = Some ''global'' # replicate 255 None"

definition rtnl_rtscope_initialize :: "string option \<Rightarrow> tab_names \<Rightarrow> tab_names option" where
  "rtnl_rtscope_initialize contents st = tab_initialize ''/etc/iproute2/rt_scopes'' contents
     (st\<lparr>nm_tab := (nm_tab st)[255 := Some ''nowhere'', 254 := Some ''host'', 253 := Some ''link'', 200 := Some ''site'']\<rparr>)"

definition rtnl_rtscope_n2a :: "string option \<Rightarrow> s32 \<Rightarrow> nat \<Rightarrow> tab_names \<Rightarrow> (string \<times> tab_names) option" where
  "rtnl_rtscope_n2a contents = tab_n2a (rtnl_rtscope_initialize contents) (\<lambda>i. show_int (sint i))"

definition rtnl_rtscope_a2n :: "string option \<Rightarrow> string \<Rightarrow> tab_names \<Rightarrow> (u32 option \<times> tab_names) option" where
  "rtnl_rtscope_a2n contents = tab_a2n (rtnl_rtscope_initialize contents) 0"

definition rtnl_rtrealm_tab :: "string option list" where
  "rtnl_rtrealm_tab = Some ''unknown'' # replicate 255 None"

definition rtnl_rtrealm_initialize :: "string option \<Rightarrow> tab_names \<Rightarrow> tab_names option" where
  "rtnl_rtrealm_initialize = tab_initialize ''/etc/iproute2/rt_realms''"

definition rtnl_rtrealm_n2a :: "string option \<Rightarrow> s32 \<Rightarrow> nat \<Rightarrow> tab_names \<Rightarrow> (string \<times> tab_names) option" where
  "rtnl_rtrealm_n2a contents = tab_n2a (rtnl_rtrealm_initialize contents) (\<lambda>i. show_int (sint i))"

definition rtnl_rtrealm_a2n :: "string option \<Rightarrow> string \<Rightarrow> tab_names \<Rightarrow> (u32 option \<times> tab_names) option" where
  "rtnl_rtrealm_a2n contents = tab_a2n (rtnl_rtrealm_initialize contents) 0"

definition rtnl_rtdsfield_tab :: "string option list" where
  "rtnl_rtdsfield_tab = Some ''0'' # replicate 255 None"

definition rtnl_rtdsfield_initialize :: "string option \<Rightarrow> tab_names \<Rightarrow> tab_names option" where
  "rtnl_rtdsfield_initialize = tab_initialize ''/etc/iproute2/rt_dsfield''"

definition show_0x02x :: "s32 \<Rightarrow> string" where
  "show_0x02x i = ''0x'' @ pad_zeros 2 (show_hex (unat i))"

definition rtnl_dsfield_n2a :: "string option \<Rightarrow> s32 \<Rightarrow> nat \<Rightarrow> tab_names \<Rightarrow> (string \<times> tab_names) option" where
  "rtnl_dsfield_n2a contents = tab_n2a (rtnl_rtdsfield_initialize contents) show_0x02x"

definition rtnl_dsfield_a2n :: "string option \<Rightarrow> string \<Rightarrow> tab_names \<Rightarrow> (u32 option \<times> tab_names) option" where
  "rtnl_dsfield_a2n contents = tab_a2n (rtnl_rtdsfield_initialize contents) 16"

section \<open>Hash tables\<close>

type_synonym hash_names = "rtnl_hash_entry list list names"

definition RT_TABLE_MAX :: u32 where "RT_TABLE_MAX = 0xFFFFFFFF"

definition hash_initialize :: "string \<Rightarrow> string option \<Rightarrow> hash_names \<Rightarrow> hash_names" where
  "hash_initialize path contents st =
     (let (t, err) = rtnl_hash_initialize path contents 256 (nm_tab st)
      in st\<lparr>nm_tab := t, nm_init := True, nm_err := nm_err st @ err\<rparr>)"

definition hash_find :: "string \<Rightarrow> rtnl_hash_entry list list \<Rightarrow> rtnl_hash_entry option" where
  "hash_find arg hash = find (\<lambda>x. he_name x = arg) (concat hash)"

definition rtnl_rttable_hash :: "rtnl_hash_entry list list" where
  "rtnl_rttable_hash = replicate 253 []
     @ [[\<lparr>he_name = ''default'', he_id = 253\<rparr>], [\<lparr>he_name = ''main'', he_id = 254\<rparr>], [\<lparr>he_name = ''local'', he_id = 255\<rparr>]]"

definition rtnl_rttable_initialize :: "string option \<Rightarrow> hash_names \<Rightarrow> hash_names" where
  "rtnl_rttable_initialize = hash_initialize ''/etc/iproute2/rt_tables''"

definition rtnl_rttable_n2a :: "string option \<Rightarrow> u32 \<Rightarrow> nat \<Rightarrow> hash_names \<Rightarrow> string \<times> hash_names" where
  "rtnl_rttable_n2a contents i len st =
     (if RT_TABLE_MAX < i then (snprintf len (show_dec (unat i)), st)
      else let st = (if nm_init st then st else rtnl_rttable_initialize contents st)
           in (case find (\<lambda>x. he_id x = i) (nm_tab st ! unat (i AND 255)) of
                 Some x \<Rightarrow> he_name x | None \<Rightarrow> snprintf len (show_dec (unat i)), st))"

definition table_number :: "string \<Rightarrow> u32 option" where
  "table_number arg =
     (let (v, rest) = strtoul arg 0; i = ucast v
      in if rest = arg \<or> rest \<noteq> [] \<or> RT_TABLE_MAX < i then None else Some i)"

definition hash_a2n :: "(hash_names \<Rightarrow> hash_names) \<Rightarrow> (string \<Rightarrow> u32 option) \<Rightarrow> string \<Rightarrow> hash_names \<Rightarrow> u32 option \<times> hash_names" where
  "hash_a2n init number arg st =
     (if nm_cache st = Some arg then (Some (ucast (nm_res st)), st)
      else let st = (if nm_init st then st else init st)
           in case hash_find arg (nm_tab st) of
                Some x \<Rightarrow> (Some (he_id x), st\<lparr>nm_cache := Some (he_name x), nm_res := ucast (he_id x)\<rparr>)
              | None \<Rightarrow> (number arg, st))"

definition rtnl_rttable_a2n :: "string option \<Rightarrow> string \<Rightarrow> hash_names \<Rightarrow> u32 option \<times> hash_names" where
  "rtnl_rttable_a2n contents = hash_a2n (rtnl_rttable_initialize contents) table_number"

definition rtnl_group_hash :: "rtnl_hash_entry list list" where
  "rtnl_group_hash = [\<lparr>he_name = ''default'', he_id = 0\<rparr>] # replicate 255 []"

definition rtnl_group_initialize :: "string option \<Rightarrow> hash_names \<Rightarrow> hash_names" where
  "rtnl_group_initialize = hash_initialize ''/etc/iproute2/group''"

definition group_number :: "string \<Rightarrow> s32 option" where
  "group_number arg =
     (let (v, rest) = strtol arg 0; i = ucast v in if rest = arg \<or> rest \<noteq> [] \<or> sint i < 0 then None else Some i)"

definition rtnl_group_a2n :: "string option \<Rightarrow> string \<Rightarrow> hash_names \<Rightarrow> s32 option \<times> hash_names" where
  "rtnl_group_a2n contents = hash_a2n (rtnl_group_initialize contents) group_number"

section \<open>What a file says\<close>

text \<open>The entries of a file up to the first line that is corrupted.\<close>

fun file_entries :: "string list \<Rightarrow> (s32 \<times> string) list" where
  "file_entries [] = []"
| "file_entries (l # ls) =
     (case read_line l of
        Ignored \<Rightarrow> file_entries ls
      | Corrupted p \<Rightarrow> []
      | Entry i name \<Rightarrow> if sint i < 0 then file_entries ls else (i, name) # file_entries ls)"

definition entries :: "string option \<Rightarrow> (s32 \<times> string) list" where
  "entries contents = (case contents of None \<Rightarrow> [] | Some fp \<Rightarrow> file_entries (db_lines fp))"

definition last_name :: "(s32 \<times> string) list \<Rightarrow> s32 \<Rightarrow> string option" where
  "last_name es i = map_of (rev es) i"

lemma last_name_Cons: "last_name ((i, n) # es) j = (case last_name es j of None \<Rightarrow> if j = i then Some n else None | Some m \<Rightarrow> Some m)"
  by (auto simp: last_name_def map_add_def split: option.splits)

lemma file_entries_nonneg: "(i, n) \<in> set (file_entries ls) \<Longrightarrow> 0 \<le> sint i"
  by (induction ls) (auto split: db_line.splits if_splits)

text \<open>An indexed table holds the last entry for each number; entries beyond the table are left out.\<close>

lemma tab_lines_entries:
  assumes "length tab = n" "\<forall>(i, nm) \<in> set (file_entries ls). sint i \<noteq> int n"
  shows "\<exists>err tab'. tab_lines path n ls tab = Some (tab', err) \<and> length tab' = n
    \<and> (\<forall>i. 0 \<le> sint i \<and> sint i < int n \<longrightarrow> tab' ! nat (sint i) = (case last_name (file_entries ls) i of None \<Rightarrow> tab ! nat (sint i) | Some m \<Rightarrow> Some m))"
  using assms
proof (induction ls arbitrary: tab)
  case Nil
  then show ?case by (simp add: last_name_def)
next
  case (Cons l ls)
  show ?case
  proof (cases "read_line l")
    case (Entry i nm)
    consider "sint i < 0" | "int n < sint i" | "0 \<le> sint i" "sint i < int n" using Cons.prems(2) Entry by fastforce
    then show ?thesis
    proof cases
      case 2
      then have "last_name (file_entries (l # ls)) j = last_name (file_entries ls) j" if "sint j < int n" for j
        using Entry that by (auto simp: last_name_Cons split: option.splits)
      moreover have "\<forall>(i, nm) \<in> set (file_entries ls). sint i \<noteq> int n" using Cons.prems(2) Entry by (auto split: if_splits)
      ultimately show ?thesis using Cons.IH [OF Cons.prems(1)] Entry 2 by auto
    next
      case 3
      let ?t = "tab[nat (sint i) := Some nm]"
      have "\<forall>(i, nm) \<in> set (file_entries ls). sint i \<noteq> int n" using Cons.prems(2) Entry by (auto split: if_splits)
      then obtain err tab' where t: "tab_lines path n ls ?t = Some (tab', err)" "length tab' = n"
        "\<And>j. 0 \<le> sint j \<Longrightarrow> sint j < int n \<Longrightarrow> tab' ! nat (sint j) = (case last_name (file_entries ls) j of None \<Rightarrow> ?t ! nat (sint j) | Some m \<Rightarrow> Some m)"
        using Cons.IH [of ?t] Cons.prems(1) by auto
      have at: "?t ! nat (sint j) = (if j = i then Some nm else tab ! nat (sint j))" if "0 \<le> sint j" for j
      proof -
        have "nat (sint i) = nat (sint j) \<longleftrightarrow> j = i" using 3 that by (metis eq_nat_nat_iff signed_word_eqI)
        then show ?thesis using 3 Cons.prems(1) by (simp add: nth_list_update)
      qed
      have "tab' ! nat (sint j) = (case last_name (file_entries (l # ls)) j of None \<Rightarrow> tab ! nat (sint j) | Some m \<Rightarrow> Some m)"
        if "0 \<le> sint j" "sint j < int n" for j
        using t(3) [OF that, unfolded at [OF that(1)]] Entry 3(1) by (auto simp: last_name_Cons split: option.splits)
      moreover have "tab_lines path n (l # ls) tab = Some (tab', err)" using t(1) Entry 3 Cons.prems(1) by simp
      ultimately show ?thesis using t(2) by blast
    qed (use Cons Entry in auto)
  qed (use Cons in \<open>auto simp: last_name_def\<close>)
qed

text \<open>A hash table finds the last entry for a number first, and has all of them.\<close>

definition as_entry :: "s32 \<times> string \<Rightarrow> rtnl_hash_entry" where
  "as_entry = (\<lambda>(i, name). \<lparr>he_name = name, he_id = i\<rparr>)"

definition hash_lookup :: "rtnl_hash_entry list list \<Rightarrow> u32 \<Rightarrow> string option" where
  "hash_lookup hash i = map_option he_name (find (\<lambda>x. he_id x = i) (hash ! unat (i AND 255)))"

lemma and_255_less: "unat (i AND 255 :: u32) < 256"
  using word_and_le1 [of i 255] by (simp add: word_le_nat_alt)

lemma hash_lookup_put:
  assumes "length hash = 256"
  shows "hash_lookup (hash[unat (i AND 255) := \<lparr>he_name = nm, he_id = i\<rparr> # hash ! unat (i AND 255)]) j =
    (if j = i then Some nm else hash_lookup hash j)"
  using assms and_255_less [of i] by (cases "unat (i AND 255) = unat (j AND 255)") (auto simp: hash_lookup_def)

lemma set_concat_put:
  assumes "h < length hash"
  shows "set (concat (hash[h := x # hash ! h])) = insert x (set (concat hash))"
proof -
  have "hash = take h hash @ hash ! h # drop (Suc h) hash" using assms by (rule id_take_nth_drop)
  moreover have "hash[h := x # hash ! h] = take h hash @ (x # hash ! h) # drop (Suc h) hash" using assms by (rule upd_conv_take_nth_drop)
  ultimately show ?thesis by (metis (no_types, lifting) Un_insert_left Un_insert_right append_Cons concat.simps(2) concat_append list.set(2) set_append)
qed

lemma hash_lines_entries:
  assumes "length hash = 256"
  shows "\<exists>err hash'. hash_lines path 256 ls hash = (hash', err) \<and> length hash' = 256
    \<and> set (concat hash') = set (concat hash) \<union> as_entry ` set (file_entries ls)
    \<and> (\<forall>i. hash_lookup hash' i = (case last_name (file_entries ls) i of None \<Rightarrow> hash_lookup hash i | Some m \<Rightarrow> Some m))"
  using assms
proof (induction ls arbitrary: hash)
  case Nil
  then show ?case by (simp add: last_name_def)
next
  case (Cons l ls)
  show ?case
  proof (cases "read_line l")
    case (Entry i nm)
    show ?thesis
    proof (cases "sint i < 0")
      case False
      let ?h = "hash[unat (i AND 255) := \<lparr>he_name = nm, he_id = i\<rparr> # hash ! unat (i AND 255)]"
      obtain err hash' where t: "hash_lines path 256 ls ?h = (hash', err)" "length hash' = 256"
        "set (concat hash') = set (concat ?h) \<union> as_entry ` set (file_entries ls)"
        "\<And>i. hash_lookup hash' i = (case last_name (file_entries ls) i of None \<Rightarrow> hash_lookup ?h i | Some m \<Rightarrow> Some m)"
        using Cons.IH [of ?h] Cons.prems by auto
      have "hash_lines path 256 (l # ls) hash = (hash', err)" using t(1) Entry False by simp
      moreover have "set (concat hash') = set (concat hash) \<union> as_entry ` set (file_entries (l # ls))"
        unfolding t(3) using set_concat_put [of "unat (i AND 255)" hash] and_255_less [of i] Cons.prems Entry False
        by (simp add: as_entry_def)
      moreover have "hash_lookup hash' j = (case last_name (file_entries (l # ls)) j of None \<Rightarrow> hash_lookup hash j | Some m \<Rightarrow> Some m)" for j
        unfolding t(4) hash_lookup_put [OF Cons.prems] using Entry False by (auto simp: last_name_Cons split: option.splits)
      ultimately show ?thesis using t(2) by blast
    qed (use Cons Entry in auto)
  qed (use Cons in \<open>auto simp: last_name_def\<close>)
qed

section \<open>Names and numbers\<close>

lemma small_id:
  assumes "k < 256"
  shows "sint (word_of_nat k :: s32) = int k" "unat (word_of_nat k :: s32) = k" "unat (word_of_nat k :: u64) = k"
    "ucast (word_of_nat k :: u64) = (word_of_nat k :: u32)" "\<not> 255 < (word_of_nat k :: u64)"
proof -
  show "unat (word_of_nat k :: s32) = k" and u: "unat (word_of_nat k :: u64) = k"
    using assms by (simp_all add: unat_of_nat)
  show "sint (word_of_nat k :: s32) = int k"
    using assms by (simp add: sint_word_ariths signed_take_bit_int_eq_self signed_of_nat)
  show "\<not> 255 < (word_of_nat k :: u64)" using u assms by (simp add: word_less_nat_alt)
  show "ucast (word_of_nat k :: u64) = (word_of_nat k :: u32)"
    using assms u by (simp add: word_unat_eq_iff unat_of_nat unsigned_ucast_eq take_bit_nat_eq_self)
qed

lemma small_id_256: "sint (256 :: s32) = 256"
  by simp

text \<open>What the tables of numbers without names need of a way to print a number and to read it.\<close>

definition clear_names :: "(s32 \<Rightarrow> string) \<Rightarrow> string option list \<Rightarrow> bool" where
  "clear_names show_id tab \<longleftrightarrow> (\<forall>j < 256. \<forall>k < 256. tab ! j = tab ! k \<and> tab ! j \<noteq> None \<longrightarrow> j = k)
     \<and> (\<forall>k < 256. tab ! k = None \<longrightarrow> Some (show_id (word_of_nat k)) \<notin> set tab)"

definition tab_ready :: "tab_names \<Rightarrow> bool" where
  "tab_ready st \<longleftrightarrow> nm_init st \<and> length (nm_tab st) = 256
     \<and> (\<forall>n. nm_cache st = Some n \<longrightarrow> (\<exists>k < 256. nm_res st = word_of_nat k \<and> nm_tab st ! k = Some n))"

locale number_text =
  fixes show_id :: "s32 \<Rightarrow> string" and base :: nat
  assumes reads: "k < 256 \<Longrightarrow> strtoul (show_id (word_of_nat k)) base = (word_of_nat k, [])"
    and short: "k < 256 \<Longrightarrow> show_id (word_of_nat k) \<noteq> [] \<and> length (show_id (word_of_nat k)) \<le> 4"
begin

lemma tab_roundtrip:
  assumes "tab_ready st" "clear_names show_id (nm_tab st)" "k < 256" "5 \<le> len"
  shows "\<exists>s st'. tab_n2a init show_id (word_of_nat k) len st = Some (s, st) \<and> tab_a2n init base s st = Some (Some (word_of_nat k), st')"
proof (cases "nm_tab st ! k")
  case None
  let ?s = "show_id (word_of_nat k)"
  have n: "Some ?s \<notin> set (nm_tab st)" using assms(2,3) None by (simp add: clear_names_def)
  then have c: "nm_cache st \<noteq> Some ?s" using assms(1) by (metis nth_mem tab_ready_def)
  have f: "find (\<lambda>k. nm_tab st ! k = Some ?s) [0..<256] = None"
    using n assms(1) by (auto simp: find_None_iff tab_ready_def in_set_conv_nth)
  have "snprintf len ?s = ?s" using short [OF assms(3)] assms(4) by (auto simp: snprintf_def)
  then have "tab_n2a init show_id (word_of_nat k) len st = Some (?s, st)"
    using None assms(1,3) by (simp add: tab_n2a_def small_id tab_ready_def)
  moreover have "\<exists>st'. tab_a2n init base ?s st = Some (Some (word_of_nat k), st')"
    using c f reads [OF assms(3)] short [OF assms(3)] assms(1,3) by (auto simp: tab_a2n_def small_id tab_ready_def)
  ultimately show ?thesis by blast
next
  case (Some s)
  have u: "j = k" if "nm_tab st ! j = Some s" "j < 256" for j
    using that assms(2,3) Some by (auto simp: clear_names_def)
  have n: "tab_n2a init show_id (word_of_nat k) len st = Some (s, st)"
    using Some assms(1,3) by (simp add: tab_n2a_def small_id tab_ready_def)
  have "\<exists>st'. tab_a2n init base s st = Some (Some (word_of_nat k), st')"
  proof (cases "nm_cache st = Some s")
    case True
    then obtain j where "j < 256" "nm_res st = word_of_nat j" "nm_tab st ! j = Some s" using assms(1) by (auto simp: tab_ready_def)
    then show ?thesis using True u by (auto simp: tab_a2n_def small_id)
  next
    case False
    obtain j where j: "find (\<lambda>k. nm_tab st ! k = Some s) [0..<256] = Some j"
      using Some assms(3) by (cases "find (\<lambda>k. nm_tab st ! k = Some s) [0..<256]") (auto simp: find_None_iff)
    then have "nm_tab st ! j = Some s" "j < 256" by (auto simp: find_Some_iff)
    then have "j = k" by (rule u)
    then show ?thesis using j False assms(1) by (auto simp: tab_a2n_def tab_ready_def)
  qed
  with n show ?thesis by blast
qed

end

lemma show_dec_256: "k < 256 \<Longrightarrow> length (show_dec k) \<le> 3"
  using length_show_base [of 10 k 2] by simp

interpretation dec_text: number_text "\<lambda>i. show_int (sint i)" 0
proof (unfold_locales, goal_cases)
  case (1 k)
  then show ?case using strto_mag_show_auto [of "[]" k] by (simp add: small_id show_int_def strtoul_def)
next
  case (2 k)
  then show ?case using show_dec_256 [of k] by (auto simp: small_id show_int_def)
qed

lemma show_0x02x_small:
  assumes "k < 256"
  shows "show_0x02x (word_of_nat k) = [CHR ''0'', CHR ''x'', digit_char (k div 16), digit_char (k mod 16)]"
proof -
  have "k div 16 < 16" using assms by simp
  then have "show_hex k = (if k < 16 then [digit_char k] else [digit_char (k div 16), digit_char (k mod 16)])"
    using assms by (subst show_base.simps) (simp add: show_base.simps [of 16 "k div 16"])
  then show ?thesis using assms by (simp add: show_0x02x_def small_id pad_zeros_def digit_char_0)
qed

interpretation hex_text: number_text show_0x02x 16
proof (unfold_locales, goal_cases)
  case (1 k)
  let ?d = "[digit_char (k div 16), digit_char (k mod 16)]"
  have d: "takeWhile (is_digit 16) ?d = ?d" "dropWhile (is_digit 16) ?d = []" "digits_val 16 ?d = k"
    using 1 by (simp_all add: digits_val_def)
  have "has_hex (CHR ''0'' # CHR ''x'' # ?d)" using 1 by simp
  then have "strto_mag 16 (CHR ''0'' # CHR ''x'' # ?d) = Some (False, k, [])"
    using d by (simp add: strto_mag_def take_sign_def num_prefix_def c_isspace_def Let_def)
  then show ?case using 1 by (simp add: show_0x02x_small strtoul_def)
qed (simp add: show_0x02x_small)

text \<open>A query that may change a cache, and the answers a sequence of queries gets.\<close>

fun ask_all :: "('k \<Rightarrow> 's \<Rightarrow> 'v \<times> 's) \<Rightarrow> 'k list \<Rightarrow> 's \<Rightarrow> 'v list \<times> 's" where
  "ask_all query [] s = ([], s)"
| "ask_all query (k # ks) s = (let (v, s) = query k s; (vs, s) = ask_all query ks s in (v # vs, s))"

locale cached_query =
  fixes query :: "'k \<Rightarrow> 's \<Rightarrow> 'v \<times> 's" and answer :: "'k \<Rightarrow> 'v" and ok :: "'s \<Rightarrow> bool"
  assumes answers: "ok s \<Longrightarrow> fst (query k s) = answer k"
    and keeps: "ok s \<Longrightarrow> ok (snd (query k s))"
begin

lemma transparent: "ok s \<Longrightarrow> fst (ask_all query ks s) = map answer ks \<and> ok (snd (ask_all query ks s))"
proof (induction ks arbitrary: s)
  case (Cons k ks)
  obtain v s' where q: "query k s = (v, s')" by fastforce
  with Cons.prems have "v = answer k" "ok s'" using answers [of s k] keeps [of s k] by simp_all
  then show ?case using Cons.IH [of s'] q by (simp add: case_prod_beta Let_def)
qed simp

end

definition hash_sound :: "(hash_names \<Rightarrow> hash_names) \<Rightarrow> rtnl_hash_entry list list \<Rightarrow> hash_names \<Rightarrow> bool" where
  "hash_sound init hash st \<longleftrightarrow> (let t = nm_tab (init (fresh_names hash)) in
     (if nm_init st then nm_tab st = t else nm_tab (init st) = t \<and> nm_init (init st) \<and> nm_cache (init st) = nm_cache st)
     \<and> (\<forall>n. nm_cache st = Some n \<longrightarrow> (\<exists>x. hash_find n t = Some x \<and> nm_res st = ucast (he_id x))))"

definition hash_answer :: "(string \<Rightarrow> u32 option) \<Rightarrow> rtnl_hash_entry list list \<Rightarrow> string \<Rightarrow> u32 option" where
  "hash_answer number hash arg = (case hash_find arg hash of Some x \<Rightarrow> Some (he_id x) | None \<Rightarrow> number arg)"

lemma hash_find_name: "hash_find n t = Some x \<Longrightarrow> he_name x = n"
  by (auto simp: hash_find_def find_Some_iff)

lemma hash_a2n_sound:
  assumes "hash_sound init hash st" "\<And>st. nm_res (init st) = nm_res st"
  shows "fst (hash_a2n init number arg st) = hash_answer number (nm_tab (init (fresh_names hash))) arg
    \<and> hash_sound init hash (snd (hash_a2n init number arg st))"
proof (cases "nm_cache st = Some arg")
  case True
  then obtain x where "hash_find arg (nm_tab (init (fresh_names hash))) = Some x" "nm_res st = ucast (he_id x)"
    using assms(1) by (auto simp: hash_sound_def Let_def)
  then show ?thesis using True assms(1) by (simp add: hash_a2n_def hash_answer_def)
next
  case False
  let ?t = "nm_tab (init (fresh_names hash))" and ?st = "if nm_init st then st else init st"
  have "nm_tab ?st = ?t" "nm_init ?st" "nm_cache ?st = nm_cache st" "nm_res ?st = nm_res st"
    using assms by (auto simp: hash_sound_def Let_def split: if_splits)
  moreover have "hash_find arg ?t = Some x \<Longrightarrow> he_name x = arg" for x by (rule hash_find_name)
  ultimately show ?thesis using False assms(1)
    by (auto simp: hash_a2n_def hash_answer_def hash_sound_def Let_def split: option.splits)
qed

lemma hash_initialize_simps [simp]:
  "nm_init (hash_initialize path contents st)" "nm_cache (hash_initialize path contents st) = nm_cache st"
  "nm_res (hash_initialize path contents st) = nm_res st"
  "nm_tab (hash_initialize path contents st) = fst (rtnl_hash_initialize path contents 256 (nm_tab st))"
  by (simp_all add: hash_initialize_def case_prod_beta Let_def)

lemma hash_sound_fresh: "hash_sound (hash_initialize path contents) hash (fresh_names hash)"
  by (simp add: hash_sound_def fresh_names_def)

interpretation rttable: cached_query "rtnl_rttable_a2n contents"
  "hash_answer table_number (nm_tab (rtnl_rttable_initialize contents (fresh_names rtnl_rttable_hash)))"
  "hash_sound (rtnl_rttable_initialize contents) rtnl_rttable_hash"
  for contents
  using hash_a2n_sound [of "rtnl_rttable_initialize contents" rtnl_rttable_hash]
  by unfold_locales (simp_all add: rtnl_rttable_a2n_def rtnl_rttable_initialize_def)

interpretation device_group: cached_query "rtnl_group_a2n contents"
  "hash_answer group_number (nm_tab (rtnl_group_initialize contents (fresh_names rtnl_group_hash)))"
  "hash_sound (rtnl_group_initialize contents) rtnl_group_hash"
  for contents
  using hash_a2n_sound [of "rtnl_group_initialize contents" rtnl_group_hash]
  by unfold_locales (simp_all add: rtnl_group_a2n_def rtnl_group_initialize_def)

text \<open>
  The caches of routing tables and device groups never change an answer: over any
  sequence of queries each text gives the number of the first entry of that name, or the
  number it spells.
\<close>
lemma hash_names_transparent:
  "fst (ask_all (rtnl_rttable_a2n contents) qs (fresh_names rtnl_rttable_hash)) =
     map (hash_answer table_number (fst (rtnl_hash_initialize ''/etc/iproute2/rt_tables'' contents 256 rtnl_rttable_hash))) qs
   \<and> fst (ask_all (rtnl_group_a2n contents) qs (fresh_names rtnl_group_hash)) =
     map (hash_answer group_number (fst (rtnl_hash_initialize ''/etc/iproute2/group'' contents 256 rtnl_group_hash))) qs"
  using rttable.transparent [OF hash_sound_fresh [of "''/etc/iproute2/rt_tables''" contents, folded rtnl_rttable_initialize_def]]
    device_group.transparent [OF hash_sound_fresh [of "''/etc/iproute2/group''" contents, folded rtnl_group_initialize_def]]
  by (simp add: rtnl_rttable_initialize_def rtnl_group_initialize_def fresh_names_def)

text \<open>What a table says about a number: the last entry of the file, else what is built in, else the number itself.\<close>

definition name_of :: "(s32 \<times> string) list \<Rightarrow> string option \<Rightarrow> string \<Rightarrow> u32 \<Rightarrow> string" where
  "name_of es builtin digits i = (case last_name es i of Some n \<Rightarrow> n | None \<Rightarrow> (case builtin of Some n \<Rightarrow> n | None \<Rightarrow> digits))"

lemma tab_initialize_entries:
  assumes "\<forall>(i, nm) \<in> set (entries contents). i \<noteq> 256" "length (nm_tab st) = 256"
  shows "\<exists>st'. tab_initialize path contents st = Some st' \<and> nm_init st' \<and> nm_cache st' = nm_cache st \<and> length (nm_tab st') = 256
    \<and> (\<forall>k < 256. nm_tab st' ! k = (case last_name (entries contents) (word_of_nat k) of None \<Rightarrow> nm_tab st ! k | Some m \<Rightarrow> Some m))"
proof (cases contents)
  case None
  then show ?thesis using assms(2) by (simp add: tab_initialize_def rtnl_tab_initialize_def entries_def last_name_def)
next
  case (Some fp)
  have "sint i \<noteq> 256" if "i \<noteq> 256" for i :: s32 using that by (metis signed_word_eqI small_id_256)
  then have "\<forall>(i, nm) \<in> set (file_entries (db_lines fp)). sint i \<noteq> int 256" using assms(1) Some by (auto simp: entries_def)
  then obtain err t where t: "tab_lines path 256 (db_lines fp) (nm_tab st) = Some (t, err)" "length t = 256"
    "\<And>i. 0 \<le> sint i \<Longrightarrow> sint i < 256 \<Longrightarrow> t ! nat (sint i) = (case last_name (file_entries (db_lines fp)) i of None \<Rightarrow> nm_tab st ! nat (sint i) | Some m \<Rightarrow> Some m)"
    using tab_lines_entries [OF assms(2), of "db_lines fp" path] by auto
  have "t ! k = (case last_name (entries contents) (word_of_nat k) of None \<Rightarrow> nm_tab st ! k | Some m \<Rightarrow> Some m)" if "k < 256" for k
    using t(3) [of "word_of_nat k"] that Some by (simp add: small_id entries_def cong: option.case_cong)
  with t(1,2) show ?thesis using Some by (simp add: tab_initialize_def rtnl_tab_initialize_def)
qed

lemma initialized_n2a:
  assumes "nm_init st" "k < 256"
  shows "tab_n2a init show_id (word_of_nat k) len st = Some (case nm_tab st ! k of Some s \<Rightarrow> s | None \<Rightarrow> snprintf len (show_id (word_of_nat k)), st)"
  using assms by (simp add: tab_n2a_def small_id)

lemma initialized_names:
  assumes "\<forall>(i, nm) \<in> set (entries contents). i \<noteq> 256" "length (nm_tab st) = 256" "k < 256"
  shows "\<exists>st'. tab_initialize path contents st = Some st'
    \<and> tab_n2a init show_id (word_of_nat k) len st' =
        Some (name_of (entries contents) (nm_tab st ! k) (snprintf len (show_id (word_of_nat k))) (word_of_nat k), st')"
proof -
  obtain st' where "tab_initialize path contents st = Some st'" "nm_init st'"
    "nm_tab st' ! k = (case last_name (entries contents) (word_of_nat k) of None \<Rightarrow> nm_tab st ! k | Some m \<Rightarrow> Some m)"
    using tab_initialize_entries [OF assms(1,2), of path] assms(3) by blast
  then show ?thesis using assms(3) by (auto simp: initialized_n2a name_of_def split: option.splits)
qed

lemma rt_tab_lengths [simp]: "length rtnl_rtprot_tab = 256" "length rtnl_rtscope_tab = 256" "length rtnl_rtrealm_tab = 256"
  "length rtnl_rtdsfield_tab = 256" "length rtnl_rttable_hash = 256" "length rtnl_group_hash = 256"
  by (simp_all add: rtnl_rtprot_tab_def rtnl_rtscope_tab_def rtnl_rtrealm_tab_def rtnl_rtdsfield_tab_def
      rtnl_rttable_hash_def rtnl_group_hash_def)

lemma in_chain: "h < length t \<Longrightarrow> x \<in> set (t ! h) \<Longrightarrow> x \<in> set (concat t)"
  using nth_mem by fastforce

lemma builtin_tables: "hash_lookup rtnl_rttable_hash i = map_of [(253, ''default''), (254, ''main''), (255, ''local'')] i"
proof (cases "i = 253 \<or> i = 254 \<or> i = 255")
  case True
  then show ?thesis by (auto simp: hash_lookup_def rtnl_rttable_hash_def nth_append)
next
  case False
  have "he_id x \<in> {253, 254, 255}" if "x \<in> set (rtnl_rttable_hash ! unat (i AND 255))" for x
  proof -
    have "x \<in> set (concat rtnl_rttable_hash)" using that and_255_less [of i] by (intro in_chain) simp_all
    then show ?thesis by (auto simp: rtnl_rttable_hash_def)
  qed
  then have "find (\<lambda>x. he_id x = i) (rtnl_rttable_hash ! unat (i AND 255)) = None"
    using False by (auto simp: find_None_iff)
  then show ?thesis using False by (simp add: hash_lookup_def)
qed

lemma rt_table_max: "\<not> RT_TABLE_MAX < i"
proof -
  have "RT_TABLE_MAX = - 1" by (simp add: RT_TABLE_MAX_def)
  then show ?thesis by (metis not_less word_n1_ge)
qed

lemma hash_initialize_entries:
  assumes "length hash = 256"
  shows "hash_lookup (fst (rtnl_hash_initialize path contents 256 hash)) i =
      (case last_name (entries contents) i of None \<Rightarrow> hash_lookup hash i | Some m \<Rightarrow> Some m)"
    and "set (concat (fst (rtnl_hash_initialize path contents 256 hash))) = set (concat hash) \<union> as_entry ` set (entries contents)"
proof -
  show "hash_lookup (fst (rtnl_hash_initialize path contents 256 hash)) i =
      (case last_name (entries contents) i of None \<Rightarrow> hash_lookup hash i | Some m \<Rightarrow> Some m)"
  proof (cases contents)
    case (Some fp)
    then show ?thesis using hash_lines_entries [OF assms, of path "db_lines fp"] by (auto simp: rtnl_hash_initialize_def entries_def)
  qed (simp add: rtnl_hash_initialize_def entries_def last_name_def)
  show "set (concat (fst (rtnl_hash_initialize path contents 256 hash))) = set (concat hash) \<union> as_entry ` set (entries contents)"
  proof (cases contents)
    case (Some fp)
    then show ?thesis using hash_lines_entries [OF assms, of path "db_lines fp"]
      by (auto simp: rtnl_hash_initialize_def entries_def simp del: set_concat)
  qed (simp add: rtnl_hash_initialize_def entries_def)
qed

lemma rttable_named:
  "fst (rtnl_rttable_n2a contents i len (fresh_names rtnl_rttable_hash)) =
     name_of (entries contents) (hash_lookup rtnl_rttable_hash i) (snprintf len (show_dec (unat i))) i"
proof -
  let ?t = "fst (rtnl_hash_initialize ''/etc/iproute2/rt_tables'' contents 256 rtnl_rttable_hash)"
  have "hash_lookup ?t i = (case last_name (entries contents) i of None \<Rightarrow> hash_lookup rtnl_rttable_hash i | Some m \<Rightarrow> Some m)"
    by (simp add: hash_initialize_entries)
  moreover have "\<not> RT_TABLE_MAX < i" by (rule rt_table_max)
  ultimately show ?thesis
    by (auto simp: rtnl_rttable_n2a_def rtnl_rttable_initialize_def fresh_names_def hash_lookup_def name_of_def Let_def
        split: option.splits)
qed

text \<open>
  C27: once a table of names is read, the name of a number is the one in the last line of the
  file for it, else the one built in, else its digits, in base sixteen for service fields.
  Scopes have four names built in by the initialisation. Numbers of routing tables have no
  bound; for the others the file must not name the number 256.
\<close>
theorem name_tables_refine:
  assumes "\<forall>(i, nm) \<in> set (entries contents). i \<noteq> 256" "k < 256"
  shows "(\<exists>st. rtnl_rtprot_initialize contents (fresh_names rtnl_rtprot_tab) = Some st
      \<and> rtnl_rtprot_n2a contents (word_of_nat k) len st =
          Some (name_of (entries contents) (rtnl_rtprot_tab ! k) (snprintf len (show_dec k)) (word_of_nat k), st))
    \<and> (\<exists>st. rtnl_rtscope_initialize contents (fresh_names rtnl_rtscope_tab) = Some st
      \<and> rtnl_rtscope_n2a contents (word_of_nat k) len st =
          Some (name_of (entries contents)
            (map_of [(0, ''global''), (200, ''site''), (253, ''link''), (254, ''host''), (255, ''nowhere'')] k) (snprintf len (show_dec k)) (word_of_nat k), st))
    \<and> (\<exists>st. rtnl_rtrealm_initialize contents (fresh_names rtnl_rtrealm_tab) = Some st
      \<and> rtnl_rtrealm_n2a contents (word_of_nat k) len st =
          Some (name_of (entries contents) (map_of [(0, ''unknown'')] k) (snprintf len (show_dec k)) (word_of_nat k), st))
    \<and> (\<exists>st. rtnl_rtdsfield_initialize contents (fresh_names rtnl_rtdsfield_tab) = Some st
      \<and> rtnl_dsfield_n2a contents (word_of_nat k) len st =
          Some (name_of (entries contents) (map_of [(0, ''0'')] k) (snprintf len (''0x'' @ pad_zeros 2 (show_hex k))) (word_of_nat k), st))
    \<and> fst (rtnl_rttable_n2a contents i len (fresh_names rtnl_rttable_hash)) =
        name_of (entries contents) (map_of [(253, ''default''), (254, ''main''), (255, ''local'')] i) (snprintf len (show_dec (unat i))) i"
proof (intro conjI)
  have d: "show_int (sint (word_of_nat k :: s32)) = show_dec k" using assms(2) by (simp add: small_id show_int_def)
  have nth: "(x # replicate 255 None) ! k = (if k = 0 then x else None)" for x :: "string option"
    using assms(2) by (auto simp: nth_Cons')
  note named = initialized_names [OF assms(1) _ assms(2)]
  show "\<exists>st. rtnl_rtprot_initialize contents (fresh_names rtnl_rtprot_tab) = Some st
      \<and> rtnl_rtprot_n2a contents (word_of_nat k) len st =
          Some (name_of (entries contents) (rtnl_rtprot_tab ! k) (snprintf len (show_dec k)) (word_of_nat k), st)"
    using named [of "fresh_names rtnl_rtprot_tab" "''/etc/iproute2/rt_protos''" "rtnl_rtprot_initialize contents" "\<lambda>i. show_int (sint i)" len]
    by (simp add: rtnl_rtprot_initialize_def rtnl_rtprot_n2a_def fresh_names_def d)
  show "\<exists>st. rtnl_rtrealm_initialize contents (fresh_names rtnl_rtrealm_tab) = Some st
      \<and> rtnl_rtrealm_n2a contents (word_of_nat k) len st =
          Some (name_of (entries contents) (map_of [(0, ''unknown'')] k) (snprintf len (show_dec k)) (word_of_nat k), st)"
    using named [of "fresh_names rtnl_rtrealm_tab" "''/etc/iproute2/rt_realms''" "rtnl_rtrealm_initialize contents" "\<lambda>i. show_int (sint i)" len]
    by (simp add: rtnl_rtrealm_initialize_def rtnl_rtrealm_n2a_def fresh_names_def rtnl_rtrealm_tab_def nth d)
  show "\<exists>st. rtnl_rtdsfield_initialize contents (fresh_names rtnl_rtdsfield_tab) = Some st
      \<and> rtnl_dsfield_n2a contents (word_of_nat k) len st =
          Some (name_of (entries contents) (map_of [(0, ''0'')] k) (snprintf len (''0x'' @ pad_zeros 2 (show_hex k))) (word_of_nat k), st)"
    using named [of "fresh_names rtnl_rtdsfield_tab" "''/etc/iproute2/rt_dsfield''" "rtnl_rtdsfield_initialize contents" show_0x02x len] assms(2)
    by (simp add: rtnl_rtdsfield_initialize_def rtnl_dsfield_n2a_def fresh_names_def rtnl_rtdsfield_tab_def nth show_0x02x_def small_id)
  let ?t = "rtnl_rtscope_tab[255 := Some ''nowhere'', 254 := Some ''host'', 253 := Some ''link'', 200 := Some ''site'']"
  have "?t ! k = map_of [(0, ''global''), (200, ''site''), (253, ''link''), (254, ''host''), (255, ''nowhere'')] k"
    using assms(2) by (auto simp: rtnl_rtscope_tab_def nth_list_update nth)
  then show "\<exists>st. rtnl_rtscope_initialize contents (fresh_names rtnl_rtscope_tab) = Some st
      \<and> rtnl_rtscope_n2a contents (word_of_nat k) len st =
          Some (name_of (entries contents)
            (map_of [(0, ''global''), (200, ''site''), (253, ''link''), (254, ''host''), (255, ''nowhere'')] k) (snprintf len (show_dec k)) (word_of_nat k), st)"
    using named [of "fresh_names ?t" "''/etc/iproute2/rt_scopes''" "rtnl_rtscope_initialize contents" "\<lambda>i. show_int (sint i)" len]
    by (simp add: rtnl_rtscope_initialize_def rtnl_rtscope_n2a_def fresh_names_def d)
  have "hash_lookup rtnl_rttable_hash i = map_of [(253, ''default''), (254, ''main''), (255, ''local'')] i"
    by (rule builtin_tables)
  then show "fst (rtnl_rttable_n2a contents i len (fresh_names rtnl_rttable_hash)) =
        name_of (entries contents) (map_of [(253, ''default''), (254, ''main''), (255, ''local'')] i) (snprintf len (show_dec (unat i))) i"
    by (simp add: rttable_named)
qed

definition sample_file :: string where
  "sample_file = ''# names'' @ [CHR 0x0A] @ ''5 lan'' @ [CHR 0x0A, CHR 0x09] @ ''0x1f wan  # outside'' @ [CHR 0x0A] @ ''5 home'' @ [CHR 0x0A]"

lemma sample_lines:
  "db_lines sample_file = [''# names'' @ [CHR 0x0A], ''5 lan'' @ [CHR 0x0A], CHR 0x09 # ''0x1f wan  # outside'' @ [CHR 0x0A], ''5 home'' @ [CHR 0x0A]]"
  by (simp add: sample_file_def db_lines.simps fgets_def)

lemma sample_read:
  "read_line (''# names'' @ [CHR 0x0A]) = Ignored"
  "read_line (''5 lan'' @ [CHR 0x0A]) = Entry 5 ''lan''"
  "read_line (CHR 0x09 # ''0x1f wan  # outside'' @ [CHR 0x0A]) = Entry 31 ''wan''"
  "read_line (''5 home'' @ [CHR 0x0A]) = Entry 5 ''home''"
  by (simp_all add: read_line_def scan_hex_entry_def scan_dec_entry_def scan_hex_def scan_dec_def scan_s_def c_isspace_def
      strtol_def strtoul_def strto_mag_def take_sign_def num_prefix_def digits_val_def is_digit_def digit_val_def c_tolower_def Let_def)

lemma sample_entries: "entries (Some sample_file) = [(5, ''lan''), (31, ''wan''), (5, ''home'')]"
  using sample_read by (simp add: entries_def sample_lines)

theorem name_tables_refine_witness:
  "(\<exists>st. rtnl_rtprot_initialize (Some sample_file) (fresh_names rtnl_rtprot_tab) = Some st
      \<and> rtnl_rtprot_n2a (Some sample_file) 5 64 st = Some (''home'', st))
    \<and> fst (rtnl_rttable_n2a (Some sample_file) 31 64 (fresh_names rtnl_rttable_hash)) = ''wan''"
  using name_tables_refine [of "Some sample_file" 5 64 31] by (simp add: sample_entries name_of_def last_name_def)

text \<open>Routing tables, where a number may have any 32 bits.\<close>

definition clear_hash :: "rtnl_hash_entry list list \<Rightarrow> bool" where
  "clear_hash hash \<longleftrightarrow> (\<forall>x \<in> set (concat hash). \<forall>y \<in> set (concat hash). he_name x = he_name y \<longrightarrow> he_id x = he_id y)
     \<and> (\<forall>x \<in> set (concat hash). \<forall>i. hash_lookup hash i = None \<longrightarrow> he_name x \<noteq> show_dec (unat i))"

lemma table_number_show: "table_number (show_dec (unat i)) = Some i"
proof -
  have u: "unat i < 2 ^ 32" using unsigned_less [of i] by simp
  have "strtoul (show_dec (unat i)) 0 = (word_of_nat (unat i), [])"
    using strto_mag_show_auto [of "[]" "unat i"] u by (simp add: strtoul_def)
  moreover have "ucast (word_of_nat (unat i) :: u64) = i"
    using u by (simp add: word_unat_eq_iff unat_of_nat unsigned_ucast_eq take_bit_nat_eq_self)
  ultimately show ?thesis using rt_table_max show_base_nonempty [of 10 "unat i", symmetric] by (simp add: table_number_def)
qed

lemma rttable_roundtrip:
  assumes "hash_sound (rtnl_rttable_initialize contents) rtnl_rttable_hash st" "nm_init st" "clear_hash (nm_tab st)"
    and "length (nm_tab st) = 256" "11 \<le> len"
  shows "rtnl_rttable_n2a contents i len st = (s, st') \<Longrightarrow> st' = st \<and> fst (rtnl_rttable_a2n contents s st) = Some i"
proof -
  assume n: "rtnl_rttable_n2a contents i len st = (s, st')"
  let ?t = "nm_tab st"
  have t: "nm_tab (rtnl_rttable_initialize contents (fresh_names rtnl_rttable_hash)) = ?t" using assms(1,2) by (simp add: hash_sound_def Let_def)
  have a: "fst (rtnl_rttable_a2n contents s st) = hash_answer table_number ?t s" using rttable.answers [OF assms(1)] t by simp
  have "unat i < 2 ^ LENGTH(32)" by (rule unsigned_less)
  then have "unat i < 10 ^ Suc 9" by simp
  then have "length (show_dec (unat i)) \<le> 10" using length_show_base [of 10 "unat i" 9] by simp
  then have d: "snprintf len (show_dec (unat i)) = show_dec (unat i)" using assms(5) by (auto simp: snprintf_def)
  have st: "st' = st" using n assms(2) by (simp add: rtnl_rttable_n2a_def rt_table_max Let_def)
  show ?thesis
  proof (cases "find (\<lambda>x. he_id x = i) (?t ! unat (i AND 255))")
    case None
    then have s: "s = show_dec (unat i)" "hash_lookup ?t i = None"
      using n assms(2) d by (auto simp: rtnl_rttable_n2a_def rt_table_max hash_lookup_def Let_def)
    then have "hash_find s ?t = None" using assms(3) by (auto simp: hash_find_def find_None_iff clear_hash_def simp del: set_concat)
    then show ?thesis using a st s(1) by (simp add: hash_answer_def table_number_show)
  next
    case (Some x)
    then have s: "s = he_name x" using n assms(2) by (simp add: rtnl_rttable_n2a_def rt_table_max Let_def)
    have x: "he_id x = i" "x \<in> set (concat ?t)"
      using Some and_255_less [of i] assms(4) in_chain [of "unat (i AND 255)" ?t x] by (auto simp: find_Some_iff simp del: set_concat)
    then obtain y where y: "hash_find s ?t = Some y"
      using s by (cases "hash_find s ?t") (auto simp: hash_find_def find_None_iff simp del: set_concat)
    then have "he_name y = s" "y \<in> set (concat ?t)" by (auto simp: hash_find_def find_Some_iff simp del: set_concat)
    then have "he_id y = i" using x s assms(3) unfolding clear_hash_def by metis
    then show ?thesis using a st y by (simp add: hash_answer_def)
  qed
qed

text \<open>
  C28: a printed name or number is read back as the same number. In an initialised table
  whose names are different from each other and from the digits of the numbers without a
  name, whose cache of the last name is empty or holds a name with its own number, and with a
  buffer of at least five characters (eleven for routing tables), this holds for every
  protocol, scope, realm and service field below 256 and for every routing table.
\<close>
theorem names_roundtrip:
  assumes "tab_ready st" "clear_names (\<lambda>i. show_int (sint i)) (nm_tab st)" "tab_ready dst" "clear_names show_0x02x (nm_tab dst)" "k < 256" "5 \<le> len"
    and "hash_sound (rtnl_rttable_initialize contents) rtnl_rttable_hash tst" "nm_init tst" "clear_hash (nm_tab tst)" "length (nm_tab tst) = 256" "11 \<le> tlen"
  shows "(\<exists>s st'. rtnl_rtprot_n2a contents (word_of_nat k) len st = Some (s, st) \<and> rtnl_rtprot_a2n contents s st = Some (Some (word_of_nat k), st'))
    \<and> (\<exists>s st'. rtnl_rtscope_n2a contents (word_of_nat k) len st = Some (s, st) \<and> rtnl_rtscope_a2n contents s st = Some (Some (word_of_nat k), st'))
    \<and> (\<exists>s st'. rtnl_rtrealm_n2a contents (word_of_nat k) len st = Some (s, st) \<and> rtnl_rtrealm_a2n contents s st = Some (Some (word_of_nat k), st'))
    \<and> (\<exists>s st'. rtnl_dsfield_n2a contents (word_of_nat k) len dst = Some (s, dst) \<and> rtnl_dsfield_a2n contents s dst = Some (Some (word_of_nat k), st'))
    \<and> (\<exists>s. rtnl_rttable_n2a contents i tlen tst = (s, tst) \<and> fst (rtnl_rttable_a2n contents s tst) = Some i)"
  unfolding rtnl_rtprot_n2a_def rtnl_rtprot_a2n_def rtnl_rtscope_n2a_def rtnl_rtscope_a2n_def rtnl_rtrealm_n2a_def rtnl_rtrealm_a2n_def
    rtnl_dsfield_n2a_def rtnl_dsfield_a2n_def
  using dec_text.tab_roundtrip [OF assms(1,2,5,6)] hex_text.tab_roundtrip [OF assms(3-6)] rttable_roundtrip [OF assms(7-11)]
  by (intro conjI) (blast | metis surj_pair)+

lemma one_name:
  assumes "\<And>k. k < 256 \<Longrightarrow> show_id (word_of_nat k) \<noteq> n"
  shows "tab_ready \<lparr>nm_tab = Some n # replicate 255 None, nm_init = True, nm_cache = None, nm_res = 0, nm_err = []\<rparr>"
    and "clear_names show_id (Some n # replicate 255 None)"
proof -
  have "(Some n # replicate 255 None) ! k = (if k = 0 then Some n else None)" if "k < 256" for k
    using that by (auto simp: nth_Cons')
  then show "clear_names show_id (Some n # replicate 255 None)" using assms by (auto simp: clear_names_def)
qed (simp add: tab_ready_def)

lemma not_digits: "\<not> list_all (is_digit 10) n \<Longrightarrow> show_dec k \<noteq> n"
  using show_base_digits [of 10 k] by auto

theorem names_roundtrip_witness:
  "(\<exists>s st'. rtnl_rtrealm_n2a None 200 8 \<lparr>nm_tab = rtnl_rtrealm_tab, nm_init = True, nm_cache = None, nm_res = 0, nm_err = []\<rparr>
        = Some (s, \<lparr>nm_tab = rtnl_rtrealm_tab, nm_init = True, nm_cache = None, nm_res = 0, nm_err = []\<rparr>)
      \<and> rtnl_rtrealm_a2n None s \<lparr>nm_tab = rtnl_rtrealm_tab, nm_init = True, nm_cache = None, nm_res = 0, nm_err = []\<rparr> = Some (Some 200, st'))
   \<and> (\<exists>s. rtnl_rttable_n2a None 254 16 (rtnl_rttable_initialize None (fresh_names rtnl_rttable_hash)) = (s, rtnl_rttable_initialize None (fresh_names rtnl_rttable_hash))
      \<and> fst (rtnl_rttable_a2n None s (rtnl_rttable_initialize None (fresh_names rtnl_rttable_hash))) = Some 254)"
proof -
  let ?st = "\<lparr>nm_tab = rtnl_rtrealm_tab, nm_init = True, nm_cache = None, nm_res = 0, nm_err = []\<rparr>"
  let ?dst = "\<lparr>nm_tab = Some ''0'' # replicate 255 None, nm_init = True, nm_cache = None, nm_res = 0, nm_err = []\<rparr>"
  let ?tst = "rtnl_rttable_initialize None (fresh_names rtnl_rttable_hash)"
  have "show_int (sint (word_of_nat k :: s32)) \<noteq> ''unknown''" if "k < 256" for k
    using that not_digits [of "''unknown''" k] by (simp add: small_id show_int_def is_digit_def digit_val_def)
  note r = one_name [where show_id = "\<lambda>i. show_int (sint i)" and n = "''unknown''", OF this, folded rtnl_rtrealm_tab_def]
  note d = one_name [where show_id = show_0x02x and n = "''0''", simplified show_0x02x_small, simplified]
  have t: "nm_tab ?tst = rtnl_rttable_hash" "nm_init ?tst"
    by (simp_all add: rtnl_rttable_initialize_def rtnl_hash_initialize_def fresh_names_def)
  have "hash_sound (rtnl_rttable_initialize None) rtnl_rttable_hash ?tst"
    by (simp add: hash_sound_def rtnl_rttable_initialize_def fresh_names_def)
  moreover have "''default'' \<noteq> show_dec k" "''main'' \<noteq> show_dec k" "''local'' \<noteq> show_dec k" for k
    by (rule not_digits [symmetric], simp add: is_digit_def digit_val_def)+
  then have "clear_hash (nm_tab ?tst)"
    unfolding t(1) clear_hash_def by (simp add: rtnl_rttable_hash_def)
  ultimately show ?thesis
    using names_roundtrip [of ?st ?dst 200 8 None ?tst 16 254] r d t by simp
qed

text \<open>
  C29: the caches of protocols, scopes and realms are spoiled by numbers: when a text that
  spells a number is read after a name was found, the name is answered with that number from
  then on, until another name is found.
\<close>
theorem name_cache_spoiled:
  assumes "nm_init st" "nm_cache st = None" "find (\<lambda>j. nm_tab st ! j = Some nm) [0..<256] = Some k"
    and "find (\<lambda>j. nm_tab st ! j = Some t) [0..<256] = None" "t \<noteq> []" "strtoul t 0 = (v, [])" "v \<le> 255"
  shows "(\<exists>s1 s2. rtnl_rtprot_a2n c nm st = Some (Some (word_of_nat k), s1) \<and> rtnl_rtprot_a2n c t s1 = Some (Some (ucast v), s2)
      \<and> rtnl_rtprot_a2n c nm s2 = Some (Some (ucast v), s2))
    \<and> (\<exists>s1 s2. rtnl_rtscope_a2n c nm st = Some (Some (word_of_nat k), s1) \<and> rtnl_rtscope_a2n c t s1 = Some (Some (ucast v), s2)
      \<and> rtnl_rtscope_a2n c nm s2 = Some (Some (ucast v), s2))
    \<and> (\<exists>s1 s2. rtnl_rtrealm_a2n c nm st = Some (Some (word_of_nat k), s1) \<and> rtnl_rtrealm_a2n c t s1 = Some (Some (ucast v), s2)
      \<and> rtnl_rtrealm_a2n c nm s2 = Some (Some (ucast v), s2))"
proof -
  have k: "nm_tab st ! k = Some nm" using assms(3) by (auto simp: find_Some_iff)
  have "t \<noteq> nm" using assms(3,4) by auto
  then have "\<exists>s1 s2. tab_a2n init 0 nm st = Some (Some (word_of_nat k), s1) \<and> tab_a2n init 0 t s1 = Some (Some (ucast v), s2)
      \<and> tab_a2n init 0 nm s2 = Some (Some (ucast v), s2)" for init
    using assms k by (simp add: tab_a2n_def not_less)
  then show ?thesis by (simp add: rtnl_rtprot_a2n_def rtnl_rtscope_a2n_def rtnl_rtrealm_a2n_def)
qed

theorem name_cache_spoiled_witness:
  "\<exists>s1 s2. rtnl_rtprot_a2n None ''static'' \<lparr>nm_tab = rtnl_rtprot_tab, nm_init = True, nm_cache = None, nm_res = 0, nm_err = []\<rparr> = Some (Some 4, s1)
     \<and> rtnl_rtprot_a2n None ''77'' s1 = Some (Some 77, s2) \<and> rtnl_rtprot_a2n None ''static'' s2 = Some (Some 77, s2)"
proof -
  let ?st = "\<lparr>nm_tab = rtnl_rtprot_tab, nm_init = True, nm_cache = None, nm_res = 0, nm_err = []\<rparr>"
  have u: "[0..<256] = 0 # 1 # 2 # 3 # 4 # [5..<256]" by (simp add: upt_conv_Cons)
  have f: "find (\<lambda>j. nm_tab ?st ! j = Some ''static'') [0..<256] = Some 4"
    unfolding u by (simp add: rtnl_rtprot_tab_def)
  have "Some ''77'' \<notin> set rtnl_rtprot_tab" by (simp add: rtnl_rtprot_tab_def)
  then have g: "find (\<lambda>j. nm_tab ?st ! j = Some ''77'') [0..<256] = None" by (auto simp: find_None_iff in_set_conv_nth)
  have "strtoul ''77'' 0 = (77, [])"
    by (simp add: strtoul_def strto_mag_def take_sign_def num_prefix_def c_isspace_def is_digit_def digit_val_def digits_val_def)
  from name_cache_spoiled [OF _ _ f g _ this, of None] show ?thesis by simp
qed

end
