(* ===== verification/Ll_Names.thy ===== *)
theory Ll_Names
  imports Rt_Names Utils_Addr
begin

text \<open>
  Names and addresses of link layers: \<open>lib/ll_addr.c\<close>, \<open>lib/ll_proto.c\<close>, \<open>lib/ll_types.c\<close>, and
  the names of internet protocols with their caches, \<open>lib/inet_proto.c\<close>. The databases of the
  C library, \<open>inet_ntop\<close> and \<open>inet_pton\<close> are parameters.
\<close>

section \<open>Hardware addresses\<close>

definition ARPHRD_TUNNEL :: s32 where "ARPHRD_TUNNEL = 768"
definition ARPHRD_TUNNEL6 :: s32 where "ARPHRD_TUNNEL6 = 769"
definition ARPHRD_SIT :: s32 where "ARPHRD_SIT = 776"
definition ARPHRD_IPGRE :: s32 where "ARPHRD_IPGRE = 778"

text \<open>
  The loop that prints the bytes; \<open>blen\<close> is the room left. When it is negative, \<open>snprintf\<close> takes it for a
  huge size and writes behind the buffer, which has no value.
\<close>

fun lladdr_text :: "bool \<Rightarrow> u8 list \<Rightarrow> int \<Rightarrow> string \<Rightarrow> string option" where
  "lladdr_text first [] blen out = Some out"
| "lladdr_text first (b # bs) blen out =
     (let t = (if first then [] else '':'') @ show_byte b
      in if blen < 0 then None
         else lladdr_text False bs (blen - int (length t)) (if blen = 0 then out else out @ snprintf (nat blen) t))"

text \<open>Without an address the buffer is returned as it was.\<close>

definition ll_addr_n2a :: "(s32 \<Rightarrow> u8 list \<Rightarrow> string) \<Rightarrow> u8 list \<Rightarrow> s32 \<Rightarrow> string \<Rightarrow> int \<Rightarrow> string option" where
  "ll_addr_n2a inet_ntop addr type buf blen =
     (if length addr = 4 \<and> (type = ARPHRD_TUNNEL \<or> type = ARPHRD_SIT \<or> type = ARPHRD_IPGRE) then Some (inet_ntop AF_INET addr)
      else if length addr = 16 \<and> type = ARPHRD_TUNNEL6 then Some (inet_ntop AF_INET6 addr)
      else if addr = [] then Some buf
      else lladdr_text True addr blen [])"

definition invalid_lladdr :: "string \<Rightarrow> string" where
  "invalid_lladdr arg = ''\"'' @ arg @ ''\" is invalid lladdr.'' @ [CHR 0x0A]"

text \<open>The bytes stored so far, \<open>n\<close> more to come, and the text of an error.\<close>

fun lladdr_fields :: "nat \<Rightarrow> string \<Rightarrow> u8 list \<Rightarrow> int \<times> u8 list \<times> string" where
  "lladdr_fields 0 arg bs = (int (length bs) + 1, bs, [])"
| "lladdr_fields (Suc n) arg bs =
     (let cp = strchr arg (CHR '':''); arg = takeWhile (\<lambda>c. c \<noteq> CHR '':'') arg
      in case scan_hex arg of
           None \<Rightarrow> (- 1, bs, invalid_lladdr arg)
         | Some (temp, _) \<Rightarrow>
             if sint temp < 0 \<or> 255 < sint temp then (- 1, bs, invalid_lladdr arg)
             else let bs = bs @ [ucast temp]
                  in case cp of None \<Rightarrow> (int (length bs), bs, []) | Some r \<Rightarrow> lladdr_fields n (tl r) bs)"

definition ll_addr_a2n :: "(string \<Rightarrow> u8 list option) \<Rightarrow> nat \<Rightarrow> string \<Rightarrow> int \<times> u8 list \<times> string" where
  "ll_addr_a2n inet_pton len arg =
     (if CHR ''.'' \<in> set arg then
        (let (err, pfx) = get_addr_1 inet_pton arg AF_INET
         in if err \<noteq> 0 then (- 1, [], invalid_lladdr arg)
            else if len < 4 then (- 1, [], [])
            else (4, take 4 (ip_data pfx), []))
      else lladdr_fields len arg [])"

section \<open>Protocols and types\<close>

definition llproto_names :: "(u16 \<times> string) list" where
  "llproto_names =
    [(0x60, ''loop''), (0x200, ''pup''), (0x201, ''pupat''), (0x800, ''ip''), (0x805, ''x25''),
     (0x806, ''arp''), (0x8FF, ''bpq''), (0xA00, ''ieeepup''), (0xA01, ''ieeepupat''), (0x6000, ''dec''),
     (0x6001, ''dna_dl''), (0x6002, ''dna_rc''), (0x6003, ''dna_rt''), (0x6004, ''lat''),
     (0x6005, ''diag''), (0x6006, ''cust''), (0x6007, ''sca''), (0x8035, ''rarp''), (0x809B, ''atalk''),
     (0x80F3, ''aarp''), (0x8137, ''ipx''), (0x86DD, ''ipv6''), (0x8863, ''ppp_disc''),
     (0x8864, ''ppp_ses''), (0x884C, ''atmmpoa''), (0x8884, ''atmfate''), (0x1, ''802_3''),
     (0x2, ''ax25''), (0x3, ''all''), (0x4, ''802_2''), (0x5, ''snap''), (0x6, ''ddcmp''),
     (0x7, ''wan_ppp''), (0x8, ''ppp_mp''), (0x9, ''localtalk''), (0xC, ''can''), (0x10, ''ppptalk''),
     (0x11, ''tr_802_2''), (0x15, ''mobitex''), (0x16, ''control''), (0x17, ''irda''), (0x18, ''econet''),
     (0x88CA, ''tipc''), (0x88A2, ''aoe''), (0x8100, ''802.1Q''), (0x88CC, ''LLDP''), (0x800, ''ipv4'')]"

definition ll_proto_n2a :: "u16 \<Rightarrow> nat \<Rightarrow> string" where
  "ll_proto_n2a i len =
     (let i = ntohs i
      in case find (\<lambda>(j, n). j = i) llproto_names of Some (j, n) \<Rightarrow> n | None \<Rightarrow> snprintf len (''['' @ show_dec (unat i) @ '']''))"

definition ll_proto_a2n :: "string \<Rightarrow> u16 option" where
  "ll_proto_a2n buf =
     (case find (\<lambda>(j, n). strcaseeq n buf) llproto_names of
        Some (j, n) \<Rightarrow> Some (htons j)
      | None \<Rightarrow> map_option htons (get_u16 buf 0))"

definition arphrd_names :: "(s32 \<times> string) list" where
  "arphrd_names =
    [(0, ''generic''), (1, ''ether''), (2, ''eether''), (3, ''ax25''), (4, ''pronet''), (5, ''chaos''),
     (6, ''ieee802''), (7, ''arcnet''), (8, ''atalk''), (15, ''dlci''), (19, ''atm''), (23, ''metricom''),
     (24, ''ieee1394''), (32, ''infiniband''), (256, ''slip''), (257, ''cslip''), (258, ''slip6''),
     (259, ''cslip6''), (260, ''rsrvd''), (264, ''adapt''), (270, ''rose''), (271, ''x25''),
     (272, ''hwx25''), (280, ''can''), (512, ''ppp''), (513, ''hdlc''), (516, ''lapb''), (517, ''ddcmp''),
     (518, ''rawhdlc''), (768, ''ipip''), (769, ''tunnel6''), (770, ''frad''), (771, ''skip''),
     (772, ''loopback''), (773, ''ltalk''), (774, ''fddi''), (775, ''bif''), (776, ''sit''),
     (777, ''ip/ddp''), (778, ''gre''), (779, ''pimreg''), (780, ''hippi''), (781, ''ash''),
     (782, ''econet''), (783, ''irda''), (784, ''fcpp''), (785, ''fcal''), (786, ''fcpl''),
     (787, ''fcfb0''), (788, ''fcfb1''), (789, ''fcfb2''), (790, ''fcfb3''), (791, ''fcfb4''),
     (792, ''fcfb5''), (793, ''fcfb6''), (794, ''fcfb7''), (795, ''fcfb8''), (796, ''fcfb9''),
     (797, ''fcfb10''), (798, ''fcfb11''), (799, ''fcfb12''), (800, ''tr''), (801, ''ieee802.11''),
     (802, ''ieee802.11/prism''), (803, ''ieee802.11/radiotap''), (804, ''ieee802.15.4''),
     (820, ''phonet''), (821, ''phonet_pipe''), (822, ''caif''), (65534, ''none''), (65535, ''void'')]"

definition ll_type_n2a :: "s32 \<Rightarrow> nat \<Rightarrow> string" where
  "ll_type_n2a type len =
     (case find (\<lambda>(j, n). j = type) arphrd_names of Some (j, n) \<Rightarrow> n | None \<Rightarrow> snprintf len (''['' @ show_int (sint type) @ '']''))"

section \<open>Internet protocols\<close>

text \<open>\<open>strncpy\<close> into an array: the string in it, none when the terminating NUL found no room.\<close>

definition strncpy :: "nat \<Rightarrow> string \<Rightarrow> string option" where
  "strncpy n s = (if length s < n then Some s else None)"

record proto_cache =
  pc_name :: "string option"
  pc_id :: s32

definition no_proto :: proto_cache where
  "no_proto = \<lparr>pc_name = Some [], pc_id = - 1\<rparr>"

definition inet_proto_n2a :: "(s32 \<Rightarrow> string option) \<Rightarrow> nat \<Rightarrow> s32 \<Rightarrow> proto_cache \<Rightarrow> string option \<times> proto_cache" where
  "inet_proto_n2a getprotobynumber len proto c =
     (if proto = pc_id c then (pc_name c, c)
      else case getprotobynumber proto of
             Some nm \<Rightarrow> (strncpy len nm, \<lparr>pc_name = strncpy 16 nm, pc_id = proto\<rparr>)
           | None \<Rightarrow> (Some (snprintf len (''ipproto-'' @ show_int (sint proto))), c))"

text \<open>The result has no value when the name in the cache is not terminated.\<close>

definition inet_proto_a2n :: "(string \<Rightarrow> (string \<times> s32) option) \<Rightarrow> string \<Rightarrow> proto_cache \<Rightarrow> int option \<times> proto_cache" where
  "inet_proto_a2n getprotobyname buf c =
     (if 0 \<le> sint (pc_id c) \<and> pc_name c = None then (None, c)
      else if 0 \<le> sint (pc_id c) \<and> pc_name c = Some buf then (Some (sint (pc_id c)), c)
      else if buf \<noteq> [] \<and> is_digit 10 (hd buf) then
        (Some (case get_u8 buf 10 of None \<Rightarrow> - 1 | Some r \<Rightarrow> uint r), c)
      else case getprotobyname buf of
             Some (nm, p) \<Rightarrow> (Some (sint p), \<lparr>pc_name = strncpy 16 nm, pc_id = p\<rparr>)
           | None \<Rightarrow> (Some (- 1), c))"

section \<open>Round trips\<close>

lemma lower_letters: "char_of (108 :: nat) = CHR ''l''" "char_of (100 :: nat) = CHR ''d''" "char_of (112 :: nat) = CHR ''p''" "char_of (113 :: nat) = CHR ''q''"
  by code_simp+

lemma llproto_first:
  "list_all (\<lambda>(i, n). map_option fst (find (\<lambda>(j, m). strcaseeq m n) llproto_names) = Some i) llproto_names"
  by (simp add: llproto_names_def strcaseeq_def c_tolower_def lower_letters)

lemma llproto_plain: "list_all (\<lambda>(i, n). \<not> strcaseeq n (CHR ''['' # t)) llproto_names"
proof -
  have "list_all (\<lambda>(i, n). n \<noteq> [] \<and> c_tolower (hd n) \<noteq> CHR ''['') llproto_names" by code_simp
  moreover have "c_tolower (CHR ''['') = CHR ''[''" by (simp add: c_tolower_def)
  ultimately show ?thesis by (auto simp: list_all_iff strcaseeq_def map_eq_Cons_conv)
qed

lemma no_hex: "c \<noteq> CHR ''0'' \<Longrightarrow> \<not> has_hex (c # t)"
  by (cases "c # t" rule: has_hex.cases) auto

text \<open>
  The text printed for a protocol is read back as the same protocol exactly when the
  protocol has a name; the number in brackets that is printed otherwise is refused.
\<close>
lemma ll_proto_roundtrip:
  assumes "8 \<le> len"
  shows "ll_proto_a2n (ll_proto_n2a i len) = (if ntohs i \<in> fst ` set llproto_names then Some i else None)"
proof (cases "find (\<lambda>(j, n). j = ntohs i) llproto_names")
  case None
  let ?t = "show_dec (unat (ntohs i)) @ '']''"
  have "unat (ntohs i) < 2 ^ LENGTH(16)" by (rule unsigned_less)
  then have "length (show_dec (unat (ntohs i))) \<le> 5" using length_show_base [of 10 "unat (ntohs i)" 4] by simp
  then have n: "ll_proto_n2a i len = CHR ''['' # ?t" using None assms by (auto simp: ll_proto_n2a_def snprintf_def)
  have f: "find (\<lambda>(j, n). strcaseeq n (CHR ''['' # ?t)) llproto_names = None"
    using llproto_plain [of ?t] by (auto simp: find_None_iff list_all_iff)
  have "get_u16 (CHR ''['' # ?t) 0 = None"
    by (simp add: get_u16_def strtoul_def strto_mag_def take_sign_def num_prefix_def c_isspace_def is_digit_def digit_val_def no_hex)
  moreover have "ntohs i \<notin> fst ` set llproto_names" using None by (auto simp: find_None_iff)
  ultimately show ?thesis unfolding n using f by (simp add: ll_proto_a2n_def)
next
  case (Some x)
  then have x: "x \<in> set llproto_names" "fst x = ntohs i" by (auto simp: find_Some_iff) (metis nth_mem)
  then have "map_option fst (find (\<lambda>(j, m). strcaseeq m (snd x)) llproto_names) = Some (ntohs i)"
    using llproto_first by (auto simp: list_all_iff)
  moreover have "ll_proto_n2a i len = snd x" using Some by (simp add: ll_proto_n2a_def case_prod_beta)
  ultimately obtain n where "find (\<lambda>(j, m). strcaseeq m (ll_proto_n2a i len)) llproto_names = Some (ntohs i, n)" by auto
  moreover have "ntohs i \<in> fst ` set llproto_names" using x by (metis imageI)
  ultimately show ?thesis by (simp add: ll_proto_a2n_def)
qed

lemma digit_char_lower:
  assumes "d < 16"
  shows "c_tolower (digit_char d) \<noteq> CHR ''x''"
proof -
  have "(of_char (digit_char d) :: nat) = (if d < 10 then 48 + d else 87 + d)" using assms by (simp add: digit_char_def)
  then have l: "c_tolower (digit_char d) = digit_char d" using assms by (simp add: c_tolower_def Let_def)
  have d: "digit_val (digit_char d) = Some d" using assms by simp
  have x: "digit_val (CHR ''x'') = Some 33" by (simp add: digit_val_def)
  show ?thesis
  proof
    assume "c_tolower (digit_char d) = CHR ''x''"
    then have "digit_val (digit_char d) = digit_val (CHR ''x'')" using l by (intro arg_cong [of _ _ digit_val]) simp
    then have "d = 33" unfolding d x by simp
    then show False using assms by simp
  qed
qed

lemma scan_byte: "scan_hex (show_byte b) = Some (ucast b, [])"
proof -
  have b: "unat b < 256" using unsigned_less [of b] by simp
  let ?h = "digit_char (unat b div 16)" and ?l = "digit_char (unat b mod 16)"
  have "unat b div 16 < 16" using b by simp
  then have "strto_mag 16 [?h, ?l] = Some (False, unat b, [])"
    by (simp add: strto_mag_def digit_char_not take_sign_def num_prefix_def digits_val_def)
  moreover have "map c_tolower (take 2 [?h, ?l]) \<noteq> ''0x''" using digit_char_lower [of "unat b mod 16"] by simp
  moreover have "ucast (ucast b :: u64) = (ucast b :: s32)" by (rule bit_word_eqI) (auto simp: bit_simps)
  ultimately show ?thesis using \<open>unat b div 16 < 16\<close> b
    by (simp add: scan_hex_def show_byte_def strtoul_def digit_char_not take_sign_def)
qed

lemma byte_text:
  "length (show_byte b) = 2" "CHR '':'' \<notin> set (show_byte b)" "CHR ''.'' \<notin> set (show_byte b)"
proof -
  have "unat b < 2 ^ LENGTH(8)" by (rule unsigned_less)
  then have "unat b div 16 < 16" by simp
  moreover have "unat b mod 16 < 36" by (rule less_trans [of _ 16]) simp_all
  ultimately show "length (show_byte b) = 2" "CHR '':'' \<notin> set (show_byte b)" "CHR ''.'' \<notin> set (show_byte b)"
    using digit_char_not(4,5) [of "unat b div 16"] digit_char_not(4,5) [of "unat b mod 16"] by (auto simp: show_byte_def)
qed

text \<open>The bytes of an address with colons between them.\<close>

fun colon_text :: "u8 list \<Rightarrow> string" where
  "colon_text [] = []"
| "colon_text [b] = show_byte b"
| "colon_text (b # bs) = show_byte b @ '':'' @ colon_text bs"

lemma lladdr_text_rest:
  "3 * int (length bs) < blen \<Longrightarrow> lladdr_text False bs blen out = Some (out @ concat (map (\<lambda>b. '':'' @ show_byte b) bs))"
  by (induction bs arbitrary: blen out) (auto simp: byte_text snprintf_def)

lemma colon_text_concat: "colon_text (b # bs) = show_byte b @ concat (map (\<lambda>b. '':'' @ show_byte b) bs)"
  by (induction bs arbitrary: b) auto

lemma lladdr_text_room:
  assumes "addr \<noteq> []" "3 * int (length addr) \<le> blen"
  shows "lladdr_text True addr blen [] = Some (colon_text addr)"
proof -
  obtain b bs where a: "addr = b # bs" using assms(1) by (cases addr) auto
  then show ?thesis using assms(2) lladdr_text_rest [of bs "blen - 2" "show_byte b"]
    by (simp add: colon_text_concat byte_text snprintf_def)
qed

lemma byte_sint: "sint (ucast (b :: u8) :: s32) = uint b" "ucast (ucast b :: s32) = b" "uint b \<le> 255"
proof -
  show l: "uint b \<le> 255" using uint_bounded [of b] by simp
  show "ucast (ucast b :: s32) = b" by (rule bit_word_eqI) (auto simp: bit_simps)
  have "unat b < 256" using unsigned_less [of b] by simp
  then show "sint (ucast b :: s32) = uint b"
    using small_id(1) [of "unat b"] by simp
qed

lemma lladdr_fields_step:
  "lladdr_fields (Suc m) (show_byte b) bs = (int (length bs) + 1, bs @ [b], [])"
  "lladdr_fields (Suc m) (show_byte b @ '':'' @ r) bs = lladdr_fields m r (bs @ [b])"
proof -
  have c: "\<forall>x \<in> set (show_byte b). x \<noteq> CHR '':''" using byte_text(2) by auto
  have t: "takeWhile (\<lambda>c. c \<noteq> CHR '':'') (show_byte b @ s) = show_byte b" "dropWhile (\<lambda>c. c \<noteq> CHR '':'') (show_byte b @ s) = s"
    if "s = [] \<or> hd s = CHR '':''" for s
    using takeWhile_prefix [OF c, of s] that by auto
  note b = byte_sint [of b]
  show "lladdr_fields (Suc m) (show_byte b) bs = (int (length bs) + 1, bs @ [b], [])"
    using t(1) [of "[]"] byte_text(2) b by (simp add: strchr_def scan_byte Let_def del: takeWhile_eq_all_conv)
  show "lladdr_fields (Suc m) (show_byte b @ '':'' @ r) bs = lladdr_fields m r (bs @ [b])"
    using t [of "'':'' @ r"] b by (simp add: strchr_def scan_byte Let_def)
qed

lemma lladdr_fields_text:
  assumes "addr \<noteq> []" "length addr \<le> n"
  shows "lladdr_fields n (colon_text addr) bs = (int (length bs + length addr), bs @ addr, [])"
  using assms
proof (induction addr arbitrary: n bs rule: colon_text.induct)
  case (2 b)
  then obtain m where "n = Suc m" by (cases n) auto
  then show ?case using lladdr_fields_step(1) by simp
next
  case (3 b c cs)
  then obtain m where m: "n = Suc m" by (cases n) auto
  have "lladdr_fields m (colon_text (c # cs)) (bs @ [b]) = (int (length (bs @ [b]) + length (c # cs)), (bs @ [b]) @ c # cs, [])"
    using 3 m by (intro "3.IH") auto
  then show ?case unfolding m colon_text.simps lladdr_fields_step(2) by simp
qed simp

text \<open>
  C40: the text of a hardware address of at least one byte is read back as its bytes, when the
  buffer has three characters for each byte and the reader takes as many bytes. Addresses of
  tunnels, which are printed as internet addresses, are left out.
\<close>
theorem lladdr_roundtrip:
  assumes "addr \<noteq> []" "3 * int (length addr) \<le> blen" "length addr \<le> len"
    and "type \<notin> {ARPHRD_TUNNEL, ARPHRD_SIT, ARPHRD_IPGRE, ARPHRD_TUNNEL6}"
  shows "\<exists>s. ll_addr_n2a inet_ntop addr type buf blen = Some s \<and> ll_addr_a2n inet_pton len s = (int (length addr), addr, [])"
proof -
  have "CHR ''.'' \<notin> set (colon_text addr)"
    using byte_text(3) by (induction addr rule: colon_text.induct) auto
  then show ?thesis
    using assms lladdr_text_room [OF assms(1,2)] lladdr_fields_text [OF assms(1,3), of "[]"]
    by (auto simp: ll_addr_n2a_def ll_addr_a2n_def)
qed

theorem lladdr_roundtrip_witness:
  "\<exists>s. ll_addr_n2a (\<lambda>_ _. []) [0, 0x1B, 0x21, 0x0A, 0xFF, 0x7C] 1 [] 18 = Some s
    \<and> ll_addr_a2n (\<lambda>_. None) 6 s = (6, [0, 0x1B, 0x21, 0x0A, 0xFF, 0x7C], [])"
  using lladdr_roundtrip [of "[0, 0x1B, 0x21, 0x0A, 0xFF, 0x7C]" 18 6 1 "\<lambda>_ _. []" "[]" "\<lambda>_. None"]
  by (simp add: ARPHRD_TUNNEL_def ARPHRD_SIT_def ARPHRD_IPGRE_def ARPHRD_TUNNEL6_def)

text \<open>A text with more fields than bytes is accepted, and counted as one byte more than were stored.\<close>

lemma lladdr_too_long:
  assumes "addr \<noteq> []" "CHR ''.'' \<notin> set r"
  shows "ll_addr_a2n inet_pton (length addr) (colon_text addr @ '':'' @ r) = (int (length addr) + 1, addr, [])"
proof -
  have "lladdr_fields (length addr) (colon_text addr @ '':'' @ r) bs = (int (length (bs @ addr)) + 1, bs @ addr, [])" for bs
    using assms(1)
  proof (induction addr arbitrary: bs rule: colon_text.induct)
    case (2 b)
    then show ?case using lladdr_fields_step(2) [of 0 b r bs] by simp
  next
    case (3 b c cs)
    then show ?case using lladdr_fields_step(2) [of "Suc (length cs)" b "colon_text (c # cs) @ '':'' @ r" bs] by simp
  qed simp
  moreover have "CHR ''.'' \<notin> set (colon_text addr)"
    using byte_text(3) by (induction addr rule: colon_text.induct) auto
  ultimately show ?thesis using assms(2) by (simp add: ll_addr_a2n_def)
qed

text \<open>A buffer too short for the bytes is written behind its end.\<close>

lemma lladdr_overrun: "ll_addr_n2a inet_ntop [a, b, c] 1 buf 4 = None"
  by (simp add: ll_addr_n2a_def byte_text snprintf_def)

section \<open>The caches of protocol names\<close>

definition proto_name :: "(s32 \<Rightarrow> string option) \<Rightarrow> nat \<Rightarrow> s32 \<Rightarrow> string option" where
  "proto_name getprotobynumber len p =
     (case getprotobynumber p of Some nm \<Rightarrow> Some nm | None \<Rightarrow> Some (snprintf len (''ipproto-'' @ show_int (sint p))))"

definition proto_number :: "(string \<Rightarrow> (string \<times> s32) option) \<Rightarrow> string \<Rightarrow> int option" where
  "proto_number getprotobyname buf =
     Some (if buf \<noteq> [] \<and> is_digit 10 (hd buf) then (case get_u8 buf 10 of None \<Rightarrow> - 1 | Some r \<Rightarrow> uint r)
       else case getprotobyname buf of Some (nm, p) \<Rightarrow> sint p | None \<Rightarrow> - 1)"

text \<open>The database: short names, and the name it gives leads to the same number.\<close>

definition proto_db :: "(s32 \<Rightarrow> string option) \<Rightarrow> (string \<Rightarrow> (string \<times> s32) option) \<Rightarrow> bool" where
  "proto_db bynumber byname \<longleftrightarrow>
     (\<forall>p nm. bynumber p = Some nm \<longrightarrow> length nm < 16)
     \<and> (\<forall>s nm p. byname s = Some (nm, p) \<longrightarrow> length nm < 16 \<and> (nm \<noteq> [] \<longrightarrow> \<not> is_digit 10 (hd nm)) \<and> 0 \<le> sint p \<and> (\<exists>m. byname nm = Some (m, p)))"

lemma ask_all_invariant:
  assumes "ok s" "\<And>k s. k \<in> set ks \<Longrightarrow> ok s \<Longrightarrow> fst (query k s) = answer k \<and> ok (snd (query k s))"
  shows "fst (ask_all query ks s) = map answer ks"
  using assms
proof (induction ks arbitrary: s)
  case (Cons k ks)
  obtain v s' where q: "query k s = (v, s')" by fastforce
  with Cons.prems have "v = answer k" "ok s'" by (metis fst_conv snd_conv list.set_intros(1))+
  then show ?case using Cons.IH [of s'] Cons.prems(2) q by (simp add: case_prod_beta Let_def)
qed simp

text \<open>
  The caches of protocol names never change an answer, if the names of the database are
  short, lead to their numbers and do not start with a digit, the buffer holds sixteen
  characters, and nobody asks for the number -1, which stands for the empty cache.
\<close>
lemma inet_proto_transparent:
  assumes "proto_db bynumber byname" "16 \<le> len" "- 1 \<notin> set ps"
  shows "fst (ask_all (inet_proto_n2a bynumber len) ps no_proto) = map (proto_name bynumber len) ps
    \<and> fst (ask_all (inet_proto_a2n byname) bufs no_proto) = map (proto_number byname) bufs"
proof
  show "fst (ask_all (inet_proto_n2a bynumber len) ps no_proto) = map (proto_name bynumber len) ps"
  proof (rule ask_all_invariant [where ok = "\<lambda>c :: proto_cache. pc_id c = - 1 \<or> bynumber (pc_id c) = pc_name c \<and> pc_name c \<noteq> None"])
    fix p and c :: proto_cache
    assume "p \<in> set ps" "pc_id c = - 1 \<or> bynumber (pc_id c) = pc_name c \<and> pc_name c \<noteq> None"
    moreover have "p \<noteq> - 1" using \<open>p \<in> set ps\<close> assms(3) by auto
    moreover have "length nm < 16" if "bynumber p = Some nm" for nm using that assms(1) by (simp add: proto_db_def)
    ultimately show "fst (inet_proto_n2a bynumber len p c) = proto_name bynumber len p
      \<and> (pc_id (snd (inet_proto_n2a bynumber len p c)) = - 1 \<or> bynumber (pc_id (snd (inet_proto_n2a bynumber len p c))) = pc_name (snd (inet_proto_n2a bynumber len p c))
          \<and> pc_name (snd (inet_proto_n2a bynumber len p c)) \<noteq> None)"
      using assms(2) by (cases "bynumber p"; cases "p = pc_id c") (auto simp: inet_proto_n2a_def proto_name_def strncpy_def)
  qed (simp add: no_proto_def)
  show "fst (ask_all (inet_proto_a2n byname) bufs no_proto) = map (proto_number byname) bufs"
  proof (rule ask_all_invariant [where ok = "\<lambda>c :: proto_cache. sint (pc_id c) < 0 \<or> (\<exists>nm m. pc_name c = Some nm \<and> byname nm = Some (m, pc_id c) \<and> (nm \<noteq> [] \<longrightarrow> \<not> is_digit 10 (hd nm)))"])
    fix buf and c :: proto_cache
    assume c: "sint (pc_id c) < 0 \<or> (\<exists>nm m. pc_name c = Some nm \<and> byname nm = Some (m, pc_id c) \<and> (nm \<noteq> [] \<longrightarrow> \<not> is_digit 10 (hd nm)))"
    have db: "length nm < 16 \<and> (nm \<noteq> [] \<longrightarrow> \<not> is_digit 10 (hd nm)) \<and> 0 \<le> sint p \<and> (\<exists>m. byname nm = Some (m, p))" if "byname buf = Some (nm, p)" for nm p
      using that assms(1) by (simp add: proto_db_def)
    show "fst (inet_proto_a2n byname buf c) = proto_number byname buf
      \<and> (sint (pc_id (snd (inet_proto_a2n byname buf c))) < 0 \<or> (\<exists>nm m. pc_name (snd (inet_proto_a2n byname buf c)) = Some nm
          \<and> byname nm = Some (m, pc_id (snd (inet_proto_a2n byname buf c))) \<and> (nm \<noteq> [] \<longrightarrow> \<not> is_digit 10 (hd nm))))"
      using c db by (auto simp: inet_proto_a2n_def proto_number_def strncpy_def split: option.splits)
  qed (simp add: no_proto_def)
qed

end
