(* ===== verification/Tc_Core.thy ===== *)
theory Tc_Core
  imports Utils_Num "HOL-Library.Monad_Syntax"
begin

text \<open>
  The numerical core of \<open>tc\<close>: conversion between times and scheduler ticks and the rate and
  size tables (\<open>tc/tc_core.c\<close>), the parameters of the random early detection and class based
  queueing disciplines (\<open>tc/tc_red.c\<close>, \<open>tc/tc_cbq.c\<close>) and the rate estimator
  (\<open>tc/tc_estimator.c\<close>). The two static variables of \<open>tc_core.c\<close> are a record that the
  functions take as an argument; \<open>pow\<close> and \<open>log\<close> are the parameters
  \<open>pow_d\<close> and \<open>log_d\<close>.
\<close>

section \<open>Clock\<close>

record tc_core =
  tick_in_usec :: double
  clock_factor :: double

definition tc_core_static :: tc_core where
  "tc_core_static = \<lparr>tick_in_usec = 1, clock_factor = 1\<rparr>"

definition TIME_UNITS_PER_SEC :: int where
  "TIME_UNITS_PER_SEC = 1000000"

definition d_of_u32 :: "u32 \<Rightarrow> double" where
  "d_of_u32 w = d_of_int (uint w)"

definition d_of_s32 :: "s32 \<Rightarrow> double" where
  "d_of_s32 w = d_of_int (sint w)"

text \<open>
  \<open>(__u64) x\<close>: truncation where the value fits; outside, what the conversion instructions
  give (the language leaves it open).
\<close>

definition d_to_u64 :: "double \<Rightarrow> u64" where
  "d_to_u64 x =
     (if is_finite x \<and> - (2 ^ 63) \<le> dtrunc x \<and> dtrunc x < 2 ^ 64 then word_of_int (dtrunc x)
      else if \<not> is_nan x \<and> \<not> dneg x then 0 else 2 ^ 63)"

definition tc_core_time2big :: "tc_core \<Rightarrow> u32 \<Rightarrow> bool" where
  "tc_core_time2big st time = (let t = d_to_u64 (d_of_u32 time * tick_in_usec st) in drop_bit 32 t \<noteq> 0)"

definition tc_core_time2tick :: "tc_core \<Rightarrow> u32 \<Rightarrow> u32" where
  "tc_core_time2tick st time = d_to_u32 (d_of_u32 time * tick_in_usec st)"

definition tc_core_tick2time :: "tc_core \<Rightarrow> u32 \<Rightarrow> u32" where
  "tc_core_tick2time st tick = d_to_u32 (d_of_u32 tick div tick_in_usec st)"

definition tc_core_time2ktime :: "tc_core \<Rightarrow> u32 \<Rightarrow> u32" where
  "tc_core_time2ktime st time = d_to_u32 (d_of_u32 time * clock_factor st)"

definition tc_core_ktime2time :: "tc_core \<Rightarrow> u32 \<Rightarrow> u32" where
  "tc_core_ktime2time st ktime = d_to_u32 (d_of_u32 ktime div clock_factor st)"

definition tc_calc_xmittime :: "tc_core \<Rightarrow> u32 \<Rightarrow> u32 \<Rightarrow> u32" where
  "tc_calc_xmittime st rate sz =
     tc_core_time2tick st (d_to_u32 (d_of_int TIME_UNITS_PER_SEC * (d_of_u32 sz div d_of_u32 rate)))"

definition tc_calc_xmitsize :: "tc_core \<Rightarrow> u32 \<Rightarrow> u32 \<Rightarrow> u32" where
  "tc_calc_xmitsize st rate ticks =
     d_to_u32 ((d_of_u32 rate * d_of_u32 (tc_core_tick2time st ticks)) div d_of_int TIME_UNITS_PER_SEC)"

text \<open>
  \<open>%08x\<close> of \<open>fscanf\<close>: blanks are skipped, then at most eight characters are read as a
  hexadecimal number.
\<close>

definition scan_x8 :: "string \<Rightarrow> (u32 \<times> string) option" where
  "scan_x8 s =
     (let s = dropWhile c_isspace s
      in case strto_mag 16 (take 8 s) of
           None \<Rightarrow> None
         | Some (neg, m, rest) \<Rightarrow> Some (if neg then - word_of_nat m else word_of_nat m, rest @ drop 8 s))"

text \<open>\<open>psched\<close> is the content of \<open>/proc/net/psched\<close>, \<open>None\<close> when it cannot be opened.\<close>

definition tc_core_init :: "string option \<Rightarrow> tc_core \<Rightarrow> int \<times> tc_core" where
  "tc_core_init psched st =
     (case psched of
        None \<Rightarrow> (- 1, st)
      | Some fp \<Rightarrow>
          (case do { (t2us, fp) \<leftarrow> scan_x8 fp; (us2t, fp) \<leftarrow> scan_x8 fp; (clock_res, fp) \<leftarrow> scan_x8 fp;
                     Some (t2us, us2t, clock_res) } of
             None \<Rightarrow> (- 1, st)
           | Some (t2us, us2t, clock_res) \<Rightarrow>
               let t2us = (if clock_res = 1000000000 then us2t else t2us);
                   st = st\<lparr>clock_factor := d_of_u32 clock_res div d_of_int TIME_UNITS_PER_SEC\<rparr>
               in (0, st\<lparr>tick_in_usec := d_of_u32 t2us div d_of_u32 us2t * clock_factor st\<rparr>)))"

section \<open>Packet sizes\<close>

definition LINKLAYER_UNSPEC :: u32 where "LINKLAYER_UNSPEC = 0"
definition LINKLAYER_ETHERNET :: u32 where "LINKLAYER_ETHERNET = 1"
definition LINKLAYER_ATM :: u32 where "LINKLAYER_ATM = 2"
definition ATM_CELL_PAYLOAD :: u32 where "ATM_CELL_PAYLOAD = 48"
definition ATM_CELL_SIZE :: u32 where "ATM_CELL_SIZE = 53"

definition tc_align_to_atm :: "u32 \<Rightarrow> u32" where
  "tc_align_to_atm sz =
     (let cells = sz div ATM_CELL_PAYLOAD;
          cells = (if sz mod ATM_CELL_PAYLOAD > 0 then cells + 1 else cells);
          linksize = cells * ATM_CELL_SIZE
      in linksize)"

definition tc_adjust_size :: "u32 \<Rightarrow> u32 \<Rightarrow> u32 \<Rightarrow> u32" where
  "tc_adjust_size sz mpu linklayer =
     (let sz = (if sz < mpu then mpu else sz)
      in if linklayer = LINKLAYER_ATM then tc_align_to_atm sz else sz)"

text \<open>Shifts of a 32-bit value as the processor does them: the count is taken modulo 32.\<close>

definition shr32 :: "u32 \<Rightarrow> nat \<Rightarrow> u32" where
  "shr32 w k = drop_bit (k mod 32) w"

definition shl32 :: "u32 \<Rightarrow> nat \<Rightarrow> u32" where
  "shl32 w k = push_bit (k mod 32) w"

section \<open>Rate tables\<close>

record tc_ratespec =
  r_cell_log :: u8
  r_reserved :: u8
  r_overhead :: u16
  r_cell_align :: u16
  r_mpu :: u16
  r_rate :: u32

text \<open>\<open>while ((mtu >> cell_log) > bound) cell_log++\<close>, with an \<open>int\<close> or an \<open>unsigned char\<close> counter.\<close>

partial_function (option) cell_log_loop :: "u32 \<Rightarrow> u32 \<Rightarrow> ('a::len) word \<Rightarrow> 'a word option" where
  "cell_log_loop mtu bound cell_log =
     (if shr32 mtu (unat cell_log) > bound then cell_log_loop mtu bound (cell_log + 1) else Some cell_log)"

text \<open>The result holds the returned cell size, the specification and the table.\<close>

definition tc_calc_rtable :: "tc_core \<Rightarrow> tc_ratespec \<Rightarrow> u32 list \<Rightarrow> s32 \<Rightarrow> u32 \<Rightarrow> u32 \<Rightarrow> (s32 \<times> tc_ratespec \<times> u32 list) option" where
  "tc_calc_rtable st r rtab cell_log mtu linklayer =
     (let bps = r_rate r;
          mpu = ucast (r_mpu r);
          mtu = (if mtu = 0 then 2047 else mtu)
      in do {
        cell_log \<leftarrow> (if sint cell_log < 0 then cell_log_loop mtu 255 0 else Some cell_log);
        let rtab = for_up 0 256 (\<lambda>i rtab.
              let sz = tc_adjust_size (shl32 (word_of_nat i + 1) (unat cell_log)) mpu linklayer
              in rtab[i := tc_calc_xmittime st bps sz]) rtab;
        let r = r\<lparr>r_cell_align := - 1, r_cell_log := ucast cell_log\<rparr>;
        Some (cell_log, r, rtab)
      })"

section \<open>Size tables\<close>

record tc_sizespec =
  s_cell_log :: u8
  s_size_log :: u8
  s_cell_align :: u16
  s_overhead :: s32
  s_linklayer :: u32
  s_mpu :: u32
  s_mtu :: u32
  s_tsize :: u32

text \<open>
  The inner loop runs downwards from \<open>n - 1\<close>; it is left with the table written so far when
  an entry does not fit in sixteen bits.
\<close>

fun stab_fill :: "tc_sizespec \<Rightarrow> u32 \<Rightarrow> nat \<Rightarrow> u16 list \<Rightarrow> bool \<times> u16 list" where
  "stab_fill s linklayer 0 stab = (True, stab)"
| "stab_fill s linklayer (Suc i) stab =
     (let sz = tc_adjust_size (shl32 (word_of_nat i + 1) (unat (s_cell_log s))) (s_mpu s) linklayer
      in if shr32 sz (unat (s_size_log s)) > 0xFFFF then (False, stab)
         else stab_fill s linklayer i (stab[i := ucast (shr32 sz (unat (s_size_log s)))]))"

partial_function (option) stab_again :: "u32 \<Rightarrow> tc_sizespec \<Rightarrow> u16 list \<Rightarrow> (tc_sizespec \<times> u16 list) option" where
  "stab_again linklayer s stab =
     (let (ok, stab) = stab_fill s linklayer (nat (sint (s_tsize s - 1) + 1)) stab
      in if ok then Some (s, stab) else stab_again linklayer (s\<lparr>s_size_log := s_size_log s + 1\<rparr>) stab)"

text \<open>
  \<open>malloc\<close> gives a buffer with the given number of elements, or none. The result is the value
  returned, the specification and what \<open>*stab\<close> points at (\<open>None\<close> for a null pointer).
\<close>

definition tc_calc_size_table :: "(u32 \<Rightarrow> u16 list option) \<Rightarrow> tc_sizespec \<Rightarrow> (int \<times> tc_sizespec \<times> u16 list option) option" where
  "tc_calc_size_table malloc s =
     (let linklayer = s_linklayer s
      in if linklayer \<le> LINKLAYER_ETHERNET \<and> s_mpu s = 0
         then Some (0, s\<lparr>s_mtu := 0, s_tsize := 0, s_cell_log := 0, s_cell_align := 0\<rparr>, None)
         else do {
           let s = (if s_mtu s = 0 then s\<lparr>s_mtu := 2047\<rparr> else s);
           let s = (if s_tsize s = 0 then s\<lparr>s_tsize := 512\<rparr> else s);
           cell_log \<leftarrow> cell_log_loop (s_mtu s) (s_tsize s - 1) 0;
           let s = s\<lparr>s_cell_log := cell_log\<rparr>;
           (case malloc (s_tsize s) of
              None \<Rightarrow> Some (- 1, s, None)
            | Some stab \<Rightarrow> do {
                (s, stab) \<leftarrow> stab_again linklayer s stab;
                Some (0, s\<lparr>s_cell_align := - 1\<rparr>, Some stab)
              })
         })"

section \<open>Random early detection\<close>

definition one_shl :: "nat \<Rightarrow> double" where
  "one_shl k = d_of_s32 (shl32 1 k)"

fun red_eval_P_loop :: "nat \<Rightarrow> nat \<Rightarrow> double \<Rightarrow> int" where
  "red_eval_P_loop 0 i prob = - 1"
| "red_eval_P_loop (Suc n) i prob = (if prob > 1 then int i else red_eval_P_loop n (Suc i) (prob * d_of_int 2))"

definition tc_red_eval_P :: "u32 \<Rightarrow> u32 \<Rightarrow> double \<Rightarrow> int" where
  "tc_red_eval_P qmin qmax prob =
     (let i = qmax - qmin
      in if sint i \<le> 0 then - 1 else red_eval_P_loop 32 0 (prob div d_of_s32 i))"

fun red_eval_ewma_loop :: "(double \<Rightarrow> double \<Rightarrow> double) \<Rightarrow> double \<Rightarrow> u32 \<Rightarrow> nat \<Rightarrow> nat \<Rightarrow> double \<Rightarrow> int" where
  "red_eval_ewma_loop pow_d a burst 0 wlog W = - 1"
| "red_eval_ewma_loop pow_d a burst (Suc n) wlog W =
     (if a \<le> (1 - pow_d (1 - W) (d_of_u32 burst)) div W then int wlog
      else red_eval_ewma_loop pow_d a burst n (Suc wlog) (W div d_of_int 2))"

definition tc_red_eval_ewma :: "(double \<Rightarrow> double \<Rightarrow> double) \<Rightarrow> u32 \<Rightarrow> u32 \<Rightarrow> u32 \<Rightarrow> int" where
  "tc_red_eval_ewma pow_d qmin burst avpkt =
     (let W = dlit 1 2;
          a = d_of_u32 burst + 1 - d_of_u32 qmin div d_of_u32 avpkt
      in if a < 1 then - 1 else red_eval_ewma_loop pow_d a burst 31 1 W)"

fun red_clog_loop :: "double \<Rightarrow> nat \<Rightarrow> nat \<Rightarrow> nat option" where
  "red_clog_loop maxtime 0 clog = None"
| "red_clog_loop maxtime (Suc n) clog =
     (if maxtime div one_shl clog < d_of_int 512 then Some clog else red_clog_loop maxtime n (Suc clog))"

text \<open>The result is the value returned and the table; \<open>wlog\<close> is the C parameter \<open>Wlog\<close>.\<close>

definition tc_red_eval_idle_damping :: "tc_core \<Rightarrow> (double \<Rightarrow> double) \<Rightarrow> nat \<Rightarrow> u32 \<Rightarrow> u32 \<Rightarrow> u8 list \<Rightarrow> int \<times> u8 list" where
  "tc_red_eval_idle_damping st log_d wlog avpkt bps sbuf =
     (let xmit_time = d_of_u32 (tc_calc_xmittime st bps avpkt);
          lW = - log_d (1 - 1 div one_shl wlog) div xmit_time;
          maxtime = d_of_int 31 div lW
      in case red_clog_loop maxtime 32 0 of
           None \<Rightarrow> (- 1, sbuf)
         | Some clog \<Rightarrow>
             let sbuf = sbuf[0 := 0];
                 sbuf = for_up 1 255 (\<lambda>i sbuf.
                   let sbuf = sbuf[i := ucast (d_to_s32 (d_of_s32 (shl32 (word_of_nat i) clog) * lW))]
                   in if sbuf ! i > 31 then sbuf[i := 31] else sbuf) sbuf;
                 sbuf = sbuf[255 := 31]
             in (int clog, sbuf))"

section \<open>Class based queueing\<close>

definition tc_cbq_calc_maxidle :: "tc_core \<Rightarrow> (double \<Rightarrow> double \<Rightarrow> double) \<Rightarrow> u32 \<Rightarrow> u32 \<Rightarrow> u32 \<Rightarrow> nat \<Rightarrow> u32 \<Rightarrow> u32" where
  "tc_cbq_calc_maxidle st pow_d bndw rate avpkt ewma_log maxburst =
     (let g = 1 - 1 div one_shl ewma_log;
          xmt = d_of_u32 avpkt div d_of_u32 bndw;
          maxidle = xmt * (1 - g);
          maxidle =
            (if bndw \<noteq> rate \<and> maxburst \<noteq> 0 then
               let vxmt = d_of_u32 avpkt div d_of_u32 rate - xmt;
                   vxmt = vxmt * (pow_d g (- d_of_u32 maxburst) - 1)
               in if vxmt > maxidle then vxmt else maxidle
             else maxidle)
      in tc_core_time2tick st (d_to_u32 (maxidle * one_shl ewma_log * d_of_int TIME_UNITS_PER_SEC)))"

definition tc_cbq_calc_offtime :: "tc_core \<Rightarrow> (double \<Rightarrow> double \<Rightarrow> double) \<Rightarrow> u32 \<Rightarrow> u32 \<Rightarrow> u32 \<Rightarrow> nat \<Rightarrow> u32 \<Rightarrow> u32" where
  "tc_cbq_calc_offtime st pow_d bndw rate avpkt ewma_log minburst =
     (let g = 1 - 1 div one_shl ewma_log;
          offtime = d_of_u32 avpkt div d_of_u32 rate - d_of_u32 avpkt div d_of_u32 bndw
      in if minburst = 0 then 0
         else let offtime =
                (if minburst = 1 then offtime * (pow_d g (- d_of_u32 minburst) - 1)
                 else offtime * (1 + (pow_d g (- d_of_u32 (minburst - 1)) - 1) div (1 - g)))
              in tc_core_time2tick st (d_to_u32 (offtime * d_of_int TIME_UNITS_PER_SEC)))"

section \<open>Rate estimator\<close>

text \<open>Both counters are fields of the structure, so a failing call leaves them changed.\<close>

record tc_estimator =
  e_interval :: int
  e_ewma_log :: nat

fun estimator_interval :: "u32 \<Rightarrow> nat \<Rightarrow> nat \<Rightarrow> nat" where
  "estimator_interval A 0 interval = interval"
| "estimator_interval A (Suc n) interval =
     (if A \<le> shl32 1 interval * word_of_int (TIME_UNITS_PER_SEC div 4) then interval
      else estimator_interval A n (Suc interval))"

fun estimator_ewma :: "(double \<Rightarrow> double) \<Rightarrow> u32 \<Rightarrow> u32 \<Rightarrow> nat \<Rightarrow> nat \<Rightarrow> nat" where
  "estimator_ewma log_d A time_const 0 ewma = ewma"
| "estimator_ewma log_d A time_const (Suc n) ewma =
     (let w = 1 - 1 div one_shl ewma
      in if d_of_u32 A div (- log_d w) > d_of_u32 time_const then ewma
         else estimator_ewma log_d A time_const n (Suc ewma))"

definition tc_setup_estimator :: "(double \<Rightarrow> double) \<Rightarrow> u32 \<Rightarrow> u32 \<Rightarrow> tc_estimator \<Rightarrow> int \<times> tc_estimator" where
  "tc_setup_estimator log_d A time_const est =
     (let interval = estimator_interval A 6 0;
          est = est\<lparr>e_interval := int interval\<rparr>
      in if interval > 5 then (- 1, est)
         else let est = est\<lparr>e_interval := int interval - 2\<rparr>;
                  ewma = estimator_ewma log_d A time_const 31 1 - 1;
                  est = est\<lparr>e_ewma_log := ewma\<rparr>
              in (if ewma = 0 \<or> ewma \<ge> 31 then - 1 else 0, est))"

section \<open>Laws of the tables\<close>

lemma unat_shr32: "unat (shr32 w k) = unat w div 2 ^ (k mod 32)"
  unfolding shr32_def unat_drop_bit_eq by (rule drop_bit_eq_div)

lemma cell_log_loop_returns:
  fixes c :: "'a::len word"
  assumes "shr32 mtu 31 \<le> bound" "unat c \<le> 31" "32 < (2 :: nat) ^ LENGTH('a)"
  shows "\<exists>c'. cell_log_loop mtu bound c = Some c' \<and> unat c' \<le> 31 \<and> shr32 mtu (unat c') \<le> bound"
  using assms(2)
proof (induction "31 - unat c" arbitrary: c rule: less_induct)
  case less
  show ?case
  proof (cases "shr32 mtu (unat c) \<le> bound")
    case True
    then show ?thesis using less.prems by (subst cell_log_loop.simps) auto
  next
    case False
    then have "unat c \<noteq> 31" using assms(1) by auto
    with less.prems have c: "unat c < 31" by simp
    then have "unat (c + 1) = Suc (unat c)"
      using assms(3) by (simp add: unat_word_ariths)
    then have "\<exists>c'. cell_log_loop mtu bound (c + 1) = Some c' \<and> unat c' \<le> 31 \<and> shr32 mtu (unat c') \<le> bound"
      using c by (intro less.hyps) auto
    then show ?thesis using False by (subst cell_log_loop.simps) auto
  qed
qed

text \<open>The value of entry \<open>i\<close> before it is shifted, and the entries of a completed table.\<close>

definition stab_size :: "tc_sizespec \<Rightarrow> nat \<Rightarrow> u32" where
  "stab_size s i = tc_adjust_size (shl32 (word_of_nat i + 1) (unat (s_cell_log s))) (s_mpu s) (s_linklayer s)"

definition stab_entries :: "tc_sizespec \<Rightarrow> nat \<Rightarrow> u16 list \<Rightarrow> bool" where
  "stab_entries s n stab \<longleftrightarrow>
     n \<le> length stab \<and> (\<forall>i < n. unat (stab ! i) = unat (stab_size s i) div 2 ^ unat (s_size_log s))"

lemma stab_fill_length: "length (snd (stab_fill s ll n stab)) = length stab"
  by (induction s ll n stab rule: stab_fill.induct) (auto simp: Let_def)

lemma stab_fill_frame: "n \<le> i \<Longrightarrow> snd (stab_fill s ll n stab) ! i = stab ! i"
  by (induction s ll n stab rule: stab_fill.induct) (auto simp: Let_def)

lemma stab_fill_fits:
  assumes "\<forall>i < n. shr32 (stab_size s i) (unat (s_size_log s)) \<le> 0xFFFF"
  shows "fst (stab_fill s (s_linklayer s) n stab)"
  using assms
proof (induction n arbitrary: stab)
  case (Suc n)
  then have "\<not> 0xFFFF < shr32 (stab_size s n) (unat (s_size_log s))" by (simp add: linorder_not_less)
  with Suc show ?case by (simp add: stab_size_def Let_def)
qed simp

lemma unat_entry:
  assumes "\<not> 0xFFFF < shr32 w k" "k < 32"
  shows "unat (ucast (shr32 w k) :: u16) = unat w div 2 ^ k"
proof -
  have "unat (shr32 w k) \<le> 0xFFFF"
    using assms(1) by (simp add: word_less_nat_alt)
  then show ?thesis using assms(2) by (simp add: unsigned_ucast_eq take_bit_nat_eq_self unat_shr32)
qed

lemma stab_fill_entries:
  assumes "n \<le> length stab" "unat (s_size_log s) < 32" "fst (stab_fill s (s_linklayer s) n stab)"
  shows "stab_entries s n (snd (stab_fill s (s_linklayer s) n stab))"
  using assms(1,3)
proof (induction n arbitrary: stab)
  case (Suc n)
  let ?w = "shr32 (stab_size s n) (unat (s_size_log s))"
  let ?stab = "stab[n := ucast ?w]"
  have fits: "\<not> 0xFFFF < ?w" using Suc.prems(2) by (auto simp: stab_size_def Let_def split: if_splits)
  then have eq: "stab_fill s (s_linklayer s) (Suc n) stab = stab_fill s (s_linklayer s) n ?stab"
    by (simp add: stab_size_def Let_def)
  have "stab_entries s n (snd (stab_fill s (s_linklayer s) n ?stab))"
    using Suc.prems eq by (intro Suc.IH) simp_all
  moreover have "unat (snd (stab_fill s (s_linklayer s) n ?stab) ! n) = unat (stab_size s n) div 2 ^ unat (s_size_log s)"
    using Suc.prems(1) unat_entry [OF fits assms(2)] by (simp add: stab_fill_frame)
  ultimately show ?case
    using Suc.prems(1) by (auto simp: eq stab_entries_def stab_fill_length less_Suc_eq simp del: stab_fill.simps)
qed (simp add: stab_entries_def)

lemma shr32_16: "shr32 w 16 \<le> 0xFFFF"
proof -
  have "unat w < 4294967296" using unsigned_less [of w] by simp
  then show ?thesis by (simp add: word_le_nat_alt unat_shr32)
qed

lemma stab_again_returns:
  assumes "unat (s_size_log s) \<le> 16" "s_linklayer s = ll" "length stab = nat (sint (s_tsize s - 1) + 1)"
  shows "\<exists>k stab'. stab_again ll s stab = Some (s\<lparr>s_size_log := k\<rparr>, stab') \<and> unat k \<le> 16
    \<and> length stab' = length stab \<and> stab_entries (s\<lparr>s_size_log := k\<rparr>) (length stab) stab'"
  using assms
proof (induction "16 - unat (s_size_log s)" arbitrary: s stab rule: less_induct)
  case less
  let ?r = "stab_fill s ll (length stab) stab"
  show ?case
  proof (cases "fst ?r")
    case True
    then have "stab_again ll s stab = Some (s, snd ?r)"
      using less.prems by (subst stab_again.simps) (simp add: case_prod_beta)
    moreover have "stab_entries s (length stab) (snd ?r)"
      using stab_fill_entries [of "length stab" stab s] True less.prems by simp
    ultimately show ?thesis
      using less.prems(1) by (intro exI [of _ "s_size_log s"] exI [of _ "snd ?r"]) (simp add: stab_fill_length)
  next
    case False
    let ?s = "s\<lparr>s_size_log := s_size_log s + 1\<rparr>"
    have "unat (s_size_log s) \<noteq> 16"
      using stab_fill_fits [of "length stab" s stab] False less.prems(2) shr32_16 by auto
    with less.prems(1) have "unat (s_size_log s) < 16" by simp
    moreover from this have "unat (s_size_log s + 1) = Suc (unat (s_size_log s))"
      by (simp add: unat_word_ariths)
    moreover have "stab_again ll s stab = stab_again ll ?s (snd ?r)"
      using less.prems False by (subst stab_again.simps) (simp add: case_prod_beta)
    ultimately show ?thesis
      using less.hyps [of ?s "snd ?r"] less.prems by (simp add: stab_fill_length)
  qed
qed

lemma sint_positive: "unat (w :: u32) < 2 ^ 31 \<Longrightarrow> sint w = int (unat w)"
proof -
  assume "unat w < 2 ^ 31"
  then have "int (unat w) < int (2 ^ 31)" by (simp only: of_nat_less_iff)
  then have "uint w < 2 ^ 31" by (simp only: uint_nat of_nat_power of_nat_numeral)
  moreover have "- (2 ^ 31) \<le> uint w" by (rule order_trans [OF _ uint_ge_0]) simp
  ultimately have "signed_take_bit 31 (uint w) = uint w" by (intro signed_take_bit_int_eq_self)
  then show ?thesis by (simp add: sint_uint)
qed

lemma tsize_count:
  assumes "w \<noteq> 0" "unat (w :: u32) \<le> 2 ^ 31"
  shows "nat (sint (w - 1) + 1) = unat w" "unat (w - 1) < unat w"
proof -
  have u: "unat (w - 1) = unat w - 1" "0 < unat w"
    using assms(1) by (simp_all add: unat_minus_one word_neq_0_conv unat_gt_0)
  then have "sint (w - 1) = int (unat (w - 1))" using assms(2) by (intro sint_positive) simp
  with u show "nat (sint (w - 1) + 1) = unat w" "unat (w - 1) < unat w" by simp_all
qed

text \<open>
  C24: for a table that needs data, with a size logarithm of zero to begin with, an MTU below
  \<open>2 ^ 31\<close> or at least two slots, at most \<open>2 ^ 31\<close> slots and an allocation that succeeds, both
  search loops end: the size table has the requested number of slots, a packet no longer than
  the MTU falls into one of them, and the slot of a packet length holds the adjusted size of
  the slot's upper end, shifted by a size logarithm of at most 16 under which every entry fits
  in sixteen bits.
\<close>
theorem size_table_correct:
  assumes "LINKLAYER_ETHERNET < s_linklayer s \<or> s_mpu s \<noteq> 0" "s_size_log s = 0"
    and mtu: "mtu = (if s_mtu s = 0 then 2047 else s_mtu s)"
    and ts: "tsize = (if s_tsize s = 0 then 512 else s_tsize s)"
    and "unat mtu < 2 ^ 31 \<or> 1 < tsize" "unat tsize \<le> 2 ^ 31"
    and m: "malloc tsize = Some buf" "length buf = unat tsize"
  shows "\<exists>s' stab. tc_calc_size_table malloc s = Some (0, s', Some stab)
    \<and> length stab = unat tsize \<and> unat mtu div 2 ^ unat (s_cell_log s') < unat tsize
    \<and> unat (s_size_log s') \<le> 16
    \<and> (\<forall>i < unat tsize. unat (stab ! i) =
         unat (tc_adjust_size (shl32 (word_of_nat i + 1) (unat (s_cell_log s'))) (s_mpu s) (s_linklayer s))
           div 2 ^ unat (s_size_log s'))"
proof -
  have ts0: "tsize \<noteq> 0" using ts by auto
  note cnt = tsize_count [OF this assms(6)]
  have "unat (shr32 mtu 31) \<le> unat (tsize - 1)"
  proof (cases "unat mtu < 2 ^ 31")
    case False
    then have "1 \<le> unat (tsize - 1)"
      using assms(5) ts0 by (auto simp: unat_minus_one word_less_nat_alt)
    moreover have "unat mtu < 4294967296" using unsigned_less [of mtu] by simp
    ultimately show ?thesis by (simp add: unat_shr32)
  qed (simp add: unat_shr32)
  then obtain c :: u8 where c: "cell_log_loop mtu (tsize - 1) 0 = Some c" "unat c \<le> 31"
      "shr32 mtu (unat c) \<le> tsize - 1"
    using cell_log_loop_returns [of mtu "tsize - 1" "0 :: u8"] by (auto simp: word_le_nat_alt)
  let ?s = "s\<lparr>s_mtu := mtu, s_tsize := tsize, s_cell_log := c\<rparr>"
  obtain k stab where r: "stab_again (s_linklayer s) ?s buf = Some (?s\<lparr>s_size_log := k\<rparr>, stab)" "unat k \<le> 16"
      "length stab = length buf" "stab_entries (?s\<lparr>s_size_log := k\<rparr>) (length buf) stab"
    using stab_again_returns [of ?s "s_linklayer s" buf] assms(2) m(2) cnt(1) by auto
  have eq: "tc_calc_size_table malloc s = Some (0, ?s\<lparr>s_size_log := k, s_cell_align := - 1\<rparr>, Some stab)"
    using assms(1) c(1) m(1) r(1) mtu ts by (auto simp: tc_calc_size_table_def Let_def linorder_not_less [symmetric])
  have "unat mtu div 2 ^ unat c \<le> unat (tsize - 1)"
    using c(2,3) by (simp add: word_le_nat_alt unat_shr32)
  with cnt(2) r(2-4) m(2) show ?thesis
    by (intro exI [of _ "?s\<lparr>s_size_log := k, s_cell_align := - 1\<rparr>"] exI [of _ stab])
      (simp add: eq stab_entries_def stab_size_def)
qed

theorem size_table_correct_witness:
  "\<exists>s' stab. tc_calc_size_table (\<lambda>n. Some (replicate (unat n) 0))
      \<lparr>s_cell_log = 0, s_size_log = 0, s_cell_align = 0, s_overhead = 0, s_linklayer = LINKLAYER_ATM,
       s_mpu = 64, s_mtu = 1500, s_tsize = 128\<rparr> = Some (0, s', Some stab)
    \<and> length stab = 128 \<and> 1500 div 2 ^ unat (s_cell_log s') < (128 :: nat)"
  using size_table_correct [of "\<lparr>s_cell_log = 0, s_size_log = 0, s_cell_align = 0, s_overhead = 0, s_linklayer = LINKLAYER_ATM,
       s_mpu = 64, s_mtu = 1500, s_tsize = 128\<rparr>" 1500 128 "\<lambda>n. Some (replicate (unat n) 0)" "replicate 128 0"]
  by (auto simp: LINKLAYER_ATM_def)

end
