(* ===== verification/Netlink_Attr.thy ===== *)
theory Netlink_Attr
  imports Byte_Order
begin

text \<open>
  Netlink attributes (\<open>lib/libnetlink.c\<close>): adding attributes to the message under
  construction, nesting, and taking a message apart. A message is the buffer its header
  starts, with the length field kept beside it; a pointer to an attribute inside the buffer
  is the offset where it is written, and the bytes from the attribute on where it is read.
  Lengths are natural numbers: buffers are far below 2 ^ 31 bytes. The length field of an
  attribute has sixteen bits and is truncated as in the code.
\<close>

section \<open>Macros\<close>

definition NLMSG_ALIGN :: "nat \<Rightarrow> nat" where
  "NLMSG_ALIGN len = (len + 3) div 4 * 4"

definition RTA_ALIGN :: "nat \<Rightarrow> nat" where
  "RTA_ALIGN len = (len + 3) div 4 * 4"

definition RTA_LENGTH :: "nat \<Rightarrow> nat" where
  "RTA_LENGTH len = RTA_ALIGN 4 + len"

definition rta_len :: "u8 list \<Rightarrow> nat" where
  "rta_len rta = unat (le16 rta)"

definition rta_type :: "u8 list \<Rightarrow> nat" where
  "rta_type rta = unat (le16 (drop 2 rta))"

definition RTA_DATA :: "u8 list \<Rightarrow> u8 list" where
  "RTA_DATA rta = drop (RTA_LENGTH 0) rta"

definition RTA_PAYLOAD :: "u8 list \<Rightarrow> int" where
  "RTA_PAYLOAD rta = int (rta_len rta) - int (RTA_LENGTH 0)"

definition RTA_OK :: "u8 list \<Rightarrow> int \<Rightarrow> bool" where
  "RTA_OK rta len \<longleftrightarrow> 4 \<le> len \<and> 4 \<le> rta_len rta \<and> int (rta_len rta) \<le> len"

section \<open>Adding attributes\<close>

record nlmsg =
  nlmsg_len :: nat
  nl_buf :: "u8 list"

definition NLMSG_TAIL :: "nlmsg \<Rightarrow> nat" where
  "NLMSG_TAIL n = NLMSG_ALIGN (nlmsg_len n)"

text \<open>Bytes copied into a buffer.\<close>

definition poke :: "nat \<Rightarrow> u8 list \<Rightarrow> u8 list \<Rightarrow> u8 list" where
  "poke off bs buf = take off buf @ bs @ drop (off + length bs) buf"

text \<open>Header and payload of an attribute.\<close>

definition rta_bytes :: "nat \<Rightarrow> u16 \<Rightarrow> u8 list \<Rightarrow> u8 list" where
  "rta_bytes len type data = le16_bytes (word_of_nat len) @ le16_bytes type @ data"

definition addattr32 :: "nlmsg \<Rightarrow> nat \<Rightarrow> u16 \<Rightarrow> u32 \<Rightarrow> int \<times> nlmsg" where
  "addattr32 n maxlen type data =
     (let len = RTA_LENGTH 4
      in if NLMSG_ALIGN (nlmsg_len n) + len > maxlen then (- 1, n)
         else (0, n\<lparr>nl_buf := poke (NLMSG_TAIL n) (rta_bytes len type (le32_bytes data)) (nl_buf n),
                    nlmsg_len := NLMSG_ALIGN (nlmsg_len n) + len\<rparr>))"

definition addattr_l :: "nlmsg \<Rightarrow> nat \<Rightarrow> u16 \<Rightarrow> u8 list \<Rightarrow> int \<times> nlmsg" where
  "addattr_l n maxlen type data =
     (let len = RTA_LENGTH (length data)
      in if NLMSG_ALIGN (nlmsg_len n) + RTA_ALIGN len > maxlen then (- 1, n)
         else (0, n\<lparr>nl_buf := poke (NLMSG_TAIL n) (rta_bytes len type data) (nl_buf n),
                    nlmsg_len := NLMSG_ALIGN (nlmsg_len n) + RTA_ALIGN len\<rparr>))"

definition addraw_l :: "nlmsg \<Rightarrow> nat \<Rightarrow> u8 list \<Rightarrow> int \<times> nlmsg" where
  "addraw_l n maxlen data =
     (let len = length data
      in if NLMSG_ALIGN (nlmsg_len n) + NLMSG_ALIGN len > maxlen then (- 1, n)
         else (0, n\<lparr>nl_buf := poke (NLMSG_TAIL n) (data @ replicate (NLMSG_ALIGN len - len) 0) (nl_buf n),
                    nlmsg_len := NLMSG_ALIGN (nlmsg_len n) + NLMSG_ALIGN len\<rparr>))"

text \<open>A nest is an attribute without data whose length is set at the end; a failed \<open>addattr_l\<close> is not noticed.\<close>

definition addattr_nest :: "nlmsg \<Rightarrow> nat \<Rightarrow> u16 \<Rightarrow> nat \<times> nlmsg" where
  "addattr_nest n maxlen type = (NLMSG_TAIL n, snd (addattr_l n maxlen type []))"

definition set_rta_len :: "nat \<Rightarrow> nat \<Rightarrow> nlmsg \<Rightarrow> nlmsg" where
  "set_rta_len off len n = n\<lparr>nl_buf := poke off (le16_bytes (word_of_nat len)) (nl_buf n)\<rparr>"

definition addattr_nest_end :: "nlmsg \<Rightarrow> nat \<Rightarrow> nat \<times> nlmsg" where
  "addattr_nest_end n nest = (nlmsg_len n, set_rta_len nest (NLMSG_TAIL n - nest) n)"

definition addattr_nest_compat :: "nlmsg \<Rightarrow> nat \<Rightarrow> u16 \<Rightarrow> u8 list \<Rightarrow> nat \<times> nlmsg" where
  "addattr_nest_compat n maxlen type data =
     (let start = NLMSG_TAIL n;
          n = snd (addattr_l n maxlen type data);
          (nest, n) = addattr_nest n maxlen type
      in (start, n))"

definition addattr_nest_compat_end :: "nlmsg \<Rightarrow> nat \<Rightarrow> nat \<times> nlmsg" where
  "addattr_nest_compat_end n start =
     (let nest = start + NLMSG_ALIGN (rta_len (drop start (nl_buf n)));
          n = set_rta_len start (NLMSG_TAIL n - start) n;
          (_, n) = addattr_nest_end n nest
      in (nlmsg_len n, n))"

text \<open>The same on an attribute that holds others; its buffer starts with its own header.\<close>

definition rta_addattr32 :: "u8 list \<Rightarrow> nat \<Rightarrow> u16 \<Rightarrow> u32 \<Rightarrow> int \<times> u8 list" where
  "rta_addattr32 rta maxlen type data =
     (let len = RTA_LENGTH 4
      in if RTA_ALIGN (rta_len rta) + len > maxlen then (- 1, rta)
         else let off = RTA_ALIGN (rta_len rta);
                  l = NLMSG_ALIGN (rta_len rta) + len
              in (0, poke 0 (le16_bytes (word_of_nat l)) (poke off (rta_bytes len type (le32_bytes data)) rta)))"

definition rta_addattr_l :: "u8 list \<Rightarrow> nat \<Rightarrow> u16 \<Rightarrow> u8 list \<Rightarrow> int \<times> u8 list" where
  "rta_addattr_l rta maxlen type data =
     (let len = RTA_LENGTH (length data)
      in if RTA_ALIGN (rta_len rta) + RTA_ALIGN len > maxlen then (- 1, rta)
         else let off = RTA_ALIGN (rta_len rta);
                  l = NLMSG_ALIGN (rta_len rta) + RTA_ALIGN len
              in (0, poke 0 (le16_bytes (word_of_nat l)) (poke off (rta_bytes len type data) rta)))"

section \<open>Taking a message apart\<close>

lemma RTA_ALIGN_ge: "n \<le> RTA_ALIGN n"
  unfolding RTA_ALIGN_def using div_mult_mod_eq [of "n + 3" 4] mod_less_divisor [of 4 "n + 3"] by linarith

lemma RTA_OK_decreases: "RTA_OK rta len \<Longrightarrow> nat (len - int (RTA_ALIGN (rta_len rta))) < nat len"
  using RTA_ALIGN_ge [of "rta_len rta"] by (auto simp: RTA_OK_def)

text \<open>
  The table holds for every type up to the maximum the first attribute of that type; the second
  component of the result is the number of bytes left, which the code reports when it is
  not zero.
\<close>

function parse_rtattr_loop :: "nat \<Rightarrow> u8 list option list \<Rightarrow> u8 list \<Rightarrow> int \<Rightarrow> u8 list option list \<times> int" where
  "parse_rtattr_loop mx tb rta len =
     (if RTA_OK rta len then
        let tb = (if rta_type rta \<le> mx \<and> tb ! rta_type rta = None then tb[rta_type rta := Some rta] else tb)
        in parse_rtattr_loop mx tb (drop (RTA_ALIGN (rta_len rta)) rta) (len - int (RTA_ALIGN (rta_len rta)))
      else (tb, len))"
  by pat_completeness auto

termination
  by (relation "measure (\<lambda>(_, _, _, len). nat len)") (use RTA_OK_decreases in auto)

declare parse_rtattr_loop.simps [simp del]

definition parse_rtattr :: "nat \<Rightarrow> u8 list \<Rightarrow> int \<Rightarrow> u8 list option list \<times> int" where
  "parse_rtattr mx rta len = parse_rtattr_loop mx (replicate (mx + 1) None) rta len"

function parse_rtattr_byindex_loop :: "nat \<Rightarrow> u8 list list \<Rightarrow> u8 list \<Rightarrow> int \<Rightarrow> u8 list list \<times> int" where
  "parse_rtattr_byindex_loop mx tb rta len =
     (if RTA_OK rta len then
        let tb = (if rta_type rta \<le> mx \<and> length tb < mx then tb @ [rta] else tb)
        in parse_rtattr_byindex_loop mx tb (drop (RTA_ALIGN (rta_len rta)) rta) (len - int (RTA_ALIGN (rta_len rta)))
      else (tb, len))"
  by pat_completeness auto

termination
  by (relation "measure (\<lambda>(_, _, _, len). nat len)") (use RTA_OK_decreases in auto)

declare parse_rtattr_byindex_loop.simps [simp del]

text \<open>The attributes in order; their number is the value returned.\<close>

definition parse_rtattr_byindex :: "nat \<Rightarrow> u8 list \<Rightarrow> int \<Rightarrow> u8 list list \<times> int" where
  "parse_rtattr_byindex mx rta len = parse_rtattr_byindex_loop mx [] rta len"

definition parse_rtattr_nested :: "nat \<Rightarrow> u8 list \<Rightarrow> u8 list option list \<times> int" where
  "parse_rtattr_nested mx rta = parse_rtattr mx (RTA_DATA rta) (RTA_PAYLOAD rta)"

definition parse_rtattr_nested_compat :: "nat \<Rightarrow> u8 list \<Rightarrow> nat \<Rightarrow> int \<times> u8 list option list option" where
  "parse_rtattr_nested_compat mx rta len =
     (if RTA_PAYLOAD rta < int len then (- 1, None)
      else if RTA_PAYLOAD rta \<ge> int (RTA_ALIGN len + 4)
      then (0, Some (fst (parse_rtattr_nested mx (drop (RTA_ALIGN len) (RTA_DATA rta)))))
      else (0, Some (replicate (mx + 1) None)))"

section \<open>Attribute lists in a buffer\<close>

type_synonym attr = "u16 \<times> u8 list"

text \<open>The bytes an attribute takes, with padding; and the bytes that start with given attributes.\<close>

definition attr_size :: "attr \<Rightarrow> nat" where
  "attr_size a = RTA_ALIGN (4 + length (snd a))"

definition attrs_size :: "attr list \<Rightarrow> nat" where
  "attrs_size as = sum_list (map attr_size as)"

fun holds_attrs :: "u8 list \<Rightarrow> attr list \<Rightarrow> bool" where
  "holds_attrs bs [] \<longleftrightarrow> True"
| "holds_attrs bs (a # as) \<longleftrightarrow>
     take (4 + length (snd a)) bs = rta_bytes (4 + length (snd a)) (fst a) (snd a)
     \<and> attr_size a \<le> length bs \<and> holds_attrs (drop (attr_size a) bs) as"

lemma RTA_LENGTH_simp [simp]: "RTA_LENGTH n = 4 + n"
  by (simp add: RTA_LENGTH_def RTA_ALIGN_def)

lemma length_rta_bytes [simp]: "length (rta_bytes l t d) = 4 + length d"
  by (simp add: rta_bytes_def)

lemma attr_size_ge: "4 + length (snd a) \<le> attr_size a"
  unfolding attr_size_def by (rule RTA_ALIGN_ge)

lemma poke_length: "off + length bs \<le> length buf \<Longrightarrow> length (poke off bs buf) = length buf"
  by (simp add: poke_def)

lemma drop_poke: "off \<le> length buf \<Longrightarrow> drop off (poke off bs buf) = bs @ drop (off + length bs) buf"
  by (simp add: poke_def)

lemma drop_poke_before:
  "k \<le> off \<Longrightarrow> off \<le> length buf \<Longrightarrow> drop k (poke off bs buf) = poke (off - k) bs (drop k buf)"
  by (simp add: poke_def drop_take add.commute)

lemma take_poke: "k \<le> off \<Longrightarrow> off \<le> length buf \<Longrightarrow> take k (poke off bs buf) = take k buf"
  by (simp add: poke_def min_def)

text \<open>Writing behind the attributes keeps them; writing one right behind them adds it.\<close>

lemma holds_attrs_poke:
  assumes "holds_attrs bs as" "attrs_size as \<le> off" "off + length d \<le> length bs"
  shows "holds_attrs (poke off d bs) as"
  using assms
proof (induction as arbitrary: bs off)
  case (Cons a as)
  have s: "attr_size a \<le> off" "4 + length (snd a) \<le> off"
    using Cons.prems(2) attr_size_ge [of a] by (simp_all add: attrs_size_def)
  then have "holds_attrs (poke (off - attr_size a) d (drop (attr_size a) bs)) as"
    using Cons.prems by (intro Cons.IH) (auto simp: attrs_size_def)
  then show ?case
    using Cons.prems s by (simp add: take_poke drop_poke_before poke_length)
qed simp

lemma holds_attrs_add:
  assumes "holds_attrs bs as" "attrs_size as + attr_size a \<le> length bs"
  shows "holds_attrs (poke (attrs_size as) (rta_bytes (4 + length (snd a)) (fst a) (snd a)) bs) (as @ [a])"
  using assms
proof (induction as arbitrary: bs)
  case Nil
  then show ?case using attr_size_ge [of a] by (simp add: attrs_size_def poke_def)
next
  case (Cons b as)
  let ?d = "rta_bytes (4 + length (snd a)) (fst a) (snd a)"
  have s: "4 + length (snd b) \<le> attrs_size (b # as)" "attrs_size (b # as) = attr_size b + attrs_size as"
    using attr_size_ge [of b] by (simp_all add: attrs_size_def)
  have "holds_attrs (poke (attrs_size as) ?d (drop (attr_size b) bs)) (as @ [a])"
    using Cons.prems s(2) by (intro Cons.IH) auto
  then show ?case
    using Cons.prems s attr_size_ge [of a]
    by (simp add: take_poke drop_poke_before poke_length)
qed

text \<open>Reading the header of an attribute that is there.\<close>

definition rta_payload :: "u8 list \<Rightarrow> u8 list" where
  "rta_payload rta = take (nat (RTA_PAYLOAD rta)) (RTA_DATA rta)"

lemma holds_attrs_head:
  assumes "holds_attrs bs (a # as)" "4 + length (snd a) < 2 ^ 16"
  shows "rta_len bs = 4 + length (snd a)" "rta_type bs = unat (fst a)" "rta_payload bs = snd a"
proof -
  let ?r = "drop (4 + length (snd a)) bs"
  have "take (4 + length (snd a)) bs = le16_bytes (word_of_nat (4 + length (snd a))) @ le16_bytes (fst a) @ snd a"
    using assms(1) by (simp add: rta_bytes_def)
  then have b: "bs = le16_bytes (word_of_nat (4 + length (snd a))) @ le16_bytes (fst a) @ snd a @ ?r"
    by (metis append.assoc append_take_drop_id)
  show l: "rta_len bs = 4 + length (snd a)"
    using assms(2) by (subst b) (simp add: rta_len_def unat_of_nat del: of_nat_add)
  show "rta_type bs = unat (fst a)" by (subst b) (simp add: rta_type_def)
  have "drop 4 bs = snd a @ ?r" by (subst b) simp
  then show "rta_payload bs = snd a" by (simp add: rta_payload_def RTA_PAYLOAD_def RTA_DATA_def l)
qed

definition attr_map :: "attr list \<Rightarrow> nat \<Rightarrow> u8 list option" where
  "attr_map as = map_of (map (\<lambda>(t, d). (unat t, d)) as)"

lemma parse_rtattr_loop_holds:
  assumes "holds_attrs bs as" "\<forall>a \<in> set as. 4 + length (snd a) < 2 ^ 16" "length tb = mx + 1"
  shows "\<exists>tb'. parse_rtattr_loop mx tb bs (int (attrs_size as)) = (tb', 0) \<and> length tb' = mx + 1
    \<and> (\<forall>t \<le> mx. map_option rta_payload (tb' ! t) =
        (case tb ! t of Some r \<Rightarrow> Some (rta_payload r) | None \<Rightarrow> attr_map as t))"
  using assms
proof (induction as arbitrary: bs tb)
  case Nil
  then show ?case
    by (auto simp: parse_rtattr_loop.simps RTA_OK_def attrs_size_def attr_map_def split: option.splits)
next
  case (Cons a as)
  note h = holds_attrs_head [OF Cons.prems(1)]
  have l: "rta_len bs = 4 + length (snd a)" "rta_type bs = unat (fst a)" "rta_payload bs = snd a"
    using h Cons.prems(2) by simp_all
  have sz: "RTA_ALIGN (rta_len bs) = attr_size a" by (simp add: l attr_size_def)
  have ok: "RTA_OK bs (int (attrs_size (a # as)))"
    using attr_size_ge [of a] by (simp add: RTA_OK_def l attrs_size_def)
  define tb1 where "tb1 = (if rta_type bs \<le> mx \<and> tb ! rta_type bs = None then tb[rta_type bs := Some bs] else tb)"
  have step: "parse_rtattr_loop mx tb bs (int (attrs_size (a # as))) =
      parse_rtattr_loop mx tb1 (drop (attr_size a) bs) (int (attrs_size as))"
    using ok by (subst parse_rtattr_loop.simps) (simp add: sz tb1_def attrs_size_def)
  have "length tb1 = mx + 1" using Cons.prems(3) by (simp add: tb1_def)
  then obtain tb' where tb': "parse_rtattr_loop mx tb1 (drop (attr_size a) bs) (int (attrs_size as)) = (tb', 0)"
    "length tb' = mx + 1"
    "\<forall>t \<le> mx. map_option rta_payload (tb' ! t) =
      (case tb1 ! t of Some r \<Rightarrow> Some (rta_payload r) | None \<Rightarrow> attr_map as t)"
    using Cons.IH [of "drop (attr_size a) bs" tb1] Cons.prems(1,2) by auto
  have "(case tb1 ! t of Some r \<Rightarrow> Some (rta_payload r) | None \<Rightarrow> attr_map as t) =
      (case tb ! t of Some r \<Rightarrow> Some (rta_payload r) | None \<Rightarrow> attr_map (a # as) t)" if "t \<le> mx" for t
    using that Cons.prems(3) l by (cases a) (auto simp: tb1_def attr_map_def split: option.splits)
  with tb' show ?case unfolding step by auto
qed

text \<open>An attribute found in a well-formed message is there as a whole.\<close>

lemma parse_rtattr_loop_whole:
  assumes "holds_attrs bs as" "\<forall>a \<in> set as. 4 + length (snd a) < 2 ^ 16" "t \<le> mx" "length tb = mx + 1"
    and "fst (parse_rtattr_loop mx tb bs (int (attrs_size as))) ! t = Some r"
  shows "tb ! t = Some r \<or> RTA_PAYLOAD r = int (length (rta_payload r))"
  using assms
proof (induction as arbitrary: bs tb)
  case Nil
  then show ?case by (simp add: parse_rtattr_loop.simps RTA_OK_def attrs_size_def)
next
  case (Cons a as)
  have l: "rta_len bs = 4 + length (snd a)" "rta_payload bs = snd a"
    using holds_attrs_head [OF Cons.prems(1)] Cons.prems(2) by simp_all
  have sz: "RTA_ALIGN (rta_len bs) = attr_size a" by (simp add: l attr_size_def)
  have ok: "RTA_OK bs (int (attrs_size (a # as)))"
    using attr_size_ge [of a] by (simp add: RTA_OK_def l attrs_size_def)
  define tb1 where "tb1 = (if rta_type bs \<le> mx \<and> tb ! rta_type bs = None then tb[rta_type bs := Some bs] else tb)"
  have "fst (parse_rtattr_loop mx tb1 (drop (attr_size a) bs) (int (attrs_size as))) ! t = Some r"
    using Cons.prems(5) ok by (subst (asm) parse_rtattr_loop.simps) (simp add: sz tb1_def attrs_size_def)
  then have "tb1 ! t = Some r \<or> RTA_PAYLOAD r = int (length (rta_payload r))"
    using Cons.IH [of "drop (attr_size a) bs" tb1] Cons.prems(1-4) by (simp add: tb1_def)
  then show ?case using Cons.prems(3,4) l
    by (auto simp: tb1_def nth_list_update RTA_PAYLOAD_def split: if_splits)
qed

text \<open>Only the bytes the attributes fill matter, and attributes can be looked at in two parts.\<close>

lemma attrs_size_simps [simp]:
  "attrs_size [] = 0" "attrs_size (a # as) = attr_size a + attrs_size as" "attrs_size (as @ bs) = attrs_size as + attrs_size bs"
  by (simp_all add: attrs_size_def)

lemma holds_attrs_length: "holds_attrs bs as \<Longrightarrow> attrs_size as \<le> length bs"
  by (induction bs as rule: holds_attrs.induct) auto

lemma holds_attrs_take:
  assumes "holds_attrs bs as" "take (attrs_size as) bs' = take (attrs_size as) bs"
  shows "holds_attrs bs' as"
  using assms
proof (induction as arbitrary: bs bs')
  case (Cons a as)
  have sz: "4 + length (snd a) \<le> attr_size a" by (rule attr_size_ge)
  have "take n bs' = take n bs" if "n \<le> attr_size a" for n
  proof -
    have "take n (take (attrs_size (a # as)) bs') = take n (take (attrs_size (a # as)) bs)" using Cons.prems(2) by simp
    then show ?thesis using that by (simp add: min_def)
  qed
  from this [OF sz] have "take (4 + length (snd a)) bs' = take (4 + length (snd a)) bs" .
  moreover have "take (attrs_size as) (drop (attr_size a) bs') = take (attrs_size as) (drop (attr_size a) bs)"
    using arg_cong [OF Cons.prems(2), of "drop (attr_size a)"] by (simp add: drop_take)
  then have "holds_attrs (drop (attr_size a) bs') as" using Cons by auto
  moreover have "attr_size a \<le> length bs'"
  proof -
    have "attr_size a \<le> length (take (attrs_size (a # as)) bs)" using Cons.prems(1) by simp
    then show ?thesis unfolding Cons.prems(2) [symmetric] by simp
  qed
  ultimately show ?case using Cons.prems(1) by simp
qed simp

lemma holds_attrs_append:
  "holds_attrs bs (as @ as') \<longleftrightarrow> holds_attrs bs as \<and> holds_attrs (drop (attrs_size as) bs) as'"
  by (induction bs as rule: holds_attrs.induct) (auto simp: add.commute)

text \<open>An attribute read from its header: its body is what its length says.\<close>

lemma holds_raw:
  assumes "rta_type r = unat t" "rta_len r = 4 + m" "4 + m \<le> length r" "4 dvd m"
  shows "holds_attrs r [(t, take m (RTA_DATA r))]"
proof -
  obtain a b c d r' where r: "r = a # b # c # d # r'"
    using assms(3) by (auto simp: le_Suc_eq numeral_eq_Suc Suc_le_length_iff)
  have "word_of_nat (4 + m) = le16 [a, b]" "t = le16 [c, d]"
    using assms(1,2) by (simp_all add: rta_len_def rta_type_def r le16_def word_unat_eq_iff flip: assms(2))
  then have b: "le16_bytes (word_of_nat (4 + m)) = [a, b]" "le16_bytes t = [c, d]" by (simp_all del: of_nat_add)
  have "take (4 + m) r = rta_bytes (4 + m) t (take m (drop 4 r))"
    unfolding rta_bytes_def b by (simp add: r numeral_eq_Suc)
  moreover have "(7 + m) div 4 * 4 = 4 + m" using assms(4) by (elim dvdE) simp
  ultimately show ?thesis using assms(3) by (simp add: RTA_DATA_def attr_size_def RTA_ALIGN_def)
qed

section \<open>A message is taken apart into what was put in\<close>

fun add_all :: "nat \<Rightarrow> attr list \<Rightarrow> nlmsg \<Rightarrow> int list \<times> nlmsg" where
  "add_all maxlen [] n = ([], n)"
| "add_all maxlen ((t, d) # as) n =
     (let (r, n) = addattr_l n maxlen t d; (rs, n) = add_all maxlen as n in (r # rs, n))"

lemma RTA_ALIGN_mult: "4 dvd RTA_ALIGN n" "4 dvd NLMSG_ALIGN n"
  by (simp_all add: RTA_ALIGN_def NLMSG_ALIGN_def)

lemma NLMSG_ALIGN_dvd: "4 dvd n \<Longrightarrow> NLMSG_ALIGN n = n"
  by (auto simp: NLMSG_ALIGN_def elim!: dvdE)

lemma attrs_size_dvd: "4 dvd attrs_size as"
  by (induction as) (auto simp: attrs_size_def attr_size_def RTA_ALIGN_mult)

lemma add_all_holds:
  assumes "4 dvd start" "nlmsg_len n = start + attrs_size done" "holds_attrs (drop start (nl_buf n)) done"
    and "start + attrs_size (done @ as) \<le> maxlen" "maxlen \<le> length (nl_buf n)"
  shows "\<exists>n'. add_all maxlen as n = (replicate (length as) 0, n') \<and> nlmsg_len n' = start + attrs_size (done @ as)
    \<and> holds_attrs (drop start (nl_buf n')) (done @ as) \<and> take start (nl_buf n') = take start (nl_buf n)
    \<and> length (nl_buf n') = length (nl_buf n)"
  using assms(2-)
proof (induction as arbitrary: n "done")
  case (Cons a as)
  obtain t d where a: "a = (t, d)" by fastforce
  have al: "NLMSG_ALIGN (nlmsg_len n) = start + attrs_size done"
    using assms(1) attrs_size_dvd [of "done"] by (simp add: Cons.prems(1) NLMSG_ALIGN_dvd)
  have sz: "attrs_size (done @ a # as) = attrs_size done + attr_size a + attrs_size as"
    by (simp add: attrs_size_def)
  define n1 where "n1 = snd (addattr_l n maxlen t d)"
  have fits: "start + attrs_size done + attr_size a \<le> maxlen" using Cons.prems(3) sz by simp
  then have add: "addattr_l n maxlen t d = (0, n1)"
    by (simp add: n1_def addattr_l_def al a attr_size_def Let_def)
  have len: "nlmsg_len n1 = start + attrs_size (done @ [a])"
    and buf: "nl_buf n1 = poke (start + attrs_size done) (rta_bytes (4 + length d) t d) (nl_buf n)"
    using fits by (simp_all add: n1_def addattr_l_def al a attr_size_def NLMSG_TAIL_def attrs_size_def Let_def)
  have room: "start + attrs_size done + (4 + length d) \<le> length (nl_buf n)"
    using fits Cons.prems(4) attr_size_ge [of a] by (simp add: a)
  have "holds_attrs (drop start (nl_buf n1)) (done @ [a])"
    using holds_attrs_add [OF Cons.prems(2), of a] fits Cons.prems(4) room
    by (simp add: buf drop_poke_before a)
  moreover have "take start (nl_buf n1) = take start (nl_buf n)" "length (nl_buf n1) = length (nl_buf n)"
    using room by (simp_all add: buf take_poke poke_length)
  ultimately show ?case
    using Cons.IH [of n1 "done @ [a]"] len Cons.prems(3,4) by (auto simp: add a)
qed simp

text \<open>
  C21: attributes added one after the other to a message that has room for them are all
  accepted, leave the bytes before them alone, and parsing the part of the message they
  fill finds for every type the payload of the first attribute of that type, with no bytes
  left over.
\<close>
theorem attr_roundtrip:
  assumes "nlmsg_len n mod 4 = 0" "nlmsg_len n + attrs_size as \<le> maxlen" "maxlen \<le> length (nl_buf n)"
    and "\<forall>a \<in> set as. 4 + length (snd a) < 2 ^ 16"
  shows "\<exists>n' tb. add_all maxlen as n = (replicate (length as) 0, n')
    \<and> take (nlmsg_len n) (nl_buf n') = take (nlmsg_len n) (nl_buf n)
    \<and> parse_rtattr mx (drop (nlmsg_len n) (nl_buf n')) (int (nlmsg_len n' - nlmsg_len n)) = (tb, 0)
    \<and> (\<forall>t \<le> mx. map_option rta_payload (tb ! t) = attr_map as t)"
proof -
  have "4 dvd nlmsg_len n" using assms(1) by (simp add: mod_eq_0_iff_dvd)
  from add_all_holds [OF this, of n "[]" as maxlen] assms(2,3)
  obtain n' where n': "add_all maxlen as n = (replicate (length as) 0, n')" "nlmsg_len n' = nlmsg_len n + attrs_size as"
    "holds_attrs (drop (nlmsg_len n) (nl_buf n')) as" "take (nlmsg_len n) (nl_buf n') = take (nlmsg_len n) (nl_buf n)"
    by (auto simp: attrs_size_def)
  from parse_rtattr_loop_holds [OF n'(3) assms(4), of "replicate (mx + 1) None" mx]
  obtain tb where "parse_rtattr mx (drop (nlmsg_len n) (nl_buf n')) (int (attrs_size as)) = (tb, 0)"
    "\<forall>t \<le> mx. map_option rta_payload (tb ! t) = attr_map as t"
    by (auto simp: parse_rtattr_def simp del: replicate_Suc)
  with n' show ?thesis by auto
qed

theorem attr_roundtrip_witness:
  "\<exists>n' tb. add_all 32 [(1, [1, 2, 3]), (2, [])] \<lparr>nlmsg_len = 8, nl_buf = replicate 32 0\<rparr> = ([0, 0], n')
    \<and> take 8 (nl_buf n') = replicate 8 0
    \<and> parse_rtattr 3 (drop 8 (nl_buf n')) (int (nlmsg_len n' - 8)) = (tb, 0)
    \<and> (\<forall>t \<le> 3. map_option rta_payload (tb ! t) = attr_map [(1, [1, 2, 3]), (2, [])] t)"
  using attr_roundtrip [of "\<lparr>nlmsg_len = 8, nl_buf = replicate 32 0\<rparr>" "[(1, [1, 2, 3]), (2, [])]" 32 3]
  by (simp add: attrs_size_def attr_size_def RTA_ALIGN_def)

text \<open>Nests: the attributes between \<open>addattr_nest\<close> and \<open>addattr_nest_end\<close>.\<close>

lemma nest_roundtrip:
  assumes "nlmsg_len n mod 4 = 0" "nlmsg_len n + 4 + attrs_size as \<le> maxlen" "maxlen \<le> length (nl_buf n)"
    and "\<forall>a \<in> set as. 4 + length (snd a) < 2 ^ 16" "4 + attrs_size as < 2 ^ 16"
  obtains n1 n2 n3 tb where "addattr_nest n maxlen type = (nlmsg_len n, n1)"
    "add_all maxlen as n1 = (replicate (length as) 0, n2)"
    "addattr_nest_end n2 (nlmsg_len n) = (nlmsg_len n + 4 + attrs_size as, n3)"
    "nlmsg_len n3 = nlmsg_len n + 4 + attrs_size as"
    "take (nlmsg_len n) (nl_buf n3) = take (nlmsg_len n) (nl_buf n)"
    "rta_type (drop (nlmsg_len n) (nl_buf n3)) = unat type"
    "rta_len (drop (nlmsg_len n) (nl_buf n3)) = 4 + attrs_size as"
    "parse_rtattr_nested mx (drop (nlmsg_len n) (nl_buf n3)) = (tb, 0)"
    "\<forall>t \<le> mx. map_option rta_payload (tb ! t) = attr_map as t"
    "holds_attrs (RTA_DATA (drop (nlmsg_len n) (nl_buf n3))) as"
proof -
  let ?L = "nlmsg_len n"
  have dv: "4 dvd ?L" using assms(1) by (simp add: mod_eq_0_iff_dvd)
  have al: "NLMSG_ALIGN ?L = ?L" using dv by (rule NLMSG_ALIGN_dvd)
  have ra: "RTA_ALIGN 4 = 4" by (simp add: RTA_ALIGN_def)
  define n1 where "n1 = n\<lparr>nl_buf := poke ?L (rta_bytes 4 type []) (nl_buf n), nlmsg_len := ?L + 4\<rparr>"
  have nest: "addattr_nest n maxlen type = (?L, n1)"
    using assms(2) by (simp add: addattr_nest_def addattr_l_def NLMSG_TAIL_def al ra n1_def)
  have room: "?L + 4 \<le> length (nl_buf n)" using assms(2,3) by simp
  have "4 dvd ?L + 4" using dv by simp
  from add_all_holds [OF this, of n1 "[]" as maxlen] assms(2,3) room
  obtain n2 where n2: "add_all maxlen as n1 = (replicate (length as) 0, n2)" "nlmsg_len n2 = ?L + 4 + attrs_size as"
    "holds_attrs (drop (?L + 4) (nl_buf n2)) as" "take (?L + 4) (nl_buf n2) = take (?L + 4) (nl_buf n1)"
    "length (nl_buf n2) = length (nl_buf n)"
    by (auto simp: n1_def attrs_size_def poke_length)
  have "4 dvd ?L + 4 + attrs_size as" using dv attrs_size_dvd [of as] by simp
  then have al2: "NLMSG_TAIL n2 = ?L + 4 + attrs_size as" by (simp only: NLMSG_TAIL_def n2(2) NLMSG_ALIGN_dvd)
  define n3 where "n3 = set_rta_len ?L (4 + attrs_size as) n2"
  have e: "addattr_nest_end n2 ?L = (?L + 4 + attrs_size as, n3)"
    by (simp add: addattr_nest_end_def n2(2) al2 n3_def)
  have b3: "nl_buf n3 = poke ?L (le16_bytes (word_of_nat (4 + attrs_size as))) (nl_buf n2)"
    by (simp add: n3_def set_rta_len_def)
  define R where "R = drop (?L + 4) (nl_buf n2)"
  have "take (?L + 4) (nl_buf n2) = take ?L (nl_buf n) @ rta_bytes 4 type []"
    using n2(4) room by (simp add: n1_def poke_def)
  then have c: "nl_buf n2 = take ?L (nl_buf n) @ le16_bytes (word_of_nat 4) @ le16_bytes type @ R"
    by (metis append.assoc append_Nil2 append_take_drop_id R_def rta_bytes_def)
  have d2: "drop (?L + 2) (nl_buf n2) = le16_bytes type @ drop (?L + 4) (nl_buf n2)"
    and t2: "take ?L (nl_buf n2) = take ?L (nl_buf n)"
    unfolding R_def [symmetric] using room by (simp_all add: c)
  have d3: "drop ?L (nl_buf n3) = le16_bytes (word_of_nat (4 + attrs_size as)) @ le16_bytes type @ drop (?L + 4) (nl_buf n2)"
    using room n2(5) d2 by (simp only: b3) (simp add: drop_poke flip: add_2_eq_Suc')
  have l3: "rta_len (drop ?L (nl_buf n3)) = 4 + attrs_size as" and ty: "rta_type (drop ?L (nl_buf n3)) = unat type"
    and p3: "RTA_DATA (drop ?L (nl_buf n3)) = drop (?L + 4) (nl_buf n2)"
    using assms(5) unfolding d3 by (simp_all add: rta_len_def rta_type_def RTA_DATA_def unat_of_nat del: of_nat_add)
  from parse_rtattr_loop_holds [OF n2(3) assms(4), of "replicate (mx + 1) None" mx]
  obtain tb where "parse_rtattr_nested mx (drop ?L (nl_buf n3)) = (tb, 0)"
    "\<forall>t \<le> mx. map_option rta_payload (tb ! t) = attr_map as t"
    by (auto simp: parse_rtattr_nested_def parse_rtattr_def p3 RTA_PAYLOAD_def l3 simp del: replicate_Suc)
  moreover have "take ?L (nl_buf n3) = take ?L (nl_buf n)" using room n2(5) by (simp add: b3 take_poke t2)
  moreover have "nlmsg_len n3 = ?L + 4 + attrs_size as" by (simp add: n3_def set_rta_len_def n2(2))
  ultimately show ?thesis using that [OF nest n2(1) e] l3 ty n2(3) [folded p3] by blast
qed

end
