(* ===== verification/Tc_Util.thy ===== *)
theory Tc_Util
  imports C_Printf Tc_Core Utils_Cli Netlink_Attr
begin

text \<open>
  The texts of the \<open>tc\<close> command (\<open>tc/tc_util.c\<close>): handles and class identifiers, rates, times,
  sizes, percentages, actions, link layers, and the statistics every queueing discipline
  shows. A reading function is \<open>None\<close> where the code returns \<open>-1\<close> and leaves its result
  alone; a printing function gives the text in the caller's buffer of \<open>len\<close> characters, or
  what it writes to the stream.
\<close>

section \<open>Handles\<close>

definition get_tc_lib :: "string option \<Rightarrow> string" where
  "get_tc_lib env = (case env of Some lib_dir \<Rightarrow> lib_dir | None \<Rightarrow> ''/usr/lib//tc/'')"

definition TC_H_UNSPEC :: u32 where "TC_H_UNSPEC = 0"
definition TC_H_ROOT :: u32 where "TC_H_ROOT = 0xFFFFFFFF"

definition TC_H_MAJ :: "u32 \<Rightarrow> u32" where
  "TC_H_MAJ h = h AND 0xFFFF0000"

definition TC_H_MIN :: "u32 \<Rightarrow> u32" where
  "TC_H_MIN h = h AND 0xFFFF"

definition SPRINT_BSIZE :: nat where
  "SPRINT_BSIZE = 64"

definition get_qdisc_handle :: "string \<Rightarrow> u32 option" where
  "get_qdisc_handle str =
     (if str = ''none'' then Some TC_H_UNSPEC
      else let (v, p) = strtoul str 16;
               maj = ucast v
           in if p = str then None
              else let maj = push_bit 16 maj
                   in if p \<noteq> [] \<and> hd p \<noteq> CHR '':'' then None else Some maj)"

definition get_tc_classid :: "string \<Rightarrow> u32 option" where
  "get_tc_classid str =
     (if str = ''root'' then Some TC_H_ROOT
      else if str = ''none'' then Some TC_H_UNSPEC
      else let (v, p) = strtoul str 16;
               maj = ucast v :: u32
           in if p = str \<and> take 1 p \<noteq> '':'' then None
              else let maj = (if p = str then 0 else maj)
                   in if take 1 p = '':'' then
                        if maj \<ge> 0x10000 then None
                        else let maj = push_bit 16 maj;
                                 (v, p) = strtoul (tl p) 16;
                                 min = ucast v :: u32
                             in if p \<noteq> [] then None else if min \<ge> 0x10000 then None else Some (maj OR min)
                      else if p \<noteq> [] then None else Some maj)"

definition print_tc_classid :: "nat \<Rightarrow> u32 \<Rightarrow> string" where
  "print_tc_classid len h =
     (if h = TC_H_ROOT then ''root''
      else if h = TC_H_UNSPEC then snprintf len ''none''
      else if TC_H_MAJ h = 0 then snprintf len ('':'' @ show_hex (unat (TC_H_MIN h)))
      else if TC_H_MIN h = 0 then snprintf len (show_hex (unat (drop_bit 16 (TC_H_MAJ h))) @ '':'')
      else snprintf len (show_hex (unat (drop_bit 16 (TC_H_MAJ h))) @ '':'' @ show_hex (unat (TC_H_MIN h))))"

definition sprint_tc_classid :: "u32 \<Rightarrow> string" where
  "sprint_tc_classid h = print_tc_classid (SPRINT_BSIZE - 1) h"

definition print_qdisc_handle :: "nat \<Rightarrow> u32 \<Rightarrow> string" where
  "print_qdisc_handle len h = snprintf len (show_hex (unat (drop_bit 16 (TC_H_MAJ h))) @ '':'')"

definition sprint_qdisc_handle :: "u32 \<Rightarrow> string" where
  "sprint_qdisc_handle h = print_qdisc_handle (SPRINT_BSIZE - 1) h"

section \<open>Rates\<close>

text \<open>Every scale is an integer below \<open>2 ^ 53\<close>, so the products of the table are exact.\<close>

definition suffixes :: "(string \<times> int) list" where
  "suffixes =
     [(''bit'', 1), (''Kibit'', 1024), (''kbit'', 1000), (''mibit'', 1024 * 1024), (''mbit'', 1000000),
      (''gibit'', 1024 * 1024 * 1024), (''gbit'', 1000000000), (''tibit'', 1024 * 1024 * 1024 * 1024),
      (''tbit'', 1000000000000), (''Bps'', 8), (''KiBps'', 8 * 1024), (''KBps'', 8000),
      (''MiBps'', 8 * 1024 * 1024), (''MBps'', 8000000), (''GiBps'', 8 * 1024 * 1024 * 1024),
      (''GBps'', 8000000000), (''TiBps'', 8 * 1024 * 1024 * 1024 * 1024), (''TBps'', 8000000000000)]"

definition get_rate :: "string \<Rightarrow> u32 option" where
  "get_rate str =
     (let (bps, p) = strtod str
      in if p = str then None
         else if p = [] then Some (d_to_u32 (bps div d_of_int 8))
         else case find (\<lambda>(name, scale). strcaseeq name p) suffixes of
                Some (name, scale) \<Rightarrow> Some (d_to_u32 ((bps * d_of_int scale) div d_of_int 8))
              | None \<Rightarrow> None)"

text \<open>
  A value and a cell size behind a slash. The result is the value returned, what has been
  stored as value and as logarithm, and the argument, in which the slash is replaced by a
  NUL while the value is read; on an error before the slash is put back it stays cut.
\<close>

record valcell =
  vc_ret :: int
  vc_val :: "u32 option"
  vc_cell_log :: "nat option"
  vc_str :: string

definition value_and_cell :: "(string \<Rightarrow> u32 option) \<Rightarrow> string \<Rightarrow> valcell" where
  "value_and_cell get str =
     (case strchr str (CHR ''/'') of
        None \<Rightarrow>
          (case get str of
             None \<Rightarrow> \<lparr>vc_ret = - 1, vc_val = None, vc_cell_log = None, vc_str = str\<rparr>
           | Some v \<Rightarrow> \<lparr>vc_ret = 0, vc_val = Some v, vc_cell_log = None, vc_str = str\<rparr>)
      | Some slash \<Rightarrow>
          let pre = takeWhile (\<lambda>c. c \<noteq> CHR ''/'') str
          in case get pre of
               None \<Rightarrow> \<lparr>vc_ret = - 1, vc_val = None, vc_cell_log = None, vc_str = pre\<rparr>
             | Some v \<Rightarrow>
                 (case get_integer (tl slash) 0 of
                    None \<Rightarrow> \<lparr>vc_ret = - 1, vc_val = Some v, vc_cell_log = None, vc_str = pre\<rparr>
                  | Some cell \<Rightarrow>
                      (case find (\<lambda>i. shl32 1 i = cell) [0..<32] of
                         None \<Rightarrow> \<lparr>vc_ret = - 1, vc_val = Some v, vc_cell_log = None, vc_str = str\<rparr>
                       | Some i \<Rightarrow> \<lparr>vc_ret = 0, vc_val = Some v, vc_cell_log = Some i, vc_str = str\<rparr>)))"

definition get_rate_and_cell :: "string \<Rightarrow> valcell" where
  "get_rate_and_cell str = value_and_cell get_rate str"

definition print_rate :: "bool \<Rightarrow> nat \<Rightarrow> u32 \<Rightarrow> string" where
  "print_rate use_iec len rate =
     (let tmp = d_of_u32 rate * d_of_int 8
      in if use_iec then
           (if tmp \<ge> d_of_int (1000 * 1024 * 1024) then snprintf len (show_f 0 (tmp div d_of_int 1024 * d_of_int 1024) @ ''Mibit'')
            else if tmp \<ge> d_of_int (1000 * 1024) then snprintf len (show_f 0 (tmp div d_of_int 1024) @ ''Kibit'')
            else snprintf len (show_f 0 tmp @ ''bit''))
         else
           (if tmp \<ge> d_of_int (1000 * 1000000) then snprintf len (show_f 0 (tmp div d_of_int 1000000) @ ''Mbit'')
            else if tmp \<ge> d_of_int (1000 * 1000) then snprintf len (show_f 0 (tmp div d_of_int 1000) @ ''Kbit'')
            else snprintf len (show_f 0 tmp @ ''bit'')))"

definition sprint_rate :: "bool \<Rightarrow> u32 \<Rightarrow> string" where
  "sprint_rate use_iec rate = print_rate use_iec (SPRINT_BSIZE - 1) rate"

section \<open>Times\<close>

definition get_time :: "string \<Rightarrow> u32 option" where
  "get_time str =
     (let (t, p) = strtod str
      in if p = str then None
         else if p = [] then Some (d_to_u32 t)
         else if strcaseeq p ''s'' \<or> strcaseeq p ''sec'' \<or> strcaseeq p ''secs''
         then Some (d_to_u32 (t * d_of_int TIME_UNITS_PER_SEC))
         else if strcaseeq p ''ms'' \<or> strcaseeq p ''msec'' \<or> strcaseeq p ''msecs''
         then Some (d_to_u32 (t * d_of_int (TIME_UNITS_PER_SEC div 1000)))
         else if strcaseeq p ''us'' \<or> strcaseeq p ''usec'' \<or> strcaseeq p ''usecs''
         then Some (d_to_u32 (t * d_of_int (TIME_UNITS_PER_SEC div 1000000)))
         else None)"

definition print_time :: "nat \<Rightarrow> u32 \<Rightarrow> string" where
  "print_time len time =
     (let tmp = d_of_u32 time
      in if tmp \<ge> d_of_int TIME_UNITS_PER_SEC then snprintf len (show_f 1 (tmp div d_of_int TIME_UNITS_PER_SEC) @ ''s'')
         else if tmp \<ge> d_of_int (TIME_UNITS_PER_SEC div 1000)
         then snprintf len (show_f 1 (tmp div d_of_int (TIME_UNITS_PER_SEC div 1000)) @ ''ms'')
         else snprintf len (show_dec (unat time) @ ''us''))"

definition sprint_time :: "u32 \<Rightarrow> string" where
  "sprint_time time = print_time (SPRINT_BSIZE - 1) time"

definition sprint_ticks :: "tc_core \<Rightarrow> u32 \<Rightarrow> string" where
  "sprint_ticks st ticks = sprint_time (tc_core_tick2time st ticks)"

section \<open>Sizes\<close>

definition get_size :: "string \<Rightarrow> u32 option" where
  "get_size str =
     (let (sz, p) = strtod str
      in if p = str then None
         else if p = [] then Some (d_to_u32 sz)
         else if strcaseeq p ''kb'' \<or> strcaseeq p ''k'' then Some (d_to_u32 (sz * d_of_int 1024))
         else if strcaseeq p ''gb'' \<or> strcaseeq p ''g'' then Some (d_to_u32 (sz * d_of_int (1024 * 1024 * 1024)))
         else if strcaseeq p ''gbit'' then Some (d_to_u32 (sz * d_of_int (1024 * 1024 * 1024 div 8)))
         else if strcaseeq p ''mb'' \<or> strcaseeq p ''m'' then Some (d_to_u32 (sz * d_of_int (1024 * 1024)))
         else if strcaseeq p ''mbit'' then Some (d_to_u32 (sz * d_of_int (1024 * 1024 div 8)))
         else if strcaseeq p ''kbit'' then Some (d_to_u32 (sz * d_of_int (1024 div 8)))
         else if \<not> strcaseeq p ''b'' then None
         else Some (d_to_u32 sz))"

definition get_size_and_cell :: "string \<Rightarrow> valcell" where
  "get_size_and_cell str = value_and_cell get_size str"

definition print_size :: "nat \<Rightarrow> u32 \<Rightarrow> string" where
  "print_size len sz =
     (let tmp = d_of_u32 sz
      in if sz \<ge> 1024 * 1024
            \<and> c_fabs (d_of_int (1024 * 1024) * rint (tmp div d_of_int (1024 * 1024)) - d_of_u32 sz) < d_of_int 1024
         then snprintf len (show_g (rint (tmp div d_of_int (1024 * 1024))) @ ''Mb'')
         else if sz \<ge> 1024 \<and> c_fabs (d_of_int 1024 * rint (tmp div d_of_int 1024) - d_of_u32 sz) < d_of_int 16
         then snprintf len (show_g (rint (tmp div d_of_int 1024)) @ ''Kb'')
         else snprintf len (show_dec (unat sz) @ ''b''))"

definition sprint_size :: "u32 \<Rightarrow> string" where
  "sprint_size sz = print_size (SPRINT_BSIZE - 1) sz"

section \<open>Percentages\<close>

definition max_percent_value :: double where
  "max_percent_value = d_of_int 0xFFFFFFFF"

definition get_percent :: "string \<Rightarrow> u32 option" where
  "get_percent str =
     (let (v, p) = strtod str;
          per = v div d_of_int 100
      in if per > 1 \<or> per < 0 then None
         else if p \<noteq> [] \<and> p \<noteq> ''%'' then None
         else Some (d_to_u32 (rint (per * max_percent_value))))"

definition print_percent :: "nat \<Rightarrow> u32 \<Rightarrow> string" where
  "print_percent len per = snprintf len (show_g (d_of_int 100 * d_of_u32 per div max_percent_value) @ ''%'')"

definition sprint_percent :: "u32 \<Rightarrow> string" where
  "sprint_percent per = print_percent (SPRINT_BSIZE - 1) per"

section \<open>Actions and link layers\<close>

definition TC_ACT_OK :: s32 where "TC_ACT_OK = 0"
definition TC_ACT_RECLASSIFY :: s32 where "TC_ACT_RECLASSIFY = 1"
definition TC_ACT_SHOT :: s32 where "TC_ACT_SHOT = 2"
definition TC_ACT_PIPE :: s32 where "TC_ACT_PIPE = 3"
definition TC_ACT_STOLEN :: s32 where "TC_ACT_STOLEN = 4"

definition action_n2a :: "s32 \<Rightarrow> nat \<Rightarrow> string" where
  "action_n2a action len =
     (if action = - 1 then ''continue''
      else if action = TC_ACT_OK then ''pass''
      else if action = TC_ACT_SHOT then ''drop''
      else if action = TC_ACT_RECLASSIFY then ''reclassify''
      else if action = TC_ACT_PIPE then ''pipe''
      else if action = TC_ACT_STOLEN then ''stolen''
      else snprintf len (show_int (sint action)))"

text \<open>\<open>sscanf\<close> with \<open>%d%c\<close> fills one field exactly when a number ends the text.\<close>

definition action_a2n :: "string \<Rightarrow> s32 option" where
  "action_a2n arg =
     (if matches arg ''continue'' = 0 then Some (- 1)
      else if matches arg ''drop'' = 0 then Some TC_ACT_SHOT
      else if matches arg ''shot'' = 0 then Some TC_ACT_SHOT
      else if matches arg ''pass'' = 0 then Some TC_ACT_OK
      else if arg = ''ok'' then Some TC_ACT_OK
      else if matches arg ''reclassify'' = 0 then Some TC_ACT_RECLASSIFY
      else let (v, rest) = strtol arg 10 in if rest \<noteq> arg \<and> rest = [] then Some (ucast v) else None)"

definition get_linklayer :: "string \<Rightarrow> u32 option" where
  "get_linklayer arg =
     (if matches arg ''ethernet'' = 0 then Some LINKLAYER_ETHERNET
      else if matches arg ''atm'' = 0 then Some LINKLAYER_ATM
      else if matches arg ''adsl'' = 0 then Some LINKLAYER_ATM
      else None)"

definition print_linklayer :: "nat \<Rightarrow> u32 \<Rightarrow> string" where
  "print_linklayer len linklayer =
     snprintf len
       (if linklayer = LINKLAYER_UNSPEC then ''unspec''
        else if linklayer = LINKLAYER_ETHERNET then ''ethernet''
        else if linklayer = LINKLAYER_ATM then ''atm''
        else ''unknown'')"

definition sprint_linklayer :: "u32 \<Rightarrow> string" where
  "sprint_linklayer linklayer = print_linklayer (SPRINT_BSIZE - 1) linklayer"

section \<open>Statistics\<close>

record tcf_t =
  t_install :: u64
  t_lastuse :: u64
  t_expires :: u64

text \<open>\<open>hz\<close> is the clock rate of user space, a positive number.\<close>

definition print_tm :: "nat \<Rightarrow> tcf_t \<Rightarrow> string" where
  "print_tm hz tm =
     (let secs = (\<lambda>t. show_dec (unat (ucast (t div word_of_nat hz) :: u32)))
      in (if t_install tm \<noteq> 0 then '' installed '' @ secs (t_install tm) @ '' sec'' else [])
       @ (if t_lastuse tm \<noteq> 0 then '' used '' @ secs (t_lastuse tm) @ '' sec'' else [])
       @ (if t_expires tm \<noteq> 0 then '' expires '' @ secs (t_expires tm) @ '' sec'' else []))"

text \<open>
  A structure of \<open>n\<close> bytes, zeroed and filled with as much as the attribute holds; the field
  at an offset, in decimal.
\<close>

definition rta_struct :: "nat \<Rightarrow> u8 list \<Rightarrow> u8 list" where
  "rta_struct n rta =
     (let bs = take (min (nat (RTA_PAYLOAD rta)) n) (RTA_DATA rta) in bs @ replicate (n - length bs) 0)"

definition field32 :: "nat \<Rightarrow> u8 list \<Rightarrow> u32" where
  "field32 off bs = le32 (drop off bs)"

definition show_u32 :: "u32 \<Rightarrow> string" where
  "show_u32 w = show_dec (unat w)"

definition TCA_OPTIONS :: u16 where "TCA_OPTIONS = 2"
definition TCA_STATS_BASIC :: nat where "TCA_STATS_BASIC = 1"
definition TCA_STATS_RATE_EST :: nat where "TCA_STATS_RATE_EST = 2"
definition TCA_STATS_QUEUE :: nat where "TCA_STATS_QUEUE = 3"
definition TCA_STATS_APP :: nat where "TCA_STATS_APP = 4"
definition TCA_STATS_MAX :: nat where "TCA_STATS_MAX = 4"

text \<open>The text, and the attribute \<open>*xstats\<close> is set to when the caller asks for it.\<close>

definition print_tcstats2_attr :: "bool \<Rightarrow> u8 list \<Rightarrow> string \<Rightarrow> string \<times> u8 list option" where
  "print_tcstats2_attr use_iec rta indent =
     (let tbs = fst (parse_rtattr_nested TCA_STATS_MAX rta);
          basic = (case tbs ! TCA_STATS_BASIC of
                     None \<Rightarrow> []
                   | Some a \<Rightarrow> let bs = rta_struct 16 a
                       in indent @ ''Sent '' @ show_dec (unat (le64 bs)) @ '' bytes '' @ show_u32 (field32 8 bs) @ '' pkt'');
          queue = (case tbs ! TCA_STATS_QUEUE of
                     None \<Rightarrow> []
                   | Some a \<Rightarrow> let q = rta_struct 20 a
                       in '' (dropped '' @ show_u32 (field32 8 q) @ '', overlimits '' @ show_u32 (field32 16 q)
                          @ '' requeues '' @ show_u32 (field32 12 q) @ '') '');
          rate = (case tbs ! TCA_STATS_RATE_EST of
                    None \<Rightarrow> []
                  | Some a \<Rightarrow> let re = rta_struct 8 a
                      in [CHR 0x0A] @ indent @ ''rate '' @ sprint_rate use_iec (field32 0 re) @ '' ''
                         @ show_u32 (field32 4 re) @ ''pps '');
          backlog = (case tbs ! TCA_STATS_QUEUE of
                       None \<Rightarrow> []
                     | Some a \<Rightarrow> let q = rta_struct 20 a
                         in (if tbs ! TCA_STATS_RATE_EST = None then [CHR 0x0A] @ indent else [])
                            @ ''backlog '' @ sprint_size (field32 4 q) @ '' '' @ show_u32 (field32 0 q)
                            @ ''p requeues '' @ show_u32 (field32 12 q) @ '' '')
      in (basic @ queue @ rate @ backlog, tbs ! TCA_STATS_APP))"

text \<open>
  The attributes the kernel sent: \<open>TCA_STATS2\<close>, the old \<open>TCA_STATS\<close> and \<open>TCA_XSTATS\<close>. \<open>want\<close>
  tells that the caller passes a place for the specific statistics; the second component
  is its new content when it is written.
\<close>

record tc_attrs =
  a_STATS :: "u8 list option"
  a_XSTATS :: "u8 list option"
  a_STATS2 :: "u8 list option"

definition print_tc_stats :: "bool \<Rightarrow> u8 list \<Rightarrow> string \<Rightarrow> string" where
  "print_tc_stats use_iec a indent =
     (let st = rta_struct 40 a;
          bps = field32 20 st; pps = field32 24 st; qlen = field32 28 st; backlog = field32 32 st
      in indent @ ''Sent '' @ show_dec (unat (le64 st)) @ '' bytes '' @ show_u32 (field32 8 st)
         @ '' pkts (dropped '' @ show_u32 (field32 12 st) @ '', overlimits '' @ show_u32 (field32 16 st) @ '') ''
         @ (if bps \<noteq> 0 \<or> pps \<noteq> 0 \<or> qlen \<noteq> 0 \<or> backlog \<noteq> 0 then
              [CHR 0x0A] @ indent
              @ (if bps \<noteq> 0 \<or> pps \<noteq> 0 then
                   ''rate '' @ (if bps \<noteq> 0 then sprint_rate use_iec bps @ '' '' else [])
                   @ (if pps \<noteq> 0 then show_u32 pps @ ''pps '' else []) else [])
              @ (if qlen \<noteq> 0 \<or> backlog \<noteq> 0 then
                   ''backlog '' @ (if backlog \<noteq> 0 then sprint_size backlog @ '' '' else [])
                   @ (if qlen \<noteq> 0 then show_u32 qlen @ ''p '' else []) else [])
            else []))"

definition print_tcstats_attr :: "bool \<Rightarrow> tc_attrs \<Rightarrow> string \<Rightarrow> bool \<Rightarrow> string \<times> u8 list option option" where
  "print_tcstats_attr use_iec tb indent want =
     (let compat = (\<lambda>x. if a_XSTATS tb \<noteq> None \<and> want then Some (a_XSTATS tb) else x)
      in case a_STATS2 tb of
           Some a \<Rightarrow>
             (let (out, x) = print_tcstats2_attr use_iec a indent
              in (out, if want then if x = None then compat (Some None) else Some x else None))
         | None \<Rightarrow>
             (case a_STATS tb of
                Some a \<Rightarrow> (print_tc_stats use_iec a indent, compat None)
              | None \<Rightarrow> ([], compat None)))"

section \<open>Handles are read as they are printed\<close>

lemma colon_no_digit: "\<not> is_digit 16 (CHR '':'')" "\<not> c_isspace (CHR '':'')"
  by (simp_all add: is_digit_def digit_val_def c_isspace_def)

lemma strtoul_show_hex:
  assumes "n < 2 ^ 16" "rest = [] \<or> hd rest = CHR '':''"
  shows "strtoul (show_hex n @ rest) 16 = (word_of_nat n, rest)"
proof -
  have "rest = [] \<or> \<not> is_digit 16 (hd rest) \<and> hd rest \<noteq> CHR ''x'' \<and> hd rest \<noteq> CHR ''X''"
    using assms(2) colon_no_digit by auto
  from strto_mag_show [OF _ _ this] assms(1) show ?thesis by (simp add: strtoul_def)
qed

lemma strtoul_colon: "strtoul (CHR '':'' # s) 16 = (0, CHR '':'' # s)" "strtoul [] 16 = (0, [])"
proof -
  have "\<not> has_hex (CHR '':'' # s)" by (cases "CHR '':'' # s" rule: has_hex.cases) auto
  then show "strtoul (CHR '':'' # s) 16 = (0, CHR '':'' # s)" "strtoul [] 16 = (0, [])"
    using colon_no_digit by (simp_all add: strtoul_def strto_mag_def take_sign_def num_prefix_def)
qed

lemma show_hex_words: "show_hex n @ rest \<noteq> ''root''" "show_hex n @ rest \<noteq> ''none''"
proof -
  have "list_all (is_digit 16) (show_hex n)" by (rule show_base_digits) simp_all
  then have d: "is_digit 16 (hd (show_hex n @ rest))" by (cases "show_hex n") auto
  show "show_hex n @ rest \<noteq> ''root''" "show_hex n @ rest \<noteq> ''none''"
    by (rule notI, use d in \<open>simp only:, simp add: is_digit_def digit_val_def\<close>)+
qed

lemma handle_parts:
  "unat (drop_bit 16 (TC_H_MAJ h)) < 2 ^ 16" "unat (TC_H_MIN h) < 2 ^ 16"
  "push_bit 16 (drop_bit 16 (TC_H_MAJ h)) = TC_H_MAJ h" "TC_H_MAJ h OR TC_H_MIN h = h"
proof -
  have m: "TC_H_MIN h = take_bit 16 h" by (simp add: TC_H_MIN_def take_bit_eq_mask mask_eq_exp_minus_1)
  have c: "(0xFFFF0000 :: u32) = push_bit 16 (mask 16)" by (simp add: mask_eq_exp_minus_1 push_bit_eq_mult)
  have M: "TC_H_MAJ h = push_bit 16 (drop_bit 16 h)"
    unfolding TC_H_MAJ_def c by (rule bit_word_eqI) (auto simp: bit_simps)
  show "push_bit 16 (drop_bit 16 (TC_H_MAJ h)) = TC_H_MAJ h" "TC_H_MAJ h OR TC_H_MIN h = h"
    unfolding m M by (rule bit_word_eqI, auto simp: bit_simps)+
  have "drop_bit 16 (TC_H_MAJ h) = take_bit 16 (drop_bit 16 h)"
    unfolding M by (rule bit_word_eqI) (auto simp: bit_simps)
  then show "unat (drop_bit 16 (TC_H_MAJ h)) < 2 ^ 16" "unat (TC_H_MIN h) < 2 ^ 16"
    unfolding m by (simp_all only: unsigned_take_bit_eq take_bit_nat_less_exp)
qed

lemma classid_reads:
  assumes "10 \<le> len"
  shows "get_tc_classid (print_tc_classid len h) = Some h
    \<and> get_qdisc_handle (print_qdisc_handle len h) = Some (TC_H_MAJ h)"
proof -
  define M where "M = drop_bit 16 (TC_H_MAJ h)"
  define m where "m = TC_H_MIN h"
  note hp = handle_parts [of h, folded M_def m_def]
  have len: "length (show_hex (unat M)) \<le> 4" "length (show_hex (unat m)) \<le> 4"
    using hp(1,2) by (auto intro!: length_show_base [where k = 3, simplified])
  have b: "\<not> 0x10000 \<le> M" "\<not> 0x10000 \<le> m" using hp(1,2) by (simp_all add: word_le_nat_alt)
  have q: "get_qdisc_handle (print_qdisc_handle len h) = Some (TC_H_MAJ h)"
    using assms len hp(1,3) show_hex_words [of "unat M"] strtoul_show_hex [of "unat M" "'':''"]
    by (simp add: get_qdisc_handle_def print_qdisc_handle_def snprintf_def M_def [symmetric])
  have h: "push_bit 16 M OR m = h" using hp(3,4) by simp
  have z: "TC_H_MAJ h = 0 \<longleftrightarrow> M = 0" using hp(3) by (auto simp: M_def)
  consider "h = TC_H_ROOT" | "h \<noteq> TC_H_ROOT" "h = 0" | "h \<noteq> TC_H_ROOT" "h \<noteq> 0" "M = 0"
    | "h \<noteq> TC_H_ROOT" "h \<noteq> 0" "M \<noteq> 0" "m = 0" | "h \<noteq> TC_H_ROOT" "h \<noteq> 0" "M \<noteq> 0" "m \<noteq> 0"
    by blast
  then have "get_tc_classid (print_tc_classid len h) = Some h"
  proof cases
    case 3
    with assms len(2) h b(2) strtoul_colon(1) [of "show_hex (unat m)"] strtoul_show_hex [OF hp(2), of "[]"] show ?thesis
      by (simp add: get_tc_classid_def print_tc_classid_def snprintf_def z TC_H_UNSPEC_def m_def [symmetric])
  next
    case 4
    with assms len(1) h b(1) strtoul_colon(2) show_hex_words [of "unat M" "'':''"] strtoul_show_hex [OF hp(1), of "'':''"] show ?thesis
      by (simp add: get_tc_classid_def print_tc_classid_def snprintf_def z TC_H_UNSPEC_def m_def [symmetric] M_def [symmetric])
  next
    case 5
    with assms len h b show_hex_words [of "unat M" "CHR '':'' # show_hex (unat m)"]
      strtoul_show_hex [OF hp(1), of "CHR '':'' # show_hex (unat m)"] strtoul_show_hex [OF hp(2), of "[]"] show ?thesis
      by (simp add: get_tc_classid_def print_tc_classid_def snprintf_def z TC_H_UNSPEC_def m_def [symmetric] M_def [symmetric])
  qed (use assms in \<open>simp_all add: get_tc_classid_def print_tc_classid_def TC_H_ROOT_def TC_H_UNSPEC_def snprintf_def\<close>)
  with q show ?thesis by simp
qed

text \<open>
  C25: a class identifier printed with room for nine characters reads back as the same
  identifier, and a printed queueing discipline handle reads back as the major number.
\<close>
theorem handle_roundtrip:
  assumes "10 \<le> len"
  shows "get_tc_classid (print_tc_classid len h) = Some h
    \<and> get_qdisc_handle (print_qdisc_handle len h) = Some (TC_H_MAJ h)"
  by (rule classid_reads [OF assms])

theorem handle_roundtrip_witness:
  "get_tc_classid (print_tc_classid 63 0x10002) = Some 0x10002 \<and> get_qdisc_handle (print_qdisc_handle 63 0x10002) = Some (TC_H_MAJ 0x10002)"
  using handle_roundtrip [of 63 "0x10002"] by simp

end
