(* ===== verification/Tc_Stab.thy ===== *)
theory Tc_Stab
  imports Tc_Util
begin

text \<open>
  The options of a size table (\<open>tc/tc_stab.c\<close>): reading them from the command line, and
  printing what the kernel reports.
\<close>

definition stab_help :: string where
  "stab_help =
     ''Usage: ... stab [ mtu BYTES ] [ tsize SLOTS ] [ mpu BYTES ] '' @ [CHR 0x0A]
     @ ''                [ overhead BYTES ] [ linklayer TYPE ] ...'' @ [CHR 0x0A]
     @ ''   mtu       : max packet size we create rate map for {2047}'' @ [CHR 0x0A]
     @ ''   tsize     : how many slots should size table have {512}'' @ [CHR 0x0A]
     @ ''   mpu       : minimum packet size used in rate computations'' @ [CHR 0x0A]
     @ ''   overhead  : per-packet size overhead used in rate computations'' @ [CHR 0x0A]
     @ ''   linklayer : adapting to a linklayer e.g. atm'' @ [CHR 0x0A]
     @ ''Example: ... stab overhead 20 linklayer atm'' @ [CHR 0x0A]"

definition zero_sizespec :: tc_sizespec where
  "zero_sizespec = \<lparr>s_cell_log = 0, s_size_log = 0, s_cell_align = 0, s_overhead = 0, s_linklayer = 0,
     s_mpu = 0, s_mtu = 0, s_tsize = 0\<rparr>"

definition check_size_table_opts :: "tc_sizespec \<Rightarrow> bool" where
  "check_size_table_opts s \<longleftrightarrow> s_linklayer s \<ge> LINKLAYER_ETHERNET \<or> s_mpu s \<noteq> 0 \<or> s_overhead s \<noteq> 0"

text \<open>
  One option with its argument: a value that is already there is a duplicate, an argument
  that is not a number ends the process; the name goes where the message of \<open>invarg\<close> expects
  a text, as in the code.
\<close>

definition stab_store :: "string \<Rightarrow> string \<Rightarrow> bool \<Rightarrow> 'v option \<Rightarrow> ('v \<Rightarrow> tc_sizespec) \<Rightarrow> string \<Rightarrow> tc_sizespec cli" where
  "stab_store name problem present val upd arg =
     (if present then duparg name arg
      else case val of None \<Rightarrow> invarg name problem | Some v \<Rightarrow> Ret (upd v))"

definition stab_option :: "string \<Rightarrow> tc_sizespec \<Rightarrow> (string \<Rightarrow> tc_sizespec cli) option" where
  "stab_option kw s =
     (if matches kw ''mtu'' = 0 then
        Some (\<lambda>a. stab_store ''mtu'' ''invalid mtu'' (s_mtu s \<noteq> 0) (get_u32 a 10) (\<lambda>v. s\<lparr>s_mtu := v\<rparr>) a)
      else if matches kw ''mpu'' = 0 then
        Some (\<lambda>a. stab_store ''mpu'' ''invalid mpu'' (s_mpu s \<noteq> 0) (get_u32 a 10) (\<lambda>v. s\<lparr>s_mpu := v\<rparr>) a)
      else if matches kw ''overhead'' = 0 then
        Some (\<lambda>a. stab_store ''overhead'' ''invalid overhead'' (s_overhead s \<noteq> 0) (get_integer a 10) (\<lambda>v. s\<lparr>s_overhead := v\<rparr>) a)
      else if matches kw ''tsize'' = 0 then
        Some (\<lambda>a. stab_store ''tsize'' ''invalid table size'' (s_tsize s \<noteq> 0) (get_u32 a 10) (\<lambda>v. s\<lparr>s_tsize := v\<rparr>) a)
      else if matches kw ''linklayer'' = 0 then
        Some (\<lambda>a. stab_store ''linklayer'' ''invalid linklayer'' (s_linklayer s \<noteq> LINKLAYER_UNSPEC) (get_linklayer a)
               (\<lambda>v. s\<lparr>s_linklayer := v\<rparr>) a)
      else None)"

text \<open>The loop stops at the first word that is no option: the specification and the words left.\<close>

function stab_args :: "string list \<Rightarrow> tc_sizespec \<Rightarrow> (tc_sizespec \<times> string list) cli" where
  "stab_args argv s =
     (case argv of
        [] \<Rightarrow> Ret (s, [])
      | kw # _ \<Rightarrow>
          (case stab_option kw s of
             None \<Rightarrow> Ret (s, argv)
           | Some store \<Rightarrow>
               (case NEXT_ARG argv of
                  Exit status msg \<Rightarrow> Exit status msg
                | Ret argv2 \<Rightarrow>
                    (case store (hd argv2) of
                       Exit status msg \<Rightarrow> Exit status msg
                     | Ret s \<Rightarrow> stab_args (tl argv2) s))))"
  by pat_completeness auto

termination
  by (relation "measure (\<lambda>(argv, _). length argv)") (use NEXT_ARG_shorter in \<open>fastforce simp: less_Suc_eq_le\<close>)+

declare stab_args.simps [simp del]

text \<open>
  The arguments start at the word \<open>stab\<close> itself. The result is the value returned, what was
  printed, and on success the specification and the words left.
\<close>

definition parse_size_table :: "string list \<Rightarrow> (int \<times> string \<times> (tc_sizespec \<times> string list) option) cli" where
  "parse_size_table argv =
     (case NEXT_ARG argv of
        Exit status msg \<Rightarrow> Exit status msg
      | Ret argv \<Rightarrow>
          if matches (hd argv) ''help'' = 0 then Ret (- 1, stab_help, None)
          else case stab_args argv zero_sizespec of
                 Exit status msg \<Rightarrow> Exit status msg
               | Ret (s, argv) \<Rightarrow>
                   if \<not> check_size_table_opts s then Ret (- 1, [], None) else Ret (0, [], Some (s, argv)))"

definition TCA_STAB_BASE :: nat where "TCA_STAB_BASE = 1"
definition TCA_STAB_MAX :: nat where "TCA_STAB_MAX = 2"

definition print_size_table :: "string \<Rightarrow> u8 list \<Rightarrow> string" where
  "print_size_table indent rta =
     (case fst (parse_rtattr_nested TCA_STAB_MAX rta) ! TCA_STAB_BASE of
        None \<Rightarrow> []
      | Some a \<Rightarrow>
          let s = rta_struct 24 a;
              overhead = field32 4 s; linklayer = field32 8 s; mpu = field32 12 s; mtu = field32 16 s; tsize = field32 20 s
          in indent
             @ (if linklayer \<noteq> 0 then ''linklayer '' @ sprint_linklayer linklayer @ '' '' else [])
             @ (if overhead \<noteq> 0 then ''overhead '' @ show_int (sint overhead) @ '' '' else [])
             @ (if mpu \<noteq> 0 then ''mpu '' @ show_u32 mpu @ '' '' else [])
             @ (if mtu \<noteq> 0 then ''mtu '' @ show_u32 mtu @ '' '' else [])
             @ (if tsize \<noteq> 0 then ''tsize '' @ show_u32 tsize @ '' '' else []))"

section \<open>What is accepted\<close>

text \<open>
  An option changes one field of the specification and nothing else; a specification that
  was accepted asks for something.
\<close>

lemma stab_option_keeps:
  assumes "stab_option kw s = Some store" "store a = Ret s'"
  shows "s_cell_log s' = s_cell_log s \<and> s_size_log s' = s_size_log s \<and> s_cell_align s' = s_cell_align s"
  using assms
  by (auto simp: stab_option_def stab_store_def duparg_def invarg_def split: if_splits option.splits)

text \<open>A run of the loop ends at once, or reads one option and goes on.\<close>

lemma stab_args_step:
  assumes "stab_args argv s = Ret (s', rest)"
  obtains "s' = s" "rest = argv"
  | kw tl' store argv2 s2 where "argv = kw # tl'" "stab_option kw s = Some store" "NEXT_ARG argv = Ret argv2"
      "store (hd argv2) = Ret s2" "stab_args (tl argv2) s2 = Ret (s', rest)"
  using assms by (subst (asm) stab_args.simps) (auto split: list.splits option.splits cli.splits)

lemma stab_args_keeps:
  "stab_args argv s = Ret (s', rest) \<Longrightarrow>
    s_cell_log s' = s_cell_log s \<and> s_size_log s' = s_size_log s \<and> s_cell_align s' = s_cell_align s"
proof (induction argv s rule: stab_args.induct)
  case (1 argv s)
  from "1.prems" show ?case
  proof (cases rule: stab_args_step)
    case (2 kw tl' store argv2 s2)
    from "1.IH" [OF 2] stab_option_keeps [OF 2(2,4)] show ?thesis by simp
  qed simp
qed

lemma stab_args_shorter: "stab_args argv s = Ret (s', rest) \<Longrightarrow> length rest \<le> length argv"
proof (induction argv s rule: stab_args.induct)
  case (1 argv s)
  from "1.prems" show ?case
  proof (cases rule: stab_args_step)
    case (2 kw tl' store argv2 s2)
    from "1.IH" [OF 2] NEXT_ARG_shorter [OF 2(3)] show ?thesis by simp
  qed simp
qed

lemma parse_size_table_shorter:
  "parse_size_table argv = Ret (r, err, Some (s, rest)) \<Longrightarrow> length rest < length argv"
  by (auto simp: parse_size_table_def split: cli.splits if_splits prod.splits dest!: NEXT_ARG_shorter stab_args_shorter)

lemma parse_size_table_ok:
  assumes "parse_size_table argv = Ret (0, out, Some (s, rest))"
  shows "check_size_table_opts s" "s_size_log s = 0"
  using assms stab_args_keeps
  by (force simp: parse_size_table_def zero_sizespec_def split: cli.splits if_splits)+

end
