(* ===== verification/Netlink_Talk.thy ===== *)
theory Netlink_Talk
  imports Netlink_Attr
begin

text \<open>
  The message loops of \<open>lib/libnetlink.c\<close>: requests, \<open>rtnl_talk\<close>, \<open>rtnl_dump_filter_l\<close>,
  \<open>rtnl_listen\<close> and \<open>rtnl_send_check\<close>. What \<open>recvmsg\<close> delivers is a list of events; a loop that
  has used them up waits for more. The handlers are functions on a state of the caller.
  Messages printed on standard error and the value of \<open>errno\<close> are not part of the result.
\<close>

section \<open>Message headers\<close>

definition NLMSG_HDR :: int where "NLMSG_HDR = 16"
definition NLMSG_ERROR :: u16 where "NLMSG_ERROR = 2"
definition NLMSG_DONE :: u16 where "NLMSG_DONE = 3"
definition NLM_F_REQUEST :: u16 where "NLM_F_REQUEST = 1"
definition NLM_F_ACK :: u16 where "NLM_F_ACK = 4"
definition NLM_F_DUMP :: u16 where "NLM_F_DUMP = 0x300"

text \<open>The fields of the header a byte sequence starts with.\<close>

definition h_len :: "u8 list \<Rightarrow> u32" where "h_len h = le32 (take 4 h)"
definition h_type :: "u8 list \<Rightarrow> u16" where "h_type h = le16 (take 2 (drop 4 h))"
definition h_seq :: "u8 list \<Rightarrow> u32" where "h_seq h = le32 (take 4 (drop 8 h))"
definition h_pid :: "u8 list \<Rightarrow> u32" where "h_pid h = le32 (take 4 (drop 12 h))"

text \<open>The field \<open>error\<close> of the error message after a header.\<close>

definition h_error :: "u8 list \<Rightarrow> u32" where "h_error h = le32 (take 4 (drop 16 h))"

definition nlmsghdr_bytes :: "u32 \<Rightarrow> u16 \<Rightarrow> u16 \<Rightarrow> u32 \<Rightarrow> u32 \<Rightarrow> u8 list" where
  "nlmsghdr_bytes len type fl seq pid =
     le32_bytes len @ le16_bytes type @ le16_bytes fl @ le32_bytes seq @ le32_bytes pid"

definition NLMSG_OK :: "u8 list \<Rightarrow> int \<Rightarrow> bool" where
  "NLMSG_OK h len \<longleftrightarrow> 16 \<le> len \<and> 16 \<le> uint (h_len h) \<and> uint (h_len h) \<le> len"

abbreviation h_space :: "u8 list \<Rightarrow> nat" where
  "h_space h \<equiv> NLMSG_ALIGN (unat (h_len h))"

section \<open>The handle and requests\<close>

record rtnl_handle =
  rh_pid :: u32
  rh_seq :: u32
  rh_dump :: u32

text \<open>The bytes sent, and the handle with the new sequence number.\<close>

definition rtnl_wilddump_request :: "rtnl_handle \<Rightarrow> u8 \<Rightarrow> u16 \<Rightarrow> u8 list \<times> rtnl_handle" where
  "rtnl_wilddump_request rth fam type =
     (let rth = rth\<lparr>rh_seq := rh_seq rth + 1\<rparr>;
          rth = rth\<lparr>rh_dump := rh_seq rth\<rparr>
      in (nlmsghdr_bytes 20 type (NLM_F_DUMP OR NLM_F_REQUEST) (rh_seq rth) 0 @ [fam, 0, 0, 0], rth))"

definition rtnl_dump_request :: "rtnl_handle \<Rightarrow> u16 \<Rightarrow> u8 list \<Rightarrow> u8 list \<times> rtnl_handle" where
  "rtnl_dump_request rth type req =
     (let rth = rth\<lparr>rh_seq := rh_seq rth + 1\<rparr>;
          rth = rth\<lparr>rh_dump := rh_seq rth\<rparr>
      in (nlmsghdr_bytes (word_of_nat (length req + 16)) type (NLM_F_DUMP OR NLM_F_REQUEST) (rh_seq rth) 0 @ req, rth))"

section \<open>Events and outcomes\<close>

record datagram =
  d_pid :: u32
  d_namelen :: nat
  d_trunc :: bool
  d_bytes :: "u8 list"

datatype event = Recv_error int | Recv datagram

datatype 'r outcome = Returned int 'r | Exited int | Waiting

definition EINTR :: int where "EINTR = 4"
definition EAGAIN :: int where "EAGAIN = 11"
definition ENOBUFS :: int where "ENOBUFS = 105"

text \<open>A datagram at the start of the receive buffer; what it does not cover stays.\<close>

definition fill :: "u8 list \<Rightarrow> u8 list \<Rightarrow> u8 list" where
  "fill bytes buf = bytes @ drop (length bytes) buf"

section \<open>Request and answer\<close>

text \<open>A message takes more bytes than its header.\<close>

lemma uint_ge_numeral: "numeral k \<le> uint w \<longleftrightarrow> numeral k \<le> unat w"
  by (subst uint_nat) (metis of_nat_le_iff of_nat_numeral)

lemma h_space_pos:
  assumes "16 \<le> sint (h_len h)"
  shows "16 \<le> h_space h" "int (unat (h_len h)) = sint (h_len h)" "sint (h_len h) \<le> int (h_space h)"
proof -
  have "sint (h_len h) < 2 ^ 31"
    using signed_take_bit_int_less_exp [of 31 "uint (h_len h)"] by (simp add: sint_uint)
  then have "take_bit 32 (sint (h_len h)) = sint (h_len h)" using assms by (simp add: take_bit_int_eq_self)
  then have "uint (h_len h) = sint (h_len h)" by (simp add: uint_sint)
  then show u: "int (unat (h_len h)) = sint (h_len h)" by simp
  have "unat (h_len h) \<le> h_space h" using RTA_ALIGN_ge by (simp add: NLMSG_ALIGN_def RTA_ALIGN_def)
  then show "sint (h_len h) \<le> int (h_space h)" "16 \<le> h_space h" using u assms by linarith+
qed

lemma talk_decreases: "\<not> sint (h_len h) < 16 \<Longrightarrow> 0 < h_space h"
  using h_space_pos(1) [of h] by simp

text \<open>
  What the messages of one datagram lead to: an end of the loop, an end of the process, or
  the number of bytes left over.
\<close>

datatype talk_result = Done int "u8 list option" | Died int | Rest int

text \<open>
  The inner loop of \<open>rtnl_talk\<close>. The test of the loop compares the signed count with an
  unsigned size, so a negative count, left by a last message without padding, passes it.
\<close>

function talk_msgs :: "bool \<Rightarrow> bool \<Rightarrow> (u8 list \<Rightarrow> bool) \<Rightarrow> (u8 list \<Rightarrow> 's \<Rightarrow> int \<times> 's) option \<Rightarrow>
    u8 list \<Rightarrow> int \<Rightarrow> 's \<Rightarrow> talk_result \<times> 's" where
  "talk_msgs trunc answer mine junk h status s =
     (if 16 \<le> status \<or> status < 0 then
        let len = sint (h_len h);
            l = len - 16
        in if l < 0 \<or> len > status then (if trunc then Done (- 1) None else Died 1, s)
           else if \<not> mine h then
             (case junk of
                None \<Rightarrow> talk_msgs trunc answer mine junk (drop (h_space h) h) (status - int (h_space h)) s
              | Some j \<Rightarrow>
                  let (err, s) = j h s
                  in if err < 0 then (Done err None, s)
                     else talk_msgs trunc answer mine junk (drop (h_space h) h) (status - int (h_space h)) s)
           else if h_type h = NLMSG_ERROR then
             (if l < 20 then (Done (- 1) None, s)
              else if h_error h = 0 then (Done 0 (if answer then Some (take (nat len) h) else None), s)
              else (Done (- 1) None, s))
           else if answer then (Done 0 (Some (take (nat len) h)), s)
           else talk_msgs trunc answer mine junk (drop (h_space h) h) (status - int (h_space h)) s
      else (Rest status, s))"
  by pat_completeness auto

termination
proof (relation "measure (\<lambda>(_, _, _, _, _, status, _). nat status)", goal_cases)
  case 1
  show ?case by simp
qed (auto intro!: talk_decreases)

declare talk_msgs.simps [simp del]

text \<open>
  The outer loop. \<open>buf\<close> is the receive buffer of 16384 bytes, cleared before the loop.
\<close>

fun talk_recv :: "bool \<Rightarrow> (u32 \<Rightarrow> u8 list \<Rightarrow> bool) \<Rightarrow> (u8 list \<Rightarrow> 's \<Rightarrow> int \<times> 's) option \<Rightarrow>
    event list \<Rightarrow> u8 list \<Rightarrow> 's \<Rightarrow> u8 list option outcome \<times> 's" where
  "talk_recv answer mine junk [] buf s = (Waiting, s)"
| "talk_recv answer mine junk (Recv_error errno # es) buf s =
     (if errno = EINTR \<or> errno = EAGAIN then talk_recv answer mine junk es buf s else (Returned (- 1) None, s))"
| "talk_recv answer mine junk (Recv d # es) buf s =
     (if d_bytes d = [] then (Returned (- 1) None, s)
      else if d_namelen d \<noteq> 12 then (Exited 1, s)
      else let buf = fill (d_bytes d) buf
           in case talk_msgs (d_trunc d) answer (mine (d_pid d)) junk buf (int (length (d_bytes d))) s of
                (Done r a, s) \<Rightarrow> (Returned r a, s)
              | (Died c, s) \<Rightarrow> (Exited c, s)
              | (Rest status, s) \<Rightarrow>
                  if d_trunc d then talk_recv answer mine junk es buf s
                  else if status \<noteq> 0 then (Exited 1, s)
                  else talk_recv answer mine junk es buf s)"

text \<open>
  \<open>rtnl_talk\<close>: the message goes out with the next sequence number, with a request for an
  acknowledgement when no answer is wanted. \<open>sent\<close> says whether \<open>sendmsg\<close> succeeds. The flags
  of the message are returned with the sequence number written into it.
\<close>

definition rtnl_talk :: "rtnl_handle \<Rightarrow> u16 \<Rightarrow> u32 \<Rightarrow> bool \<Rightarrow> (u8 list \<Rightarrow> 's \<Rightarrow> int \<times> 's) option \<Rightarrow> bool \<Rightarrow>
    event list \<Rightarrow> 's \<Rightarrow> u8 list option outcome \<times> rtnl_handle \<times> u16 \<times> 's" where
  "rtnl_talk rth fl peer answer junk sent es s =
     (let rth = rth\<lparr>rh_seq := rh_seq rth + 1\<rparr>;
          seq = rh_seq rth;
          fl = (if answer then fl else fl OR NLM_F_ACK);
          mine = (\<lambda>pid h. \<not> (pid \<noteq> peer \<or> h_pid h \<noteq> rh_pid rth \<or> h_seq h \<noteq> seq))
      in if \<not> sent then (Returned (- 1) None, rth, fl, s)
         else case talk_recv answer mine junk es (replicate 16384 0) s of (r, s) \<Rightarrow> (r, rth, fl, s))"

section \<open>Listening\<close>

function listen_msgs :: "bool \<Rightarrow> (u8 list \<Rightarrow> 's \<Rightarrow> int \<times> 's) \<Rightarrow> u8 list \<Rightarrow> int \<Rightarrow> 's \<Rightarrow> talk_result \<times> 's" where
  "listen_msgs trunc handler h status s =
     (if 16 \<le> status \<or> status < 0 then
        let len = sint (h_len h);
            l = len - 16
        in if l < 0 \<or> len > status then (if trunc then Done (- 1) None else Died 1, s)
           else let (err, s) = handler h s
                in if err < 0 then (Done err None, s)
                   else listen_msgs trunc handler (drop (h_space h) h) (status - int (h_space h)) s
      else (Rest status, s))"
  by pat_completeness auto

termination
proof (relation "measure (\<lambda>(_, _, _, status, _). nat status)", goal_cases)
  case 1
  show ?case by simp
qed (auto intro!: talk_decreases)

declare listen_msgs.simps [simp del]

fun rtnl_listen :: "(u8 list \<Rightarrow> 's \<Rightarrow> int \<times> 's) \<Rightarrow> event list \<Rightarrow> u8 list \<Rightarrow> 's \<Rightarrow> unit outcome \<times> 's" where
  "rtnl_listen handler [] buf s = (Waiting, s)"
| "rtnl_listen handler (Recv_error errno # es) buf s =
     (if errno = EINTR \<or> errno = EAGAIN then rtnl_listen handler es buf s
      else if errno = ENOBUFS then rtnl_listen handler es buf s
      else (Returned (- 1) (), s))"
| "rtnl_listen handler (Recv d # es) buf s =
     (if d_bytes d = [] then (Returned (- 1) (), s)
      else if d_namelen d \<noteq> 12 then (Exited 1, s)
      else let buf = fill (d_bytes d) buf
           in case listen_msgs (d_trunc d) handler buf (int (length (d_bytes d))) s of
                (Done r a, s) \<Rightarrow> (Returned r (), s)
              | (Died c, s) \<Rightarrow> (Exited c, s)
              | (Rest status, s) \<Rightarrow>
                  if d_trunc d then rtnl_listen handler es buf s
                  else if status \<noteq> 0 then (Exited 1, s)
                  else rtnl_listen handler es buf s)"

section \<open>Dumps\<close>

lemma NLMSG_OK_space: "NLMSG_OK h len \<Longrightarrow> 16 \<le> h_space h \<and> 16 \<le> len"
proof -
  assume ok: "NLMSG_OK h len"
  have "unat (h_len h) \<le> h_space h" using RTA_ALIGN_ge by (simp add: NLMSG_ALIGN_def RTA_ALIGN_def)
  moreover have "16 \<le> uint (h_len h)" using ok by (simp add: NLMSG_OK_def)
  then have "16 \<le> unat (h_len h)" by (simp only: uint_ge_numeral)
  ultimately show ?thesis using ok by (simp add: NLMSG_OK_def)
qed

text \<open>One filter over the messages of a datagram: the result of the loop, or whether the end of the dump was seen and the bytes left.\<close>

function dump_msgs :: "(u8 list \<Rightarrow> bool) \<Rightarrow> (u8 list \<Rightarrow> 's \<Rightarrow> int \<times> 's) \<Rightarrow> (u8 list \<Rightarrow> 's \<Rightarrow> int \<times> 's) option \<Rightarrow>
    u8 list \<Rightarrow> int \<Rightarrow> 's \<Rightarrow> (int + bool \<times> int) \<times> 's" where
  "dump_msgs mine flt junk h msglen s =
     (if NLMSG_OK h msglen then
        if \<not> mine h then
          (case junk of
             None \<Rightarrow> dump_msgs mine flt junk (drop (h_space h) h) (msglen - int (h_space h)) s
           | Some j \<Rightarrow>
               let (err, s) = j h s
               in if err < 0 then (Inl err, s)
                  else dump_msgs mine flt junk (drop (h_space h) h) (msglen - int (h_space h)) s)
        else if h_type h = NLMSG_DONE then (Inr (True, msglen), s)
        else if h_type h = NLMSG_ERROR then (Inl (- 1), s)
        else let (err, s) = flt h s
             in if err < 0 then (Inl err, s)
                else dump_msgs mine flt junk (drop (h_space h) h) (msglen - int (h_space h)) s
      else (Inr (False, msglen), s))"
  by pat_completeness auto

termination
proof (relation "measure (\<lambda>(_, _, _, _, len, _). nat len)", goal_cases)
  case 1
  show ?case by simp
qed (auto dest!: NLMSG_OK_space)

declare dump_msgs.simps [simp del]

record 's dump_arg =
  da_filter :: "u8 list \<Rightarrow> 's \<Rightarrow> int \<times> 's"
  da_junk :: "(u8 list \<Rightarrow> 's \<Rightarrow> int \<times> 's) option"

text \<open>All filters over one datagram; without a filter the count keeps its initial zero.\<close>

fun dump_filters :: "(u8 list \<Rightarrow> bool) \<Rightarrow> 's dump_arg list \<Rightarrow> u8 list \<Rightarrow> int \<Rightarrow> bool \<times> int \<Rightarrow> 's \<Rightarrow> (int + bool \<times> int) \<times> 's" where
  "dump_filters mine [] buf status (found, msglen) s = (Inr (found, msglen), s)"
| "dump_filters mine (a # as) buf status (found, msglen) s =
     (case dump_msgs mine (da_filter a) (da_junk a) buf status s of
        (Inl err, s) \<Rightarrow> (Inl err, s)
      | (Inr (found', msglen), s) \<Rightarrow> dump_filters mine as buf status (found \<or> found', msglen) s)"

fun rtnl_dump_filter_l :: "rtnl_handle \<Rightarrow> 's dump_arg list \<Rightarrow> event list \<Rightarrow> u8 list \<Rightarrow> 's \<Rightarrow> unit outcome \<times> 's" where
  "rtnl_dump_filter_l rth as [] buf s = (Waiting, s)"
| "rtnl_dump_filter_l rth as (Recv_error errno # es) buf s =
     (if errno = EINTR \<or> errno = EAGAIN then rtnl_dump_filter_l rth as es buf s else (Returned (- 1) (), s))"
| "rtnl_dump_filter_l rth as (Recv d # es) buf s =
     (if d_bytes d = [] then (Returned (- 1) (), s)
      else let buf = fill (d_bytes d) buf;
               mine = (\<lambda>h. \<not> (d_pid d \<noteq> 0 \<or> h_pid h \<noteq> rh_pid rth \<or> h_seq h \<noteq> rh_dump rth))
           in case dump_filters mine as buf (int (length (d_bytes d))) (False, 0) s of
                (Inl err, s) \<Rightarrow> (Returned err (), s)
              | (Inr (found_done, msglen), s) \<Rightarrow>
                  if found_done then (Returned 0 (), s)
                  else if d_trunc d then rtnl_dump_filter_l rth as es buf s
                  else if msglen \<noteq> 0 then (Exited 1, s)
                  else rtnl_dump_filter_l rth as es buf s)"

definition rtnl_dump_filter :: "rtnl_handle \<Rightarrow> (u8 list \<Rightarrow> 's \<Rightarrow> int \<times> 's) \<Rightarrow> (u8 list \<Rightarrow> 's \<Rightarrow> int \<times> 's) option \<Rightarrow>
    event list \<Rightarrow> u8 list \<Rightarrow> 's \<Rightarrow> unit outcome \<times> 's" where
  "rtnl_dump_filter rth flt junk es buf s = rtnl_dump_filter_l rth [\<lparr>da_filter = flt, da_junk = junk\<rparr>] es buf s"

section \<open>Sending with a check for errors\<close>

function send_check_msgs :: "u8 list \<Rightarrow> int \<Rightarrow> int" where
  "send_check_msgs h status =
     (if NLMSG_OK h status then
        if h_type h = NLMSG_ERROR then - 1
        else send_check_msgs (drop (h_space h) h) (status - int (h_space h))
      else 0)"
  by pat_completeness auto

termination
proof (relation "measure (\<lambda>(_, len). nat len)", goal_cases)
  case 1
  show ?case by simp
qed (auto dest!: NLMSG_OK_space)

declare send_check_msgs.simps [simp del]

text \<open>\<open>sent\<close> is the result of \<open>send\<close>, the event what a peek at the socket finds.\<close>

definition rtnl_send_check :: "int \<Rightarrow> event \<Rightarrow> int" where
  "rtnl_send_check sent e =
     (if sent < 0 then sent
      else case e of
             Recv_error errno \<Rightarrow> if errno = EAGAIN then 0 else - 1
           | Recv d \<Rightarrow> send_check_msgs (d_bytes d) (int (length (d_bytes d))))"

section \<open>Well-formed messages\<close>

record nl_message =
  m_type :: u16
  m_flags :: u16
  m_seq :: u32
  m_pid :: u32
  m_payload :: "u8 list"

definition msg_bytes :: "nl_message \<Rightarrow> u8 list" where
  "msg_bytes m = nlmsghdr_bytes (word_of_nat (16 + length (m_payload m))) (m_type m) (m_flags m) (m_seq m) (m_pid m) @ m_payload m"

definition msg_ok :: "nl_message \<Rightarrow> bool" where
  "msg_ok m \<longleftrightarrow> length (m_payload m) mod 4 = 0 \<and> length (m_payload m) < 2 ^ 30"

lemma length_nlmsghdr_bytes [simp]: "length (nlmsghdr_bytes len t f s p) = 16"
  by (simp add: nlmsghdr_bytes_def)

lemma length_msg_bytes: "length (msg_bytes m) = 16 + length (m_payload m)"
  by (simp add: msg_bytes_def)

lemma msg_header:
  assumes "msg_ok m"
  shows "sint (h_len (msg_bytes m @ r)) = int (length (msg_bytes m))"
    "unat (h_len (msg_bytes m @ r)) = length (msg_bytes m)"
    "h_space (msg_bytes m @ r) = length (msg_bytes m)"
    "h_type (msg_bytes m @ r) = m_type m" "h_seq (msg_bytes m @ r) = m_seq m" "h_pid (msg_bytes m @ r) = m_pid m"
proof -
  have l: "h_len (msg_bytes m @ r) = word_of_nat (16 + length (m_payload m))"
    by (simp add: h_len_def msg_bytes_def nlmsghdr_bytes_def le32_le32_bytes [of _ "[]", simplified])
  have b: "16 + length (m_payload m) < 2 ^ 31" using assms by (simp add: msg_ok_def)
  show u: "unat (h_len (msg_bytes m @ r)) = length (msg_bytes m)"
    unfolding l length_msg_bytes using b by (simp add: unat_of_nat del: of_nat_add)
  then have "16 \<le> unat (h_len (msg_bytes m @ r))" by (simp add: length_msg_bytes)
  have "sint (h_len (msg_bytes m @ r)) = signed_take_bit 31 (int (length (msg_bytes m)))"
    by (simp add: sint_uint flip: u)
  also have "\<dots> = int (length (msg_bytes m))"
    using b by (intro signed_take_bit_int_eq_self) (auto simp: length_msg_bytes)
  finally show "sint (h_len (msg_bytes m @ r)) = int (length (msg_bytes m))" .
  have "4 dvd 16 + length (m_payload m)" using assms by (auto simp: msg_ok_def mod_eq_0_iff_dvd)
  then show "h_space (msg_bytes m @ r) = length (msg_bytes m)"
    unfolding u by (simp add: length_msg_bytes NLMSG_ALIGN_dvd)
  show "h_type (msg_bytes m @ r) = m_type m" "h_seq (msg_bytes m @ r) = m_seq m" "h_pid (msg_bytes m @ r) = m_pid m"
    by (simp_all add: h_type_def h_seq_def h_pid_def msg_bytes_def nlmsghdr_bytes_def
        le32_le32_bytes [of _ "[]", simplified] le16_le16_bytes [of _ "[]", simplified])
qed

text \<open>An acknowledgement: an error message that is long enough and carries zero.\<close>

definition is_ack :: "nl_message \<Rightarrow> bool" where
  "is_ack m \<longleftrightarrow> 20 \<le> length (m_payload m) \<and> le32 (take 4 (m_payload m)) = 0"

lemma talk_msgs_first_error:
  assumes "list_all msg_ok ms"
  shows "talk_msgs False False (\<lambda>h. P (h_pid h) (h_seq h)) None (concat (map msg_bytes ms) @ r)
      (int (length (concat (map msg_bytes ms)))) s =
    (case find (\<lambda>m. P (m_pid m) (m_seq m) \<and> m_type m = NLMSG_ERROR) ms of
       None \<Rightarrow> (Rest 0, s)
     | Some m \<Rightarrow> (Done (if is_ack m then 0 else - 1) None, s))"
  using assms
proof (induction ms)
  case Nil
  then show ?case by (simp add: talk_msgs.simps)
next
  case (Cons m ms)
  let ?r = "concat (map msg_bytes ms) @ r"
  note h = msg_header [of m ?r]
  have ok: "msg_ok m" using Cons.prems by simp
  have l: "16 \<le> length (msg_bytes m)" by (simp add: length_msg_bytes)
  have st: "int (length (concat (map msg_bytes (m # ms)))) - int (h_space (msg_bytes m @ ?r)) = int (length (concat (map msg_bytes ms)))"
    using h(3) [OF ok] by simp
  have e: "h_error (msg_bytes m @ ?r) = le32 (take 4 (m_payload m))" if "20 \<le> length (m_payload m)"
    using that by (simp add: h_error_def msg_bytes_def)
  show ?case
    using Cons.IH Cons.prems l h [OF ok] st e
    by (subst talk_msgs.simps) (auto simp: Let_def is_ack_def length_msg_bytes)
qed

section \<open>Which acknowledgement decides\<close>

text \<open>What the socket delivers: interruptions, and datagrams of whole messages with their sender.\<close>

fun deliver :: "(u32 \<times> nl_message list) option \<Rightarrow> event" where
  "deliver None = Recv_error EINTR"
| "deliver (Some (pid, ms)) = Recv \<lparr>d_pid = pid, d_namelen = 12, d_trunc = False, d_bytes = concat (map msg_bytes ms)\<rparr>"

definition delivered :: "(u32 \<times> nl_message list) option list \<Rightarrow> (u32 \<times> nl_message) list" where
  "delivered ds = concat (map (\<lambda>d. case d of None \<Rightarrow> [] | Some (pid, ms) \<Rightarrow> map (Pair pid) ms) ds)"

definition delivery_ok :: "(u32 \<times> nl_message list) option \<Rightarrow> bool" where
  "delivery_ok d \<longleftrightarrow> (case d of None \<Rightarrow> True | Some (pid, ms) \<Rightarrow> ms \<noteq> [] \<and> list_all msg_ok ms)"

lemma find_map_Pair: "find P (map (Pair x) ys) = map_option (Pair x) (find (\<lambda>y. P (x, y)) ys)"
  by (induction ys) auto

lemma find_append: "find P (xs @ ys) = (case find P xs of None \<Rightarrow> find P ys | Some x \<Rightarrow> Some x)"
  by (induction xs) auto

lemma talk_recv_first_error:
  assumes "list_all delivery_ok ds"
  shows "talk_recv False (\<lambda>pid h. Q pid (h_pid h) (h_seq h)) None (map deliver ds) buf s =
    (case find (\<lambda>(pid, m). Q pid (m_pid m) (m_seq m) \<and> m_type m = NLMSG_ERROR) (delivered ds) of
       None \<Rightarrow> (Waiting, s)
     | Some (pid, m) \<Rightarrow> (Returned (if is_ack m then 0 else - 1) None, s))"
  using assms
proof (induction ds arbitrary: buf)
  case Nil
  then show ?case by (simp add: delivered_def)
next
  case (Cons d ds)
  show ?case
  proof (cases d)
    case None
    then show ?thesis using Cons by (simp add: delivered_def)
  next
    case (Some pm)
    obtain pid ms where d: "d = Some (pid, ms)" using Some by (cases pm) auto
    have ms: "ms \<noteq> []" "list_all msg_ok ms" using Cons.prems d by (auto simp: delivery_ok_def)
    define B where "B = concat (map msg_bytes ms)"
    have "0 < length B" using ms(1) by (cases ms) (simp_all add: B_def length_msg_bytes)
    then have ne: "B \<noteq> []" by auto
    have t: "talk_msgs False False (\<lambda>h. Q pid (h_pid h) (h_seq h)) None (B @ r) (int (length B)) s =
        (case find (\<lambda>m. Q pid (m_pid m) (m_seq m) \<and> m_type m = NLMSG_ERROR) ms of
           None \<Rightarrow> (Rest 0, s) | Some m \<Rightarrow> (Done (if is_ack m then 0 else - 1) None, s))" for r
      unfolding B_def by (rule talk_msgs_first_error [OF ms(2)])
    have dv: "deliver d = Recv \<lparr>d_pid = pid, d_namelen = 12, d_trunc = False, d_bytes = B\<rparr>" by (simp add: d B_def)
    have dl: "delivered (d # ds) = map (Pair pid) ms @ delivered ds" by (simp add: delivered_def d)
    show ?thesis
      unfolding dl find_append find_map_Pair list.map(2) dv
      using Cons ne
      by (cases "find (\<lambda>m. Q pid (m_pid m) (m_seq m) \<and> m_type m = NLMSG_ERROR) ms") (simp_all add: fill_def t)
  qed
qed

lemma talk_first_ack:
  assumes "list_all delivery_ok ds"
  shows "rtnl_talk rth fl peer False None True (map deliver ds) s =
    ((case find (\<lambda>(pid, m). pid = peer \<and> m_pid m = rh_pid rth \<and> m_seq m = rh_seq rth + 1 \<and> m_type m = NLMSG_ERROR) (delivered ds) of
        None \<Rightarrow> Waiting
      | Some (pid, m) \<Rightarrow> Returned (if is_ack m then 0 else - 1) None),
     rth\<lparr>rh_seq := rh_seq rth + 1\<rparr>, fl OR NLM_F_ACK, s)"
proof -
  let ?Q = "\<lambda>pid p q. \<not> (pid \<noteq> peer \<or> p \<noteq> rh_pid rth \<or> q \<noteq> rh_seq rth + 1)"
  have f: "(\<lambda>(pid, m). pid = peer \<and> m_pid m = rh_pid rth \<and> m_seq m = rh_seq rth + 1 \<and> m_type m = NLMSG_ERROR) =
      (\<lambda>(pid, m). ?Q pid (m_pid m) (m_seq m) \<and> m_type m = NLMSG_ERROR)"
    by auto
  have q: "(\<lambda>pid h. \<not> (pid \<noteq> peer \<or> h_pid h \<noteq> rh_pid (rth\<lparr>rh_seq := rh_seq rth + 1\<rparr>) \<or>
      h_seq h \<noteq> rh_seq (rth\<lparr>rh_seq := rh_seq rth + 1\<rparr>))) = (\<lambda>pid h. ?Q pid (h_pid h) (h_seq h))"
    by simp
  show ?thesis
    unfolding rtnl_talk_def Let_def q f talk_recv_first_error [OF assms, of ?Q]
    by (simp split: option.splits prod.splits)
qed

text \<open>
  C22: waiting for an acknowledgement, \<open>rtnl_talk\<close> passes over interruptions, messages of
  other senders, messages for other requests and messages that are no error messages. The
  first error message from the peer with the port of the handle and the new sequence number
  decides: zero in it means success, everything else failure; without one it goes on
  waiting. The message asks for an acknowledgement, and the sequence number has moved on.
\<close>
theorem rtnl_talk_ack:
  assumes "list_all delivery_ok ds"
  shows "rtnl_talk rth fl peer False None True (map deliver ds) s =
    ((case find (\<lambda>(pid, m). pid = peer \<and> m_pid m = rh_pid rth \<and> m_seq m = rh_seq rth + 1 \<and> m_type m = NLMSG_ERROR) (delivered ds) of
        None \<Rightarrow> Waiting
      | Some (pid, m) \<Rightarrow> Returned (if is_ack m then 0 else - 1) None),
     rth\<lparr>rh_seq := rh_seq rth + 1\<rparr>, fl OR NLM_F_ACK, s)"
  using assms by (rule talk_first_ack)

theorem rtnl_talk_ack_witness:
  "fst (rtnl_talk \<lparr>rh_pid = 7, rh_seq = 1, rh_dump = 0\<rparr> 1 0 False None True
     (map deliver [None, Some (0, [\<lparr>m_type = 2, m_flags = 0, m_seq = 1, m_pid = 7, m_payload = replicate 20 1\<rparr>]),
        Some (0, [\<lparr>m_type = 2, m_flags = 0, m_seq = 2, m_pid = 7, m_payload = replicate 20 0\<rparr>])]) ()) = Returned 0 None"
proof -
  have "is_ack \<lparr>m_type = 2, m_flags = 0, m_seq = 2, m_pid = 7, m_payload = replicate 20 0\<rparr>"
    by (simp add: is_ack_def le32_def)
  then show ?thesis
    by (subst rtnl_talk_ack)
      (simp_all add: delivery_ok_def msg_ok_def delivered_def NLMSG_ERROR_def)
qed

section \<open>A dump hands every message on\<close>

text \<open>
  What a dump means: the messages for the handle, whichever datagrams they came in, go to
  the filter one after the other, until the end of the dump, an error message or a failure
  of the filter.
\<close>

fun dump_list :: "(u32 \<times> nl_message \<Rightarrow> bool) \<Rightarrow> (nl_message \<Rightarrow> 's \<Rightarrow> int \<times> 's) \<Rightarrow> (u32 \<times> nl_message) list \<Rightarrow> 's \<Rightarrow> (int + bool) \<times> 's" where
  "dump_list mine H [] s = (Inr False, s)"
| "dump_list mine H ((pid, m) # ms) s =
     (if \<not> mine (pid, m) then dump_list mine H ms s
      else if m_type m = NLMSG_DONE then (Inr True, s)
      else if m_type m = NLMSG_ERROR then (Inl (- 1), s)
      else let (err, s) = H m s in if err < 0 then (Inl err, s) else dump_list mine H ms s)"

lemma dump_list_append:
  "dump_list mine H (xs @ ys) s =
    (case dump_list mine H xs s of (Inr False, s) \<Rightarrow> dump_list mine H ys s | r \<Rightarrow> r)"
  by (induction mine H xs s rule: dump_list.induct) (simp_all split: prod.splits)

lemma dump_msgs_list:
  assumes "list_all msg_ok ms" "\<And>m r s. m \<in> set ms \<Longrightarrow> flt (msg_bytes m @ r) s = H m s"
    and "\<And>pid m. mine (pid, m) \<longleftrightarrow> Q pid (m_pid m) (m_seq m)"
  shows "case dump_msgs (\<lambda>h. Q pid (h_pid h) (h_seq h)) flt None (concat (map msg_bytes ms) @ r)
      (int (length (concat (map msg_bytes ms)))) s of
    (Inl err, s') \<Rightarrow> dump_list mine H (map (Pair pid) ms) s = (Inl err, s')
  | (Inr (fin, left), s') \<Rightarrow> dump_list mine H (map (Pair pid) ms) s = (Inr fin, s')
      \<and> (fin \<or> left = 0)"
  using assms(1,2)
proof (induction ms arbitrary: s)
  case Nil
  then show ?case by (simp add: dump_msgs.simps NLMSG_OK_def)
next
  case (Cons m ms)
  let ?r = "concat (map msg_bytes ms) @ r"
  note h = msg_header [of m ?r]
  have ok: "msg_ok m" and oks: "list_all msg_ok ms" using Cons.prems by simp_all
  have l: "16 \<le> length (msg_bytes m)" by (simp add: length_msg_bytes)
  have "uint (h_len (msg_bytes m @ ?r)) = int (length (msg_bytes m))" using h(2) [OF ok] by (simp add: uint_nat)
  then have nl: "NLMSG_OK (msg_bytes m @ ?r) (int (length (msg_bytes m)) + int (length (concat (map msg_bytes ms))))"
    using l by (simp add: NLMSG_OK_def)
  obtain e s' where H: "H m s = (e, s')" by fastforce
  show ?case
    using h [OF ok] nl Cons.IH [OF oks, of s] Cons.IH [OF oks, of s'] H Cons.prems(2) [of m ?r s] Cons.prems(2) assms(3)
    by (subst dump_msgs.simps) (auto split: prod.splits sum.splits)
qed

lemma dump_datagram:
  assumes "B \<noteq> []"
    and "dump_msgs (\<lambda>h. \<not> (pid \<noteq> 0 \<or> h_pid h \<noteq> rh_pid rth \<or> h_seq h \<noteq> rh_dump rth)) flt None (B @ drop (length B) buf) (int (length B)) s = (x, s')"
  shows "rtnl_dump_filter_l rth [\<lparr>da_filter = flt, da_junk = None\<rparr>]
      (Recv \<lparr>d_pid = pid, d_namelen = 12, d_trunc = False, d_bytes = B\<rparr> # es) buf s =
    (case x of
       Inl err \<Rightarrow> (Returned err (), s')
     | Inr (fin, left) \<Rightarrow>
         if fin then (Returned 0 (), s') else if left \<noteq> 0 then (Exited 1, s')
         else rtnl_dump_filter_l rth [\<lparr>da_filter = flt, da_junk = None\<rparr>] es (B @ drop (length B) buf) s')"
  using assms(1) unfolding rtnl_dump_filter_l.simps dump_filters.simps Let_def
  by (simp only: fill_def datagram.simps dump_arg.simps assms(2)) (auto split: sum.splits prod.splits)

lemma dump_filter_list:
  assumes "list_all delivery_ok ds" "\<And>pid m r s. (pid, m) \<in> set (delivered ds) \<Longrightarrow> flt (msg_bytes m @ r) s = H m s"
  shows "rtnl_dump_filter rth flt None (map deliver ds) buf s =
    (case dump_list (\<lambda>(pid, m). pid = 0 \<and> m_pid m = rh_pid rth \<and> m_seq m = rh_dump rth) H (delivered ds) s of
       (Inl err, s) \<Rightarrow> (Returned err (), s)
     | (Inr True, s) \<Rightarrow> (Returned 0 (), s)
     | (Inr False, s) \<Rightarrow> (Waiting, s))"
  unfolding rtnl_dump_filter_def using assms
proof (induction ds arbitrary: buf s)
  case Nil
  then show ?case by (simp add: delivered_def)
next
  case (Cons d ds)
  let ?mine = "\<lambda>(pid, m). pid = 0 \<and> m_pid m = rh_pid rth \<and> m_seq m = rh_dump rth"
  let ?Q = "\<lambda>pid p q. \<not> (pid \<noteq> 0 \<or> p \<noteq> rh_pid rth \<or> q \<noteq> rh_dump rth)"
  have f: "?mine (pid, m) \<longleftrightarrow> ?Q pid (m_pid m) (m_seq m)" for pid m by auto
  show ?case
  proof (cases d)
    case None
    then show ?thesis using Cons by (simp add: delivered_def)
  next
    case (Some pm)
    then obtain pid ms where d: "d = Some (pid, ms)" by (cases pm) auto
    have ms: "ms \<noteq> []" "list_all msg_ok ms" using Cons.prems d by (auto simp: delivery_ok_def)
    define B where "B = concat (map msg_bytes ms)"
    have "0 < length B" using ms(1) by (cases ms) (simp_all add: B_def length_msg_bytes)
    then have ne: "B \<noteq> []" by auto
    have dv: "deliver d = Recv \<lparr>d_pid = pid, d_namelen = 12, d_trunc = False, d_bytes = B\<rparr>" by (simp add: d B_def)
    have dl: "delivered (d # ds) = map (Pair pid) ms @ delivered ds" by (simp add: delivered_def d)
    have "flt (msg_bytes m @ r) s = H m s" if "m \<in> set ms" for m r s
      using Cons.prems(2) [of pid m r s] that by (simp add: dl)
    note t = dump_msgs_list [where Q = ?Q and pid = pid and r = "drop (length B) buf" and s = s and flt = flt and H = H and mine = ?mine,
        OF ms(2) this f, folded B_def]
    obtain x s' where x: "dump_msgs (\<lambda>h. ?Q pid (h_pid h) (h_seq h)) flt None (B @ drop (length B) buf) (int (length B)) s = (x, s')"
      by fastforce
    have IH: "rtnl_dump_filter_l rth [\<lparr>da_filter = flt, da_junk = None\<rparr>] (map deliver ds) buf s =
        (case dump_list ?mine H (delivered ds) s of
           (Inl err, s) \<Rightarrow> (Returned err (), s) | (Inr True, s) \<Rightarrow> (Returned 0 (), s) | (Inr False, s) \<Rightarrow> (Waiting, s))" for buf s
      by (rule Cons.IH) (use Cons.prems in \<open>auto simp: dl\<close>)
    show ?thesis
      unfolding dl dump_list_append list.map(2) dv dump_datagram [OF ne x] IH using t [unfolded x]
      by (cases x) auto
  qed
qed

text \<open>
  C23: a dump hands every message for the handle to the filter, in the order of their
  arrival and independent of the datagrams they came in; the end of the dump, an error
  message and a failing filter end it, interruptions do not, and without an end it waits.
\<close>
theorem dump_filter_refines:
  assumes "list_all delivery_ok ds" "\<And>pid m r s. (pid, m) \<in> set (delivered ds) \<Longrightarrow> flt (msg_bytes m @ r) s = H m s"
  shows "rtnl_dump_filter rth flt None (map deliver ds) buf s =
    (case dump_list (\<lambda>(pid, m). pid = 0 \<and> m_pid m = rh_pid rth \<and> m_seq m = rh_dump rth) H (delivered ds) s of
       (Inl err, s) \<Rightarrow> (Returned err (), s)
     | (Inr True, s) \<Rightarrow> (Returned 0 (), s)
     | (Inr False, s) \<Rightarrow> (Waiting, s))"
  using assms by (rule dump_filter_list)

theorem dump_filter_refines_witness:
  "rtnl_dump_filter \<lparr>rh_pid = 7, rh_seq = 3, rh_dump = 3\<rparr> (\<lambda>h s. (0, h_type h # s)) None
     (map deliver [Some (0, [\<lparr>m_type = 16, m_flags = 2, m_seq = 3, m_pid = 7, m_payload = replicate 16 0\<rparr>]), None,
        Some (0, [\<lparr>m_type = 17, m_flags = 2, m_seq = 3, m_pid = 7, m_payload = []\<rparr>,
          \<lparr>m_type = 18, m_flags = 2, m_seq = 9, m_pid = 7, m_payload = []\<rparr>,
          \<lparr>m_type = 3, m_flags = 2, m_seq = 3, m_pid = 7, m_payload = []\<rparr>])]) [] [] = (Returned 0 (), [17, 16])"
  by (subst dump_filter_refines [where H = "\<lambda>m s. (0, m_type m # s)"])
    (auto simp: msg_header delivery_ok_def msg_ok_def delivered_def NLMSG_ERROR_def NLMSG_DONE_def)

end
