(* ===== verification/Ll_Map.thy ===== *)
theory Ll_Map
  imports Netlink_Talk C_Printf
begin

text \<open>
  The table of network links (\<open>lib/ll_map.c\<close>): what the kernel announced about each link, kept
  in chains by the link's index, with the lookups by index and by name. Memory allocation
  succeeds.
\<close>

section \<open>The table\<close>

definition RTM_NEWLINK :: u16 where "RTM_NEWLINK = 16"
definition RTM_GETLINK :: u16 where "RTM_GETLINK = 18"
definition IFLA_ADDRESS :: nat where "IFLA_ADDRESS = 1"
definition IFLA_IFNAME :: nat where "IFLA_IFNAME = 3"
definition IFLA_MAX :: nat where "IFLA_MAX = 28"

text \<open>
  The last two fields of the structure, \<open>name\<close> of 16 bytes and \<open>addr\<close> of 20, are one piece of
  memory here: \<open>strcpy\<close> into the name does not stop at its end.
\<close>

record ll_cache =
  im_flags :: u32
  im_index :: s32
  im_type :: u16
  im_alen :: u16
  im_mem :: "u8 list"

definition IFNAMSIZ :: nat where "IFNAMSIZ = 16"
definition ADDRSIZ :: nat where "ADDRSIZ = 20"

definition im_name :: "ll_cache \<Rightarrow> string" where
  "im_name im = c_str (im_mem im)"

definition im_addr :: "ll_cache \<Rightarrow> u8 list" where
  "im_addr im = take ADDRSIZ (drop IFNAMSIZ (im_mem im))"

definition IDXMAP_SIZE :: nat where
  "IDXMAP_SIZE = 1024"

text \<open>The chains, the last name looked up with its index, and whether the table was filled.\<close>

record ll_map =
  idx_head :: "ll_cache list list"
  ncache :: string
  icache :: s32
  initialized :: bool

definition ll_map_init :: ll_map where
  "ll_map_init = \<lparr>idx_head = replicate IDXMAP_SIZE [], ncache = [], icache = 0, initialized = False\<rparr>"

definition idx_hash :: "u32 \<Rightarrow> nat" where
  "idx_hash idx = unat (idx AND (word_of_nat IDXMAP_SIZE - 1))"

definition idxhead :: "ll_map \<Rightarrow> u32 \<Rightarrow> ll_cache list" where
  "idxhead st idx = idx_head st ! idx_hash idx"

section \<open>Remembering a link\<close>

text \<open>The entry of an index in a chain is changed in place; a new one, with the bytes \<open>malloc\<close> left in it, goes to the end.\<close>

fun chain_put :: "ll_cache \<Rightarrow> (ll_cache \<Rightarrow> ll_cache) \<Rightarrow> ll_cache list \<Rightarrow> ll_cache list" where
  "chain_put new f [] = [f new]"
| "chain_put new f (im # ims) = (if im_index im = im_index new then f im # ims else im # chain_put new f ims)"

definition put_entry :: "ll_cache \<Rightarrow> (ll_cache \<Rightarrow> ll_cache) \<Rightarrow> ll_map \<Rightarrow> ll_map" where
  "put_entry new f st = (let h = idx_hash (im_index new) in st\<lparr>idx_head := (idx_head st)[h := chain_put new f (idx_head st ! h)]\<rparr>)"

definition set_addr :: "u8 list option \<Rightarrow> ll_cache \<Rightarrow> ll_cache" where
  "set_addr rta im =
     (case rta of
        Some a \<Rightarrow>
          let alen = RTA_PAYLOAD a
          in im\<lparr>im_alen := word_of_int alen,
                im_mem := poke IFNAMSIZ (take (nat (min alen (int ADDRSIZ))) (RTA_DATA a)) (im_mem im)\<rparr>
      | None \<Rightarrow> im\<lparr>im_alen := 0, im_mem := poke IFNAMSIZ (replicate ADDRSIZ 0) (im_mem im)\<rparr>)"

definition set_name :: "string \<Rightarrow> ll_cache \<Rightarrow> ll_cache" where
  "set_name s im = im\<lparr>im_mem := poke 0 (str_bytes s @ [0]) (im_mem im)\<rparr>"

text \<open>
  The least length tested is that of the header with a pointer, eight bytes, instead of the structure
  \<open>ifinfomsg\<close>; the length of the attributes can therefore come out negative. \<open>junk\<close> is the
  memory a new entry gets.
\<close>

definition ll_remember_index :: "u8 list \<Rightarrow> u8 list \<Rightarrow> ll_map \<Rightarrow> int \<times> ll_map" where
  "ll_remember_index junk h st =
     (if h_type h \<noteq> RTM_NEWLINK then (0, st)
      else if uint (h_len h) < 16 + 8 then (- 1, st)
      else let ifi = drop 16 h;
               tb = fst (parse_rtattr IFLA_MAX (drop 16 ifi) (sint (h_len h - 32)))
           in case tb ! IFLA_IFNAME of
                None \<Rightarrow> (0, st)
              | Some ifname \<Rightarrow>
                  (0, put_entry \<lparr>im_flags = 0, im_index = le32 (drop 4 ifi), im_type = 0, im_alen = 0, im_mem = junk\<rparr>
                        (\<lambda>im. set_name (c_str (RTA_DATA ifname))
                                (set_addr (tb ! IFLA_ADDRESS)
                                  (im\<lparr>im_type := le16 (drop 2 ifi), im_flags := le32 (drop 8 ifi)\<rparr>))) st))"

section \<open>Lookups\<close>

definition ll_find :: "ll_map \<Rightarrow> u32 \<Rightarrow> ll_cache option" where
  "ll_find st idx = find (\<lambda>im. im_index im = idx) (idxhead st idx)"

definition ll_idx_n2a :: "ll_map \<Rightarrow> u32 \<Rightarrow> string" where
  "ll_idx_n2a st idx =
     (if idx = 0 then ''*''
      else case ll_find st idx of
             Some im \<Rightarrow> im_name im
           | None \<Rightarrow> snprintf IFNAMSIZ (''if'' @ show_int (sint idx)))"

definition ll_index_to_name :: "ll_map \<Rightarrow> u32 \<Rightarrow> string" where
  "ll_index_to_name st idx = ll_idx_n2a st idx"

definition ll_index_to_type :: "ll_map \<Rightarrow> u32 \<Rightarrow> int" where
  "ll_index_to_type st idx =
     (if idx = 0 then - 1 else case ll_find st idx of Some im \<Rightarrow> uint (im_type im) | None \<Rightarrow> - 1)"

definition ll_index_to_flags :: "ll_map \<Rightarrow> u32 \<Rightarrow> u32" where
  "ll_index_to_flags st idx =
     (if idx = 0 then 0 else case ll_find st idx of Some im \<Rightarrow> im_flags im | None \<Rightarrow> 0)"

text \<open>The bytes written to the buffer of the caller; their number is the result.\<close>

definition ll_index_to_addr :: "ll_map \<Rightarrow> u32 \<Rightarrow> nat \<Rightarrow> u8 list" where
  "ll_index_to_addr st idx alen =
     (if idx = 0 then []
      else case ll_find st idx of
             Some im \<Rightarrow> take (min (min alen ADDRSIZ) (unat (im_alen im))) (im_addr im)
           | None \<Rightarrow> [])"

text \<open>\<open>sscanf\<close> with \<open>if%u\<close>; the variable is zero before.\<close>

definition scan_if :: "string \<Rightarrow> u32" where
  "scan_if s =
     (if take 2 s \<noteq> ''if'' then 0
      else let (v, rest) = strtoul (drop 2 s) 10 in if rest = drop 2 s then 0 else ucast v)"

text \<open>\<open>nametoindex\<close> is the library's \<open>if_nametoindex\<close>, zero for an unknown name.\<close>

definition ll_name_to_index :: "(string \<Rightarrow> u32) \<Rightarrow> string option \<Rightarrow> ll_map \<Rightarrow> u32 \<times> ll_map" where
  "ll_name_to_index nametoindex nm st =
     (case nm of
        None \<Rightarrow> (0, st)
      | Some s \<Rightarrow>
          if icache st \<noteq> 0 \<and> s = ncache st then (icache st, st)
          else case find (\<lambda>im. im_name im = s) (concat (idx_head st)) of
                 Some im \<Rightarrow> (im_index im, st\<lparr>icache := im_index im, ncache := s\<rparr>)
               | None \<Rightarrow>
                   let idx = nametoindex s
                   in (if idx = 0 then scan_if s else idx, st))"

text \<open>
  Filling the table: \<open>sent\<close> says whether the request goes out, \<open>es\<close> is what the socket delivers
  and \<open>buf\<close> the content of the receive buffer before.
\<close>

definition ll_init_map :: "u8 list \<Rightarrow> bool \<Rightarrow> event list \<Rightarrow> u8 list \<Rightarrow> rtnl_handle \<times> ll_map \<Rightarrow> unit outcome \<times> rtnl_handle \<times> ll_map" where
  "ll_init_map junk sent es buf = (\<lambda>(rth, st).
     if initialized st then (Returned 0 (), rth, st)
     else let (_, rth) = rtnl_wilddump_request rth 0 RTM_GETLINK
          in if \<not> sent then (Exited 1, rth, st)
             else case rtnl_dump_filter rth (ll_remember_index junk) None es buf st of
                    (Returned r _, st) \<Rightarrow>
                      if r < 0 then (Exited 1, rth, st) else (Returned 0 (), rth, st\<lparr>initialized := True\<rparr>)
                  | (Exited c, st) \<Rightarrow> (Exited c, rth, st)
                  | (Waiting, st) \<Rightarrow> (Waiting, rth, st))"

section \<open>A table with a key, and its contract\<close>

text \<open>
  A table whose entries are changed one key at a time, starting from a fresh entry, behaves
  as a map whatever the order of the changes.
\<close>

locale keyed_table =
  fixes lookup :: "'s \<Rightarrow> 'k \<Rightarrow> 'v option"
    and update :: "'k \<Rightarrow> ('v \<Rightarrow> 'v) \<Rightarrow> 's \<Rightarrow> 's"
    and key :: "'v \<Rightarrow> 'k"
    and fresh :: "'k \<Rightarrow> 'v"
    and ok :: "'s \<Rightarrow> bool"
  assumes lookup_update: "ok s \<Longrightarrow> (\<And>v. key (f v) = key v) \<Longrightarrow>
      lookup (update k f s) = (lookup s)(k \<mapsto> f (case lookup s k of None \<Rightarrow> fresh k | Some v \<Rightarrow> v))"
    and ok_update: "ok s \<Longrightarrow> (\<And>v. key (f v) = key v) \<Longrightarrow> ok (update k f s)"
begin

definition abstract_update :: "'k \<times> ('v \<Rightarrow> 'v) \<Rightarrow> ('k \<rightharpoonup> 'v) \<Rightarrow> 'k \<rightharpoonup> 'v" where
  "abstract_update = (\<lambda>(k, f) m. m(k \<mapsto> f (case m k of None \<Rightarrow> fresh k | Some v \<Rightarrow> v)))"

lemma updates_refine:
  assumes "ok s" "\<And>k f v. (k, f) \<in> set us \<Longrightarrow> key (f v) = key v"
  shows "ok (fold (\<lambda>(k, f). update k f) us s)
    \<and> lookup (fold (\<lambda>(k, f). update k f) us s) = fold abstract_update us (lookup s)"
  using assms
proof (induction us arbitrary: s)
  case (Cons u us)
  obtain k f where u: "u = (k, f)" by fastforce
  have kf: "key (f v) = key v" for v using Cons.prems(2) [of k f v] by (simp add: u)
  have "ok (update k f s)" using Cons.prems(1) kf by (rule ok_update)
  then have "ok (fold (\<lambda>(k, f). update k f) us (update k f s))
      \<and> lookup (fold (\<lambda>(k, f). update k f) us (update k f s)) = fold abstract_update us (lookup (update k f s))"
    by (rule Cons.IH) (use Cons.prems(2) in auto)
  moreover have "lookup (update k f s) = abstract_update u (lookup s)"
    using lookup_update [OF Cons.prems(1) kf] by (simp add: u abstract_update_def)
  ultimately show ?case by (simp add: u)
qed simp

text \<open>When what one sees of an entry does not depend on the old entry, the last change for a key counts.\<close>

lemma abstract_last:
  assumes "\<And>k. good (fresh k)" "\<And>k v. m k = Some v \<Longrightarrow> good v"
    and "\<And>k f v. (k, f) \<in> set us \<Longrightarrow> good v \<Longrightarrow> good (f v) \<and> p (f v) = g f"
  shows "(\<forall>v. fold abstract_update us m k = Some v \<longrightarrow> good v) \<and>
    map_option p (fold abstract_update us m k) =
    (case find (\<lambda>u. fst u = k) (rev us) of None \<Rightarrow> map_option p (m k) | Some u \<Rightarrow> Some (g (snd u)))"
  using assms(3)
proof (induction us arbitrary: k rule: rev_induct)
  case Nil
  then show ?case using assms(2) by simp
next
  case (snoc u us)
  obtain k' f where u: "u = (k', f)" by fastforce
  let ?v = "case fold abstract_update us m k' of None \<Rightarrow> fresh k' | Some v \<Rightarrow> v"
  have IH: "(\<forall>v. fold abstract_update us m k = Some v \<longrightarrow> good v) \<and>
      map_option p (fold abstract_update us m k) =
      (case find (\<lambda>u. fst u = k) (rev us) of None \<Rightarrow> map_option p (m k) | Some u \<Rightarrow> Some (g (snd u)))" for k
    using snoc.IH [of k] snoc.prems by auto
  have "good ?v" using IH [of k'] assms(1) by (auto split: option.splits)
  then have "good (f ?v)" "p (f ?v) = g f" using snoc.prems [of k' f ?v] by (simp_all add: u)
  then show ?case using IH [of k] by (auto simp: u abstract_update_def)
qed

end

text \<open>The chains hold entries of their own hash only, and at most one of each index.\<close>

definition chain_ok :: "nat \<Rightarrow> ll_cache list \<Rightarrow> bool" where
  "chain_ok h c \<longleftrightarrow> distinct (map im_index c) \<and> (\<forall>im \<in> set c. idx_hash (im_index im) = h)"

definition chains_ok :: "ll_map \<Rightarrow> bool" where
  "chains_ok st \<longleftrightarrow> length (idx_head st) = IDXMAP_SIZE \<and> (\<forall>h < IDXMAP_SIZE. chain_ok h (idx_head st ! h))"

lemma idx_hash_less [simp]: "idx_hash idx < IDXMAP_SIZE"
proof -
  have "idx AND 1023 \<le> 1023" by (rule word_and_le1)
  then show ?thesis by (simp add: idx_hash_def IDXMAP_SIZE_def word_le_nat_alt)
qed

definition fresh_entry :: "u8 list \<Rightarrow> u32 \<Rightarrow> ll_cache" where
  "fresh_entry junk idx = \<lparr>im_flags = 0, im_index = idx, im_type = 0, im_alen = 0, im_mem = junk\<rparr>"

lemma fresh_index [simp]: "im_index (fresh_entry junk idx) = idx"
  by (simp add: fresh_entry_def)

lemma find_chain_put:
  assumes "\<And>v. im_index (f v) = im_index v"
  shows "find (\<lambda>im. im_index im = j) (chain_put new f c) =
    (if j = im_index new then Some (f (case find (\<lambda>im. im_index im = j) c of None \<Rightarrow> new | Some v \<Rightarrow> v))
     else find (\<lambda>im. im_index im = j) c)"
  by (induction c) (auto simp: assms)

lemma chain_put_ok:
  assumes "\<And>v. im_index (f v) = im_index v" "chain_ok h c" "idx_hash (im_index new) = h"
  shows "chain_ok h (chain_put new f c)"
proof -
  have "im_index ` set (chain_put new f c) \<subseteq> insert (im_index new) (im_index ` set c)" for c
    by (induction c) (auto simp: assms(1))
  then have i: "im_index ` set (chain_put new f c) \<subseteq> insert (im_index new) (im_index ` set c)" for c by blast
  have "distinct (map im_index (chain_put new f c))" if "distinct (map im_index c)" for c
    using that
  proof (induction c)
    case (Cons im c)
    then show ?case using i [of c] by (auto simp: assms(1))
  qed (simp add: assms(1))
  moreover have "\<forall>im \<in> set (chain_put new f c). idx_hash (im_index im) = h"
    using i [of c] assms(2,3) by (auto simp: chain_ok_def)
  ultimately show ?thesis using assms(2) by (simp add: chain_ok_def)
qed

interpretation links: keyed_table ll_find "\<lambda>k. put_entry (fresh_entry junk k)" im_index "fresh_entry junk" chains_ok
  for junk
proof (unfold_locales, goal_cases)
  case (1 st f k)
  then show ?case
    by (auto simp: fun_eq_iff ll_find_def idxhead_def put_entry_def Let_def chains_ok_def find_chain_put nth_list_update)
next
  case (2 st f k)
  then show ?case
    by (auto simp: put_entry_def Let_def chains_ok_def nth_list_update intro!: chain_put_ok)
qed

section \<open>Announcements\<close>

text \<open>What one message says about a link, and when a message says it.\<close>

record link_info =
  l_index :: u32
  l_type :: u16
  l_flags :: u32
  l_addr :: "u8 list option"
  l_name :: string

definition announces :: "u8 list \<Rightarrow> link_info \<Rightarrow> bool" where
  "announces h l \<longleftrightarrow> h_type h = RTM_NEWLINK \<and> le16 (drop 18 h) = l_type l \<and> le32 (drop 20 h) = l_index l
     \<and> le32 (drop 24 h) = l_flags l \<and> length (l_name l) < IFNAMSIZ \<and> CHR 0x00 \<notin> set (l_name l)
     \<and> (\<exists>as. holds_attrs (drop 32 h) as \<and> (\<forall>a \<in> set as. 4 + length (snd a) < 2 ^ 16) \<and> attrs_size as < 2 ^ 30
          \<and> h_len h = word_of_nat (32 + attrs_size as)
          \<and> attr_map as IFLA_ADDRESS = l_addr l \<and> attr_map as IFLA_IFNAME = Some (str_bytes (l_name l) @ [0]))"

text \<open>What the entry of a link becomes.\<close>

definition record_link :: "link_info \<Rightarrow> ll_cache \<Rightarrow> ll_cache" where
  "record_link l im =
     (let alen = (case l_addr l of None \<Rightarrow> 0 | Some a \<Rightarrow> length a);
          a = (case l_addr l of None \<Rightarrow> replicate ADDRSIZ 0 | Some a \<Rightarrow> take ADDRSIZ a)
      in set_name (l_name l) (im\<lparr>im_type := l_type l, im_flags := l_flags l, im_alen := word_of_nat alen,
           im_mem := poke IFNAMSIZ a (im_mem im)\<rparr>))"

lemma record_link_index [simp]: "im_index (record_link l im) = im_index im"
  by (simp add: record_link_def set_name_def Let_def)

lemma take_payload:
  assumes "rta_payload a = p" "RTA_PAYLOAD a = int (length p)"
  shows "take (nat (min (RTA_PAYLOAD a) (int n))) (RTA_DATA a) = take n p"
proof -
  have "take n p = take (min n (length p)) (RTA_DATA a)"
    using assms by (simp add: rta_payload_def flip: take_take)
  moreover have "nat (min (RTA_PAYLOAD a) (int n)) = min n (length p)" using assms(2) by auto
  ultimately show ?thesis by simp
qed

lemma announced_attrs:
  assumes "announces h l"
  obtains tb nm where "fst (parse_rtattr IFLA_MAX (drop 32 h) (sint (h_len h - 32))) = tb" "\<not> uint (h_len h) < 24"
    "tb ! IFLA_IFNAME = Some nm" "c_str (RTA_DATA nm) = l_name l"
    "map_option rta_payload (tb ! IFLA_ADDRESS) = l_addr l"
    "\<And>a. tb ! IFLA_ADDRESS = Some a \<Longrightarrow> RTA_PAYLOAD a = int (length (rta_payload a))"
proof -
  obtain as where as: "holds_attrs (drop 32 h) as" "\<forall>a \<in> set as. 4 + length (snd a) < 2 ^ 16" "attrs_size as < 2 ^ 30"
    "h_len h = word_of_nat (32 + attrs_size as)" "attr_map as IFLA_ADDRESS = l_addr l"
    "attr_map as IFLA_IFNAME = Some (str_bytes (l_name l) @ [0])" and nn: "CHR 0x00 \<notin> set (l_name l)"
    using assms by (auto simp: announces_def)
  let ?tb0 = "replicate (IFLA_MAX + 1) None"
  obtain tb where tb: "parse_rtattr_loop IFLA_MAX ?tb0 (drop 32 h) (int (attrs_size as)) = (tb, 0)"
    "\<forall>t \<le> IFLA_MAX. map_option rta_payload (tb ! t) = attr_map as t"
    using parse_rtattr_loop_holds [OF as(1,2), of ?tb0 IFLA_MAX] by (auto simp del: replicate_Suc)
  have "h_len h - 32 = word_of_nat (attrs_size as)" using as(4) by simp
  then have sl: "sint (h_len h - 32) = int (attrs_size as)"
    using as(3) by (simp add: sint_uint unsigned_of_nat take_bit_nat_eq_self signed_take_bit_int_eq_self)
  have le: "IFLA_ADDRESS \<le> IFLA_MAX" "IFLA_IFNAME \<le> IFLA_MAX"
    by (simp_all add: IFLA_ADDRESS_def IFLA_IFNAME_def IFLA_MAX_def)
  then obtain nm where nm: "tb ! IFLA_IFNAME = Some nm" "rta_payload nm = str_bytes (l_name l) @ [0]"
    using tb(2) as(6) by fastforce
  then have "RTA_DATA nm = str_bytes (l_name l) @ 0 # drop (nat (RTA_PAYLOAD nm)) (RTA_DATA nm)"
    using append_take_drop_id [of "nat (RTA_PAYLOAD nm)" "RTA_DATA nm"] by (simp add: rta_payload_def)
  then have "c_str (RTA_DATA nm) = l_name l" using c_str_bytes [OF nn] by metis
  moreover have "RTA_PAYLOAD a = int (length (rta_payload a))" if "tb ! IFLA_ADDRESS = Some a" for a
    using parse_rtattr_loop_whole [OF as(1,2) le(1), of ?tb0 a] that tb(1) le(1) by (simp del: replicate_Suc)
  moreover have "\<not> uint (h_len h) < 24" using as(3,4) by (simp add: uint_nat unat_of_nat del: of_nat_add)
  ultimately show thesis
    using that [of tb nm] tb le as(5) nm(1) sl by (simp add: parse_rtattr_def del: replicate_Suc)
qed

lemma set_addr_payload:
  assumes "map_option rta_payload rta = ad" "\<And>a. rta = Some a \<Longrightarrow> RTA_PAYLOAD a = int (length (rta_payload a))"
  shows "set_addr rta im = im\<lparr>im_alen := word_of_nat (case ad of None \<Rightarrow> 0 | Some a \<Rightarrow> length a),
    im_mem := poke IFNAMSIZ (case ad of None \<Rightarrow> replicate ADDRSIZ 0 | Some a \<Rightarrow> take ADDRSIZ a) (im_mem im)\<rparr>"
proof (cases rta)
  case (Some a)
  then show ?thesis using assms take_payload [of a "rta_payload a" ADDRSIZ] by (auto simp: set_addr_def Let_def)
qed (use assms in \<open>auto simp: set_addr_def\<close>)

lemma remember_announced:
  assumes "announces h l"
  shows "ll_remember_index junk h st = (0, put_entry (fresh_entry junk (l_index l)) (record_link l) st)"
proof -
  obtain tb nm where t: "fst (parse_rtattr IFLA_MAX (drop 32 h) (sint (h_len h - 32))) = tb" "\<not> uint (h_len h) < 24"
    "tb ! IFLA_IFNAME = Some nm" "c_str (RTA_DATA nm) = l_name l"
    "map_option rta_payload (tb ! IFLA_ADDRESS) = l_addr l"
    "\<And>a. tb ! IFLA_ADDRESS = Some a \<Longrightarrow> RTA_PAYLOAD a = int (length (rta_payload a))"
    using announced_attrs [OF assms] by metis
  have f: "h_type h = RTM_NEWLINK" "le16 (drop 18 h) = l_type l" "le32 (drop 20 h) = l_index l" "le32 (drop 24 h) = l_flags l"
    using assms by (simp_all add: announces_def)
  show ?thesis
    using t(1-4) f by (simp add: ll_remember_index_def set_addr_payload [OF t(5,6)] fresh_entry_def record_link_def [abs_def] Let_def)
qed

section \<open>The table is the map of the last announcements\<close>

definition remember_all :: "u8 list \<Rightarrow> u8 list list \<Rightarrow> ll_map \<Rightarrow> ll_map" where
  "remember_all junk hs st = fold (\<lambda>h st. snd (ll_remember_index junk h st)) hs st"

definition last_link :: "link_info list \<Rightarrow> u32 \<Rightarrow> link_info option" where
  "last_link ls idx = find (\<lambda>l. l_index l = idx) (rev ls)"

definition link_view :: "ll_cache \<Rightarrow> u16 \<times> u32 \<times> string \<times> u8 list" where
  "link_view im = (im_type im, im_flags im, im_name im, take (unat (im_alen im)) (im_addr im))"

definition info_view :: "link_info \<Rightarrow> u16 \<times> u32 \<times> string \<times> u8 list" where
  "info_view l = (l_type l, l_flags l, l_name l, case l_addr l of None \<Rightarrow> [] | Some a \<Rightarrow> take ADDRSIZ a)"

lemma attr_map_in: "attr_map as t = Some d \<Longrightarrow> \<exists>a \<in> set as. snd a = d"
  by (force simp: attr_map_def dest!: map_of_SomeD)

lemma record_link_view:
  assumes "announces h l" "length (im_mem im) = IFNAMSIZ + ADDRSIZ"
  shows "length (im_mem (record_link l im)) = IFNAMSIZ + ADDRSIZ" "link_view (record_link l im) = info_view l"
proof -
  have nm: "length (l_name l) < 16" "CHR 0x00 \<notin> set (l_name l)"
    using assms(1) by (simp_all add: announces_def IFNAMSIZ_def)
  have al: "length a < 2 ^ 16" if ad: "l_addr l = Some a" for a
  proof -
    obtain as where as: "\<forall>a \<in> set as. 4 + length (snd a) < 2 ^ 16" "attr_map as IFLA_ADDRESS = l_addr l"
      using assms(1) by (auto simp: announces_def)
    obtain b where "b \<in> set as" "snd b = a" using attr_map_in [of as IFLA_ADDRESS a] as(2) ad by auto
    with as(1) show ?thesis by auto
  qed
  let ?a = "case l_addr l of None \<Rightarrow> replicate ADDRSIZ 0 | Some a \<Rightarrow> take ADDRSIZ a"
  have m: "im_mem (record_link l im) = str_bytes (l_name l) @ 0 # drop (length (l_name l) + 1) (poke IFNAMSIZ ?a (im_mem im))"
    by (simp add: record_link_def set_name_def Let_def poke_def)
  show len: "length (im_mem (record_link l im)) = IFNAMSIZ + ADDRSIZ"
    using nm assms(2) by (auto simp: m poke_def IFNAMSIZ_def ADDRSIZ_def split: option.splits)
  have "drop IFNAMSIZ (im_mem (record_link l im)) = drop IFNAMSIZ (poke IFNAMSIZ ?a (im_mem im))"
    using nm(1) by (simp add: m IFNAMSIZ_def drop_Cons')
  also have "\<dots> = ?a @ drop (IFNAMSIZ + length ?a) (im_mem im)" using assms(2) by (subst drop_poke) simp_all
  finally have "im_addr (record_link l im) = take ADDRSIZ (?a @ drop (IFNAMSIZ + length ?a) (im_mem im))"
    by (simp add: im_addr_def)
  moreover have "unat (im_alen (record_link l im)) = (case l_addr l of None \<Rightarrow> 0 | Some a \<Rightarrow> length a)"
    using al by (auto simp: record_link_def set_name_def Let_def unat_of_nat split: option.splits)
  moreover have "im_name (record_link l im) = l_name l" using nm(2) by (simp add: im_name_def m)
  moreover have "im_type (record_link l im) = l_type l" "im_flags (record_link l im) = l_flags l"
    by (simp_all add: record_link_def set_name_def Let_def)
  ultimately show "link_view (record_link l im) = info_view l"
    by (auto simp: link_view_def info_view_def min_def split: option.splits)
qed

lemma find_map_eq: "find P (map f xs) = map_option f (find (\<lambda>x. P (f x)) xs)"
  by (induction xs) auto

lemma remember_all_updates:
  assumes "list_all2 announces hs ls"
  shows "remember_all junk hs st = fold (\<lambda>(k, f). put_entry (fresh_entry junk k) f) (map (\<lambda>l. (l_index l, record_link l)) ls) st"
  using assms
proof (induction arbitrary: st rule: list_all2_induct)
  case (Cons h hs l ls)
  then show ?case by (simp add: remember_all_def remember_announced)
qed (simp add: remember_all_def)

lemma init_ok: "chains_ok ll_map_init" "ll_find ll_map_init = Map.empty"
  by (auto simp: chains_ok_def chain_ok_def ll_map_init_def ll_find_def idxhead_def)

lemma remember_all_view:
  assumes "list_all2 announces hs ls" "length junk = IFNAMSIZ + ADDRSIZ"
  defines "st \<equiv> remember_all junk hs ll_map_init"
  shows "chains_ok st" "map_option link_view (ll_find st idx) = map_option info_view (last_link ls idx)"
    "ll_find st idx = Some im \<Longrightarrow> length (im_mem im) = IFNAMSIZ + ADDRSIZ"
proof -
  let ?us = "map (\<lambda>l. (l_index l, record_link l)) ls"
  let ?good = "\<lambda>im. length (im_mem im) = IFNAMSIZ + ADDRSIZ"
  let ?g = "\<lambda>f. link_view (f (fresh_entry junk 0))"
  have ex: "\<exists>h. announces h l" if "l \<in> set ls" for l
    using assms(1) that by (auto simp: list_all2_conv_all_nth in_set_conv_nth)
  have fresh: "?good (fresh_entry junk k)" for k using assms(2) by (simp add: fresh_entry_def)
  have kf: "im_index (f v) = im_index v" if "(k, f) \<in> set ?us" for k f v using that by auto
  have r: "chains_ok st" "ll_find st = fold (links.abstract_update junk) ?us Map.empty"
  proof -
    have "chains_ok st \<and> ll_find st = fold (links.abstract_update junk) ?us (ll_find ll_map_init)"
      unfolding st_def remember_all_updates [OF assms(1)] by (rule links.updates_refine) (use init_ok kf in auto)
    then show "chains_ok st" "ll_find st = fold (links.abstract_update junk) ?us Map.empty" by (simp_all add: init_ok)
  qed
  then show "chains_ok st" by simp
  have view: "?good (record_link l v)" "link_view (record_link l v) = info_view l" if "l \<in> set ls" "?good v" for l v
    using record_link_view ex [OF that(1)] that(2) by blast+
  have "?good (f v) \<and> link_view (f v) = ?g f" if "(k, f) \<in> set ?us" "?good v" for k f v
    using that view fresh by auto
  from links.abstract_last [where good = ?good and p = link_view and m = Map.empty and us = ?us and g = ?g and junk = junk and k = idx,
      OF fresh _ this]
  have l: "ll_find st idx = Some im \<Longrightarrow> ?good im" and
    v: "map_option link_view (ll_find st idx) = map_option (\<lambda>l. ?g (record_link l)) (last_link ls idx)" for im
    by (auto simp: r(2) rev_map find_map_eq last_link_def split: option.splits)
  show "ll_find st idx = Some im \<Longrightarrow> ?good im" by (rule l)
  have "?g (record_link l) = info_view l" if "last_link ls idx = Some l" for l
  proof -
    have "l \<in> set (rev ls)" using that by (auto simp: last_link_def find_Some_iff simp del: set_rev)
    then show ?thesis using view(2) fresh by simp
  qed
  then show "map_option link_view (ll_find st idx) = map_option info_view (last_link ls idx)"
    unfolding v by (cases "last_link ls idx") auto
qed

text \<open>
  C30: the table of links is the map of the last announcements. After any sequence of link
  announcements the lookups of a link by its index give the name, type, flags and address
  of the last announcement for it, and the defaults for a link never announced.
\<close>
theorem link_table_refines:
  assumes "list_all2 announces hs ls" "length junk = IFNAMSIZ + ADDRSIZ" "idx \<noteq> 0"
  shows "let st = remember_all junk hs ll_map_init in
    case last_link ls idx of
      None \<Rightarrow> ll_index_to_name st idx = snprintf IFNAMSIZ (''if'' @ show_int (sint idx))
        \<and> ll_index_to_type st idx = - 1 \<and> ll_index_to_flags st idx = 0 \<and> ll_index_to_addr st idx n = []
    | Some l \<Rightarrow> ll_index_to_name st idx = l_name l \<and> ll_index_to_type st idx = uint (l_type l)
        \<and> ll_index_to_flags st idx = l_flags l
        \<and> ll_index_to_addr st idx n = take n (case l_addr l of None \<Rightarrow> [] | Some a \<Rightarrow> take ADDRSIZ a)"
proof -
  let ?st = "remember_all junk hs ll_map_init"
  note v = remember_all_view(2,3) [OF assms(1,2), of idx]
  show ?thesis
  proof (cases "ll_find ?st idx")
    case None
    then have "last_link ls idx = None" using v(1) by simp
    with None assms(3) show ?thesis
      by (simp add: ll_index_to_name_def ll_idx_n2a_def ll_index_to_type_def ll_index_to_flags_def ll_index_to_addr_def Let_def)
  next
    case (Some im)
    then obtain l where l: "last_link ls idx = Some l" "link_view im = info_view l"
      using v(1) by (cases "last_link ls idx") auto
    have "length (im_addr im) = ADDRSIZ" using v(2) [OF Some] by (simp add: im_addr_def)
    then have "take (min (min n ADDRSIZ) (unat (im_alen im))) (im_addr im) = take n (take (unat (im_alen im)) (im_addr im))"
      by (auto simp: min_def)
    with Some l assms(3) show ?thesis
      by (simp add: ll_index_to_name_def ll_idx_n2a_def ll_index_to_type_def ll_index_to_flags_def ll_index_to_addr_def
          link_view_def info_view_def Let_def)
  qed
qed


text \<open>A message that announces a link: the name first, then the address, both padded.\<close>

definition padded :: "u16 \<Rightarrow> u8 list \<Rightarrow> u8 list" where
  "padded t d = rta_bytes (4 + length d) t d @ replicate (RTA_ALIGN (4 + length d) - (4 + length d)) 0"

definition link_attrs :: "link_info \<Rightarrow> attr list" where
  "link_attrs l = (word_of_nat IFLA_IFNAME, str_bytes (l_name l) @ [0])
     # (case l_addr l of None \<Rightarrow> [] | Some a \<Rightarrow> [(word_of_nat IFLA_ADDRESS, a)])"

definition link_message :: "u32 \<Rightarrow> u32 \<Rightarrow> link_info \<Rightarrow> nl_message" where
  "link_message pid seq l = \<lparr>m_type = RTM_NEWLINK, m_flags = 0, m_seq = seq, m_pid = pid, m_payload =
     [0, 0] @ le16_bytes (l_type l) @ le32_bytes (l_index l) @ le32_bytes (l_flags l) @ le32_bytes 0
     @ concat (map (\<lambda>(t, d). padded t d) (link_attrs l))\<rparr>"

lemma length_padded [simp]: "length (padded t d) = attr_size (t, d)"
  using attr_size_ge [of "(t, d)"] by (simp add: padded_def attr_size_def)

lemma holds_padded: "holds_attrs (concat (map (\<lambda>(t, d). padded t d) as)) as"
proof (induction as)
  case (Cons a as)
  obtain t d where "a = (t, d)" by fastforce
  moreover have "take (4 + length d) (padded t d @ r) = rta_bytes (4 + length d) t d" for r
    by (simp add: padded_def)
  ultimately show ?case using Cons length_padded [of t d] by simp
qed simp

lemma length_padded_all: "length (concat (map (\<lambda>(t, d). padded t d) as)) = attrs_size as"
  by (induction as) auto

lemma link_attrs_small:
  assumes "length (l_name l) < IFNAMSIZ" "\<And>a. l_addr l = Some a \<Longrightarrow> length a \<le> 2 ^ 15"
  shows "\<forall>a \<in> set (link_attrs l). 4 + length (snd a) < 2 ^ 16" "attrs_size (link_attrs l) < 2 ^ 20"
proof -
  let ?as = "link_attrs l"
  show b: "\<forall>a \<in> set ?as. 4 + length (snd a) < 2 ^ 16"
    using assms by (cases "l_addr l") (auto simp: link_attrs_def IFNAMSIZ_def le_less_trans)
  have "attr_size a \<le> length (snd a) + 7" for a unfolding attr_size_def RTA_ALIGN_def by linarith
  then have sz: "attr_size a < 2 ^ 17" if "a \<in> set ?as" for a
    using b that by (intro le_less_trans [of "attr_size a" "length (snd a) + 7"]) auto
  show "attrs_size ?as < 2 ^ 20"
  proof (cases "l_addr l")
    case None
    then show ?thesis using sz [of "hd ?as"] by (simp add: link_attrs_def)
  next
    case (Some a)
    then show ?thesis using sz [of "hd ?as"] sz [of "?as ! 1"] by (simp add: link_attrs_def)
  qed
qed

lemma link_message_announces:
  assumes "length (l_name l) < IFNAMSIZ" "CHR 0x00 \<notin> set (l_name l)" "\<And>a. l_addr l = Some a \<Longrightarrow> length a \<le> 2 ^ 15"
  shows "msg_ok (link_message pid seq l)" "announces (msg_bytes (link_message pid seq l)) l"
proof -
  let ?m = "link_message pid seq l"
  let ?as = "link_attrs l"
  note sm = link_attrs_small [OF assms(1,3)]
  have len: "length (m_payload ?m) = 16 + attrs_size ?as" by (simp add: link_message_def length_padded_all)
  show ok: "msg_ok ?m"
    using sm(2) attrs_size_dvd [of ?as] unfolding msg_ok_def len by (auto simp: mod_eq_0_iff_dvd)
  have "drop 32 (msg_bytes ?m) = concat (map (\<lambda>(t, d). padded t d) ?as)"
    "le16 (drop 18 (msg_bytes ?m)) = l_type l" "le32 (drop 20 (msg_bytes ?m)) = l_index l" "le32 (drop 24 (msg_bytes ?m)) = l_flags l"
    by (simp_all add: msg_bytes_def link_message_def)
  moreover have "attr_map ?as IFLA_ADDRESS = l_addr l" "attr_map ?as IFLA_IFNAME = Some (str_bytes (l_name l) @ [0])"
    by (auto simp: attr_map_def link_attrs_def IFLA_ADDRESS_def IFLA_IFNAME_def split: option.splits)
  moreover have "h_type (msg_bytes ?m) = RTM_NEWLINK" using msg_header(4) [OF ok, of "[]"] by (simp add: link_message_def)
  moreover have "h_len (msg_bytes ?m) = word_of_nat (32 + attrs_size ?as)"
    by (simp add: h_len_def msg_bytes_def nlmsghdr_bytes_def len le32_le32_bytes [of _ "[]", simplified])
  ultimately show "announces (msg_bytes ?m) l"
    unfolding announces_def using assms(1,2) sm holds_padded [of ?as] by (intro conjI exI [of _ ?as]) simp_all
qed

text \<open>Two links, the second announced again under another name.\<close>

definition example_links :: "link_info list" where
  "example_links =
     [\<lparr>l_index = 1, l_type = 772, l_flags = 73, l_addr = None, l_name = ''lo''\<rparr>,
      \<lparr>l_index = 2, l_type = 1, l_flags = 67, l_addr = Some [0, 1, 2, 3, 4, 5], l_name = ''eth0''\<rparr>,
      \<lparr>l_index = 2, l_type = 1, l_flags = 67, l_addr = Some [0, 1, 2, 3, 4, 5], l_name = ''wan''\<rparr>]"

lemma example_announced:
  assumes "l \<in> set example_links"
  shows "msg_ok (link_message pid seq l)" "announces (msg_bytes (link_message pid seq l)) l"
  by (rule link_message_announces; use assms in \<open>auto simp: example_links_def IFNAMSIZ_def\<close>)+

definition example_msgs :: "u8 list list" where
  "example_msgs = map (\<lambda>l. msg_bytes (link_message 0 1 l)) example_links"

lemma example_msgs_announce: "list_all2 announces example_msgs example_links"
  using example_announced(2) by (auto simp: example_msgs_def list_all2_conv_all_nth)

theorem link_table_refines_witness:
  "let st = remember_all (replicate 36 0) example_msgs ll_map_init in
    ll_index_to_name st 2 = ''wan'' \<and> ll_index_to_type st 2 = 1 \<and> ll_index_to_addr st 2 4 = [0, 1, 2, 3]"
  using link_table_refines [OF example_msgs_announce, of "replicate 36 0" 2 4]
  by (simp add: last_link_def example_links_def IFNAMSIZ_def ADDRSIZ_def Let_def)

section \<open>Lookup by name\<close>

lemma remember_caches:
  "icache (snd (ll_remember_index junk h st)) = icache st" "ncache (snd (ll_remember_index junk h st)) = ncache st"
  by (auto simp: ll_remember_index_def put_entry_def Let_def split: option.splits)

lemma remember_all_caches:
  "icache (remember_all junk hs st) = icache st \<and> ncache (remember_all junk hs st) = ncache st"
  by (induction hs arbitrary: st) (simp_all add: remember_all_def remember_caches)

lemma find_in_chains:
  assumes "chains_ok st" "im \<in> set (concat (idx_head st))"
  shows "ll_find st (im_index im) = Some im"
proof -
  obtain h where h: "h < IDXMAP_SIZE" "im \<in> set (idx_head st ! h)"
    using assms by (auto simp: chains_ok_def in_set_conv_nth [of _ "idx_head st"])
  then have c: "chain_ok h (idx_head st ! h)" using assms(1) by (simp add: chains_ok_def)
  then have "idx_hash (im_index im) = h" using h(2) by (simp add: chain_ok_def)
  moreover have "find (\<lambda>x. im_index x = im_index im) c = Some im" if "im \<in> set c" "distinct (map im_index c)" for c
    using that by (induction c) force+
  ultimately show ?thesis using h(2) c by (simp add: ll_find_def idxhead_def chain_ok_def)
qed

lemma find_chain_in:
  assumes "chains_ok st" "ll_find st idx = Some im"
  shows "im \<in> set (concat (idx_head st))" "im_index im = idx"
proof -
  have "im \<in> set (idx_head st ! idx_hash idx)" "im_index im = idx"
    using assms(2) by (auto simp: ll_find_def idxhead_def find_Some_iff)
  moreover have "idx_hash idx < length (idx_head st)" using assms(1) by (simp add: chains_ok_def)
  ultimately show "im \<in> set (concat (idx_head st))" "im_index im = idx" by (auto intro: nth_mem)
qed

text \<open>The link that was last announced under an index, and under a name no other has.\<close>

definition only_link :: "link_info list \<Rightarrow> u32 \<Rightarrow> link_info \<Rightarrow> bool" where
  "only_link ls idx l \<longleftrightarrow> last_link ls idx = Some l \<and> (\<forall>j l'. last_link ls j = Some l' \<and> l_name l' = l_name l \<longrightarrow> j = idx)"

lemma link_name_found:
  assumes "list_all2 announces hs ls" "length junk = IFNAMSIZ + ADDRSIZ" "only_link ls idx l"
  shows "\<exists>st'. ll_name_to_index g (Some (l_name l)) (remember_all junk hs ll_map_init) = (idx, st')
    \<and> ll_name_to_index g (Some (l_name l)) st' = (idx, st')"
proof -
  let ?st = "remember_all junk hs ll_map_init"
  note v = remember_all_view(1,2) [OF assms(1,2)]
  have view: "\<exists>l'. last_link ls j = Some l' \<and> l_name l' = im_name im" if "ll_find ?st j = Some im" for j im
    using v(2) [of j] that by (cases "last_link ls j") (auto simp: link_view_def info_view_def)
  obtain im0 where im0: "ll_find ?st idx = Some im0" "im_name im0 = l_name l"
    using v(2) [of idx] assms(3) by (cases "ll_find ?st idx") (auto simp: only_link_def link_view_def info_view_def)
  have only: "im_index im = idx" if "im \<in> set (concat (idx_head ?st))" "im_name im = l_name l" for im
    using view [OF find_in_chains [OF v(1) that(1)]] assms(3) that(2) by (auto simp: only_link_def)
  obtain im where im: "find (\<lambda>im. im_name im = l_name l) (concat (idx_head ?st)) = Some im"
    using find_chain_in(1) [OF v(1) im0(1)] im0(2) by (cases "find (\<lambda>im. im_name im = l_name l) (concat (idx_head ?st))") (auto simp: find_None_iff)
  then have "im_index im = idx" using only by (auto simp: find_Some_iff simp del: set_concat)
  moreover have "icache ?st = 0" using remember_all_caches by (simp add: ll_map_init_def)
  ultimately show ?thesis using im by (auto simp: ll_name_to_index_def)
qed

text \<open>
  The name of a link leads back to its index. When no other link was last announced
  under the same name, the lookup by name finds the index without asking the library, and
  finds it again.
\<close>
lemma link_name_roundtrip:
  assumes "list_all2 announces hs ls" "length junk = IFNAMSIZ + ADDRSIZ" "only_link ls idx l"
  shows "\<exists>st'. ll_name_to_index g (Some (l_name l)) (remember_all junk hs ll_map_init) = (idx, st')
    \<and> ll_name_to_index g (Some (l_name l)) st' = (idx, st')"
  using assms by (rule link_name_found)

lemma example_only: "only_link example_links 2 (example_links ! 2)"
proof -
  have ll: "last_link example_links j = (if j = 2 then Some (example_links ! 2) else if j = 1 then Some (example_links ! 0) else None)" for j
    by (auto simp: last_link_def example_links_def)
  have "l_name (example_links ! 0) \<noteq> l_name (example_links ! 2)" by (simp add: example_links_def)
  then show ?thesis
    unfolding only_link_def ll by (auto simp only: option.inject option.distinct split: if_splits)
qed

text \<open>A name that was found stays found: announcements do not reach the name remembered last.\<close>

lemma name_cache_stale:
  "icache st \<noteq> 0 \<Longrightarrow> fst (ll_name_to_index g (Some (ncache st)) (remember_all junk hs st)) = icache st"
  by (simp add: ll_name_to_index_def remember_all_caches)

section \<open>Filling the table\<close>

text \<open>What stands behind a message in the buffer does not change what it announces.\<close>

lemma announces_append:
  assumes "announces h l" "32 \<le> length h"
  shows "announces (h @ r) l"
proof -
  obtain as where as: "holds_attrs (drop 32 h) as" "\<forall>a \<in> set as. 4 + length (snd a) < 2 ^ 16" "attrs_size as < 2 ^ 30"
    "h_len h = word_of_nat (32 + attrs_size as)" "attr_map as IFLA_ADDRESS = l_addr l"
    "attr_map as IFLA_IFNAME = Some (str_bytes (l_name l) @ [0])"
    using assms(1) by (auto simp: announces_def)
  have "holds_attrs (drop 32 (h @ r)) as"
    by (rule holds_attrs_take [OF as(1)]) (use holds_attrs_length [OF as(1)] assms(2) in simp)
  moreover have "h_type (h @ r) = h_type h" "h_len (h @ r) = h_len h" "le16 (drop 18 (h @ r)) = le16 (drop 18 h)"
    "le32 (drop 20 (h @ r)) = le32 (drop 20 h)" "le32 (drop 24 (h @ r)) = le32 (drop 24 h)"
    using assms(2) by (simp_all add: h_type_def h_len_def le16_def le32_def nth_append)
  ultimately show ?thesis
    using assms(1) as(2-) unfolding announces_def by (intro conjI exI [of _ as]) auto
qed

text \<open>The messages of a dump of links for a handle: announcements, and the end.\<close>

definition link_dump :: "u32 \<Rightarrow> u32 \<Rightarrow> (nl_message \<times> link_info) list \<Rightarrow> nl_message \<Rightarrow> (u32 \<times> nl_message) list \<Rightarrow> bool" where
  "link_dump pid seq mls fin ms \<longleftrightarrow> ms = map (Pair 0) (map fst mls @ [fin]) \<and> m_type fin = NLMSG_DONE
     \<and> m_pid fin = pid \<and> m_seq fin = seq
     \<and> (\<forall>(m, l) \<in> set mls. m_pid m = pid \<and> m_seq m = seq \<and> 16 \<le> length (m_payload m) \<and> announces (msg_bytes m) l)"

lemma remember_all_Cons: "remember_all junk (h # hs) st = remember_all junk hs (snd (ll_remember_index junk h st))"
  by (simp add: remember_all_def)

lemma announced_type: "msg_ok m \<Longrightarrow> announces (msg_bytes m) l \<Longrightarrow> m_type m = RTM_NEWLINK"
  using msg_header(4) [of m "[]"] by (simp add: announces_def)

lemma dump_list_links:
  assumes "link_dump pid seq mls fin ms" "\<forall>(_, m) \<in> set ms. msg_ok m"
  shows "dump_list (\<lambda>(p, m). p = 0 \<and> m_pid m = pid \<and> m_seq m = seq) (\<lambda>m. ll_remember_index junk (msg_bytes m)) ms st =
    (Inr True, remember_all junk (map (\<lambda>(m, _). msg_bytes m) mls) st)"
  using assms
proof (induction mls arbitrary: ms st)
  case Nil
  then show ?case by (auto simp: link_dump_def remember_all_def)
next
  case (Cons ml mls)
  obtain m l where ml: "ml = (m, l)" by fastforce
  obtain ms' where ms: "ms = (0, m) # ms'" "link_dump pid seq mls fin ms'" "\<forall>(_, m) \<in> set ms'. msg_ok m"
    using Cons.prems by (auto simp: ml link_dump_def)
  have m: "m_pid m = pid" "m_seq m = seq" "announces (msg_bytes m) l" "msg_ok m"
    using Cons.prems by (auto simp: ml ms(1) link_dump_def)
  note t = announced_type [OF m(4,3)]
  show ?case
    using Cons.IH [OF ms(2,3)] m t
    by (simp add: ms(1) ml remember_all_Cons remember_announced [OF m(3)] RTM_NEWLINK_def NLMSG_DONE_def NLMSG_ERROR_def)
qed

lemma init_map_links:
  assumes "list_all delivery_ok ds" "link_dump (rh_pid rth) (rh_seq rth + 1) mls fin (delivered ds)" "\<not> initialized st"
  shows "ll_init_map junk True (map deliver ds) buf (rth, st) =
    (Returned 0 (), rth\<lparr>rh_seq := rh_seq rth + 1, rh_dump := rh_seq rth + 1\<rparr>,
     (remember_all junk (map (\<lambda>(m, _). msg_bytes m) mls) st)\<lparr>initialized := True\<rparr>)"
proof -
  let ?rth = "rth\<lparr>rh_seq := rh_seq rth + 1, rh_dump := rh_seq rth + 1\<rparr>"
  have ok: "\<forall>(_, m) \<in> set (delivered ds). msg_ok m"
    using assms(1) by (auto simp: delivered_def delivery_ok_def list_all_iff split: option.splits prod.splits)
  have "ll_remember_index junk (msg_bytes m @ r) s = ll_remember_index junk (msg_bytes m) s"
    if mem: "(pid, m) \<in> set (delivered ds)" for pid m r s
  proof (cases "m = fin")
    case True
    then have "m_type m = NLMSG_DONE" "msg_ok m" using assms(2) mem ok by (auto simp: link_dump_def)
    then have "h_type (msg_bytes m @ r') \<noteq> RTM_NEWLINK" for r'
      using msg_header(4) [of m r'] by (simp add: NLMSG_DONE_def RTM_NEWLINK_def)
    from this [of r] this [of "[]"] show ?thesis by (simp add: ll_remember_index_def)
  next
    case False
    then obtain l where l: "(m, l) \<in> set mls" using assms(2) mem by (auto simp: link_dump_def)
    then have "announces (msg_bytes m) l" "32 \<le> length (msg_bytes m)"
      using assms(2) by (auto simp: link_dump_def length_msg_bytes)
    then show ?thesis using announces_append remember_announced by metis
  qed
  then have "rtnl_dump_filter ?rth (ll_remember_index junk) None (map deliver ds) buf st =
      (Returned 0 (), remember_all junk (map (\<lambda>(m, _). msg_bytes m) mls) st)"
    using dump_filter_list [OF assms(1), of "ll_remember_index junk" "\<lambda>m. ll_remember_index junk (msg_bytes m)" ?rth buf st]
      dump_list_links [OF assms(2) ok, of junk st] by simp
  then show ?thesis using assms(3) by (simp add: ll_init_map_def rtnl_wilddump_request_def Let_def)
qed

lemma name_to_index_initialized:
  "ll_name_to_index g nm (st\<lparr>initialized := b\<rparr>) = (case ll_name_to_index g nm st of (i, st) \<Rightarrow> (i, st\<lparr>initialized := b\<rparr>))"
  by (auto simp: ll_name_to_index_def Let_def split: option.splits)

end
