(* ===== verification/Tc_Kind.thy ===== *)
theory Tc_Kind
  imports Tc_Stab Ll_Map
begin

text \<open>
  How \<open>tc\<close> finds the code for a discipline or a filter (\<open>tc/tc.c\<close>), and the options of the rate
  estimator (\<open>tc/m_estimator.c\<close>). The dynamic linker is a parameter.
\<close>

section \<open>Kinds\<close>

text \<open>
  A discipline: reading its options into a message, printing them, printing its statistics,
  and the same for the options of its classes; a pointer that may be null is an option. What is printed to the error stream or to the
  output is part of the result.
\<close>

record qdisc_util =
  q_id :: string
  parse_qopt :: "(string list \<Rightarrow> nlmsg \<Rightarrow> (int \<times> string \<times> nlmsg) cli) option"
  print_qopt :: "u8 list option \<Rightarrow> int \<times> string"
  print_xstats :: "(u8 list option \<Rightarrow> int \<times> string) option"
  parse_copt :: "(string list \<Rightarrow> nlmsg \<Rightarrow> (int \<times> string \<times> nlmsg) cli) option"
  print_copt :: "(u8 list option \<Rightarrow> int \<times> string) option"

record filter_util =
  f_id :: string
  parse_fopt :: "string option \<Rightarrow> string list \<Rightarrow> nlmsg \<Rightarrow> (int \<times> string \<times> nlmsg) cli"
  print_fopt :: "u8 list option \<Rightarrow> u32 \<Rightarrow> int \<times> string"

text \<open>\<open>%u\<close> of the payload length, and \<open>%08x\<close>.\<close>

definition show_payload :: "u8 list \<Rightarrow> string" where
  "show_payload rta = show_dec (nat (RTA_PAYLOAD rta mod 2 ^ 32))"

definition show_08x :: "u32 \<Rightarrow> string" where
  "show_08x w = (let s = show_hex (unat w) in replicate (8 - length s) (CHR ''0'') @ s)"

definition print_noqopt :: "u8 list option \<Rightarrow> int \<times> string" where
  "print_noqopt opt =
     (0, case opt of
           Some a \<Rightarrow> if RTA_PAYLOAD a \<noteq> 0 then ''[Unknown qdisc, optlen='' @ show_payload a @ ''] '' else []
         | None \<Rightarrow> [])"

definition parse_noqopt :: "string \<Rightarrow> string list \<Rightarrow> nlmsg \<Rightarrow> (int \<times> string \<times> nlmsg) cli" where
  "parse_noqopt name argv n =
     (if argv \<noteq> [] then
        Ret (- 1, ''Unknown qdisc \"'' @ name @ ''\", hence option \"'' @ hd argv @ ''\" is unparsable'' @ [CHR 0x0A], n)
      else Ret (0, [], n))"

definition print_nofopt :: "u8 list option \<Rightarrow> u32 \<Rightarrow> int \<times> string" where
  "print_nofopt opt fhandle =
     (0, if (case opt of Some a \<Rightarrow> RTA_PAYLOAD a \<noteq> 0 | None \<Rightarrow> False) then
           ''fh '' @ show_08x fhandle @ '' [Unknown filter, optlen='' @ show_payload (the opt) @ ''] ''
         else if fhandle \<noteq> 0 then ''fh '' @ show_08x fhandle @ '' '' else [])"

text \<open>The handle of a filter goes into the message behind the header.\<close>

definition parse_nofopt :: "string \<Rightarrow> string option \<Rightarrow> string list \<Rightarrow> nlmsg \<Rightarrow> (int \<times> string \<times> nlmsg) cli" where
  "parse_nofopt name fhandle argv n =
     (if argv \<noteq> [] then
        Ret (- 1, ''Unknown filter \"'' @ name @ ''\", hence option \"'' @ hd argv @ ''\" is unparsable'' @ [CHR 0x0A], n)
      else case fhandle of
             None \<Rightarrow> Ret (0, [], n)
           | Some s \<Rightarrow>
               (case get_u32 s 16 of
                  None \<Rightarrow> Ret (- 1, ''Unparsable filter ID \"'' @ s @ ''\"'' @ [CHR 0x0A], n)
                | Some handle \<Rightarrow> Ret (0, [], n\<lparr>nl_buf := poke 24 (le32_bytes handle) (nl_buf n)\<rparr>)))"

text \<open>
  The dynamic linker: a handle for a file or, for no name, for the program itself, and the
  symbols of a handle. \<open>BODY\<close> is the handle of the program once it was asked for.
\<close>

record dl_env =
  tc_lib_dir :: "string option"
  dlopen :: "string option \<Rightarrow> nat option"
  dlsym_qdisc :: "nat \<Rightarrow> string \<Rightarrow> qdisc_util option"
  dlsym_filter :: "nat \<Rightarrow> string \<Rightarrow> filter_util option"

record kinds =
  BODY :: "nat option"
  qdisc_list :: "qdisc_util list"
  filter_list :: "filter_util list"

definition dl_handle :: "dl_env \<Rightarrow> string \<Rightarrow> kinds \<Rightarrow> nat option \<times> kinds" where
  "dl_handle env path ks =
     (case dlopen env (Some (snprintf 256 path)) of
        Some h \<Rightarrow> (Some h, ks)
      | None \<Rightarrow>
          (case BODY ks of
             Some h \<Rightarrow> (Some h, ks)
           | None \<Rightarrow> (dlopen env None, ks\<lparr>BODY := dlopen env None\<rparr>)))"

definition noqopt_util :: "string \<Rightarrow> qdisc_util" where
  "noqopt_util str = \<lparr>q_id = str, parse_qopt = Some (parse_noqopt str), print_qopt = print_noqopt, print_xstats = None,
     parse_copt = None, print_copt = None\<rparr>"

definition get_qdisc_kind :: "dl_env \<Rightarrow> string \<Rightarrow> kinds \<Rightarrow> qdisc_util \<times> kinds" where
  "get_qdisc_kind env str ks =
     (case find (\<lambda>q. q_id q = str) (qdisc_list ks) of
        Some q \<Rightarrow> (q, ks)
      | None \<Rightarrow>
          let (dlh, ks) = dl_handle env (get_tc_lib (tc_lib_dir env) @ ''/q_'' @ str @ ''.so'') ks;
              q = (case dlh of
                     None \<Rightarrow> noqopt_util str
                   | Some h \<Rightarrow>
                       (case dlsym_qdisc env h (snprintf 256 (str @ ''_qdisc_util'')) of
                          Some q \<Rightarrow> q
                        | None \<Rightarrow> noqopt_util str))
          in (q, ks\<lparr>qdisc_list := q # qdisc_list ks\<rparr>))"

definition nofopt_util :: "string \<Rightarrow> filter_util" where
  "nofopt_util str = (let name = take 15 str in \<lparr>f_id = name, parse_fopt = parse_nofopt name, print_fopt = print_nofopt\<rparr>)"

definition get_filter_kind :: "dl_env \<Rightarrow> string \<Rightarrow> kinds \<Rightarrow> filter_util \<times> kinds" where
  "get_filter_kind env str ks =
     (case find (\<lambda>q. f_id q = str) (filter_list ks) of
        Some q \<Rightarrow> (q, ks)
      | None \<Rightarrow>
          let (dlh, ks) = dl_handle env (get_tc_lib (tc_lib_dir env) @ ''/f_'' @ str @ ''.so'') ks;
              q = (case dlh of
                     None \<Rightarrow> nofopt_util str
                   | Some h \<Rightarrow>
                       (case dlsym_filter env h (snprintf 256 (str @ ''_filter_util'')) of
                          Some q \<Rightarrow> q
                        | None \<Rightarrow> nofopt_util str))
          in (q, ks\<lparr>filter_list := q # filter_list ks\<rparr>))"

section \<open>Estimator options\<close>

definition est_help :: string where
  "est_help =
     ''Usage: ... estimator INTERVAL TIME-CONST'' @ [CHR 0x0A]
     @ ''  INTERVAL is interval between measurements'' @ [CHR 0x0A]
     @ ''  TIME-CONST is averaging time constant'' @ [CHR 0x0A]
     @ ''Example: ... est 1sec 8sec'' @ [CHR 0x0A]"

text \<open>An exit after something was printed.\<close>

fun printed_before :: "string \<Rightarrow> 'a cli \<Rightarrow> 'a cli" where
  "printed_before out (Exit status msg) = Exit status (out @ msg)"
| "printed_before out (Ret x) = Ret x"

definition help_text :: "string \<Rightarrow> string" where
  "help_text arg = (if matches arg ''help'' = 0 then est_help else [])"

text \<open>
  The result is the value returned, what was printed, the estimator and the arguments from
  the last one read; the caller's argument pointer moves only on success. \<open>log_d\<close> is \<open>log\<close>.
\<close>

definition parse_estimator :: "(double \<Rightarrow> double) \<Rightarrow> bool \<Rightarrow> string list \<Rightarrow> tc_estimator \<Rightarrow>
    (int \<times> string \<times> tc_estimator \<times> string list) cli" where
  "parse_estimator log_d show_raw argv est =
     (case NEXT_ARG argv of
        Exit status msg \<Rightarrow> Exit status msg
      | Ret argv1 \<Rightarrow>
          if e_ewma_log est \<noteq> 0 then duparg ''estimator'' (hd argv1)
          else let err = help_text (hd argv1)
               in case get_time (hd argv1) of
                    None \<Rightarrow> printed_before err (invarg ''estimator'' ''invalid estimator interval'')
                  | Some A \<Rightarrow>
                      (case NEXT_ARG argv1 of
                         Exit status msg \<Rightarrow> Exit status (err @ msg)
                       | Ret argv2 \<Rightarrow>
                           let err = err @ help_text (hd argv2)
                           in case get_time (hd argv2) of
                                None \<Rightarrow> printed_before err (invarg ''estimator'' ''invalid estimator time constant'')
                              | Some time_const \<Rightarrow>
                                  (case tc_setup_estimator log_d A time_const est of
                                     (r, est) \<Rightarrow>
                                       if r < 0 then Ret (- 1, err @ ''Error: estimator parameters are out of range.'' @ [CHR 0x0A], est, argv)
                                       else Ret (0, err @ (if show_raw then
                                              ''[estimator i='' @ show_dec (nat (e_interval est mod 2 ^ 32)) @ '' e='' @ show_dec (e_ewma_log est) @ '']'' @ [CHR 0x0A]
                                            else []), est, argv2))))"

lemma parse_estimator_shorter:
  assumes "parse_estimator log_d show_raw argv est = Ret (r, err, est', rest)" "r = 0"
  shows "length rest < length argv"
  using assms
  by (auto simp: parse_estimator_def Let_def invarg_def duparg_def
      split: cli.splits if_splits option.splits prod.splits dest!: NEXT_ARG_shorter)

section \<open>The registry\<close>

text \<open>
  A kind once found is found again without asking the linker, and looking for one kind does
  not change what is found for others already registered.
\<close>

lemma get_qdisc_kind_again:
  assumes "get_qdisc_kind env str ks = (q, ks')" "q_id q = str"
  shows "get_qdisc_kind env' str ks' = (q, ks')"
  using assms by (auto simp: get_qdisc_kind_def Let_def split: option.splits prod.splits dest: find_Some_iff [THEN iffD1])

lemma get_qdisc_kind_keeps:
  assumes "get_qdisc_kind env str ks = (q, ks')" "q_id q = str" "str' \<noteq> str"
  shows "find (\<lambda>q. q_id q = str') (qdisc_list ks') = find (\<lambda>q. q_id q = str') (qdisc_list ks)"
  using assms
  by (auto simp: get_qdisc_kind_def dl_handle_def Let_def split: option.splits prod.splits if_splits)

section \<open>What a discipline's parser promises\<close>

text \<open>
  The message with the options of a discipline: behind the bytes that were there stands one
  attribute with \<open>k\<close> bytes that have the property \<open>P\<close>.
\<close>

definition options_added :: "nlmsg \<Rightarrow> nlmsg \<Rightarrow> nat \<Rightarrow> (u8 list \<Rightarrow> bool) \<Rightarrow> bool" where
  "options_added n n' k P \<longleftrightarrow>
     (let r = drop (nlmsg_len n) (nl_buf n')
      in nlmsg_len n' = nlmsg_len n + 4 + k \<and> nlmsg_len n' \<le> length (nl_buf n') \<and> take (nlmsg_len n) (nl_buf n') = take (nlmsg_len n) (nl_buf n)
         \<and> rta_type r = unat TCA_OPTIONS \<and> rta_len r = 4 + k \<and> P (rta_payload r))"

text \<open>
  For the arguments it accepts, a parser adds the bytes it has for them to a message that is
  no longer than the room it counts on.
\<close>

locale qdisc_parser =
  fixes parse :: "string list \<Rightarrow> nlmsg \<Rightarrow> (int \<times> string \<times> nlmsg) cli"
    and accepts :: "string list \<Rightarrow> nat \<Rightarrow> (u8 list \<Rightarrow> bool) \<Rightarrow> bool"
    and room :: nat
  assumes parse_options: "accepts argv k P \<Longrightarrow> nlmsg_len n mod 4 = 0 \<Longrightarrow> nlmsg_len n \<le> room \<Longrightarrow> 4096 \<le> length (nl_buf n) \<Longrightarrow>
      \<exists>err n'. parse argv n = Ret (0, err, n') \<and> options_added n n' k P"
    and accepts_small: "accepts argv k P \<Longrightarrow> 4 dvd k \<and> 4 + k < 2 ^ 16"
    and room_kind: "56 \<le> room"

end
