(* ===== verification/Tc_Qdisc.thy ===== *)
theory Tc_Qdisc
  imports Tc_Kind
begin

text \<open>
  The command \<open>tc qdisc\<close> (\<open>tc/tc_qdisc.c\<close>): reading its arguments, building the request,
  talking to the kernel, and listing disciplines. The state of the process holds the netlink
  handle, the table of links, the kinds registered, the filter for listings, the texts
  printed and the requests handed to the socket.
\<close>

section \<open>The process and its environment\<close>

definition TC_H_INGRESS :: u32 where "TC_H_INGRESS = 0xFFFFFFF1"
definition RTM_NEWQDISC :: u16 where "RTM_NEWQDISC = 36"
definition RTM_DELQDISC :: u16 where "RTM_DELQDISC = 37"
definition RTM_GETQDISC :: u16 where "RTM_GETQDISC = 38"
definition NLM_F_REPLACE :: u16 where "NLM_F_REPLACE = 0x100"
definition NLM_F_EXCL :: u16 where "NLM_F_EXCL = 0x200"
definition NLM_F_CREATE :: u16 where "NLM_F_CREATE = 0x400"
definition TCA_KIND :: nat where "TCA_KIND = 1"
definition TCA_STATS :: nat where "TCA_STATS = 3"
definition TCA_XSTATS :: nat where "TCA_XSTATS = 4"
definition TCA_RATE :: nat where "TCA_RATE = 5"
definition TCA_STATS2 :: nat where "TCA_STATS2 = 7"
definition TCA_STAB :: nat where "TCA_STAB = 8"
definition TCA_MAX :: nat where "TCA_MAX = 8"
definition TCA_STAB_DATA :: nat where "TCA_STAB_DATA = 2"
definition TCA_BUF_MAX :: nat where "TCA_BUF_MAX = 64 * 1024"

record tcmsg =
  tcm_family :: u8
  tcm_ifindex :: s32
  tcm_handle :: u32
  tcm_parent :: u32
  tcm_info :: u32

definition tcmsg_bytes :: "tcmsg \<Rightarrow> u8 list" where
  "tcmsg_bytes t = [tcm_family t, 0, 0, 0] @ le32_bytes (tcm_ifindex t) @ le32_bytes (tcm_handle t)
     @ le32_bytes (tcm_parent t) @ le32_bytes (tcm_info t)"

text \<open>
  What the process is given: the linker, the library functions it calls, the options of the
  command, and for the dump of links and for the request what the socket does.
\<close>

record tc_env =
  e_dl :: dl_env
  e_nametoindex :: "string \<Rightarrow> u32"
  e_log :: "double \<Rightarrow> double"
  e_malloc :: "u32 \<Rightarrow> u16 list option"
  e_junk :: "u8 list"
  e_show_details :: bool
  e_show_stats :: bool
  e_show_raw :: bool
  e_use_iec :: bool
  e_links_sent :: bool
  e_links :: "event list"
  e_sent :: bool
  e_answers :: "event list"
  e_buf :: "u8 list"

record tc_state =
  ts_rth :: rtnl_handle
  ts_map :: ll_map
  ts_kinds :: kinds
  ts_filter :: s32
  ts_err :: string
  ts_out :: string
  ts_requests :: "u8 list list"

text \<open>A command returns, ends the process, waits for the socket, or searches for a cell size forever.\<close>

datatype tc_result = Status int | Quit int | Blocked | Diverges

definition complain :: "string \<Rightarrow> tc_state \<Rightarrow> tc_state" where
  "complain s st = st\<lparr>ts_err := ts_err st @ s\<rparr>"

definition say :: "string \<Rightarrow> tc_state \<Rightarrow> tc_state" where
  "say s st = st\<lparr>ts_out := ts_out st @ s\<rparr>"

definition lookup_kind :: "tc_env \<Rightarrow> string \<Rightarrow> tc_state \<Rightarrow> qdisc_util \<times> tc_state" where
  "lookup_kind env str st = (case get_qdisc_kind (e_dl env) str (ts_kinds st) of (q, ks) \<Rightarrow> (q, st\<lparr>ts_kinds := ks\<rparr>))"

definition qdisc_usage :: string where
  "qdisc_usage =
     ''Usage: tc qdisc [ add | del | replace | change | show ] dev STRING'' @ [CHR 0x0A]
     @ ''       [ handle QHANDLE ] [ root | ingress | parent CLASSID ]'' @ [CHR 0x0A]
     @ ''       [ estimator INTERVAL TIME_CONSTANT ]'' @ [CHR 0x0A]
     @ ''       [ stab [ help | STAB_OPTIONS] ]'' @ [CHR 0x0A]
     @ ''       [ [ QDISC_KIND ] [ help | OPTIONS ] ]'' @ [CHR 0x0A]
     @ [CHR 0x0A]
     @ ''       tc qdisc show [ dev STRING ] [ingress]'' @ [CHR 0x0A]
     @ ''Where:'' @ [CHR 0x0A]
     @ ''QDISC_KIND := { [p|b]fifo | tbf | prio | cbq | red | etc. }'' @ [CHR 0x0A]
     @ ''OPTIONS := ... try tc qdisc add <desired QDISC_KIND> help'' @ [CHR 0x0A]
     @ ''STAB_OPTIONS := ... try tc qdisc add stab help'' @ [CHR 0x0A]"

section \<open>Arguments of a change\<close>

record qdisc_args =
  qa_d :: string
  qa_k :: string
  qa_q :: "qdisc_util option"
  qa_est :: tc_estimator
  qa_stab :: tc_sizespec
  qa_t :: tcmsg

definition no_args :: qdisc_args where
  "no_args = \<lparr>qa_d = [], qa_k = [], qa_q = None, qa_est = \<lparr>e_interval = 0, e_ewma_log = 0\<rparr>, qa_stab = zero_sizespec,
     qa_t = \<lparr>tcm_family = 0, tcm_ifindex = 0, tcm_handle = 0, tcm_parent = 0, tcm_info = 0\<rparr>\<rparr>"

text \<open>One round of the loop: it goes on with the arguments left, leaves the loop, returns from the function, or ends the process.\<close>

datatype arg_step = Go "string list" qdisc_args | Stop "string list" qdisc_args | Fail int | Die int

definition set_parent :: "u32 \<Rightarrow> qdisc_args \<Rightarrow> qdisc_args" where
  "set_parent h a = a\<lparr>qa_t := (qa_t a)\<lparr>tcm_parent := h\<rparr>\<rparr>"

definition set_handle :: "u32 \<Rightarrow> qdisc_args \<Rightarrow> qdisc_args" where
  "set_handle h a = a\<lparr>qa_t := (qa_t a)\<lparr>tcm_handle := h\<rparr>\<rparr>"

text \<open>The next argument, or the end of the process.\<close>

definition with_next :: "string list \<Rightarrow> tc_state \<Rightarrow> (string list \<Rightarrow> arg_step \<times> tc_state) \<Rightarrow> arg_step \<times> tc_state" where
  "with_next argv st f = (case NEXT_ARG argv of Exit status msg \<Rightarrow> (Die status, complain msg st) | Ret argv \<Rightarrow> f argv)"

fun die :: "unit cli \<Rightarrow> tc_state \<Rightarrow> arg_step \<times> tc_state" where
  "die (Exit status msg) st = (Die status, complain msg st)"
| "die (Ret _) st = (Die 0, st)"

definition modify_arg :: "tc_env \<Rightarrow> string list \<Rightarrow> qdisc_args \<Rightarrow> tc_state \<Rightarrow> arg_step \<times> tc_state" where
  "modify_arg env argv a st =
     (if hd argv = ''dev'' then
        with_next argv st (\<lambda>argv.
          if qa_d a \<noteq> [] then die (duparg ''dev'' (hd argv)) st
          else (Go (tl argv) (a\<lparr>qa_d := take 15 (hd argv)\<rparr>), st))
      else if hd argv = ''handle'' then
        if tcm_handle (qa_t a) \<noteq> 0 then die (duparg ''handle'' (hd argv)) st
        else with_next argv st (\<lambda>argv.
          case get_qdisc_handle (hd argv) of
            None \<Rightarrow> die (invarg (hd argv) ''invalid qdisc ID'') st
          | Some handle \<Rightarrow> (Go (tl argv) (set_handle handle a), st))
      else if hd argv = ''root'' then
        if tcm_parent (qa_t a) \<noteq> 0 then (Fail (- 1), complain (''Error: \"root\" is duplicate parent ID'' @ [CHR 0x0A]) st)
        else (Go (tl argv) (set_parent TC_H_ROOT a), st)
      else if hd argv = ''ingress'' then
        if tcm_parent (qa_t a) \<noteq> 0 then (Fail (- 1), complain (''Error: \"ingress\" is a duplicate parent ID'' @ [CHR 0x0A]) st)
        else let (q, st) = lookup_kind env ''ingress'' st
             in (Stop (tl argv) (set_handle 0xffff0000 (set_parent TC_H_INGRESS (a\<lparr>qa_k := ''ingress'', qa_q := Some q\<rparr>))), st)
      else if hd argv = ''parent'' then
        with_next argv st (\<lambda>argv.
          if tcm_parent (qa_t a) \<noteq> 0 then die (duparg ''parent'' (hd argv)) st
          else case get_tc_classid (hd argv) of
                 None \<Rightarrow> die (invarg (hd argv) ''invalid parent ID'') st
               | Some handle \<Rightarrow> (Go (tl argv) (set_parent handle a), st))
      else if matches (hd argv) ''estimator'' = 0 then
        (case parse_estimator (e_log env) (e_show_raw env) argv (qa_est a) of
           Exit status msg \<Rightarrow> (Die status, complain msg st)
         | Ret (r, err, est, argv) \<Rightarrow>
             if r \<noteq> 0 then (Fail (- 1), complain err st) else (Go (tl argv) (a\<lparr>qa_est := est\<rparr>), complain err st))
      else if matches (hd argv) ''stab'' = 0 then
        (case parse_size_table argv of
           Exit status msg \<Rightarrow> (Die status, complain msg st)
         | Ret (r, err, Some (s, rest)) \<Rightarrow> (Go rest (a\<lparr>qa_stab := s\<rparr>), complain err st)
         | Ret (r, err, None) \<Rightarrow> (Fail (- 1), complain err st))
      else if matches (hd argv) ''help'' = 0 then (Go (tl argv) a, complain qdisc_usage st)
      else let k = take 15 (hd argv);
               (q, st) = lookup_kind env k st
           in (Stop (tl argv) (a\<lparr>qa_k := k, qa_q := Some q\<rparr>), st))"

lemma die_no_go: "die c st \<noteq> (Go rest a, st')"
  by (cases c) auto

lemma modify_arg_shorter:
  assumes "modify_arg env argv a st = (Go rest a', st')" "argv \<noteq> []"
  shows "length rest < length argv"
  using assms
  by (auto simp: modify_arg_def with_next_def die_no_go Let_def split: if_splits option.splits cli.splits prod.splits
      dest!: NEXT_ARG_shorter parse_estimator_shorter parse_size_table_shorter)

function modify_args :: "tc_env \<Rightarrow> string list \<Rightarrow> qdisc_args \<Rightarrow> tc_state \<Rightarrow> arg_step \<times> tc_state" where
  "modify_args env argv a st =
     (if argv = [] then (Stop [] a, st)
      else case modify_arg env argv a st of
             (Go rest a, st) \<Rightarrow> modify_args env rest a st
           | (other, st) \<Rightarrow> (other, st))"
  by pat_completeness auto

termination
  by (relation "measure (\<lambda>(_, argv, _). length argv)") (auto dest!: modify_arg_shorter [OF sym])

declare modify_args.simps [simp del]

text \<open>The loop never stops with arguments to go on with.\<close>

lemma modify_args_no_go: "modify_args env argv a st \<noteq> (Go rest a', st')"
proof (induction env argv a st rule: modify_args.induct)
  case (1 env argv a st)
  then show ?case by (subst modify_args.simps) (auto split: prod.splits arg_step.splits)
qed

section \<open>The request\<close>

definition REQ_SIZE :: nat where
  "REQ_SIZE = 36 + TCA_BUF_MAX"

text \<open>
  The message before the first attribute: the header and the structure \<open>tcmsg\<close>, with the room
  behind them, so many bytes in all.
\<close>

definition new_request :: "nat \<Rightarrow> u16 \<Rightarrow> u16 \<Rightarrow> tcmsg \<Rightarrow> nlmsg" where
  "new_request bytes cmd fl t =
     \<lparr>nlmsg_len = 36, nl_buf = nlmsghdr_bytes 36 cmd (NLM_F_REQUEST OR fl) 0 0 @ tcmsg_bytes t @ replicate (bytes - 36) 0\<rparr>"

definition est_bytes :: "tc_estimator \<Rightarrow> u8 list" where
  "est_bytes est = [word_of_int (e_interval est), word_of_nat (e_ewma_log est)]"

definition sizespec_bytes :: "tc_sizespec \<Rightarrow> u8 list" where
  "sizespec_bytes s = [s_cell_log s, s_size_log s] @ le16_bytes (s_cell_align s) @ le32_bytes (s_overhead s)
     @ le32_bytes (s_linklayer s) @ le32_bytes (s_mpu s) @ le32_bytes (s_mtu s) @ le32_bytes (s_tsize s)"

definition add_kind :: "nat \<Rightarrow> qdisc_args \<Rightarrow> nlmsg \<Rightarrow> nlmsg" where
  "add_kind bytes a n =
     (let n = (if qa_k a \<noteq> [] then snd (addattr_l n bytes (word_of_nat TCA_KIND) (str_bytes (qa_k a) @ [0])) else n)
      in if e_ewma_log (qa_est a) \<noteq> 0 then snd (addattr_l n bytes (word_of_nat TCA_RATE) (est_bytes (qa_est a))) else n)"

text \<open>The options of the discipline: the message with them, or the end of the command.\<close>

definition add_options :: "qdisc_args \<Rightarrow> string list \<Rightarrow> nlmsg \<Rightarrow> tc_state \<Rightarrow> (tc_result + nlmsg) \<times> tc_state" where
  "add_options a argv n st =
     (case qa_q a of
        Some q \<Rightarrow>
          (case parse_qopt q of
             None \<Rightarrow> (Inl (Status (- 1)), complain (''qdisc '' @ [CHR 0x27] @ qa_k a @ [CHR 0x27] @ '' does not support option parsing'' @ [CHR 0x0A]) st)
           | Some parse \<Rightarrow>
               (case parse argv n of
                  Exit status msg \<Rightarrow> (Inl (Quit status), complain msg st)
                | Ret (r, err, n) \<Rightarrow> if r \<noteq> 0 then (Inl (Status 1), complain err st) else (Inr n, complain err st)))
      | None \<Rightarrow>
          if argv \<noteq> [] then
            (Inl (Status (- 1)), complain ((if matches (hd argv) ''help'' = 0 then qdisc_usage else [])
               @ ''Garbage instead of arguments \"'' @ hd argv @ '' ...\". Try \"tc qdisc help\".'' @ [CHR 0x0A]) st)
          else (Inr n, st))"

definition add_stab :: "tc_env \<Rightarrow> tc_sizespec \<Rightarrow> nlmsg \<Rightarrow> tc_state \<Rightarrow> (tc_result + nlmsg) \<times> tc_state" where
  "add_stab env s n st =
     (if \<not> check_size_table_opts s then (Inr n, st)
      else case tc_calc_size_table (e_malloc env) s of
             None \<Rightarrow> (Inl Diverges, st)
           | Some (r, s, tab) \<Rightarrow>
               if r < 0 then (Inl (Status (- 1)), complain (''failed to calculate size table.'' @ [CHR 0x0A]) st)
               else let tail = NLMSG_TAIL n;
                        n = snd (addattr_l n REQ_SIZE (word_of_nat TCA_STAB) []);
                        n = snd (addattr_l n REQ_SIZE (word_of_nat TCA_STAB_BASE) (sizespec_bytes s));
                        n = (case tab of None \<Rightarrow> n
                             | Some ws \<Rightarrow> snd (addattr_l n REQ_SIZE (word_of_nat TCA_STAB_DATA) (concat (map le16_bytes ws))));
                        n = set_rta_len tail (NLMSG_TAIL n - tail) n
                    in (Inr n, st))"

text \<open>The index of the device, zero when no device was named.\<close>

definition find_device :: "tc_env \<Rightarrow> string \<Rightarrow> tc_state \<Rightarrow> (tc_result + u32) \<times> tc_state" where
  "find_device env d st =
     (case ll_init_map (e_junk env) (e_links_sent env) (e_links env) (e_buf env) (ts_rth st, ts_map st) of
        (Returned _ _, rth, m) \<Rightarrow>
          let st = st\<lparr>ts_rth := rth\<rparr>;
              (idx, m) = ll_name_to_index (e_nametoindex env) (Some d) m;
              st = st\<lparr>ts_map := m\<rparr>
          in if idx = 0 then (Inl (Status 1), complain (''Cannot find device \"'' @ d @ ''\"'' @ [CHR 0x0A]) st)
             else (Inr idx, st)
      | (Exited c, rth, m) \<Rightarrow> (Inl (Quit c), st\<lparr>ts_rth := rth, ts_map := m\<rparr>)
      | (Waiting, rth, m) \<Rightarrow> (Inl Blocked, st\<lparr>ts_rth := rth, ts_map := m\<rparr>))"

text \<open>
  The bytes handed to \<open>sendmsg\<close>: the header is complete now. \<open>ts_requests\<close> records them whether
  or not the call succeeds; the result says which.
\<close>

definition request_bytes :: "u16 \<Rightarrow> u16 \<Rightarrow> u32 \<Rightarrow> tcmsg \<Rightarrow> nlmsg \<Rightarrow> u8 list" where
  "request_bytes cmd fl seq t n =
     nlmsghdr_bytes (word_of_nat (nlmsg_len n)) cmd fl seq 0 @ tcmsg_bytes t @ drop 36 (take (nlmsg_len n) (nl_buf n))"

definition send_request :: "tc_env \<Rightarrow> u16 \<Rightarrow> u16 \<Rightarrow> tcmsg \<Rightarrow> nlmsg \<Rightarrow> tc_state \<Rightarrow> tc_result \<times> tc_state" where
  "send_request env cmd fl t n st =
     (case rtnl_talk (ts_rth st) (NLM_F_REQUEST OR fl) 0 False None (e_sent env) (e_answers env) () of
        (out, rth, fl, _) \<Rightarrow>
          let st = st\<lparr>ts_rth := rth, ts_requests := ts_requests st @ [request_bytes cmd fl (rh_seq rth) t n]\<rparr>
          in case out of
               Returned r _ \<Rightarrow> (Status (if r < 0 then 2 else 0), st)
             | Exited c \<Rightarrow> (Quit c, st)
             | Waiting \<Rightarrow> (Blocked, st))"

definition tc_qdisc_modify :: "tc_env \<Rightarrow> u16 \<Rightarrow> u16 \<Rightarrow> string list \<Rightarrow> tc_state \<Rightarrow> tc_result \<times> tc_state" where
  "tc_qdisc_modify env cmd fl argv st =
     (case modify_args env argv no_args st of
        (Go rest a, st) \<Rightarrow> (Diverges, st)
      | (Fail c, st) \<Rightarrow> (Status c, st)
      | (Die c, st) \<Rightarrow> (Quit c, st)
      | (Stop rest a, st) \<Rightarrow>
          (case add_options a rest (add_kind REQ_SIZE a (new_request REQ_SIZE cmd fl (qa_t a))) st of
             (Inl r, st) \<Rightarrow> (r, st)
           | (Inr n, st) \<Rightarrow>
               (case add_stab env (qa_stab a) n st of
                  (Inl r, st) \<Rightarrow> (r, st)
                | (Inr n, st) \<Rightarrow>
                    if qa_d a = [] then send_request env cmd fl (qa_t a) n st
                    else case find_device env (qa_d a) st of
                           (Inl r, st) \<Rightarrow> (r, st)
                         | (Inr idx, st) \<Rightarrow> send_request env cmd fl ((qa_t a)\<lparr>tcm_ifindex := idx\<rparr>) n st)))"

section \<open>Printing a discipline\<close>

definition print_qdisc :: "tc_env \<Rightarrow> u8 list \<Rightarrow> tc_state \<Rightarrow> int \<times> tc_state" where
  "print_qdisc env h st =
     (if h_type h \<noteq> RTM_NEWQDISC \<and> h_type h \<noteq> RTM_DELQDISC then (0, complain (''Not a qdisc'' @ [CHR 0x0A]) st)
      else let len = sint (h_len h - 36);
               ifindex = le32 (drop 20 h); handle = le32 (drop 24 h); parent = le32 (drop 28 h); info = le32 (drop 32 h)
           in if len < 0 then (- 1, complain (''Wrong len '' @ show_int len @ [CHR 0x0A]) st)
              else if ts_filter st \<noteq> 0 \<and> ts_filter st \<noteq> ifindex then (0, st)
              else let tb = fst (parse_rtattr TCA_MAX (drop 36 h) len)
                   in case tb ! TCA_KIND of
                        None \<Rightarrow> (- 1, complain (''print_qdisc: NULL kind'' @ [CHR 0x0A]) st)
                      | Some ka \<Rightarrow>
                          let kind = c_str (RTA_DATA ka);
                              head = (if h_type h = RTM_DELQDISC then ''deleted '' else [])
                                @ ''qdisc '' @ kind @ '' '' @ show_hex (unat (drop_bit 16 handle)) @ '': ''
                                @ (if ts_filter st = 0 then ''dev '' @ ll_index_to_name (ts_map st) ifindex @ '' '' else [])
                                @ (if parent = TC_H_ROOT then ''root ''
                                   else if parent \<noteq> 0 then ''parent '' @ print_tc_classid 256 parent @ '' '' else [])
                                @ (if info \<noteq> 1 then ''refcnt '' @ show_int (sint info) @ '' '' else []);
                              (q, st) = lookup_kind env (if kind = ''pfifo_fast'' then ''prio'' else kind) st;
                              opts = (case tb ! unat TCA_OPTIONS of None \<Rightarrow> [] | Some oa \<Rightarrow> snd (print_qopt q (Some oa)));
                              stab = (case tb ! TCA_STAB of
                                        Some s \<Rightarrow> if e_show_details env then print_size_table '' '' s @ [CHR 0x0A] else []
                                      | None \<Rightarrow> []);
                              (stats, x) = (if tb ! TCA_STATS \<noteq> None \<or> tb ! TCA_STATS2 \<noteq> None \<or> tb ! TCA_XSTATS \<noteq> None
                                then case print_tcstats_attr (e_use_iec env)
                                       \<lparr>a_STATS = tb ! TCA_STATS, a_XSTATS = tb ! TCA_XSTATS, a_STATS2 = tb ! TCA_STATS2\<rparr> '' '' True of
                                       (out, x) \<Rightarrow> (out @ [CHR 0x0A], case x of Some y \<Rightarrow> y | None \<Rightarrow> None)
                                else ([], None));
                              xstats = (case (x, print_xstats q) of
                                          (Some y, Some p) \<Rightarrow> snd (p (Some y)) @ [CHR 0x0A]
                                        | _ \<Rightarrow> [])
                          in (0, say (head @ opts @ [CHR 0x0A] @ stab @ (if e_show_stats env then stats @ xstats else [])) st))"

section \<open>Listing\<close>

text \<open>The arguments of a listing: device and parent, or an error. A second device replaces the first.\<close>

function list_args :: "string list \<Rightarrow> string \<times> u32 \<Rightarrow> tc_state \<Rightarrow> (tc_result + string \<times> u32) \<times> tc_state" where
  "list_args argv (d, parent) st =
     (case argv of
        [] \<Rightarrow> (Inr (d, parent), st)
      | kw # rest \<Rightarrow>
          if kw = ''dev'' then
            (case NEXT_ARG argv of
               Exit status msg \<Rightarrow> (Inl (Quit status), complain msg st)
             | Ret argv2 \<Rightarrow> list_args (tl argv2) (take 15 (hd argv2), parent) st)
          else if kw = ''ingress'' then
            list_args rest (d, TC_H_INGRESS) (if parent \<noteq> 0 then complain (''Duplicate parent ID'' @ [CHR 0x0A] @ qdisc_usage) st else st)
          else if matches kw ''help'' = 0 then list_args rest (d, parent) (complain qdisc_usage st)
          else (Inl (Status (- 1)), complain (''What is \"'' @ kw @ ''\"? Try \"tc qdisc help\".'' @ [CHR 0x0A]) st))"
  by pat_completeness auto

termination
  by (relation "measure (\<lambda>(argv, _). length argv)") (use NEXT_ARG_shorter in \<open>fastforce simp: less_Suc_eq_le\<close>)+

declare list_args.simps [simp del]

text \<open>The dump of the disciplines; what \<open>perror\<close> prints is left out.\<close>

definition dump_qdiscs :: "tc_env \<Rightarrow> tcmsg \<Rightarrow> tc_state \<Rightarrow> tc_result \<times> tc_state" where
  "dump_qdiscs env t st =
     (let (req, rth) = rtnl_dump_request (ts_rth st) RTM_GETQDISC (tcmsg_bytes t);
          st = st\<lparr>ts_rth := rth, ts_requests := ts_requests st @ [req]\<rparr>
      in if \<not> e_sent env then (Status 1, st)
         else case rtnl_dump_filter rth (print_qdisc env) None (e_answers env) (e_buf env) st of
                (Returned r _, st) \<Rightarrow> if r < 0 then (Status 1, complain (''Dump terminated'' @ [CHR 0x0A]) st) else (Status 0, st)
              | (Exited c, st) \<Rightarrow> (Quit c, st)
              | (Waiting, st) \<Rightarrow> (Blocked, st))"

definition tc_qdisc_list :: "tc_env \<Rightarrow> string list \<Rightarrow> tc_state \<Rightarrow> tc_result \<times> tc_state" where
  "tc_qdisc_list env argv st =
     (case list_args argv ([], 0) st of
        (Inl r, st) \<Rightarrow> (r, st)
      | (Inr (d, parent), st) \<Rightarrow>
          let t = \<lparr>tcm_family = 0, tcm_ifindex = 0, tcm_handle = 0, tcm_parent = parent, tcm_info = 0\<rparr>
          in if d = [] then
               (case ll_init_map (e_junk env) (e_links_sent env) (e_links env) (e_buf env) (ts_rth st, ts_map st) of
                  (Returned _ _, rth, m) \<Rightarrow> dump_qdiscs env t (st\<lparr>ts_rth := rth, ts_map := m\<rparr>)
                | (Exited c, rth, m) \<Rightarrow> (Quit c, st\<lparr>ts_rth := rth, ts_map := m\<rparr>)
                | (Waiting, rth, m) \<Rightarrow> (Blocked, st\<lparr>ts_rth := rth, ts_map := m\<rparr>))
             else case find_device env d st of
                    (Inl r, st) \<Rightarrow> (r, st)
                  | (Inr idx, st) \<Rightarrow> dump_qdiscs env (t\<lparr>tcm_ifindex := idx\<rparr>) (st\<lparr>ts_filter := idx\<rparr>))"

definition do_qdisc :: "tc_env \<Rightarrow> string list \<Rightarrow> tc_state \<Rightarrow> tc_result \<times> tc_state" where
  "do_qdisc env argv st =
     (if argv = [] then tc_qdisc_list env [] st
      else if matches (hd argv) ''add'' = 0 then tc_qdisc_modify env RTM_NEWQDISC (NLM_F_EXCL OR NLM_F_CREATE) (tl argv) st
      else if matches (hd argv) ''change'' = 0 then tc_qdisc_modify env RTM_NEWQDISC 0 (tl argv) st
      else if matches (hd argv) ''replace'' = 0 then tc_qdisc_modify env RTM_NEWQDISC (NLM_F_CREATE OR NLM_F_REPLACE) (tl argv) st
      else if matches (hd argv) ''link'' = 0 then tc_qdisc_modify env RTM_NEWQDISC NLM_F_REPLACE (tl argv) st
      else if matches (hd argv) ''delete'' = 0 then tc_qdisc_modify env RTM_DELQDISC 0 (tl argv) st
      else if matches (hd argv) ''list'' = 0 \<or> matches (hd argv) ''show'' = 0 \<or> matches (hd argv) ''lst'' = 0
      then tc_qdisc_list env (tl argv) st
      else if matches (hd argv) ''help'' = 0 then (Status 0, complain qdisc_usage st)
      else (Status (- 1), complain (''Command \"'' @ hd argv @ ''\" is unknown, try \"tc qdisc help\".'' @ [CHR 0x0A]) st))"

section \<open>The request says what the command line says\<close>

text \<open>
  A request as its receiver reads it: type, flags, interface, handle, parent, the name of the
  discipline and the attribute with its options.
\<close>

record request_view =
  v_type :: u16
  v_flags :: u16
  v_ifindex :: u32
  v_handle :: u32
  v_parent :: u32
  v_kind :: "string option"
  v_options :: "u8 list option"

definition view_request :: "u8 list \<Rightarrow> request_view" where
  "view_request b =
     (let tb = fst (parse_rtattr TCA_MAX (drop 36 b) (int (length b) - 36))
      in \<lparr>v_type = h_type b, v_flags = le16 (drop 6 b), v_ifindex = le32 (drop 20 b), v_handle = le32 (drop 24 b),
          v_parent = le32 (drop 28 b), v_kind = map_option (\<lambda>a. c_str (rta_payload a)) (tb ! TCA_KIND),
          v_options = tb ! unat TCA_OPTIONS\<rparr>)"

text \<open>A word that is the name of a discipline and not a word of the command.\<close>

definition kind_word :: "string \<Rightarrow> bool" where
  "kind_word k \<longleftrightarrow> k \<noteq> [] \<and> length k \<le> 15 \<and> CHR 0x00 \<notin> set k \<and> k \<notin> {''dev'', ''handle'', ''root'', ''ingress'', ''parent''}
     \<and> matches k ''estimator'' \<noteq> 0 \<and> matches k ''stab'' \<noteq> 0 \<and> matches k ''help'' \<noteq> 0"

lemma modify_args_dev_root:
  assumes "kind_word k" "length d \<le> 15" "lookup_kind env k st = (q, st1)"
  shows "modify_args env (''dev'' # d # ''root'' # k # argv) no_args st =
    (Stop argv (set_parent TC_H_ROOT (no_args\<lparr>qa_d := d, qa_k := k, qa_q := Some q\<rparr>)), st1)"
proof -
  have "modify_arg env (''dev'' # d # ''root'' # k # argv) no_args st = (Go (''root'' # k # argv) (no_args\<lparr>qa_d := d\<rparr>), st)"
    using assms(2) by (simp add: modify_arg_def with_next_def NEXT_ARG_def no_args_def)
  moreover have "modify_arg env (''root'' # k # argv) (no_args\<lparr>qa_d := d\<rparr>) st =
      (Go (k # argv) (set_parent TC_H_ROOT (no_args\<lparr>qa_d := d\<rparr>)), st)"
    by (simp add: modify_arg_def no_args_def set_parent_def)
  moreover have "modify_arg env (k # argv) (set_parent TC_H_ROOT (no_args\<lparr>qa_d := d\<rparr>)) st =
      (Stop argv (set_parent TC_H_ROOT (no_args\<lparr>qa_d := d, qa_k := k, qa_q := Some q\<rparr>)), st1)"
    using assms(1,3) by (simp add: modify_arg_def kind_word_def set_parent_def Let_def)
  ultimately show ?thesis by (simp add: modify_args.simps)
qed

lemma length_new_request [simp]:
  "36 \<le> bytes \<Longrightarrow> length (nl_buf (new_request bytes cmd fl t)) = bytes" "nlmsg_len (new_request bytes cmd fl t) = 36"
  by (simp_all add: new_request_def tcmsg_bytes_def)

text \<open>The message with the name of the discipline.\<close>

lemma add_kind_message:
  fixes cmd fl :: u16 and t :: tcmsg
  assumes "qa_k a \<noteq> []" "length (qa_k a) \<le> 15" "e_ewma_log (qa_est a) = 0" "56 \<le> bytes"
  defines "n \<equiv> add_kind bytes a (new_request bytes cmd fl t)" and "ka \<equiv> (word_of_nat TCA_KIND, str_bytes (qa_k a) @ [0])"
  shows "nlmsg_len n = 36 + attr_size ka" "holds_attrs (drop 36 (nl_buf n)) [ka]" "length (nl_buf n) = bytes"
    "attr_size ka \<le> 20" "4 dvd attr_size ka"
proof -
  show sz: "attr_size ka \<le> 20" using assms(2) by (simp add: ka_def attr_size_def RTA_ALIGN_def)
  show "4 dvd attr_size ka" by (simp add: attr_size_def RTA_ALIGN_mult)
  let ?n = "new_request bytes cmd fl t"
  have lb: "length (nl_buf ?n) = bytes" using assms(4) by simp
  have "\<exists>n'. add_all bytes [ka] ?n = (replicate (length [ka]) 0, n') \<and> nlmsg_len n' = 36 + attrs_size ([] @ [ka])
      \<and> holds_attrs (drop 36 (nl_buf n')) ([] @ [ka]) \<and> take 36 (nl_buf n') = take 36 (nl_buf ?n)
      \<and> length (nl_buf n') = length (nl_buf ?n)"
    by (rule add_all_holds) (use sz assms(4) in simp_all)
  then obtain n' where n': "snd (addattr_l ?n bytes (word_of_nat TCA_KIND) (str_bytes (qa_k a) @ [0])) = n'"
    "nlmsg_len n' = 36 + attr_size ka" "holds_attrs (drop 36 (nl_buf n')) [ka]" "length (nl_buf n') = bytes"
    by (auto simp: ka_def lb split: prod.splits)
  moreover have "n = n'" using assms(1,3) n'(1) by (simp add: n_def add_kind_def)
  ultimately show "nlmsg_len n = 36 + attr_size ka" "holds_attrs (drop 36 (nl_buf n)) [ka]" "length (nl_buf n) = bytes"
    by simp_all
qed

text \<open>The attributes of the message once the options are in it.\<close>

lemma options_added_attrs:
  assumes "nlmsg_len n = 36 + attr_size ka" "4 dvd attr_size ka" "holds_attrs (drop 36 (nl_buf n)) [ka]"
    and "options_added n n' m P" "4 dvd m"
  defines "body \<equiv> rta_payload (drop (nlmsg_len n) (nl_buf n'))"
  shows "holds_attrs (drop 36 (nl_buf n')) [ka, (TCA_OPTIONS, body)]" "length body = m" "P body"
    "nlmsg_len n' = 36 + attrs_size [ka, (TCA_OPTIONS, body)]" "nlmsg_len n' \<le> length (nl_buf n')"
proof -
  let ?r = "drop (nlmsg_len n) (nl_buf n')"
  have o: "nlmsg_len n' = nlmsg_len n + 4 + m" "take (nlmsg_len n) (nl_buf n') = take (nlmsg_len n) (nl_buf n)"
    "rta_type ?r = unat TCA_OPTIONS" "rta_len ?r = 4 + m" "P body" "nlmsg_len n' \<le> length (nl_buf n')"
    using assms(4) by (simp_all add: options_added_def body_def Let_def)
  have body: "body = take m (RTA_DATA ?r)" by (simp add: body_def rta_payload_def RTA_PAYLOAD_def o(4))
  have r: "4 + m \<le> length ?r" using o(1,6) by simp
  then show lb: "length body = m" by (simp add: body RTA_DATA_def)
  show "P body" by (rule o(5))
  have "holds_attrs ?r [(TCA_OPTIONS, body)]" unfolding body by (rule holds_raw [OF o(3,4) r assms(5)])
  moreover have "holds_attrs (drop 36 (nl_buf n')) [ka]"
  proof (rule holds_attrs_take [OF assms(3)])
    have "take (attr_size ka) (drop 36 (nl_buf n')) = drop 36 (take (nlmsg_len n) (nl_buf n'))"
      by (simp add: assms(1) drop_take)
    also have "\<dots> = take (attr_size ka) (drop 36 (nl_buf n))" unfolding o(2) by (simp add: assms(1) drop_take)
    finally show "take (attrs_size [ka]) (drop 36 (nl_buf n')) = take (attrs_size [ka]) (drop 36 (nl_buf n))" by simp
  qed
  moreover have "drop (attr_size ka) (drop 36 (nl_buf n')) = ?r" by (simp add: assms(1) add.commute)
  ultimately show "holds_attrs (drop 36 (nl_buf n')) [ka, (TCA_OPTIONS, body)]"
    using holds_attrs_append [of "drop 36 (nl_buf n')" "[ka]" "[(TCA_OPTIONS, body)]"] by simp
  show "nlmsg_len n' = 36 + attrs_size [ka, (TCA_OPTIONS, body)]"
    using assms(5) lb by (auto simp: o(1) assms(1) attr_size_def RTA_ALIGN_def elim!: dvdE)
  show "nlmsg_len n' \<le> length (nl_buf n')" by (rule o(6))
qed

lemma length_tcmsg_bytes [simp]: "length (tcmsg_bytes t) = 20"
  by (simp add: tcmsg_bytes_def)

lemma request_header:
  fixes cmd fl :: u16 and seq :: u32 and t :: tcmsg and n :: nlmsg
  defines "b \<equiv> request_bytes cmd fl seq t n"
  shows "h_type b = cmd" "le16 (drop 6 b) = fl" "le32 (drop 20 b) = tcm_ifindex t" "le32 (drop 24 b) = tcm_handle t"
    "le32 (drop 28 b) = tcm_parent t" "drop 36 b = drop 36 (take (nlmsg_len n) (nl_buf n))"
  by (simp_all add: b_def request_bytes_def nlmsghdr_bytes_def tcmsg_bytes_def h_type_def
      le16_le16_bytes [of _ "[]", simplified] drop_Cons')

lemma view_options:
  assumes "nlmsg_len n = 36 + attr_size ka" "4 dvd attr_size ka" "holds_attrs (drop 36 (nl_buf n)) [ka]"
    and "options_added n n' m P" "4 dvd m" "4 + m < 2 ^ 16"
    and "ka = (word_of_nat TCA_KIND, str_bytes k @ [0])" "CHR 0x00 \<notin> set k" "length k \<le> 15"
  shows "\<exists>rta. view_request (request_bytes cmd fl seq t n') =
      \<lparr>v_type = cmd, v_flags = fl, v_ifindex = tcm_ifindex t, v_handle = tcm_handle t, v_parent = tcm_parent t,
       v_kind = Some k, v_options = Some rta\<rparr>
    \<and> P (rta_payload rta) \<and> RTA_PAYLOAD rta = int m"
proof -
  let ?body = "rta_payload (drop (nlmsg_len n) (nl_buf n'))"
  let ?bs = "drop 36 (take (nlmsg_len n') (nl_buf n'))"
  let ?as = "[ka, (TCA_OPTIONS, ?body)]"
  let ?tb0 = "replicate (TCA_MAX + 1) None"
  note a = options_added_attrs [OF assms(1-5)]
  have h: "holds_attrs ?bs ?as"
    by (rule holds_attrs_take [OF a(1)]) (simp add: a(4) drop_take)
  have small: "\<forall>a \<in> set ?as. 4 + length (snd a) < 2 ^ 16"
    using assms(6,7,9) a(2) by auto
  have len: "int (length (request_bytes cmd fl seq t n')) - 36 = int (attrs_size ?as)"
    using a(4,5) by (simp add: request_bytes_def)
  obtain tb where tb: "parse_rtattr TCA_MAX ?bs (int (attrs_size ?as)) = (tb, 0)"
    "\<forall>t \<le> TCA_MAX. map_option rta_payload (tb ! t) = attr_map ?as t"
    using parse_rtattr_loop_holds [OF h small, of ?tb0 TCA_MAX] by (auto simp: parse_rtattr_def simp del: replicate_Suc)
  have le: "TCA_KIND \<le> TCA_MAX" "unat TCA_OPTIONS \<le> TCA_MAX"
    by (simp_all add: TCA_KIND_def TCA_MAX_def TCA_OPTIONS_def)
  have at: "attr_map ?as TCA_KIND = Some (str_bytes k @ [0])" "attr_map ?as (unat TCA_OPTIONS) = Some ?body"
    using assms(7) by (simp_all add: attr_map_def TCA_KIND_def TCA_OPTIONS_def)
  have kind: "map_option rta_payload (tb ! TCA_KIND) = Some (str_bytes k @ [0])" using tb(2) le(1) at(1) by metis
  obtain rta where rta: "tb ! unat TCA_OPTIONS = Some rta" "rta_payload rta = ?body"
    using tb(2) le(2) at(2) by fastforce
  have "fst (parse_rtattr_loop TCA_MAX ?tb0 ?bs (int (attrs_size ?as))) ! unat TCA_OPTIONS = Some rta"
    using tb(1) rta(1) by (simp add: parse_rtattr_def)
  from parse_rtattr_loop_whole [OF h small le(2) _ this]
  have p: "RTA_PAYLOAD rta = int m" using le(2) rta(2) a(2) by (simp del: replicate_Suc)
  have "P (rta_payload rta)" using a(3) rta(2) by simp
  moreover have "map_option (\<lambda>a. c_str (rta_payload a)) (tb ! TCA_KIND) = Some k"
    using kind assms(8) by (cases "tb ! TCA_KIND") auto
  ultimately show ?thesis
    unfolding view_request_def request_header len tb(1) using p rta(1) by simp
qed

text \<open>What the answer of the kernel makes of the command.\<close>

definition talk_status :: "u8 list option outcome \<Rightarrow> tc_result" where
  "talk_status r = (case r of Returned r _ \<Rightarrow> Status (if r < 0 then 2 else 0) | Exited c \<Rightarrow> Quit c | Waiting \<Rightarrow> Blocked)"

lemma send_request_eq:
  "send_request env cmd fl t n st =
    (talk_status (fst (rtnl_talk (ts_rth st) (NLM_F_REQUEST OR fl) 0 False None (e_sent env) (e_answers env) ())),
     st\<lparr>ts_rth := (ts_rth st)\<lparr>rh_seq := rh_seq (ts_rth st) + 1\<rparr>,
        ts_requests := ts_requests st @ [request_bytes cmd (NLM_F_REQUEST OR fl OR NLM_F_ACK) (rh_seq (ts_rth st) + 1) t n]\<rparr>)"
proof -
  obtain out rth f u where r: "rtnl_talk (ts_rth st) (NLM_F_REQUEST OR fl) 0 False None (e_sent env) (e_answers env) () = (out, rth, f, u)"
    using prod_cases4 by blast
  then have "rth = (ts_rth st)\<lparr>rh_seq := rh_seq (ts_rth st) + 1\<rparr>" "f = NLM_F_REQUEST OR fl OR NLM_F_ACK"
    by (auto simp: rtnl_talk_def Let_def or.assoc split: if_splits prod.splits)
  with r show ?thesis by (simp add: send_request_def talk_status_def Let_def split: outcome.splits)
qed

lemma zero_stab: "\<not> check_size_table_opts zero_sizespec"
  by (simp add: check_size_table_opts_def zero_sizespec_def LINKLAYER_ETHERNET_def)

text \<open>What was printed before does not matter for finding a device, and finding it sends no request of ours.\<close>

lemma find_device_complain:
  assumes "find_device env d st = (Inr idx, st')"
  shows "find_device env d (complain err st) = (Inr idx, complain err st')" "ts_requests st' = ts_requests st"
  using assms by (auto simp: find_device_def complain_def Let_def split: outcome.splits prod.splits if_splits)

lemma lookup_kind_requests: "lookup_kind env k st = (q, st') \<Longrightarrow> ts_requests st' = ts_requests st"
  by (auto simp: lookup_kind_def split: prod.splits)

lemma complain_simps [simp]: "ts_requests (complain err st) = ts_requests st" "ts_rth (complain err st) = ts_rth st"
  by (simp_all add: complain_def)

text \<open>
  A device is found in the dump of the links when it is the only one that was last announced
  under its name.
\<close>

lemma find_device_links:
  assumes "e_links env = map deliver ds" "e_links_sent env" "list_all delivery_ok ds" "length (e_junk env) = IFNAMSIZ + ADDRSIZ"
    and "link_dump (rh_pid (ts_rth st)) (rh_seq (ts_rth st) + 1) mls fin (delivered ds)" "ts_map st = ll_map_init"
    and "only_link (map snd mls) idx l" "idx \<noteq> 0"
  shows "\<exists>m. find_device env (l_name l) st =
    (Inr idx, st\<lparr>ts_rth := (ts_rth st)\<lparr>rh_seq := rh_seq (ts_rth st) + 1, rh_dump := rh_seq (ts_rth st) + 1\<rparr>, ts_map := m\<rparr>)"
proof -
  let ?hs = "map (\<lambda>(m, _). msg_bytes m) mls"
  have a: "list_all2 announces ?hs (map snd mls)"
    using assms(5) by (auto simp: link_dump_def list_all2_conv_all_nth split: prod.splits dest!: nth_mem)
  obtain m where "ll_name_to_index (e_nametoindex env) (Some (l_name l)) (remember_all (e_junk env) ?hs ll_map_init) = (idx, m)"
    using link_name_found [OF a assms(4,7)] by blast
  moreover have "ll_init_map (e_junk env) True (map deliver ds) (e_buf env) (ts_rth st, ll_map_init) =
    (Returned 0 (), (ts_rth st)\<lparr>rh_seq := rh_seq (ts_rth st) + 1, rh_dump := rh_seq (ts_rth st) + 1\<rparr>,
     (remember_all (e_junk env) ?hs ll_map_init)\<lparr>initialized := True\<rparr>)"
    by (rule init_map_links [OF assms(3,5)]) (simp add: ll_map_init_def)
  ultimately show ?thesis
    using assms(1,2,6,8) by (auto simp: find_device_def name_to_index_initialized Let_def)
qed

context qdisc_parser
begin

text \<open>
  The request for a discipline at the root of a device: whatever the parser adds for the
  options arrives, with the kind, the interface and the parent that were named.
\<close>

lemma modify_root:
  assumes "accepts argv m P" "kind_word k" "d \<noteq> []" "length d \<le> 15"
    and "lookup_kind env k st = (q, st1)" "parse_qopt q = Some parse" "find_device env d st1 = (Inr idx, st2)"
  shows "\<exists>err b rta. tc_qdisc_modify env cmd fl (''dev'' # d # ''root'' # k # argv) st =
      (talk_status (fst (rtnl_talk (ts_rth st2) (NLM_F_REQUEST OR fl) 0 False None (e_sent env) (e_answers env) ())),
       (complain err st2)\<lparr>ts_rth := (ts_rth st2)\<lparr>rh_seq := rh_seq (ts_rth st2) + 1\<rparr>, ts_requests := ts_requests st @ [b]\<rparr>)
    \<and> view_request b = \<lparr>v_type = cmd, v_flags = NLM_F_REQUEST OR fl OR NLM_F_ACK, v_ifindex = idx, v_handle = 0,
        v_parent = TC_H_ROOT, v_kind = Some k, v_options = Some rta\<rparr>
    \<and> P (rta_payload rta) \<and> RTA_PAYLOAD rta = int m"
proof -
  define a where "a = set_parent TC_H_ROOT (no_args\<lparr>qa_d := d, qa_k := k, qa_q := Some q\<rparr>)"
  have a: "qa_k a = k" "qa_d a = d" "qa_q a = Some q" "qa_stab a = zero_sizespec" "e_ewma_log (qa_est a) = 0"
    "tcm_parent (qa_t a) = TC_H_ROOT" "tcm_handle (qa_t a) = 0"
    by (simp_all add: a_def set_parent_def no_args_def)
  have k: "k \<noteq> []" "length k \<le> 15" "CHR 0x00 \<notin> set k" using assms(2) by (simp_all add: kind_word_def)
  let ?n = "add_kind REQ_SIZE a (new_request REQ_SIZE cmd fl (qa_t a))"
  have "56 \<le> REQ_SIZE" by (simp add: REQ_SIZE_def TCA_BUF_MAX_def)
  note n = add_kind_message(1-3) [where a = a and cmd = cmd and fl = fl and t = "qa_t a", unfolded a(1,5), OF k(1,2) refl this]
    and sz = add_kind_message(4,5) [where a = a, unfolded a(1,5), OF k(1,2) refl this]
  have "4 dvd nlmsg_len ?n" using n(1) sz(2) by simp
  moreover have "nlmsg_len ?n \<le> room" using n(1) sz(1) room_kind by linarith
  moreover have "4096 \<le> length (nl_buf ?n)" using n(3) by (simp add: REQ_SIZE_def TCA_BUF_MAX_def)
  ultimately obtain err n' where p: "parse argv ?n = Ret (0, err, n')" "options_added ?n n' m P"
    using parse_options [OF assms(1), of ?n] by (auto simp: mod_eq_0_iff_dvd)
  let ?t = "(qa_t a)\<lparr>tcm_ifindex := idx\<rparr>"
  have e: "tc_qdisc_modify env cmd fl (''dev'' # d # ''root'' # k # argv) st = send_request env cmd fl ?t n' (complain err st2)"
    unfolding tc_qdisc_modify_def modify_args_dev_root [OF assms(2,4,5)] a_def [symmetric]
    using p(1) assms(3,6) find_device_complain(1) [OF assms(7)] by (simp add: add_options_def add_stab_def zero_stab a)
  obtain rta where "view_request (request_bytes cmd (NLM_F_REQUEST OR fl OR NLM_F_ACK) (rh_seq (ts_rth st2) + 1) ?t n') =
      \<lparr>v_type = cmd, v_flags = NLM_F_REQUEST OR fl OR NLM_F_ACK, v_ifindex = idx, v_handle = 0,
        v_parent = TC_H_ROOT, v_kind = Some k, v_options = Some rta\<rparr>"
    "P (rta_payload rta)" "RTA_PAYLOAD rta = int m"
    using view_options [OF n(1) sz(2) n(2) p(2) accepts_small [OF assms(1), THEN conjunct1] accepts_small [OF assms(1), THEN conjunct2] refl k(3,2),
        of cmd "NLM_F_REQUEST OR fl OR NLM_F_ACK" "rh_seq (ts_rth st2) + 1" ?t] a by auto
  then show ?thesis
    unfolding e send_request_eq
    using find_device_complain(2) [OF assms(7)] lookup_kind_requests [OF assms(5)] by auto
qed

end

end
