(* ===== verification/Tc_Options.thy ===== *)
theory Tc_Options
  imports Tc_Qdisc
begin

text \<open>
  What the option parsers of the disciplines (\<open>tc/q_*.c\<close>) share: the loop over the arguments
  with its keywords, the messages it prints, and the two ways the options get into the
  message, as a structure or as nested attributes.
\<close>

section \<open>The loop over the arguments\<close>

definition nl :: string where
  "nl = [CHR 0x0A]"

text \<open>\<open>sscanf\<close> with \<open>%d\<close> and with \<open>%lf\<close>: what follows the number is not looked at.\<close>

definition scan_d :: "string \<Rightarrow> s32 option" where
  "scan_d s = (let (v, rest) = strtol s 10 in if rest = s then None else Some (ucast v))"

definition scan_lf :: "string \<Rightarrow> double option" where
  "scan_lf s = (let (v, rest) = strtod s in if rest = s then None else Some v)"

definition show_s32 :: "s32 \<Rightarrow> string" where
  "show_s32 w = show_int (sint w)"

definition show_s16 :: "u16 \<Rightarrow> string" where
  "show_s16 w = show_int (sint w)"

text \<open>
  A word is an option by itself, or one with an argument, before which something may be
  printed. An option leads to new values, printing something, or ends with a message and the
  values so far.
\<close>

datatype 's opt_step = Next 's string | Reject string

datatype 's opt_word = Flag "'s opt_step" | Value string "string \<Rightarrow> 's opt_step"

fun opt_loop :: "(string \<Rightarrow> 's \<Rightarrow> 's opt_word) \<Rightarrow> string list \<Rightarrow> 's \<Rightarrow> string \<Rightarrow> ('s \<times> string + 's \<times> string) cli" where
  "opt_loop word [] st err = Ret (Inr (st, err))"
| "opt_loop word (kw # argv) st err =
     (case word kw st of
        Flag (Next st t) \<Rightarrow> opt_loop word argv st (err @ t)
      | Flag (Reject t) \<Rightarrow> Ret (Inl (st, err @ t))
      | Value pre f \<Rightarrow>
          (case argv of
             [] \<Rightarrow> printed_before (err @ pre) incomplete_command
           | v # argv \<Rightarrow>
               (case f v of
                  Next st t \<Rightarrow> opt_loop word argv st (err @ pre @ t)
                | Reject t \<Rightarrow> Ret (Inl (st, err @ pre @ t)))))"

definition run_options :: "(string \<Rightarrow> 's \<Rightarrow> 's opt_word) \<Rightarrow> 's \<Rightarrow> ('s \<Rightarrow> string \<Rightarrow> nlmsg \<Rightarrow> (int \<times> string \<times> nlmsg) cli)
    \<Rightarrow> string list \<Rightarrow> nlmsg \<Rightarrow> (int \<times> string \<times> nlmsg) cli" where
  "run_options word init finish argv n =
     (case opt_loop word argv init [] of
        Exit status msg \<Rightarrow> Exit status msg
      | Ret (Inl (st, msg)) \<Rightarrow> Ret (- 1, msg, n)
      | Ret (Inr (st, err)) \<Rightarrow> finish st err n)"

text \<open>What every option keeps, the loop keeps.\<close>

lemma opt_loop_keeps:
  assumes flag: "\<And>kw st u t. word kw st = Flag (Next u t) \<Longrightarrow> I st \<Longrightarrow> I u"
    and val: "\<And>kw st pre f v u t. word kw st = Value pre f \<Longrightarrow> f v = Next u t \<Longrightarrow> I st \<Longrightarrow> I u"
  shows "opt_loop word argv st err = Ret (Inr (st', err')) \<Longrightarrow> I st \<Longrightarrow> I st'"
proof (induction argv arbitrary: st err rule: length_induct)
  case (1 argv)
  have IH: "I st'" if "length xs < length argv" "opt_loop word xs u e = Ret (Inr (st', err'))" "I u" for xs u e
    using 1(1) that by blast
  show ?case
  proof (cases argv)
    case (Cons kw rest)
    show ?thesis
    proof (cases "word kw st")
      case (Flag s)
      then obtain u t where s: "s = Next u t" "opt_loop word rest u (err @ t) = Ret (Inr (st', err'))"
        using 1(2) Cons by (cases s) auto
      show ?thesis by (rule IH [OF _ s(2) flag [OF Flag [unfolded s(1)] 1(3)]]) (simp add: Cons)
    next
      case (Value pre f)
      then obtain v xs u t where s: "rest = v # xs" "f v = Next u t" "opt_loop word xs u (err @ pre @ t) = Ret (Inr (st', err'))"
        using 1(2) Cons by (cases rest) (auto simp: incomplete_command_def split: opt_step.splits)
      show ?thesis by (rule IH [OF _ s(3) val [OF Value s(2) 1(3)]]) (simp add: Cons s(1))
    qed
  qed (use 1(2,3) in simp)
qed

text \<open>Two loops whose words agree under a change of the values agree.\<close>

lemma opt_loop_map:
  assumes "\<And>kw st. word' kw (h st) = map_opt_word h (word kw st)"
  shows "opt_loop word' argv (h st) err = map_cli (map_sum (apfst h) (apfst h)) (opt_loop word argv st err)"
proof (induction argv arbitrary: st err rule: length_induct)
  case (1 argv)
  then have IH: "opt_loop word' xs (h u) e = map_cli (map_sum (apfst h) (apfst h)) (opt_loop word xs u e)" if "length xs < length argv" for xs u e
    using that by blast
  show ?case
  proof (cases argv)
    case (Cons kw rest)
    show ?thesis
    proof (cases "word kw st")
      case (Flag s)
      then show ?thesis using IH Cons by (cases s) (simp_all add: assms)
    next
      case (Value pre f)
      then show ?thesis using IH Cons by (cases rest) (auto simp: assms incomplete_command_def split: opt_step.splits)
    qed
  qed simp
qed

definition illegal :: "string \<Rightarrow> string" where
  "illegal kw = ''Illegal \"'' @ kw @ ''\"'' @ nl"

definition what_is :: "string \<Rightarrow> string" where
  "what_is kw = ''What is \"'' @ kw @ ''\"?'' @ nl"

text \<open>An argument is read and stored, or refused under a name.\<close>

definition read_opt :: "string \<Rightarrow> 'v option \<Rightarrow> ('v \<Rightarrow> 's) \<Rightarrow> 's opt_step" where
  "read_opt kw x put = (case x of None \<Rightarrow> Reject (illegal kw) | Some v \<Rightarrow> Next (put v) [])"

section \<open>Fixed point numbers\<close>

definition double2fixpoint :: "double \<Rightarrow> s32" where
  "double2fixpoint d =
     snd (for_up 1 32 (\<lambda>i (d, ret).
       let ret = push_bit 1 ret;
           d = d * d_of_int 2
       in if d \<ge> 1 then (d - 1, ret OR 1) else (d, ret)) (d, 0))"

text \<open>The shift of a negative \<open>int\<close> to the right keeps its sign.\<close>

definition fixpoint2double :: "s32 \<Rightarrow> double" where
  "fixpoint2double f =
     snd (for_up 1 32 (\<lambda>i (f, ret).
       let ret = (if f AND 1 \<noteq> 0 then ret + 1 else ret);
           ret = ret div d_of_int 2
       in (signed_drop_bit 1 f, ret)) (f, 0))"

section \<open>Options in the message\<close>

definition nest_options :: "nat \<Rightarrow> attr list \<Rightarrow> nlmsg \<Rightarrow> nlmsg" where
  "nest_options maxlen as n =
     (let tail = NLMSG_TAIL n;
          n = snd (addattr_l n maxlen TCA_OPTIONS []);
          n = snd (add_all maxlen as n)
      in set_rta_len tail (NLMSG_TAIL n - tail) n)"

lemma payload_data:
  assumes "rta_payload a = bs"
  shows "bs \<noteq> [] \<Longrightarrow> int (length bs) \<le> RTA_PAYLOAD a" "RTA_DATA a = bs @ drop (length bs) (RTA_DATA a)"
proof -
  have t: "take (nat (RTA_PAYLOAD a)) (RTA_DATA a) = bs" using assms by (simp add: rta_payload_def)
  then show "bs \<noteq> [] \<Longrightarrow> int (length bs) \<le> RTA_PAYLOAD a" by auto
  show "RTA_DATA a = bs @ drop (length bs) (RTA_DATA a)" using t
    by (metis append_eq_conv_conj append_take_drop_id)
qed

lemma aligned_tail: "nlmsg_len n mod 4 = 0 \<Longrightarrow> NLMSG_TAIL n = nlmsg_len n"
  by (simp add: NLMSG_TAIL_def NLMSG_ALIGN_dvd mod_eq_0_iff_dvd)

lemma nest_options_added:
  assumes "nlmsg_len n mod 4 = 0" "nlmsg_len n + 4 + attrs_size as \<le> maxlen" "maxlen \<le> length (nl_buf n)"
    and "\<forall>a \<in> set as. 4 + length (snd a) < 2 ^ 16" "4 + attrs_size as < 2 ^ 16" "as \<noteq> []"
  shows "options_added n (nest_options maxlen as n) (attrs_size as) (\<lambda>bs. holds_attrs bs as)"
proof -
  obtain n1 n2 n3 tb where r: "addattr_nest n maxlen TCA_OPTIONS = (nlmsg_len n, n1)"
    "add_all maxlen as n1 = (replicate (length as) 0, n2)"
    "addattr_nest_end n2 (nlmsg_len n) = (nlmsg_len n + 4 + attrs_size as, n3)"
    "nlmsg_len n3 = nlmsg_len n + 4 + attrs_size as"
    "take (nlmsg_len n) (nl_buf n3) = take (nlmsg_len n) (nl_buf n)"
    "rta_type (drop (nlmsg_len n) (nl_buf n3)) = unat TCA_OPTIONS"
    "rta_len (drop (nlmsg_len n) (nl_buf n3)) = 4 + attrs_size as"
    "holds_attrs (RTA_DATA (drop (nlmsg_len n) (nl_buf n3))) as"
    by (rule nest_roundtrip [where type = TCA_OPTIONS and mx = 0, OF assms(1-5)]) blast
  have "0 < attrs_size as" using assms(6) attr_size_ge [of "hd as"] by (cases as) auto
  moreover have n: "nest_options maxlen as n = n3"
    using r(1-3) aligned_tail [OF assms(1)]
    by (simp add: nest_options_def addattr_nest_def addattr_nest_end_def split_beta Let_def)
  ultimately have "nlmsg_len n3 \<le> length (nl_buf n3)"
    using holds_attrs_length [OF r(8)] r(4) by (simp add: RTA_DATA_def)
  moreover have "holds_attrs (rta_payload (drop (nlmsg_len n) (nl_buf n3))) as"
    by (rule holds_attrs_take [OF r(8)]) (simp add: rta_payload_def RTA_PAYLOAD_def r(7))
  ultimately show ?thesis unfolding n using r(4-7) by (simp add: options_added_def)
qed

lemma raw_options_added:
  assumes "nlmsg_len n mod 4 = 0" "nlmsg_len n + 4 + length bs \<le> maxlen" "maxlen \<le> length (nl_buf n)" "4 dvd length bs" "4 + length bs < 2 ^ 16"
  shows "options_added n (snd (addattr_l n maxlen TCA_OPTIONS bs)) (length bs) (\<lambda>d. d = bs)"
proof -
  let ?a = "(TCA_OPTIONS, bs)"
  have sz: "attr_size ?a = 4 + length bs" using assms(4) by (auto simp: attr_size_def RTA_ALIGN_def elim!: dvdE)
  have "\<exists>n'. add_all maxlen [?a] n = (replicate (length [?a]) 0, n') \<and> nlmsg_len n' = nlmsg_len n + attrs_size ([] @ [?a])
      \<and> holds_attrs (drop (nlmsg_len n) (nl_buf n')) ([] @ [?a]) \<and> take (nlmsg_len n) (nl_buf n') = take (nlmsg_len n) (nl_buf n)
      \<and> length (nl_buf n') = length (nl_buf n)"
    by (rule add_all_holds) (use assms sz in \<open>auto simp: mod_eq_0_iff_dvd\<close>)
  then obtain n' where n': "snd (addattr_l n maxlen TCA_OPTIONS bs) = n'" "nlmsg_len n' = nlmsg_len n + 4 + length bs"
    "holds_attrs (drop (nlmsg_len n) (nl_buf n')) [?a]" "take (nlmsg_len n) (nl_buf n') = take (nlmsg_len n) (nl_buf n)"
    "length (nl_buf n') = length (nl_buf n)"
    using sz by (auto split: prod.splits)
  have "4 + length (snd ?a) < 2 ^ 16" using assms(5) by simp
  from holds_attrs_head [OF n'(3) this] show ?thesis
    unfolding n'(1) using n'(2,4,5) assms(2,3) by (simp add: options_added_def)
qed

text \<open>Options nested in the message are found in it again.\<close>

lemma small_attrs: "attrs_size as < m \<Longrightarrow> \<forall>a \<in> set as. 4 + length (snd a) < m"
proof
  fix a
  assume "attrs_size as < m" "a \<in> set as"
  moreover have "attr_size a \<le> attrs_size as" using \<open>a \<in> set as\<close> by (simp add: attrs_size_def member_le_sum_list)
  ultimately show "4 + length (snd a) < m" using attr_size_ge [of a] by linarith
qed

lemma nested_attr:
  assumes "holds_attrs (rta_payload rta) as" "RTA_PAYLOAD rta = int (attrs_size as)" "attrs_size as < 2 ^ 16" "t \<le> mx"
  shows "map_option rta_payload (fst (parse_rtattr_nested mx rta) ! t) = attr_map as t"
proof -
  have "holds_attrs (RTA_DATA rta) as"
    by (rule holds_attrs_take [OF assms(1)]) (simp add: rta_payload_def assms(2))
  then obtain tb where "parse_rtattr_nested mx rta = (tb, 0)"
    "\<forall>t \<le> mx. map_option rta_payload (tb ! t) = attr_map as t"
    using parse_rtattr_loop_holds [of "RTA_DATA rta" as "replicate (mx + 1) None" mx] small_attrs [OF assms(3)]
    by (auto simp: parse_rtattr_nested_def parse_rtattr_def assms(2) simp del: replicate_Suc)
  then show ?thesis using assms(4) by simp
qed

lemma nested_data:
  assumes "holds_attrs (rta_payload rta) as" "RTA_PAYLOAD rta = int (attrs_size as)" "attrs_size as < 2 ^ 16" "t \<le> mx"
    and "attr_map as t = Some bs" "length bs = k" "0 < k"
  obtains a r where "fst (parse_rtattr_nested mx rta) ! t = Some a" "\<not> RTA_PAYLOAD a < int k" "RTA_DATA a = bs @ r"
proof -
  obtain a where a: "fst (parse_rtattr_nested mx rta) ! t = Some a" "rta_payload a = bs"
    using nested_attr [OF assms(1-4)] assms(5) by auto
  have "bs \<noteq> []" using assms(6,7) by auto
  then show ?thesis using payload_data [OF a(2)] assms(6) by (intro that [OF a(1)]) auto
qed

section \<open>A discipline with options\<close>

text \<open>
  A discipline whose parser reads its options with the loop: \<open>content\<close> says for which values the
  message is made, how many bytes of options it has, and what they are; \<open>shown\<close> is what is
  printed for them.
\<close>

locale option_parser =
  fixes word :: "string \<Rightarrow> 's \<Rightarrow> 's opt_word" and init :: 's
    and finish :: "'s \<Rightarrow> string \<Rightarrow> nlmsg \<Rightarrow> (int \<times> string \<times> nlmsg) cli"
    and content :: "'s \<Rightarrow> nat \<Rightarrow> (u8 list \<Rightarrow> bool) \<Rightarrow> bool"
    and print :: "u8 list option \<Rightarrow> int \<times> string" and shown :: "'s \<Rightarrow> string"
    and room :: nat
  assumes finish_adds: "content st k P \<Longrightarrow> nlmsg_len n mod 4 = 0 \<Longrightarrow> nlmsg_len n \<le> room \<Longrightarrow> 4096 \<le> length (nl_buf n) \<Longrightarrow>
      \<exists>err' n'. finish st err n = Ret (0, err', n') \<and> options_added n n' k P"
    and content_small: "content st k P \<Longrightarrow> 4 dvd k \<and> 4 + k < 2 ^ 16"
    and print_content: "content st k P \<Longrightarrow> P (rta_payload rta) \<Longrightarrow> RTA_PAYLOAD rta = int k \<Longrightarrow> print (Some rta) = (0, shown st)"
    and kind_room: "56 \<le> room"

definition reads_options :: "(string \<Rightarrow> 's \<Rightarrow> 's opt_word) \<Rightarrow> 's \<Rightarrow> string list \<Rightarrow> 's \<Rightarrow> bool" where
  "reads_options word init argv st \<longleftrightarrow> (\<exists>err. opt_loop word argv init [] = Ret (Inr (st, err)))"

sublocale option_parser \<subseteq> qdisc_parser "run_options word init finish"
  "\<lambda>argv k P. \<exists>st. reads_options word init argv st \<and> content st k P" room
proof (unfold_locales, goal_cases)
  case (1 argv k P n)
  then obtain st err where st: "opt_loop word argv init [] = Ret (Inr (st, err))" "content st k P" by (auto simp: reads_options_def)
  obtain err' n' where "finish st err n = Ret (0, err', n')" "options_added n n' k P"
    using finish_adds [OF st(2) 1(2-4)] by blast
  then show ?case using st(1) by (auto simp: run_options_def)
next
  case (2 argv k P)
  then show ?case using content_small by blast
next
  case 3
  show ?case by (rule kind_room)
qed

text \<open>The request for a discipline at the root of a device, and how its options print.\<close>

definition request_shows :: "tc_env \<Rightarrow> string list \<Rightarrow> tc_state \<Rightarrow> qdisc_util \<Rightarrow> s32 \<Rightarrow> string \<Rightarrow> bool" where
  "request_shows env argv st q idx text_of \<longleftrightarrow>
     (\<exists>r st' b rta. do_qdisc env argv st = (r, st') \<and> ts_requests st' = ts_requests st @ [b]
        \<and> view_request b = \<lparr>v_type = RTM_NEWQDISC, v_flags = NLM_F_REQUEST OR (NLM_F_EXCL OR NLM_F_CREATE) OR NLM_F_ACK, v_ifindex = idx,
            v_handle = 0, v_parent = TC_H_ROOT, v_kind = Some (q_id q), v_options = Some rta\<rparr>
        \<and> print_qopt q (Some rta) = (0, text_of))"

text \<open>The options in the request print as what was read.\<close>

context option_parser
begin

lemma add_shows:
  assumes "reads_options word init argv st" "content st m P" "kind_word k" "d \<noteq> []" "length d \<le> 15"
    and "lookup_kind env k ts = (q, ts1)" "parse_qopt q = Some (run_options word init finish)" "find_device env d ts1 = (Inr idx, ts2)"
  shows "\<exists>err b rta. tc_qdisc_modify env cmd fl (''dev'' # d # ''root'' # k # argv) ts =
      (talk_status (fst (rtnl_talk (ts_rth ts2) (NLM_F_REQUEST OR fl) 0 False None (e_sent env) (e_answers env) ())),
       (complain err ts2)\<lparr>ts_rth := (ts_rth ts2)\<lparr>rh_seq := rh_seq (ts_rth ts2) + 1\<rparr>, ts_requests := ts_requests ts @ [b]\<rparr>)
    \<and> view_request b = \<lparr>v_type = cmd, v_flags = NLM_F_REQUEST OR fl OR NLM_F_ACK, v_ifindex = idx, v_handle = 0,
        v_parent = TC_H_ROOT, v_kind = Some k, v_options = Some rta\<rparr>
    \<and> print (Some rta) = (0, shown st)"
proof -
  have "\<exists>st. reads_options word init argv st \<and> content st m P" using assms(1,2) by blast
  from modify_root [OF this assms(3-8), of cmd fl] show ?thesis using print_content [OF assms(2)] by blast
qed

lemma request_root:
  assumes "reads_options word init argv v" "content v m P" "parse_qopt q = Some (run_options word init finish)" "print_qopt q = print"
    and "kind_word (q_id q)" "d \<noteq> []" "length d \<le> 15" "lookup_kind env (q_id q) st = (q, st1)" "find_device env d st1 = (Inr idx, st2)"
    and "t = shown v"
  shows "request_shows env (''add'' # ''dev'' # d # ''root'' # q_id q # argv) st q idx t"
proof -
  have "do_qdisc env (''add'' # ''dev'' # d # ''root'' # q_id q # argv) st =
      tc_qdisc_modify env RTM_NEWQDISC (NLM_F_EXCL OR NLM_F_CREATE) (''dev'' # d # ''root'' # q_id q # argv) st"
    by (simp add: do_qdisc_def matches_def)
  then show ?thesis
    using add_shows [OF assms(1,2,5-8,3,9), of RTM_NEWQDISC "NLM_F_EXCL OR NLM_F_CREATE"]
    by (auto simp: request_shows_def assms(4,10))
qed

end

section \<open>Options in one structure, and nested options\<close>

text \<open>
  Most parsers end in one of two ways: with one structure added when there is something to
  send, or with a list of attributes nested in the message, or a message of an error.
\<close>

definition send_struct :: "u8 list option \<Rightarrow> string \<Rightarrow> nlmsg \<Rightarrow> (int \<times> string \<times> nlmsg) cli" where
  "send_struct opt err n = Ret (0, err, case opt of None \<Rightarrow> n | Some bs \<Rightarrow> snd (addattr_l n 1024 TCA_OPTIONS bs))"

definition send_nested :: "string + string \<times> attr list \<Rightarrow> string \<Rightarrow> nlmsg \<Rightarrow> (int \<times> string \<times> nlmsg) cli" where
  "send_nested opts err n =
     (case opts of
        Inl msg \<Rightarrow> Ret (- 1, err @ msg, n)
      | Inr (warning, as) \<Rightarrow> Ret (0, err @ warning, nest_options 1024 as n))"

locale struct_options =
  fixes word :: "string \<Rightarrow> 's \<Rightarrow> 's opt_word" and init :: 's and made :: "'s \<Rightarrow> u8 list option"
    and print :: "u8 list option \<Rightarrow> int \<times> string" and shown :: "'s \<Rightarrow> string"
  assumes made_size: "made st = Some bs \<Longrightarrow> 4 dvd length bs \<and> length bs \<le> 400"
    and print_made: "made st = Some bs \<Longrightarrow> RTA_DATA rta = bs @ r \<Longrightarrow> RTA_PAYLOAD rta = int (length bs) \<Longrightarrow> print (Some rta) = (0, shown st)"

sublocale struct_options \<subseteq> option_parser word init "\<lambda>st. send_struct (made st)"
  "\<lambda>st k P. \<exists>bs. made st = Some bs \<and> k = length bs \<and> P = (\<lambda>d. d = bs)" print shown 600
proof (unfold_locales, goal_cases)
  case (1 st k P n err)
  then obtain bs where bs: "made st = Some bs" "k = length bs" "P = (\<lambda>d. d = bs)" by blast
  then show ?case
    using raw_options_added [OF 1(2), of bs 1024] 1(3,4) made_size [OF bs(1)] by (simp add: send_struct_def)
next
  case (2 st k P)
  then show ?case using made_size by fastforce
next
  case (3 st k P rta)
  then show ?case using print_made payload_data(2) by blast
qed simp

locale nested_options =
  fixes word :: "string \<Rightarrow> 's \<Rightarrow> 's opt_word" and init :: 's and made :: "'s \<Rightarrow> string + string \<times> attr list"
    and print :: "u8 list option \<Rightarrow> int \<times> string" and shown :: "'s \<Rightarrow> string"
  assumes made_size: "made st = Inr (w, as) \<Longrightarrow> as \<noteq> [] \<and> attrs_size as \<le> 400"
    and print_made: "made st = Inr (w, as) \<Longrightarrow> holds_attrs (rta_payload rta) as \<Longrightarrow> RTA_PAYLOAD rta = int (attrs_size as) \<Longrightarrow>
      attrs_size as < 2 ^ 16 \<Longrightarrow> print (Some rta) = (0, shown st)"

sublocale nested_options \<subseteq> option_parser word init "\<lambda>st. send_nested (made st)"
  "\<lambda>st k P. \<exists>w as. made st = Inr (w, as) \<and> k = attrs_size as \<and> P = (\<lambda>bs. holds_attrs bs as)" print shown 600
proof (unfold_locales, goal_cases)
  case (1 st k P n err)
  then obtain w as where m: "made st = Inr (w, as)" "k = attrs_size as" "P = (\<lambda>bs. holds_attrs bs as)" by blast
  have "attrs_size as < 2 ^ 16" using made_size [OF m(1)] by simp
  from small_attrs [OF this] have small: "\<forall>a \<in> set as. 4 + length (snd a) < 2 ^ 16" .
  have "options_added n (nest_options 1024 as n) (attrs_size as) (\<lambda>bs. holds_attrs bs as)"
    by (rule nest_options_added) (use 1 small made_size [OF m(1)] in auto)
  then show ?case using m by (auto simp: send_nested_def)
next
  case (2 st k P)
  then show ?case using made_size attrs_size_dvd by fastforce
next
  case (3 st k P rta)
  then show ?case using print_made made_size by fastforce
qed simp

end
