(* ===== verification/Q_Rbfgrad.thy ===== *)
theory Q_Rbfgrad
  imports Tc_Options Rbf_Abi
begin

text \<open>
  The part of \<open>tc\<close> for this queueing discipline (\<open>tc/q_rbfgrad.c\<close>): reading its options from
  the command line into a netlink message, and printing what the kernel reports.
\<close>

section \<open>The command line\<close>

definition explain :: string where
  "explain =
     ''Usage: ... rbfgrad limit BYTES sampl_period INTEGER  q_ref PACKETS p_init PROBABILITY p_min PROBABILITY p_max PROBABILITY'' @ nl
     @ ''                kp_k COEFFICIENT ki_k COEFFICIENT kd_k COEFFICIENT eta_p COEFFICIENT eta_i COEFFICIENT eta_d COEFFICIENT'' @ nl
     @ ''                n INTEGER m INTEGER alpha COEFFICIENT  eta COEFFICIENT'' @ nl
     @ ''                [ ecn ]'' @ nl"

text \<open>The options with an argument: what is stored where, \<open>None\<close> when the argument is not a number.\<close>

definition rbfgrad_option :: "string \<Rightarrow> (string \<Rightarrow> tc_rbfgrad_qopt \<Rightarrow> tc_rbfgrad_qopt option) option" where
  "rbfgrad_option kw =
     (if kw = ''limit'' then Some (\<lambda>a q. map_option (\<lambda>v. q\<lparr>o_limit := v\<rparr>) (get_size a))
      else if kw = ''q_ref'' then Some (\<lambda>a q. map_option (\<lambda>v. q\<lparr>o_q_ref := v\<rparr>) (scan_d a))
      else if kw = ''_n'' then Some (\<lambda>a q. map_option (\<lambda>v. q\<lparr>o_n := v\<rparr>) (scan_d a))
      else if kw = ''m'' then Some (\<lambda>a q. map_option (\<lambda>v. q\<lparr>o_m := v\<rparr>) (scan_d a))
      else if kw = ''p_init'' then Some (\<lambda>a q. map_option (\<lambda>v. q\<lparr>o_p_init := v\<rparr>) (scan_lf a))
      else if kw = ''p_min'' then Some (\<lambda>a q. map_option (\<lambda>v. q\<lparr>o_p_min := v\<rparr>) (scan_lf a))
      else if kw = ''p_max'' then Some (\<lambda>a q. map_option (\<lambda>v. q\<lparr>o_p_max := v\<rparr>) (scan_lf a))
      else if kw = ''eta_p'' then Some (\<lambda>a q. map_option (\<lambda>v. q\<lparr>o_eta_p := v\<rparr>) (scan_lf a))
      else if kw = ''eta_i'' then Some (\<lambda>a q. map_option (\<lambda>v. q\<lparr>o_eta_i := v\<rparr>) (scan_lf a))
      else if kw = ''eta_d'' then Some (\<lambda>a q. map_option (\<lambda>v. q\<lparr>o_eta_d := v\<rparr>) (scan_lf a))
      else if kw = ''alpha'' then Some (\<lambda>a q. map_option (\<lambda>v. q\<lparr>o_alpha := v\<rparr>) (scan_lf a))
      else if kw = ''eta'' then Some (\<lambda>a q. map_option (\<lambda>v. q\<lparr>o_eta := v\<rparr>) (scan_lf a))
      else if kw = ''kp_k'' then Some (\<lambda>a q. map_option (\<lambda>v. q\<lparr>o_kp_k := v\<rparr>) (scan_lf a))
      else if kw = ''ki_k'' then Some (\<lambda>a q. map_option (\<lambda>v. q\<lparr>o_ki_k := v\<rparr>) (scan_lf a))
      else if kw = ''kd_k'' then Some (\<lambda>a q. map_option (\<lambda>v. q\<lparr>o_kd_k := v\<rparr>) (scan_lf a))
      else if kw = ''sampl_period'' then Some (\<lambda>a q. map_option (\<lambda>v. q\<lparr>o_sampl_period := v\<rparr>) (scan_d a))
      else None)"

text \<open>The loop over the arguments: the options and the ECN flag, or the message of an error.\<close>

function rbfgrad_args :: "string list \<Rightarrow> tc_rbfgrad_qopt \<times> bool \<Rightarrow> (string + tc_rbfgrad_qopt \<times> bool) cli" where
  "rbfgrad_args [] st = Ret (Inr st)"
| "rbfgrad_args (kw # argv) (q, ecn_ok) =
     (case rbfgrad_option kw of
        Some store \<Rightarrow>
          (case NEXT_ARG (kw # argv) of
             Exit status msg \<Rightarrow> Exit status msg
           | Ret argv2 \<Rightarrow>
               (case store (hd argv2) q of
                  None \<Rightarrow> Ret (Inl (''Illegal \"'' @ kw @ ''\"'' @ nl))
                | Some q \<Rightarrow> rbfgrad_args (tl argv2) (q, ecn_ok)))
      | None \<Rightarrow>
          if kw = ''ecn'' then rbfgrad_args argv (q, True)
          else if kw = ''help'' then Ret (Inl explain)
          else Ret (Inl (''What is \"'' @ kw @ ''\"?'' @ nl @ explain)))"
  by pat_completeness auto

termination
  by (relation "measure (\<lambda>(argv, _). length argv)") (use NEXT_ARG_shorter in fastforce)+

text \<open>The checks of the probabilities: they look at the local variables and only print.\<close>

definition p_warnings :: "double \<Rightarrow> double \<Rightarrow> double \<Rightarrow> string" where
  "p_warnings p_init p_min p_max =
     (if p_init < 0 \<or> p_init > 1 then ''RBFGRAD: the init probability must be between 0.0 and 1.0.'' @ nl else [])
     @ (if p_max < 0 \<or> p_max > 1 then ''RBFGRAD: the max probability must be between 0.0 and 1.0.'' @ nl else [])
     @ (if p_min < 0 \<or> p_min > 1 then ''RBFGRAD: the min probability must be between 0.0 and 1.0.'' @ nl else [])
     @ (if p_min > p_max then ''RBFGRAD: the min probability must be less than max probability.'' @ nl else [])"

definition with_ecn :: "bool \<Rightarrow> tc_rbfgrad_qopt \<Rightarrow> tc_rbfgrad_qopt" where
  "with_ecn ecn_ok q = (if ecn_ok then q\<lparr>o_flags := o_flags q OR TC_RBFGRAD_ECN\<rparr> else q)"

text \<open>
  The local variables \<open>p_init\<close> and \<open>p_min\<close> and the array \<open>sbuf\<close> are never set, so their content
  is an argument. The result is the value returned, what was printed to the error stream and
  the message.
\<close>

definition rbfgrad_parse_opt ::
    "double \<Rightarrow> double \<Rightarrow> u8 list \<Rightarrow> string list \<Rightarrow> nlmsg \<Rightarrow> (int \<times> string \<times> nlmsg) cli" where
  "rbfgrad_parse_opt p_init p_min sbuf argv n =
     (let p_max = dlit 2 100
      in case rbfgrad_args argv (zero_qopt, False) of
           Exit status msg \<Rightarrow> Exit status msg
         | Ret (Inl msg) \<Rightarrow> Ret (- 1, msg, n)
         | Ret (Inr (q, ecn_ok)) \<Rightarrow>
             if sint (o_q_ref q) \<le> 0 then Ret (- 1, ''RBFGRAD: q_ref must be > 0.'' @ nl, n)
             else let err = p_warnings p_init p_min p_max;
                      q = with_ecn ecn_ok q;
                      tail = NLMSG_TAIL n;
                      n = snd (addattr_l n 1024 TCA_OPTIONS []);
                      n = snd (addattr_l n 1024 (word_of_nat TCA_RBFGRAD_PARMS) (qopt_bytes q));
                      n = snd (addattr_l n 1024 (word_of_nat TCA_RBFGRAD_STAB) sbuf);
                      n = set_rta_len tail (NLMSG_TAIL n - tail) n
                  in Ret (0, err, n))"

section \<open>Printing\<close>

definition rbfgrad_details :: "tc_rbfgrad_qopt \<Rightarrow> string" where
  "rbfgrad_details q =
     ''q_ref '' @ show_s32 (o_q_ref q) @ '' p_init '' @ show_f 6 (o_p_init q) @ '' p_min '' @ show_f 6 (o_p_min q)
     @ '' p_max '' @ show_f 6 (o_p_max q) @ '' kp_k '' @ show_f 6 (o_kp_k q) @ '' ki_k '' @ show_f 6 (o_ki_k q)
     @ '' kp_d '' @ show_f 6 (o_kd_k q) @ '' eta_p '' @ show_f 6 (o_eta_p q) @ '' eta_i '' @ show_f 6 (o_eta_i q)
     @ '' eta_d '' @ show_f 6 (o_eta_d q) @ '' _n '' @ show_s32 (o_n q) @ '' m '' @ show_s32 (o_m q)
     @ '' alpha '' @ show_f 6 (o_alpha q) @ '' eta '' @ show_f 6 (o_eta q)
     @ '' sampl_period '' @ show_s32 (o_sampl_period q)"

definition rbfgrad_print_opt :: "bool \<Rightarrow> u8 list option \<Rightarrow> int \<times> string" where
  "rbfgrad_print_opt show_details opt =
     (case opt of
        None \<Rightarrow> (0, [])
      | Some rta \<Rightarrow>
          (case fst (parse_rtattr_nested TCA_RBFGRAD_STAB rta) ! TCA_RBFGRAD_PARMS of
             None \<Rightarrow> (- 1, [])
           | Some a \<Rightarrow>
               if RTA_PAYLOAD a < int qopt_size then (- 1, [])
               else let qopt = qopt_of_bytes (RTA_DATA a)
                    in (0, ''limit '' @ sprint_size (o_limit qopt)
                           @ (if o_flags qopt AND TC_RBFGRAD_ECN \<noteq> 0 then ''ecn '' else [])
                           @ (if show_details then rbfgrad_details qopt else []))))"

definition rbfgrad_print_xstats :: "u8 list option \<Rightarrow> int \<times> string" where
  "rbfgrad_print_xstats xstats =
     (case xstats of
        None \<Rightarrow> (0, [])
      | Some rta \<Rightarrow>
          if RTA_PAYLOAD rta < 16 then (- 1, [])
          else let st = RTA_DATA rta
               in (0, ''  marked '' @ show_u32 (field32 12 st) @ '' early '' @ show_u32 (field32 0 st)
                      @ '' pdrop '' @ show_u32 (field32 4 st) @ '' other '' @ show_u32 (field32 8 st)))"

section \<open>The message holds the options\<close>

text \<open>The two attributes of the message.\<close>

definition rbfgrad_attrs :: "tc_rbfgrad_qopt \<Rightarrow> u8 list \<Rightarrow> attr list" where
  "rbfgrad_attrs q sbuf = [(word_of_nat TCA_RBFGRAD_PARMS, qopt_bytes q), (word_of_nat TCA_RBFGRAD_STAB, sbuf)]"

lemma parse_opt_message:
  assumes "rbfgrad_args argv (zero_qopt, False) = Ret (Inr (q, ecn_ok))" "0 < sint (o_q_ref q)"
    and "nlmsg_len n mod 4 = 0" "nlmsg_len n \<le> 636" "1024 \<le> length (nl_buf n)" "length sbuf = 256"
  obtains n' tb where
    "rbfgrad_parse_opt p_init p_min sbuf argv n = Ret (0, p_warnings p_init p_min (dlit 2 100), n')"
    "nlmsg_len n' = nlmsg_len n + 388" "take (nlmsg_len n) (nl_buf n') = take (nlmsg_len n) (nl_buf n)"
    "rta_type (drop (nlmsg_len n) (nl_buf n')) = unat TCA_OPTIONS"
    "rta_len (drop (nlmsg_len n) (nl_buf n')) = 388"
    "parse_rtattr_nested TCA_RBFGRAD_STAB (drop (nlmsg_len n) (nl_buf n')) = (tb, 0)"
    "map_option rta_payload (tb ! TCA_RBFGRAD_PARMS) = Some (qopt_bytes (with_ecn ecn_ok q))"
    "map_option rta_payload (tb ! TCA_RBFGRAD_STAB) = Some sbuf"
    "holds_attrs (RTA_DATA (drop (nlmsg_len n) (nl_buf n'))) (rbfgrad_attrs (with_ecn ecn_ok q) sbuf)"
proof -
  let ?as = "[(word_of_nat TCA_RBFGRAD_PARMS, qopt_bytes (with_ecn ecn_ok q)), (word_of_nat TCA_RBFGRAD_STAB, sbuf)] :: attr list"
  have sz: "attrs_size ?as = 384"
    using assms(6) by (simp add: attrs_size_def attr_size_def RTA_ALIGN_def qopt_size_def)
  have big: "\<forall>a \<in> set ?as. 4 + length (snd a) < 2 ^ 16" using assms(6) by (simp add: qopt_size_def)
  have room: "nlmsg_len n + 4 + attrs_size ?as \<le> 1024" and lim: "4 + attrs_size ?as < 2 ^ 16"
    using assms(4) by (simp_all only: sz) simp_all
  have tail: "NLMSG_TAIL n = nlmsg_len n" using assms(3) by (simp add: NLMSG_TAIL_def NLMSG_ALIGN_dvd mod_eq_0_iff_dvd)
  obtain n1 n2 n3 tb where r: "addattr_nest n 1024 TCA_OPTIONS = (nlmsg_len n, n1)"
    "add_all 1024 ?as n1 = (replicate (length ?as) 0, n2)"
    "addattr_nest_end n2 (nlmsg_len n) = (nlmsg_len n + 4 + attrs_size ?as, n3)"
    "nlmsg_len n3 = nlmsg_len n + 4 + attrs_size ?as"
    "take (nlmsg_len n) (nl_buf n3) = take (nlmsg_len n) (nl_buf n)"
    "rta_type (drop (nlmsg_len n) (nl_buf n3)) = unat TCA_OPTIONS"
    "rta_len (drop (nlmsg_len n) (nl_buf n3)) = 4 + attrs_size ?as"
    "parse_rtattr_nested TCA_RBFGRAD_STAB (drop (nlmsg_len n) (nl_buf n3)) = (tb, 0)"
    "\<forall>t \<le> TCA_RBFGRAD_STAB. map_option rta_payload (tb ! t) = attr_map ?as t"
    "holds_attrs (RTA_DATA (drop (nlmsg_len n) (nl_buf n3))) ?as"
    by (rule nest_roundtrip [where type = TCA_OPTIONS and mx = TCA_RBFGRAD_STAB, OF assms(3) room assms(5) big lim]) blast
  have "rbfgrad_parse_opt p_init p_min sbuf argv n = Ret (0, p_warnings p_init p_min (dlit 2 100), n3)"
    using assms(1,2) r(1-3) tail
    by (simp add: rbfgrad_parse_opt_def addattr_nest_def addattr_nest_end_def split_beta Let_def)
  moreover have "attr_map ?as TCA_RBFGRAD_PARMS = Some (qopt_bytes (with_ecn ecn_ok q))" "attr_map ?as TCA_RBFGRAD_STAB = Some sbuf"
    by (simp_all add: attr_map_def TCA_RBFGRAD_PARMS_def TCA_RBFGRAD_STAB_def)
  ultimately show ?thesis
    using that [of n3 tb] r(4-10) sz by (simp add: TCA_RBFGRAD_PARMS_def TCA_RBFGRAD_STAB_def rbfgrad_attrs_def)
qed

text \<open>The discipline as \<open>tc\<close> finds it, and its parser as the command uses it.\<close>

definition rbfgrad_qdisc_util :: "double \<Rightarrow> double \<Rightarrow> u8 list \<Rightarrow> bool \<Rightarrow> qdisc_util" where
  "rbfgrad_qdisc_util p_init p_min sbuf show_details =
     \<lparr>q_id = ''rbfgrad'', parse_qopt = Some (rbfgrad_parse_opt p_init p_min sbuf),
      print_qopt = rbfgrad_print_opt show_details, print_xstats = Some rbfgrad_print_xstats,
      parse_copt = None, print_copt = None\<rparr>"

definition rbfgrad_accepts :: "u8 list \<Rightarrow> string list \<Rightarrow> nat \<Rightarrow> (u8 list \<Rightarrow> bool) \<Rightarrow> bool" where
  "rbfgrad_accepts sbuf argv k P \<longleftrightarrow> length sbuf = 256 \<and> k = 384 \<and>
     (case rbfgrad_args argv (zero_qopt, False) of
        Ret (Inr (q, ecn_ok)) \<Rightarrow> 0 < sint (o_q_ref q) \<and> P = (\<lambda>bs. holds_attrs bs (rbfgrad_attrs (with_ecn ecn_ok q) sbuf))
      | _ \<Rightarrow> False)"

lemma rbfgrad_attrs_size: "length sbuf = 256 \<Longrightarrow> attrs_size (rbfgrad_attrs q sbuf) = 384"
  by (simp add: rbfgrad_attrs_def attr_size_def RTA_ALIGN_def qopt_size_def)

interpretation rbfgrad: qdisc_parser "rbfgrad_parse_opt p_init p_min sbuf" "rbfgrad_accepts sbuf" 636
  for p_init p_min sbuf
proof (unfold_locales, goal_cases)
  case (1 argv k P n)
  then obtain q ecn_ok where q: "rbfgrad_args argv (zero_qopt, False) = Ret (Inr (q, ecn_ok))" "0 < sint (o_q_ref q)"
    "P = (\<lambda>bs. holds_attrs bs (rbfgrad_attrs (with_ecn ecn_ok q) sbuf))" "k = 384" "length sbuf = 256"
    by (auto simp: rbfgrad_accepts_def split: cli.splits sum.splits)
  let ?as = "rbfgrad_attrs (with_ecn ecn_ok q) sbuf"
  obtain n' where n': "rbfgrad_parse_opt p_init p_min sbuf argv n = Ret (0, p_warnings p_init p_min (dlit 2 100), n')"
    "nlmsg_len n' = nlmsg_len n + 388" "take (nlmsg_len n) (nl_buf n') = take (nlmsg_len n) (nl_buf n)"
    "rta_type (drop (nlmsg_len n) (nl_buf n')) = unat TCA_OPTIONS" "rta_len (drop (nlmsg_len n) (nl_buf n')) = 388"
    "holds_attrs (RTA_DATA (drop (nlmsg_len n) (nl_buf n'))) ?as"
    using parse_opt_message [OF q(1,2) 1(2,3) _ q(5), of p_init p_min] 1(4) by auto
  have sz: "attrs_size ?as = 384" by (rule rbfgrad_attrs_size [OF q(5)])
  have "nlmsg_len n' \<le> length (nl_buf n')"
    using holds_attrs_length [OF n'(6)] n'(2) by (simp add: sz RTA_DATA_def)
  moreover have "holds_attrs (rta_payload (drop (nlmsg_len n) (nl_buf n'))) ?as"
    by (rule holds_attrs_take [OF n'(6)]) (simp add: sz rta_payload_def RTA_PAYLOAD_def n'(5))
  ultimately have "options_added n n' k P" using n' by (simp add: options_added_def q(3,4))
  with n'(1) show ?case by blast
next
  case (2 argv k P)
  then show ?case by (simp add: rbfgrad_accepts_def)
qed simp

text \<open>
  C26: when the arguments are read and the reference queue length is positive, the command
  puts the options and the table behind the bytes already in the message, and printing the
  options from that message shows the limit, the ECN flag and the values read; the warnings
  depend on the unset local variables only.
\<close>
theorem rbfgrad_options_roundtrip:
  assumes "rbfgrad_args argv (zero_qopt, False) = Ret (Inr (q, ecn_ok))" "0 < sint (o_q_ref q)"
    and "nlmsg_len n mod 4 = 0" "nlmsg_len n \<le> 636" "1024 \<le> length (nl_buf n)" "length sbuf = 256"
  shows "\<exists>n'. rbfgrad_parse_opt p_init p_min sbuf argv n = Ret (0, p_warnings p_init p_min (dlit 2 100), n')
    \<and> take (nlmsg_len n) (nl_buf n') = take (nlmsg_len n) (nl_buf n)
    \<and> rbfgrad_print_opt details (Some (drop (nlmsg_len n) (nl_buf n'))) =
        (0, ''limit '' @ sprint_size (o_limit q)
            @ (if o_flags (with_ecn ecn_ok q) AND TC_RBFGRAD_ECN \<noteq> 0 then ''ecn '' else [])
            @ (if details then rbfgrad_details q else []))"
proof -
  obtain n' tb where
    r: "rbfgrad_parse_opt p_init p_min sbuf argv n = Ret (0, p_warnings p_init p_min (dlit 2 100), n')"
    "take (nlmsg_len n) (nl_buf n') = take (nlmsg_len n) (nl_buf n)"
    "parse_rtattr_nested TCA_RBFGRAD_STAB (drop (nlmsg_len n) (nl_buf n')) = (tb, 0)"
    "map_option rta_payload (tb ! TCA_RBFGRAD_PARMS) = Some (qopt_bytes (with_ecn ecn_ok q))"
    using parse_opt_message [OF assms, of p_init p_min] by metis
  obtain a where a: "tb ! TCA_RBFGRAD_PARMS = Some a" "rta_payload a = qopt_bytes (with_ecn ecn_ok q)"
    using r(4) by auto
  have "qopt_bytes (with_ecn ecn_ok q) \<noteq> []" by (simp add: qopt_bytes_def)
  then have "int qopt_size \<le> RTA_PAYLOAD a" using payload_data(1) [OF a(2)] by simp
  moreover have "qopt_of_bytes (RTA_DATA a) = with_ecn ecn_ok q"
    using payload_data(2) [OF a(2)] qopt_of_bytes_inverse by metis
  ultimately have "rbfgrad_print_opt details (Some (drop (nlmsg_len n) (nl_buf n'))) =
      (0, ''limit '' @ sprint_size (o_limit (with_ecn ecn_ok q))
          @ (if o_flags (with_ecn ecn_ok q) AND TC_RBFGRAD_ECN \<noteq> 0 then ''ecn '' else [])
          @ (if details then rbfgrad_details (with_ecn ecn_ok q) else []))"
    by (simp add: rbfgrad_print_opt_def r(3) a(1) Let_def)
  moreover have "o_limit (with_ecn ecn_ok q) = o_limit q" "rbfgrad_details (with_ecn ecn_ok q) = rbfgrad_details q"
    by (simp_all add: with_ecn_def rbfgrad_details_def)
  ultimately show ?thesis using r(1,2) by auto
qed

text \<open>Reading a printed number.\<close>

lemma scan_d_show: "n < 2 ^ 63 \<Longrightarrow> scan_d (show_dec n) = Some (word_of_nat n)"
proof -
  assume "n < 2 ^ 63"
  then have "strtol (show_dec n) 10 = (word_of_nat n, [])"
    using strto_mag_show [of 10 "[]" n] by (simp add: strtol_def)
  moreover have "(ucast (word_of_nat n :: s64) :: s32) = word_of_nat n"
    by (rule bit_word_eqI) (simp add: bit_simps)
  ultimately show ?thesis by (simp add: scan_d_def show_base_nonempty [THEN not_sym])
qed

lemma sint_of_nat: "n < 2 ^ 31 \<Longrightarrow> sint (word_of_nat n :: s32) = int n"
  by (subst sint_positive) (simp_all add: unat_of_nat)

lemma args_q_ref:
  "n < 2 ^ 63 \<Longrightarrow> rbfgrad_args [''q_ref'', show_dec n] st = Ret (Inr (fst st\<lparr>o_q_ref := word_of_nat n\<rparr>, snd st))"
  by (cases st) (simp add: rbfgrad_option_def NEXT_ARG_def scan_d_show)

theorem rbfgrad_options_roundtrip_witness:
  "\<exists>n'. rbfgrad_parse_opt 0 0 (replicate 256 0) [''q_ref'', show_dec 50] \<lparr>nlmsg_len = 36, nl_buf = replicate 1024 0\<rparr>
        = Ret (0, p_warnings 0 0 (dlit 2 100), n')
    \<and> rbfgrad_print_opt False (Some (drop 36 (nl_buf n'))) = (0, ''limit '' @ sprint_size 0)"
  using rbfgrad_options_roundtrip [of "[''q_ref'', show_dec 50]" "zero_qopt\<lparr>o_q_ref := 50\<rparr>" False
      "\<lparr>nlmsg_len = 36, nl_buf = replicate 1024 0\<rparr>" "replicate 256 0" 0 0 False]
    args_q_ref [of 50 "(zero_qopt, False)"]
  by (auto simp: zero_qopt_def with_ecn_def)

text \<open>
  An option that is not named on the command line is sent as zero. With only the
  reference queue length given, every probability, coefficient, size and the limit in the
  message is zero, not the default the local variables are set to, and whatever the unset
  variables hold decides only about the warnings.
\<close>
lemma unset_options_zero:
  assumes "0 < k" "k < 2 ^ 31"
    and "nlmsg_len n mod 4 = 0" "nlmsg_len n \<le> 636" "1024 \<le> length (nl_buf n)" "length sbuf = 256"
  shows "\<exists>n' tb. rbfgrad_parse_opt p_init p_min sbuf [''q_ref'', show_dec k] n = Ret (0, p_warnings p_init p_min (dlit 2 100), n')
    \<and> parse_rtattr_nested TCA_RBFGRAD_STAB (drop (nlmsg_len n) (nl_buf n')) = (tb, 0)
    \<and> map_option rta_payload (tb ! TCA_RBFGRAD_PARMS) = Some (qopt_bytes (zero_qopt\<lparr>o_q_ref := word_of_nat k\<rparr>))"
proof -
  have a: "rbfgrad_args [''q_ref'', show_dec k] (zero_qopt, False) = Ret (Inr (zero_qopt\<lparr>o_q_ref := word_of_nat k\<rparr>, False))"
    using assms(2) by (subst args_q_ref) simp_all
  have "0 < sint (o_q_ref (zero_qopt\<lparr>o_q_ref := word_of_nat k\<rparr>))" using assms(1,2) by (simp add: sint_of_nat)
  from parse_opt_message [OF a this assms(3-6), of p_init p_min] show ?thesis
    by (simp add: with_ecn_def) metis
qed

end
