(* ===== verification/Q_Mqprio.thy ===== *)
theory Q_Mqprio
  imports Tc_Options
begin

text \<open>
  Traffic classes of a device with several queues (\<open>tc/q_mqprio.c\<close>). Two of its options take as
  many of the following words as are numbers.
\<close>

definition TC_QOPT_BITMASK :: nat where "TC_QOPT_BITMASK = 15"
definition TC_QOPT_MAX_QUEUE :: nat where "TC_QOPT_MAX_QUEUE = 16"

record tc_mqprio_qopt =
  mq_num_tc :: u8
  mq_prio_tc_map :: "u8 list"
  mq_hw :: u8
  mq_count :: "u16 list"
  mq_offset :: "u16 list"

definition mqprio_bytes :: "tc_mqprio_qopt \<Rightarrow> u8 list" where
  "mqprio_bytes q = [mq_num_tc q] @ mq_prio_tc_map q @ [mq_hw q] @ concat (map le16_bytes (mq_count q)) @ concat (map le16_bytes (mq_offset q))"

definition mqprio_init :: tc_mqprio_qopt where
  "mqprio_init = \<lparr>mq_num_tc = 8, mq_prio_tc_map = [0, 1, 2, 3, 4, 5, 6, 7, 0, 1, 1, 1, 3, 3, 3, 3], mq_hw = 1,
     mq_count = replicate 16 0, mq_offset = replicate 16 0\<rparr>"

definition mqprio_explain :: string where
  "mqprio_explain = ''Usage: ... mqprio [num_tc NUMBER] [map P0 P1 ...]'' @ nl
     @ ''                  [queues count1@offset1 count2@offset2 ...] '' @ ''[hw 1|0]'' @ nl"

text \<open>
  The words after \<open>map\<close>, and after \<open>queues\<close>: the number of the next entry and what is left; a word
  that is not a number is left for the loop, but a count in front of a bad offset is kept.
\<close>

fun map_args :: "nat \<Rightarrow> string list \<Rightarrow> tc_mqprio_qopt \<Rightarrow> nat \<times> tc_mqprio_qopt \<times> string list" where
  "map_args idx [] q = (idx, q, [])"
| "map_args idx (a # argv) q =
     (if idx < TC_QOPT_MAX_QUEUE
      then case get_u8 a 10 of
             None \<Rightarrow> (idx, q, a # argv)
           | Some x \<Rightarrow> map_args (idx + 1) argv (q\<lparr>mq_prio_tc_map := (mq_prio_tc_map q)[idx := x]\<rparr>)
      else (idx, q, a # argv))"

definition tok_u16 :: "string list \<Rightarrow> u16 option" where
  "tok_u16 toks = (case toks of [] \<Rightarrow> None | t # _ \<Rightarrow> get_u16 t 10)"

fun queue_args :: "nat \<Rightarrow> string list \<Rightarrow> tc_mqprio_qopt \<Rightarrow> tc_mqprio_qopt \<times> string list" where
  "queue_args idx [] q = (q, [])"
| "queue_args idx (a # argv) q =
     (if idx < TC_QOPT_MAX_QUEUE
      then let toks = strtok_all ''@'' a
           in case tok_u16 toks of
                None \<Rightarrow> (q, a # argv)
              | Some c \<Rightarrow>
                  let q = q\<lparr>mq_count := (mq_count q)[idx := c]\<rparr>
                  in (case tok_u16 (tl toks) of
                        None \<Rightarrow> (q, a # argv)
                      | Some off \<Rightarrow> queue_args (idx + 1) argv (q\<lparr>mq_offset := (mq_offset q)[idx := off]\<rparr>))
      else (q, a # argv))"

text \<open>The entries of the map that were not given are zero.\<close>

definition map_option_words :: "string list \<Rightarrow> tc_mqprio_qopt \<Rightarrow> tc_mqprio_qopt \<times> string list" where
  "map_option_words argv q =
     (let (idx, q, rest) = map_args 0 argv q
      in (q\<lparr>mq_prio_tc_map := for_up idx TC_QOPT_MAX_QUEUE (\<lambda>i m. m[i := 0]) (mq_prio_tc_map q)\<rparr>, rest))"

lemma map_args_shorter: "map_args idx argv q = (i, q', rest) \<Longrightarrow> length rest \<le> length argv"
  by (induction idx argv q arbitrary: i q' rest rule: map_args.induct) (fastforce split: if_splits option.splits)+

lemma queue_args_shorter: "queue_args idx argv q = (q', rest) \<Longrightarrow> length rest \<le> length argv"
  by (induction idx argv q arbitrary: q' rest rule: queue_args.induct) (fastforce simp: Let_def split: if_splits option.splits)+

text \<open>A number behind a word.\<close>

definition u8_arg :: "string \<Rightarrow> string list \<Rightarrow> (string + u8 \<times> string list) cli" where
  "u8_arg kw argv =
     (case argv of
        [] \<Rightarrow> incomplete_command
      | a # argv \<Rightarrow> (case get_u8 a 10 of None \<Rightarrow> Ret (Inl (illegal kw)) | Some x \<Rightarrow> Ret (Inr (x, argv))))"

definition mqprio_arg :: "string \<Rightarrow> string list \<Rightarrow> tc_mqprio_qopt \<Rightarrow> (string + tc_mqprio_qopt \<times> string list) cli" where
  "mqprio_arg kw argv q =
     (if kw = ''num_tc'' then map_cli (map_sum id (map_prod (\<lambda>x. q\<lparr>mq_num_tc := x\<rparr>) id)) (u8_arg kw argv)
      else if kw = ''map'' then Ret (Inr (map_option_words argv q))
      else if kw = ''queues'' then Ret (Inr (queue_args 0 argv q))
      else if kw = ''hw'' then map_cli (map_sum id (map_prod (\<lambda>x. q\<lparr>mq_hw := x\<rparr>) id)) (u8_arg kw argv)
      else if kw = ''help'' then Ret (Inl mqprio_explain)
      else Ret (Inl (''Unknown argument'' @ nl)))"

lemma mqprio_arg_shorter:
  assumes "mqprio_arg kw argv q = Ret (Inr (q', rest))"
  shows "length rest \<le> length argv"
  using assms
  by (auto simp: mqprio_arg_def map_option_words_def u8_arg_def incomplete_command_def dest: map_args_shorter queue_args_shorter
      split: if_splits prod.splits list.splits option.splits)

function mqprio_args :: "string list \<Rightarrow> tc_mqprio_qopt \<Rightarrow> (string + tc_mqprio_qopt) cli" where
  "mqprio_args [] q = Ret (Inr q)"
| "mqprio_args (kw # argv) q =
     (case mqprio_arg kw argv q of
        Exit status msg \<Rightarrow> Exit status msg
      | Ret (Inl msg) \<Rightarrow> Ret (Inl msg)
      | Ret (Inr (q, rest)) \<Rightarrow> mqprio_args rest q)"
  by pat_completeness auto

termination
  by (relation "measure (\<lambda>(argv, _). length argv)") (auto dest: mqprio_arg_shorter)

definition mqprio_parse_opt :: "string list \<Rightarrow> nlmsg \<Rightarrow> (int \<times> string \<times> nlmsg) cli" where
  "mqprio_parse_opt argv n =
     (case mqprio_args argv mqprio_init of
        Exit status msg \<Rightarrow> Exit status msg
      | Ret (Inl msg) \<Rightarrow> Ret (- 1, msg, n)
      | Ret (Inr q) \<Rightarrow> Ret (0, [], snd (addattr_l n 1024 TCA_OPTIONS (mqprio_bytes q))))"

text \<open>
  The printer does not look at the length of what it gets, and takes as many queues as there are
  classes, from the memory behind the structure when they are more than sixteen.
\<close>

definition mqprio_print_opt :: "u8 list option \<Rightarrow> int \<times> string" where
  "mqprio_print_opt opt =
     (case opt of
        None \<Rightarrow> (0, [])
      | Some rta \<Rightarrow>
          let data = RTA_DATA rta;
              num_tc = unat (data ! 0);
              queue = (\<lambda>i. let off = uint (le16 (drop (50 + 2 * i) data)); n = uint (le16 (drop (18 + 2 * i) data))
                           in ''('' @ show_int off @ '':'' @ show_int (off + n - 1) @ '') '')
          in (0, '' tc '' @ show_dec num_tc @ '' map '' @ concat (map (\<lambda>i. show_dec (unat (data ! (1 + i))) @ '' '') [0..<16])
                 @ nl @ ''             queues:'' @ concat (map queue [0..<num_tc])))"

definition mqprio_qdisc_util :: qdisc_util where
  "mqprio_qdisc_util = \<lparr>q_id = ''mqprio'', parse_qopt = Some mqprio_parse_opt, print_qopt = mqprio_print_opt,
     print_xstats = None, parse_copt = None, print_copt = None\<rparr>"

section \<open>What is read and printed\<close>

text \<open>Whatever is typed, the tables keep their sixteen entries.\<close>

definition mqprio_ok :: "tc_mqprio_qopt \<Rightarrow> bool" where
  "mqprio_ok q \<longleftrightarrow> length (mq_prio_tc_map q) = 16 \<and> length (mq_count q) = 16 \<and> length (mq_offset q) = 16"

lemma map_args_ok: "map_args idx argv q = (i, q', rest) \<Longrightarrow> mqprio_ok q \<Longrightarrow> mqprio_ok q'"
  by (induction idx argv q arbitrary: i q' rest rule: map_args.induct) (auto simp: mqprio_ok_def split: if_splits option.splits)

lemma queue_args_ok: "queue_args idx argv q = (q', rest) \<Longrightarrow> mqprio_ok q \<Longrightarrow> mqprio_ok q'"
  by (induction idx argv q arbitrary: q' rest rule: queue_args.induct) (auto simp: mqprio_ok_def Let_def split: if_splits option.splits)

lemma length_zeros: "length (for_up a b (\<lambda>i m. m[i := 0]) m) = length m"
proof -
  have "length (fold (\<lambda>i m. m[i := 0]) xs m) = length m" for xs by (induction xs arbitrary: m) auto
  then show ?thesis by (simp add: for_up_def)
qed

lemma mqprio_arg_ok: "mqprio_arg kw argv q = Ret (Inr (q', rest)) \<Longrightarrow> mqprio_ok q \<Longrightarrow> mqprio_ok q'"
  by (auto simp: mqprio_arg_def map_option_words_def u8_arg_def incomplete_command_def length_zeros split: if_splits prod.splits list.splits option.splits
      dest: map_args_ok queue_args_ok) (auto simp: mqprio_ok_def length_zeros dest: map_args_ok)

lemma mqprio_args_ok: "mqprio_args argv q = Ret (Inr q') \<Longrightarrow> mqprio_ok q \<Longrightarrow> mqprio_ok q'"
  by (induction argv q rule: mqprio_args.induct) (auto split: cli.splits sum.splits dest: mqprio_arg_ok)

text \<open>What was sent prints as the entries of its tables, for at most sixteen classes.\<close>

definition show_mqprio :: "tc_mqprio_qopt \<Rightarrow> string" where
  "show_mqprio q =
     '' tc '' @ show_dec (unat (mq_num_tc q)) @ '' map '' @ concat (map (\<lambda>x. show_dec (unat x) @ '' '') (mq_prio_tc_map q))
     @ nl @ ''             queues:'' @ concat (map (\<lambda>i. ''('' @ show_int (uint (mq_offset q ! i)) @ '':''
         @ show_int (uint (mq_offset q ! i) + uint (mq_count q ! i) - 1) @ '') '') [0..<unat (mq_num_tc q)])"

lemma le16_nth: "i < length xs \<Longrightarrow> le16 (drop (2 * i) (concat (map le16_bytes xs) @ r)) = xs ! i"
proof (induction xs arbitrary: i)
  case (Cons x xs)
  then show ?case by (cases i) auto
qed simp

lemma mqprio_printed:
  assumes "mqprio_ok q" "unat (mq_num_tc q) \<le> 16" "RTA_DATA rta = mqprio_bytes q @ r"
  shows "mqprio_print_opt (Some rta) = (0, show_mqprio q)"
proof -
  let ?d = "mqprio_bytes q @ r" and ?c = "concat (map le16_bytes (mq_count q))" and ?o = "concat (map le16_bytes (mq_offset q))"
  have len: "length (mq_prio_tc_map q) = 16" "length (mq_count q) = 16" "length (mq_offset q) = 16" using assms(1) by (simp_all add: mqprio_ok_def)
  have l2: "length (concat (map le16_bytes xs)) = 2 * length xs" for xs by (induction xs) simp_all
  have m: "map (\<lambda>i. show_dec (unat (?d ! (1 + i))) @ '' '') [0..<16] = map (\<lambda>x. show_dec (unat x) @ '' '') (mq_prio_tc_map q)"
    by (rule nth_equalityI) (simp_all add: mqprio_bytes_def nth_append len del: upt_rec_numeral)
  have drops: "drop (18 + k) ?d = drop k (?c @ ?o @ r)" for k
  proof -
    have "?d = (mq_num_tc q # mq_prio_tc_map q @ [mq_hw q]) @ ?c @ ?o @ r" by (simp add: mqprio_bytes_def)
    then have "drop 18 ?d = ?c @ ?o @ r" by (simp add: len)
    then show ?thesis by (metis add.commute drop_drop)
  qed
  have cnt: "le16 (drop (18 + 2 * i) ?d) = mq_count q ! i" if "i < 16" for i
    unfolding drops using le16_nth [of i "mq_count q" "?o @ r"] that len by simp
  have off: "le16 (drop (50 + 2 * i) ?d) = mq_offset q ! i" if "i < 16" for i
  proof -
    have "drop (50 + 2 * i) ?d = drop (2 * i) (?o @ r)" using drops [of "32 + 2 * i"] by (simp add: l2 len)
    then show ?thesis using le16_nth [of i "mq_offset q" r] that len by simp
  qed
  have q: "map (\<lambda>i. ''('' @ show_int (uint (le16 (drop (50 + 2 * i) ?d))) @ '':''
        @ show_int (uint (le16 (drop (50 + 2 * i) ?d)) + uint (le16 (drop (18 + 2 * i) ?d)) - 1) @ '') '') [0..<unat (mq_num_tc q)] =
      map (\<lambda>i. ''('' @ show_int (uint (mq_offset q ! i)) @ '':'' @ show_int (uint (mq_offset q ! i) + uint (mq_count q ! i) - 1) @ '') '')
        [0..<unat (mq_num_tc q)]"
    using assms(2) by (intro map_cong refl) (simp add: cnt off del: drop_append)
  have "?d ! 0 = mq_num_tc q" by (simp add: mqprio_bytes_def)
  then show ?thesis using m q by (simp add: mqprio_print_opt_def show_mqprio_def assms(3) Let_def del: upt_rec_numeral drop_append map_eq_conv)
qed

end
