(* ===== verification/Q_Plain.thy ===== *)
theory Q_Plain
  imports Tc_Options
begin

text \<open>
  The disciplines whose options are one structure: \<open>bfifo\<close>, \<open>pfifo\<close> and \<open>pfifo_head_drop\<close>
  (\<open>tc/q_fifo.c\<close>), \<open>sfq\<close> (\<open>tc/q_sfq.c\<close>) and \<open>multiq\<close> (\<open>tc/q_multiq.c\<close>); and \<open>ingress\<close>, which
  has none (\<open>tc/q_ingress.c\<close>).
\<close>

section \<open>First in, first out\<close>

definition fifo_explain :: string where
  "fifo_explain = ''Usage: ... <[p|b]fifo | pfifo_head_drop> [ limit NUMBER ]'' @ nl"

text \<open>The limit, and whether it was given.\<close>

definition fifo_word :: "string \<Rightarrow> u32 \<times> bool \<Rightarrow> (u32 \<times> bool) opt_word" where
  "fifo_word kw st =
     (if kw = ''limit'' then Value [] (\<lambda>a. read_opt ''limit'' (get_size a) (\<lambda>v. (v, True)))
      else if kw = ''help'' then Flag (Reject fifo_explain)
      else Flag (Reject (what_is kw @ fifo_explain)))"

definition fifo_struct :: "u32 \<times> bool \<Rightarrow> u8 list option" where
  "fifo_struct st = (if snd st then Some (le32_bytes (fst st)) else None)"

definition fifo_parse_opt :: "string list \<Rightarrow> nlmsg \<Rightarrow> (int \<times> string \<times> nlmsg) cli" where
  "fifo_parse_opt = run_options fifo_word (0, False) (\<lambda>st. send_struct (fifo_struct st))"

definition fifo_print_opt :: "string \<Rightarrow> u8 list option \<Rightarrow> int \<times> string" where
  "fifo_print_opt kind opt =
     (case opt of
        None \<Rightarrow> (0, [])
      | Some rta \<Rightarrow>
          if RTA_PAYLOAD rta < 4 then (- 1, [])
          else let lm = le32 (RTA_DATA rta)
               in (0, if kind = ''bfifo'' then ''limit '' @ sprint_size lm else ''limit '' @ show_u32 lm @ ''p''))"

definition fifo_util :: "string \<Rightarrow> qdisc_util" where
  "fifo_util kind = \<lparr>q_id = kind, parse_qopt = Some fifo_parse_opt, print_qopt = fifo_print_opt kind, print_xstats = None,
     parse_copt = None, print_copt = None\<rparr>"

definition bfifo_qdisc_util :: qdisc_util where "bfifo_qdisc_util = fifo_util ''bfifo''"
definition pfifo_qdisc_util :: qdisc_util where "pfifo_qdisc_util = fifo_util ''pfifo''"
definition pfifo_head_drop_qdisc_util :: qdisc_util where "pfifo_head_drop_qdisc_util = fifo_util ''pfifo_head_drop''"

definition fifo_shown :: "string \<Rightarrow> u32 \<times> bool \<Rightarrow> string" where
  "fifo_shown kind st = (if kind = ''bfifo'' then ''limit '' @ sprint_size (fst st) else ''limit '' @ show_u32 (fst st) @ ''p'')"

interpretation fifo: struct_options fifo_word "(0, False)" fifo_struct "fifo_print_opt kind" "fifo_shown kind" for kind
  by unfold_locales (auto simp: fifo_struct_def fifo_print_opt_def fifo_shown_def Let_def split: if_splits)

section \<open>Stochastic fairness\<close>

record tc_sfq_qopt =
  sfq_quantum :: u32
  sfq_perturb :: s32
  sfq_limit :: u32
  sfq_divisor :: u32
  sfq_flows :: u32

definition zero_sfq :: tc_sfq_qopt where
  "zero_sfq = \<lparr>sfq_quantum = 0, sfq_perturb = 0, sfq_limit = 0, sfq_divisor = 0, sfq_flows = 0\<rparr>"

definition sfq_bytes :: "tc_sfq_qopt \<Rightarrow> u8 list" where
  "sfq_bytes q = le32_bytes (sfq_quantum q) @ le32_bytes (sfq_perturb q) @ le32_bytes (sfq_limit q)
     @ le32_bytes (sfq_divisor q) @ le32_bytes (sfq_flows q)"

definition sfq_of_bytes :: "u8 list \<Rightarrow> tc_sfq_qopt" where
  "sfq_of_bytes bs = \<lparr>sfq_quantum = le32 bs, sfq_perturb = le32 (drop 4 bs), sfq_limit = le32 (drop 8 bs),
     sfq_divisor = le32 (drop 12 bs), sfq_flows = le32 (drop 16 bs)\<rparr>"

definition sfq_explain :: string where
  "sfq_explain = ''Usage: ... sfq [ limit NUMBER ] [ perturb SECS ] [ quantum BYTES ]'' @ nl @ ''               [ divisor NUMBER ]'' @ nl"

text \<open>A bad quantum is reported as a bad limit.\<close>

definition sfq_word :: "string \<Rightarrow> tc_sfq_qopt \<times> bool \<Rightarrow> (tc_sfq_qopt \<times> bool) opt_word" where
  "sfq_word kw st = (let q = fst st in
     if kw = ''quantum'' then Value [] (\<lambda>a. read_opt ''limit'' (get_size a) (\<lambda>v. (q\<lparr>sfq_quantum := v\<rparr>, True)))
     else if kw = ''perturb'' then Value [] (\<lambda>a. read_opt ''perturb'' (get_integer a 0) (\<lambda>v. (q\<lparr>sfq_perturb := v\<rparr>, True)))
     else if kw = ''limit'' then Value [] (\<lambda>a. case get_u32 a 0 of
         None \<Rightarrow> Reject (illegal ''limit'')
       | Some v \<Rightarrow> if v < 2 then Reject (''Illegal \"limit\", must be > 1'' @ nl) else Next (q\<lparr>sfq_limit := v\<rparr>, True) [])
     else if kw = ''divisor'' then Value [] (\<lambda>a. read_opt ''divisor'' (get_u32 a 0) (\<lambda>v. (q\<lparr>sfq_divisor := v\<rparr>, True)))
     else if kw = ''help'' then Flag (Reject sfq_explain)
     else Flag (Reject (what_is kw @ sfq_explain)))"

definition sfq_struct :: "tc_sfq_qopt \<times> bool \<Rightarrow> u8 list option" where
  "sfq_struct st = (if snd st then Some (sfq_bytes (fst st)) else None)"

definition sfq_parse_opt :: "string list \<Rightarrow> nlmsg \<Rightarrow> (int \<times> string \<times> nlmsg) cli" where
  "sfq_parse_opt = run_options sfq_word (zero_sfq, False) (\<lambda>st. send_struct (sfq_struct st))"

definition show_sfq :: "bool \<Rightarrow> tc_sfq_qopt \<Rightarrow> string" where
  "show_sfq show_details q =
     ''limit '' @ show_u32 (sfq_limit q) @ ''p '' @ ''quantum '' @ sprint_size (sfq_quantum q) @ '' ''
     @ (if show_details then ''flows '' @ show_u32 (sfq_flows q) @ ''/'' @ show_u32 (sfq_divisor q) @ '' '' else [])
     @ ''divisor '' @ show_u32 (sfq_divisor q) @ '' ''
     @ (if sfq_perturb q \<noteq> 0 then ''perturb '' @ show_s32 (sfq_perturb q) @ ''sec '' else [])"

definition sfq_print_opt :: "bool \<Rightarrow> u8 list option \<Rightarrow> int \<times> string" where
  "sfq_print_opt show_details opt =
     (case opt of
        None \<Rightarrow> (0, [])
      | Some rta \<Rightarrow> if RTA_PAYLOAD rta < 20 then (- 1, []) else (0, show_sfq show_details (sfq_of_bytes (RTA_DATA rta))))"

definition sfq_print_xstats :: "u8 list option \<Rightarrow> int \<times> string" where
  "sfq_print_xstats xstats =
     (case xstats of
        None \<Rightarrow> (0, [])
      | Some rta \<Rightarrow> if RTA_PAYLOAD rta < 4 then (- 1, []) else (0, '' allot '' @ show_s32 (le32 (RTA_DATA rta)) @ '' '' @ nl))"

definition sfq_qdisc_util :: "bool \<Rightarrow> qdisc_util" where
  "sfq_qdisc_util show_details = \<lparr>q_id = ''sfq'', parse_qopt = Some sfq_parse_opt, print_qopt = sfq_print_opt show_details,
     print_xstats = Some sfq_print_xstats, parse_copt = None, print_copt = None\<rparr>"

lemma sfq_bytes [simp]: "length (sfq_bytes q) = 20" "sfq_of_bytes (sfq_bytes q @ r) = q"
  by (simp_all add: sfq_bytes_def sfq_of_bytes_def)

interpretation sfq: struct_options sfq_word "(zero_sfq, False)" sfq_struct "sfq_print_opt show_details"
    "\<lambda>st. show_sfq show_details (fst st)" for show_details
  by unfold_locales (auto simp: sfq_struct_def sfq_print_opt_def split: if_splits)

section \<open>One band for each queue of the device\<close>

text \<open>The structure is sent without having been filled, so its content is an argument.\<close>

definition multiq_explain :: string where
  "multiq_explain = ''Usage: ... multiq [help]'' @ nl"

definition multiq_parse_opt :: "u16 \<Rightarrow> u16 \<Rightarrow> string list \<Rightarrow> nlmsg \<Rightarrow> (int \<times> string \<times> nlmsg) cli" where
  "multiq_parse_opt bands max_bands argv n =
     (case argv of
        kw # _ \<Rightarrow> Ret (- 1, if kw = ''help'' then multiq_explain else what_is kw @ multiq_explain, n)
      | [] \<Rightarrow> Ret (0, [], snd (addattr_l n 1024 TCA_OPTIONS (le16_bytes bands @ le16_bytes max_bands))))"

definition multiq_print_opt :: "u8 list option \<Rightarrow> int \<times> string" where
  "multiq_print_opt opt =
     (case opt of
        None \<Rightarrow> (0, [])
      | Some rta \<Rightarrow>
          if RTA_PAYLOAD rta < 4 then (0, [])
          else (0, ''bands '' @ show_dec (unat (le16 (RTA_DATA rta))) @ ''/'' @ show_dec (unat (le16 (drop 2 (RTA_DATA rta)))) @ '' ''))"

definition multiq_qdisc_util :: "u16 \<Rightarrow> u16 \<Rightarrow> qdisc_util" where
  "multiq_qdisc_util bands max_bands = \<lparr>q_id = ''multiq'', parse_qopt = Some (multiq_parse_opt bands max_bands),
     print_qopt = multiq_print_opt, print_xstats = None, parse_copt = None, print_copt = None\<rparr>"

section \<open>Incoming packets\<close>

definition ingress_explain :: string where
  "ingress_explain = ''Usage: ... ingress '' @ nl"

text \<open>The word \<open>handle\<close> is skipped together with what follows it.\<close>

function ingress_args :: "string list \<Rightarrow> (string + unit) cli" where
  "ingress_args [] = Ret (Inr ())"
| "ingress_args (kw # argv) =
     (if kw = ''handle'' then (case NEXT_ARG (kw # argv) of
         Exit status msg \<Rightarrow> Exit status msg
       | Ret argv2 \<Rightarrow> ingress_args (tl argv2))
      else Ret (Inl (what_is kw @ ingress_explain)))"
  by pat_completeness auto

termination
  by (relation "measure length") (use NEXT_ARG_shorter in fastforce)+

definition ingress_parse_opt :: "string list \<Rightarrow> nlmsg \<Rightarrow> (int \<times> string \<times> nlmsg) cli" where
  "ingress_parse_opt argv n =
     (case ingress_args argv of
        Exit status msg \<Rightarrow> Exit status msg
      | Ret (Inl msg) \<Rightarrow> Ret (- 1, msg, n)
      | Ret (Inr _) \<Rightarrow> Ret (0, [], snd (addattr_l n 1024 TCA_OPTIONS [])))"

definition ingress_print_opt :: "u8 list option \<Rightarrow> int \<times> string" where
  "ingress_print_opt opt = (0, ''---------------- '')"

definition ingress_qdisc_util :: qdisc_util where
  "ingress_qdisc_util = \<lparr>q_id = ''ingress'', parse_qopt = Some ingress_parse_opt, print_qopt = ingress_print_opt,
     print_xstats = None, parse_copt = None, print_copt = None\<rparr>"

end
