(* ===== verification/Q_Prio.thy ===== *)
theory Q_Prio
  imports Tc_Options
begin

text \<open>
  The priority disciplines \<open>prio\<close> (\<open>tc/q_prio.c\<close>) and \<open>rr\<close> (\<open>tc/q_rr.c\<close>), which differ only in
  their texts, and \<open>pfifo_fast\<close>, which is printed like them (\<open>tc/q_fifo.c\<close>).
\<close>

definition TC_PRIO_MAX :: nat where "TC_PRIO_MAX = 15"
definition TCA_PRIO_MQ :: nat where "TCA_PRIO_MQ = 1"
definition TCA_PRIO_MAX :: nat where "TCA_PRIO_MAX = 1"

record tc_prio_qopt =
  prio_bands :: s32
  prio_priomap :: "u8 list"

definition prio_bytes :: "tc_prio_qopt \<Rightarrow> u8 list" where
  "prio_bytes q = le32_bytes (prio_bands q) @ prio_priomap q"

definition prio_of_bytes :: "u8 list \<Rightarrow> tc_prio_qopt" where
  "prio_of_bytes bs = \<lparr>prio_bands = le32 bs, prio_priomap = take 16 (drop 4 bs)\<rparr>"

record prio_vars =
  pv_opt :: tc_prio_qopt
  pv_pmap_mode :: bool
  pv_idx :: nat
  pv_mq :: bool

definition prio_init :: prio_vars where
  "prio_init = \<lparr>pv_opt = \<lparr>prio_bands = 3, prio_priomap = [1, 2, 2, 2, 1, 2, 0, 0, 1, 1, 1, 1, 1, 1, 1, 1]\<rparr>,
     pv_pmap_mode = False, pv_idx = 0, pv_mq = False\<rparr>"

definition prio_explain :: string where
  "prio_explain = ''Usage: ... prio bands NUMBER priomap P1 P2...[multiqueue]'' @ nl"

definition rr_explain :: string where
  "rr_explain = ''Usage: ... rr bands NUMBER priomap P1 P2... [multiqueue]'' @ nl"

text \<open>
  A number of bands after \<open>priomap\<close> prints the usage and is taken all the same. The band is
  unsigned and may be as large as the number of bands.
\<close>

definition prio_word :: "string \<Rightarrow> string \<Rightarrow> string \<Rightarrow> prio_vars \<Rightarrow> prio_vars opt_word" where
  "prio_word explain mx kw v =
     (if kw = ''bands'' then Value (if pv_pmap_mode v then explain else [])
         (\<lambda>a. read_opt ''bands'' (get_integer a 10) (\<lambda>x. v\<lparr>pv_opt := (pv_opt v)\<lparr>prio_bands := x\<rparr>\<rparr>))
      else if kw = ''priomap'' then
        (if pv_pmap_mode v then Flag (Reject (''Error: duplicate priomap'' @ nl)) else Flag (Next (v\<lparr>pv_pmap_mode := True\<rparr>) []))
      else if kw = ''multiqueue'' then Flag (Next (v\<lparr>pv_mq := True\<rparr>) [])
      else if kw = ''help'' then Flag (Reject explain)
      else if \<not> pv_pmap_mode v then Flag (Reject (what_is kw @ explain))
      else Flag (case get_unsigned kw 10 of
          None \<Rightarrow> Reject (''Illegal \"priomap\" element'' @ nl)
        | Some band \<Rightarrow>
            if band > prio_bands (pv_opt v) then Reject (''\"priomap\" element is out of bands'' @ nl)
            else if pv_idx v > TC_PRIO_MAX then Reject (''\"priomap\" index > '' @ mx @ ''=15'' @ nl)
            else Next (v\<lparr>pv_opt := (pv_opt v)\<lparr>prio_priomap := (prio_priomap (pv_opt v))[pv_idx v := ucast band]\<rparr>, pv_idx := pv_idx v + 1\<rparr>) []))"

definition prio_message :: "bool \<Rightarrow> u8 list \<Rightarrow> nlmsg \<Rightarrow> nlmsg" where
  "prio_message mq bs n =
     (let (nest, n) = addattr_nest_compat n 1024 TCA_OPTIONS bs;
          n = (if mq then snd (addattr_l n 1024 (word_of_nat TCA_PRIO_MQ) []) else n)
      in snd (addattr_nest_compat_end n nest))"

definition prio_finish :: "prio_vars \<Rightarrow> string \<Rightarrow> nlmsg \<Rightarrow> (int \<times> string \<times> nlmsg) cli" where
  "prio_finish v err n = Ret (0, err, prio_message (pv_mq v) (prio_bytes (pv_opt v)) n)"

definition prio_parse_opt :: "string list \<Rightarrow> nlmsg \<Rightarrow> (int \<times> string \<times> nlmsg) cli" where
  "prio_parse_opt = run_options (prio_word prio_explain ''TC_PRIO_MAX'') prio_init prio_finish"

definition rr_parse_opt :: "string list \<Rightarrow> nlmsg \<Rightarrow> (int \<times> string \<times> nlmsg) cli" where
  "rr_parse_opt = run_options (prio_word rr_explain ''TC_RR_MAX'') prio_init prio_finish"

definition show_prio :: "tc_prio_qopt \<Rightarrow> string" where
  "show_prio q = ''bands '' @ show_u32 (prio_bands q) @ '' priomap '' @ concat (map (\<lambda>b. '' '' @ show_dec (unat b)) (prio_priomap q))"

definition prio_print_opt :: "u8 list option \<Rightarrow> int \<times> string" where
  "prio_print_opt opt =
     (case opt of
        None \<Rightarrow> (0, [])
      | Some rta \<Rightarrow>
          (case parse_rtattr_nested_compat TCA_PRIO_MAX rta 20 of
             (_, None) \<Rightarrow> (- 1, [])
           | (_, Some tb) \<Rightarrow> (0, show_prio (prio_of_bytes (RTA_DATA rta))
               @ (case tb ! TCA_PRIO_MQ of
                    None \<Rightarrow> []
                  | Some a \<Rightarrow> '' multiqueue: '' @ (if RTA_DATA a ! 0 \<noteq> 0 then ''on'' else ''off'') @ '' ''))))"

definition prio_qdisc_util :: qdisc_util where
  "prio_qdisc_util = \<lparr>q_id = ''prio'', parse_qopt = Some prio_parse_opt, print_qopt = prio_print_opt, print_xstats = None,
     parse_copt = None, print_copt = None\<rparr>"

definition rr_qdisc_util :: qdisc_util where
  "rr_qdisc_util = \<lparr>q_id = ''rr'', parse_qopt = Some rr_parse_opt, print_qopt = prio_print_opt, print_xstats = None,
     parse_copt = None, print_copt = None\<rparr>"

definition pfifo_fast_qdisc_util :: qdisc_util where
  "pfifo_fast_qdisc_util = \<lparr>q_id = ''pfifo_fast'', parse_qopt = None, print_qopt = prio_print_opt, print_xstats = None,
     parse_copt = None, print_copt = None\<rparr>"

section \<open>What is sent and printed\<close>

text \<open>The map keeps its sixteen bands, whatever is typed.\<close>

lemma prio_map_length:
  assumes "reads_options (prio_word explain mx) prio_init argv v"
  shows "length (prio_priomap (pv_opt v)) = 16"
proof -
  let ?I = "\<lambda>v. length (prio_priomap (pv_opt v)) = 16"
  obtain err where l: "opt_loop (prio_word explain mx) argv prio_init [] = Ret (Inr (v, err))" using assms by (auto simp: reads_options_def)
  show ?thesis
    by (rule opt_loop_keeps [OF _ _ l, where I = ?I])
      (auto simp: prio_word_def read_opt_def prio_init_def split: if_splits option.splits)
qed

text \<open>Without multiple queues the message has the structure and an empty nest.\<close>

definition prio_content :: "prio_vars \<Rightarrow> nat \<Rightarrow> (u8 list \<Rightarrow> bool) \<Rightarrow> bool" where
  "prio_content v k P \<longleftrightarrow> \<not> pv_mq v \<and> length (prio_priomap (pv_opt v)) = 16 \<and> k = 24
     \<and> P = (\<lambda>d. d = prio_bytes (pv_opt v) @ rta_bytes 4 TCA_OPTIONS [])"

lemma poke_between: "length p = off \<Longrightarrow> length m = length bs \<Longrightarrow> poke off bs (p @ m @ r) = p @ bs @ r"
  by (simp add: poke_def)

lemma prio_message_added:
  assumes "length bs = 20" "nlmsg_len n mod 4 = 0" "nlmsg_len n \<le> 600" "4096 \<le> length (nl_buf n)"
  shows "options_added n (prio_message False bs n) 24 (\<lambda>d. d = bs @ rta_bytes 4 TCA_OPTIONS [])"
proof -
  let ?L = "nlmsg_len n"
  have al: "NLMSG_ALIGN ?L = ?L" "NLMSG_ALIGN (?L + 24) = ?L + 24" "NLMSG_ALIGN (?L + 28) = ?L + 28" "NLMSG_ALIGN 24 = 24"
    using assms(2) by (auto simp: NLMSG_ALIGN_dvd simp flip: dvd_eq_mod_eq_0)
  define p where "p = take ?L (nl_buf n)"
  define m where "m = take 24 (drop ?L (nl_buf n))"
  define m' where "m' = take 4 (drop (?L + 24) (nl_buf n))"
  define r where "r = drop (?L + 28) (nl_buf n)"
  have len: "length p = ?L" "length m = 24" "length m' = 4" using assms(3,4) by (simp_all add: p_def m_def m'_def)
  have "nl_buf n = p @ drop ?L (nl_buf n)" by (simp add: p_def)
  moreover have "drop ?L (nl_buf n) = m @ drop (?L + 24) (nl_buf n)"
    unfolding m_def by (metis append_take_drop_id drop_drop add.commute)
  moreover have "drop (?L + 24) (nl_buf n) = m' @ drop (4 + (?L + 24)) (nl_buf n)"
    unfolding m'_def by (metis append_take_drop_id drop_drop)
  ultimately have b: "nl_buf n = p @ m @ m' @ r" by (simp add: r_def add.commute)
  let ?t = "le16_bytes TCA_OPTIONS"
  let ?h = "\<lambda>k. le16_bytes (word_of_nat k)"
  have 1: "poke ?L (?h 24 @ ?t @ bs) (p @ m @ m' @ r) = p @ (?h 24 @ ?t @ bs) @ m' @ r"
    by (rule poke_between) (simp_all add: len assms(1))
  have 2: "poke (?L + 24) (?h 4 @ ?t) (p @ (?h 24 @ ?t @ bs) @ m' @ r) = p @ (?h 24 @ ?t @ bs) @ (?h 4 @ ?t) @ r"
    using poke_between [of "p @ (?h 24 @ ?t @ bs)" "?L + 24" m' "?h 4 @ ?t" r] by (simp add: len assms(1))
  have 3: "poke ?L (?h 28) (p @ (?h 24 @ ?t @ bs) @ (?h 4 @ ?t) @ r) = p @ ?h 28 @ ?t @ bs @ ?h 4 @ ?t @ r"
    using poke_between [of p ?L "?h 24" "?h 28" "?t @ bs @ ?h 4 @ ?t @ r"] by (simp add: len)
  have 4: "poke (?L + 24) (?h 4) (p @ ?h 28 @ ?t @ bs @ ?h 4 @ ?t @ r) = p @ ?h 28 @ ?t @ bs @ ?h 4 @ ?t @ r"
    using poke_between [of "p @ ?h 28 @ ?t @ bs" "?L + 24" "?h 4" "?h 4" "?t @ r"] by (simp add: len assms(1))
  have c: "addattr_nest_compat n 1024 TCA_OPTIONS bs = (?L, n\<lparr>nl_buf := p @ (?h 24 @ ?t @ bs) @ (?h 4 @ ?t) @ r, nlmsg_len := ?L + 28\<rparr>)"
    using assms(1,3) 1 2
    by (simp add: addattr_nest_compat_def addattr_nest_def addattr_l_def al RTA_ALIGN_def NLMSG_TAIL_def rta_bytes_def b Let_def)
  have "rta_len (drop ?L (p @ (?h 24 @ ?t @ bs) @ (?h 4 @ ?t) @ r)) = 24" by (simp add: len rta_len_def)
  then have e: "prio_message False bs n = n\<lparr>nl_buf := p @ ?h 28 @ ?t @ bs @ ?h 4 @ ?t @ r, nlmsg_len := ?L + 28\<rparr>"
    using 3 4 c by (simp add: prio_message_def addattr_nest_compat_end_def addattr_nest_end_def set_rta_len_def NLMSG_TAIL_def al Let_def)
  have d: "drop ?L (nl_buf (prio_message False bs n)) = ?h 28 @ ?t @ bs @ ?h 4 @ ?t @ r" by (simp add: e len)
  have h: "rta_len (?h 28 @ ?t @ bs @ ?h 4 @ ?t @ r) = 28" "rta_type (?h 28 @ ?t @ bs @ ?h 4 @ ?t @ r) = unat TCA_OPTIONS"
    by (simp_all add: rta_len_def rta_type_def)
  have pl: "RTA_PAYLOAD (?h 28 @ ?t @ bs @ ?h 4 @ ?t @ r) = 24" unfolding RTA_PAYLOAD_def h(1) by simp
  have pay: "rta_payload (?h 28 @ ?t @ bs @ ?h 4 @ ?t @ r) = bs @ rta_bytes 4 TCA_OPTIONS []"
    unfolding rta_payload_def pl RTA_DATA_def by (simp add: assms(1) rta_bytes_def)
  show ?thesis unfolding options_added_def Let_def d h pay using assms(1,3,4) by (simp add: e len b)
qed

lemma prio_of_bytes [simp]: "length (prio_priomap q) = 16 \<Longrightarrow> prio_of_bytes (prio_bytes q @ r) = q"
  by (simp add: prio_of_bytes_def prio_bytes_def)

lemma prio_printed:
  assumes "length (prio_priomap q) = 16" "rta_payload rta = prio_bytes q @ rta_bytes 4 TCA_OPTIONS []" "RTA_PAYLOAD rta = 24"
  shows "prio_print_opt (Some rta) = (0, show_prio q)"
proof -
  have d: "RTA_DATA rta = (prio_bytes q @ rta_bytes 4 TCA_OPTIONS []) @ drop (length (prio_bytes q @ rta_bytes 4 TCA_OPTIONS [])) (RTA_DATA rta)"
    by (rule payload_data(2) [OF assms(2)])
  then obtain r where r: "RTA_DATA rta = prio_bytes q @ rta_bytes 4 TCA_OPTIONS [] @ r" by simp
  have l: "length (prio_bytes q) = 20" by (simp add: prio_bytes_def assms(1))
  have "RTA_PAYLOAD (rta_bytes 4 TCA_OPTIONS [] @ r) = 0" by (simp add: RTA_PAYLOAD_def rta_len_def rta_bytes_def)
  then have "parse_rtattr_nested TCA_PRIO_MAX (rta_bytes 4 TCA_OPTIONS [] @ r) = (replicate 2 None, 0)"
    by (simp add: parse_rtattr_nested_def parse_rtattr_def parse_rtattr_loop.simps RTA_OK_def TCA_PRIO_MAX_def numeral_2_eq_2)
  then show ?thesis
    using assms(1,3) l by (simp add: prio_print_opt_def parse_rtattr_nested_compat_def RTA_ALIGN_def r TCA_PRIO_MQ_def numeral_2_eq_2)
qed

lemma prio_content_facts:
  assumes "prio_content v k P"
  shows "nlmsg_len n mod 4 = 0 \<Longrightarrow> nlmsg_len n \<le> 600 \<Longrightarrow> 4096 \<le> length (nl_buf n) \<Longrightarrow>
      \<exists>err' n'. prio_finish v err n = Ret (0, err', n') \<and> options_added n n' k P"
    and "P (rta_payload rta) \<Longrightarrow> RTA_PAYLOAD rta = int k \<Longrightarrow> prio_print_opt (Some rta) = (0, show_prio (pv_opt v))"
  using assms prio_message_added [of "prio_bytes (pv_opt v)" n] prio_printed [of "pv_opt v" rta]
  by (auto simp: prio_content_def prio_finish_def prio_bytes_def)

interpretation prio: option_parser "prio_word prio_explain ''TC_PRIO_MAX''" prio_init prio_finish prio_content prio_print_opt
    "\<lambda>v. show_prio (pv_opt v)" 600
  by unfold_locales (auto intro: prio_content_facts simp: prio_content_def [where P = P for P])

interpretation rr: option_parser "prio_word rr_explain ''TC_RR_MAX''" prio_init prio_finish prio_content prio_print_opt
    "\<lambda>v. show_prio (pv_opt v)" 600
  by unfold_locales (auto intro: prio_content_facts simp: prio_content_def [where P = P for P])

end
