(* ===== verification/Q_Red.thy ===== *)
theory Q_Red
  imports Tc_Options
begin

text \<open>
  Random early detection (\<open>tc/q_red.c\<close>) and its variant \<open>choke\<close> (\<open>tc/q_choke.c\<close>): the
  options, the constants computed from them, and printing. The clock, \<open>pow\<close>, \<open>log\<close> and the
  table of the stack that the code fills are one argument.
\<close>

section \<open>Options\<close>

definition TCA_RED_PARMS :: nat where "TCA_RED_PARMS = 1"
definition TCA_RED_STAB :: nat where "TCA_RED_STAB = 2"
definition TC_RED_ECN :: u8 where "TC_RED_ECN = 1"

record tc_red_qopt =
  red_limit :: u32
  red_qth_min :: u32
  red_qth_max :: u32
  red_Wlog :: u8
  red_Plog :: u8
  red_Scell_log :: u8
  red_flags :: u8

definition red_bytes :: "tc_red_qopt \<Rightarrow> u8 list" where
  "red_bytes q = le32_bytes (red_limit q) @ le32_bytes (red_qth_min q) @ le32_bytes (red_qth_max q)
     @ [red_Wlog q, red_Plog q, red_Scell_log q, red_flags q]"

definition red_of_bytes :: "u8 list \<Rightarrow> tc_red_qopt" where
  "red_of_bytes bs = \<lparr>red_limit = le32 bs, red_qth_min = le32 (drop 4 bs), red_qth_max = le32 (drop 8 bs),
     red_Wlog = bs ! 12, red_Plog = bs ! 13, red_Scell_log = bs ! 14, red_flags = bs ! 15\<rparr>"

lemma red_bytes [simp]: "length (red_bytes q) = 16" "red_of_bytes (red_bytes q @ r) = q"
  by (simp_all add: red_bytes_def red_of_bytes_def nth_append)

record red_vars =
  rv_opt :: tc_red_qopt
  rv_burst :: u32
  rv_avpkt :: u32
  rv_probability :: double
  rv_rate :: u32
  rv_ecn :: bool

definition red_init :: "u32 \<Rightarrow> red_vars" where
  "red_init avpkt = \<lparr>rv_opt = \<lparr>red_limit = 0, red_qth_min = 0, red_qth_max = 0, red_Wlog = 0, red_Plog = 0, red_Scell_log = 0, red_flags = 0\<rparr>,
     rv_burst = 0, rv_avpkt = avpkt, rv_probability = dlit 2 100, rv_rate = 0, rv_ecn = False\<rparr>"

record red_lib =
  rl_core :: tc_core
  rl_pow :: "double \<Rightarrow> double \<Rightarrow> double"
  rl_log :: "double \<Rightarrow> double"
  rl_sbuf :: "nat \<Rightarrow> u8"

text \<open>
  The constants of the average, of the probability and of the table, for thresholds in bytes:
  the message of an error, or a warning, the options with the constants and the table.
\<close>

definition red_constants :: "string \<Rightarrow> red_lib \<Rightarrow> u32 \<Rightarrow> u32 \<Rightarrow> red_vars \<Rightarrow> string + string \<times> tc_red_qopt \<times> u8 list" where
  "red_constants name lib qmin qmax v =
     (let wlog = tc_red_eval_ewma (rl_pow lib) qmin (rv_burst v) (rv_avpkt v)
      in if wlog < 0 then Inl (name @ '': failed to calculate EWMA constant.'' @ nl)
         else
           let warning = (if wlog \<ge> 10 then name @ '': WARNING. Burst '' @ show_s32 (rv_burst v) @ '' seems to be to large.'' @ nl else []);
               opt = (rv_opt v)\<lparr>red_Wlog := word_of_int wlog\<rparr>;
               plog = tc_red_eval_P qmin qmax (rv_probability v)
           in if plog < 0 then Inl (warning @ name @ '': failed to calculate probability.'' @ nl)
              else
                let opt = opt\<lparr>red_Plog := word_of_int plog\<rparr>;
                    (clog, sbuf) = tc_red_eval_idle_damping (rl_core lib) (rl_log lib) (unat (red_Wlog opt)) (rv_avpkt v) (rv_rate v) (map (rl_sbuf lib) [0..<256])
                in if clog < 0 then Inl (warning @ name @ '': failed to calculate idle damping table.'' @ nl)
                   else let opt = opt\<lparr>red_Scell_log := word_of_int clog\<rparr>
                        in Inr (warning, if rv_ecn v then opt\<lparr>red_flags := red_flags opt OR TC_RED_ECN\<rparr> else opt, sbuf))"

text \<open>The two attributes of the message.\<close>

definition red_attrs :: "tc_red_qopt \<Rightarrow> u8 list \<Rightarrow> attr list" where
  "red_attrs q sbuf = [(word_of_nat TCA_RED_PARMS, red_bytes q), (word_of_nat TCA_RED_STAB, sbuf)]"

section \<open>Random early detection\<close>

definition red_explain :: string where
  "red_explain = ''Usage: ... red limit BYTES min BYTES max BYTES avpkt BYTES burst PACKETS'' @ nl
     @ ''               probability PROBABILITY bandwidth KBPS [ ecn ]'' @ nl"

definition red_word :: "string \<Rightarrow> red_vars \<Rightarrow> red_vars opt_word" where
  "red_word kw v = (let q = rv_opt v in
     if kw = ''limit'' then Value [] (\<lambda>a. read_opt ''limit'' (get_size a) (\<lambda>x. v\<lparr>rv_opt := q\<lparr>red_limit := x\<rparr>\<rparr>))
     else if kw = ''min'' then Value [] (\<lambda>a. read_opt ''min'' (get_size a) (\<lambda>x. v\<lparr>rv_opt := q\<lparr>red_qth_min := x\<rparr>\<rparr>))
     else if kw = ''max'' then Value [] (\<lambda>a. read_opt ''max'' (get_size a) (\<lambda>x. v\<lparr>rv_opt := q\<lparr>red_qth_max := x\<rparr>\<rparr>))
     else if kw = ''burst'' then Value [] (\<lambda>a. read_opt ''burst'' (get_unsigned a 0) (\<lambda>x. v\<lparr>rv_burst := x\<rparr>))
     else if kw = ''avpkt'' then Value [] (\<lambda>a. read_opt ''avpkt'' (get_size a) (\<lambda>x. v\<lparr>rv_avpkt := x\<rparr>))
     else if kw = ''probability'' then Value [] (\<lambda>a. read_opt ''probability'' (scan_lf a) (\<lambda>x. v\<lparr>rv_probability := x\<rparr>))
     else if kw = ''bandwidth'' then Value [] (\<lambda>a. read_opt ''bandwidth'' (get_rate a) (\<lambda>x. v\<lparr>rv_rate := x\<rparr>))
     else if kw = ''ecn'' then Flag (Next (v\<lparr>rv_ecn := True\<rparr>) [])
     else if kw = ''help'' then Flag (Reject red_explain)
     else Flag (Reject (what_is kw @ red_explain)))"

definition red_options :: "red_lib \<Rightarrow> red_vars \<Rightarrow> string + string \<times> tc_red_qopt \<times> u8 list" where
  "red_options lib v =
     (let v = (if rv_rate v = 0 then (case get_rate ''10Mbit'' of Some r \<Rightarrow> v\<lparr>rv_rate := r\<rparr> | None \<Rightarrow> v) else v);
          q = rv_opt v
      in if red_qth_min q = 0 \<or> red_qth_max q = 0 \<or> rv_burst v = 0 \<or> red_limit q = 0 \<or> rv_avpkt v = 0
         then Inl (''Required parameter (min, max, burst, limit, avpkt) is missing'' @ nl)
         else red_constants ''RED'' lib (red_qth_min q) (red_qth_max q) v)"

definition red_made :: "(red_vars \<Rightarrow> string + string \<times> tc_red_qopt \<times> u8 list) \<Rightarrow> red_vars \<Rightarrow> string + string \<times> attr list" where
  "red_made options v =
     (case options v of
        Inl msg \<Rightarrow> Inl msg
      | Inr (warning, q, sbuf) \<Rightarrow> Inr (warning, red_attrs q sbuf))"

definition red_parse_opt :: "red_lib \<Rightarrow> string list \<Rightarrow> nlmsg \<Rightarrow> (int \<times> string \<times> nlmsg) cli" where
  "red_parse_opt lib = run_options red_word (red_init 0) (\<lambda>v. send_nested (red_made (red_options lib) v))"

definition red_details :: "tc_red_qopt \<Rightarrow> string" where
  "red_details q = ''ewma '' @ show_dec (unat (red_Wlog q)) @ '' Plog '' @ show_dec (unat (red_Plog q))
     @ '' Scell_log '' @ show_dec (unat (red_Scell_log q))"

definition show_red :: "bool \<Rightarrow> tc_red_qopt \<Rightarrow> string" where
  "show_red show_details q =
     ''limit '' @ sprint_size (red_limit q) @ '' min '' @ sprint_size (red_qth_min q) @ '' max '' @ sprint_size (red_qth_max q) @ '' ''
     @ (if red_flags q AND TC_RED_ECN \<noteq> 0 then ''ecn '' else [])
     @ (if show_details then red_details q else [])"

text \<open>Reading the options back: the same in both disciplines, but for the text.\<close>

definition print_red_opt :: "(tc_red_qopt \<Rightarrow> string) \<Rightarrow> u8 list option \<Rightarrow> int \<times> string" where
  "print_red_opt text_of opt =
     (case opt of
        None \<Rightarrow> (0, [])
      | Some rta \<Rightarrow>
          (case fst (parse_rtattr_nested TCA_RED_STAB rta) ! TCA_RED_PARMS of
             None \<Rightarrow> (- 1, [])
           | Some a \<Rightarrow> if RTA_PAYLOAD a < 16 then (- 1, []) else (0, text_of (red_of_bytes (RTA_DATA a)))))"

definition red_print_opt :: "bool \<Rightarrow> u8 list option \<Rightarrow> int \<times> string" where
  "red_print_opt show_details = print_red_opt (show_red show_details)"

definition red_print_xstats :: "u8 list option \<Rightarrow> int \<times> string" where
  "red_print_xstats xstats =
     (case xstats of
        None \<Rightarrow> (0, [])
      | Some rta \<Rightarrow>
          if RTA_PAYLOAD rta < 16 then (- 1, [])
          else let st = RTA_DATA rta
               in (0, ''  marked '' @ show_u32 (field32 12 st) @ '' early '' @ show_u32 (field32 0 st)
                      @ '' pdrop '' @ show_u32 (field32 4 st) @ '' other '' @ show_u32 (field32 8 st)))"

definition red_qdisc_util :: "red_lib \<Rightarrow> bool \<Rightarrow> qdisc_util" where
  "red_qdisc_util lib show_details = \<lparr>q_id = ''red'', parse_qopt = Some (red_parse_opt lib), print_qopt = red_print_opt show_details,
     print_xstats = Some red_print_xstats, parse_copt = None, print_copt = None\<rparr>"

section \<open>Choke\<close>

definition choke_explain :: string where
  "choke_explain = ''Usage: ... choke limit PACKETS bandwidth KBPS [ecn]'' @ nl
     @ ''                 [ min PACKETS ] [ max PACKETS ] [ burst PACKETS ]'' @ nl"

definition choke_word :: "string \<Rightarrow> red_vars \<Rightarrow> red_vars opt_word" where
  "choke_word kw v = (let q = rv_opt v in
     if kw = ''limit'' then Value [] (\<lambda>a. read_opt ''limit'' (get_unsigned a 0) (\<lambda>x. v\<lparr>rv_opt := q\<lparr>red_limit := x\<rparr>\<rparr>))
     else if kw = ''bandwidth'' then Value [] (\<lambda>a. read_opt ''bandwidth'' (get_rate a) (\<lambda>x. v\<lparr>rv_rate := x\<rparr>))
     else if kw = ''ecn'' then Flag (Next (v\<lparr>rv_ecn := True\<rparr>) [])
     else if kw = ''min'' then Value [] (\<lambda>a. read_opt ''min'' (get_unsigned a 0) (\<lambda>x. v\<lparr>rv_opt := q\<lparr>red_qth_min := x\<rparr>\<rparr>))
     else if kw = ''max'' then Value [] (\<lambda>a. read_opt ''max'' (get_unsigned a 0) (\<lambda>x. v\<lparr>rv_opt := q\<lparr>red_qth_max := x\<rparr>\<rparr>))
     else if kw = ''burst'' then Value [] (\<lambda>a. read_opt ''burst'' (get_unsigned a 0) (\<lambda>x. v\<lparr>rv_burst := x\<rparr>))
     else if kw = ''avpkt'' then Value [] (\<lambda>a. read_opt ''avpkt'' (get_size a) (\<lambda>x. v\<lparr>rv_avpkt := x\<rparr>))
     else if kw = ''probability'' then Value [] (\<lambda>a. read_opt ''probability'' (scan_lf a) (\<lambda>x. v\<lparr>rv_probability := x\<rparr>))
     else if kw = ''help'' then Flag (Reject choke_explain)
     else Flag (Reject (what_is kw @ choke_explain)))"

text \<open>The thresholds not given, after Floyd's recommendations.\<close>

definition choke_defaults :: "red_vars \<Rightarrow> red_vars" where
  "choke_defaults v =
     (let q = rv_opt v;
          q = (if red_qth_max q = 0 then q\<lparr>red_qth_max := red_limit q div 4\<rparr> else q);
          q = (if red_qth_min q = 0 then q\<lparr>red_qth_min := red_qth_max q div 3\<rparr> else q)
      in v\<lparr>rv_opt := q, rv_burst := if rv_burst v = 0 then (2 * red_qth_min q + red_qth_max q) div 3 else rv_burst v\<rparr>)"

definition choke_options :: "red_lib \<Rightarrow> red_vars \<Rightarrow> string + string \<times> tc_red_qopt \<times> u8 list" where
  "choke_options lib v =
     (if rv_rate v = 0 \<or> red_limit (rv_opt v) = 0 then Inl (''Required parameter (bandwidth, limit) is missing'' @ nl)
      else
        let v = choke_defaults v;
            q = rv_opt v
        in if red_qth_max q > red_limit q then Inl (''\"max\" is larger than \"limit\"'' @ nl)
           else if red_qth_min q \<ge> red_qth_max q then Inl (''\"min\" is not smaller than \"max\"'' @ nl)
           else red_constants ''CHOKE'' lib (red_qth_min q * rv_avpkt v) (red_qth_max q * rv_avpkt v) v)"

definition choke_parse_opt :: "red_lib \<Rightarrow> string list \<Rightarrow> nlmsg \<Rightarrow> (int \<times> string \<times> nlmsg) cli" where
  "choke_parse_opt lib = run_options choke_word (red_init 1000) (\<lambda>v. send_nested (red_made (choke_options lib) v))"

definition show_choke :: "bool \<Rightarrow> tc_red_qopt \<Rightarrow> string" where
  "show_choke show_details q =
     ''limit '' @ show_u32 (red_limit q) @ ''p min '' @ show_u32 (red_qth_min q) @ ''p max '' @ show_u32 (red_qth_max q) @ ''p ''
     @ (if red_flags q AND TC_RED_ECN \<noteq> 0 then ''ecn '' else [])
     @ (if show_details then red_details q else [])"

definition choke_print_opt :: "bool \<Rightarrow> u8 list option \<Rightarrow> int \<times> string" where
  "choke_print_opt show_details = print_red_opt (show_choke show_details)"

definition choke_print_xstats :: "u8 list option \<Rightarrow> int \<times> string" where
  "choke_print_xstats xstats =
     (case xstats of
        None \<Rightarrow> (0, [])
      | Some rta \<Rightarrow>
          if RTA_PAYLOAD rta < 20 then (- 1, [])
          else let st = RTA_DATA rta
               in (0, ''  marked '' @ show_u32 (field32 12 st) @ '' early '' @ show_u32 (field32 0 st) @ '' pdrop '' @ show_u32 (field32 4 st)
                      @ '' other '' @ show_u32 (field32 8 st) @ '' matched '' @ show_u32 (field32 16 st)))"

definition choke_qdisc_util :: "red_lib \<Rightarrow> bool \<Rightarrow> qdisc_util" where
  "choke_qdisc_util lib show_details = \<lparr>q_id = ''choke'', parse_qopt = Some (choke_parse_opt lib), print_qopt = choke_print_opt show_details,
     print_xstats = Some choke_print_xstats, parse_copt = None, print_copt = None\<rparr>"

section \<open>What is sent and printed\<close>

text \<open>The table keeps its size, and the constants leave the limit and the thresholds alone.\<close>

lemma length_for_up: "(\<And>i s. length (f i s) = length s) \<Longrightarrow> length (for_up a b f s) = length s"
proof -
  assume "\<And>i s. length (f i s) = length s"
  then have "length (fold f xs s) = length s" for xs by (induction xs arbitrary: s) auto
  then show ?thesis by (simp add: for_up_def)
qed

lemma length_idle_damping: "length (snd (tc_red_eval_idle_damping st log_d wlog avpkt bps sbuf)) = length sbuf"
  by (auto simp: tc_red_eval_idle_damping_def Let_def length_for_up split: option.splits)

lemma red_constants_keep:
  assumes "red_constants name lib qmin qmax v = Inr (w, q, sbuf)"
  shows "length sbuf = 256" "red_limit q = red_limit (rv_opt v)" "red_qth_min q = red_qth_min (rv_opt v)" "red_qth_max q = red_qth_max (rv_opt v)"
proof -
  let ?t = "tc_red_eval_idle_damping (rl_core lib) (rl_log lib) (unat (word_of_int (tc_red_eval_ewma (rl_pow lib) qmin (rv_burst v) (rv_avpkt v)) :: u8))
    (rv_avpkt v) (rv_rate v) (map (rl_sbuf lib) [0..<256])"
  have "length (snd ?t) = 256" by (simp add: length_idle_damping)
  then show "length sbuf = 256" "red_limit q = red_limit (rv_opt v)" "red_qth_min q = red_qth_min (rv_opt v)" "red_qth_max q = red_qth_max (rv_opt v)"
    using assms by (auto simp: red_constants_def Let_def split: if_splits prod.splits)
qed

definition red_shown :: "(red_vars \<Rightarrow> string + string \<times> tc_red_qopt \<times> u8 list) \<Rightarrow> (tc_red_qopt \<Rightarrow> string) \<Rightarrow> red_vars \<Rightarrow> string" where
  "red_shown options text_of v = (case options v of Inl _ \<Rightarrow> [] | Inr (_, q, _) \<Rightarrow> text_of q)"

lemma red_attrs_size: "length sbuf = 256 \<Longrightarrow> attrs_size (red_attrs q sbuf) = 280"
  by (simp add: red_attrs_def attr_size_def RTA_ALIGN_def)

lemma red_attrs_printed:
  assumes "holds_attrs (rta_payload rta) (red_attrs q sbuf)" "RTA_PAYLOAD rta = int (attrs_size (red_attrs q sbuf))" "length sbuf = 256"
  shows "print_red_opt text_of (Some rta) = (0, text_of q)"
proof -
  have m: "attr_map (red_attrs q sbuf) TCA_RED_PARMS = Some (red_bytes q)"
    by (simp add: red_attrs_def attr_map_def TCA_RED_PARMS_def)
  obtain a r where "fst (parse_rtattr_nested TCA_RED_STAB rta) ! TCA_RED_PARMS = Some a" "\<not> RTA_PAYLOAD a < int 16"
    "RTA_DATA a = red_bytes q @ r"
    by (rule nested_data [OF assms(1,2) _ _ m red_bytes(1), of TCA_RED_STAB])
      (simp_all add: red_attrs_size [OF assms(3)] TCA_RED_PARMS_def TCA_RED_STAB_def)
  then show ?thesis by (simp add: print_red_opt_def)
qed

lemma red_options_table:
  "red_options lib v = Inr (w, q, sbuf) \<Longrightarrow> length sbuf = 256" "choke_options lib v = Inr (w, q, sbuf) \<Longrightarrow> length sbuf = 256"
  by (auto simp: red_options_def choke_options_def Let_def split: if_splits dest: red_constants_keep(1))

interpretation red: nested_options red_word "red_init 0" "red_made (red_options lib)" "red_print_opt show_details"
    "red_shown (red_options lib) (show_red show_details)" for lib show_details
  by unfold_locales
    (auto simp: red_made_def red_shown_def red_print_opt_def red_attrs_size red_attrs_printed dest!: red_options_table(1) split: sum.splits prod.splits,
     simp add: red_attrs_def)

interpretation choke: nested_options choke_word "red_init 1000" "red_made (choke_options lib)" "choke_print_opt show_details"
    "red_shown (choke_options lib) (show_choke show_details)" for lib show_details
  by unfold_locales
    (auto simp: red_made_def red_shown_def choke_print_opt_def red_attrs_size red_attrs_printed dest!: red_options_table(2) split: sum.splits prod.splits,
     simp add: red_attrs_def)

lemma choke_thresholds:
  assumes "choke_options lib v = Inr (w, q, sbuf)"
  shows "red_qth_min q < red_qth_max q" "red_qth_max q \<le> red_limit q" "0 < red_limit q"
    "red_limit q = red_limit (rv_opt v)"
    "red_qth_max q = (if red_qth_max (rv_opt v) = 0 then red_limit q div 4 else red_qth_max (rv_opt v))"
    "red_qth_min q = (if red_qth_min (rv_opt v) = 0 then red_qth_max q div 3 else red_qth_min (rv_opt v))"
proof -
  let ?v = "choke_defaults v"
  have c: "red_constants ''CHOKE'' lib (red_qth_min (rv_opt ?v) * rv_avpkt ?v) (red_qth_max (rv_opt ?v) * rv_avpkt ?v) ?v = Inr (w, q, sbuf)"
    and o: "\<not> red_qth_max (rv_opt ?v) > red_limit (rv_opt ?v)" "\<not> red_qth_min (rv_opt ?v) \<ge> red_qth_max (rv_opt ?v)" "red_limit (rv_opt v) \<noteq> 0"
    using assms by (auto simp: choke_options_def Let_def split: if_splits)
  note k = red_constants_keep(2-4) [OF c]
  show "red_qth_min q < red_qth_max q" "red_qth_max q \<le> red_limit q" unfolding k using o(1,2) by simp_all
  show l: "red_limit q = red_limit (rv_opt v)" unfolding k by (simp add: choke_defaults_def Let_def)
  then show "0 < red_limit q" using o(3) by (simp add: word_greater_zero_iff)
  show "red_qth_max q = (if red_qth_max (rv_opt v) = 0 then red_limit q div 4 else red_qth_max (rv_opt v))"
    "red_qth_min q = (if red_qth_min (rv_opt v) = 0 then red_qth_max q div 3 else red_qth_min (rv_opt v))"
    unfolding k by (simp_all add: choke_defaults_def Let_def)
qed

end
