(* ===== verification/Q_Blue.thy ===== *)
theory Q_Blue
  imports Tc_Options Double_Eval
begin

text \<open>
  The two disciplines of the BLUE family: \<open>blue\<close> (\<open>tc/q_blue.c\<close>), written by the authors of this
  repository, and stochastic fair BLUE (\<open>tc/q_sfb.c\<close>).
\<close>

section \<open>Blue\<close>

definition TCA_BLUE_PARMS :: nat where "TCA_BLUE_PARMS = 1"
definition TCA_BLUE_STAB :: nat where "TCA_BLUE_STAB = 2"
definition TC_BLUE_ECN :: u32 where "TC_BLUE_ECN = 1"

record tc_blue_qopt =
  bl_qold :: s32
  bl_qref :: s32
  bl_sampl_period :: s32
  bl_a :: s32
  bl_b :: s32
  bl_proba :: s32
  bl_proba_init :: s32
  bl_proba_max :: s32
  bl_Scell_log :: u8
  bl_limit :: u32
  bl_flags :: u32

definition zero_blue :: tc_blue_qopt where
  "zero_blue = \<lparr>bl_qold = 0, bl_qref = 0, bl_sampl_period = 0, bl_a = 0, bl_b = 0, bl_proba = 0, bl_proba_init = 0, bl_proba_max = 0,
     bl_Scell_log = 0, bl_limit = 0, bl_flags = 0\<rparr>"

definition blue_bytes :: "tc_blue_qopt \<Rightarrow> u8 list" where
  "blue_bytes q = le32_bytes (bl_qold q) @ le32_bytes (bl_qref q) @ le32_bytes (bl_sampl_period q) @ le32_bytes (bl_a q)
     @ le32_bytes (bl_b q) @ le32_bytes (bl_proba q) @ le32_bytes (bl_proba_init q) @ le32_bytes (bl_proba_max q)
     @ [bl_Scell_log q, 0, 0, 0] @ le32_bytes (bl_limit q) @ le32_bytes (bl_flags q)"

definition blue_of_bytes :: "u8 list \<Rightarrow> tc_blue_qopt" where
  "blue_of_bytes bs = \<lparr>bl_qold = le32 bs, bl_qref = le32 (drop 4 bs), bl_sampl_period = le32 (drop 8 bs), bl_a = le32 (drop 12 bs),
     bl_b = le32 (drop 16 bs), bl_proba = le32 (drop 20 bs), bl_proba_init = le32 (drop 24 bs), bl_proba_max = le32 (drop 28 bs),
     bl_Scell_log = bs ! 32, bl_limit = le32 (drop 36 bs), bl_flags = le32 (drop 40 bs)\<rparr>"

lemma blue_bytes [simp]: "length (blue_bytes q) = 44" "blue_of_bytes (blue_bytes q @ r) = q"
  by (simp_all add: blue_bytes_def blue_of_bytes_def nth_append)

record blue_vars =
  bv_opt :: tc_blue_qopt
  bv_a :: double
  bv_b :: double
  bv_proba :: double
  bv_proba_init :: double
  bv_proba_max :: double
  bv_ecn :: bool

definition blue_init :: blue_vars where
  "blue_init = \<lparr>bv_opt = zero_blue, bv_a = dlit 1822 100000000, bv_b = dlit 1816 100000000, bv_proba = dlit 2 100,
     bv_proba_init = dlit 2 100, bv_proba_max = 1, bv_ecn = False\<rparr>"

definition blue_explain :: string where
  "blue_explain = ''Usage: ... blue limit BYTES qref PACKETS qold PACKETS a COEFFICIENT b COEFFICIENT'' @ nl
     @ ''               proba PROBABILITY proba_init PROBABILITY proba_max PROBABILITY sampl_period INTEGER [ ecn ]'' @ nl"

definition blue_word :: "string \<Rightarrow> blue_vars \<Rightarrow> blue_vars opt_word" where
  "blue_word kw v = (let q = bv_opt v in
     if kw = ''limit'' then Value [] (\<lambda>s. read_opt ''limit'' (get_size s) (\<lambda>x. v\<lparr>bv_opt := q\<lparr>bl_limit := x\<rparr>\<rparr>))
     else if kw = ''qref'' then Value [] (\<lambda>s. read_opt ''qref'' (scan_d s) (\<lambda>x. v\<lparr>bv_opt := q\<lparr>bl_qref := x\<rparr>\<rparr>))
     else if kw = ''qold'' then Value [] (\<lambda>s. read_opt ''qold'' (scan_d s) (\<lambda>x. v\<lparr>bv_opt := q\<lparr>bl_qold := x\<rparr>\<rparr>))
     else if kw = ''a'' then Value [] (\<lambda>s. read_opt ''a'' (scan_lf s) (\<lambda>x. v\<lparr>bv_a := x\<rparr>))
     else if kw = ''b'' then Value [] (\<lambda>s. read_opt ''b'' (scan_lf s) (\<lambda>x. v\<lparr>bv_b := x\<rparr>))
     else if kw = ''proba'' then Value [] (\<lambda>s. read_opt ''proba'' (scan_lf s) (\<lambda>x. v\<lparr>bv_proba := x\<rparr>))
     else if kw = ''proba_init'' then Value [] (\<lambda>s. read_opt ''proba_init'' (scan_lf s) (\<lambda>x. v\<lparr>bv_proba_init := x\<rparr>))
     else if kw = ''proba_max'' then Value [] (\<lambda>s. read_opt ''proba_max'' (scan_lf s) (\<lambda>x. v\<lparr>bv_proba_max := x\<rparr>))
     else if kw = ''sampl_period'' then Value [] (\<lambda>s. read_opt ''sampl_period'' (scan_d s) (\<lambda>x. v\<lparr>bv_opt := q\<lparr>bl_sampl_period := x\<rparr>\<rparr>))
     else if kw = ''ecn'' then Flag (Next (v\<lparr>bv_ecn := True\<rparr>) [])
     else if kw = ''help'' then Flag (Reject blue_explain)
     else Flag (Reject (what_is kw @ blue_explain)))"

text \<open>The checks look at the fields of the structure, before they are filled.\<close>

definition blue_warnings :: "tc_blue_qopt \<Rightarrow> string" where
  "blue_warnings q =
     (if sint (bl_proba_init q) < 0 \<or> sint (bl_proba_init q) > 1 then ''BLUE: the init probability must be between 0.0 and 1.0.'' @ nl else [])
     @ (if sint (bl_proba_max q) < 0 \<or> sint (bl_proba_max q) > 1 then ''BLUE: the max probability must be between 0.0 and 1.0.'' @ nl else [])
     @ (if sint (bl_a q) < 0 \<or> d_of_s32 (bl_a q) > dlit 1 1000 then ''BLUE: a must be between 0.0 and 0.001.'' @ nl else [])"

definition blue_filled :: "blue_vars \<Rightarrow> tc_blue_qopt" where
  "blue_filled v =
     (let q = (bv_opt v)\<lparr>bl_proba := double2fixpoint (bv_proba v), bl_proba_init := double2fixpoint (bv_proba_init v),
            bl_proba_max := double2fixpoint (bv_proba_max v), bl_a := double2fixpoint (bv_a v), bl_b := double2fixpoint (bv_b v)\<rparr>
      in if bv_ecn v then q\<lparr>bl_flags := bl_flags q OR TC_BLUE_ECN\<rparr> else q)"

text \<open>The table \<open>sbuf\<close> is sent without having been filled.\<close>

definition blue_made :: "(nat \<Rightarrow> u8) \<Rightarrow> blue_vars \<Rightarrow> string + string \<times> attr list" where
  "blue_made sbuf v =
     (if sint (bl_qref (bv_opt v)) \<le> 0 then Inl (''BLUE: qref must be > 0.'' @ nl)
      else Inr (blue_warnings (bv_opt v),
        [(word_of_nat TCA_BLUE_PARMS, blue_bytes (blue_filled v)), (word_of_nat TCA_BLUE_STAB, map sbuf [0..<256])]))"

definition blue_parse_opt :: "(nat \<Rightarrow> u8) \<Rightarrow> string list \<Rightarrow> nlmsg \<Rightarrow> (int \<times> string \<times> nlmsg) cli" where
  "blue_parse_opt sbuf = run_options blue_word blue_init (\<lambda>v. send_nested (blue_made sbuf v))"

text \<open>
  The details print integers with \<open>%lg\<close>, which has no defined result: their text is an
  argument, and \<open>None\<close> when no details are wanted.
\<close>

definition show_blue :: "(tc_blue_qopt \<Rightarrow> string) option \<Rightarrow> tc_blue_qopt \<Rightarrow> string" where
  "show_blue details q =
     ''limit '' @ sprint_size (bl_limit q) @ (if bl_flags q AND TC_BLUE_ECN \<noteq> 0 then ''ecn '' else [])
     @ (case details of None \<Rightarrow> [] | Some f \<Rightarrow> f q)"

definition blue_print_opt :: "(tc_blue_qopt \<Rightarrow> string) option \<Rightarrow> u8 list option \<Rightarrow> int \<times> string" where
  "blue_print_opt details opt =
     (case opt of
        None \<Rightarrow> (0, [])
      | Some rta \<Rightarrow>
          (case fst (parse_rtattr_nested TCA_BLUE_STAB rta) ! TCA_BLUE_PARMS of
             None \<Rightarrow> (- 1, [])
           | Some a \<Rightarrow> if RTA_PAYLOAD a < 44 then (- 1, []) else (0, show_blue details (blue_of_bytes (RTA_DATA a)))))"

definition blue_print_xstats :: "u8 list option \<Rightarrow> int \<times> string" where
  "blue_print_xstats xstats =
     (case xstats of
        None \<Rightarrow> (0, [])
      | Some rta \<Rightarrow>
          if RTA_PAYLOAD rta < 16 then (- 1, [])
          else let st = RTA_DATA rta
               in (0, ''  marked '' @ show_u32 (field32 12 st) @ '' early '' @ show_u32 (field32 0 st)
                      @ '' pdrop '' @ show_u32 (field32 4 st) @ '' other '' @ show_u32 (field32 8 st)))"

definition blue_qdisc_util :: "(nat \<Rightarrow> u8) \<Rightarrow> (tc_blue_qopt \<Rightarrow> string) option \<Rightarrow> qdisc_util" where
  "blue_qdisc_util sbuf details = \<lparr>q_id = ''blue'', parse_qopt = Some (blue_parse_opt sbuf), print_qopt = blue_print_opt details,
     print_xstats = Some blue_print_xstats, parse_copt = None, print_copt = None\<rparr>"

lemma blue_made_size: "blue_made sbuf v = Inr (w, as) \<Longrightarrow> as \<noteq> [] \<and> attrs_size as = 308"
  by (auto simp: blue_made_def attr_size_def RTA_ALIGN_def split: if_splits)

interpretation blue: nested_options blue_word blue_init "blue_made sbuf" "blue_print_opt details" "\<lambda>v. show_blue details (blue_filled v)"
  for sbuf details
proof (unfold_locales, goal_cases)
  case (1 v w as)
  then show ?case using blue_made_size by fastforce
next
  case (2 v w as rta)
  have m: "attr_map as TCA_BLUE_PARMS = Some (blue_bytes (blue_filled v))" and le: "TCA_BLUE_PARMS \<le> TCA_BLUE_STAB"
    using 2(1) by (auto simp: blue_made_def attr_map_def TCA_BLUE_PARMS_def TCA_BLUE_STAB_def split: if_splits)
  obtain a r where "fst (parse_rtattr_nested TCA_BLUE_STAB rta) ! TCA_BLUE_PARMS = Some a" "\<not> RTA_PAYLOAD a < int 44"
    "RTA_DATA a = blue_bytes (blue_filled v) @ r"
    by (rule nested_data [OF 2(2-4) le m blue_bytes(1)]) simp
  then show ?case by (simp add: blue_print_opt_def)
qed

text \<open>No check of a probability ever prints anything.\<close>

lemma blue_never_warns:
  assumes "reads_options blue_word blue_init argv v" "blue_made sbuf v = Inr (w, as)"
  shows "w = []"
proof -
  let ?I = "\<lambda>v. bl_proba_init (bv_opt v) = 0 \<and> bl_proba_max (bv_opt v) = 0 \<and> bl_a (bv_opt v) = 0"
  obtain err where l: "opt_loop blue_word argv blue_init [] = Ret (Inr (v, err))" using assms(1) by (auto simp: reads_options_def)
  have "?I v"
    by (rule opt_loop_keeps [OF _ _ l, where I = ?I])
      (auto simp: blue_word_def Let_def read_opt_def blue_init_def zero_blue_def split: if_splits option.splits)
  moreover have "\<not> d_of_s32 0 > dlit 1 1000" by (simp add: d_of_s32_def double_eval)
  ultimately show ?thesis using assms(2) by (auto simp: blue_made_def blue_warnings_def split: if_splits)
qed

section \<open>Stochastic fair BLUE\<close>

definition TCA_SFB_PARMS :: nat where "TCA_SFB_PARMS = 1"
definition TCA_SFB_MAX :: nat where "TCA_SFB_MAX = 1"
definition SFB_MAX_PROB :: int where "SFB_MAX_PROB = 0xFFFF"

record tc_sfb_qopt =
  sfb_rehash_interval :: u32
  sfb_warmup_time :: u32
  sfb_max :: u32
  sfb_bin_size :: u32
  sfb_increment :: u32
  sfb_decrement :: u32
  sfb_limit :: u32
  sfb_penalty_rate :: u32
  sfb_penalty_burst :: u32

definition sfb_bytes :: "tc_sfb_qopt \<Rightarrow> u8 list" where
  "sfb_bytes q = le32_bytes (sfb_rehash_interval q) @ le32_bytes (sfb_warmup_time q) @ le32_bytes (sfb_max q) @ le32_bytes (sfb_bin_size q)
     @ le32_bytes (sfb_increment q) @ le32_bytes (sfb_decrement q) @ le32_bytes (sfb_limit q) @ le32_bytes (sfb_penalty_rate q)
     @ le32_bytes (sfb_penalty_burst q)"

definition sfb_of_bytes :: "u8 list \<Rightarrow> tc_sfb_qopt" where
  "sfb_of_bytes bs = \<lparr>sfb_rehash_interval = le32 bs, sfb_warmup_time = le32 (drop 4 bs), sfb_max = le32 (drop 8 bs),
     sfb_bin_size = le32 (drop 12 bs), sfb_increment = le32 (drop 16 bs), sfb_decrement = le32 (drop 20 bs),
     sfb_limit = le32 (drop 24 bs), sfb_penalty_rate = le32 (drop 28 bs), sfb_penalty_burst = le32 (drop 32 bs)\<rparr>"

lemma sfb_bytes [simp]: "length (sfb_bytes q) = 36" "sfb_of_bytes (sfb_bytes q @ r) = q"
  by (simp_all add: sfb_bytes_def sfb_of_bytes_def)

definition sfb_init :: tc_sfb_qopt where
  "sfb_init = \<lparr>sfb_rehash_interval = 600 * 1000, sfb_warmup_time = 60 * 1000, sfb_max = 0, sfb_bin_size = 0,
     sfb_increment = word_of_int ((SFB_MAX_PROB + 1000) div 2000), sfb_decrement = word_of_int ((SFB_MAX_PROB + 10000) div 20000),
     sfb_limit = 0, sfb_penalty_rate = 10, sfb_penalty_burst = 20\<rparr>"

definition sfb_explain :: string where
  "sfb_explain = ''Usage: ... sfb [ rehash SECS ] [ db SECS ]'' @ nl
     @ [CHR 0x09] @ ''    [ limit PACKETS ] [ max PACKETS ] [ target PACKETS ]'' @ nl
     @ [CHR 0x09] @ ''    [ increment FLOAT ] [ decrement FLOAT ]'' @ nl
     @ [CHR 0x09] @ ''    [ penalty_rate PPS ] [ penalty_burst PACKETS ]'' @ nl"

text \<open>What follows the number is not looked at, and a NaN passes the test.\<close>

definition get_prob :: "string \<Rightarrow> u32 option" where
  "get_prob s =
     (if s = [] then None
      else let (d, ptr) = strtod s
           in if ptr = s \<or> d < 0 \<or> d > 1 then None
              else Some (d_to_u32 (d * d_of_int SFB_MAX_PROB + dlit 5 10)))"

definition sfb_word :: "string \<Rightarrow> tc_sfb_qopt \<Rightarrow> tc_sfb_qopt opt_word" where
  "sfb_word kw q =
     (if kw = ''rehash'' then Value [] (\<lambda>s. read_opt ''rehash'' (get_u32 s 0) (\<lambda>x. q\<lparr>sfb_rehash_interval := x\<rparr>))
      else if kw = ''db'' then Value [] (\<lambda>s. read_opt ''db'' (get_u32 s 0) (\<lambda>x. q\<lparr>sfb_warmup_time := x\<rparr>))
      else if kw = ''limit'' then Value [] (\<lambda>s. read_opt ''limit'' (get_u32 s 0) (\<lambda>x. q\<lparr>sfb_limit := x\<rparr>))
      else if kw = ''max'' then Value [] (\<lambda>s. read_opt ''max'' (get_u32 s 0) (\<lambda>x. q\<lparr>sfb_max := x\<rparr>))
      else if kw = ''target'' then Value [] (\<lambda>s. read_opt ''target'' (get_u32 s 0) (\<lambda>x. q\<lparr>sfb_bin_size := x\<rparr>))
      else if kw = ''increment'' then Value [] (\<lambda>s. read_opt ''increment'' (get_prob s) (\<lambda>x. q\<lparr>sfb_increment := x\<rparr>))
      else if kw = ''decrement'' then Value [] (\<lambda>s. read_opt ''decrement'' (get_prob s) (\<lambda>x. q\<lparr>sfb_decrement := x\<rparr>))
      else if kw = ''penalty_rate'' then Value [] (\<lambda>s. read_opt ''penalty_rate'' (get_u32 s 0) (\<lambda>x. q\<lparr>sfb_penalty_rate := x\<rparr>))
      else if kw = ''penalty_burst'' then Value [] (\<lambda>s. read_opt ''penalty_burst'' (get_u32 s 0) (\<lambda>x. q\<lparr>sfb_penalty_burst := x\<rparr>))
      else Flag (Reject (what_is kw @ sfb_explain)))"

text \<open>The greatest length and the length aimed at, when one or both were not given.\<close>

definition sfb_defaults :: "tc_sfb_qopt \<Rightarrow> tc_sfb_qopt" where
  "sfb_defaults q =
     (let q = (if sfb_max q = 0 then (if sfb_bin_size q \<ge> 1 then q\<lparr>sfb_max := (sfb_bin_size q * 5 + 1) div 4\<rparr> else q\<lparr>sfb_max := 25\<rparr>) else q)
      in if sfb_bin_size q = 0 then q\<lparr>sfb_bin_size := (sfb_max q * 4 + 3) div 5\<rparr> else q)"

definition sfb_made :: "tc_sfb_qopt \<Rightarrow> string + string \<times> attr list" where
  "sfb_made q = Inr ([], [(word_of_nat TCA_SFB_PARMS, sfb_bytes (sfb_defaults q))])"

definition sfb_parse_opt :: "string list \<Rightarrow> nlmsg \<Rightarrow> (int \<times> string \<times> nlmsg) cli" where
  "sfb_parse_opt = run_options sfb_word sfb_init (\<lambda>q. send_nested (sfb_made q))"

definition show_prob :: "u32 \<Rightarrow> string" where
  "show_prob p = show_f 5 (d_of_u32 p div d_of_int SFB_MAX_PROB)"

definition show_sfb :: "tc_sfb_qopt \<Rightarrow> string" where
  "show_sfb q =
     ''limit '' @ show_s32 (sfb_limit q) @ '' max '' @ show_s32 (sfb_max q) @ '' target '' @ show_s32 (sfb_bin_size q) @ nl
     @ ''  increment '' @ show_prob (sfb_increment q) @ '' decrement '' @ show_prob (sfb_decrement q)
     @ '' penalty rate '' @ show_s32 (sfb_penalty_rate q) @ '' burst '' @ show_s32 (sfb_penalty_burst q)
     @ '' ('' @ show_u32 (sfb_rehash_interval q) @ ''ms '' @ show_u32 (sfb_warmup_time q) @ ''ms)''"

definition sfb_print_opt :: "u8 list option \<Rightarrow> int \<times> string" where
  "sfb_print_opt opt =
     (case opt of
        None \<Rightarrow> (0, [])
      | Some rta \<Rightarrow>
          (case fst (parse_rtattr_nested TCA_SFB_MAX rta) ! TCA_SFB_PARMS of
             None \<Rightarrow> (- 1, [])
           | Some a \<Rightarrow> if RTA_PAYLOAD a < 36 then (- 1, []) else (0, show_sfb (sfb_of_bytes (RTA_DATA a)))))"

definition sfb_print_xstats :: "u8 list option \<Rightarrow> int \<times> string" where
  "sfb_print_xstats xstats =
     (case xstats of
        None \<Rightarrow> (0, [])
      | Some rta \<Rightarrow>
          if RTA_PAYLOAD rta < 36 then (- 1, [])
          else let st = RTA_DATA rta
               in (0, ''  earlydrop '' @ show_u32 (field32 0 st) @ '' penaltydrop '' @ show_u32 (field32 4 st)
                      @ '' bucketdrop '' @ show_u32 (field32 8 st) @ '' queuedrop '' @ show_u32 (field32 12 st)
                      @ '' childdrop '' @ show_u32 (field32 16 st) @ '' marked '' @ show_u32 (field32 20 st) @ nl
                      @ ''  maxqlen '' @ show_u32 (field32 24 st) @ '' maxprob '' @ show_prob (field32 28 st)
                      @ '' avgprob '' @ show_prob (field32 32 st) @ '' ''))"

definition sfb_qdisc_util :: qdisc_util where
  "sfb_qdisc_util = \<lparr>q_id = ''sfb'', parse_qopt = Some sfb_parse_opt, print_qopt = sfb_print_opt,
     print_xstats = Some sfb_print_xstats, parse_copt = None, print_copt = None\<rparr>"

interpretation sfb: nested_options sfb_word sfb_init sfb_made sfb_print_opt "\<lambda>q. show_sfb (sfb_defaults q)"
proof (unfold_locales, goal_cases)
  case (1 q w as)
  then show ?case by (auto simp: sfb_made_def attr_size_def RTA_ALIGN_def)
next
  case (2 q w as rta)
  have m: "attr_map as TCA_SFB_PARMS = Some (sfb_bytes (sfb_defaults q))" and le: "TCA_SFB_PARMS \<le> TCA_SFB_MAX"
    using 2(1) by (auto simp: sfb_made_def attr_map_def TCA_SFB_PARMS_def TCA_SFB_MAX_def)
  obtain a r where "fst (parse_rtattr_nested TCA_SFB_MAX rta) ! TCA_SFB_PARMS = Some a" "\<not> RTA_PAYLOAD a < int 36"
    "RTA_DATA a = sfb_bytes (sfb_defaults q) @ r"
    by (rule nested_data [OF 2(2-4) le m sfb_bytes(1)]) simp
  then show ?case by (simp add: sfb_print_opt_def)
qed

end
