(* ===== verification/Tc_Class.thy ===== *)
theory Tc_Class
  imports Tc_Qdisc
begin

text \<open>
  The command \<open>tc class\<close> (\<open>tc/tc_class.c\<close>): reading its arguments, building the request for a
  class, and listing classes. It shares the state of the process with \<open>tc qdisc\<close> and has
  three filters for listings of its own.
\<close>

definition RTM_NEWTCLASS :: u16 where "RTM_NEWTCLASS = 40"
definition RTM_DELTCLASS :: u16 where "RTM_DELTCLASS = 41"
definition RTM_GETTCLASS :: u16 where "RTM_GETTCLASS = 42"

definition class_usage :: string where
  "class_usage =
     ''Usage: tc class [ add | del | change | replace | show ] dev STRING'' @ [CHR 0x0A]
     @ ''       [ classid CLASSID ] [ root | parent CLASSID ]'' @ [CHR 0x0A]
     @ ''       [ [ QDISC_KIND ] [ help | OPTIONS ] ]'' @ [CHR 0x0A]
     @ [CHR 0x0A]
     @ ''       tc class show [ dev STRING ] [ root | parent CLASSID ]'' @ [CHR 0x0A]
     @ ''Where:'' @ [CHR 0x0A]
     @ ''QDISC_KIND := { prio | cbq | etc. }'' @ [CHR 0x0A]
     @ ''OPTIONS := ... try tc class add <desired QDISC_KIND> help'' @ [CHR 0x0A]"

section \<open>Arguments of a change\<close>

text \<open>One round of the loop; the size table of the arguments is not used.\<close>

definition class_arg :: "tc_env \<Rightarrow> string list \<Rightarrow> qdisc_args \<Rightarrow> tc_state \<Rightarrow> arg_step \<times> tc_state" where
  "class_arg env argv a st =
     (if hd argv = ''dev'' then
        with_next argv st (\<lambda>argv.
          if qa_d a \<noteq> [] then die (duparg ''dev'' (hd argv)) st
          else (Go (tl argv) (a\<lparr>qa_d := take 15 (hd argv)\<rparr>), st))
      else if hd argv = ''classid'' then
        with_next argv st (\<lambda>argv.
          if tcm_handle (qa_t a) \<noteq> 0 then die (duparg ''classid'' (hd argv)) st
          else case get_tc_classid (hd argv) of
                 None \<Rightarrow> die (invarg (hd argv) ''invalid class ID'') st
               | Some handle \<Rightarrow> (Go (tl argv) (set_handle handle a), st))
      else if hd argv = ''handle'' then
        (Fail (- 1), complain (''Error: try \"classid\" instead of \"handle\"'' @ [CHR 0x0A]) st)
      else if hd argv = ''root'' then
        if tcm_parent (qa_t a) \<noteq> 0 then (Fail (- 1), complain (''Error: \"root\" is duplicate parent ID.'' @ [CHR 0x0A]) st)
        else (Go (tl argv) (set_parent TC_H_ROOT a), st)
      else if hd argv = ''parent'' then
        with_next argv st (\<lambda>argv.
          if tcm_parent (qa_t a) \<noteq> 0 then die (duparg ''parent'' (hd argv)) st
          else case get_tc_classid (hd argv) of
                 None \<Rightarrow> die (invarg (hd argv) ''invalid parent ID'') st
               | Some handle \<Rightarrow> (Go (tl argv) (set_parent handle a), st))
      else if matches (hd argv) ''estimator'' = 0 then
        (case parse_estimator (e_log env) (e_show_raw env) argv (qa_est a) of
           Exit status msg \<Rightarrow> (Die status, complain msg st)
         | Ret (r, err, est, argv) \<Rightarrow>
             if r \<noteq> 0 then (Fail (- 1), complain err st) else (Go (tl argv) (a\<lparr>qa_est := est\<rparr>), complain err st))
      else if matches (hd argv) ''help'' = 0 then (Go (tl argv) a, complain class_usage st)
      else let k = take 15 (hd argv);
               (q, st) = lookup_kind env k st
           in (Stop (tl argv) (a\<lparr>qa_k := k, qa_q := Some q\<rparr>), st))"

lemma class_arg_shorter:
  assumes "class_arg env argv a st = (Go rest a', st')" "argv \<noteq> []"
  shows "length rest < length argv"
  using assms
  by (auto simp: class_arg_def with_next_def die_no_go Let_def split: if_splits option.splits cli.splits prod.splits
      dest!: NEXT_ARG_shorter parse_estimator_shorter)

function class_args :: "tc_env \<Rightarrow> string list \<Rightarrow> qdisc_args \<Rightarrow> tc_state \<Rightarrow> arg_step \<times> tc_state" where
  "class_args env argv a st =
     (if argv = [] then (Stop [] a, st)
      else case class_arg env argv a st of
             (Go rest a, st) \<Rightarrow> class_args env rest a st
           | (other, st) \<Rightarrow> (other, st))"
  by pat_completeness auto

termination
  by (relation "measure (\<lambda>(_, argv, _). length argv)") (auto dest!: class_arg_shorter [OF sym])

declare class_args.simps [simp del]

lemma class_args_no_go: "class_args env argv a st \<noteq> (Go rest a', st')"
proof (induction env argv a st rule: class_args.induct)
  case (1 env argv a st)
  then show ?case by (subst class_args.simps) (auto split: prod.splits arg_step.splits)
qed

section \<open>The request\<close>

definition CLASS_REQ_SIZE :: nat where
  "CLASS_REQ_SIZE = 36 + 4096"

definition add_class_options :: "qdisc_args \<Rightarrow> string list \<Rightarrow> nlmsg \<Rightarrow> tc_state \<Rightarrow> (tc_result + nlmsg) \<times> tc_state" where
  "add_class_options a argv n st =
     (case qa_q a of
        Some q \<Rightarrow>
          (case parse_copt q of
             None \<Rightarrow> (Inl (Status 1), complain (''Error: Qdisc \"'' @ qa_k a @ ''\" is classless.'' @ [CHR 0x0A]) st)
           | Some parse \<Rightarrow>
               (case parse argv n of
                  Exit status msg \<Rightarrow> (Inl (Quit status), complain msg st)
                | Ret (r, err, n) \<Rightarrow> if r \<noteq> 0 then (Inl (Status 1), complain err st) else (Inr n, complain err st)))
      | None \<Rightarrow>
          if argv \<noteq> [] then
            (Inl (Status (- 1)), complain ((if matches (hd argv) ''help'' = 0 then class_usage else [])
               @ ''Garbage instead of arguments \"'' @ hd argv @ '' ...\". Try \"tc class help\".'') st)
          else (Inr n, st))"

definition tc_class_modify :: "tc_env \<Rightarrow> u16 \<Rightarrow> u16 \<Rightarrow> string list \<Rightarrow> tc_state \<Rightarrow> tc_result \<times> tc_state" where
  "tc_class_modify env cmd fl argv st =
     (case class_args env argv no_args st of
        (Go rest a, st) \<Rightarrow> (Diverges, st)
      | (Fail c, st) \<Rightarrow> (Status c, st)
      | (Die c, st) \<Rightarrow> (Quit c, st)
      | (Stop rest a, st) \<Rightarrow>
          (case add_class_options a rest (add_kind CLASS_REQ_SIZE a (new_request CLASS_REQ_SIZE cmd fl (qa_t a))) st of
             (Inl r, st) \<Rightarrow> (r, st)
           | (Inr n, st) \<Rightarrow>
               if qa_d a = [] then send_request env cmd fl (qa_t a) n st
               else case find_device env (qa_d a) st of
                      (Inl r, st) \<Rightarrow> (r, st)
                    | (Inr idx, st) \<Rightarrow> send_request env cmd fl ((qa_t a)\<lparr>tcm_ifindex := idx\<rparr>) n st))"

section \<open>Printing and listing\<close>

text \<open>The filters of a listing: interface, discipline and class, zero when there is none.\<close>

record class_filter =
  cf_ifindex :: s32
  cf_qdisc :: u32
  cf_classid :: u32

definition show_classid :: "class_filter \<Rightarrow> u32 \<Rightarrow> string" where
  "show_classid cf h = print_tc_classid 256 (if cf_qdisc cf \<noteq> 0 then TC_H_MIN h else h)"

definition print_class :: "tc_env \<Rightarrow> class_filter \<Rightarrow> u8 list \<Rightarrow> tc_state \<Rightarrow> int \<times> tc_state" where
  "print_class env cf h st =
     (if h_type h \<noteq> RTM_NEWTCLASS \<and> h_type h \<noteq> RTM_DELTCLASS then (0, complain (''Not a class'' @ [CHR 0x0A]) st)
      else let len = sint (h_len h - 36);
               ifindex = le32 (drop 20 h); handle = le32 (drop 24 h); parent = le32 (drop 28 h); info = le32 (drop 32 h)
           in if len < 0 then (- 1, complain (''Wrong len '' @ show_int len @ [CHR 0x0A]) st)
              else if cf_qdisc cf \<noteq> 0 \<and> TC_H_MAJ (handle XOR cf_qdisc cf) \<noteq> 0 then (0, st)
              else if cf_classid cf \<noteq> 0 \<and> handle \<noteq> cf_classid cf then (0, st)
              else let tb = fst (parse_rtattr TCA_MAX (drop 36 h) len)
                   in case tb ! TCA_KIND of
                        None \<Rightarrow> (- 1, complain (''print_class: NULL kind'' @ [CHR 0x0A]) st)
                      | Some ka \<Rightarrow>
                          let kind = c_str (RTA_DATA ka);
                              head = (if h_type h = RTM_DELTCLASS then ''deleted '' else [])
                                @ ''class '' @ kind @ '' '' @ (if handle \<noteq> 0 then show_classid cf handle else []) @ '' ''
                                @ (if cf_ifindex cf = 0 then ''dev '' @ ll_index_to_name (ts_map st) ifindex @ '' '' else [])
                                @ (if parent = TC_H_ROOT then ''root '' else ''parent '' @ show_classid cf parent @ '' '')
                                @ (if info \<noteq> 0 then ''leaf '' @ show_hex (unat (drop_bit 16 info)) @ '': '' else []);
                              (q, st) = lookup_kind env kind st;
                              opts = (case tb ! unat TCA_OPTIONS of
                                        None \<Rightarrow> []
                                      | Some oa \<Rightarrow> (case print_copt q of
                                            Some print \<Rightarrow> snd (print (Some oa))
                                          | None \<Rightarrow> ''[cannot parse class parameters]''));
                              (stats, x) = (if tb ! TCA_STATS \<noteq> None \<or> tb ! TCA_STATS2 \<noteq> None
                                then case print_tcstats_attr (e_use_iec env)
                                       \<lparr>a_STATS = tb ! TCA_STATS, a_XSTATS = tb ! TCA_XSTATS, a_STATS2 = tb ! TCA_STATS2\<rparr> '' '' True of
                                       (out, x) \<Rightarrow> (out @ [CHR 0x0A], case x of Some y \<Rightarrow> y | None \<Rightarrow> None)
                                else ([], None));
                              x = (if x = None then tb ! TCA_XSTATS else x);
                              xstats = (case (x, print_xstats q) of
                                          (Some y, Some p) \<Rightarrow> snd (p (Some y)) @ [CHR 0x0A]
                                        | _ \<Rightarrow> [])
                          in (0, say (head @ opts @ [CHR 0x0A] @ (if e_show_stats env then stats @ xstats else [])) st))"

lemma next_arg_tl: "NEXT_ARG (kw # rest) = Ret argv2 \<Longrightarrow> length (tl argv2) < Suc (length rest)"
  by (drule NEXT_ARG_shorter) simp

text \<open>The arguments of a listing; the filters keep what was read before an error.\<close>

type_synonym class_state = "tc_state \<times> class_filter"

function class_list_args :: "string list \<Rightarrow> string \<times> u32 \<Rightarrow> class_state \<Rightarrow> (tc_result + string \<times> u32) \<times> class_state" where
  "class_list_args argv (d, parent) (st, cf) =
     (let quit = (\<lambda>c :: unit cli. case c of Exit status msg \<Rightarrow> (Inl (Quit status), complain msg st, cf) | Ret _ \<Rightarrow> (Inl (Quit 0), st, cf))
      in case argv of
        [] \<Rightarrow> (Inr (d, parent), st, cf)
      | kw # rest \<Rightarrow>
          if kw = ''dev'' then
            (case NEXT_ARG argv of
               Exit status msg \<Rightarrow> (Inl (Quit status), complain msg st, cf)
             | Ret argv2 \<Rightarrow>
                 if d \<noteq> [] then quit (duparg ''dev'' (hd argv2))
                 else class_list_args (tl argv2) (take 15 (hd argv2), parent) (st, cf))
          else if kw = ''qdisc'' then
            (case NEXT_ARG argv of
               Exit status msg \<Rightarrow> (Inl (Quit status), complain msg st, cf)
             | Ret argv2 \<Rightarrow>
                 if cf_qdisc cf \<noteq> 0 then quit (duparg ''qdisc'' (hd argv2))
                 else case get_qdisc_handle (hd argv2) of
                        None \<Rightarrow> quit (invarg (hd argv2) ''invalid qdisc ID'')
                      | Some h \<Rightarrow> class_list_args (tl argv2) (d, parent) (st, cf\<lparr>cf_qdisc := h\<rparr>))
          else if kw = ''classid'' then
            (case NEXT_ARG argv of
               Exit status msg \<Rightarrow> (Inl (Quit status), complain msg st, cf)
             | Ret argv2 \<Rightarrow>
                 if cf_classid cf \<noteq> 0 then quit (duparg ''classid'' (hd argv2))
                 else case get_tc_classid (hd argv2) of
                        None \<Rightarrow> quit (invarg (hd argv2) ''invalid class ID'')
                      | Some h \<Rightarrow> class_list_args (tl argv2) (d, parent) (st, cf\<lparr>cf_classid := h\<rparr>))
          else if kw = ''root'' then
            if parent \<noteq> 0 then (Inl (Status (- 1)), complain (''Error: \"root\" is duplicate parent ID'' @ [CHR 0x0A]) st, cf)
            else class_list_args rest (d, TC_H_ROOT) (st, cf)
          else if kw = ''parent'' then
            if parent \<noteq> 0 then quit (duparg ''parent'' kw)
            else (case NEXT_ARG argv of
               Exit status msg \<Rightarrow> (Inl (Quit status), complain msg st, cf)
             | Ret argv2 \<Rightarrow>
                 (case get_tc_classid (hd argv2) of
                    None \<Rightarrow> quit (invarg (hd argv2) ''invalid parent ID'')
                  | Some h \<Rightarrow> class_list_args (tl argv2) (d, h) (st, cf)))
          else if matches kw ''help'' = 0 then class_list_args rest (d, parent) (complain class_usage st, cf)
          else (Inl (Status (- 1)), complain (''What is \"'' @ kw @ ''\"? Try \"tc class help\".'' @ [CHR 0x0A]) st, cf))"
  by pat_completeness auto

termination
  by (relation "measure (\<lambda>(argv, _). length argv)") (simp_all add: next_arg_tl del: length_tl)

declare class_list_args.simps [simp del]

definition dump_classes :: "tc_env \<Rightarrow> tcmsg \<Rightarrow> class_state \<Rightarrow> tc_result \<times> class_state" where
  "dump_classes env t = (\<lambda>(st, cf).
     let (req, rth) = rtnl_dump_request (ts_rth st) RTM_GETTCLASS (tcmsg_bytes t);
         st = st\<lparr>ts_rth := rth, ts_requests := ts_requests st @ [req]\<rparr>
     in if \<not> e_sent env then (Status 1, st, cf)
        else case rtnl_dump_filter rth (print_class env cf) None (e_answers env) (e_buf env) st of
               (Returned r _, st) \<Rightarrow> if r < 0 then (Status 1, complain (''Dump terminated'' @ [CHR 0x0A]) st, cf) else (Status 0, st, cf)
             | (Exited c, st) \<Rightarrow> (Quit c, st, cf)
             | (Waiting, st) \<Rightarrow> (Blocked, st, cf))"

definition tc_class_list :: "tc_env \<Rightarrow> string list \<Rightarrow> class_state \<Rightarrow> tc_result \<times> class_state" where
  "tc_class_list env argv cst =
     (case class_list_args argv ([], 0) cst of
        (Inl r, cst) \<Rightarrow> (r, cst)
      | (Inr (d, parent), st, cf) \<Rightarrow>
          let t = \<lparr>tcm_family = 0, tcm_ifindex = 0, tcm_handle = 0, tcm_parent = parent, tcm_info = 0\<rparr>
          in if d = [] then
               (case ll_init_map (e_junk env) (e_links_sent env) (e_links env) (e_buf env) (ts_rth st, ts_map st) of
                  (Returned _ _, rth, m) \<Rightarrow> dump_classes env t (st\<lparr>ts_rth := rth, ts_map := m\<rparr>, cf)
                | (Exited c, rth, m) \<Rightarrow> (Quit c, st\<lparr>ts_rth := rth, ts_map := m\<rparr>, cf)
                | (Waiting, rth, m) \<Rightarrow> (Blocked, st\<lparr>ts_rth := rth, ts_map := m\<rparr>, cf))
             else case find_device env d st of
                    (Inl r, st) \<Rightarrow> (r, st, cf)
                  | (Inr idx, st) \<Rightarrow> dump_classes env (t\<lparr>tcm_ifindex := idx\<rparr>) (st, cf\<lparr>cf_ifindex := idx\<rparr>))"

text \<open>A change leaves the filters alone.\<close>

definition change_class :: "tc_env \<Rightarrow> u16 \<Rightarrow> u16 \<Rightarrow> string list \<Rightarrow> class_state \<Rightarrow> tc_result \<times> class_state" where
  "change_class env cmd fl argv = (\<lambda>(st, cf). case tc_class_modify env cmd fl argv st of (r, st) \<Rightarrow> (r, st, cf))"

definition do_class :: "tc_env \<Rightarrow> string list \<Rightarrow> class_state \<Rightarrow> tc_result \<times> class_state" where
  "do_class env argv = (\<lambda>(st, cf).
     if argv = [] then tc_class_list env [] (st, cf)
     else if matches (hd argv) ''add'' = 0 then change_class env RTM_NEWTCLASS (NLM_F_EXCL OR NLM_F_CREATE) (tl argv) (st, cf)
     else if matches (hd argv) ''change'' = 0 then change_class env RTM_NEWTCLASS 0 (tl argv) (st, cf)
     else if matches (hd argv) ''replace'' = 0 then change_class env RTM_NEWTCLASS NLM_F_CREATE (tl argv) (st, cf)
     else if matches (hd argv) ''delete'' = 0 then change_class env RTM_DELTCLASS 0 (tl argv) (st, cf)
     else if matches (hd argv) ''list'' = 0 \<or> matches (hd argv) ''show'' = 0 \<or> matches (hd argv) ''lst'' = 0
     then tc_class_list env (tl argv) (st, cf)
     else if matches (hd argv) ''help'' = 0 then (Status 0, complain class_usage st, cf)
     else (Status (- 1), complain (''Command \"'' @ hd argv @ ''\" is unknown, try \"tc class help\".'' @ [CHR 0x0A]) st, cf))"

section \<open>The request for a class says what the command line says\<close>

definition class_word :: "string \<Rightarrow> bool" where
  "class_word k \<longleftrightarrow> k \<noteq> [] \<and> length k \<le> 15 \<and> CHR 0x00 \<notin> set k \<and> k \<notin> {''dev'', ''classid'', ''handle'', ''root'', ''parent''}
     \<and> matches k ''estimator'' \<noteq> 0 \<and> matches k ''help'' \<noteq> 0"

lemma class_args_named:
  assumes "class_word k" "length d \<le> 15" "get_tc_classid p = Some ph" "get_tc_classid c = Some ch" "lookup_kind env k st = (q, st1)"
  shows "class_args env (''dev'' # d # ''parent'' # p # ''classid'' # c # k # argv) no_args st =
    (Stop argv (set_handle ch (set_parent ph (no_args\<lparr>qa_d := d, qa_k := k, qa_q := Some q\<rparr>))), st1)"
proof -
  have "class_arg env (''dev'' # d # ''parent'' # p # ''classid'' # c # k # argv) no_args st =
      (Go (''parent'' # p # ''classid'' # c # k # argv) (no_args\<lparr>qa_d := d\<rparr>), st)"
    using assms(2) by (simp add: class_arg_def with_next_def NEXT_ARG_def no_args_def)
  moreover have "class_arg env (''parent'' # p # ''classid'' # c # k # argv) (no_args\<lparr>qa_d := d\<rparr>) st =
      (Go (''classid'' # c # k # argv) (set_parent ph (no_args\<lparr>qa_d := d\<rparr>)), st)"
    using assms(3) by (simp add: class_arg_def with_next_def NEXT_ARG_def no_args_def)
  moreover have "class_arg env (''classid'' # c # k # argv) (set_parent ph (no_args\<lparr>qa_d := d\<rparr>)) st =
      (Go (k # argv) (set_handle ch (set_parent ph (no_args\<lparr>qa_d := d\<rparr>))), st)"
    using assms(4) by (simp add: class_arg_def with_next_def NEXT_ARG_def no_args_def set_parent_def)
  moreover have "class_arg env (k # argv) (set_handle ch (set_parent ph (no_args\<lparr>qa_d := d\<rparr>))) st =
      (Stop argv (set_handle ch (set_parent ph (no_args\<lparr>qa_d := d, qa_k := k, qa_q := Some q\<rparr>))), st1)"
    using assms(1,5) by (simp add: class_arg_def class_word_def set_parent_def set_handle_def Let_def)
  ultimately show ?thesis by (simp add: class_args.simps)
qed

context qdisc_parser
begin

lemma modify_class:
  assumes "accepts argv m P" "class_word k" "d \<noteq> []" "length d \<le> 15" "get_tc_classid p = Some ph" "get_tc_classid c = Some ch"
    and "lookup_kind env k st = (q, st1)" "parse_copt q = Some parse" "find_device env d st1 = (Inr idx, st2)"
  shows "\<exists>err b rta. tc_class_modify env cmd fl (''dev'' # d # ''parent'' # p # ''classid'' # c # k # argv) st =
      (talk_status (fst (rtnl_talk (ts_rth st2) (NLM_F_REQUEST OR fl) 0 False None (e_sent env) (e_answers env) ())),
       (complain err st2)\<lparr>ts_rth := (ts_rth st2)\<lparr>rh_seq := rh_seq (ts_rth st2) + 1\<rparr>, ts_requests := ts_requests st @ [b]\<rparr>)
    \<and> view_request b = \<lparr>v_type = cmd, v_flags = NLM_F_REQUEST OR fl OR NLM_F_ACK, v_ifindex = idx, v_handle = ch,
        v_parent = ph, v_kind = Some k, v_options = Some rta\<rparr>
    \<and> P (rta_payload rta) \<and> RTA_PAYLOAD rta = int m"
proof -
  define a where "a = set_handle ch (set_parent ph (no_args\<lparr>qa_d := d, qa_k := k, qa_q := Some q\<rparr>))"
  have a: "qa_k a = k" "qa_d a = d" "qa_q a = Some q" "e_ewma_log (qa_est a) = 0" "tcm_parent (qa_t a) = ph" "tcm_handle (qa_t a) = ch"
    by (simp_all add: a_def set_parent_def set_handle_def no_args_def)
  have k: "k \<noteq> []" "length k \<le> 15" "CHR 0x00 \<notin> set k" using assms(2) by (simp_all add: class_word_def)
  let ?n = "add_kind CLASS_REQ_SIZE a (new_request CLASS_REQ_SIZE cmd fl (qa_t a))"
  have "56 \<le> CLASS_REQ_SIZE" by (simp add: CLASS_REQ_SIZE_def)
  note n = add_kind_message(1-3) [where a = a and cmd = cmd and fl = fl and t = "qa_t a", unfolded a(1,4), OF k(1,2) refl this]
    and sz = add_kind_message(4,5) [where a = a, unfolded a(1,4), OF k(1,2) refl this]
  have "4 dvd nlmsg_len ?n" using n(1) sz(2) by simp
  moreover have "nlmsg_len ?n \<le> room" using n(1) sz(1) room_kind by linarith
  moreover have "4096 \<le> length (nl_buf ?n)" using n(3) by (simp add: CLASS_REQ_SIZE_def)
  ultimately obtain err n' where p: "parse argv ?n = Ret (0, err, n')" "options_added ?n n' m P"
    using parse_options [OF assms(1), of ?n] by (auto simp: mod_eq_0_iff_dvd)
  let ?t = "(qa_t a)\<lparr>tcm_ifindex := idx\<rparr>"
  have e: "tc_class_modify env cmd fl (''dev'' # d # ''parent'' # p # ''classid'' # c # k # argv) st =
      send_request env cmd fl ?t n' (complain err st2)"
    unfolding tc_class_modify_def class_args_named [OF assms(2,4-7)] a_def [symmetric]
    using p(1) assms(3,8) find_device_complain(1) [OF assms(9)] by (simp add: add_class_options_def a)
  obtain rta where "view_request (request_bytes cmd (NLM_F_REQUEST OR fl OR NLM_F_ACK) (rh_seq (ts_rth st2) + 1) ?t n') =
      \<lparr>v_type = cmd, v_flags = NLM_F_REQUEST OR fl OR NLM_F_ACK, v_ifindex = idx, v_handle = ch,
        v_parent = ph, v_kind = Some k, v_options = Some rta\<rparr>"
    "P (rta_payload rta)" "RTA_PAYLOAD rta = int m"
    using view_options [OF n(1) sz(2) n(2) p(2) accepts_small [OF assms(1), THEN conjunct1] accepts_small [OF assms(1), THEN conjunct2] refl k(3,2),
        of cmd "NLM_F_REQUEST OR fl OR NLM_F_ACK" "rh_seq (ts_rth st2) + 1" ?t] a by auto
  then show ?thesis
    unfolding e send_request_eq
    using find_device_complain(2) [OF assms(9)] lookup_kind_requests [OF assms(7)] by auto
qed

end

end
