(* ===== verification/Tc_Tables.thy ===== *)
theory Tc_Tables
  imports Tc_Options Tc_Class
begin

text \<open>
  What the disciplines with rate tables share: the bytes of a rate and of a table, attributes
  added with a limit of their own each, and the request for a class whose options are read
  with the loop.
\<close>

section \<open>Rates and tables\<close>

definition zero_ratespec :: tc_ratespec where
  "zero_ratespec = \<lparr>r_cell_log = 0, r_reserved = 0, r_overhead = 0, r_cell_align = 0, r_mpu = 0, r_rate = 0\<rparr>"

definition ratespec_bytes :: "tc_ratespec \<Rightarrow> u8 list" where
  "ratespec_bytes r = [r_cell_log r, r_reserved r] @ le16_bytes (r_overhead r) @ le16_bytes (r_cell_align r) @ le16_bytes (r_mpu r)
     @ le32_bytes (r_rate r)"

definition ratespec_of_bytes :: "u8 list \<Rightarrow> tc_ratespec" where
  "ratespec_of_bytes bs = \<lparr>r_cell_log = bs ! 0, r_reserved = bs ! 1, r_overhead = le16 (drop 2 bs), r_cell_align = le16 (drop 4 bs),
     r_mpu = le16 (drop 6 bs), r_rate = le32 (drop 8 bs)\<rparr>"

lemma ratespec_bytes [simp]: "length (ratespec_bytes r) = 12" "ratespec_of_bytes (ratespec_bytes r @ bs) = r"
  by (simp_all add: ratespec_bytes_def ratespec_of_bytes_def)

definition table_bytes :: "u32 list \<Rightarrow> u8 list" where
  "table_bytes t = concat (map le32_bytes t)"

lemma length_table_bytes [simp]: "length (table_bytes t) = 4 * length t"
  by (induction t) (simp_all add: table_bytes_def)

text \<open>
  The rate table always gets ready, and all of its entries are set; its content before does not
  matter.
\<close>

definition rate_table :: "tc_core \<Rightarrow> u32 \<Rightarrow> u32 \<Rightarrow> tc_ratespec \<Rightarrow> s32 \<Rightarrow> (s32 \<times> tc_ratespec \<times> u32 list) option" where
  "rate_table core mtu linklayer r cell_log = tc_calc_rtable core r (replicate 256 0) cell_log mtu linklayer"

lemma rate_table_ready:
  obtains c spec tab where "rate_table core mtu linklayer r cell_log = Some (c, spec, tab)" "length tab = 256"
proof -
  have le: "shr32 m 31 \<le> 255" for m :: u32
  proof -
    have "unat m < 2 ^ LENGTH(32)" by (rule unsigned_less)
    then show ?thesis unfolding word_le_nat_alt by (simp add: unat_shr32)
  qed
  obtain c where c: "cell_log_loop (if mtu = 0 then 2047 else mtu) 255 (0 :: s32) = Some c"
    using cell_log_loop_returns [OF le, of "0 :: s32"] by auto
  have len: "length (for_up a b (\<lambda>i t. t[i := g i]) t) = length t" for a b t and g :: "nat \<Rightarrow> u32"
  proof -
    have "length (fold (\<lambda>i t. t[i := g i]) xs t) = length t" for xs by (induction xs arbitrary: t) auto
    then show ?thesis by (simp add: for_up_def)
  qed
  have "\<exists>c spec tab. rate_table core mtu linklayer r cell_log = Some (c, spec, tab) \<and> length tab = 256"
    by (cases "sint cell_log < 0") (simp_all add: rate_table_def tc_calc_rtable_def c len Let_def)
  then show ?thesis using that by blast
qed

text \<open>What the flags of the command change in the output of rates.\<close>

record rate_show =
  ts_core :: tc_core
  ts_details :: bool
  ts_raw :: bool
  ts_iec :: bool

text \<open>A value and the logarithm of a cell size; without one, the logarithm stays as it was.\<close>

definition and_cell :: "valcell \<Rightarrow> s32 \<Rightarrow> (u32 \<times> s32) option" where
  "and_cell vc cell_log =
     (if vc_ret vc < 0 then None
      else map_option (\<lambda>v. (v, case vc_cell_log vc of None \<Rightarrow> cell_log | Some c \<Rightarrow> word_of_nat c)) (vc_val vc))"

definition double_spec :: "string \<Rightarrow> string" where
  "double_spec what = ''Double \"'' @ what @ ''\" spec'' @ nl"

section \<open>Attributes with limits of their own\<close>

fun add_each :: "(nat \<times> attr) list \<Rightarrow> nlmsg \<Rightarrow> nlmsg" where
  "add_each [] n = n"
| "add_each ((maxlen, t, d) # as) n = add_each as (snd (addattr_l n maxlen t d))"

definition nest_each :: "(nat \<times> attr) list \<Rightarrow> nlmsg \<Rightarrow> nlmsg" where
  "nest_each as n =
     (let tail = NLMSG_TAIL n;
          n = add_each as (snd (addattr_l n 1024 TCA_OPTIONS []))
      in set_rta_len tail (NLMSG_TAIL n - tail) n)"

text \<open>An attribute that fits is added in the same way whatever room is left.\<close>

fun fits :: "nat \<Rightarrow> (nat \<times> attr) list \<Rightarrow> bool" where
  "fits len [] \<longleftrightarrow> True"
| "fits len ((maxlen, a) # as) \<longleftrightarrow> len + attr_size a \<le> maxlen \<and> maxlen \<le> 4096 \<and> fits (len + attr_size a) as"

lemma fits_less: "fits len as \<Longrightarrow> len' \<le> len \<Longrightarrow> fits len' as"
  by (induction len as arbitrary: len' rule: fits.induct) auto

lemma fits_size: "fits len as \<Longrightarrow> as \<noteq> [] \<Longrightarrow> len + attrs_size (map snd as) \<le> 4096"
proof (induction len as rule: fits.induct)
  case (2 len maxlen a as)
  then show ?case by (cases as) auto
qed simp

lemma addattr_l_fits:
  assumes "4 dvd nlmsg_len n" "nlmsg_len n + attr_size (t, d) \<le> maxlen" "maxlen \<le> mx"
  shows "addattr_l n maxlen t d = addattr_l n mx t d" "nlmsg_len (snd (addattr_l n mx t d)) = nlmsg_len n + attr_size (t, d)"
    "4 dvd nlmsg_len n + attr_size (t, d)"
  using assms by (simp_all add: addattr_l_def NLMSG_ALIGN_dvd attr_size_def RTA_ALIGN_mult Let_def)

lemma add_each_eq:
  "fits (nlmsg_len n) as \<Longrightarrow> 4 dvd nlmsg_len n \<Longrightarrow> add_each as n = snd (add_all 4096 (map snd as) n)"
proof (induction as arbitrary: n)
  case (Cons a as)
  obtain maxlen t d where a: "a = (maxlen, t, d)" by (cases a)
  have f: "nlmsg_len n + attr_size (t, d) \<le> maxlen" "maxlen \<le> 4096" "fits (nlmsg_len n + attr_size (t, d)) as" using Cons.prems(1) a by auto
  note e = addattr_l_fits [OF Cons.prems(2) f(1,2)]
  have "add_each as (snd (addattr_l n 4096 t d)) = snd (add_all 4096 (map snd as) (snd (addattr_l n 4096 t d)))"
    by (rule Cons.IH) (use e f(3) in simp_all)
  then show ?case using e(1) by (simp add: a split: prod.splits)
qed simp

lemma nest_each_eq:
  assumes "fits 604 as" "nlmsg_len n mod 4 = 0" "nlmsg_len n \<le> 600"
  shows "nest_each as n = nest_options 4096 (map snd as) n"
proof -
  have n: "4 dvd nlmsg_len n" using assms(2) by (simp add: mod_eq_0_iff_dvd)
  note e = addattr_l_fits [OF n, of TCA_OPTIONS "[]" 1024 4096]
  have sz: "attr_size (TCA_OPTIONS, []) = 4" by (simp add: attr_size_def RTA_ALIGN_def)
  let ?n1 = "snd (addattr_l n 4096 TCA_OPTIONS [])"
  have "fits (nlmsg_len ?n1) as" "4 dvd nlmsg_len ?n1" using e sz assms(3) fits_less [OF assms(1)] by auto
  from add_each_eq [OF this] show ?thesis using e(1) sz assms(3) by (simp add: nest_each_def nest_options_def)
qed

definition send_each :: "string + string \<times> (nat \<times> attr) list \<Rightarrow> string \<Rightarrow> nlmsg \<Rightarrow> (int \<times> string \<times> nlmsg) cli" where
  "send_each opts err n =
     (case opts of
        Inl msg \<Rightarrow> Ret (- 1, err @ msg, n)
      | Inr (warning, as) \<Rightarrow> Ret (0, err @ warning, nest_each as n))"

locale table_options =
  fixes word :: "string \<Rightarrow> 's \<Rightarrow> 's opt_word" and init :: 's and made :: "'s \<Rightarrow> string + string \<times> (nat \<times> attr) list"
    and print :: "u8 list option \<Rightarrow> int \<times> string" and shown :: "'s \<Rightarrow> string"
  assumes made_fits: "made st = Inr (w, as) \<Longrightarrow> as \<noteq> [] \<and> fits 604 as"
    and print_made: "made st = Inr (w, as) \<Longrightarrow> holds_attrs (rta_payload rta) (map snd as) \<Longrightarrow> RTA_PAYLOAD rta = int (attrs_size (map snd as)) \<Longrightarrow>
      attrs_size (map snd as) < 2 ^ 16 \<Longrightarrow> print (Some rta) = (0, shown st)"
begin

lemma made_small:
  assumes "made st = Inr (w, as)"
  shows "604 + attrs_size (map snd as) \<le> 4096" "as \<noteq> []"
  using fits_size [of 604 as] made_fits [OF assms] by auto

end

sublocale table_options \<subseteq> option_parser word init "\<lambda>st. send_each (made st)"
  "\<lambda>st k P. \<exists>w as. made st = Inr (w, as) \<and> k = attrs_size (map snd as) \<and> P = (\<lambda>bs. holds_attrs bs (map snd as))" print shown 600
proof (unfold_locales, goal_cases)
  case (1 st k P n err)
  then obtain w as where m: "made st = Inr (w, as)" "k = attrs_size (map snd as)" "P = (\<lambda>bs. holds_attrs bs (map snd as))" by blast
  note s = made_small [OF m(1)]
  have "attrs_size (map snd as) < 2 ^ 16" using s(1) by simp
  from small_attrs [OF this] have small: "\<forall>a \<in> set (map snd as). 4 + length (snd a) < 2 ^ 16" .
  have "options_added n (nest_options 4096 (map snd as) n) (attrs_size (map snd as)) (\<lambda>bs. holds_attrs bs (map snd as))"
    by (rule nest_options_added) (use 1 small s in auto)
  then show ?case using m nest_each_eq [of as n] made_fits [OF m(1)] 1(2,3) by (auto simp: send_each_def)
next
  case (2 st k P)
  then obtain w as where m: "made st = Inr (w, as)" "k = attrs_size (map snd as)" by blast
  then show ?case using made_small [OF m(1)] attrs_size_dvd by simp
next
  case (3 st k P rta)
  then obtain w as where m: "made st = Inr (w, as)" "k = attrs_size (map snd as)" "P = (\<lambda>bs. holds_attrs bs (map snd as))" by blast
  then show ?case using print_made [OF m(1)] 3 made_small(1) [OF m(1)] by simp
qed simp

section \<open>Values of attributes\<close>

text \<open>A value is read when the attribute is there and long enough.\<close>

definition attr_value :: "int \<Rightarrow> (u8 list \<Rightarrow> 'v) \<Rightarrow> u8 list option \<Rightarrow> 'v option" where
  "attr_value k rd a = (case a of None \<Rightarrow> None | Some a \<Rightarrow> if RTA_PAYLOAD a < k then None else Some (rd (RTA_DATA a)))"

lemma parsed_attr:
  assumes "holds_attrs bs as" "len = int (attrs_size as)" "attrs_size as < 2 ^ 16" "t \<le> mx"
  shows "map_option rta_payload (fst (parse_rtattr mx bs len) ! t) = attr_map as t"
proof -
  obtain tb where "parse_rtattr mx bs len = (tb, 0)" "\<forall>t \<le> mx. map_option rta_payload (tb ! t) = attr_map as t"
    using parse_rtattr_loop_holds [of bs as "replicate (mx + 1) None" mx] small_attrs [OF assms(3)] assms(1)
    by (auto simp: parse_rtattr_def assms(2) simp del: replicate_Suc)
  then show ?thesis using assms(4) by simp
qed

lemma attr_value_found:
  assumes "holds_attrs bs as" "len = int (attrs_size as)" "attrs_size as < 2 ^ 16" "t \<le> mx"
    and "attr_map as t = map_option enc x" "\<And>x. length (enc x) = k" "0 < k" "\<And>x r. rd (enc x @ r) = x"
  shows "attr_value (int k) rd (fst (parse_rtattr mx bs len) ! t) = x"
    "fst (parse_rtattr mx bs len) ! t = Some a \<Longrightarrow> \<not> RTA_PAYLOAD a < int k"
proof -
  let ?a = "fst (parse_rtattr mx bs len) ! t"
  note m = parsed_attr [OF assms(1-4), unfolded assms(5)]
  have found: "RTA_PAYLOAD a \<ge> int k \<and> RTA_DATA a = enc y @ drop (length (enc y)) (RTA_DATA a)" if "?a = Some a" "x = Some y" for a y
  proof -
    have p: "rta_payload a = enc y" using m that by simp
    have "enc y \<noteq> []" using assms(6) [of y] assms(7) by auto
    then show ?thesis using payload_data [OF p] assms(6) [of y] by simp
  qed
  show "attr_value (int k) rd ?a = x"
  proof (cases x)
    case None
    then show ?thesis using m by (simp add: attr_value_def)
  next
    case (Some y)
    then obtain a where a: "?a = Some a" using m by auto
    from found [OF a Some] have "\<not> RTA_PAYLOAD a < int k" "RTA_DATA a = enc y @ drop (length (enc y)) (RTA_DATA a)" by simp_all
    then show ?thesis unfolding a attr_value_def using assms(8) [of y "drop (length (enc y)) (RTA_DATA a)"] Some by (simp del: append_take_drop_id)
  qed
  assume a: "?a = Some a"
  then obtain y where "x = Some y" using m by (cases x) auto
  from found [OF a this] show "\<not> RTA_PAYLOAD a < int k" by simp
qed

section \<open>A structure with attributes behind it\<close>

definition nest_struct :: "nat \<Rightarrow> u8 list \<Rightarrow> attr list \<Rightarrow> nlmsg \<Rightarrow> nlmsg" where
  "nest_struct maxlen bs as n =
     (let tail = NLMSG_TAIL n;
          n = snd (add_all maxlen ((TCA_OPTIONS, bs) # as) n)
      in set_rta_len tail (NLMSG_TAIL n - tail) n)"

lemma nest_struct_added:
  assumes "nlmsg_len n mod 4 = 0" "nlmsg_len n + 4 + length bs + attrs_size as \<le> maxlen" "maxlen \<le> length (nl_buf n)"
    and "4 dvd length bs" "4 + length bs + attrs_size as < 2 ^ 16"
  shows "options_added n (nest_struct maxlen bs as n) (length bs + attrs_size as) (\<lambda>d. \<exists>t. d = bs @ t \<and> holds_attrs t as \<and> length t = attrs_size as)"
proof -
  let ?L = "nlmsg_len n" and ?a = "(TCA_OPTIONS, bs)"
  let ?k = "4 + length bs + attrs_size as"
  have dv: "4 dvd ?L" using assms(1) by (simp add: mod_eq_0_iff_dvd)
  have sz: "attr_size ?a = 4 + length bs" using assms(4) by (auto simp: attr_size_def RTA_ALIGN_def elim!: dvdE)
  have "\<exists>n'. add_all maxlen (?a # as) n = (replicate (length (?a # as)) 0, n') \<and> nlmsg_len n' = ?L + attrs_size ([] @ ?a # as)
      \<and> holds_attrs (drop ?L (nl_buf n')) ([] @ ?a # as) \<and> take ?L (nl_buf n') = take ?L (nl_buf n) \<and> length (nl_buf n') = length (nl_buf n)"
    by (rule add_all_holds [OF dv]) (use assms(2,3) sz in auto)
  then obtain n2 where n2: "snd (add_all maxlen (?a # as) n) = n2" "nlmsg_len n2 = ?L + ?k" "holds_attrs (drop ?L (nl_buf n2)) (?a # as)"
    "take ?L (nl_buf n2) = take ?L (nl_buf n)" "length (nl_buf n2) = length (nl_buf n)"
    using sz by (auto simp: add.assoc split: prod.splits)
  define R where "R = drop (4 + length bs) (drop ?L (nl_buf n2))"
  have R: "holds_attrs R as" using n2(3) sz by (simp add: R_def add.commute)
  have h: "take (4 + length bs) (drop ?L (nl_buf n2)) = rta_bytes (4 + length bs) TCA_OPTIONS bs" using n2(3) by simp
  have d: "drop ?L (nl_buf n2) = le16_bytes (word_of_nat (4 + length bs)) @ le16_bytes TCA_OPTIONS @ bs @ R"
    using append_take_drop_id [of "4 + length bs" "drop ?L (nl_buf n2)"] unfolding h R_def by (simp add: rta_bytes_def)
  have "4 dvd ?L + ?k" using dv assms(4) attrs_size_dvd [of as] by simp
  then have tail: "NLMSG_TAIL n2 = ?L + ?k" by (simp only: NLMSG_TAIL_def n2(2) NLMSG_ALIGN_dvd)
  have n3: "nest_struct maxlen bs as n = set_rta_len ?L ?k n2"
    using n2(1) tail aligned_tail [OF assms(1)] by (simp add: nest_struct_def Let_def)
  have room: "?L + ?k \<le> length (nl_buf n2)" using assms(2,3) n2(5) by simp
  have b: "nl_buf n2 = take ?L (nl_buf n) @ le16_bytes (word_of_nat (4 + length bs)) @ le16_bytes TCA_OPTIONS @ bs @ R"
    using append_take_drop_id [of ?L "nl_buf n2"] unfolding d n2(4) by simp
  have l: "length (take ?L (nl_buf n)) = ?L" using room n2(5) by simp
  have b3: "nl_buf (set_rta_len ?L ?k n2) = take ?L (nl_buf n) @ le16_bytes (word_of_nat ?k) @ le16_bytes TCA_OPTIONS @ bs @ R"
    using l by (simp add: set_rta_len_def b poke_def del: length_take)
  define r where "r = drop ?L (nl_buf (set_rta_len ?L ?k n2))"
  have r: "r = le16_bytes (word_of_nat ?k) @ le16_bytes TCA_OPTIONS @ bs @ R"
    and t: "take ?L (nl_buf (set_rta_len ?L ?k n2)) = take ?L (nl_buf n)"
    using b3 l by (simp_all add: r_def del: length_take)
  have len: "rta_len r = ?k" using assms(5) by (simp add: r rta_len_def unat_of_nat del: of_nat_add)
  have "RTA_DATA r = bs @ R" by (simp add: r RTA_DATA_def)
  then have pl: "rta_payload r = bs @ take (attrs_size as) R" by (simp add: rta_payload_def RTA_PAYLOAD_def len nat_add_distrib)
  have "length (take (attrs_size as) R) = attrs_size as" using holds_attrs_length [OF R] by simp
  moreover have "holds_attrs (take (attrs_size as) R) as" by (rule holds_attrs_take [OF R]) simp
  moreover have "nlmsg_len (set_rta_len ?L ?k n2) = ?L + ?k" "length (nl_buf (set_rta_len ?L ?k n2)) = length (nl_buf n2)"
    using n2(2) room by (simp_all add: set_rta_len_def poke_length)
  moreover have "rta_type r = unat TCA_OPTIONS" by (simp add: r rta_type_def)
  ultimately show ?thesis
    unfolding n3 options_added_def Let_def r_def [symmetric] using len pl t room by auto
qed

section \<open>The request for a class\<close>

lemma nested_class_added:
  assumes "as \<noteq> []" "attrs_size as \<le> 400" "nlmsg_len n mod 4 = 0" "nlmsg_len n \<le> 600" "maxlen \<le> 4096" "1024 \<le> maxlen" "4096 \<le> length (nl_buf n)"
  shows "options_added n (nest_options maxlen as n) (attrs_size as) (\<lambda>bs. holds_attrs bs as)"
proof -
  have "attrs_size as < 2 ^ 16" using assms(2) by simp
  from small_attrs [OF this] show ?thesis
    by (intro nest_options_added) (use assms in auto)
qed

definition class_shows :: "tc_env \<Rightarrow> string list \<Rightarrow> class_state \<Rightarrow> qdisc_util \<Rightarrow> s32 \<Rightarrow> u32 \<Rightarrow> u32 \<Rightarrow> string \<Rightarrow> bool" where
  "class_shows env argv cst q idx parent handle text_of \<longleftrightarrow>
     (\<exists>r st' b rta pr. do_class env argv cst = (r, st', snd cst) \<and> ts_requests st' = ts_requests (fst cst) @ [b]
        \<and> view_request b = \<lparr>v_type = RTM_NEWTCLASS, v_flags = NLM_F_REQUEST OR (NLM_F_EXCL OR NLM_F_CREATE) OR NLM_F_ACK, v_ifindex = idx,
            v_handle = handle, v_parent = parent, v_kind = Some (q_id q), v_options = Some rta\<rparr>
        \<and> print_copt q = Some pr \<and> pr (Some rta) = (0, text_of))"

context qdisc_parser
begin

lemma request_class:
  assumes "accepts argv m P" "class_word (q_id q)" "d \<noteq> []" "length d \<le> 15" "get_tc_classid p = Some ph" "get_tc_classid c = Some ch"
    and "lookup_kind env (q_id q) st = (q, st1)" "parse_copt q = Some parse" "find_device env d st1 = (Inr idx, st2)"
    and "print_copt q = Some pr" "\<And>rta. P (rta_payload rta) \<Longrightarrow> RTA_PAYLOAD rta = int m \<Longrightarrow> pr (Some rta) = (0, t)"
  shows "class_shows env (''add'' # ''dev'' # d # ''parent'' # p # ''classid'' # c # q_id q # argv) (st, cf) q idx ph ch t"
proof -
  let ?argv = "''dev'' # d # ''parent'' # p # ''classid'' # c # q_id q # argv"
  have e: "do_class env (''add'' # ?argv) (st, cf) = change_class env RTM_NEWTCLASS (NLM_F_EXCL OR NLM_F_CREATE) ?argv (st, cf)"
    by (simp add: do_class_def matches_def)
  show ?thesis
    using modify_class [OF assms(1-9), of RTM_NEWTCLASS "NLM_F_EXCL OR NLM_F_CREATE"] assms(10,11)
    unfolding class_shows_def e by (auto simp: change_class_def)
qed

end

context option_parser
begin

lemma options_class:
  assumes "reads_options word init argv v" "content v m P" "parse_copt q = Some (run_options word init finish)" "print_copt q = Some print"
    and "class_word (q_id q)" "d \<noteq> []" "length d \<le> 15" "get_tc_classid p = Some ph" "get_tc_classid c = Some ch"
    and "lookup_kind env (q_id q) st = (q, st1)" "find_device env d st1 = (Inr idx, st2)" "t = shown v"
  shows "class_shows env (''add'' # ''dev'' # d # ''parent'' # p # ''classid'' # c # q_id q # argv) (st, cf) q idx ph ch t"
proof -
  have acc: "\<exists>st. reads_options word init argv st \<and> content st m P" using assms(1,2) by blast
  show ?thesis
    by (rule request_class [OF acc assms(5-10,3,11,4)]) (use print_content [OF assms(2)] assms(12) in simp)
qed

end

end
