(* ===== verification/Q_Tbf.thy ===== *)
theory Q_Tbf
  imports Tc_Tables
begin

text \<open>
  The token bucket (\<open>tc/q_tbf.c\<close>): its options, the rate tables computed from them, and
  printing.
\<close>

section \<open>Options\<close>

definition TCA_TBF_PARMS :: nat where "TCA_TBF_PARMS = 1"
definition TCA_TBF_RTAB :: nat where "TCA_TBF_RTAB = 2"
definition TCA_TBF_PTAB :: nat where "TCA_TBF_PTAB = 3"

record tc_tbf_qopt =
  tbf_rate :: tc_ratespec
  tbf_peakrate :: tc_ratespec
  tbf_limit :: u32
  tbf_buffer :: u32
  tbf_mtu :: u32

definition tbf_bytes :: "tc_tbf_qopt \<Rightarrow> u8 list" where
  "tbf_bytes q = ratespec_bytes (tbf_rate q) @ ratespec_bytes (tbf_peakrate q) @ le32_bytes (tbf_limit q) @ le32_bytes (tbf_buffer q)
     @ le32_bytes (tbf_mtu q)"

definition tbf_of_bytes :: "u8 list \<Rightarrow> tc_tbf_qopt" where
  "tbf_of_bytes bs = \<lparr>tbf_rate = ratespec_of_bytes bs, tbf_peakrate = ratespec_of_bytes (drop 12 bs), tbf_limit = le32 (drop 24 bs),
     tbf_buffer = le32 (drop 28 bs), tbf_mtu = le32 (drop 32 bs)\<rparr>"

lemma tbf_bytes [simp]: "length (tbf_bytes q) = 36" "tbf_of_bytes (tbf_bytes q @ bs) = q"
  by (simp_all add: tbf_bytes_def tbf_of_bytes_def)

record tbf_vars =
  tv_opt :: tc_tbf_qopt
  tv_buffer :: u32
  tv_mtu :: u32
  tv_mpu :: u32
  tv_latency :: u32
  tv_Rcell_log :: s32
  tv_Pcell_log :: s32
  tv_overhead :: u16
  tv_linklayer :: u32
  tv_ok :: bool

definition tbf_init :: tbf_vars where
  "tbf_init = \<lparr>tv_opt = \<lparr>tbf_rate = zero_ratespec, tbf_peakrate = zero_ratespec, tbf_limit = 0, tbf_buffer = 0, tbf_mtu = 0\<rparr>,
     tv_buffer = 0, tv_mtu = 0, tv_mpu = 0, tv_latency = 0, tv_Rcell_log = - 1, tv_Pcell_log = - 1, tv_overhead = 0,
     tv_linklayer = LINKLAYER_ETHERNET, tv_ok = False\<rparr>"

definition tbf_explain :: string where
  "tbf_explain = ''Usage: ... tbf limit BYTES burst BYTES[/BYTES] rate KBPS [ mtu BYTES[/BYTES] ]'' @ nl
     @ ''               [ peakrate KBPS ] [ latency TIME ] '' @ ''[ overhead BYTES ] [ linklayer TYPE ]'' @ nl"

text \<open>A value that was not given before is read.\<close>

definition read_once :: "bool \<Rightarrow> string \<Rightarrow> string \<Rightarrow> 'v option \<Rightarrow> ('v \<Rightarrow> 's) \<Rightarrow> 's opt_step" where
  "read_once given what kw x put = (if given then Reject (double_spec what) else read_opt kw x put)"

definition tbf_word :: "string \<Rightarrow> tbf_vars \<Rightarrow> tbf_vars opt_word" where
  "tbf_word kw v = (let q = tv_opt v; limited = (tbf_limit q \<noteq> 0 \<or> tv_latency v \<noteq> 0) in
     if matches kw ''limit'' = 0 then Value [] (\<lambda>a. read_once limited ''limit/latency'' ''limit'' (get_size a)
         (\<lambda>x. v\<lparr>tv_opt := q\<lparr>tbf_limit := x\<rparr>, tv_ok := True\<rparr>))
     else if matches kw ''latency'' = 0 then Value [] (\<lambda>a. read_once limited ''limit/latency'' ''latency'' (get_time a)
         (\<lambda>x. v\<lparr>tv_latency := x, tv_ok := True\<rparr>))
     else if matches kw ''burst'' = 0 \<or> kw = ''buffer'' \<or> kw = ''maxburst'' then Value [] (\<lambda>a. read_once (tv_buffer v \<noteq> 0) ''buffer/burst'' ''buffer''
         (and_cell (get_size_and_cell a) (tv_Rcell_log v)) (\<lambda>(x, c). v\<lparr>tv_buffer := x, tv_Rcell_log := c, tv_ok := True\<rparr>))
     else if kw = ''mtu'' \<or> kw = ''minburst'' then Value [] (\<lambda>a. read_once (tv_mtu v \<noteq> 0) ''mtu/minburst'' ''mtu''
         (and_cell (get_size_and_cell a) (tv_Pcell_log v)) (\<lambda>(x, c). v\<lparr>tv_mtu := x, tv_Pcell_log := c, tv_ok := True\<rparr>))
     else if kw = ''mpu'' then Value [] (\<lambda>a. read_once (tv_mpu v \<noteq> 0) ''mpu'' ''mpu'' (get_size a) (\<lambda>x. v\<lparr>tv_mpu := x, tv_ok := True\<rparr>))
     else if kw = ''rate'' then Value [] (\<lambda>a. read_once (r_rate (tbf_rate q) \<noteq> 0) ''rate'' ''rate'' (get_rate a)
         (\<lambda>x. v\<lparr>tv_opt := q\<lparr>tbf_rate := (tbf_rate q)\<lparr>r_rate := x\<rparr>\<rparr>, tv_ok := True\<rparr>))
     else if matches kw ''peakrate'' = 0 then Value [] (\<lambda>a. read_once (r_rate (tbf_peakrate q) \<noteq> 0) ''peakrate'' ''peakrate'' (get_rate a)
         (\<lambda>x. v\<lparr>tv_opt := q\<lparr>tbf_peakrate := (tbf_peakrate q)\<lparr>r_rate := x\<rparr>\<rparr>, tv_ok := True\<rparr>))
     else if matches kw ''overhead'' = 0 then Value [] (\<lambda>a. read_once (tv_overhead v \<noteq> 0) ''overhead'' ''overhead'' (get_u16 a 10)
         (\<lambda>x. v\<lparr>tv_overhead := x\<rparr>))
     else if matches kw ''linklayer'' = 0 then Value [] (\<lambda>a. read_opt ''linklayer'' (get_linklayer a) (\<lambda>x. v\<lparr>tv_linklayer := x\<rparr>))
     else if kw = ''help'' then Flag (Reject tbf_explain)
     else Flag (Reject (what_is kw @ tbf_explain)))"

section \<open>From the options to the message\<close>

text \<open>What a rate passes in a time, and one burst on top.\<close>

definition latency_limit :: "u32 \<Rightarrow> u32 \<Rightarrow> u32 \<Rightarrow> double" where
  "latency_limit rate latency burst = d_of_u32 rate * d_of_u32 latency div d_of_int TIME_UNITS_PER_SEC + d_of_u32 burst"

definition tbf_limited :: "tbf_vars \<Rightarrow> tc_tbf_qopt" where
  "tbf_limited v =
     (let q = tv_opt v
      in if tbf_limit q \<noteq> 0 then q
         else let lm = latency_limit (r_rate (tbf_rate q)) (tv_latency v) (tv_buffer v);
                  lm2 = latency_limit (r_rate (tbf_peakrate q)) (tv_latency v) (tv_mtu v)
              in q\<lparr>tbf_limit := d_to_u32 (if r_rate (tbf_peakrate q) \<noteq> 0 \<and> lm2 < lm then lm2 else lm)\<rparr>)"

definition tbf_rate_table :: "tc_core \<Rightarrow> tbf_vars \<Rightarrow> tc_ratespec \<Rightarrow> s32 \<Rightarrow> (s32 \<times> tc_ratespec \<times> u32 list) option" where
  "tbf_rate_table core v r cell_log =
     rate_table core (tv_mtu v) (tv_linklayer v) (r\<lparr>r_mpu := ucast (tv_mpu v), r_overhead := tv_overhead v\<rparr>) cell_log"

definition tbf_tables :: "tc_core \<Rightarrow> tbf_vars \<Rightarrow> (string + tc_tbf_qopt \<times> u32 list \<times> u32 list option) option" where
  "tbf_tables core v =
     (let q = tbf_limited v
      in do {
        (r, spec, rtab) \<leftarrow> tbf_rate_table core v (tbf_rate q) (tv_Rcell_log v);
        if sint r < 0 then Some (Inl (''TBF: failed to calculate rate table.'' @ nl))
        else
          let q = q\<lparr>tbf_rate := spec, tbf_buffer := tc_calc_xmittime core (r_rate spec) (tv_buffer v)\<rparr>
          in if r_rate (tbf_peakrate q) = 0 then Some (Inr (q, rtab, None))
             else do {
               (r, spec, ptab) \<leftarrow> tbf_rate_table core v (tbf_peakrate q) (tv_Pcell_log v);
               if sint r < 0 then Some (Inl (''TBF: failed to calculate peak rate table.'' @ nl))
               else Some (Inr (q\<lparr>tbf_peakrate := spec, tbf_mtu := tc_calc_xmittime core (r_rate spec) (tv_mtu v)\<rparr>, rtab, Some ptab))
             }
      })"

definition tbf_checks :: "tbf_vars \<Rightarrow> string option" where
  "tbf_checks v =
     (let q = tv_opt v
      in if \<not> tv_ok v then Some tbf_explain
         else if r_rate (tbf_rate q) = 0 \<or> tv_buffer v = 0 then Some (''Both \"rate\" and \"burst\" are required.'' @ nl)
         else if r_rate (tbf_peakrate q) \<noteq> 0 \<and> tv_mtu v = 0 then Some (''\"mtu\" is required, if \"peakrate\" is requested.'' @ nl)
         else if tbf_limit q = 0 \<and> tv_latency v = 0 then Some (''Either \"limit\" or \"latency\" are required.'' @ nl)
         else None)"

text \<open>
  The options and the tables, with the limit each is added with; the second table is there when
  a peak rate is.
\<close>

definition tbf_attrs :: "tc_tbf_qopt \<Rightarrow> u32 list \<Rightarrow> u32 list option \<Rightarrow> (nat \<times> attr) list" where
  "tbf_attrs q rtab ptab = [(2024, word_of_nat TCA_TBF_PARMS, tbf_bytes q), (3024, word_of_nat TCA_TBF_RTAB, table_bytes rtab)]
     @ (case ptab of None \<Rightarrow> [] | Some t \<Rightarrow> [(4096, word_of_nat TCA_TBF_PTAB, table_bytes t)])"

text \<open>The tables are always there (lemma \<open>tbf_tables_ready\<close>), so the second case below does not happen.\<close>

definition tbf_made :: "tc_core \<Rightarrow> tbf_vars \<Rightarrow> string + string \<times> (nat \<times> attr) list" where
  "tbf_made core v =
     (case tbf_checks v of
        Some msg \<Rightarrow> Inl msg
      | None \<Rightarrow>
          (case tbf_tables core v of
             None \<Rightarrow> Inl []
           | Some (Inl msg) \<Rightarrow> Inl msg
           | Some (Inr (q, rtab, ptab)) \<Rightarrow> Inr ([], tbf_attrs q rtab ptab)))"

definition tbf_parse_opt :: "tc_core \<Rightarrow> string list \<Rightarrow> nlmsg \<Rightarrow> (int \<times> string \<times> nlmsg) cli" where
  "tbf_parse_opt core = run_options tbf_word tbf_init (\<lambda>v. send_each (tbf_made core v))"

section \<open>Printing\<close>

definition show_burst :: "string \<Rightarrow> string \<Rightarrow> rate_show \<Rightarrow> tc_ratespec \<Rightarrow> u32 \<Rightarrow> string" where
  "show_burst long short sh r ticks =
     (let b = d_to_u32 (d_of_u32 (tc_calc_xmitsize (ts_core sh) (r_rate r) ticks))
      in (if ts_details sh
          then long @ '' '' @ sprint_size b @ ''/'' @ show_u32 (shl32 1 (unat (r_cell_log r))) @ '' mpu '' @ sprint_size (ucast (r_mpu r)) @ '' ''
          else short @ '' '' @ sprint_size b @ '' '')
         @ (if ts_raw sh then ''['' @ show_08x ticks @ ''] '' else []))"

definition latency_of :: "tc_core \<Rightarrow> u32 \<Rightarrow> u32 \<Rightarrow> u32 \<Rightarrow> double" where
  "latency_of core lm rate ticks =
     d_of_int TIME_UNITS_PER_SEC * (d_of_u32 lm div d_of_u32 rate) - d_of_u32 (tc_core_tick2time core ticks)"

definition show_tbf :: "rate_show \<Rightarrow> tc_tbf_qopt \<Rightarrow> string" where
  "show_tbf sh q =
     (let lat = latency_of (ts_core sh) (tbf_limit q) (r_rate (tbf_rate q)) (tbf_buffer q);
          lat2 = latency_of (ts_core sh) (tbf_limit q) (r_rate (tbf_peakrate q)) (tbf_mtu q);
          lat = (if r_rate (tbf_peakrate q) \<noteq> 0 \<and> lat2 > lat then lat2 else lat)
      in ''rate '' @ sprint_rate (ts_iec sh) (r_rate (tbf_rate q)) @ '' '' @ show_burst ''burst'' ''burst'' sh (tbf_rate q) (tbf_buffer q)
         @ (if r_rate (tbf_peakrate q) \<noteq> 0
            then ''peakrate '' @ sprint_rate (ts_iec sh) (r_rate (tbf_peakrate q)) @ '' ''
              @ (if tbf_mtu q \<noteq> 0 \<or> r_mpu (tbf_peakrate q) \<noteq> 0 then show_burst ''mtu'' ''minburst'' sh (tbf_peakrate q) (tbf_mtu q) else [])
            else [])
         @ (if ts_raw sh then ''limit '' @ sprint_size (tbf_limit q) @ '' '' else [])
         @ ''lat '' @ sprint_time (d_to_u32 lat) @ '' ''
         @ (if r_overhead (tbf_rate q) \<noteq> 0 then ''overhead '' @ show_dec (unat (r_overhead (tbf_rate q))) else []))"

definition tbf_print_opt :: "rate_show \<Rightarrow> u8 list option \<Rightarrow> int \<times> string" where
  "tbf_print_opt sh opt =
     (case opt of
        None \<Rightarrow> (0, [])
      | Some rta \<Rightarrow>
          (case fst (parse_rtattr_nested TCA_TBF_PTAB rta) ! TCA_TBF_PARMS of
             None \<Rightarrow> (- 1, [])
           | Some a \<Rightarrow> if RTA_PAYLOAD a < 36 then (- 1, []) else (0, show_tbf sh (tbf_of_bytes (RTA_DATA a)))))"

definition tbf_qdisc_util :: "tc_core \<Rightarrow> rate_show \<Rightarrow> qdisc_util" where
  "tbf_qdisc_util core sh = \<lparr>q_id = ''tbf'', parse_qopt = Some (tbf_parse_opt core), print_qopt = tbf_print_opt sh,
     print_xstats = None, parse_copt = None, print_copt = None\<rparr>"

section \<open>What is sent and printed\<close>

text \<open>The tables are always there, and have 256 entries.\<close>

lemma tbf_tables_ready:
  "tbf_tables core v \<noteq> None"
  "tbf_tables core v = Some (Inr (q, rtab, ptab)) \<Longrightarrow> length rtab = 256 \<and> (\<forall>t. ptab = Some t \<longrightarrow> length t = 256)"
proof -
  obtain c spec tab where 1: "tbf_rate_table core v (tbf_rate (tbf_limited v)) (tv_Rcell_log v) = Some (c, spec, tab)" "length tab = 256"
    unfolding tbf_rate_table_def by (rule rate_table_ready)
  obtain c' spec' tab' where 2: "tbf_rate_table core v (tbf_peakrate (tbf_limited v)) (tv_Pcell_log v) = Some (c', spec', tab')" "length tab' = 256"
    unfolding tbf_rate_table_def by (rule rate_table_ready)
  show "tbf_tables core v \<noteq> None"
    "tbf_tables core v = Some (Inr (q, rtab, ptab)) \<Longrightarrow> length rtab = 256 \<and> (\<forall>t. ptab = Some t \<longrightarrow> length t = 256)"
    by (cases "sint c < 0"; cases "r_rate (tbf_peakrate (tbf_limited v)) = 0"; cases "sint c' < 0";
        use 1 2 in \<open>auto simp: tbf_tables_def Let_def\<close>)+
qed

definition tbf_shown :: "tc_core \<Rightarrow> rate_show \<Rightarrow> tbf_vars \<Rightarrow> string" where
  "tbf_shown core sh v = (case tbf_tables core v of Some (Inr (q, _)) \<Rightarrow> show_tbf sh q | _ \<Rightarrow> [])"

lemma tbf_made_attrs:
  assumes "tbf_made core v = Inr (w, as)"
  obtains q rtab ptab where "tbf_tables core v = Some (Inr (q, rtab, ptab))" "as = tbf_attrs q rtab ptab"
    "length rtab = 256" "\<forall>t. ptab = Some t \<longrightarrow> length t = 256"
proof -
  obtain q rtab ptab where t: "tbf_tables core v = Some (Inr (q, rtab, ptab))" "as = tbf_attrs q rtab ptab"
    using assms by (auto simp: tbf_made_def split: option.splits sum.splits)
  then show ?thesis using tbf_tables_ready(2) [OF t(1)] that by blast
qed

interpretation tbf: table_options tbf_word tbf_init "tbf_made core" "tbf_print_opt sh" "tbf_shown core sh" for core sh
proof (unfold_locales, goal_cases)
  case (1 v w as)
  then obtain q rtab ptab where "as = tbf_attrs q rtab ptab" "length rtab = 256" "\<forall>t. ptab = Some t \<longrightarrow> length t = 256"
    by (rule tbf_made_attrs)
  then show ?case by (auto simp: tbf_attrs_def attr_size_def RTA_ALIGN_def split: option.splits)
next
  case (2 v w as rta)
  obtain q rtab ptab where t: "tbf_tables core v = Some (Inr (q, rtab, ptab))" "as = tbf_attrs q rtab ptab"
    using tbf_made_attrs [OF 2(1)] by metis
  have m: "attr_map (map snd as) TCA_TBF_PARMS = Some (tbf_bytes q)" and le: "TCA_TBF_PARMS \<le> TCA_TBF_PTAB"
    by (simp_all add: t(2) tbf_attrs_def attr_map_def TCA_TBF_PARMS_def TCA_TBF_PTAB_def)
  obtain a r where "fst (parse_rtattr_nested TCA_TBF_PTAB rta) ! TCA_TBF_PARMS = Some a" "\<not> RTA_PAYLOAD a < int 36"
    "RTA_DATA a = tbf_bytes q @ r"
    by (rule nested_data [OF 2(2-4) le m tbf_bytes(1)]) simp
  then show ?case by (simp add: tbf_print_opt_def tbf_shown_def t(1))
qed

end
