(* ===== verification/Q_Htb.thy ===== *)
theory Q_Htb
  imports Tc_Tables
begin

text \<open>
  Hierarchical token buckets (\<open>tc/q_htb.c\<close>): the options of the discipline and of its classes,
  the rate tables, and printing. The frequency of the timer is an argument.
\<close>

section \<open>Options of the discipline\<close>

definition TCA_HTB_PARMS :: nat where "TCA_HTB_PARMS = 1"
definition TCA_HTB_INIT :: nat where "TCA_HTB_INIT = 2"
definition TCA_HTB_CTAB :: nat where "TCA_HTB_CTAB = 3"
definition TCA_HTB_RTAB :: nat where "TCA_HTB_RTAB = 4"

record tc_htb_glob =
  hg_version :: u32
  hg_rate2quantum :: u32
  hg_defcls :: u32
  hg_debug :: u32
  hg_direct_pkts :: u32

definition glob_bytes :: "tc_htb_glob \<Rightarrow> u8 list" where
  "glob_bytes g = le32_bytes (hg_version g) @ le32_bytes (hg_rate2quantum g) @ le32_bytes (hg_defcls g) @ le32_bytes (hg_debug g)
     @ le32_bytes (hg_direct_pkts g)"

definition glob_of_bytes :: "u8 list \<Rightarrow> tc_htb_glob" where
  "glob_of_bytes bs = \<lparr>hg_version = le32 bs, hg_rate2quantum = le32 (drop 4 bs), hg_defcls = le32 (drop 8 bs), hg_debug = le32 (drop 12 bs),
     hg_direct_pkts = le32 (drop 16 bs)\<rparr>"

lemma glob_bytes [simp]: "length (glob_bytes g) = 20" "glob_of_bytes (glob_bytes g @ r) = g"
  by (simp_all add: glob_bytes_def glob_of_bytes_def)

definition htb_explain :: string where
  "htb_explain = ''Usage: ... qdisc add ... htb [default N] [r2q N]'' @ nl
     @ '' default  minor id of class to which unclassified packets are sent {0}'' @ nl
     @ '' r2q      DRR quantums are computed as rate in Bps/r2q {10}'' @ nl
     @ '' debug    string of 16 numbers each 0-3 {0}'' @ nl @ nl
     @ ''... class add ... htb rate R1 [burst B1] [mpu B] [overhead O]'' @ nl
     @ ''                      [prio P] [slot S] [pslot PS]'' @ nl
     @ ''                      [ceil R2] [cburst B2] [mtu MTU] [quantum Q]'' @ nl
     @ '' rate     rate allocated to this class (class can still borrow)'' @ nl
     @ '' burst    max bytes burst which can be accumulated during idle period {computed}'' @ nl
     @ '' mpu      minimum packet size used in rate computations'' @ nl
     @ '' overhead per-packet size overhead used in rate computations'' @ nl
     @ '' linklay  adapting to a linklayer e.g. atm'' @ nl
     @ '' ceil     definite upper class rate (no borrows) {rate}'' @ nl
     @ '' cburst   burst but for ceil {computed}'' @ nl
     @ '' mtu      max packet size we create rate map for {1600}'' @ nl
     @ '' prio     priority of leaf; lower are served first {0}'' @ nl
     @ '' quantum  how much bytes to serve from leaf at once {use r2q}'' @ nl
     @ nl @ ''TC HTB version 3.3'' @ nl"

text \<open>An option that is refused prints the usage, too.\<close>

definition htb_read :: "string \<Rightarrow> 'v option \<Rightarrow> ('v \<Rightarrow> 's) \<Rightarrow> 's opt_step" where
  "htb_read kw x put = (case x of None \<Rightarrow> Reject (illegal kw @ htb_explain) | Some v \<Rightarrow> Next (put v) [])"

text \<open>Up to sixteen digits from 0 to 3, two bits each.\<close>

fun htb_debug :: "nat \<Rightarrow> string \<Rightarrow> u32 \<Rightarrow> u32" where
  "htb_debug i [] dbg = dbg"
| "htb_debug i (c # cs) dbg =
     (if i < 16 \<and> (of_char c :: nat) \<in> {48..51}
      then htb_debug (i + 1) cs (dbg OR push_bit (2 * i) (word_of_nat (of_char c - 48)))
      else dbg)"

definition htb_word :: "string \<Rightarrow> tc_htb_glob \<Rightarrow> tc_htb_glob opt_word" where
  "htb_word kw g =
     (if matches kw ''r2q'' = 0 then Value [] (\<lambda>a. htb_read ''r2q'' (get_u32 a 10) (\<lambda>x. g\<lparr>hg_rate2quantum := x\<rparr>))
      else if matches kw ''default'' = 0 then Value [] (\<lambda>a. htb_read ''default'' (get_u32 a 16) (\<lambda>x. g\<lparr>hg_defcls := x\<rparr>))
      else if matches kw ''debug'' = 0 then Value [] (\<lambda>a. Next (g\<lparr>hg_debug := htb_debug 0 a (hg_debug g)\<rparr>) [])
      else Flag (Reject (what_is kw @ htb_explain)))"

definition htb_init :: tc_htb_glob where
  "htb_init = \<lparr>hg_version = 3, hg_rate2quantum = 10, hg_defcls = 0, hg_debug = 0, hg_direct_pkts = 0\<rparr>"

definition htb_made :: "tc_htb_glob \<Rightarrow> string + string \<times> (nat \<times> attr) list" where
  "htb_made g = Inr ([], [(2024, word_of_nat TCA_HTB_INIT, glob_bytes g)])"

definition htb_parse_opt :: "string list \<Rightarrow> nlmsg \<Rightarrow> (int \<times> string \<times> nlmsg) cli" where
  "htb_parse_opt = run_options htb_word htb_init (\<lambda>g. send_each (htb_made g))"

section \<open>Options of a class\<close>

record tc_htb_opt =
  ho_rate :: tc_ratespec
  ho_ceil :: tc_ratespec
  ho_buffer :: u32
  ho_cbuffer :: u32
  ho_quantum :: u32
  ho_level :: u32
  ho_prio :: u32

definition htb_opt_bytes :: "tc_htb_opt \<Rightarrow> u8 list" where
  "htb_opt_bytes q = ratespec_bytes (ho_rate q) @ ratespec_bytes (ho_ceil q) @ le32_bytes (ho_buffer q) @ le32_bytes (ho_cbuffer q)
     @ le32_bytes (ho_quantum q) @ le32_bytes (ho_level q) @ le32_bytes (ho_prio q)"

definition htb_opt_of_bytes :: "u8 list \<Rightarrow> tc_htb_opt" where
  "htb_opt_of_bytes bs = \<lparr>ho_rate = ratespec_of_bytes bs, ho_ceil = ratespec_of_bytes (drop 12 bs), ho_buffer = le32 (drop 24 bs),
     ho_cbuffer = le32 (drop 28 bs), ho_quantum = le32 (drop 32 bs), ho_level = le32 (drop 36 bs), ho_prio = le32 (drop 40 bs)\<rparr>"

lemma htb_opt_bytes [simp]: "length (htb_opt_bytes q) = 44" "htb_opt_of_bytes (htb_opt_bytes q @ r) = q"
  by (simp_all add: htb_opt_bytes_def htb_opt_of_bytes_def)

record htb_vars =
  hv_opt :: tc_htb_opt
  hv_buffer :: u32
  hv_cbuffer :: u32
  hv_cell_log :: s32
  hv_ccell_log :: s32
  hv_mtu :: u32
  hv_mpu :: u16
  hv_overhead :: u16
  hv_linklayer :: u32

definition htb_class_init :: htb_vars where
  "htb_class_init =
     \<lparr>hv_opt = \<lparr>ho_rate = zero_ratespec, ho_ceil = zero_ratespec, ho_buffer = 0, ho_cbuffer = 0, ho_quantum = 0, ho_level = 0, ho_prio = 0\<rparr>,
      hv_buffer = 0, hv_cbuffer = 0, hv_cell_log = - 1, hv_ccell_log = - 1, hv_mtu = 1600, hv_mpu = 0, hv_overhead = 0,
      hv_linklayer = LINKLAYER_ETHERNET\<rparr>"

definition htb_class_word :: "string \<Rightarrow> htb_vars \<Rightarrow> htb_vars opt_word" where
  "htb_class_word kw v = (let q = hv_opt v in
     if matches kw ''prio'' = 0 then Value [] (\<lambda>a. htb_read ''prio'' (get_u32 a 10) (\<lambda>x. v\<lparr>hv_opt := q\<lparr>ho_prio := x\<rparr>\<rparr>))
     else if matches kw ''mtu'' = 0 then Value [] (\<lambda>a. htb_read ''mtu'' (get_u32 a 10) (\<lambda>x. v\<lparr>hv_mtu := x\<rparr>))
     else if matches kw ''mpu'' = 0 then Value [] (\<lambda>a. htb_read ''mpu'' (get_u16 a 10) (\<lambda>x. v\<lparr>hv_mpu := x\<rparr>))
     else if matches kw ''overhead'' = 0 then Value [] (\<lambda>a. htb_read ''overhead'' (get_u16 a 10) (\<lambda>x. v\<lparr>hv_overhead := x\<rparr>))
     else if matches kw ''linklayer'' = 0 then Value [] (\<lambda>a. htb_read ''linklayer'' (get_linklayer a) (\<lambda>x. v\<lparr>hv_linklayer := x\<rparr>))
     else if matches kw ''quantum'' = 0 then Value [] (\<lambda>a. htb_read ''quantum'' (get_u32 a 10) (\<lambda>x. v\<lparr>hv_opt := q\<lparr>ho_quantum := x\<rparr>\<rparr>))
     else if matches kw ''burst'' = 0 \<or> kw = ''buffer'' \<or> kw = ''maxburst'' then Value [] (\<lambda>a. htb_read ''buffer''
         (and_cell (get_size_and_cell a) (hv_cell_log v)) (\<lambda>(x, c). v\<lparr>hv_buffer := x, hv_cell_log := c\<rparr>))
     else if matches kw ''cburst'' = 0 \<or> kw = ''cbuffer'' \<or> kw = ''cmaxburst'' then Value [] (\<lambda>a. htb_read ''cbuffer''
         (and_cell (get_size_and_cell a) (hv_ccell_log v)) (\<lambda>(x, c). v\<lparr>hv_cbuffer := x, hv_ccell_log := c\<rparr>))
     else if kw = ''ceil'' then Value [] (\<lambda>a.
         if r_rate (ho_ceil q) \<noteq> 0 then Reject (double_spec ''ceil'')
         else htb_read ''ceil'' (get_rate a) (\<lambda>x. v\<lparr>hv_opt := q\<lparr>ho_ceil := (ho_ceil q)\<lparr>r_rate := x\<rparr>\<rparr>\<rparr>))
     else if kw = ''rate'' then Value [] (\<lambda>a.
         if r_rate (ho_rate q) \<noteq> 0 then Reject (double_spec ''rate'')
         else htb_read ''rate'' (get_rate a) (\<lambda>x. v\<lparr>hv_opt := q\<lparr>ho_rate := (ho_rate q)\<lparr>r_rate := x\<rparr>\<rparr>\<rparr>))
     else if kw = ''help'' then Flag (Reject htb_explain)
     else Flag (Reject (what_is kw @ htb_explain)))"

text \<open>
  The ceiling is the rate when it was not given, and a burst what the rate passes in a tick, and
  a packet. The quotient is one of unsigned numbers.
\<close>

definition htb_filled :: "u32 \<Rightarrow> htb_vars \<Rightarrow> htb_vars" where
  "htb_filled hz v =
     (let q = hv_opt v;
          q = (if r_rate (ho_ceil q) = 0 then q\<lparr>ho_ceil := ho_rate q\<rparr> else q);
          v = v\<lparr>hv_buffer := if hv_buffer v = 0 then r_rate (ho_rate q) div hz + hv_mtu v else hv_buffer v,
                hv_cbuffer := if hv_cbuffer v = 0 then r_rate (ho_ceil q) div hz + hv_mtu v else hv_cbuffer v\<rparr>
      in v\<lparr>hv_opt := q\<lparr>ho_ceil := (ho_ceil q)\<lparr>r_overhead := hv_overhead v, r_mpu := hv_mpu v\<rparr>,
                      ho_rate := (ho_rate q)\<lparr>r_overhead := hv_overhead v, r_mpu := hv_mpu v\<rparr>\<rparr>\<rparr>)"

definition htb_tables :: "tc_core \<Rightarrow> htb_vars \<Rightarrow> (string + tc_htb_opt \<times> u32 list \<times> u32 list) option" where
  "htb_tables core v =
     (let q = hv_opt v
      in do {
        (r, spec, rtab) \<leftarrow> rate_table core (hv_mtu v) (hv_linklayer v) (ho_rate q) (hv_cell_log v);
        if sint r < 0 then Some (Inl (''htb: failed to calculate rate table.'' @ nl))
        else do {
          let q = q\<lparr>ho_rate := spec, ho_buffer := tc_calc_xmittime core (r_rate spec) (hv_buffer v)\<rparr>;
          (r, spec, ctab) \<leftarrow> rate_table core (hv_mtu v) (hv_linklayer v) (ho_ceil q) (hv_ccell_log v);
          if sint r < 0 then Some (Inl (''htb: failed to calculate ceil rate table.'' @ nl))
          else Some (Inr (q\<lparr>ho_ceil := spec, ho_cbuffer := tc_calc_xmittime core (r_rate spec) (hv_cbuffer v)\<rparr>, rtab, ctab))
        }
      })"

definition htb_class_attrs :: "tc_htb_opt \<Rightarrow> u32 list \<Rightarrow> u32 list \<Rightarrow> (nat \<times> attr) list" where
  "htb_class_attrs q rtab ctab = [(2024, word_of_nat TCA_HTB_PARMS, htb_opt_bytes q), (3024, word_of_nat TCA_HTB_RTAB, table_bytes rtab),
     (4024, word_of_nat TCA_HTB_CTAB, table_bytes ctab)]"

text \<open>The tables are always there (lemma \<open>htb_tables_ready\<close>), so the first case below does not happen.\<close>

definition htb_class_made :: "tc_core \<Rightarrow> u32 \<Rightarrow> htb_vars \<Rightarrow> string + string \<times> (nat \<times> attr) list" where
  "htb_class_made core hz v =
     (if r_rate (ho_rate (hv_opt v)) = 0 then Inl (''\"rate\" is required.'' @ nl)
      else case htb_tables core (htb_filled hz v) of
             None \<Rightarrow> Inl []
           | Some (Inl msg) \<Rightarrow> Inl msg
           | Some (Inr (q, rtab, ctab)) \<Rightarrow> Inr ([], htb_class_attrs q rtab ctab))"

definition htb_parse_class_opt :: "tc_core \<Rightarrow> u32 \<Rightarrow> string list \<Rightarrow> nlmsg \<Rightarrow> (int \<times> string \<times> nlmsg) cli" where
  "htb_parse_class_opt core hz = run_options htb_class_word htb_class_init (\<lambda>v. send_each (htb_class_made core hz v))"

section \<open>Printing\<close>

definition htb_burst :: "string \<Rightarrow> rate_show \<Rightarrow> tc_ratespec \<Rightarrow> u32 \<Rightarrow> string" where
  "htb_burst name sh r ticks =
     (let b = d_to_u32 (d_of_u32 (tc_calc_xmitsize (ts_core sh) (r_rate r) ticks))
      in name @ '' '' @ sprint_size b
         @ (if ts_details sh
            then ''/'' @ show_u32 (shl32 1 (unat (r_cell_log r))) @ '' mpu '' @ sprint_size (ucast (r_mpu r AND 0xFF))
              @ '' overhead '' @ sprint_size (ucast (drop_bit 8 (r_mpu r) AND 0xFF)) @ '' ''
            else '' ''))"

definition show_htb_class :: "rate_show \<Rightarrow> tc_htb_opt \<Rightarrow> string" where
  "show_htb_class sh q =
     (if ho_level q = 0
      then ''prio '' @ show_s32 (ho_prio q) @ '' '' @ (if ts_details sh then ''quantum '' @ show_s32 (ho_quantum q) @ '' '' else [])
      else [])
     @ ''rate '' @ sprint_rate (ts_iec sh) (r_rate (ho_rate q)) @ '' '' @ ''ceil '' @ sprint_rate (ts_iec sh) (r_rate (ho_ceil q)) @ '' ''
     @ htb_burst ''burst'' sh (ho_rate q) (ho_buffer q) @ htb_burst ''cburst'' sh (ho_ceil q) (ho_cbuffer q)
     @ (if ts_details sh then ''level '' @ show_s32 (ho_level q) @ '' '' else [])
     @ (if ts_raw sh then ''buffer ['' @ show_08x (ho_buffer q) @ ''] cbuffer ['' @ show_08x (ho_cbuffer q) @ ''] '' else [])"

definition show_htb :: "rate_show \<Rightarrow> tc_htb_glob \<Rightarrow> string" where
  "show_htb sh g =
     ''r2q '' @ show_s32 (hg_rate2quantum g) @ '' default '' @ show_hex (unat (hg_defcls g)) @ '' direct_packets_stat '' @ show_u32 (hg_direct_pkts g)
     @ (if ts_details sh then '' ver '' @ show_s32 (drop_bit 16 (hg_version g)) @ ''.'' @ show_s32 (hg_version g AND 0xFFFF) else [])"

text \<open>What was printed stays when the second structure is too short.\<close>

definition htb_print_opt :: "rate_show \<Rightarrow> u8 list option \<Rightarrow> int \<times> string" where
  "htb_print_opt sh opt =
     (case opt of
        None \<Rightarrow> (0, [])
      | Some rta \<Rightarrow>
          let tb = fst (parse_rtattr_nested TCA_HTB_RTAB rta);
              glob = (\<lambda>out. case tb ! TCA_HTB_INIT of
                  None \<Rightarrow> (0, out)
                | Some a \<Rightarrow> if RTA_PAYLOAD a < 20 then (- 1, out) else (0, out @ show_htb sh (glob_of_bytes (RTA_DATA a))))
          in case tb ! TCA_HTB_PARMS of
               None \<Rightarrow> glob []
             | Some a \<Rightarrow> if RTA_PAYLOAD a < 44 then (- 1, []) else glob (show_htb_class sh (htb_opt_of_bytes (RTA_DATA a))))"

definition htb_print_xstats :: "u8 list option \<Rightarrow> int \<times> string" where
  "htb_print_xstats xstats =
     (case xstats of
        None \<Rightarrow> (0, [])
      | Some rta \<Rightarrow>
          if RTA_PAYLOAD rta < 20 then (- 1, [])
          else let st = RTA_DATA rta
               in (0, '' lended: '' @ show_u32 (field32 0 st) @ '' borrowed: '' @ show_u32 (field32 4 st) @ '' giants: '' @ show_u32 (field32 8 st) @ nl
                      @ '' tokens: '' @ show_s32 (field32 12 st) @ '' ctokens: '' @ show_s32 (field32 16 st) @ nl))"

definition htb_util :: "string \<Rightarrow> tc_core \<Rightarrow> u32 \<Rightarrow> rate_show \<Rightarrow> qdisc_util" where
  "htb_util kind core hz sh = \<lparr>q_id = kind, parse_qopt = Some htb_parse_opt, print_qopt = htb_print_opt sh,
     print_xstats = Some htb_print_xstats, parse_copt = Some (htb_parse_class_opt core hz), print_copt = Some (htb_print_opt sh)\<rparr>"

definition htb_qdisc_util :: "tc_core \<Rightarrow> u32 \<Rightarrow> rate_show \<Rightarrow> qdisc_util" where
  "htb_qdisc_util = htb_util ''htb''"

definition htb2_qdisc_util :: "tc_core \<Rightarrow> u32 \<Rightarrow> rate_show \<Rightarrow> qdisc_util" where
  "htb2_qdisc_util = htb_util ''htb2''"

section \<open>What is sent and printed\<close>

interpretation htb: table_options htb_word htb_init htb_made "htb_print_opt sh" "show_htb sh" for sh
proof (unfold_locales, goal_cases)
  case (1 g w as)
  then show ?case by (auto simp: htb_made_def attr_size_def RTA_ALIGN_def)
next
  case (2 g w as rta)
  have m: "attr_map (map snd as) TCA_HTB_INIT = Some (glob_bytes g)" "attr_map (map snd as) TCA_HTB_PARMS = None"
    and le: "TCA_HTB_INIT \<le> TCA_HTB_RTAB" "TCA_HTB_PARMS \<le> TCA_HTB_RTAB"
    using 2(1) by (auto simp: htb_made_def attr_map_def TCA_HTB_INIT_def TCA_HTB_RTAB_def TCA_HTB_PARMS_def)
  obtain a r where "fst (parse_rtattr_nested TCA_HTB_RTAB rta) ! TCA_HTB_INIT = Some a" "\<not> RTA_PAYLOAD a < int 20"
    "RTA_DATA a = glob_bytes g @ r"
    by (rule nested_data [OF 2(2-4) le(1) m(1) glob_bytes(1)]) simp
  moreover have "fst (parse_rtattr_nested TCA_HTB_RTAB rta) ! TCA_HTB_PARMS = None"
    using nested_attr [OF 2(2-4) le(2)] m(2) by simp
  ultimately show ?case by (simp add: htb_print_opt_def)
qed

lemma htb_tables_ready:
  obtains q rtab ctab where "htb_tables core v = Some (Inr (q, rtab, ctab))" "length rtab = 256" "length ctab = 256"
  | msg where "htb_tables core v = Some (Inl msg)"
proof -
  let ?t = "rate_table core (hv_mtu v) (hv_linklayer v)"
  obtain c spec tab where 1: "?t (ho_rate (hv_opt v)) (hv_cell_log v) = Some (c, spec, tab)" "length tab = 256"
    by (rule rate_table_ready)
  obtain c' spec' tab' where 2: "?t (ho_ceil (hv_opt v)) (hv_ccell_log v) = Some (c', spec', tab')" "length tab' = 256"
    by (rule rate_table_ready)
  show ?thesis
  proof (cases "sint c < 0 \<or> sint c' < 0")
    case True
    then have "\<exists>msg. htb_tables core v = Some (Inl msg)" using 1(1) 2(1) by (cases "sint c < 0") (simp_all add: htb_tables_def)
    then show ?thesis using that(2) by blast
  next
    case False
    then have "\<exists>q. htb_tables core v = Some (Inr (q, tab, tab'))" using 1(1) 2(1) by (simp add: htb_tables_def)
    then show ?thesis using that(1) 1(2) 2(2) by blast
  qed
qed

lemma htb_class_made_attrs:
  assumes "htb_class_made core hz v = Inr (w, as)"
  obtains q rtab ctab where "htb_tables core (htb_filled hz v) = Some (Inr (q, rtab, ctab))" "as = htb_class_attrs q rtab ctab"
    "length rtab = 256" "length ctab = 256"
proof -
  obtain q rtab ctab where t: "htb_tables core (htb_filled hz v) = Some (Inr (q, rtab, ctab))" "as = htb_class_attrs q rtab ctab"
    using assms by (auto simp: htb_class_made_def split: if_splits option.splits sum.splits)
  have "length rtab = 256 \<and> length ctab = 256"
    by (rule htb_tables_ready [of core "htb_filled hz v"]) (simp_all add: t(1))
  then show ?thesis using that [OF t] by blast
qed

definition htb_class_shown :: "tc_core \<Rightarrow> u32 \<Rightarrow> rate_show \<Rightarrow> htb_vars \<Rightarrow> string" where
  "htb_class_shown core hz sh v = (case htb_tables core (htb_filled hz v) of Some (Inr (q, _)) \<Rightarrow> show_htb_class sh q | _ \<Rightarrow> [])"

interpretation htb_class: table_options htb_class_word htb_class_init "htb_class_made core hz" "htb_print_opt sh" "htb_class_shown core hz sh"
  for core hz sh
proof (unfold_locales, goal_cases)
  case (1 v w as)
  then obtain q rtab ctab where "as = htb_class_attrs q rtab ctab" "length rtab = 256" "length ctab = 256"
    by (rule htb_class_made_attrs)
  then show ?case by (simp add: htb_class_attrs_def attr_size_def RTA_ALIGN_def)
next
  case (2 v w as rta)
  obtain q rtab ctab where t: "htb_tables core (htb_filled hz v) = Some (Inr (q, rtab, ctab))" "as = htb_class_attrs q rtab ctab"
    using htb_class_made_attrs [OF 2(1)] by metis
  have m: "attr_map (map snd as) TCA_HTB_PARMS = Some (htb_opt_bytes q)" "attr_map (map snd as) TCA_HTB_INIT = None"
    and le: "TCA_HTB_INIT \<le> TCA_HTB_RTAB" "TCA_HTB_PARMS \<le> TCA_HTB_RTAB"
    by (simp_all add: t(2) htb_class_attrs_def attr_map_def TCA_HTB_INIT_def TCA_HTB_RTAB_def TCA_HTB_PARMS_def TCA_HTB_CTAB_def)
  obtain a r where "fst (parse_rtattr_nested TCA_HTB_RTAB rta) ! TCA_HTB_PARMS = Some a" "\<not> RTA_PAYLOAD a < int 44"
    "RTA_DATA a = htb_opt_bytes q @ r"
    by (rule nested_data [OF 2(2-4) le(2) m(1) htb_opt_bytes(1)]) simp
  moreover have "fst (parse_rtattr_nested TCA_HTB_RTAB rta) ! TCA_HTB_INIT = None"
    using nested_attr [OF 2(2-4) le(1)] m(2) by simp
  ultimately show ?case by (simp add: htb_print_opt_def htb_class_shown_def t(1))
qed

end
