(* ===== verification/Q_Hfsc.thy ===== *)
theory Q_Hfsc
  imports Tc_Tables
begin

text \<open>
  Hierarchical fair service curves (\<open>tc/q_hfsc.c\<close>): the option of the discipline, the curves of
  a class in their two notations, and printing. Warnings a printer writes to the standard
  error output are not part of its result.
\<close>

section \<open>The discipline\<close>

definition hfsc_explain :: string where
  "hfsc_explain = ''Usage: ... hfsc [ default CLASSID ]'' @ nl @ nl @ '' default: default class for unclassified packets'' @ nl"

definition hfsc_explain_class :: string where
  "hfsc_explain_class = ''Usage: ... hfsc [ [ rt SC ] [ ls SC ] | [ sc SC ] ] [ ul SC ]'' @ nl @ nl
     @ ''SC := [ [ m1 BPS ] d SEC ] m2 BPS'' @ nl @ nl
     @ '' m1 : slope of first segment'' @ nl
     @ '' d  : x-coordinate of intersection'' @ nl
     @ '' m2 : slope of second segment'' @ nl @ nl
     @ ''Alternative format:'' @ nl @ nl
     @ ''SC := [ [ umax BYTE ] dmax SEC ] rate BPS'' @ nl @ nl
     @ '' umax : maximum unit of work'' @ nl
     @ '' dmax : maximum delay'' @ nl
     @ '' rate : rate'' @ nl @ nl
     @ ''Remarks:'' @ nl
     @ '' - at least one of '' @ [CHR 0x27] @ ''rt'' @ [CHR 0x27] @ '', '' @ [CHR 0x27] @ ''ls'' @ [CHR 0x27] @ '' or '' @ [CHR 0x27] @ ''sc''
     @ [CHR 0x27] @ '' must be specified'' @ nl
     @ '' - '' @ [CHR 0x27] @ ''ul'' @ [CHR 0x27] @ '' can only be specified with '' @ [CHR 0x27] @ ''ls'' @ [CHR 0x27] @ '' or '' @ [CHR 0x27]
     @ ''sc'' @ [CHR 0x27] @ nl @ nl"

definition hfsc_illegal :: "string \<Rightarrow> string" where
  "hfsc_illegal kw = ''HFSC: Illegal \"'' @ kw @ ''\"'' @ nl"

definition hfsc_what_is :: "string \<Rightarrow> string" where
  "hfsc_what_is kw = ''HFSC: What is \"'' @ kw @ ''\" ?'' @ nl"

definition hfsc_word :: "string \<Rightarrow> u16 \<Rightarrow> u16 opt_word" where
  "hfsc_word kw defcls =
     (if matches kw ''default'' = 0 then Value [] (\<lambda>a.
         if defcls \<noteq> 0 then Reject (''HFSC: Double \"default\"'' @ nl)
         else case get_u16 a 16 of None \<Rightarrow> Reject (hfsc_illegal ''default'') | Some x \<Rightarrow> Next x [])
      else if matches kw ''help'' = 0 then Flag (Reject hfsc_explain)
      else Flag (Reject (hfsc_what_is kw @ hfsc_explain)))"

definition hfsc_parse_opt :: "string list \<Rightarrow> nlmsg \<Rightarrow> (int \<times> string \<times> nlmsg) cli" where
  "hfsc_parse_opt = run_options hfsc_word 0 (\<lambda>defcls. send_struct (Some (le16_bytes defcls)))"

definition hfsc_print_opt :: "u8 list option \<Rightarrow> int \<times> string" where
  "hfsc_print_opt opt =
     (case opt of
        None \<Rightarrow> (0, [])
      | Some rta \<Rightarrow>
          if RTA_PAYLOAD rta < 2 then (- 1, [])
          else let defcls = le16 (RTA_DATA rta)
               in (0, if defcls \<noteq> 0 then ''default '' @ show_hex (unat defcls) @ '' '' else []))"

definition hfsc_print_xstats :: "u8 list option \<Rightarrow> int \<times> string" where
  "hfsc_print_xstats xstats =
     (case xstats of
        None \<Rightarrow> (0, [])
      | Some rta \<Rightarrow>
          if RTA_PAYLOAD rta < 24 then (- 1, [])
          else let st = RTA_DATA rta;
                   work = le64 st; rtwork = le64 (drop 8 st)
               in (0, '' period '' @ show_u32 (field32 16 st) @ '' ''
                      @ (if work \<noteq> 0 then ''work '' @ show_dec (unat work) @ '' bytes '' else [])
                      @ (if rtwork \<noteq> 0 then ''rtwork '' @ show_dec (unat rtwork) @ '' bytes '' else [])
                      @ ''level '' @ show_u32 (field32 20 st) @ '' '' @ nl))"

section \<open>Service curves\<close>

record tc_service_curve =
  sc_m1 :: u32
  sc_d :: u32
  sc_m2 :: u32

definition sc_bytes :: "tc_service_curve \<Rightarrow> u8 list" where
  "sc_bytes c = le32_bytes (sc_m1 c) @ le32_bytes (sc_d c) @ le32_bytes (sc_m2 c)"

definition sc_of_bytes :: "u8 list \<Rightarrow> tc_service_curve" where
  "sc_of_bytes bs = \<lparr>sc_m1 = le32 bs, sc_d = le32 (drop 4 bs), sc_m2 = le32 (drop 8 bs)\<rparr>"

lemma sc_bytes [simp]: "length (sc_bytes c) = 12" "sc_of_bytes (sc_bytes c @ r) = c"
  by (simp_all add: sc_bytes_def sc_of_bytes_def)

lemma sc_bytes_inj: "sc_bytes c @ r = sc_bytes c' @ r' \<Longrightarrow> c = c'"
  by (metis sc_bytes(2))

text \<open>
  Reading a curve prints something, and leads to a value and the place it ends at, or fails;
  at the end of the arguments the process exits.
\<close>

type_synonym 'a sc_result = "(string \<times> ('a \<times> string list) option) cli"

fun sc_then :: "'a sc_result \<Rightarrow> ('a \<Rightarrow> string list \<Rightarrow> 'b sc_result) \<Rightarrow> 'b sc_result" where
  "sc_then (Exit status msg) f = Exit status msg"
| "sc_then (Ret (out, None)) f = Ret (out, None)"
| "sc_then (Ret (out, Some (x, argv))) f =
     (case f x argv of
        Exit status msg \<Rightarrow> Exit status (out @ msg)
      | Ret (out2, y) \<Rightarrow> Ret (out @ out2, y))"

definition sc_next :: "string list \<Rightarrow> unit sc_result" where
  "sc_next argv = (case NEXT_ARG argv of Exit status msg \<Rightarrow> Exit status msg | Ret argv \<Rightarrow> Ret ([], Some ((), argv)))"

definition sc_value :: "string \<Rightarrow> (string \<Rightarrow> u32 option) \<Rightarrow> string list \<Rightarrow> u32 sc_result" where
  "sc_value kw rd argv = sc_then (sc_next argv) (\<lambda>_ argv.
     case rd (hd argv) of None \<Rightarrow> Ret (hfsc_illegal kw, None) | Some x \<Rightarrow> Ret ([], Some (x, argv)))"

definition sc_optional :: "string \<Rightarrow> (string \<Rightarrow> u32 option) \<Rightarrow> string list \<Rightarrow> u32 sc_result" where
  "sc_optional kw rd argv =
     (if matches (hd argv) kw = 0
      then sc_then (sc_value kw rd argv) (\<lambda>x argv. sc_then (sc_next argv) (\<lambda>_ argv. Ret ([], Some (x, argv))))
      else Ret ([], Some (0, argv)))"

definition sc_required :: "string \<Rightarrow> (string \<Rightarrow> u32 option) \<Rightarrow> string list \<Rightarrow> u32 sc_result" where
  "sc_required kw rd argv = (if matches (hd argv) kw = 0 then sc_value kw rd argv else Ret ([], None))"

definition hfsc_get_sc1 :: "tc_core \<Rightarrow> string list \<Rightarrow> tc_service_curve sc_result" where
  "hfsc_get_sc1 core argv =
     sc_then (sc_optional ''m1'' get_rate argv) (\<lambda>m1 argv.
     sc_then (sc_optional ''d'' get_time argv) (\<lambda>d argv.
     sc_then (sc_required ''m2'' get_rate argv) (\<lambda>m2 argv.
       Ret ([], Some (\<lparr>sc_m1 = m1, sc_d = tc_core_time2ktime core d, sc_m2 = m2\<rparr>, argv)))))"

text \<open>The ceiling of a double, which the C library computes exactly.\<close>

definition d_ceil :: "double \<Rightarrow> double" where
  "d_ceil x =
     (if is_finite x then dround (dneg x) (- (- sval x div 2 ^ emin) * 2 ^ emin) 1
      else if is_nan x then quiet x else x)"

text \<open>
  The second notation. The slope of a concave curve is the work over the delay; the other
  quotient is one of unsigned numbers that wrap, and a rate of zero ends the process with the
  signal of an arithmetic error, which a shell reports as 136.
\<close>

definition curve_of :: "tc_core \<Rightarrow> u32 \<Rightarrow> u32 \<Rightarrow> u32 \<Rightarrow> tc_service_curve cli" where
  "curve_of core umax dmax rate =
     (let slope = d_ceil (1 * d_of_u32 umax * d_of_int TIME_UNITS_PER_SEC div d_of_u32 dmax)
      in if dmax \<noteq> 0 \<and> slope > d_of_u32 rate
         then Ret \<lparr>sc_m1 = d_to_u32 slope, sc_d = tc_core_time2ktime core dmax, sc_m2 = rate\<rparr>
         else if rate = 0 then Exit 136 []
         else Ret \<lparr>sc_m1 = 0, sc_d = tc_core_time2ktime core (dmax - umax * word_of_int TIME_UNITS_PER_SEC div rate), sc_m2 = rate\<rparr>)"

definition hfsc_get_sc2 :: "tc_core \<Rightarrow> string list \<Rightarrow> tc_service_curve sc_result" where
  "hfsc_get_sc2 core argv =
     sc_then (sc_optional ''umax'' get_size argv) (\<lambda>umax argv.
     sc_then (sc_optional ''dmax'' get_time argv) (\<lambda>dmax argv.
     sc_then (sc_required ''rate'' get_rate argv) (\<lambda>rate argv.
       if umax \<noteq> 0 \<and> dmax = 0 then Ret (''HFSC: umax given but dmax is zero.'' @ nl, None)
       else case curve_of core umax dmax rate of
              Exit status msg \<Rightarrow> Exit status msg
            | Ret c \<Rightarrow> Ret ([], Some (c, argv)))))"

definition hfsc_get_sc :: "tc_core \<Rightarrow> string list \<Rightarrow> tc_service_curve sc_result" where
  "hfsc_get_sc core argv =
     sc_then
       (case hfsc_get_sc1 core argv of
          Exit status msg \<Rightarrow> Exit status msg
        | Ret (out, Some r) \<Rightarrow> Ret (out, Some r)
        | Ret (out, None) \<Rightarrow>
            (case hfsc_get_sc2 core argv of
               Exit status msg \<Rightarrow> Exit status (out @ msg)
             | Ret (out2, r) \<Rightarrow> Ret (out @ out2, r)))
       (\<lambda>c argv. if sc_m1 c = 0 \<and> sc_m2 c = 0 then Ret (''HFSC: Service Curve has two zero slopes'' @ nl, None) else Ret ([], Some (c, argv)))"

text \<open>A curve ends at an argument that was there.\<close>

lemma sc_then_some:
  "sc_then r f = Ret (out, Some (y, rest)) \<Longrightarrow>
     \<exists>out1 x argv out2. r = Ret (out1, Some (x, argv)) \<and> f x argv = Ret (out2, Some (y, rest))"
  by (cases "(r, f)" rule: sc_then.cases) (auto split: cli.splits)

lemma sc_next_shorter: "sc_next argv = Ret (out, Some (x, rest)) \<Longrightarrow> length rest < length argv"
  by (auto simp: sc_next_def split: cli.splits dest: NEXT_ARG_shorter)

lemma sc_value_shorter: "sc_value kw rd argv = Ret (out, Some (x, rest)) \<Longrightarrow> length rest < length argv"
  by (auto simp: sc_value_def dest!: sc_then_some sc_next_shorter split: option.splits)

lemma sc_optional_shorter: "sc_optional kw rd argv = Ret (out, Some (x, rest)) \<Longrightarrow> length rest \<le> length argv"
  by (auto simp: sc_optional_def dest!: sc_then_some sc_next_shorter sc_value_shorter split: if_splits)

lemma sc_required_shorter: "sc_required kw rd argv = Ret (out, Some (x, rest)) \<Longrightarrow> length rest < length argv"
  by (auto simp: sc_required_def dest: sc_value_shorter split: if_splits)

lemma hfsc_get_sc_shorter:
  assumes "hfsc_get_sc core argv = Ret (out, Some (c, rest))"
  shows "length rest < length argv"
proof -
  have 1: "length rest < length argv" if "hfsc_get_sc1 core argv = Ret (out, Some (c, rest))" for out c rest
    using that unfolding hfsc_get_sc1_def
    by (auto dest!: sc_then_some sc_required_shorter sc_optional_shorter)
  have 2: "length rest < length argv" if "hfsc_get_sc2 core argv = Ret (out, Some (c, rest))" for out c rest
    using that unfolding hfsc_get_sc2_def
    by (auto dest!: sc_then_some sc_required_shorter sc_optional_shorter split: if_splits cli.splits)
  show ?thesis
    using assms unfolding hfsc_get_sc_def
    by (auto dest!: sc_then_some 1 2 split: cli.splits prod.splits option.splits if_splits)
qed

section \<open>Options of a class\<close>

definition TCA_HFSC_RSC :: nat where "TCA_HFSC_RSC = 1"
definition TCA_HFSC_FSC :: nat where "TCA_HFSC_FSC = 2"
definition TCA_HFSC_USC :: nat where "TCA_HFSC_USC = 3"
definition TCA_HFSC_MAX :: nat where "TCA_HFSC_MAX = 3"

text \<open>A curve is there when it was given.\<close>

record hfsc_curves =
  hc_rsc :: "tc_service_curve option"
  hc_fsc :: "tc_service_curve option"
  hc_usc :: "tc_service_curve option"

definition no_curves :: hfsc_curves where
  "no_curves = \<lparr>hc_rsc = None, hc_fsc = None, hc_usc = None\<rparr>"

definition hfsc_curve :: "tc_core \<Rightarrow> string \<Rightarrow> string list \<Rightarrow> (tc_service_curve \<Rightarrow> hfsc_curves) \<Rightarrow> hfsc_curves sc_result" where
  "hfsc_curve core kw argv put =
     sc_then (sc_next argv) (\<lambda>_ argv.
       case hfsc_get_sc core argv of
         Exit status msg \<Rightarrow> Exit status msg
       | Ret (out, None) \<Rightarrow> Ret (out @ hfsc_illegal kw, None)
       | Ret (out, Some (c, argv)) \<Rightarrow> Ret (out, Some (put c, argv)))"

definition hfsc_class_arg :: "tc_core \<Rightarrow> string list \<Rightarrow> hfsc_curves \<Rightarrow> hfsc_curves sc_result" where
  "hfsc_class_arg core argv v =
     (if matches (hd argv) ''rt'' = 0 then hfsc_curve core ''rt'' argv (\<lambda>c. v\<lparr>hc_rsc := Some c\<rparr>)
      else if matches (hd argv) ''ls'' = 0 then hfsc_curve core ''ls'' argv (\<lambda>c. v\<lparr>hc_fsc := Some c\<rparr>)
      else if matches (hd argv) ''sc'' = 0 then hfsc_curve core ''sc'' argv (\<lambda>c. v\<lparr>hc_rsc := Some c, hc_fsc := Some c\<rparr>)
      else if matches (hd argv) ''ul'' = 0 then hfsc_curve core ''ul'' argv (\<lambda>c. v\<lparr>hc_usc := Some c\<rparr>)
      else if matches (hd argv) ''help'' = 0 then Ret (hfsc_explain_class, None)
      else Ret (hfsc_what_is (hd argv) @ hfsc_explain_class, None))"

lemma hfsc_class_arg_shorter:
  assumes "hfsc_class_arg core argv v = Ret (out, Some (w, rest))"
  shows "length rest < length argv"
proof -
  have "length rest < length argv" if "hfsc_curve core kw argv put = Ret (out, Some (w, rest))" for kw put
    using that
    by (auto simp: hfsc_curve_def dest!: sc_then_some sc_next_shorter hfsc_get_sc_shorter split: cli.splits prod.splits option.splits)
  then show ?thesis using assms by (auto simp: hfsc_class_arg_def split: if_splits)
qed

function hfsc_class_args :: "tc_core \<Rightarrow> string list \<Rightarrow> hfsc_curves \<Rightarrow> string \<Rightarrow> (string + hfsc_curves \<times> string) cli" where
  "hfsc_class_args core argv v err =
     (if argv = [] then Ret (Inr (v, err))
      else case hfsc_class_arg core argv v of
             Exit status msg \<Rightarrow> Exit status (err @ msg)
           | Ret (out, None) \<Rightarrow> Ret (Inl (err @ out))
           | Ret (out, Some (v, rest)) \<Rightarrow> hfsc_class_args core (tl rest) v (err @ out))"
  by pat_completeness auto

termination
  by (relation "measure (\<lambda>(_, argv, _). length argv)") (auto dest!: hfsc_class_arg_shorter)

declare hfsc_class_args.simps [simp del]

definition hfsc_attrs :: "hfsc_curves \<Rightarrow> attr list" where
  "hfsc_attrs v =
     (case hc_rsc v of None \<Rightarrow> [] | Some c \<Rightarrow> [(word_of_nat TCA_HFSC_RSC, sc_bytes c)])
     @ (case hc_fsc v of None \<Rightarrow> [] | Some c \<Rightarrow> [(word_of_nat TCA_HFSC_FSC, sc_bytes c)])
     @ (case hc_usc v of None \<Rightarrow> [] | Some c \<Rightarrow> [(word_of_nat TCA_HFSC_USC, sc_bytes c)])"

definition hfsc_made :: "hfsc_curves \<Rightarrow> string + string \<times> attr list" where
  "hfsc_made v =
     (if hc_rsc v = None \<and> hc_fsc v = None \<and> hc_usc v = None then Inl (''HFSC: no parameters given'' @ nl @ hfsc_explain_class)
      else if hc_usc v \<noteq> None \<and> hc_fsc v = None
      then Inl (''HFSC: Upper-limit Service Curve without Link-Share Service Curve'' @ nl @ hfsc_explain_class)
      else Inr ([], hfsc_attrs v))"

definition hfsc_parse_class_opt :: "tc_core \<Rightarrow> string list \<Rightarrow> nlmsg \<Rightarrow> (int \<times> string \<times> nlmsg) cli" where
  "hfsc_parse_class_opt core argv n =
     (case hfsc_class_args core argv no_curves [] of
        Exit status msg \<Rightarrow> Exit status msg
      | Ret (Inl msg) \<Rightarrow> Ret (- 1, msg, n)
      | Ret (Inr (v, err)) \<Rightarrow> send_nested (hfsc_made v) err n)"

definition hfsc_print_sc :: "tc_core \<Rightarrow> bool \<Rightarrow> string \<Rightarrow> tc_service_curve \<Rightarrow> string" where
  "hfsc_print_sc core use_iec name c =
     name @ '' m1 '' @ sprint_rate use_iec (sc_m1 c) @ '' d '' @ sprint_time (tc_core_ktime2time core (sc_d c))
     @ '' m2 '' @ sprint_rate use_iec (sc_m2 c) @ '' ''"

definition show_curves :: "tc_core \<Rightarrow> bool \<Rightarrow> hfsc_curves \<Rightarrow> string" where
  "show_curves core use_iec v =
     (let sh = (\<lambda>name c. case c of None \<Rightarrow> [] | Some c \<Rightarrow> hfsc_print_sc core use_iec name c)
      in (if hc_rsc v \<noteq> None \<and> hc_fsc v \<noteq> None \<and> map_option sc_bytes (hc_rsc v) = map_option sc_bytes (hc_fsc v)
          then sh ''sc'' (hc_rsc v) else sh ''rt'' (hc_rsc v) @ sh ''ls'' (hc_fsc v))
         @ sh ''ul'' (hc_usc v))"

definition hfsc_print_class_opt :: "tc_core \<Rightarrow> bool \<Rightarrow> u8 list option \<Rightarrow> int \<times> string" where
  "hfsc_print_class_opt core use_iec opt =
     (case opt of
        None \<Rightarrow> (0, [])
      | Some rta \<Rightarrow>
          let tb = fst (parse_rtattr_nested TCA_HFSC_MAX rta)
          in (0, show_curves core use_iec \<lparr>hc_rsc = attr_value 12 sc_of_bytes (tb ! TCA_HFSC_RSC), hc_fsc = attr_value 12 sc_of_bytes (tb ! TCA_HFSC_FSC),
                hc_usc = attr_value 12 sc_of_bytes (tb ! TCA_HFSC_USC)\<rparr>))"

definition hfsc_qdisc_util :: "tc_core \<Rightarrow> bool \<Rightarrow> qdisc_util" where
  "hfsc_qdisc_util core use_iec = \<lparr>q_id = ''hfsc'', parse_qopt = Some hfsc_parse_opt, print_qopt = hfsc_print_opt,
     print_xstats = Some hfsc_print_xstats, parse_copt = Some (hfsc_parse_class_opt core),
     print_copt = Some (hfsc_print_class_opt core use_iec)\<rparr>"

section \<open>What is sent and printed\<close>

text \<open>The curves a class is given are the curves that are printed.\<close>

definition hfsc_reads :: "tc_core \<Rightarrow> string list \<Rightarrow> hfsc_curves \<Rightarrow> bool" where
  "hfsc_reads core argv v \<longleftrightarrow> (\<exists>err. hfsc_class_args core argv no_curves [] = Ret (Inr (v, err)))"

definition hfsc_accepts :: "tc_core \<Rightarrow> string list \<Rightarrow> nat \<Rightarrow> (u8 list \<Rightarrow> bool) \<Rightarrow> bool" where
  "hfsc_accepts core argv k P \<longleftrightarrow>
     (\<exists>v as. hfsc_reads core argv v \<and> hfsc_made v = Inr ([], as) \<and> k = attrs_size as \<and> P = (\<lambda>bs. holds_attrs bs as))"

lemma hfsc_made_attrs:
  assumes "hfsc_made v = Inr (w, as)"
  shows "as = hfsc_attrs v" "as \<noteq> []" "attrs_size as \<le> 48"
  using assms
  by (auto simp: hfsc_made_def hfsc_attrs_def attr_size_def RTA_ALIGN_def split: if_splits option.splits)

interpretation hfsc_class: qdisc_parser "hfsc_parse_class_opt core" "hfsc_accepts core" 600 for core
proof (unfold_locales, goal_cases)
  case (1 argv k P n)
  then obtain v err as where v: "hfsc_class_args core argv no_curves [] = Ret (Inr (v, err))" "hfsc_made v = Inr ([], as)"
    "k = attrs_size as" "P = (\<lambda>bs. holds_attrs bs as)"
    by (auto simp: hfsc_accepts_def hfsc_reads_def)
  note s = hfsc_made_attrs [OF v(2)]
  have "options_added n (nest_options 1024 as n) (attrs_size as) (\<lambda>bs. holds_attrs bs as)"
    by (rule nested_class_added) (use s 1 in auto)
  then show ?case using v by (auto simp: hfsc_parse_class_opt_def send_nested_def)
next
  case (2 argv k P)
  then show ?case using hfsc_made_attrs attrs_size_dvd by (fastforce simp: hfsc_accepts_def)
qed simp

lemma curves_printed:
  assumes "hfsc_made v = Inr (w, as)" "holds_attrs (rta_payload rta) as" "RTA_PAYLOAD rta = int (attrs_size as)"
  shows "hfsc_print_class_opt core use_iec (Some rta) = (0, show_curves core use_iec v)"
proof -
  let ?tb = "fst (parse_rtattr_nested TCA_HFSC_MAX rta)"
  have sz: "attrs_size as < 2 ^ 16" using hfsc_made_attrs(3) [OF assms(1)] by simp
  have h: "holds_attrs (RTA_DATA rta) as"
    by (rule holds_attrs_take [OF assms(2)]) (simp add: rta_payload_def assms(3))
  have in_: "attr_value 12 sc_of_bytes (?tb ! t) = c" if "t \<le> TCA_HFSC_MAX" "attr_map as t = map_option sc_bytes c" for t c
    using attr_value_found(1) [OF h assms(3) sz that, of 12 sc_of_bytes] by (simp add: parse_rtattr_nested_def)
  have "attr_map as TCA_HFSC_RSC = map_option sc_bytes (hc_rsc v)" "attr_map as TCA_HFSC_FSC = map_option sc_bytes (hc_fsc v)"
    "attr_map as TCA_HFSC_USC = map_option sc_bytes (hc_usc v)"
    by (simp_all add: hfsc_made_attrs(1) [OF assms(1)] hfsc_attrs_def attr_map_def TCA_HFSC_RSC_def TCA_HFSC_FSC_def TCA_HFSC_USC_def
        split: option.splits)
  then have "attr_value 12 sc_of_bytes (?tb ! TCA_HFSC_RSC) = hc_rsc v" "attr_value 12 sc_of_bytes (?tb ! TCA_HFSC_FSC) = hc_fsc v" "attr_value 12 sc_of_bytes (?tb ! TCA_HFSC_USC) = hc_usc v"
    by (intro in_; simp add: TCA_HFSC_RSC_def TCA_HFSC_FSC_def TCA_HFSC_USC_def TCA_HFSC_MAX_def)+
  then show ?thesis by (cases v) (simp add: hfsc_print_class_opt_def)
qed

end
