(* ===== verification/Q_Drr.thy ===== *)
theory Q_Drr
  imports Tc_Tables
begin

text \<open>
  Deficit round robin (\<open>tc/q_drr.c\<close>) and quick fair queueing (\<open>tc/q_qfq.c\<close>): disciplines
  without options of their own, whose classes have some. The options of a class are added to
  the message as they are read.
\<close>

section \<open>Options of a class\<close>

text \<open>The loop over the options, its state the message; the attribute that holds them gets its length at the end.\<close>

definition class_options :: "nat \<Rightarrow> (string \<Rightarrow> nlmsg \<Rightarrow> nlmsg opt_word) \<Rightarrow> string list \<Rightarrow> nlmsg \<Rightarrow> (int \<times> string \<times> nlmsg) cli" where
  "class_options maxlen word argv n =
     (let tail = NLMSG_TAIL n
      in case opt_loop word argv (snd (addattr_l n maxlen TCA_OPTIONS [])) [] of
           Exit status msg \<Rightarrow> Exit status msg
         | Ret (Inl (n, msg)) \<Rightarrow> Ret (- 1, msg, n)
         | Ret (Inr (n, err)) \<Rightarrow> Ret (0, err, set_rta_len tail (NLMSG_TAIL n - tail) n))"

section \<open>Deficit round robin\<close>

definition TCA_DRR_QUANTUM :: nat where "TCA_DRR_QUANTUM = 1"
definition TCA_DRR_MAX :: nat where "TCA_DRR_MAX = 1"

definition drr_explain :: string where
  "drr_explain = ''Usage: ... drr'' @ nl"

definition drr_explain2 :: string where
  "drr_explain2 = ''Usage: ... drr quantum SIZE'' @ nl"

definition drr_parse_opt :: "string list \<Rightarrow> nlmsg \<Rightarrow> (int \<times> string \<times> nlmsg) cli" where
  "drr_parse_opt argv n =
     (case argv of
        [] \<Rightarrow> Ret (0, [], n)
      | kw # _ \<Rightarrow> Ret (- 1, if kw = ''help'' then drr_explain else what_is kw @ drr_explain, n))"

definition drr_class_word :: "string \<Rightarrow> nlmsg \<Rightarrow> nlmsg opt_word" where
  "drr_class_word kw n =
     (if kw = ''quantum'' then Value [] (\<lambda>s. read_opt ''quantum'' (get_size s)
         (\<lambda>x. snd (addattr_l n 1024 (word_of_nat TCA_DRR_QUANTUM) (le32_bytes x))))
      else if kw = ''help'' then Flag (Reject drr_explain2)
      else Flag (Reject (what_is kw @ drr_explain2)))"

definition drr_parse_class_opt :: "string list \<Rightarrow> nlmsg \<Rightarrow> (int \<times> string \<times> nlmsg) cli" where
  "drr_parse_class_opt = class_options 1024 drr_class_word"

definition drr_print_opt :: "u8 list option \<Rightarrow> int \<times> string" where
  "drr_print_opt opt =
     (case opt of
        None \<Rightarrow> (0, [])
      | Some rta \<Rightarrow>
          (case fst (parse_rtattr_nested TCA_DRR_MAX rta) ! TCA_DRR_QUANTUM of
             None \<Rightarrow> (0, [])
           | Some a \<Rightarrow> (0, ''quantum '' @ sprint_size (le32 (RTA_DATA a)) @ '' '')))"

definition drr_print_xstats :: "u8 list option \<Rightarrow> int \<times> string" where
  "drr_print_xstats xstats =
     (case xstats of
        None \<Rightarrow> (0, [])
      | Some rta \<Rightarrow> if RTA_PAYLOAD rta < 4 then (- 1, []) else (0, '' deficit '' @ sprint_size (le32 (RTA_DATA rta)) @ '' ''))"

definition drr_qdisc_util :: qdisc_util where
  "drr_qdisc_util = \<lparr>q_id = ''drr'', parse_qopt = Some drr_parse_opt, print_qopt = drr_print_opt,
     print_xstats = Some drr_print_xstats, parse_copt = Some drr_parse_class_opt, print_copt = Some drr_print_opt\<rparr>"

section \<open>Quick fair queueing\<close>

definition TCA_QFQ_WEIGHT :: nat where "TCA_QFQ_WEIGHT = 1"
definition TCA_QFQ_LMAX :: nat where "TCA_QFQ_LMAX = 2"
definition TCA_QFQ_MAX :: nat where "TCA_QFQ_MAX = 2"

definition qfq_explain :: string where
  "qfq_explain = ''Usage: ... qfq'' @ nl"

definition qfq_explain_class :: string where
  "qfq_explain_class = ''Usage: ... qfq weight NUMBER maxpkt BYTES'' @ nl"

definition qfq_parse_opt :: "string list \<Rightarrow> nlmsg \<Rightarrow> (int \<times> string \<times> nlmsg) cli" where
  "qfq_parse_opt argv n =
     (case argv of
        [] \<Rightarrow> Ret (0, [], n)
      | kw # _ \<Rightarrow> Ret (- 1, if matches kw ''help'' = 0 then qfq_explain else what_is kw @ qfq_explain, n))"

definition qfq_class_word :: "string \<Rightarrow> nlmsg \<Rightarrow> nlmsg opt_word" where
  "qfq_class_word kw n =
     (if matches kw ''weight'' = 0 then Value [] (\<lambda>s. read_opt ''weight'' (get_u32 s 10)
         (\<lambda>x. snd (addattr32 n 4096 (word_of_nat TCA_QFQ_WEIGHT) x)))
      else if matches kw ''maxpkt'' = 0 then Value [] (\<lambda>s. read_opt ''maxpkt'' (get_u32 s 10)
         (\<lambda>x. snd (addattr32 n 4096 (word_of_nat TCA_QFQ_LMAX) x)))
      else if kw = ''help'' then Flag (Reject qfq_explain_class)
      else Flag (Reject (what_is kw @ qfq_explain_class)))"

definition qfq_parse_class_opt :: "string list \<Rightarrow> nlmsg \<Rightarrow> (int \<times> string \<times> nlmsg) cli" where
  "qfq_parse_class_opt = class_options 4096 qfq_class_word"

definition qfq_print_opt :: "u8 list option \<Rightarrow> int \<times> string" where
  "qfq_print_opt opt =
     (case opt of
        None \<Rightarrow> (0, [])
      | Some rta \<Rightarrow>
          let tb = fst (parse_rtattr_nested TCA_QFQ_MAX rta)
          in (0, (case tb ! TCA_QFQ_WEIGHT of None \<Rightarrow> [] | Some a \<Rightarrow> ''weight '' @ show_u32 (le32 (RTA_DATA a)) @ '' '')
                 @ (case tb ! TCA_QFQ_LMAX of None \<Rightarrow> [] | Some a \<Rightarrow> ''maxpkt '' @ show_u32 (le32 (RTA_DATA a)) @ '' '')))"

definition qfq_qdisc_util :: qdisc_util where
  "qfq_qdisc_util = \<lparr>q_id = ''qfq'', parse_qopt = Some qfq_parse_opt, print_qopt = qfq_print_opt,
     print_xstats = None, parse_copt = Some qfq_parse_class_opt, print_copt = Some qfq_print_opt\<rparr>"

section \<open>The options arrive\<close>

text \<open>The options of a class as a list of attributes, in the order they were given.\<close>

definition drr_attr_word :: "string \<Rightarrow> attr list \<Rightarrow> attr list opt_word" where
  "drr_attr_word kw as =
     (if kw = ''quantum'' then Value [] (\<lambda>s. read_opt ''quantum'' (get_size s) (\<lambda>x. as @ [(word_of_nat TCA_DRR_QUANTUM, le32_bytes x)]))
      else if kw = ''help'' then Flag (Reject drr_explain2)
      else Flag (Reject (what_is kw @ drr_explain2)))"

definition qfq_attr_word :: "string \<Rightarrow> attr list \<Rightarrow> attr list opt_word" where
  "qfq_attr_word kw as =
     (if matches kw ''weight'' = 0 then Value [] (\<lambda>s. read_opt ''weight'' (get_u32 s 10) (\<lambda>x. as @ [(word_of_nat TCA_QFQ_WEIGHT, le32_bytes x)]))
      else if matches kw ''maxpkt'' = 0 then Value [] (\<lambda>s. read_opt ''maxpkt'' (get_u32 s 10) (\<lambda>x. as @ [(word_of_nat TCA_QFQ_LMAX, le32_bytes x)]))
      else if kw = ''help'' then Flag (Reject qfq_explain_class)
      else Flag (Reject (what_is kw @ qfq_explain_class)))"

lemma addattr32_eq: "addattr32 n maxlen t x = addattr_l n maxlen t (le32_bytes x)"
  by (simp add: addattr32_def addattr_l_def RTA_ALIGN_def)

lemma add_all_snoc: "snd (add_all maxlen (as @ [(t, d)]) n) = snd (addattr_l (snd (add_all maxlen as n)) maxlen t d)"
proof (induction as arbitrary: n)
  case (Cons a as)
  have "snd (add_all maxlen (a # bs) n) = snd (add_all maxlen bs (snd (addattr_l n maxlen (fst a) (snd a))))" for bs
    by (cases a) (simp split: prod.splits)
  then show ?case using Cons by simp
qed (simp split: prod.splits)

lemma map_read_opt: "map_opt_step h (read_opt kw x put) = read_opt kw x (h \<circ> put)"
  by (simp add: read_opt_def split: option.splits)

text \<open>The parser of a class adds the attributes read, and nests them.\<close>

lemma class_options_nest:
  assumes "\<And>kw as. word' kw (snd (add_all maxlen as (snd (addattr_l n maxlen TCA_OPTIONS [])))) =
      map_opt_word (\<lambda>as. snd (add_all maxlen as (snd (addattr_l n maxlen TCA_OPTIONS [])))) (word kw as)"
    and "opt_loop word argv [] [] = Ret (Inr (as, err))"
  shows "class_options maxlen word' argv n = Ret (0, err, nest_options maxlen as n)"
proof -
  let ?h = "\<lambda>as. snd (add_all maxlen as (snd (addattr_l n maxlen TCA_OPTIONS [])))"
  have "opt_loop word' argv (?h []) [] = map_cli (map_sum (apfst ?h) (apfst ?h)) (opt_loop word argv [] [])"
    by (rule opt_loop_map) (rule assms(1))
  then show ?thesis by (simp add: assms(2) class_options_def nest_options_def Let_def)
qed

lemma drr_class_nest:
  "opt_loop drr_attr_word argv [] [] = Ret (Inr (as, err)) \<Longrightarrow> drr_parse_class_opt argv n = Ret (0, err, nest_options 1024 as n)"
  unfolding drr_parse_class_opt_def
  by (rule class_options_nest)
    (simp_all add: drr_class_word_def drr_attr_word_def add_all_snoc map_read_opt comp_def fun_eq_iff)

lemma qfq_class_nest:
  "opt_loop qfq_attr_word argv [] [] = Ret (Inr (as, err)) \<Longrightarrow> qfq_parse_class_opt argv n = Ret (0, err, nest_options 4096 as n)"
  unfolding qfq_parse_class_opt_def
  by (rule class_options_nest)
    (simp_all add: qfq_class_word_def qfq_attr_word_def add_all_snoc addattr32_eq map_read_opt comp_def fun_eq_iff)

definition class_accepts :: "(string \<Rightarrow> attr list \<Rightarrow> attr list opt_word) \<Rightarrow> string list \<Rightarrow> nat \<Rightarrow> (u8 list \<Rightarrow> bool) \<Rightarrow> bool" where
  "class_accepts word argv k P \<longleftrightarrow>
     (\<exists>as. reads_options word [] argv as \<and> as \<noteq> [] \<and> attrs_size as \<le> 400 \<and> k = attrs_size as \<and> P = (\<lambda>bs. holds_attrs bs as))"

interpretation drr_class: qdisc_parser drr_parse_class_opt "class_accepts drr_attr_word" 600
proof (unfold_locales, goal_cases)
  case (1 argv k P n)
  then obtain as err where "opt_loop drr_attr_word argv [] [] = Ret (Inr (as, err))" "as \<noteq> []" "attrs_size as \<le> 400"
    "k = attrs_size as" "P = (\<lambda>bs. holds_attrs bs as)"
    by (auto simp: class_accepts_def reads_options_def)
  then show ?case using drr_class_nest nested_class_added [of as n 1024] 1(2-4) by auto
qed (auto simp: class_accepts_def attrs_size_dvd)

interpretation qfq_class: qdisc_parser qfq_parse_class_opt "class_accepts qfq_attr_word" 600
proof (unfold_locales, goal_cases)
  case (1 argv k P n)
  then obtain as err where "opt_loop qfq_attr_word argv [] [] = Ret (Inr (as, err))" "as \<noteq> []" "attrs_size as \<le> 400"
    "k = attrs_size as" "P = (\<lambda>bs. holds_attrs bs as)"
    by (auto simp: class_accepts_def reads_options_def)
  then show ?case using qfq_class_nest nested_class_added [of as n 4096] 1(2-4) by auto
qed (auto simp: class_accepts_def attrs_size_dvd)

end
