(* ===== verification/Q_Dsmark.thy ===== *)
theory Q_Dsmark
  imports Q_Drr
begin

text \<open>
  Marking of the service field (\<open>tc/q_dsmark.c\<close>): options of the discipline and of its classes.
  Warnings a printer writes to the standard error output are not part of its result.
\<close>

section \<open>Options\<close>

definition TCA_DSMARK_INDICES :: nat where "TCA_DSMARK_INDICES = 1"
definition TCA_DSMARK_DEFAULT_INDEX :: nat where "TCA_DSMARK_DEFAULT_INDEX = 2"
definition TCA_DSMARK_SET_TC_INDEX :: nat where "TCA_DSMARK_SET_TC_INDEX = 3"
definition TCA_DSMARK_MASK :: nat where "TCA_DSMARK_MASK = 4"
definition TCA_DSMARK_VALUE :: nat where "TCA_DSMARK_VALUE = 5"
definition TCA_DSMARK_MAX :: nat where "TCA_DSMARK_MAX = 5"

definition dsmark_explain :: string where
  "dsmark_explain = ''Usage: dsmark indices INDICES [ default_index DEFAULT_INDEX ] [ set_tc_index ]'' @ nl"

definition dsmark_explain_class :: string where
  "dsmark_explain_class = ''Usage: ... dsmark [ mask MASK ] [ value VALUE ]'' @ nl"

text \<open>A number that is the whole text; the empty text is zero.\<close>

definition whole_ulong :: "string \<Rightarrow> u64 option" where
  "whole_ulong a = (let (v, rest) = strtoul a 0 in if rest \<noteq> [] then None else Some v)"

record dsmark_vars =
  dv_ind :: u16
  dv_dflt :: s32
  dv_set_tc_index :: bool

definition dsmark_init :: dsmark_vars where
  "dsmark_init = \<lparr>dv_ind = 0, dv_dflt = - 1, dv_set_tc_index = False\<rparr>"

definition dsmark_word :: "string \<Rightarrow> dsmark_vars \<Rightarrow> dsmark_vars opt_word" where
  "dsmark_word kw v =
     (if kw = ''indices'' then Value [] (\<lambda>a. case whole_ulong a of None \<Rightarrow> Reject dsmark_explain | Some x \<Rightarrow> Next (v\<lparr>dv_ind := ucast x\<rparr>) [])
      else if kw = ''default_index'' \<or> kw = ''default'' then
        Value [] (\<lambda>a. case whole_ulong a of None \<Rightarrow> Reject dsmark_explain | Some x \<Rightarrow> Next (v\<lparr>dv_dflt := ucast x\<rparr>) [])
      else if kw = ''set_tc_index'' then Flag (Next (v\<lparr>dv_set_tc_index := True\<rparr>) [])
      else Flag (Reject dsmark_explain))"

definition dsmark_made :: "dsmark_vars \<Rightarrow> string + string \<times> attr list" where
  "dsmark_made v =
     (if dv_ind v = 0 then Inl dsmark_explain
      else Inr ([], [(word_of_nat TCA_DSMARK_INDICES, le16_bytes (dv_ind v))]
        @ (if dv_dflt v \<noteq> - 1 then [(word_of_nat TCA_DSMARK_DEFAULT_INDEX, le16_bytes (ucast (dv_dflt v)))] else [])
        @ (if dv_set_tc_index v then [(word_of_nat TCA_DSMARK_SET_TC_INDEX, [])] else [])))"

definition dsmark_parse_opt :: "string list \<Rightarrow> nlmsg \<Rightarrow> (int \<times> string \<times> nlmsg) cli" where
  "dsmark_parse_opt = run_options dsmark_word dsmark_init (\<lambda>v. send_nested (dsmark_made v))"

definition dsmark_class_word :: "string \<Rightarrow> nlmsg \<Rightarrow> nlmsg opt_word" where
  "dsmark_class_word kw n =
     (let add = (\<lambda>t a. case whole_ulong a of
          None \<Rightarrow> Reject dsmark_explain_class
        | Some x \<Rightarrow> Next (snd (addattr_l n 1024 (word_of_nat t) [ucast x])) [])
      in if kw = ''mask'' then Value [] (add TCA_DSMARK_MASK)
         else if kw = ''value'' then Value [] (add TCA_DSMARK_VALUE)
         else Flag (Reject dsmark_explain_class))"

definition dsmark_parse_class_opt :: "string list \<Rightarrow> nlmsg \<Rightarrow> (int \<times> string \<times> nlmsg) cli" where
  "dsmark_parse_class_opt = class_options 1024 dsmark_class_word"

section \<open>Printing\<close>

definition zero_hex :: "nat \<Rightarrow> nat \<Rightarrow> string" where
  "zero_hex k w = (let s = show_hex w in replicate (k - length s) (CHR ''0'') @ s)"

definition show_dsmark :: "u8 option \<Rightarrow> u8 option \<Rightarrow> u16 option \<Rightarrow> u16 option \<Rightarrow> bool \<Rightarrow> string" where
  "show_dsmark msk val ind dflt set_index =
     (case msk of None \<Rightarrow> [] | Some x \<Rightarrow> ''mask 0x'' @ zero_hex 2 (unat x) @ '' '')
     @ (case val of None \<Rightarrow> [] | Some x \<Rightarrow> ''value 0x'' @ zero_hex 2 (unat x) @ '' '')
     @ (case ind of None \<Rightarrow> [] | Some x \<Rightarrow> ''indices 0x'' @ zero_hex 4 (unat x) @ '' '')
     @ (case dflt of None \<Rightarrow> [] | Some x \<Rightarrow> ''default_index 0x'' @ zero_hex 4 (unat x) @ '' '')
     @ (if set_index then ''set_tc_index '' else [])"

definition dsmark_print_opt :: "u8 list option \<Rightarrow> int \<times> string" where
  "dsmark_print_opt opt =
     (case opt of
        None \<Rightarrow> (0, [])
      | Some rta \<Rightarrow>
          let tb = fst (parse_rtattr TCA_DSMARK_MAX (RTA_DATA rta) (RTA_PAYLOAD rta))
          in (0, show_dsmark (attr_value 1 hd (tb ! TCA_DSMARK_MASK)) (attr_value 1 hd (tb ! TCA_DSMARK_VALUE))
                (attr_value 2 le16 (tb ! TCA_DSMARK_INDICES)) (attr_value 2 le16 (tb ! TCA_DSMARK_DEFAULT_INDEX))
                (tb ! TCA_DSMARK_SET_TC_INDEX \<noteq> None)))"

definition dsmark_qdisc_util :: qdisc_util where
  "dsmark_qdisc_util = \<lparr>q_id = ''dsmark'', parse_qopt = Some dsmark_parse_opt, print_qopt = dsmark_print_opt,
     print_xstats = None, parse_copt = Some dsmark_parse_class_opt, print_copt = Some dsmark_print_opt\<rparr>"

section \<open>What is sent and printed\<close>

text \<open>The printer shows every attribute that is there.\<close>

lemma dsmark_printed:
  assumes "holds_attrs (rta_payload rta) as" "RTA_PAYLOAD rta = int (attrs_size as)" "attrs_size as < 2 ^ 16"
    and "attr_map as TCA_DSMARK_MASK = map_option (\<lambda>x. [x]) m" "attr_map as TCA_DSMARK_VALUE = map_option (\<lambda>x. [x]) w"
    and "attr_map as TCA_DSMARK_INDICES = map_option le16_bytes i" "attr_map as TCA_DSMARK_DEFAULT_INDEX = map_option le16_bytes d"
  shows "dsmark_print_opt (Some rta) = (0, show_dsmark m w i d (attr_map as TCA_DSMARK_SET_TC_INDEX \<noteq> None))"
proof -
  have le: "TCA_DSMARK_MASK \<le> TCA_DSMARK_MAX" "TCA_DSMARK_VALUE \<le> TCA_DSMARK_MAX" "TCA_DSMARK_INDICES \<le> TCA_DSMARK_MAX"
    "TCA_DSMARK_DEFAULT_INDEX \<le> TCA_DSMARK_MAX" "TCA_DSMARK_SET_TC_INDEX \<le> TCA_DSMARK_MAX"
    by (simp_all add: TCA_DSMARK_MASK_def TCA_DSMARK_VALUE_def TCA_DSMARK_INDICES_def TCA_DSMARK_DEFAULT_INDEX_def
        TCA_DSMARK_SET_TC_INDEX_def TCA_DSMARK_MAX_def)
  let ?tb = "fst (parse_rtattr TCA_DSMARK_MAX (RTA_DATA rta) (RTA_PAYLOAD rta))"
  have h: "holds_attrs (RTA_DATA rta) as"
    by (rule holds_attrs_take [OF assms(1)]) (simp add: rta_payload_def assms(2))
  note f = attr_value_found(1) [OF h assms(2,3)]
  have "attr_value (int 1) hd (?tb ! TCA_DSMARK_MASK) = m" by (rule f [OF le(1) assms(4)]) simp_all
  moreover have "attr_value (int 1) hd (?tb ! TCA_DSMARK_VALUE) = w" by (rule f [OF le(2) assms(5)]) simp_all
  moreover have "attr_value (int 2) le16 (?tb ! TCA_DSMARK_INDICES) = i" by (rule f [OF le(3) assms(6)]) simp_all
  moreover have "attr_value (int 2) le16 (?tb ! TCA_DSMARK_DEFAULT_INDEX) = d" by (rule f [OF le(4) assms(7)]) simp_all
  moreover have "?tb ! TCA_DSMARK_SET_TC_INDEX \<noteq> None \<longleftrightarrow> attr_map as TCA_DSMARK_SET_TC_INDEX \<noteq> None"
    unfolding parsed_attr [OF h assms(2,3) le(5), symmetric] by simp
  ultimately show ?thesis by (simp add: dsmark_print_opt_def)
qed

definition dsmark_shown :: "dsmark_vars \<Rightarrow> string" where
  "dsmark_shown v = show_dsmark None None (Some (dv_ind v)) (if dv_dflt v \<noteq> - 1 then Some (ucast (dv_dflt v)) else None) (dv_set_tc_index v)"

lemmas dsmark_types = TCA_DSMARK_MASK_def TCA_DSMARK_VALUE_def TCA_DSMARK_INDICES_def TCA_DSMARK_DEFAULT_INDEX_def TCA_DSMARK_SET_TC_INDEX_def

interpretation dsmark: nested_options dsmark_word dsmark_init dsmark_made dsmark_print_opt dsmark_shown
proof (unfold_locales, goal_cases)
  case (1 v w as)
  then show ?case by (auto simp: dsmark_made_def attr_size_def RTA_ALIGN_def split: if_splits)
next
  case (2 v w as rta)
  have m: "attr_map as TCA_DSMARK_MASK = map_option (\<lambda>x. [x]) None" "attr_map as TCA_DSMARK_VALUE = map_option (\<lambda>x. [x]) None"
    "attr_map as TCA_DSMARK_INDICES = map_option le16_bytes (Some (dv_ind v))"
    "attr_map as TCA_DSMARK_DEFAULT_INDEX = map_option le16_bytes (if dv_dflt v \<noteq> - 1 then Some (ucast (dv_dflt v)) else None)"
    "attr_map as TCA_DSMARK_SET_TC_INDEX \<noteq> None \<longleftrightarrow> dv_set_tc_index v"
    using 2(1) by (auto simp: dsmark_made_def attr_map_def dsmark_types split: if_splits)
  from dsmark_printed [OF 2(2-4) m(1-4)] show ?case unfolding m(5) dsmark_shown_def .
qed

definition dsmark_attr_word :: "string \<Rightarrow> attr list \<Rightarrow> attr list opt_word" where
  "dsmark_attr_word kw as =
     (let add = (\<lambda>t a. case whole_ulong a of
          None \<Rightarrow> Reject dsmark_explain_class
        | Some x \<Rightarrow> Next (as @ [(word_of_nat t, [ucast x])]) [])
      in if kw = ''mask'' then Value [] (add TCA_DSMARK_MASK)
         else if kw = ''value'' then Value [] (add TCA_DSMARK_VALUE)
         else Flag (Reject dsmark_explain_class))"

lemma dsmark_class_nest:
  "opt_loop dsmark_attr_word argv [] [] = Ret (Inr (as, err)) \<Longrightarrow> dsmark_parse_class_opt argv n = Ret (0, err, nest_options 1024 as n)"
  unfolding dsmark_parse_class_opt_def
  by (rule class_options_nest)
    (simp_all add: dsmark_class_word_def dsmark_attr_word_def add_all_snoc fun_eq_iff Let_def split: option.splits)

lemma dsmark_class_types:
  assumes "reads_options dsmark_attr_word [] argv as"
  shows "attr_map as TCA_DSMARK_INDICES = None" "attr_map as TCA_DSMARK_DEFAULT_INDEX = None" "attr_map as TCA_DSMARK_SET_TC_INDEX = None"
proof -
  let ?I = "\<lambda>as :: attr list. \<forall>a \<in> set as. fst a = word_of_nat TCA_DSMARK_MASK \<or> fst a = word_of_nat TCA_DSMARK_VALUE"
  obtain err where "opt_loop dsmark_attr_word argv [] [] = Ret (Inr (as, err))" using assms by (auto simp: reads_options_def)
  then have "?I as"
    by (rule opt_loop_keeps [rotated 2]) (auto simp: dsmark_attr_word_def Let_def split: if_splits option.splits)
  then show "attr_map as TCA_DSMARK_INDICES = None" "attr_map as TCA_DSMARK_DEFAULT_INDEX = None" "attr_map as TCA_DSMARK_SET_TC_INDEX = None"
    by (force simp: attr_map_def map_of_eq_None_iff dsmark_types)+
qed

interpretation dsmark_class: qdisc_parser dsmark_parse_class_opt "class_accepts dsmark_attr_word" 600
proof (unfold_locales, goal_cases)
  case (1 argv k P n)
  then obtain as err where "opt_loop dsmark_attr_word argv [] [] = Ret (Inr (as, err))" "as \<noteq> []" "attrs_size as \<le> 400"
    "k = attrs_size as" "P = (\<lambda>bs. holds_attrs bs as)"
    by (auto simp: class_accepts_def reads_options_def)
  then show ?case using dsmark_class_nest nested_class_added [of as n 1024] 1(2-4) by auto
qed (auto simp: class_accepts_def attrs_size_dvd)

end
