(* ===== verification/Q_Netem.thy ===== *)
theory Q_Netem
  imports Tc_Tables
begin

text \<open>
  The network emulator (\<open>tc/q_netem.c\<close>): delays, losses and their correlations, a distribution
  read from a file, and printing. The options lie in the message as a structure with attributes
  behind it. The files and the texts of system errors are arguments; warnings a printer writes
  to the standard error output are not part of its result.
\<close>

definition TCA_NETEM_CORR :: nat where "TCA_NETEM_CORR = 1"
definition TCA_NETEM_DELAY_DIST :: nat where "TCA_NETEM_DELAY_DIST = 2"
definition TCA_NETEM_REORDER :: nat where "TCA_NETEM_REORDER = 3"
definition TCA_NETEM_CORRUPT :: nat where "TCA_NETEM_CORRUPT = 4"
definition TCA_NETEM_MAX :: nat where "TCA_NETEM_MAX = 5"
definition MAX_DIST :: nat where "MAX_DIST = 16 * 1024"

section \<open>Structures\<close>

record tc_netem_qopt =
  ne_latency :: u32
  ne_limit :: u32
  ne_loss :: u32
  ne_gap :: u32
  ne_duplicate :: u32
  ne_jitter :: u32

definition netem_bytes :: "tc_netem_qopt \<Rightarrow> u8 list" where
  "netem_bytes q = le32_bytes (ne_latency q) @ le32_bytes (ne_limit q) @ le32_bytes (ne_loss q) @ le32_bytes (ne_gap q)
     @ le32_bytes (ne_duplicate q) @ le32_bytes (ne_jitter q)"

definition netem_of_bytes :: "u8 list \<Rightarrow> tc_netem_qopt" where
  "netem_of_bytes bs = \<lparr>ne_latency = le32 bs, ne_limit = le32 (drop 4 bs), ne_loss = le32 (drop 8 bs), ne_gap = le32 (drop 12 bs),
     ne_duplicate = le32 (drop 16 bs), ne_jitter = le32 (drop 20 bs)\<rparr>"

record tc_netem_corr =
  nc_delay :: u32
  nc_loss :: u32
  nc_dup :: u32

definition corr_bytes :: "tc_netem_corr \<Rightarrow> u8 list" where
  "corr_bytes c = le32_bytes (nc_delay c) @ le32_bytes (nc_loss c) @ le32_bytes (nc_dup c)"

definition corr_of_bytes :: "u8 list \<Rightarrow> tc_netem_corr" where
  "corr_of_bytes bs = \<lparr>nc_delay = le32 bs, nc_loss = le32 (drop 4 bs), nc_dup = le32 (drop 8 bs)\<rparr>"

text \<open>Reordering and corruption: a probability and a correlation each.\<close>

definition chance_bytes :: "u32 \<times> u32 \<Rightarrow> u8 list" where
  "chance_bytes p = le32_bytes (fst p) @ le32_bytes (snd p)"

definition chance_of_bytes :: "u8 list \<Rightarrow> u32 \<times> u32" where
  "chance_of_bytes bs = (le32 bs, le32 (drop 4 bs))"

lemma netem_bytes [simp]: "length (netem_bytes q) = 24" "netem_of_bytes (netem_bytes q @ r) = q"
  by (simp_all add: netem_bytes_def netem_of_bytes_def)

lemma corr_bytes [simp]: "length (corr_bytes c) = 12" "corr_of_bytes (corr_bytes c @ r) = c"
  by (simp_all add: corr_bytes_def corr_of_bytes_def)

lemma chance_bytes [simp]: "length (chance_bytes p) = 8" "chance_of_bytes (chance_bytes p @ r) = p"
  by (simp_all add: chance_bytes_def chance_of_bytes_def)

text \<open>The distribution holds what was read, and its length, negative after an error.\<close>

record netem_vars =
  nv_opt :: tc_netem_qopt
  nv_cor :: tc_netem_corr
  nv_reorder :: "u32 \<times> u32"
  nv_corrupt :: "u32 \<times> u32"
  nv_has_corr :: bool
  nv_has_reorder :: bool
  nv_has_corrupt :: bool
  nv_dist :: "(int \<times> u16 list) option"

definition netem_init :: netem_vars where
  "netem_init = \<lparr>nv_opt = \<lparr>ne_latency = 0, ne_limit = 1000, ne_loss = 0, ne_gap = 0, ne_duplicate = 0, ne_jitter = 0\<rparr>,
     nv_cor = \<lparr>nc_delay = 0, nc_loss = 0, nc_dup = 0\<rparr>, nv_reorder = (0, 0), nv_corrupt = (0, 0),
     nv_has_corr = False, nv_has_reorder = False, nv_has_corrupt = False, nv_dist = None\<rparr>"

definition netem_explain :: string where
  "netem_explain = ''Usage: ... netem [ limit PACKETS ] '' @ nl
     @ ''                 [ delay TIME [ JITTER [CORRELATION]]]'' @ nl
     @ ''                 [ distribution {uniform|normal|pareto|paretonormal} ]'' @ nl
     @ ''                 [ drop PERCENT [CORRELATION]] '' @ nl
     @ ''                 [ corrupt PERCENT [CORRELATION]] '' @ nl
     @ ''                 [ duplicate PERCENT [CORRELATION]]'' @ nl
     @ ''                 [ reorder PRECENT [CORRELATION] [ gap DISTANCE ]]'' @ nl"

section \<open>Distributions\<close>

text \<open>The lines of a file with their ends, as \<open>getline\<close> returns them.\<close>

fun getlines :: "string \<Rightarrow> string \<Rightarrow> string list" where
  "getlines cur [] = (if cur = [] then [] else [cur])"
| "getlines cur (c # cs) = (if c = CHR 0x0A then (cur @ [c]) # getlines [] cs else getlines (cur @ [c]) cs)"

text \<open>The numbers at the front of a line: \<open>strtol\<close> stops where it started, or it gets on.\<close>

function line_values :: "string \<Rightarrow> u16 list" where
  "line_values p =
     (let (x, endp) = strtol p 0
      in if length endp < length p then ucast x # line_values endp else [])"
  by pat_completeness auto

termination
  by (relation "measure length") auto

declare line_values.simps [simp del]

definition file_values :: "string \<Rightarrow> u16 list" where
  "file_values content =
     concat (map line_values (filter (\<lambda>l. hd l \<noteq> CHR 0x0A \<and> hd l \<noteq> CHR ''#'') (getlines [] content)))"

record netem_lib =
  nl_core :: tc_core
  nl_tc_lib :: "string option"
  nl_fopen :: "string \<Rightarrow> string + string"

definition get_distribution :: "netem_lib \<Rightarrow> string \<Rightarrow> string \<times> int \<times> u16 list" where
  "get_distribution lib type =
     (let name = snprintf 128 (get_tc_lib (nl_tc_lib lib) @ ''/'' @ type @ ''.dist'')
      in case nl_fopen lib name of
           Inl reason \<Rightarrow> (''No distribution data for '' @ type @ '' ('' @ name @ '': '' @ reason @ '')'' @ nl, - 1, [])
         | Inr content \<Rightarrow>
             let xs = file_values content
             in if length xs > MAX_DIST then (name @ '': too much data'' @ nl, - 1, take MAX_DIST xs)
                else ([], int (length xs), xs))"

section \<open>Options\<close>

definition isnumber :: "string \<Rightarrow> bool" where
  "isnumber a = (let (v, p) = strtod a in \<not> is_zero v \<or> p \<noteq> a)"

definition get_ticks :: "tc_core \<Rightarrow> string \<Rightarrow> string + u32" where
  "get_ticks core str =
     (case get_time str of
        None \<Rightarrow> Inl []
      | Some t \<Rightarrow>
          if tc_core_time2big core t then Inl (''Illegal '' @ show_u32 t @ '' time (too large)'' @ nl)
          else Inr (tc_core_time2tick core t))"

definition percent_arg :: "string \<Rightarrow> string + u32" where
  "percent_arg a = (case get_percent a of None \<Rightarrow> Inl [] | Some v \<Rightarrow> Inr v)"

text \<open>The argument of an option, and one that is there when the next word is a number.\<close>

definition first_arg :: "string \<Rightarrow> (string \<Rightarrow> string + u32) \<Rightarrow> string list \<Rightarrow> (string + u32 \<times> string list) cli" where
  "first_arg kw rd argv =
     (case argv of
        [] \<Rightarrow> incomplete_command
      | a # rest \<Rightarrow> Ret (case rd a of Inl t \<Rightarrow> Inl (t @ illegal kw) | Inr v \<Rightarrow> Inr (v, rest)))"

definition number_arg :: "string \<Rightarrow> (string \<Rightarrow> string + u32) \<Rightarrow> string list \<Rightarrow> string + u32 option \<times> string list" where
  "number_arg kw rd argv =
     (case argv of
        [] \<Rightarrow> Inr (None, [])
      | a # rest \<Rightarrow>
          if isnumber a then (case rd a of Inl t \<Rightarrow> Inl (t @ illegal kw) | Inr v \<Rightarrow> Inr (Some v, rest))
          else Inr (None, argv))"

type_synonym netem_step = "(string + netem_vars \<times> string list) cli"

definition after_first :: "(string + u32 \<times> string list) cli \<Rightarrow> (u32 \<Rightarrow> string list \<Rightarrow> string + netem_vars \<times> string list) \<Rightarrow> netem_step" where
  "after_first r f =
     (case r of
        Exit status msg \<Rightarrow> Exit status msg
      | Ret (Inl t) \<Rightarrow> Ret (Inl t)
      | Ret (Inr (x, rest)) \<Rightarrow> Ret (f x rest))"

text \<open>A percentage and its correlation, which mostly makes the correlations present.\<close>

definition chance_arg :: "string \<Rightarrow> string list \<Rightarrow> (u32 \<Rightarrow> netem_vars) \<Rightarrow> (u32 \<Rightarrow> netem_vars \<Rightarrow> netem_vars) \<Rightarrow> netem_step" where
  "chance_arg kw argv put put_corr =
     after_first (first_arg kw percent_arg argv) (\<lambda>x rest.
       case number_arg kw percent_arg rest of
         Inl t \<Rightarrow> Inl t
       | Inr (None, rest) \<Rightarrow> Inr (put x, rest)
       | Inr (Some c, rest) \<Rightarrow> Inr (put_corr c (put x), rest))"

definition delay_arg :: "tc_core \<Rightarrow> string list \<Rightarrow> netem_vars \<Rightarrow> netem_step" where
  "delay_arg core argv v =
     after_first (first_arg ''latency'' (get_ticks core) argv) (\<lambda>x rest.
       let v = v\<lparr>nv_opt := (nv_opt v)\<lparr>ne_latency := x\<rparr>\<rparr>
       in case number_arg ''latency'' (get_ticks core) rest of
            Inl t \<Rightarrow> Inl t
          | Inr (None, rest) \<Rightarrow> Inr (v, rest)
          | Inr (Some j, rest) \<Rightarrow>
              let v = v\<lparr>nv_opt := (nv_opt v)\<lparr>ne_jitter := j\<rparr>\<rparr>
              in (case number_arg ''latency'' percent_arg rest of
                    Inl t \<Rightarrow> Inl t
                  | Inr (None, rest) \<Rightarrow> Inr (v, rest)
                  | Inr (Some c, rest) \<Rightarrow> Inr (v\<lparr>nv_has_corr := True, nv_cor := (nv_cor v)\<lparr>nc_delay := c\<rparr>\<rparr>, rest)))"

text \<open>The length of a distribution is unsigned when it is tested, so an error is not noticed here.\<close>

definition dist_arg :: "netem_lib \<Rightarrow> string list \<Rightarrow> netem_vars \<Rightarrow> (string \<times> (netem_vars \<times> string list) option) cli" where
  "dist_arg lib argv v =
     (case argv of
        [] \<Rightarrow> incomplete_command
      | a # rest \<Rightarrow>
          let (t, k, xs) = get_distribution lib a
          in Ret (t, if k = 0 then None else Some (v\<lparr>nv_dist := Some (k, xs)\<rparr>, rest)))"

definition silent :: "netem_step \<Rightarrow> (string \<times> (netem_vars \<times> string list) option) cli" where
  "silent r =
     (case r of
        Exit status msg \<Rightarrow> Exit status msg
      | Ret (Inl t) \<Rightarrow> Ret (t, None)
      | Ret (Inr x) \<Rightarrow> Ret ([], Some x))"

definition netem_arg :: "netem_lib \<Rightarrow> string \<Rightarrow> string list \<Rightarrow> netem_vars \<Rightarrow> (string \<times> (netem_vars \<times> string list) option) cli" where
  "netem_arg lib kw argv v = (let q = nv_opt v in
     if matches kw ''limit'' = 0 then
       silent (after_first (first_arg ''limit'' (\<lambda>a. case get_size a of None \<Rightarrow> Inl [] | Some x \<Rightarrow> Inr x) argv)
         (\<lambda>x rest. Inr (v\<lparr>nv_opt := q\<lparr>ne_limit := x\<rparr>\<rparr>, rest)))
     else if matches kw ''latency'' = 0 \<or> matches kw ''delay'' = 0 then silent (delay_arg (nl_core lib) argv v)
     else if matches kw ''loss'' = 0 \<or> matches kw ''drop'' = 0 then
       silent (chance_arg ''loss'' argv (\<lambda>x. v\<lparr>nv_opt := q\<lparr>ne_loss := x\<rparr>\<rparr>) (\<lambda>c v. v\<lparr>nv_has_corr := True, nv_cor := (nv_cor v)\<lparr>nc_loss := c\<rparr>\<rparr>))
     else if matches kw ''reorder'' = 0 then
       silent (chance_arg ''reorder'' argv (\<lambda>x. v\<lparr>nv_has_reorder := True, nv_reorder := (x, snd (nv_reorder v))\<rparr>)
         (\<lambda>c v. v\<lparr>nv_has_corr := True, nv_reorder := (fst (nv_reorder v), c)\<rparr>))
     else if matches kw ''corrupt'' = 0 then
       silent (chance_arg ''corrupt'' argv (\<lambda>x. v\<lparr>nv_has_corrupt := True, nv_corrupt := (x, snd (nv_corrupt v))\<rparr>)
         (\<lambda>c v. v\<lparr>nv_has_corr := True, nv_corrupt := (fst (nv_corrupt v), c)\<rparr>))
     else if matches kw ''gap'' = 0 then
       silent (after_first (first_arg ''gap'' (\<lambda>a. case get_u32 a 0 of None \<Rightarrow> Inl [] | Some x \<Rightarrow> Inr x) argv)
         (\<lambda>x rest. Inr (v\<lparr>nv_opt := q\<lparr>ne_gap := x\<rparr>\<rparr>, rest)))
     else if matches kw ''duplicate'' = 0 then
       silent (chance_arg ''duplicate'' argv (\<lambda>x. v\<lparr>nv_opt := q\<lparr>ne_duplicate := x\<rparr>\<rparr>) (\<lambda>c v. v\<lparr>nv_cor := (nv_cor v)\<lparr>nc_dup := c\<rparr>\<rparr>))
     else if matches kw ''distribution'' = 0 then dist_arg lib argv v
     else if kw = ''help'' then Ret (netem_explain, None)
     else Ret (what_is kw @ netem_explain, None))"

lemma first_arg_shorter: "first_arg kw rd argv = Ret (Inr (x, rest)) \<Longrightarrow> length rest < length argv"
  by (cases argv) (auto simp: first_arg_def incomplete_command_def split: sum.splits)

lemma number_arg_shorter: "number_arg kw rd argv = Inr (x, rest) \<Longrightarrow> length rest \<le> length argv"
  by (cases argv) (auto simp: number_arg_def split: if_splits sum.splits)

lemma netem_arg_shorter:
  assumes "netem_arg lib kw argv v = Ret (t, Some (w, rest))"
  shows "length rest \<le> length argv"
proof -
  have s: "r = Ret (Inr (w, rest))" if "silent r = Ret (t, Some (w, rest))" for r
    using that by (auto simp: silent_def split: cli.splits sum.splits)
  have a: "\<exists>x rest'. length rest' < length argv \<and> f x rest' = Inr (w, rest)" if "after_first (first_arg kw rd argv) f = Ret (Inr (w, rest))" for kw rd f
    using that first_arg_shorter by (fastforce simp: after_first_def split: cli.splits sum.splits)
  have c: "length rest \<le> length argv" if r: "chance_arg kw argv put put_corr = Ret (Inr (w, rest))" for kw put put_corr
  proof -
    obtain x rest' where p: "length rest' < length argv" "(case number_arg kw percent_arg rest' of Inl t \<Rightarrow> Inl t
       | Inr (None, rest) \<Rightarrow> Inr (put x, rest) | Inr (Some c, rest) \<Rightarrow> Inr (put_corr c (put x), rest)) = Inr (w, rest)"
      using a [OF r [unfolded chance_arg_def]] by blast
    then obtain y where "number_arg kw percent_arg rest' = Inr (y, rest)" by (auto split: sum.split_asm option.split_asm)
    then show ?thesis using number_arg_shorter p(1) by fastforce
  qed
  have d: "length rest \<le> length argv" if r: "delay_arg core argv v = Ret (Inr (w, rest))" for core
  proof -
    obtain x rest' where p: "length rest' < length argv" and q: "(let v = v\<lparr>nv_opt := (nv_opt v)\<lparr>ne_latency := x\<rparr>\<rparr> in
       case number_arg ''latency'' (get_ticks core) rest' of Inl t \<Rightarrow> Inl t | Inr (None, rest) \<Rightarrow> Inr (v, rest)
       | Inr (Some j, rest) \<Rightarrow> let v = v\<lparr>nv_opt := (nv_opt v)\<lparr>ne_jitter := j\<rparr>\<rparr> in
           (case number_arg ''latency'' percent_arg rest of Inl t \<Rightarrow> Inl t | Inr (None, rest) \<Rightarrow> Inr (v, rest)
            | Inr (Some c, rest) \<Rightarrow> Inr (v\<lparr>nv_has_corr := True, nv_cor := (nv_cor v)\<lparr>nc_delay := c\<rparr>\<rparr>, rest))) = Inr (w, rest)"
      using a [OF r [unfolded delay_arg_def]] by blast
    from q obtain y rest2 where y: "number_arg ''latency'' (get_ticks core) rest' = Inr (y, rest2)"
      by (cases "number_arg ''latency'' (get_ticks core) rest'") (auto simp: Let_def)
    show ?thesis
    proof (cases y)
      case None
      then have "rest2 = rest" using q y by simp
      then show ?thesis using number_arg_shorter [OF y] p by simp
    next
      case (Some j)
      then obtain z where "number_arg ''latency'' percent_arg rest2 = Inr (z, rest)"
        using q y by (auto simp: Let_def split: sum.split_asm option.split_asm)
      from number_arg_shorter [OF this] show ?thesis using number_arg_shorter [OF y] p by simp
    qed
  qed
  have e: "length rest \<le> length argv" if "dist_arg lib argv v = Ret (t, Some (w, rest))"
    using that by (auto simp: dist_arg_def incomplete_command_def split: list.splits prod.splits if_splits)
  have sc: "length rest \<le> length argv" if "silent (chance_arg kw argv put put_corr) = Ret (t, Some (w, rest))" for kw put put_corr
    by (rule c [OF s [OF that]])
  have sd: "length rest \<le> length argv" if "silent (delay_arg core argv v) = Ret (t, Some (w, rest))" for core
    by (rule d [OF s [OF that]])
  have sa: "length rest \<le> length argv" if "silent (after_first (first_arg kw rd argv) (\<lambda>x rest. Inr (put x, rest))) = Ret (t, Some (w, rest))" for kw rd put
    using s [OF that] a by fastforce
  have r: "length rest \<le> length argv" if "Ret (y, None) = Ret (t, Some (w, rest))" for y
    using that by simp
  show ?thesis
    using assms unfolding netem_arg_def Let_def
    by (simp only: split: if_split_asm) (erule sa sc sd e r)+
qed

text \<open>The loop over the arguments: the values, with what it said meanwhile, or that it gave up.\<close>

function netem_args :: "netem_lib \<Rightarrow> string list \<Rightarrow> netem_vars \<Rightarrow> string \<Rightarrow> (string \<times> netem_vars option) cli" where
  "netem_args lib [] v err = Ret (err, Some v)"
| "netem_args lib (kw # argv) v err =
     (case netem_arg lib kw argv v of
        Exit status msg \<Rightarrow> Exit status (err @ msg)
      | Ret (t, None) \<Rightarrow> Ret (err @ t, None)
      | Ret (t, Some (v, rest)) \<Rightarrow> netem_args lib rest v (err @ t))"
  by pat_completeness auto

termination
  by (relation "measure (\<lambda>(lib, argv, v, err). length argv)") (auto dest: netem_arg_shorter)

section \<open>From the options to the message\<close>

text \<open>A probability of reordering makes a gap of one, unless there is one.\<close>

definition netem_gap :: "netem_vars \<Rightarrow> tc_netem_qopt" where
  "netem_gap v = (let q = nv_opt v in if fst (nv_reorder v) \<noteq> 0 \<and> ne_gap q = 0 then q\<lparr>ne_gap := 1\<rparr> else q)"

definition netem_warning :: "netem_vars \<Rightarrow> string" where
  "netem_warning v =
     (if fst (nv_reorder v) \<noteq> 0 \<and> ne_latency (nv_opt v) = 0 then ''reordering not possible without specifying some delay'' @ nl else [])"

definition netem_checks :: "netem_vars \<Rightarrow> string option" where
  "netem_checks v = (let q = nv_opt v in
     if fst (nv_reorder v) = 0 \<and> ne_gap q > 0 then Some (''gap specified without reorder probability'' @ nl @ netem_explain)
     else if nv_dist v \<noteq> None \<and> (ne_latency q = 0 \<or> ne_jitter q = 0) then
       Some (''distribution specified but no latency and jitter values'' @ nl @ netem_explain)
     else None)"

definition netem_attrs :: "netem_vars \<Rightarrow> attr list" where
  "netem_attrs v =
     (if nv_has_corr v then [(word_of_nat TCA_NETEM_CORR, corr_bytes (nv_cor v))] else [])
     @ (if nv_has_reorder v then [(word_of_nat TCA_NETEM_REORDER, chance_bytes (nv_reorder v))] else [])
     @ (if nv_has_corrupt v then [(word_of_nat TCA_NETEM_CORRUPT, chance_bytes (nv_corrupt v))] else [])"

text \<open>Attributes are added up to the first that does not fit.\<close>

fun add_until :: "nat \<Rightarrow> attr list \<Rightarrow> nlmsg \<Rightarrow> bool \<times> nlmsg" where
  "add_until maxlen [] n = (True, n)"
| "add_until maxlen ((t, d) # as) n =
     (let (r, n) = addattr_l n maxlen t d in if r < 0 then (False, n) else add_until maxlen as n)"

text \<open>A negative length is that of a copy, which does not come back.\<close>

definition netem_finish :: "netem_vars \<Rightarrow> string \<Rightarrow> nlmsg \<Rightarrow> (int \<times> string \<times> nlmsg) cli" where
  "netem_finish v err n =
     (let tail = NLMSG_TAIL n; err = err @ netem_warning v; close = (\<lambda>n. set_rta_len tail (NLMSG_TAIL n - tail) n)
      in case netem_checks v of
           Some msg \<Rightarrow> Ret (- 1, err @ msg, n)
         | None \<Rightarrow>
             let (ok, n) = add_until 1024 ((TCA_OPTIONS, netem_bytes (netem_gap v)) # netem_attrs v) n
             in if \<not> ok then Ret (- 1, err, n)
                else case nv_dist v of
                       None \<Rightarrow> Ret (0, err, close n)
                     | Some (k, xs) \<Rightarrow>
                         if k < 0 then Exit 139 err
                         else let (ok, n) = add_until (MAX_DIST * 2) [(word_of_nat TCA_NETEM_DELAY_DIST, concat (map le16_bytes xs))] n
                              in if ok then Ret (0, err, close n) else Ret (- 1, err, n))"

definition netem_parse_opt :: "netem_lib \<Rightarrow> string list \<Rightarrow> nlmsg \<Rightarrow> (int \<times> string \<times> nlmsg) cli" where
  "netem_parse_opt lib argv n =
     (case netem_args lib argv netem_init [] of
        Exit status msg \<Rightarrow> Exit status msg
      | Ret (err, None) \<Rightarrow> Ret (- 1, err, n)
      | Ret (err, Some v) \<Rightarrow> netem_finish v err n)"

section \<open>Printing\<close>

definition show_chance :: "string \<Rightarrow> u32 \<Rightarrow> u32 option \<Rightarrow> string" where
  "show_chance name p c =
     (if p = 0 then []
      else '' '' @ name @ '' '' @ sprint_percent p
        @ (case c of None \<Rightarrow> [] | Some c \<Rightarrow> if c = 0 then [] else '' '' @ sprint_percent c))"

definition show_pair :: "string \<Rightarrow> (u32 \<times> u32) option \<Rightarrow> string" where
  "show_pair name p = (case p of None \<Rightarrow> [] | Some (x, c) \<Rightarrow> show_chance name x (Some c))"

definition show_netem :: "tc_core \<Rightarrow> tc_netem_qopt \<Rightarrow> tc_netem_corr option \<Rightarrow> (u32 \<times> u32) option \<Rightarrow> (u32 \<times> u32) option \<Rightarrow> string" where
  "show_netem core q cor reorder corrupt =
     ''limit '' @ show_s32 (ne_limit q)
     @ (if ne_latency q = 0 then []
        else '' delay '' @ sprint_ticks core (ne_latency q)
          @ (if ne_jitter q = 0 then []
             else ''  '' @ sprint_ticks core (ne_jitter q)
               @ (case cor of None \<Rightarrow> [] | Some c \<Rightarrow> if nc_delay c = 0 then [] else '' '' @ sprint_percent (nc_delay c))))
     @ show_chance ''loss'' (ne_loss q) (map_option nc_loss cor)
     @ show_chance ''duplicate'' (ne_duplicate q) (map_option nc_dup cor)
     @ show_pair ''reorder'' reorder @ show_pair ''corrupt'' corrupt
     @ (if ne_gap q = 0 then [] else '' gap '' @ show_u32 (ne_gap q))"

text \<open>
  The attributes are looked for when something follows the structure; one that is too short is
  an error. The length of the options is read before they are tested to be there; without them
  the first case is what the test asks for.
\<close>

definition too_short :: "int \<Rightarrow> u8 list option \<Rightarrow> bool" where
  "too_short k a = (case a of None \<Rightarrow> False | Some a \<Rightarrow> RTA_PAYLOAD a < k)"

definition netem_print_opt :: "tc_core \<Rightarrow> u8 list option \<Rightarrow> int \<times> string" where
  "netem_print_opt core opt =
     (case opt of
        None \<Rightarrow> (0, [])
      | Some rta \<Rightarrow>
          let len = RTA_PAYLOAD rta - 24; q = netem_of_bytes (RTA_DATA rta)
          in if len < 0 then (- 1, [])
             else if len = 0 then (0, show_netem core q None None None)
             else let tb = fst (parse_rtattr TCA_NETEM_MAX (drop 24 (RTA_DATA rta)) len)
                  in if too_short 12 (tb ! TCA_NETEM_CORR) \<or> too_short 8 (tb ! TCA_NETEM_REORDER) \<or> too_short 8 (tb ! TCA_NETEM_CORRUPT)
                     then (- 1, [])
                     else (0, show_netem core q (attr_value 12 corr_of_bytes (tb ! TCA_NETEM_CORR))
                            (attr_value 8 chance_of_bytes (tb ! TCA_NETEM_REORDER)) (attr_value 8 chance_of_bytes (tb ! TCA_NETEM_CORRUPT))))"

definition netem_qdisc_util :: "netem_lib \<Rightarrow> qdisc_util" where
  "netem_qdisc_util lib = \<lparr>q_id = ''netem'', parse_qopt = Some (netem_parse_opt lib), print_qopt = netem_print_opt (nl_core lib),
     print_xstats = None, parse_copt = None, print_copt = None\<rparr>"

section \<open>What is sent and printed\<close>

definition netem_reads :: "netem_lib \<Rightarrow> string list \<Rightarrow> netem_vars \<Rightarrow> bool" where
  "netem_reads lib argv v \<longleftrightarrow> (\<exists>err. netem_args lib argv netem_init [] = Ret (err, Some v)) \<and> netem_checks v = None \<and> nv_dist v = None"

definition netem_accepts :: "netem_lib \<Rightarrow> string list \<Rightarrow> nat \<Rightarrow> (u8 list \<Rightarrow> bool) \<Rightarrow> bool" where
  "netem_accepts lib argv k P \<longleftrightarrow>
     (\<exists>v. netem_reads lib argv v \<and> k = 24 + attrs_size (netem_attrs v)
        \<and> P = (\<lambda>d. \<exists>t. d = netem_bytes (netem_gap v) @ t \<and> holds_attrs t (netem_attrs v) \<and> length t = attrs_size (netem_attrs v)))"

definition netem_shown :: "tc_core \<Rightarrow> netem_vars \<Rightarrow> string" where
  "netem_shown core v = show_netem core (netem_gap v) (if nv_has_corr v then Some (nv_cor v) else None)
     (if nv_has_reorder v then Some (nv_reorder v) else None) (if nv_has_corrupt v then Some (nv_corrupt v) else None)"

lemma add_until_all:
  "fst (add_all maxlen as n) = replicate (length as) 0 \<Longrightarrow> add_until maxlen as n = (True, snd (add_all maxlen as n))"
  by (induction maxlen as n rule: add_until.induct) (auto split: prod.splits)

lemma netem_attrs_size: "attrs_size (netem_attrs v) \<le> 40"
  by (simp add: netem_attrs_def attr_size_def RTA_ALIGN_def)

interpretation netem: qdisc_parser "netem_parse_opt lib" "netem_accepts lib" 600 for lib
proof (unfold_locales, goal_cases)
  case (1 argv k P n)
  then obtain v err where v: "netem_args lib argv netem_init [] = Ret (err, Some v)" "netem_checks v = None" "nv_dist v = None"
    "k = 24 + attrs_size (netem_attrs v)"
    "P = (\<lambda>d. \<exists>t. d = netem_bytes (netem_gap v) @ t \<and> holds_attrs t (netem_attrs v) \<and> length t = attrs_size (netem_attrs v))"
    by (auto simp: netem_accepts_def netem_reads_def)
  let ?bs = "netem_bytes (netem_gap v)" and ?as = "netem_attrs v"
  have dv: "4 dvd nlmsg_len n" using 1(2) by (simp add: mod_eq_0_iff_dvd)
  have "\<exists>n'. add_all 1024 ((TCA_OPTIONS, ?bs) # ?as) n = (replicate (length ((TCA_OPTIONS, ?bs) # ?as)) 0, n')
      \<and> nlmsg_len n' = nlmsg_len n + attrs_size ([] @ (TCA_OPTIONS, ?bs) # ?as) \<and> holds_attrs (drop (nlmsg_len n) (nl_buf n')) ([] @ (TCA_OPTIONS, ?bs) # ?as)
      \<and> take (nlmsg_len n) (nl_buf n') = take (nlmsg_len n) (nl_buf n) \<and> length (nl_buf n') = length (nl_buf n)"
    by (rule add_all_holds [OF dv]) (use 1(3,4) netem_attrs_size [of v] in \<open>auto simp: attr_size_def RTA_ALIGN_def\<close>)
  then have "fst (add_all 1024 ((TCA_OPTIONS, ?bs) # ?as) n) = replicate (length ((TCA_OPTIONS, ?bs) # ?as)) 0" by auto
  note a = add_until_all [OF this]
  have "netem_parse_opt lib argv n = Ret (0, err @ netem_warning v, nest_struct 1024 ?bs ?as n)"
    unfolding netem_parse_opt_def netem_finish_def a nest_struct_def by (simp add: v a Let_def del: add_until.simps add_all.simps)
  moreover have "options_added n (nest_struct 1024 ?bs ?as n) (length ?bs + attrs_size ?as)
      (\<lambda>d. \<exists>t. d = ?bs @ t \<and> holds_attrs t ?as \<and> length t = attrs_size ?as)"
    by (rule nest_struct_added) (use 1(2-4) netem_attrs_size [of v] in auto)
  ultimately show ?case using v(4,5) by auto
next
  case (2 argv k P)
  then obtain v where "k = 24 + attrs_size (netem_attrs v)" by (auto simp: netem_accepts_def)
  then show ?case using netem_attrs_size [of v] attrs_size_dvd [of "netem_attrs v"] by simp
qed simp

lemma netem_printed:
  assumes "rta_payload rta = netem_bytes q @ t" "holds_attrs t as" "length t = attrs_size as" "RTA_PAYLOAD rta = int (24 + attrs_size as)"
    and "attrs_size as < 2 ^ 16" "attr_map as TCA_NETEM_CORR = map_option corr_bytes c"
    and "attr_map as TCA_NETEM_REORDER = map_option chance_bytes r" "attr_map as TCA_NETEM_CORRUPT = map_option chance_bytes s"
  shows "netem_print_opt core (Some rta) = (0, show_netem core q c r s)"
proof -
  have d: "RTA_DATA rta = netem_bytes q @ t @ drop (length (netem_bytes q @ t)) (RTA_DATA rta)"
    using payload_data(2) [OF assms(1)] by simp
  obtain z where z: "RTA_DATA rta = netem_bytes q @ t @ z" using d by blast
  have q: "netem_of_bytes (RTA_DATA rta) = q" "drop 24 (RTA_DATA rta) = t @ z" by (simp_all add: z)
  have len: "RTA_PAYLOAD rta - 24 = int (attrs_size as)" using assms(4) by simp
  show ?thesis
  proof (cases "as = []")
    case True
    then have "c = None" "r = None" "s = None" using assms(6-8) by (simp_all add: attr_map_def)
    then show ?thesis using len True q by (simp add: netem_print_opt_def Let_def)
  next
    case False
    have pos: "0 < attrs_size as" using False attr_size_ge [of "hd as"] by (cases as) auto
    have h: "holds_attrs (t @ z) as"
      by (rule holds_attrs_take [OF assms(2)]) (simp add: assms(3))
    have le: "TCA_NETEM_CORR \<le> TCA_NETEM_MAX" "TCA_NETEM_REORDER \<le> TCA_NETEM_MAX" "TCA_NETEM_CORRUPT \<le> TCA_NETEM_MAX"
      by (simp_all add: TCA_NETEM_CORR_def TCA_NETEM_REORDER_def TCA_NETEM_CORRUPT_def TCA_NETEM_MAX_def)
    let ?tb = "fst (parse_rtattr TCA_NETEM_MAX (t @ z) (int (attrs_size as)))"
    note f = attr_value_found [OF h refl assms(5)]
    have c: "attr_value (int 12) corr_of_bytes (?tb ! TCA_NETEM_CORR) = c" "\<not> too_short (int 12) (?tb ! TCA_NETEM_CORR)"
      by (rule f(1) [OF le(1) assms(6)], simp_all) (use f(2) [OF le(1) assms(6), of 12 corr_of_bytes] in \<open>auto simp: too_short_def split: option.splits\<close>)
    have r: "attr_value (int 8) chance_of_bytes (?tb ! TCA_NETEM_REORDER) = r" "\<not> too_short (int 8) (?tb ! TCA_NETEM_REORDER)"
      by (rule f(1) [OF le(2) assms(7)], simp_all) (use f(2) [OF le(2) assms(7), of 8 chance_of_bytes] in \<open>auto simp: too_short_def split: option.splits\<close>)
    have s: "attr_value (int 8) chance_of_bytes (?tb ! TCA_NETEM_CORRUPT) = s" "\<not> too_short (int 8) (?tb ! TCA_NETEM_CORRUPT)"
      by (rule f(1) [OF le(3) assms(8)], simp_all) (use f(2) [OF le(3) assms(8), of 8 chance_of_bytes] in \<open>auto simp: too_short_def split: option.splits\<close>)
    show ?thesis using c r s pos by (simp add: netem_print_opt_def len q Let_def)
  qed
qed

lemma netem_shows:
  assumes "rta_payload rta = netem_bytes (netem_gap v) @ t" "holds_attrs t (netem_attrs v)" "length t = attrs_size (netem_attrs v)"
    and "RTA_PAYLOAD rta = int (24 + attrs_size (netem_attrs v))"
  shows "netem_print_opt core (Some rta) = (0, netem_shown core v)"
  unfolding netem_shown_def
  by (rule netem_printed [OF assms]) (use netem_attrs_size [of v] in
    \<open>auto simp: netem_attrs_def attr_map_def TCA_NETEM_CORR_def TCA_NETEM_REORDER_def TCA_NETEM_CORRUPT_def\<close>)

end
