(* ===== verification/Decimal_Texts.thy ===== *)
theory Decimal_Texts
  imports Tc_Util
begin

text \<open>
  Numbers that go through a double on their way in: \<open>strtod\<close> reads a decimal number exactly as
  long as it has at most 53 bits, so sizes and rates typed as plain numbers are the numbers
  typed.
\<close>

section \<open>Integers are doubles\<close>

lemma int_exact:
  assumes "0 < n" "n < 2 ^ 53"
  obtains m where "m < inf_mag" "dsc m = n * 2 ^ emin"
proof -
  define L where "L = bitlen n"
  have L: "0 < L" "L \<le> 53" using assms bitlen_le_iff [of n 0] bitlen_le_iff [of n 53] by (auto simp: L_def)
  define f where "f = n * 2 ^ (53 - L)"
  have "n < 2 ^ L" using bitlen_le_iff [of n L] by (simp add: L_def)
  then have "f < 2 ^ L * 2 ^ (53 - L)" by (simp add: f_def)
  also have "\<dots> = 2 ^ 53" using L by (simp flip: power_add)
  finally have f2: "f < 2 ^ 53" .
  have "2 ^ (L - 1) \<le> n" using bitlen_le_iff [of n "L - 1"] L by (simp add: L_def not_less [symmetric])
  then have "2 ^ (L - 1) * 2 ^ (53 - L) \<le> f" by (simp add: f_def)
  moreover have "(2 :: nat) ^ (L - 1) * 2 ^ (53 - L) = 2 ^ 52" using L by (simp flip: power_add)
  ultimately have f1: "2 ^ 52 \<le> f" by simp
  define m where "m = (1022 + L) * 2 ^ 52 + (f - 2 ^ 52)"
  have r: "f - 2 ^ 52 < 2 ^ 52" using f1 f2 by simp
  have "m div 2 ^ 52 = 1022 + L" using r by (simp add: m_def)
  moreover have "m mod 2 ^ 52 = f - 2 ^ 52" by (simp only: m_def mod_mult_self3 mod_less [OF r])
  ultimately have md: "m div 2 ^ 52 = 1022 + L" "m mod 2 ^ 52 = f - 2 ^ 52" .
  have "m < (1022 + L + 1) * 2 ^ 52" using r by (simp add: m_def)
  also have "\<dots> \<le> 2047 * 2 ^ 52" using L by (intro mult_right_mono) simp_all
  finally have "m < inf_mag" by (simp add: inf_mag_def)
  moreover have "dsc m = n * 2 ^ emin"
  proof -
    have "\<not> m < 2 ^ 52" using md(1) by (metis div_less gr0I add_is_0 zero_neq_numeral)
    then have "dsc m = f * 2 ^ (1021 + L)" using f1 by (simp only: dsc_def if_False md) simp
    also have "\<dots> = n * 2 ^ (53 - L + (1021 + L))" by (simp add: f_def power_add)
    finally show ?thesis using L by (simp add: emin_def)
  qed
  ultimately show ?thesis by (rule that)
qed

lemma d_of_int_exact:
  assumes "n < 2 ^ 53"
  shows "is_finite (d_of_int (int n))" "dtrunc (d_of_int (int n)) = int n"
proof -
  have "is_finite (d_of_int (int n)) \<and> dtrunc (d_of_int (int n)) = int n"
  proof (cases "n = 0")
    case True
    then show ?thesis by (simp add: d_of_int_def dround_def is_finite_def dtrunc_def inf_mag_def)
  next
    case False
    then obtain m where m: "m < inf_mag" "dsc m = n * 2 ^ emin" using int_exact assms by blast
    have "rnd_mag (n * 2 ^ emin) 1 = m" using rnd_mag_exact [OF m(1), of 1] m(2) by simp
    then have d: "d_of_int (int n) = mk_double False m"
      using False by (simp add: d_of_int_def dround_def nat_mult_distrib nat_power_eq mult_less_0_iff del: One_nat_def)
    have "m < 2 ^ 63" using m(1) inf_mag_less by simp
    then show ?thesis using m by (simp add: d is_finite_def dtrunc_def)
  qed
  then show "is_finite (d_of_int (int n))" "dtrunc (d_of_int (int n)) = int n" by simp_all
qed

lemma d_to_u32_int: "n < 2 ^ 32 \<Longrightarrow> d_to_u32 (d_of_int (int n)) = word_of_nat n"
  using d_of_int_exact [of n] by (simp add: d_to_u32_def)

section \<open>Reading decimal texts\<close>

text \<open>What may follow a number without being read with it.\<close>

definition after_number :: "string \<Rightarrow> bool" where
  "after_number rest \<longleftrightarrow> (case rest of [] \<Rightarrow> True | c # _ \<Rightarrow> \<not> is_digit 10 c \<and> c \<notin> {CHR ''.'', CHR ''e'', CHR ''E'', CHR ''x'', CHR ''X''})"

lemma lower_digit:
  assumes "d < 10"
  shows "c_tolower (digit_char d) \<notin> {CHR ''i'', CHR ''n''}"
proof -
  have "c_tolower (digit_char d) = digit_char d" using assms by (simp add: c_tolower_def digit_char_def)
  moreover have "digit_val (CHR ''i'') = Some 18" "digit_val (CHR ''n'') = Some 23" by (simp_all add: digit_val_def)
  ultimately show ?thesis using assms digit_val_digit_char [of d] by (auto simp del: digit_val_digit_char)
qed

lemma lower_letter:
  "c_tolower c = CHR ''x'' \<Longrightarrow> c = CHR ''x'' \<or> c = CHR ''X''" "c_tolower c = CHR ''e'' \<Longrightarrow> c = CHR ''e'' \<or> c = CHR ''E''"
proof -
  have lower: "of_char c = k \<or> of_char c + 32 = k" if "of_char (c_tolower c) = k" for k :: nat
    using that by (auto simp: c_tolower_def Let_def of_char_char_of split: if_splits)
  have code: "of_char c = (of_char x :: nat) \<Longrightarrow> c = x" for x by simp
  show "c_tolower c = CHR ''x'' \<Longrightarrow> c = CHR ''x'' \<or> c = CHR ''X''"
    using lower [of 120] code [of "CHR ''x''"] code [of "CHR ''X''"] by auto
  show "c_tolower c = CHR ''e'' \<Longrightarrow> c = CHR ''e'' \<or> c = CHR ''E''"
    using lower [of 101] code [of "CHR ''e''"] code [of "CHR ''E''"] by auto
qed

lemma strtod_decimal:
  assumes "after_number rest"
  shows "strtod (show_dec n @ rest) = (d_of_int (int n), rest)"
proof -
  obtain d where d: "d < 10" "hd (show_dec n) = digit_char d" using hd_show_base [of 10 n] by auto
  then obtain cs where c: "show_dec n = digit_char d # cs" by (cases "show_dec n") auto
  have no: "map c_tolower (take 8 (show_dec n @ rest)) \<noteq> ''infinity''" "map c_tolower (take 3 (show_dec n @ rest)) \<noteq> ''inf''"
    "map c_tolower (take 3 (show_dec n @ rest)) \<noteq> ''nan''"
    using lower_digit [OF d(1)] by (simp_all add: c)
  have x: "\<not> is_digit 10 (CHR ''x'')" "\<not> is_digit 10 (CHR ''X'')" by (simp_all add: is_digit_def digit_val_def)
  have nx: "map c_tolower (take 1 (drop 1 (show_dec n @ rest))) \<noteq> ''x''"
  proof (cases cs)
    case Nil
    then show ?thesis using assms lower_letter(1) by (cases rest) (auto simp: c after_number_def)
  next
    case (Cons c2 cs2)
    then have "is_digit 10 c2" using show_base_digits [of 10 n] by (simp add: c)
    then show ?thesis using x lower_letter(1) [of c2] by (auto simp: c Cons)
  qed
  have r: "rest = [] \<or> \<not> is_digit 10 (hd rest)" using assms by (cases rest) (auto simp: after_number_def)
  have t: "takeWhile (is_digit 10) (show_dec n @ rest) = show_dec n" "dropWhile (is_digit 10) (show_dec n @ rest) = rest"
    by (rule takeWhile_show_base; use r in simp)+
  have "take 1 rest \<noteq> ''.''" using assms by (cases rest) (auto simp: after_number_def)
  then have m: "scan_mantissa 10 (show_dec n @ rest) = (show_dec n, 0, rest)" by (simp add: scan_mantissa_def t Let_def)
  have e: "scan_exp (CHR ''e'') rest = (0, rest)"
    using assms lower_letter(2) by (cases rest) (auto simp: scan_exp_def after_number_def)
  have s: "dropWhile c_isspace (show_dec n @ rest) = show_dec n @ rest" "take_sign (show_dec n @ rest) = (False, show_dec n @ rest)"
    by (rule show_base_start; simp)+
  have "strtod_abs (show_dec n @ rest) = Some (d_of_int (int n), rest)"
    unfolding strtod_abs_def using no nx by (simp add: m e scaled_def dlit_def d_of_int_def)
  then show ?thesis by (simp add: strtod_def s)
qed

text \<open>A size in bytes is the number typed, and a rate with a unit that many units.\<close>

lemma get_size_decimal: "n < 2 ^ 32 \<Longrightarrow> get_size (show_dec n) = Some (word_of_nat n)"
  using strtod_decimal [of "[]" n] by (simp add: get_size_def after_number_def d_to_u32_int eq_commute [of "[]"])

end
