(* ===== verification/Tc_Disciplines.thy ===== *)
theory Tc_Disciplines
  imports Q_Plain Q_Prio Q_Red Q_Blue Q_Tbf Q_Htb Q_Hfsc Q_Dsmark Q_Netem Decimal_Texts Double_Eval
begin

text \<open>
  The disciplines together: what \<open>tc qdisc add\<close> sends for each of them prints as the options
  that were read, and what \<open>tc class add\<close> sends for a class.
\<close>

section \<open>The options of a discipline\<close>

text \<open>
  The text of the options a discipline accepts: the loop over the arguments reads them, the
  code behind the loop takes them, and the text is that of the structure it makes.
\<close>

inductive option_text :: "qdisc_util \<Rightarrow> string list \<Rightarrow> string \<Rightarrow> bool" where
  fifo: "kind \<in> {''bfifo'', ''pfifo''} \<Longrightarrow> reads_options fifo_word (0, False) argv (lm, True) \<Longrightarrow>
    option_text (fifo_util kind) argv (fifo_shown kind (lm, True))"
| sfq: "reads_options sfq_word (zero_sfq, False) argv (q, True) \<Longrightarrow> option_text (sfq_qdisc_util details) argv (show_sfq details q)"
| prio: "reads_options (prio_word prio_explain ''TC_PRIO_MAX'') prio_init argv v \<Longrightarrow> \<not> pv_mq v \<Longrightarrow>
    option_text prio_qdisc_util argv (show_prio (pv_opt v))"
| rr: "reads_options (prio_word rr_explain ''TC_RR_MAX'') prio_init argv v \<Longrightarrow> \<not> pv_mq v \<Longrightarrow>
    option_text rr_qdisc_util argv (show_prio (pv_opt v))"
| red: "reads_options red_word (red_init 0) argv v \<Longrightarrow> red_options lib v = Inr (w, q, sbuf) \<Longrightarrow>
    option_text (red_qdisc_util lib details) argv (show_red details q)"
| choke: "reads_options choke_word (red_init 1000) argv v \<Longrightarrow> choke_options lib v = Inr (w, q, sbuf) \<Longrightarrow>
    option_text (choke_qdisc_util lib details) argv (show_choke details q)"
| blue: "reads_options blue_word blue_init argv v \<Longrightarrow> 0 < sint (bl_qref (bv_opt v)) \<Longrightarrow>
    option_text (blue_qdisc_util stack text_of) argv (show_blue text_of (blue_filled v))"
| sfb: "reads_options sfb_word sfb_init argv q \<Longrightarrow> option_text sfb_qdisc_util argv (show_sfb (sfb_defaults q))"
| tbf: "reads_options tbf_word tbf_init argv v \<Longrightarrow> tbf_checks v = None \<Longrightarrow> tbf_tables core v = Some (Inr (q, rtab, ptab)) \<Longrightarrow>
    option_text (tbf_qdisc_util core sh) argv (show_tbf sh q)"
| htb: "kind \<in> {''htb'', ''htb2''} \<Longrightarrow> reads_options htb_word htb_init argv g \<Longrightarrow> option_text (htb_util kind core hz sh) argv (show_htb sh g)"
| dsmark: "reads_options dsmark_word dsmark_init argv v \<Longrightarrow> dv_ind v \<noteq> 0 \<Longrightarrow> option_text dsmark_qdisc_util argv (dsmark_shown v)"
| netem: "netem_reads lib argv v \<Longrightarrow> option_text (netem_qdisc_util lib) argv (netem_shown (nl_core lib) v)"

lemma kind_words [simp]:
  "kind_word ''bfifo''" "kind_word ''pfifo''" "kind_word ''sfq''" "kind_word ''prio''" "kind_word ''rr''" "kind_word ''red''"
  "kind_word ''choke''" "kind_word ''blue''" "kind_word ''sfb''" "kind_word ''tbf''"
  "kind_word ''htb''" "kind_word ''htb2''" "kind_word ''dsmark''" "kind_word ''netem''"
  by (simp_all add: kind_word_def matches_def)

lemmas util_defs = fifo_util_def sfq_qdisc_util_def prio_qdisc_util_def rr_qdisc_util_def red_qdisc_util_def choke_qdisc_util_def
  blue_qdisc_util_def sfb_qdisc_util_def tbf_qdisc_util_def htb_util_def dsmark_qdisc_util_def netem_qdisc_util_def
  drr_qdisc_util_def qfq_qdisc_util_def hfsc_qdisc_util_def

lemmas parse_defs = fifo_parse_opt_def sfq_parse_opt_def prio_parse_opt_def rr_parse_opt_def red_parse_opt_def choke_parse_opt_def
  blue_parse_opt_def sfb_parse_opt_def tbf_parse_opt_def htb_parse_opt_def htb_parse_class_opt_def dsmark_parse_opt_def

text \<open>The emulator, whose options are not nested.\<close>

lemma netem_request:
  assumes "netem_reads lib argv v" "d \<noteq> []" "length d \<le> 15" "lookup_kind env ''netem'' st = (netem_qdisc_util lib, st1)"
    and "find_device env d st1 = (Inr idx, st2)"
  shows "request_shows env (''add'' # ''dev'' # d # ''root'' # ''netem'' # argv) st (netem_qdisc_util lib) idx (netem_shown (nl_core lib) v)"
proof -
  let ?P = "\<lambda>b. \<exists>t. b = netem_bytes (netem_gap v) @ t \<and> holds_attrs t (netem_attrs v) \<and> length t = attrs_size (netem_attrs v)"
  have acc: "netem_accepts lib argv (24 + attrs_size (netem_attrs v)) ?P" using assms(1) by (auto simp: netem_accepts_def)
  have pq: "parse_qopt (netem_qdisc_util lib) = Some (netem_parse_opt lib)" "print_qopt (netem_qdisc_util lib) = netem_print_opt (nl_core lib)"
    "q_id (netem_qdisc_util lib) = ''netem''"
    by (simp_all add: netem_qdisc_util_def)
  have p: "netem_print_opt (nl_core lib) (Some rta) = (0, netem_shown (nl_core lib) v)"
    if "?P (rta_payload rta)" "RTA_PAYLOAD rta = int (24 + attrs_size (netem_attrs v))" for rta
    using that netem_shows by blast
  have "do_qdisc env (''add'' # ''dev'' # d # ''root'' # ''netem'' # argv) st =
      tc_qdisc_modify env RTM_NEWQDISC (NLM_F_EXCL OR NLM_F_CREATE) (''dev'' # d # ''root'' # ''netem'' # argv) st"
    by (simp add: do_qdisc_def matches_def)
  then show ?thesis
    using netem.modify_root [OF acc _ assms(2-4) pq(1) assms(5), of RTM_NEWQDISC "NLM_F_EXCL OR NLM_F_CREATE"] p
    unfolding request_shows_def pq by fastforce
qed

text \<open>
  C32: what \<open>tc qdisc add dev D root\<close> sends for a discipline, its receiver can print. For
  \<open>bfifo\<close> and \<open>pfifo\<close> with a limit, \<open>sfq\<close> with an option, \<open>prio\<close> and \<open>rr\<close> without
  \<open>multiqueue\<close>, \<open>red\<close>, \<open>choke\<close>, \<open>blue\<close>, \<open>sfb\<close>, \<open>tbf\<close>, \<open>htb\<close>, \<open>dsmark\<close> and \<open>netem\<close> without a
  distribution, options that are accepted lead to one request that names the interface of the
  device, the root and the discipline, and the printer of the discipline makes of its options
  the text of what was read and computed. Not covered are \<open>pfifo_head_drop\<close>, the command lines
  of a fifo and of \<open>sfq\<close> that set nothing and send no options, \<open>multiqueue\<close>, whose attribute is
  empty while the printer reads a byte of it, and the distributions of \<open>netem\<close>.
\<close>
theorem discipline_requests:
  assumes "option_text q argv t" "get_qdisc_kind (e_dl env) (q_id q) (ts_kinds st) = (q, ks)"
    and "d \<noteq> []" "length d \<le> 15" "find_device env d (st\<lparr>ts_kinds := ks\<rparr>) = (Inr idx, st2)"
  shows "request_shows env (''add'' # ''dev'' # d # ''root'' # q_id q # argv) st q idx t"
proof -
  have l: "lookup_kind env (q_id q) st = (q, st\<lparr>ts_kinds := ks\<rparr>)" using assms(2) by (simp add: lookup_kind_def)
  note r = assms(3,4) l assms(5)
  from assms(1) show ?thesis
  proof cases
    case (fifo kind lm)
    have k: "kind_word kind" using fifo(3) by auto
    show ?thesis
      by (rule fifo.request_root [OF fifo(4) _ _ _ _ r]) (use fifo k in \<open>auto simp: fifo_struct_def util_defs parse_defs\<close>)
  next
    case (sfq p details)
    show ?thesis
      by (rule sfq.request_root [OF sfq(3) _ _ _ _ r]) (use sfq in \<open>auto simp: sfq_struct_def util_defs parse_defs\<close>)
  next
    case (prio v)
    show ?thesis
      by (rule prio.request_root [OF prio(3) _ _ _ _ r]) (use prio in \<open>auto simp: prio_content_def prio_map_length util_defs parse_defs\<close>)
  next
    case (rr v)
    show ?thesis
      by (rule rr.request_root [OF rr(3) _ _ _ _ r]) (use rr in \<open>auto simp: prio_content_def prio_map_length util_defs parse_defs\<close>)
  next
    case (red v lib w p sbuf details)
    show ?thesis
      by (rule red.request_root [OF red(3) _ _ _ _ r]) (use red in \<open>auto simp: red_made_def red_shown_def util_defs parse_defs\<close>)
  next
    case (choke v lib w p sbuf details)
    show ?thesis
      by (rule choke.request_root [OF choke(3) _ _ _ _ r]) (use choke in \<open>auto simp: red_made_def red_shown_def util_defs parse_defs\<close>)
  next
    case (blue v stack text_of)
    show ?thesis
      by (rule blue.request_root [OF blue(3) _ _ _ _ r]) (use blue in \<open>auto simp: blue_made_def util_defs parse_defs\<close>)
  next
    case (sfb p)
    show ?thesis
      by (rule sfb.request_root [OF sfb(3) _ _ _ _ r]) (use sfb in \<open>auto simp: sfb_made_def util_defs parse_defs\<close>)
  next
    case (tbf v core p rtab ptab sh)
    have m: "tbf_made core v = Inr ([], tbf_attrs p rtab ptab)" using tbf by (simp add: tbf_made_def)
    show ?thesis
      by (rule tbf.request_root [OF tbf(3) _ _ _ _ r]) (use tbf m in \<open>auto simp: tbf_shown_def util_defs parse_defs\<close>)
  next
    case (htb kind g core hz sh)
    have k: "kind_word kind" using htb(3) by auto
    show ?thesis
      by (rule htb.request_root [OF htb(4) _ _ _ _ r]) (use htb k in \<open>auto simp: htb_made_def util_defs parse_defs\<close>)
  next
    case (dsmark v)
    obtain w as where m: "dsmark_made v = Inr (w, as)" using dsmark(4) by (simp add: dsmark_made_def)
    show ?thesis
      by (rule dsmark.request_root [OF dsmark(3) _ _ _ _ r]) (use dsmark m in \<open>auto simp: util_defs parse_defs\<close>)
  next
    case (netem lib v)
    have q: "q_id q = ''netem''" using netem(1) by (simp add: netem_qdisc_util_def)
    show ?thesis
      using netem_request [OF netem(3) assms(3,4) _ assms(5), folded netem(1)] l netem(2) by (simp add: q)
qed
qed

text \<open>A process that knows the links already and asks the system for a name it does not know.\<close>

definition small_env :: "qdisc_util \<Rightarrow> tc_env" where
  "small_env q = \<lparr>e_dl = \<lparr>tc_lib_dir = None, dlopen = (\<lambda>_. Some 0), dlsym_qdisc = (\<lambda>_ _. Some q), dlsym_filter = (\<lambda>_ _. None)\<rparr>,
     e_nametoindex = (\<lambda>_. 7), e_log = (\<lambda>x. x), e_malloc = (\<lambda>_. None), e_junk = replicate 36 0, e_show_details = False,
     e_show_stats = False, e_show_raw = False, e_use_iec = False, e_links_sent = True, e_links = [], e_sent = True, e_answers = [], e_buf = []\<rparr>"

definition small_st :: tc_state where
  "small_st = \<lparr>ts_rth = \<lparr>rh_pid = 0, rh_seq = 0, rh_dump = 0\<rparr>, ts_map = ll_map_init\<lparr>initialized := True\<rparr>,
     ts_kinds = \<lparr>BODY = None, qdisc_list = [], filter_list = []\<rparr>, ts_filter = 0, ts_err = [], ts_out = [], ts_requests = []\<rparr>"

lemma small_device: "\<exists>st2. find_device (small_env q) ''wan'' (small_st\<lparr>ts_kinds := ks\<rparr>) = (Inr 7, st2)"
  by (simp add: find_device_def ll_init_map_def small_env_def small_st_def ll_name_to_index_def ll_map_init_def Let_def)

lemma small_kind: "parse_qopt q \<noteq> None \<Longrightarrow> \<exists>ks. get_qdisc_kind (e_dl (small_env q)) (q_id q) (ts_kinds small_st) = (q, ks)"
  by (auto simp: get_qdisc_kind_def dl_handle_def small_env_def small_st_def Let_def)

theorem discipline_requests_witness:
  "request_shows (small_env (fifo_util ''pfifo'')) [''add'', ''dev'', ''wan'', ''root'', ''pfifo'', ''limit'', show_dec 1000] small_st
     (fifo_util ''pfifo'') 7 (''limit '' @ show_dec 1000 @ ''p'')"
proof -
  let ?q = "fifo_util ''pfifo''"
  have "get_size (show_dec 1000) = Some 1000" using get_size_decimal [of 1000] by simp
  then have "reads_options fifo_word (0, False) [''limit'', show_dec 1000] (1000, True)"
    by (simp add: reads_options_def fifo_word_def read_opt_def)
  from option_text.fifo [OF _ this] have o: "option_text ?q [''limit'', show_dec 1000] (fifo_shown ''pfifo'' (1000, True))" by simp
  have p: "parse_qopt ?q \<noteq> None" "q_id ?q = ''pfifo''" by (simp_all add: fifo_util_def)
  obtain ks where k: "get_qdisc_kind (e_dl (small_env ?q)) (q_id ?q) (ts_kinds small_st) = (?q, ks)" using small_kind [OF p(1)] by blast
  obtain st2 where f: "find_device (small_env ?q) ''wan'' (small_st\<lparr>ts_kinds := ks\<rparr>) = (Inr 7, st2)" using small_device by blast
  show ?thesis using discipline_requests [OF o k _ _ f] by (simp add: p(2) fifo_shown_def show_u32_def)
qed

section \<open>The options of a class\<close>

text \<open>
  The text of the options of a class, as that of the options of a discipline. The attributes of
  a class are added one by one for every option typed, repeated ones included: the model of the
  accepted command lines takes those with at least one and at most 400 bytes of them, which fit
  the message.
\<close>

definition show_qfq :: "u32 option \<Rightarrow> u32 option \<Rightarrow> string" where
  "show_qfq w m = (case w of None \<Rightarrow> [] | Some x \<Rightarrow> ''weight '' @ show_u32 x @ '' '')
     @ (case m of None \<Rightarrow> [] | Some x \<Rightarrow> ''maxpkt '' @ show_u32 x @ '' '')"

inductive class_text :: "qdisc_util \<Rightarrow> string list \<Rightarrow> string \<Rightarrow> bool" where
  drr: "reads_options drr_attr_word [] argv as \<Longrightarrow> attrs_size as \<le> 400 \<Longrightarrow> attr_map as TCA_DRR_QUANTUM = Some (le32_bytes x) \<Longrightarrow>
    class_text drr_qdisc_util argv (''quantum '' @ sprint_size x @ '' '')"
| qfq: "reads_options qfq_attr_word [] argv as \<Longrightarrow> as \<noteq> [] \<Longrightarrow> attrs_size as \<le> 400 \<Longrightarrow>
    attr_map as TCA_QFQ_WEIGHT = map_option le32_bytes w \<Longrightarrow> attr_map as TCA_QFQ_LMAX = map_option le32_bytes m \<Longrightarrow>
    class_text qfq_qdisc_util argv (show_qfq w m)"
| htb: "kind \<in> {''htb'', ''htb2''} \<Longrightarrow> reads_options htb_class_word htb_class_init argv v \<Longrightarrow> htb_class_made core hz v = Inr (w, as) \<Longrightarrow>
    class_text (htb_util kind core hz sh) argv (htb_class_shown core hz sh v)"
| hfsc: "hfsc_reads core argv v \<Longrightarrow> hfsc_made v = Inr (w, as) \<Longrightarrow> class_text (hfsc_qdisc_util core iec) argv (show_curves core iec v)"
| dsmark: "reads_options dsmark_attr_word [] argv as \<Longrightarrow> as \<noteq> [] \<Longrightarrow> attrs_size as \<le> 400 \<Longrightarrow>
    attr_map as TCA_DSMARK_MASK = map_option (\<lambda>x. [x]) m \<Longrightarrow> attr_map as TCA_DSMARK_VALUE = map_option (\<lambda>x. [x]) w \<Longrightarrow>
    class_text dsmark_qdisc_util argv (show_dsmark m w None None False)"

lemma class_words [simp]:
  "class_word ''drr''" "class_word ''qfq''" "class_word ''htb''" "class_word ''htb2''" "class_word ''hfsc''" "class_word ''dsmark''"
  by (simp_all add: class_word_def matches_def)

lemma attr_map_some: "attr_map as t = Some x \<Longrightarrow> as \<noteq> []"
  by (auto simp: attr_map_def)

text \<open>What the printers of round robin classes find.\<close>

lemma drr_printed:
  assumes "holds_attrs (rta_payload rta) as" "RTA_PAYLOAD rta = int (attrs_size as)" "attrs_size as \<le> 400"
    and "attr_map as TCA_DRR_QUANTUM = Some (le32_bytes x)"
  shows "drr_print_opt (Some rta) = (0, ''quantum '' @ sprint_size x @ '' '')"
proof -
  have sz: "attrs_size as < 2 ^ 16" and le: "TCA_DRR_QUANTUM \<le> TCA_DRR_MAX" using assms(3) by (simp_all add: TCA_DRR_QUANTUM_def TCA_DRR_MAX_def)
  obtain a r where "fst (parse_rtattr_nested TCA_DRR_MAX rta) ! TCA_DRR_QUANTUM = Some a" "RTA_DATA a = le32_bytes x @ r"
    by (rule nested_data [OF assms(1,2) sz le assms(4), of 4]) simp_all
  then show ?thesis by (simp add: drr_print_opt_def)
qed

lemma qfq_option:
  assumes "holds_attrs (rta_payload rta) as" "RTA_PAYLOAD rta = int (attrs_size as)" "attrs_size as \<le> 400" "t \<le> mx"
    and "attr_map as t = map_option le32_bytes w"
  shows "(case fst (parse_rtattr_nested mx rta) ! t of None \<Rightarrow> [] | Some a \<Rightarrow> f (le32 (RTA_DATA a))) =
    (case w of None \<Rightarrow> [] | Some x \<Rightarrow> f x)"
proof (cases w)
  case None
  have sz: "attrs_size as < 2 ^ 16" using assms(3) by simp
  show ?thesis using nested_attr [OF assms(1,2) sz assms(4)] assms(5) by (simp add: None)
next
  case (Some x)
  have sz: "attrs_size as < 2 ^ 16" using assms(3) by simp
  have "attr_map as t = Some (le32_bytes x)" using assms(5) by (simp add: Some)
  then obtain a r where "fst (parse_rtattr_nested mx rta) ! t = Some a" "RTA_DATA a = le32_bytes x @ r"
    by (rule nested_data [OF assms(1,2) sz assms(4), of _ 4]) simp_all
  then show ?thesis by (simp add: Some)
qed

lemma qfq_printed:
  assumes "holds_attrs (rta_payload rta) as" "RTA_PAYLOAD rta = int (attrs_size as)" "attrs_size as \<le> 400"
    and "attr_map as TCA_QFQ_WEIGHT = map_option le32_bytes w" "attr_map as TCA_QFQ_LMAX = map_option le32_bytes m"
  shows "qfq_print_opt (Some rta) = (0, show_qfq w m)"
proof -
  have le: "TCA_QFQ_WEIGHT \<le> TCA_QFQ_MAX" "TCA_QFQ_LMAX \<le> TCA_QFQ_MAX"
    by (simp_all add: TCA_QFQ_WEIGHT_def TCA_QFQ_LMAX_def TCA_QFQ_MAX_def)
  note f = qfq_option [OF assms(1-3)]
  show ?thesis
    by (simp add: qfq_print_opt_def show_qfq_def Let_def f [OF le(1) assms(4), of "\<lambda>x. ''weight '' @ show_u32 x @ '' ''"]
        f [OF le(2) assms(5), of "\<lambda>x. ''maxpkt '' @ show_u32 x @ '' ''"] del: append.simps)
qed

text \<open>
  C33: what \<open>tc class add\<close> sends for a class, its receiver can print. For \<open>drr\<close> with its
  quantum, \<open>qfq\<close> with its weight, its packet size or both, \<open>dsmark\<close> with its mask, its value or
  both, \<open>htb\<close> and \<open>hfsc\<close>, options that are accepted lead to one request that names the
  interface of the device, the two identifiers and the discipline, and the printer of the class
  makes of its options the text of what was read and computed. For \<open>drr\<close>, \<open>qfq\<close> and \<open>dsmark\<close>,
  which add an attribute for every option typed, the attributes take at most 400 bytes, so an
  option repeated until the message is full is not covered.
\<close>
theorem class_requests:
  assumes "class_text q argv t" "get_qdisc_kind (e_dl env) (q_id q) (ts_kinds st) = (q, ks)"
    and "d \<noteq> []" "length d \<le> 15" "find_device env d (st\<lparr>ts_kinds := ks\<rparr>) = (Inr idx, st2)"
    and "get_tc_classid p = Some ph" "get_tc_classid c = Some ch"
  shows "class_shows env (''add'' # ''dev'' # d # ''parent'' # p # ''classid'' # c # q_id q # argv) (st, cf) q idx ph ch t"
proof -
  have l: "lookup_kind env (q_id q) st = (q, st\<lparr>ts_kinds := ks\<rparr>)" using assms(2) by (simp add: lookup_kind_def)
  note r = assms(3,4,6,7) l
  from assms(1) show ?thesis
  proof cases
    case (drr as x)
    have "class_accepts drr_attr_word argv (attrs_size as) (\<lambda>bs. holds_attrs bs as)"
      using drr(3,4) attr_map_some [OF drr(5)] by (auto simp: class_accepts_def)
    then show ?thesis
      by (rule drr_class.request_class [where pr = drr_print_opt, OF _ _ r _ assms(5)]) (use drr drr_printed in \<open>auto simp: util_defs\<close>)
  next
    case (qfq as w m)
    have "class_accepts qfq_attr_word argv (attrs_size as) (\<lambda>bs. holds_attrs bs as)"
      using qfq(3-5) by (auto simp: class_accepts_def)
    then show ?thesis
      by (rule qfq_class.request_class [where pr = qfq_print_opt, OF _ _ r _ assms(5)]) (use qfq qfq_printed in \<open>auto simp: util_defs\<close>)
  next
    case (htb kind v core hz w as sh)
    have k: "class_word kind" using htb(3) by auto
    show ?thesis
      by (rule htb_class.options_class [OF htb(4) _ _ _ _ r assms(5)]) (use htb k in \<open>auto simp: util_defs parse_defs\<close>)
  next
    case (hfsc core v w as iec)
    have "w = []" using hfsc(4) by (auto simp: hfsc_made_def split: if_splits)
    then have "hfsc_accepts core argv (attrs_size as) (\<lambda>bs. holds_attrs bs as)" using hfsc(3,4) by (auto simp: hfsc_accepts_def)
    then show ?thesis
      by (rule hfsc_class.request_class [where pr = "hfsc_print_class_opt core iec", OF _ _ r _ assms(5)]) (use hfsc curves_printed in \<open>auto simp: util_defs\<close>)
  next
    case (dsmark as m w)
    have "class_accepts dsmark_attr_word argv (attrs_size as) (\<lambda>bs. holds_attrs bs as)"
      using dsmark(3-5) by (auto simp: class_accepts_def)
    then show ?thesis
      by (rule dsmark_class.request_class [where pr = dsmark_print_opt, OF _ _ r _ assms(5)])
        (use dsmark dsmark_printed [of _ as m w None None] dsmark_class_types [OF dsmark(3)] in \<open>auto simp: util_defs\<close>)
  qed
qed

definition no_filter :: class_filter where
  "no_filter = \<lparr>cf_ifindex = 0, cf_qdisc = 0, cf_classid = 0\<rparr>"

theorem class_requests_witness:
  "class_shows (small_env drr_qdisc_util) [''add'', ''dev'', ''wan'', ''parent'', print_tc_classid 63 0x10000, ''classid'',
     print_tc_classid 63 0x10002, ''drr'', ''quantum'', show_dec 1500] (small_st, no_filter) drr_qdisc_util 7 0x10000 0x10002
     (''quantum '' @ sprint_size 1500 @ '' '')"
proof -
  let ?as = "[(word_of_nat TCA_DRR_QUANTUM, le32_bytes 1500)] :: attr list"
  have "get_size (show_dec 1500) = Some 1500" using get_size_decimal [of 1500] by simp
  then have o: "class_text drr_qdisc_util [''quantum'', show_dec 1500] (''quantum '' @ sprint_size 1500 @ '' '')"
    by (intro class_text.drr [of _ ?as])
      (simp_all add: reads_options_def drr_attr_word_def read_opt_def attr_size_def RTA_ALIGN_def attr_map_def TCA_DRR_QUANTUM_def)
  have i: "get_tc_classid (print_tc_classid 63 0x10000) = Some 0x10000" "get_tc_classid (print_tc_classid 63 0x10002) = Some 0x10002"
    using classid_reads [of 63] by simp_all
  have p: "parse_qopt drr_qdisc_util \<noteq> None" "q_id drr_qdisc_util = ''drr''" by (simp_all add: drr_qdisc_util_def)
  obtain ks where k: "get_qdisc_kind (e_dl (small_env drr_qdisc_util)) (q_id drr_qdisc_util) (ts_kinds small_st) = (drr_qdisc_util, ks)"
    using small_kind [OF p(1)] by blast
  obtain st2 where f: "find_device (small_env drr_qdisc_util) ''wan'' (small_st\<lparr>ts_kinds := ks\<rparr>) = (Inr 7, st2)" using small_device by blast
  show ?thesis using class_requests [OF o k _ _ f i, of no_filter] by (simp add: p(2))
qed

text \<open>
  C34: a class comes back as it was typed. \<open>tc class add dev D parent P classid C qfq\<close> with a
  weight and a packet size sends one request that names the interface of the device, the two
  identifiers and the discipline, and its options print as the weight and the size typed.
\<close>
theorem class_request:
  assumes "get_qdisc_kind (e_dl env) ''qfq'' (ts_kinds st) = (qfq_qdisc_util, ks)" "d \<noteq> []" "length d \<le> 15"
    and "find_device env d (st\<lparr>ts_kinds := ks\<rparr>) = (Inr idx, st2)" "get_tc_classid p = Some ph" "get_tc_classid c = Some ch"
    and "w < 2 ^ 32" "m < 2 ^ 32"
  shows "\<exists>r st' b rta. do_class env [''add'', ''dev'', d, ''parent'', p, ''classid'', c, ''qfq'', ''weight'', show_dec w, ''maxpkt'', show_dec m] (st, cf)
        = (r, st', cf)
    \<and> ts_requests st' = ts_requests st @ [b]
    \<and> view_request b = \<lparr>v_type = RTM_NEWTCLASS, v_flags = NLM_F_REQUEST OR (NLM_F_EXCL OR NLM_F_CREATE) OR NLM_F_ACK, v_ifindex = idx,
        v_handle = ch, v_parent = ph, v_kind = Some ''qfq'', v_options = Some rta\<rparr>
    \<and> qfq_print_opt (Some rta) = (0, ''weight '' @ show_dec w @ '' maxpkt '' @ show_dec m @ '' '')"
proof -
  let ?as = "[(word_of_nat TCA_QFQ_WEIGHT, le32_bytes (word_of_nat w)), (word_of_nat TCA_QFQ_LMAX, le32_bytes (word_of_nat m))] :: attr list"
  let ?argv = "[''weight'', show_dec w, ''maxpkt'', show_dec m]"
  have "get_u32 (show_dec w) 10 = Some (word_of_nat w)" "get_u32 (show_dec m) 10 = Some (word_of_nat m)"
    using u32_parser.decimal [of w] u32_parser.decimal [of m] assms(7,8) by simp_all
  then have "reads_options qfq_attr_word [] ?argv ?as"
    by (simp add: reads_options_def qfq_attr_word_def read_opt_def matches_def)
  moreover have sz: "attrs_size ?as = 16" by (simp add: attr_size_def RTA_ALIGN_def)
  ultimately have acc: "class_accepts qfq_attr_word ?argv 16 (\<lambda>bs. holds_attrs bs ?as)"
    unfolding class_accepts_def by (intro exI [of _ ?as]) simp
  have cw: "class_word ''qfq''" by (simp add: class_word_def matches_def)
  have l: "lookup_kind env ''qfq'' st = (qfq_qdisc_util, st\<lparr>ts_kinds := ks\<rparr>)" using assms(1) by (simp add: lookup_kind_def)
  have pc: "parse_copt qfq_qdisc_util = Some qfq_parse_class_opt" by (simp add: qfq_qdisc_util_def)
  obtain err b rta where b: "tc_class_modify env RTM_NEWTCLASS (NLM_F_EXCL OR NLM_F_CREATE) (''dev'' # d # ''parent'' # p # ''classid'' # c # ''qfq'' # ?argv) st =
      (talk_status (fst (rtnl_talk (ts_rth st2) (NLM_F_REQUEST OR (NLM_F_EXCL OR NLM_F_CREATE)) 0 False None (e_sent env) (e_answers env) ())),
       (complain err st2)\<lparr>ts_rth := (ts_rth st2)\<lparr>rh_seq := rh_seq (ts_rth st2) + 1\<rparr>, ts_requests := ts_requests st @ [b]\<rparr>)"
    "view_request b = \<lparr>v_type = RTM_NEWTCLASS, v_flags = NLM_F_REQUEST OR (NLM_F_EXCL OR NLM_F_CREATE) OR NLM_F_ACK, v_ifindex = idx,
        v_handle = ch, v_parent = ph, v_kind = Some ''qfq'', v_options = Some rta\<rparr>"
    "holds_attrs (rta_payload rta) ?as" "RTA_PAYLOAD rta = int 16"
    using qfq_class.modify_class [OF acc cw assms(2,3,5,6) l pc assms(4)] by metis
  have pl: "RTA_PAYLOAD rta = int (attrs_size ?as)" "attrs_size ?as \<le> 400" using b(4) by (simp_all only: sz)
  have u: "unat (word_of_nat w :: u32) = w" "unat (word_of_nat m :: u32) = m" using assms(7,8) by (simp_all add: unat_of_nat)
  have "qfq_print_opt (Some rta) = (0, ''weight '' @ show_dec w @ '' maxpkt '' @ show_dec m @ '' '')"
    using qfq_printed [OF b(3) pl, of "Some (word_of_nat w)" "Some (word_of_nat m)"]
    by (simp add: show_qfq_def attr_map_def TCA_QFQ_WEIGHT_def TCA_QFQ_LMAX_def show_u32_def u)
  moreover have "do_class env (''add'' # ''dev'' # d # ''parent'' # p # ''classid'' # c # ''qfq'' # ?argv) (st, cf) =
      change_class env RTM_NEWTCLASS (NLM_F_EXCL OR NLM_F_CREATE) (''dev'' # d # ''parent'' # p # ''classid'' # c # ''qfq'' # ?argv) (st, cf)"
    by (simp add: do_class_def matches_def)
  ultimately show ?thesis using b(1,2) by (auto simp: change_class_def)
qed

theorem class_request_witness:
  "\<exists>r st' b rta. do_class (small_env qfq_qdisc_util) [''add'', ''dev'', ''wan'', ''parent'', print_tc_classid 63 0x10000, ''classid'',
        print_tc_classid 63 0x10002, ''qfq'', ''weight'', show_dec 10, ''maxpkt'', show_dec 1500] (small_st, no_filter) = (r, st', no_filter)
    \<and> ts_requests st' = [b] \<and> v_parent (view_request b) = 0x10000 \<and> v_handle (view_request b) = 0x10002
    \<and> v_options (view_request b) = Some rta \<and> qfq_print_opt (Some rta) = (0, ''weight '' @ show_dec 10 @ '' maxpkt '' @ show_dec 1500 @ '' '')"
proof -
  have i: "get_tc_classid (print_tc_classid 63 0x10000) = Some 0x10000" "get_tc_classid (print_tc_classid 63 0x10002) = Some 0x10002"
    using classid_reads [of 63] by simp_all
  have p: "parse_qopt qfq_qdisc_util \<noteq> None" "q_id qfq_qdisc_util = ''qfq''" by (simp_all add: qfq_qdisc_util_def)
  obtain ks where k: "get_qdisc_kind (e_dl (small_env qfq_qdisc_util)) ''qfq'' (ts_kinds small_st) = (qfq_qdisc_util, ks)"
    using small_kind [OF p(1)] p(2) by auto
  obtain st2 where f: "find_device (small_env qfq_qdisc_util) ''wan'' (small_st\<lparr>ts_kinds := ks\<rparr>) = (Inr 7, st2)" using small_device by blast
  have r: "ts_requests small_st = []" by (simp add: small_st_def)
  show ?thesis
    using class_request [OF k _ _ f i, of 10 1500 no_filter] unfolding r by auto
qed

section \<open>The thresholds of choke\<close>

text \<open>
  C35: choke never sends thresholds out of order. Whatever is typed, when its parser succeeds
  the message holds options whose minimum is below the maximum and whose maximum is at most
  the limit, the maximum being a quarter of the limit and the minimum a third of the maximum
  where they were not given.
\<close>
theorem choke_accepts:
  assumes "choke_parse_opt lib argv n = Ret (0, err, n')"
  shows "\<exists>v q sbuf. reads_options choke_word (red_init 1000) argv v \<and> n' = nest_options 1024 (red_attrs q sbuf) n \<and> length sbuf = 256
    \<and> red_qth_min q < red_qth_max q \<and> red_qth_max q \<le> red_limit q \<and> red_limit q = red_limit (rv_opt v)
    \<and> red_qth_max q = (if red_qth_max (rv_opt v) = 0 then red_limit q div 4 else red_qth_max (rv_opt v))
    \<and> red_qth_min q = (if red_qth_min (rv_opt v) = 0 then red_qth_max q div 3 else red_qth_min (rv_opt v))"
proof -
  obtain v e where v: "opt_loop choke_word argv (red_init 1000) [] = Ret (Inr (v, e))" "send_nested (red_made (choke_options lib) v) e n = Ret (0, err, n')"
    using assms by (auto simp: choke_parse_opt_def run_options_def split: cli.splits sum.splits)
  then obtain w q sbuf where q: "choke_options lib v = Inr (w, q, sbuf)" "n' = nest_options 1024 (red_attrs q sbuf) n"
    by (auto simp: send_nested_def red_made_def split: sum.splits)
  have "reads_options choke_word (red_init 1000) argv v" using v(1) by (auto simp: reads_options_def)
  then show ?thesis using q(2) choke_thresholds [OF q(1)] red_options_table(2) [OF q(1)] by blast
qed

text \<open>A library in which every loop over the constants ends with its first turn.\<close>

definition small_lib :: red_lib where
  "small_lib = \<lparr>rl_core = \<lparr>tick_in_usec = 1, clock_factor = 1\<rparr>, rl_pow = (\<lambda>_ _. 0), rl_log = (\<lambda>_. d_of_int (- 1000)), rl_sbuf = (\<lambda>_. 0)\<rparr>"

definition small_choke :: red_vars where
  "small_choke = (red_init 1000)\<lparr>rv_rate := 1000000, rv_probability := d_of_int 5000, rv_opt := (rv_opt (red_init 1000))\<lparr>red_limit := 12\<rparr>\<rparr>"

lemma get_rate_8000000: "get_rate (show_dec 8000000) = Some 1000000"
  using strtod_decimal [of "[]" 8000000] by (simp add: get_rate_def after_number_def eq_commute [of "[]"] d_to_u32_def double_eval)

lemma scan_lf_decimal: "scan_lf (show_dec n) = Some (d_of_int (int n))"
  using strtod_decimal [of "[]" n] by (simp add: scan_lf_def after_number_def eq_commute [of "[]"])

lemma small_choke_read:
  "reads_options choke_word (red_init 1000) [''bandwidth'', show_dec 8000000, ''probability'', show_dec 5000, ''limit'', show_dec 12] small_choke"
proof -
  have "get_unsigned (show_dec 12) 0 = Some 12" using unsigned_parser.auto_base [of 12] by (simp add: UINT_MAX_def)
  then show ?thesis using get_rate_8000000 scan_lf_decimal [of 5000]
    by (simp add: reads_options_def choke_word_def read_opt_def small_choke_def red_init_def Let_def)
qed

lemma first_turn:
  "(1::double) < x \<Longrightarrow> red_eval_P_loop 32 i x = int i"
  "a \<le> (1 - pow_d (1 - W) (d_of_u32 b)) div W \<Longrightarrow> red_eval_ewma_loop pow_d a b 31 w W = int w"
  "m div one_shl c < d_of_int 512 \<Longrightarrow> red_clog_loop m 32 c = Some c"
  by (simp_all only: numeral_eq_Suc red_eval_P_loop.simps red_eval_ewma_loop.simps red_clog_loop.simps if_True)

lemma small_choke_average: "tc_red_eval_ewma (rl_pow small_lib) 1000 1 1000 = 1" "tc_red_eval_P 1000 3000 (d_of_int 5000) = 0"
  by (simp_all add: tc_red_eval_ewma_def tc_red_eval_P_def small_lib_def first_turn d_of_u32_def d_of_s32_def double_eval Let_def)

lemma small_choke_damping: "\<exists>sbuf. tc_red_eval_idle_damping (rl_core small_lib) (rl_log small_lib) 1 1000 1000000 t = (0, sbuf)"
proof -
  let ?l = "- rl_log small_lib (1 - 1 div one_shl 1) div d_of_u32 (tc_calc_xmittime (rl_core small_lib) 1000000 1000)"
  have "d_of_int 31 div ?l div one_shl 0 < d_of_int 512"
    by (simp add: small_lib_def d_of_u32_def tc_calc_xmittime_def tc_core_time2tick_def d_to_u32_def TIME_UNITS_PER_SEC_def one_shl_def d_of_s32_def shl32_def double_eval Let_def)
  from first_turn(3) [OF this] show ?thesis unfolding tc_red_eval_idle_damping_def Let_def by simp
qed

lemma small_choke_accepted: "\<exists>w q sbuf. choke_options small_lib small_choke = Inr (w, q, sbuf)"
proof -
  obtain sbuf where "tc_red_eval_idle_damping (rl_core small_lib) (rl_log small_lib) 1 1000 1000000 (map (rl_sbuf small_lib) [0..<256]) = (0, sbuf)"
    using small_choke_damping by blast
  then show ?thesis
    by (simp add: choke_options_def small_choke_def red_init_def choke_defaults_def red_constants_def small_choke_average word_le_nat_alt Let_def)
qed

theorem choke_accepts_witness:
  "\<exists>v (q :: tc_red_qopt). reads_options choke_word (red_init 1000) [''bandwidth'', show_dec 8000000, ''probability'', show_dec 5000, ''limit'', show_dec 12] v
    \<and> red_limit q = red_limit (rv_opt v) \<and> red_qth_min q < red_qth_max q \<and> red_qth_max q \<le> red_limit q"
proof -
  let ?argv = "[''bandwidth'', show_dec 8000000, ''probability'', show_dec 5000, ''limit'', show_dec 12]"
  let ?n = "\<lparr>nlmsg_len = 36, nl_buf = replicate REQ_SIZE 0\<rparr>"
  obtain w q sbuf where q: "choke_options small_lib small_choke = Inr (w, q, sbuf)" using small_choke_accepted by blast
  obtain err where "opt_loop choke_word ?argv (red_init 1000) [] = Ret (Inr (small_choke, err))"
    using small_choke_read by (auto simp: reads_options_def)
  then have "choke_parse_opt small_lib ?argv ?n = Ret (0, err @ w, nest_options 1024 (red_attrs q sbuf) ?n)"
    by (simp add: choke_parse_opt_def run_options_def send_nested_def red_made_def q)
  from choke_accepts [OF this] obtain v and p :: tc_red_qopt where "reads_options choke_word (red_init 1000) ?argv v"
    "red_limit p = red_limit (rv_opt v)" "red_qth_min p < red_qth_max p" "red_qth_max p \<le> red_limit p" by blast
  then show ?thesis by blast
qed

end
