(* ===== verification/Tc_Main.thy ===== *)
theory Tc_Main
  imports Tc_Class Utils_Cli
begin

text \<open>
  The main program of the command (\<open>tc/tc.c\<close>): its options, the choice of the object, and batch
  files. What the system answers to a command is a function of the options and of the line the
  command stands on; the filters, actions and the monitor are arguments, and so are the files.
  The ticks that \<open>tc_core_init\<close> finds out are part of what the kinds of disciplines are given.
\<close>

section \<open>One command\<close>

definition main_usage :: string where
  "main_usage = ''Usage: tc [ OPTIONS ] OBJECT { COMMAND | help }'' @ [CHR 0x0A]
     @ ''       tc [-force] -batch filename'' @ [CHR 0x0A]
     @ ''where  OBJECT := { qdisc | class | filter | action | monitor }'' @ [CHR 0x0A]
     @ ''       OPTIONS := { -s[tatistics] | -d[etails] | -r[aw] | -p[retty] | -b[atch] [filename] }'' @ [CHR 0x0A]"

record tc_flags =
  show_stats :: int
  show_details :: int
  show_raw :: int
  show_pretty :: int
  use_iec :: int
  force :: int
  do_batching :: bool
  batchfile :: "string option"

definition no_flags :: tc_flags where
  "no_flags = \<lparr>show_stats = 0, show_details = 0, show_raw = 0, show_pretty = 0, use_iec = 0, force = 0, do_batching = False, batchfile = None\<rparr>"

record tc_sys =
  sys_env :: "tc_flags \<Rightarrow> int \<Rightarrow> tc_env"
  sys_filter :: "string list \<Rightarrow> class_state \<Rightarrow> tc_result \<times> class_state"
  sys_action :: "string list \<Rightarrow> class_state \<Rightarrow> tc_result \<times> class_state"
  sys_monitor :: "string list \<Rightarrow> class_state \<Rightarrow> tc_result \<times> class_state"
  sys_stdin :: string
  sys_files :: "string \<Rightarrow> string + string"
  sys_opens :: bool

text \<open>The flags of the command, as the printers see them.\<close>

definition env_of :: "tc_sys \<Rightarrow> tc_flags \<Rightarrow> int \<Rightarrow> tc_env" where
  "env_of sys fl k = (sys_env sys fl k)\<lparr>e_show_details := show_details fl \<noteq> 0, e_show_stats := show_stats fl \<noteq> 0,
     e_show_raw := show_raw fl \<noteq> 0, e_use_iec := use_iec fl \<noteq> 0\<rparr>"

definition say_err :: "string \<Rightarrow> class_state \<Rightarrow> class_state" where
  "say_err msg = apfst (complain msg)"

text \<open>The function holds twelve lines of a Python program between the last two cases, which are left out.\<close>

definition do_cmd :: "tc_sys \<Rightarrow> tc_env \<Rightarrow> string list \<Rightarrow> class_state \<Rightarrow> tc_result \<times> class_state" where
  "do_cmd sys env argv cst =
     (let kw = hd argv; argv = tl argv
      in if matches kw ''qdisc'' = 0 then (case do_qdisc env argv (fst cst) of (r, st) \<Rightarrow> (r, st, snd cst))
         else if matches kw ''class'' = 0 then do_class env argv cst
         else if matches kw ''filter'' = 0 then sys_filter sys argv cst
         else if matches kw ''actions'' = 0 then sys_action sys argv cst
         else if matches kw ''monitor'' = 0 then sys_monitor sys argv cst
         else if matches kw ''help'' = 0 then (Status 0, say_err main_usage cst)
         else (Status (- 1), say_err (''Object \"'' @ kw @ ''\" is unknown, try \"tc help\".'' @ [CHR 0x0A]) cst))"

section \<open>Batch files\<close>

lemma getcmdline_loop_left: "getcmdline_loop cc line fp k = (cc', line', fp', k') \<Longrightarrow> length fp' \<le> length fp"
proof (induction cc line fp k rule: getcmdline_loop.induct)
  case (1 cc line fp k)
  show ?case
  proof (cases "before_continuation line")
    case None
    then show ?thesis using 1(2) by (simp add: getcmdline_loop.simps [of cc line fp k])
  next
    case (Some pre)
    show ?thesis
    proof (cases "getline fp")
      case None
      then show ?thesis using 1(2) Some by (simp add: getcmdline_loop.simps [of cc line fp k])
    next
      case g: (Some lr)
      obtain l r where lr: "lr = (l, r)" by fastforce
      have "length fp' \<le> length r"
        using 1(2) Some g lr by (intro 1(1) [OF Some g lr [symmetric]]) (simp add: getcmdline_loop.simps [of cc line fp k])
      then show ?thesis using getline_shorter [OF g [unfolded lr]] by simp
    qed
  qed
qed

lemma getcmdline_shorter:
  assumes "getcmdline fp k = (cc, line, fp', k')" "cc \<noteq> - 1"
  shows "length fp' < length fp"
proof -
  obtain l r where l: "getline fp = Some (l, r)" using assms by (cases "getline fp") (auto simp: getcmdline_def)
  then have "length fp' \<le> length r" using assms getcmdline_loop_left by (fastforce simp: getcmdline_def)
  then show ?thesis using getline_shorter [OF l] by simp
qed

definition command_failed :: "string option \<Rightarrow> int \<Rightarrow> string" where
  "command_failed name k =
     ''Command failed '' @ (case name of None \<Rightarrow> ''(null)'' | Some s \<Rightarrow> s) @ '':'' @ show_int k @ [CHR 0x0A]"

text \<open>The lines of a file; a command that does not come back with a status ends the loop.\<close>

function batch_loop :: "tc_sys \<Rightarrow> tc_flags \<Rightarrow> string option \<Rightarrow> string \<Rightarrow> int \<Rightarrow> int \<Rightarrow> class_state \<Rightarrow> tc_result \<times> class_state" where
  "batch_loop sys fl name fp k ret cst =
     (let (cc, line, fp', k') = getcmdline fp k
      in if cc = - 1 then (Status ret, cst)
         else case makeargs line 100 of
                Exit c msg \<Rightarrow> (Quit c, say_err msg cst)
              | Ret argv \<Rightarrow>
                  if argv = [] then batch_loop sys fl name fp' k' ret cst
                  else (case do_cmd sys (env_of sys fl k') argv cst of
                          (Status r, cst) \<Rightarrow>
                            if r = 0 then batch_loop sys fl name fp' k' ret cst
                            else if force fl = 0 then (Status 1, say_err (command_failed name k') cst)
                            else batch_loop sys fl name fp' k' 1 (say_err (command_failed name k') cst)
                        | (r, cst) \<Rightarrow> (r, cst)))"
  by pat_completeness auto

termination
  by (relation "measure (\<lambda>(sys, fl, name, fp, k, ret, cst). length fp)") (auto dest: getcmdline_shorter [OF sym])

declare batch_loop.simps [simp del]

definition batch :: "tc_sys \<Rightarrow> tc_flags \<Rightarrow> string option \<Rightarrow> class_state \<Rightarrow> tc_result \<times> class_state" where
  "batch sys fl name cst =
     (let run = (\<lambda>fp. if \<not> sys_opens sys then (Status (- 1), say_err (''Cannot open rtnetlink'' @ [CHR 0x0A]) cst)
                      else batch_loop sys fl name fp 0 0 cst)
      in case name of
           None \<Rightarrow> run (sys_stdin sys)
         | Some s \<Rightarrow>
             if s = ''-'' then run (sys_stdin sys)
             else case sys_files sys s of
                    Inl reason \<Rightarrow> (Status (- 1), say_err (''Cannot open file \"'' @ s @ ''\" for reading: '' @ reason @ [CHR 0x0A]) cst)
                  | Inr fp \<Rightarrow> run fp)"

section \<open>The program\<close>

text \<open>The options in front of the object: the flags and the arguments left, or a status and what is printed.\<close>

datatype main_stop = Version | Help | Unknown string

fun main_options :: "string list \<Rightarrow> tc_flags \<Rightarrow> main_stop + tc_flags \<times> string list" where
  "main_options [] fl = Inr (fl, [])"
| "main_options (a # argv) fl =
     (if a = [] \<or> hd a \<noteq> CHR ''-'' then Inr (fl, a # argv)
      else if matches a ''-stats'' = 0 \<or> matches a ''-statistics'' = 0 then main_options argv (fl\<lparr>show_stats := show_stats fl + 1\<rparr>)
      else if matches a ''-details'' = 0 then main_options argv (fl\<lparr>show_details := show_details fl + 1\<rparr>)
      else if matches a ''-raw'' = 0 then main_options argv (fl\<lparr>show_raw := show_raw fl + 1\<rparr>)
      else if matches a ''-pretty'' = 0 then main_options argv (fl\<lparr>show_pretty := show_pretty fl + 1\<rparr>)
      else if matches a ''-Version'' = 0 then Inl Version
      else if matches a ''-iec'' = 0 then main_options argv (fl\<lparr>use_iec := use_iec fl + 1\<rparr>)
      else if matches a ''-help'' = 0 then Inl Help
      else if matches a ''-force'' = 0 then main_options argv (fl\<lparr>force := force fl + 1\<rparr>)
      else if matches a ''-batch'' = 0 then
        (case argv of
           [] \<Rightarrow> Inr (fl\<lparr>do_batching := True\<rparr>, [])
         | name # argv \<Rightarrow> main_options argv (fl\<lparr>do_batching := True, batchfile := Some name\<rparr>))
      else Inl (Unknown a))"

definition SNAPSHOT :: string where "SNAPSHOT = ''111117''"

definition tc_main :: "tc_sys \<Rightarrow> string list \<Rightarrow> class_state \<Rightarrow> tc_result \<times> class_state" where
  "tc_main sys argv cst =
     (case main_options argv no_flags of
        Inl Version \<Rightarrow> (Status 0, apfst (say (''tc utility, iproute2-ss'' @ SNAPSHOT @ [CHR 0x0A])) cst)
      | Inl Help \<Rightarrow> (Status 0, say_err main_usage cst)
      | Inl (Unknown a) \<Rightarrow> (Status (- 1), say_err (''Option \"'' @ a @ ''\" is unknown, try \"tc -help\".'' @ [CHR 0x0A]) cst)
      | Inr (fl, rest) \<Rightarrow>
          if do_batching fl then batch sys fl (batchfile fl) cst
          else if rest = [] then (Status 0, say_err main_usage cst)
          else if \<not> sys_opens sys then (Quit 1, say_err (''Cannot open rtnetlink'' @ [CHR 0x0A]) cst)
          else do_cmd sys (env_of sys fl 0) rest cst)"

section \<open>A batch file runs its commands\<close>

text \<open>A line of words with blanks between them, and a file of such lines.\<close>

definition command_line :: "(string \<times> string) list \<Rightarrow> bool" where
  "command_line xs \<longleftrightarrow> length xs < 100
     \<and> (\<forall>(sep, t) \<in> set (tl xs). sep \<noteq> [])
     \<and> (\<forall>(sep, t) \<in> set xs. set sep \<subseteq> {CHR '' '', CHR 0x09} \<and> t \<noteq> [] \<and> plain_line t \<and> set t \<inter> set makeargs_ws = {})"

definition batch_file :: "(string \<times> string) list list \<Rightarrow> string" where
  "batch_file ls = concat (map (\<lambda>xs. spaced xs [CHR 0x0A]) ls)"

text \<open>The commands of the lines from \<open>k\<close> on succeed one after the other.\<close>

inductive succeed :: "tc_sys \<Rightarrow> tc_flags \<Rightarrow> int \<Rightarrow> string list list \<Rightarrow> class_state \<Rightarrow> class_state \<Rightarrow> bool"
  for sys fl where
  none: "succeed sys fl k [] cst cst"
| blank: "succeed sys fl (k + 1) css cst cst' \<Longrightarrow> succeed sys fl k ([] # css) cst cst'"
| command: "do_cmd sys (env_of sys fl (k + 1)) (w # ws) cst = (Status 0, cst1) \<Longrightarrow> succeed sys fl (k + 1) css cst1 cst' \<Longrightarrow>
    succeed sys fl k ((w # ws) # css) cst cst'"

lemma spaced_plain: "command_line xs \<Longrightarrow> plain_line (spaced xs [])"
  by (fastforce simp: command_line_def plain_line_def spaced_def)

lemma makeargs_line:
  assumes "command_line xs"
  shows "makeargs (spaced xs [CHR 0x0A]) 100 = Ret (map snd xs)"
proof -
  have "strtok_all makeargs_ws (spaced xs [CHR 0x0A]) = map snd xs"
  proof (cases xs)
    case Nil
    then show ?thesis using strtok_all_blank [of "[CHR 0x0A]" makeargs_ws] by (simp add: spaced_def makeargs_ws_def)
  next
    case (Cons x ys)
    obtain sep t where x: "x = (sep, t)" by fastforce
    have ys: "\<forall>(sep, t) \<in> set ys. sep \<noteq> [] \<and> set sep \<subseteq> set makeargs_ws \<and> t \<noteq> [] \<and> set t \<inter> set makeargs_ws = {}"
      using assms Cons by (fastforce simp: command_line_def makeargs_ws_def)
    have "spaced ys [CHR 0x0A] = [] \<or> hd (spaced ys [CHR 0x0A]) \<in> set makeargs_ws"
    proof (cases ys)
      case Nil
      then show ?thesis by (simp add: spaced_def makeargs_ws_def)
    next
      case (Cons y zs)
      then have "fst y \<noteq> []" "set (fst y) \<subseteq> set makeargs_ws" using ys by auto
      then have "hd (fst y) \<in> set makeargs_ws" by (cases "fst y") auto
      then show ?thesis using Cons \<open>fst y \<noteq> []\<close> by (cases y) (simp add: spaced_def)
    qed
    then have "strtok_all makeargs_ws (sep @ t @ spaced ys [CHR 0x0A]) = t # strtok_all makeargs_ws (spaced ys [CHR 0x0A])"
      using assms Cons x by (intro strtok_all_step) (auto simp: command_line_def makeargs_ws_def)
    then show ?thesis using strtok_all_spaced [OF ys, of "[CHR 0x0A]"] Cons x by (simp add: spaced_def makeargs_ws_def)
  qed
  then show ?thesis using assms makeargs_loop_eq [of "[]" 100 "map snd xs"] by (simp add: makeargs_def command_line_def)
qed

lemma batch_line:
  assumes "command_line xs"
  shows "batch_loop sys fl name (spaced xs [CHR 0x0A] @ fp) k ret cst =
    (if xs = [] then batch_loop sys fl name fp (k + 1) ret cst
     else case do_cmd sys (env_of sys fl (k + 1)) (map snd xs) cst of
            (Status r, cst) \<Rightarrow>
              if r = 0 then batch_loop sys fl name fp (k + 1) ret cst
              else if force fl = 0 then (Status 1, say_err (command_failed name (k + 1)) cst)
              else batch_loop sys fl name fp (k + 1) 1 (say_err (command_failed name (k + 1)) cst)
          | (r, cst) \<Rightarrow> (r, cst))"
proof -
  have s: "spaced xs [CHR 0x0A] = spaced xs [] @ [CHR 0x0A]" by (simp add: spaced_def)
  have g: "getcmdline (spaced xs [CHR 0x0A] @ fp) k =
      (int (length (spaced xs [CHR 0x0A])), spaced xs [CHR 0x0A], fp, k + 1)"
    using getcmdline_joins [of "[]" "spaced xs []" fp k] spaced_plain [OF assms] unfolding s by (simp add: continued_def)
  show ?thesis
    by (subst batch_loop.simps) (auto simp: g makeargs_line [OF assms] Let_def)
qed

lemma batch_file_simps [simp]:
  "batch_file [] = []" "batch_file (xs # ls) = spaced xs [CHR 0x0A] @ batch_file ls" "batch_file (ls @ ls') = batch_file ls @ batch_file ls'"
  by (simp_all add: batch_file_def)

lemma batch_prefix:
  assumes "succeed sys fl k css cst cst'" "css = map (map snd) ls" "\<forall>xs \<in> set ls. command_line xs"
  shows "batch_loop sys fl name (batch_file ls @ fp) k ret cst = batch_loop sys fl name fp (k + int (length ls)) ret cst'"
  using assms
proof (induction arbitrary: ls rule: succeed.induct)
  case (blank k css cst cst')
  then obtain ls' where "ls = [] # ls'" "css = map (map snd) ls'" by (cases ls) auto
  then show ?case using blank batch_line [of "[]" sys fl name] by (simp add: add.assoc)
next
  case (command k w ws cst cst1 css cst')
  then obtain xs ls' where "ls = xs # ls'" "css = map (map snd) ls'" "map snd xs = w # ws" "xs \<noteq> []" by (cases ls) auto
  then show ?case using command batch_line [of xs sys fl name] by (simp add: add.assoc)
qed simp

lemma batch_end: "batch_loop sys fl name [] k ret cst = (Status ret, cst)"
  by (subst batch_loop.simps) (simp add: getcmdline_def getline_def)

text \<open>
  C36: a batch file does what its commands do one after the other. When the commands of a file
  succeed in turn, \<open>tc -batch\<close> returns 0 in the state they lead to. At the first command that fails
  it prints the number of its line and returns 1, whatever lines follow.
\<close>
theorem batch_runs:
  assumes "sys_files sys name = Inr (batch_file (ls @ ls'))" "name \<noteq> ''-''" "sys_opens sys" "\<forall>xs \<in> set (ls @ ls'). command_line xs"
    and "succeed sys (no_flags\<lparr>do_batching := True, batchfile := Some name\<rparr>) 0 (map (map snd) ls) cst cst1"
  shows "(ls' = [] \<longrightarrow> tc_main sys [''-batch'', name] cst = (Status 0, cst1))
    \<and> (\<forall>xs ls2 r cst2. ls' = xs # ls2 \<longrightarrow> xs \<noteq> [] \<longrightarrow> r \<noteq> 0 \<longrightarrow>
         do_cmd sys (env_of sys (no_flags\<lparr>do_batching := True, batchfile := Some name\<rparr>) (int (length ls) + 1)) (map snd xs) cst1 = (Status r, cst2) \<longrightarrow>
         tc_main sys [''-batch'', name] cst
           = (Status 1, say_err (''Command failed '' @ name @ '':'' @ show_int (int (length ls) + 1) @ [CHR 0x0A]) cst2))"
proof -
  let ?fl = "no_flags\<lparr>do_batching := True, batchfile := Some name\<rparr>"
  have "main_options [''-batch'', name] no_flags = Inr (?fl, [])" by (simp add: matches_def)
  then have m: "tc_main sys [''-batch'', name] cst = batch_loop sys ?fl (Some name) (batch_file ls @ batch_file ls') 0 0 cst"
    using assms(1-3) by (simp add: tc_main_def batch_def)
  have p: "batch_loop sys ?fl (Some name) (batch_file ls @ batch_file ls') 0 0 cst =
      batch_loop sys ?fl (Some name) (batch_file ls') (int (length ls)) 0 cst1"
    using batch_prefix [OF assms(5) refl, of "Some name" "batch_file ls'" 0] assms(4) by simp
  have f: "force ?fl = 0" by (simp add: no_flags_def)
  show ?thesis
    unfolding m p using assms(4) f by (auto simp: batch_end batch_line command_failed_def)
qed

text \<open>A system whose disciplines, filters and actions are not asked for anything.\<close>

definition quiet_sys :: "string \<Rightarrow> tc_sys" where
  "quiet_sys fp = \<lparr>sys_env = (\<lambda>_ _. \<lparr>e_dl = \<lparr>tc_lib_dir = None, dlopen = (\<lambda>_. None), dlsym_qdisc = (\<lambda>_ _. None), dlsym_filter = (\<lambda>_ _. None)\<rparr>,
     e_nametoindex = (\<lambda>_. 0), e_log = (\<lambda>x. x), e_malloc = (\<lambda>_. None), e_junk = [], e_show_details = False, e_show_stats = False,
     e_show_raw = False, e_use_iec = False, e_links_sent = True, e_links = [], e_sent = True, e_answers = [], e_buf = []\<rparr>),
     sys_filter = (\<lambda>_ cst. (Status 0, cst)), sys_action = (\<lambda>_ cst. (Status 0, cst)), sys_monitor = (\<lambda>_ cst. (Status 0, cst)),
     sys_stdin = [], sys_files = (\<lambda>_. Inr fp), sys_opens = True\<rparr>"

definition start_state :: class_state where
  "start_state = (\<lparr>ts_rth = \<lparr>rh_pid = 0, rh_seq = 0, rh_dump = 0\<rparr>, ts_map = ll_map_init,
     ts_kinds = \<lparr>BODY = None, qdisc_list = [], filter_list = []\<rparr>, ts_filter = 0, ts_err = [], ts_out = [], ts_requests = []\<rparr>,
     \<lparr>cf_ifindex = 0, cf_qdisc = 0, cf_classid = 0\<rparr>)"

theorem batch_runs_witness:
  "tc_main (quiet_sys (''help'' @ [CHR 0x0A, CHR 0x0A] @ ''queue  show'' @ [CHR 0x0A] @ ''help'' @ [CHR 0x0A])) [''-batch'', ''f''] start_state
     = (Status 1, say_err (main_usage @ ''Object \"queue\" is unknown, try \"tc help\".'' @ [CHR 0x0A] @ ''Command failed f:3'' @ [CHR 0x0A]) start_state)"
proof -
  let ?ls = "[[([], ''help'')], []] :: (string \<times> string) list list"
  let ?xs = "[([], ''queue''), (''  '', ''show'')] :: (string \<times> string) list"
  let ?ls' = "[?xs, [([], ''help'')]]"
  let ?sys = "quiet_sys (batch_file (?ls @ ?ls'))" and ?fl = "no_flags\<lparr>do_batching := True, batchfile := Some ''f''\<rparr>"
  have h: "do_cmd ?sys (env_of ?sys ?fl 1) [''help''] start_state = (Status 0, say_err main_usage start_state)"
    by (simp add: do_cmd_def matches_def)
  have "succeed ?sys ?fl 2 [] (say_err main_usage start_state) (say_err main_usage start_state)" by (rule succeed.none)
  then have "succeed ?sys ?fl 1 [[]] (say_err main_usage start_state) (say_err main_usage start_state)"
    using succeed.blank [of ?sys ?fl 1 "[]"] by simp
  then have s: "succeed ?sys ?fl 0 (map (map snd) ?ls) start_state (say_err main_usage start_state)"
    using succeed.command [of ?sys ?fl 0 "''help''" "[]" start_state "say_err main_usage start_state" "[[]]"] h by simp
  have f: "sys_files ?sys ''f'' = Inr (batch_file (?ls @ ?ls'))" "sys_opens ?sys" by (simp_all add: quiet_sys_def)
  have c: "\<forall>xs \<in> set (?ls @ ?ls'). command_line xs" by (simp add: command_line_def plain_line_def makeargs_ws_def)
  have u: "do_cmd ?sys (env_of ?sys ?fl (int (length ?ls) + 1)) (map snd ?xs) cst =
      (Status (- 1), say_err (''Object \"queue\" is unknown, try \"tc help\".'' @ [CHR 0x0A]) cst)" for cst
    by (simp add: do_cmd_def matches_def)
  have "tc_main ?sys [''-batch'', ''f''] start_state = (Status 1, say_err (''Command failed f:'' @ show_int 3 @ [CHR 0x0A])
      (say_err (''Object \"queue\" is unknown, try \"tc help\".'' @ [CHR 0x0A]) (say_err main_usage start_state)))"
    using batch_runs [OF f(1) _ f(2) c s, THEN conjunct2, rule_format, OF _ refl _ _ u] by simp
  moreover have "batch_file (?ls @ ?ls') = ''help'' @ [CHR 0x0A, CHR 0x0A] @ ''queue  show'' @ [CHR 0x0A] @ ''help'' @ [CHR 0x0A]"
    by (simp add: spaced_def)
  moreover have "show_int 3 = ''3''" by code_simp
  ultimately show ?thesis by (simp add: say_err_def complain_def start_state_def)
qed

end
