(* ===== verification/Trace_Export.thy ===== *)
theory Trace_Export
  imports Rbf_Qdisc C_Printf Utils_Num
begin

text \<open>
  How the trace of the queue leaves the kernel: the sequence file of \<open>queuedata/\<close>
  (\<open>seqfile_queuedata_rbfgrad.c\<close>), which shows the next entries of the trace at each reading,
  as many as fit in the page of the kernel's buffer and forty at most, and the program
  \<open>test/transfer.c\<close>, which turns the bit patterns of the text back into numbers.
\<close>

section \<open>The sequence file\<close>

text \<open>The static variables of the module. A position in the trace is an index, \<open>None\<close> the null pointer.\<close>

record seq_state =
  queue_array_count :: s32
  count :: s32

definition tab :: string where "tab = [CHR 0x09]"
definition newline :: string where "newline = [CHR 0x0A]"

definition seq_header :: string where
  "seq_header = ''Show queue length:'' @ newline
     @ ''numbers'' @ tab @ ''queue_length'' @ tab @ ''mark_type'' @ tab @ ''probability'' @ tab @ ''kp'' @ tab
     @ ''ki'' @ tab @ ''kd'' @ tab @ ''jacobian'' @ tab @ ''NetOut'' @ newline"

text \<open>The result is the text printed, the entry and the new state.\<close>

definition l_start :: "module_globals \<Rightarrow> nat \<Rightarrow> seq_state \<Rightarrow> string \<times> nat option \<times> seq_state" where
  "l_start g ps st =
     (if ps = 0 then
        (if queue_array_count st = 0 then seq_header else [],
         if sint (array_element g) > sint (queue_array_count st)
         then (Some (nat (sint (queue_array_count st))), st\<lparr>count := 1\<rparr>)
         else (None, st))
      else ([], None, st))"

definition l_next :: "module_globals \<Rightarrow> nat \<Rightarrow> nat \<Rightarrow> seq_state \<Rightarrow> nat option \<times> nat \<times> seq_state" where
  "l_next g l ps st =
     (let st = st\<lparr>queue_array_count := queue_array_count st + 1\<rparr>;
          st = st\<lparr>count := count st + 1\<rparr>
      in if ps \<noteq> 0 \<and> (sint (queue_array_count st) \<ge> sint (array_element g) \<or> sint (count st) > 40)
         then (None, ps, st)
         else (Some (l + 1), ps + 1, st))"

definition show_u :: "u32 \<Rightarrow> string" where
  "show_u w = show_dec (unat w)"

definition show_d :: "s32 \<Rightarrow> string" where
  "show_d w = show_int (sint w)"

definition show_lld :: "s64 \<Rightarrow> string" where
  "show_lld w = show_int (sint w)"

definition l_show :: "queue_show \<Rightarrow> string" where
  "l_show s =
     show_u (qs_numbers s) @ tab @ show_u (qs_length s) @ tab @ show_u (qs_mark_type s) @ tab
     @ show_lld (qs_p s) @ tab @ show_lld (qs_kp s) @ tab @ show_lld (qs_ki s) @ tab @ show_lld (qs_kd s) @ tab
     @ show_lld (qs_jacobian s) @ tab @ show_lld (qs_NetOut s) @ tab
     @ show_d (qs_e_k s) @ tab @ show_d (qs_e_k_1 s) @ tab @ show_d (qs_e_k_2 s) @ tab
     @ newline"

text \<open>
  One reading: the file is opened and read to its end by a program whose buffer is not smaller
  than the kernel's, such as \<open>cat\<close>. The file operations of the module are those of sequence
  files, and \<open>page\<close> is the size of the kernel's buffer. \<open>seq_read\<close> calls \<open>start\<close> and shows the
  first entry into the buffer; if the text with its terminator does not fit, it doubles the
  buffer and begins again. Then it asks for the next entry and shows it until there is none or
  one does not fit: that one is taken back, and the buffer is handed to the reader. The next
  call asks \<open>start\<close> for a position that is not zero and ends the reading. When \<open>start\<close> finds no
  entry, the text it has printed is discarded. The result is the text read and the entries in
  it; \<open>n\<close> bounds the calls of \<open>next\<close>.
\<close>

function grow :: "nat \<Rightarrow> nat \<Rightarrow> nat" where
  "grow page len = (if page = 0 \<or> len < page then page else grow (2 * page) len)"
  by pat_completeness auto

termination
  by (relation "measure (\<lambda>(page, len). Suc len - page)") auto

declare grow.simps [simp del]

fun seq_fill :: "nat \<Rightarrow> nat \<Rightarrow> module_globals \<Rightarrow> nat \<Rightarrow> nat \<Rightarrow> seq_state \<Rightarrow> string \<Rightarrow> (string \<times> nat list \<times> seq_state) option" where
  "seq_fill page 0 g l ps st buf = None"
| "seq_fill page (Suc n) g l ps st buf =
     (case l_next g l ps st of
        (None, ps, st) \<Rightarrow> Some (buf, [], st)
      | (Some l, ps, st) \<Rightarrow>
          let t = l_show (queue_show_base g ! l)
          in if length buf + length t < page
             then map_option (\<lambda>(b, ls, st). (b, l # ls, st)) (seq_fill page n g l ps st (buf @ t))
             else Some (buf, [], st))"

definition seq_reading :: "nat \<Rightarrow> module_globals \<Rightarrow> seq_state \<Rightarrow> (string \<times> nat list \<times> seq_state) option" where
  "seq_reading page g st =
     (case l_start g 0 st of
        (out, None, st) \<Rightarrow> Some ([], [], st)
      | (out, Some l, st) \<Rightarrow>
          let buf = out @ l_show (queue_show_base g ! l)
          in map_option (\<lambda>(b, ls, st). (b, l # ls, st)) (seq_fill (grow page (length buf)) 41 g l 0 st buf))"

text \<open>Beginning again repeats what \<open>start\<close> did, and a later call of it ends the reading.\<close>

lemma l_start_again:
  "l_start g 0 st = (out, v, st') \<Longrightarrow> l_start g 0 st' = (out, v, st')"
  "ps \<noteq> 0 \<Longrightarrow> l_start g ps st = ([], None, st)"
  by (auto simp: l_start_def split: if_splits)

definition PAGE_SIZE :: nat where "PAGE_SIZE = 4096"

section \<open>Back to numbers\<close>

definition ROW :: nat where "ROW = 20000"
definition TEXT_ROW :: nat where "TEXT_ROW = 2"
definition COL :: nat where "COL = 12"
definition CUR_MAX :: nat where "CUR_MAX = 4095"

text \<open>\<open>fscanf\<close> with \<open>%lld\<close>: without a number the variable keeps its value.\<close>

definition scan_lld :: "string \<Rightarrow> s64 \<Rightarrow> s64 \<times> string" where
  "scan_lld fp a =
     (let (v, rest) = strtol fp 10 in if rest = fp then (a, dropWhile c_isspace fp) else (v, rest))"

definition transfer_cell :: "nat \<Rightarrow> s64 \<Rightarrow> string" where
  "transfer_cell j a =
     (if j \<in> {3, 4, 5, 6, 7} then show_f 15 (Double a) @ tab
      else if j = 8 then show_f 15 (Double a * d_of_int 6500) @ tab
      else show_lld a @ tab)"

definition transfer_row :: "string \<times> s64 \<times> string \<Rightarrow> string \<times> s64 \<times> string" where
  "transfer_row st =
     (let (fp, a, out) =
        for_up 0 COL (\<lambda>j (fp, a, out).
          let (a, fp) = scan_lld fp a in (fp, a, out @ transfer_cell j a)) st
      in (fp, a, out @ newline))"

text \<open>
  The text of \<open>transfered_data.txt\<close>; both files can be opened. The variable \<open>a\<close> and the buffer
  are unset at first.
\<close>

definition transfer :: "s64 \<Rightarrow> string \<Rightarrow> string \<Rightarrow> string" where
  "transfer a buffer fp =
     (let (fp, buffer, out) =
        for_up 0 TEXT_ROW (\<lambda>i (fp, buffer, out).
          let (buffer, fp) = (case fgets CUR_MAX fp of None \<Rightarrow> (buffer, fp) | Some r \<Rightarrow> r)
          in (fp, buffer, if i = 1 then out @ buffer else out)) (fp, buffer, ''#'');
          (fp, a, out) = (transfer_row ^^ ROW) (fp, a, out)
      in out)"

section \<open>The numbers come back\<close>

text \<open>What follows a number in the trace.\<close>

definition ends_number :: "string \<Rightarrow> bool" where
  "ends_number r \<longleftrightarrow> r = [] \<or> \<not> is_digit 10 (hd r) \<and> hd r \<noteq> CHR ''x'' \<and> hd r \<noteq> CHR ''X''"

lemma strto_mag_blanks: "list_all c_isspace ws \<Longrightarrow> strto_mag b (ws @ s) = strto_mag b s"
  by (simp add: strto_mag_def dropWhile_append2 list_all_iff)

lemma strto_mag_int:
  assumes "ends_number r"
  shows "strto_mag 10 (show_int i @ r) = Some (i < 0, nat \<bar>i\<bar>, r)"
  using assms strto_mag_negative [of r "nat (- i)"] strto_mag_show [of 10 r "nat i"]
  by (auto simp: show_int_def ends_number_def)

lemma strtol_int:
  assumes "list_all c_isspace ws" "ends_number r" "- (2 ^ 63) \<le> i" "i < 2 ^ 63"
  shows "strtol (ws @ show_int i @ r) 10 = (word_of_int i, r)"
proof -
  have "strto_mag 10 (ws @ show_int i @ r) = Some (i < 0, nat \<bar>i\<bar>, r)"
    using assms(1,2) by (simp add: strto_mag_blanks strto_mag_int)
  moreover have "\<not> 2 ^ 63 < nat \<bar>i\<bar>" "0 \<le> i \<Longrightarrow> \<not> 2 ^ 63 \<le> nat \<bar>i\<bar>" using assms(3,4) by auto
  moreover have "i < 0 \<Longrightarrow> - word_of_nat (nat \<bar>i\<bar>) = (word_of_int i :: s64)" "0 \<le> i \<Longrightarrow> word_of_nat (nat \<bar>i\<bar>) = (word_of_int i :: s64)"
    by (simp_all add: of_nat_nat)
  ultimately show ?thesis by (auto simp: strtol_def)
qed

lemma show_int_nonempty: "show_int i \<noteq> []"
  by (simp add: show_int_def)

lemma scan_int:
  assumes "list_all c_isspace ws" "ends_number r" "- (2 ^ 63) \<le> i" "i < 2 ^ 63"
  shows "scan_lld (ws @ show_int i @ r) a = (word_of_int i, r)"
  using strtol_int [OF assms] show_int_nonempty [of i] by (simp add: scan_lld_def)

text \<open>The columns of a line as 64-bit numbers, and the line of the result.\<close>

definition columns :: "queue_show \<Rightarrow> int list" where
  "columns s =
     [uint (qs_numbers s), uint (qs_length s), uint (qs_mark_type s), sint (qs_p s), sint (qs_kp s), sint (qs_ki s),
      sint (qs_kd s), sint (qs_jacobian s), sint (qs_NetOut s), sint (qs_e_k s), sint (qs_e_k_1 s), sint (qs_e_k_2 s)]"

definition cells :: "s64 list \<Rightarrow> string" where
  "cells vs = concat (map2 transfer_cell [0..<COL] vs) @ newline"

lemma l_show_columns: "l_show s = concat (map (\<lambda>i. show_int i @ tab) (columns s)) @ newline"
  by (simp add: l_show_def columns_def show_u_def show_d_def show_lld_def show_int_def tab_def flip: unat_eq_nat_uint)

definition row_of :: "queue_show \<Rightarrow> string" where
  "row_of s = cells (map word_of_int (columns s))"

text \<open>The value the last column leaves in the variable of the program.\<close>

definition last_value :: "s64 \<Rightarrow> queue_show list \<Rightarrow> s64" where
  "last_value a es = (if es = [] then a else word_of_int (sint (qs_e_k_2 (last es))))"

lemma blanks: "list_all c_isspace tab" "list_all c_isspace newline" "ends_number (tab @ r)"
  by (simp_all add: tab_def newline_def c_isspace_def ends_number_def is_digit_def digit_val_def)

lemma columns_range: "\<forall>i \<in> set (columns s). - (2 ^ 63) \<le> i \<and> i < 2 ^ 63"
proof -
  have "- (2 ^ 63) \<le> uint (w :: u32)" for w by (rule order_trans [OF _ uint_ge_0]) simp
  moreover have "uint (w :: u32) < 2 ^ 63" for w by (rule le_less_trans [OF uint_u32_bounds(2)]) simp
  moreover have "- (2 ^ 63) \<le> sint (w :: s32)" for w by (rule order_trans [OF _ sint_s32_bounds(1)]) simp
  moreover have "sint (w :: s32) < 2 ^ 63" for w by (rule less_trans [OF sint_s32_bounds(2)]) simp
  moreover have "- (2 ^ 63) \<le> sint (w :: s64)" "sint (w :: s64) < 2 ^ 63" for w
    using signed_take_bit_int_greater_eq_minus_exp [of 63 "uint w"] signed_take_bit_int_less_exp [of 63 "uint w"]
    by (simp_all add: sint_uint)
  ultimately show ?thesis by (simp only: columns_def list.set ball_simps ball_empty insert_iff simp_thms)
qed

lemma scan_columns:
  assumes "list_all c_isspace ws" "\<forall>i \<in> set is. - (2 ^ 63) \<le> i \<and> i < 2 ^ 63"
  shows "fold (\<lambda>j (fp, a, out). let (a, fp) = scan_lld fp a in (fp, a, out @ transfer_cell j a)) [j..<j + length is]
      (ws @ concat (map (\<lambda>i. show_int i @ tab) is) @ r, a, out) =
    ((if is = [] then ws else tab) @ r, if is = [] then a else word_of_int (last is),
     out @ concat (map2 transfer_cell [j..<j + length is] (map word_of_int is)))"
  using assms
proof (induction "is" arbitrary: j ws a out)
  case (Cons i "is")
  have up: "[j..<j + length (i # is)] = j # [Suc j..<Suc j + length is]" by (subst upt_rec) simp
  have "scan_lld (ws @ show_int i @ tab @ concat (map (\<lambda>i. show_int i @ tab) is) @ r) a =
      (word_of_int i, tab @ concat (map (\<lambda>i. show_int i @ tab) is) @ r)"
    using Cons.prems blanks(3) by (intro scan_int) auto
  moreover note Cons.IH [of tab "Suc j" "word_of_int i" "out @ transfer_cell j (word_of_int i)"] Cons.prems blanks(1)
  ultimately show ?case unfolding up by simp
qed simp

lemma transfer_row_line:
  assumes "list_all c_isspace ws"
  shows "transfer_row (ws @ l_show s @ r, a, out) =
    (tab @ newline @ r, word_of_int (sint (qs_e_k_2 s)), out @ row_of s)"
proof -
  have "length (columns s) = COL" "columns s \<noteq> []" "last (columns s) = sint (qs_e_k_2 s)"
    by (simp_all add: columns_def COL_def)
  with scan_columns [OF assms columns_range [of s], of 0 "newline @ r" a out] show ?thesis
    by (simp add: transfer_row_def for_up_def l_show_columns row_of_def cells_def)
qed

lemma transfer_rows:
  assumes "list_all c_isspace ws"
  shows "\<exists>ws'. list_all c_isspace ws' \<and> (transfer_row ^^ length es) (ws @ concat (map l_show es) @ r, a, out) =
    (ws' @ r, last_value a es, out @ concat (map row_of es))"
  using assms
proof (induction es arbitrary: ws a out)
  case Nil
  then show ?case by (auto simp: last_value_def)
next
  case (Cons s es)
  have "transfer_row (ws @ concat (map l_show (s # es)) @ r, a, out) =
      ((tab @ newline) @ concat (map l_show es) @ r, word_of_int (sint (qs_e_k_2 s)), out @ row_of s)"
    using transfer_row_line [OF Cons.prems] by simp
  moreover obtain ws' where "list_all c_isspace ws'"
    "(transfer_row ^^ length es) ((tab @ newline) @ concat (map l_show es) @ r, word_of_int (sint (qs_e_k_2 s)), out @ row_of s) =
      (ws' @ r, last_value (word_of_int (sint (qs_e_k_2 s))) es, (out @ row_of s) @ concat (map row_of es))"
    using Cons.IH [of "tab @ newline"] blanks by fastforce
  ultimately show ?case
    by (intro exI [of _ ws']) (simp add: funpow_Suc_right last_value_def del: funpow.simps)
qed

lemma transfer_row_end:
  assumes "list_all c_isspace ws"
  shows "transfer_row (ws, a, out) = ([], a, out @ cells (replicate COL a))"
proof -
  have s: "scan_lld w a = (a, [])" if "list_all c_isspace w" for w
  proof -
    have "strto_mag 10 w = None"
      using strto_mag_blanks [OF that, of 10 "[]"] by (simp add: strto_mag_def take_sign_def num_prefix_def)
    then show ?thesis using that by (simp add: scan_lld_def strtol_def list_all_iff)
  qed
  have "fold (\<lambda>j (fp, a, out). let (a, fp) = scan_lld fp a in (fp, a, out @ transfer_cell j a)) js (w, a, out) =
      (if js = [] then w else [], a, out @ concat (map (\<lambda>j. transfer_cell j a) js))" if "list_all c_isspace w" for js w
    using that by (induction js arbitrary: w out) (auto simp: s)
  from this [OF assms, of "[0..<COL]"] show ?thesis
    by (simp add: transfer_row_def for_up_def cells_def COL_def zip_replicate2 comp_def)
qed

lemma transfer_rows_end:
  assumes "list_all c_isspace ws"
  shows "snd (snd ((transfer_row ^^ n) (ws, a, out))) = out @ concat (replicate n (cells (replicate COL a)))"
  using assms
proof (induction n arbitrary: ws out)
  case (Suc n)
  then show ?case using Suc.IH [of "[]"] by (simp add: funpow_Suc_right transfer_row_end del: funpow.simps)
qed simp

lemma fgets_line:
  assumes "CHR 0x0A \<notin> set l" "length l + 1 < n"
  shows "fgets n (l @ newline @ r) = Some (l @ newline, r)"
proof -
  have "\<forall>c \<in> set l. c \<noteq> CHR 0x0A" using assms(1) by auto
  note takeWhile_prefix(1) [where rest = "newline @ r", OF this]
  then show ?thesis using assms(2) by (simp add: fgets_def newline_def)
qed

definition column_line :: string where
  "column_line = ''numbers'' @ tab @ ''queue_length'' @ tab @ ''mark_type'' @ tab @ ''probability'' @ tab @ ''kp'' @ tab
     @ ''ki'' @ tab @ ''kd'' @ tab @ ''jacobian'' @ tab @ ''NetOut''"

lemma transfer_header:
  "for_up 0 TEXT_ROW (\<lambda>i (fp, buffer, out).
      let (buffer, fp) = (case fgets CUR_MAX fp of None \<Rightarrow> (buffer, fp) | Some r \<Rightarrow> r)
      in (fp, buffer, if i = 1 then out @ buffer else out)) (seq_header @ r, buffer, ''#'') =
    (r, column_line @ newline, ''#'' @ column_line @ newline)"
proof -
  let ?f = "\<lambda>i (fp, buffer, out).
      let (buffer, fp) = (case fgets CUR_MAX fp of None \<Rightarrow> (buffer, fp) | Some r \<Rightarrow> r)
      in (fp, buffer, if i = 1 then out @ buffer else out)"
  have "fgets CUR_MAX (column_line @ newline @ r) = Some (column_line @ newline, r)"
    by (rule fgets_line) (simp_all add: CUR_MAX_def column_line_def tab_def)
  then have "for_up 0 TEXT_ROW ?f (t @ newline @ column_line @ newline @ r, buffer, ''#'') =
      (r, column_line @ newline, ''#'' @ column_line @ newline)"
    if "fgets CUR_MAX (t @ newline @ column_line @ newline @ r) = Some (t @ newline, column_line @ newline @ r)" for t
    using that by (simp add: for_up_def TEXT_ROW_def numeral_2_eq_2)
  from this [OF fgets_line, of "''Show queue length:''"] show ?thesis
    by (simp add: CUR_MAX_def seq_header_def column_line_def)
qed

text \<open>The rows the program is to write, column by column.\<close>

definition trace_row :: "queue_show \<Rightarrow> string" where
  "trace_row s =
     show_u (qs_numbers s) @ tab @ show_u (qs_length s) @ tab @ show_u (qs_mark_type s) @ tab
     @ show_f 15 (Double (qs_p s)) @ tab @ show_f 15 (Double (qs_kp s)) @ tab
     @ show_f 15 (Double (qs_ki s)) @ tab @ show_f 15 (Double (qs_kd s)) @ tab
     @ show_f 15 (Double (qs_jacobian s)) @ tab @ show_f 15 (Double (qs_NetOut s) * d_of_int 6500) @ tab
     @ show_d (qs_e_k s) @ tab @ show_d (qs_e_k_1 s) @ tab @ show_d (qs_e_k_2 s) @ tab @ newline"

definition filler_row :: "s64 \<Rightarrow> string" where
  "filler_row a =
     concat (replicate 3 (show_lld a @ tab)) @ concat (replicate 5 (show_f 15 (Double a) @ tab))
     @ show_f 15 (Double a * d_of_int 6500) @ tab @ concat (replicate 3 (show_lld a @ tab)) @ newline"

lemma col_list: "[0..<COL] = [0, 1, 2, 3, 4, 5, 6, 7, 8, 9, 10, 11]"
  by (simp add: COL_def upt_rec)

lemma columns_shown:
  "show_lld (ucast (w :: u32)) = show_u w" "show_lld (scast (v :: s32)) = show_d v"
proof -
  have "- (2 ^ 63) \<le> uint w" "uint w < 2 ^ 63" "- (2 ^ 63) \<le> sint v" "sint v < 2 ^ 63"
    using order_trans [OF _ uint_ge_0 [of w]] le_less_trans [OF uint_u32_bounds(2) [of w]]
      order_trans [OF _ sint_s32_bounds(1) [of v]] less_trans [OF sint_s32_bounds(2) [of v]] by simp_all
  then have s: "sint (word_of_int (uint w) :: s64) = uint w" "sint (word_of_int (sint v) :: s64) = sint v"
    by (simp_all only: sint_of_s64)
  have "sint (ucast w :: s64) = uint w" "sint (scast v :: s64) = sint v" using s by simp_all
  then show "show_lld (ucast w) = show_u w" "show_lld (scast v) = show_d v"
    by (simp_all only: show_lld_def show_u_def show_d_def) (simp add: show_int_def flip: unat_eq_nat_uint)
qed

lemma row_of_eq: "row_of s = trace_row s"
  unfolding row_of_def cells_def col_list columns_def trace_row_def
  by (simp add: transfer_cell_def columns_shown)

lemma cells_filler: "cells (replicate COL a) = filler_row a"
  unfolding cells_def col_list filler_row_def
  by (simp add: COL_def eval_nat_numeral transfer_cell_def)

text \<open>
  C37: the trace survives the way out of the kernel. From the header and the lines of any
  entries, no more than the program has rows, it writes the line of column names as a
  comment and one row per entry: the counters and the errors are themselves, the probability,
  the gains and the Jacobian are the doubles their bit patterns stand for, and the output of
  the network is that double times 6500. The rows the trace does not fill repeat the last
  number read, as a number, as a bit pattern and as a bit pattern times 6500.
\<close>
theorem transfer_trace:
  assumes "length es \<le> ROW"
  shows "transfer a buffer (seq_header @ concat (map l_show es)) =
    ''#'' @ column_line @ newline @ concat (map trace_row es)
    @ concat (replicate (ROW - length es) (filler_row (last_value a es)))"
proof -
  let ?out = "''#'' @ column_line @ newline"
  obtain ws where ws: "list_all c_isspace ws" "(transfer_row ^^ length es) (concat (map l_show es), a, ?out) =
      (ws, last_value a es, ?out @ concat (map row_of es))"
    using transfer_rows [of "[]" es "[]" a ?out] by auto
  have "transfer_row ^^ ROW = (transfer_row ^^ (ROW - length es)) \<circ> (transfer_row ^^ length es)"
    using assms by (simp only: funpow_add [symmetric] le_add_diff_inverse2)
  then have "snd (snd ((transfer_row ^^ ROW) (concat (map l_show es), a, ?out))) =
      (?out @ concat (map row_of es)) @ concat (replicate (ROW - length es) (cells (replicate COL (last_value a es))))"
    by (simp only: comp_apply ws(2) transfer_rows_end [OF ws(1)])
  moreover have "map row_of es = map trace_row es" by (simp add: row_of_eq)
  ultimately show ?thesis
    unfolding transfer_def transfer_header
    by (simp only: Let_def case_prod_beta fst_conv snd_conv append_assoc cells_filler)
qed

text \<open>An entry as the module writes it.\<close>

definition sample_entry :: "s32 \<Rightarrow> queue_show" where
  "sample_entry n = \<lparr>qs_numbers = n, qs_length = 312, qs_mark_type = 1, qs_jacobian = 0, qs_NetOut = 4576918229304087675,
     qs_p = 4576918229304087675, qs_kp = 4574720472685930873, qs_ki = 4574720472685930873, qs_kd = 4576918229304087675,
     qs_SamIn = [], qs_SamOut = [], qs_proba = [], qs_queue_len = [], qs_e_k = 12, qs_e_k_1 = 9, qs_e_k_2 = - 4\<rparr>"

theorem transfer_trace_witness:
  "transfer 0 [] (seq_header @ l_show (sample_entry 0) @ l_show (sample_entry 1)) =
    ''#'' @ column_line @ newline @ trace_row (sample_entry 0) @ trace_row (sample_entry 1)
    @ concat (replicate (ROW - 2) (filler_row (- 4)))"
  using transfer_trace [of "[sample_entry 0, sample_entry 1]" 0 "[]"]
  by (simp add: ROW_def last_value_def sample_entry_def)

section \<open>What one reading shows\<close>

lemma sint_add_one: "sint (w :: s32) < 2147483647 \<Longrightarrow> sint (w + 1) = sint w + 1"
  using sint_plus_one [of w] sint_s32_bounds(1) [of w] by simp

text \<open>The end of a reading that starts at \<open>c\<close> with \<open>e\<close> entries recorded, if the buffer does not end it.\<close>

definition page_end :: "int \<Rightarrow> int \<Rightarrow> int" where
  "page_end c e = min (c + 40) (max e (c + 2))"

text \<open>The text of the first \<open>k\<close> entries from \<open>c\<close> on.\<close>

definition page_text :: "module_globals \<Rightarrow> int \<Rightarrow> int \<Rightarrow> string" where
  "page_text g c k =
     (if c = 0 then seq_header else []) @ concat (map (\<lambda>l. l_show (queue_show_base g ! nat l)) [c..c + k - 1])"

lemma page_text_next:
  "0 \<le> k \<Longrightarrow> page_text g c (k + 1) = page_text g c k @ l_show (queue_show_base g ! nat (c + k))"
  using upto_rec2 [of c "c + k"] by (simp add: page_text_def)

lemma page_text_first: "page_text g c 1 = (if c = 0 then seq_header else []) @ l_show (queue_show_base g ! nat c)"
  by (simp add: page_text_def)

text \<open>\<open>k\<close> entries are shown: all there are up to the limit, or as many as the buffer holds.\<close>

definition page_count :: "nat \<Rightarrow> module_globals \<Rightarrow> int \<Rightarrow> int \<Rightarrow> int \<Rightarrow> bool" where
  "page_count page g c e k \<longleftrightarrow> 1 \<le> k \<and> c + k \<le> page_end c e \<and> length (page_text g c k) < page \<and>
     (c + k = page_end c e \<or> page \<le> length (page_text g c (k + 1)))"

lemma seq_fill_page:
  assumes "0 \<le> c" "e = sint (array_element g)" "e < 30000" "c < e"
    and "l = sint (queue_array_count st)" "sint (count st) = l - c + 1" "ps = nat (l - c)"
    and "c \<le> l" "l < page_end c e" "page_end c e - l \<le> int n"
    and "buf = page_text g c (l - c + 1)" "length buf < page"
  shows "\<exists>k st'. l - c < k \<and> page_count page g c e k \<and>
    seq_fill page n g (nat l) ps st buf = Some (page_text g c k, map nat [l + 1..c + k - 1], st') \<and>
    sint (queue_array_count st') = c + k"
  using assms(5-)
proof (induction n arbitrary: l ps st buf)
  case 0
  then show ?case by simp
next
  case (Suc n)
  have pe: "page_end c e \<le> c + 40" "page_end c e \<le> 30001"
    using assms by (auto simp: page_end_def)
  define st1 where "st1 = st\<lparr>queue_array_count := queue_array_count st + 1, count := count st + 1\<rparr>"
  have q': "sint (queue_array_count st + 1) = l + 1" "sint (count st + 1) = l - c + 2"
    using Suc.prems pe by (simp_all add: sint_add_one)
  then have q: "sint (queue_array_count st1) = l + 1" "sint (count st1) = l - c + 2"
    by (simp_all add: st1_def)
  have stop: "ps \<noteq> 0 \<and> (l + 1 \<ge> e \<or> l - c + 2 > 40) \<longleftrightarrow> l + 1 = page_end c e"
    using Suc.prems(3-5) by (auto simp: page_end_def)
  show ?case
  proof (cases "l + 1 = page_end c e")
    case True
    then have "l_next g (nat l) ps st = (None, ps, st1)"
      using stop assms(2) by (auto simp: l_next_def Let_def q' simp flip: st1_def)
    moreover have "page_count page g c e (l - c + 1)"
      using True Suc.prems(4,7,8) by (simp add: page_count_def)
    ultimately show ?thesis using q(1) Suc.prems(7) by (intro exI [of _ "l - c + 1"] exI [of _ st1]) simp
  next
    case False
    have nl: "nat l + 1 = nat (l + 1)" "ps + 1 = nat (l + 1 - c)" using Suc.prems(3,4) assms(1) by (simp_all add: nat_add_distrib)
    from False have nx: "l_next g (nat l) ps st = (Some (nat (l + 1)), ps + 1, st1)"
      using stop assms(2) nl by (auto simp: l_next_def Let_def q' simp flip: st1_def)
    let ?t = "l_show (queue_show_base g ! nat (l + 1))"
    have t: "buf @ ?t = page_text g c (l + 1 - c + 1)"
      using page_text_next [of "l - c + 1" g c] Suc.prems(4,7) by (simp add: algebra_simps)
    show ?thesis
    proof (cases "length buf + length ?t < page")
      case True
      have "\<exists>k st'. l + 1 - c < k \<and> page_count page g c e k \<and>
          seq_fill page n g (nat (l + 1)) (ps + 1) st1 (buf @ ?t) = Some (page_text g c k, map nat [l + 1 + 1..c + k - 1], st') \<and>
          sint (queue_array_count st') = c + k"
      proof (rule Suc.IH)
        show "length (buf @ ?t) < page" using True by simp
        show "buf @ ?t = page_text g c (l + 1 - c + 1)" by (rule t)
      qed (use Suc.prems False q nl in simp_all)
      then obtain k st' where k: "l + 1 - c < k" "page_count page g c e k"
        "seq_fill page n g (nat (l + 1)) (ps + 1) st1 (buf @ ?t) = Some (page_text g c k, map nat [l + 1 + 1..c + k - 1], st')"
        "sint (queue_array_count st') = c + k" by blast
      have "[l + 1..c + k - 1] = (l + 1) # [l + 1 + 1..c + k - 1]" using k(1) by (simp add: upto_rec1)
      then show ?thesis using k nx True by (intro exI [of _ k] exI [of _ st']) simp
    next
      case no: False
      have "l - c + 1 + 1 = l + 1 - c + 1" by simp
      then have "page \<le> length (page_text g c (l - c + 1 + 1))" using no by (simp only: flip: t) simp
      then have "page_count page g c e (l - c + 1)"
        using Suc.prems(4,5,7,8) by (simp add: page_count_def)
      then show ?thesis
        using nx no q(1) Suc.prems(7) by (intro exI [of _ "l - c + 1"] exI [of _ st1]) simp
    qed
  qed
qed

text \<open>The header and one entry always fit in a page.\<close>

lemma show_int_length:
  assumes "- (2 ^ 63) \<le> i" "i < 2 ^ 63"
  shows "length (show_int i) \<le> 20"
proof -
  have "nat \<bar>i\<bar> \<le> 2 ^ 63" using assms by (simp add: nat_le_iff)
  then have "nat \<bar>i\<bar> < 10 ^ Suc 18" by simp
  then have "length (show_dec (nat \<bar>i\<bar>)) \<le> Suc 18" by (intro length_show_base) simp_all
  then show ?thesis by (auto simp: show_int_def)
qed

lemma l_show_length: "length (l_show s) \<le> 253"
proof -
  have "length (concat (map (\<lambda>i. show_int i @ tab) is)) \<le> 21 * length is" if "\<forall>i \<in> set is. - (2 ^ 63) \<le> i \<and> i < 2 ^ 63" for "is"
    using that
  proof (induction "is")
    case (Cons i "is")
    then show ?case using show_int_length [of i] by (simp add: tab_def)
  qed simp
  from this [OF columns_range [of s]] show ?thesis
    by (simp add: l_show_columns newline_def) (simp add: columns_def)
qed

lemma first_fits: "length (page_text g c 1) < PAGE_SIZE"
proof -
  have "length seq_header \<le> 200" by (simp add: seq_header_def tab_def newline_def)
  then show ?thesis
    using l_show_length [of "queue_show_base g ! nat c"] by (cases "c = 0") (simp_all add: page_text_first PAGE_SIZE_def)
qed

text \<open>
  C38: one reading of the trace by a program like \<open>cat\<close>, with the kernel's buffer of one page,
  shows the entries from the place the last reading stopped, in order: as many as there are
  up to forty, unless fewer fit in the page with the header of the first reading, and then as
  many as fit. The next reading goes on behind them. But a reading that has room always shows
  two entries, so with a single new entry it also shows the place behind the recorded ones and
  never shows what is recorded there later.
\<close>
theorem reading_page:
  assumes "c = sint (queue_array_count st)" "e = sint (array_element g)" "0 \<le> c" "c < e" "e < 30000"
  shows "\<exists>k st'. seq_reading PAGE_SIZE g st = Some (page_text g c k, map nat [c..c + k - 1], st') \<and>
    1 \<le> k \<and> c + k \<le> min (c + 40) (max e (c + 2)) \<and> length (page_text g c k) < PAGE_SIZE \<and>
    (c + k = min (c + 40) (max e (c + 2)) \<or> PAGE_SIZE \<le> length (page_text g c (k + 1))) \<and>
    sint (queue_array_count st') = c + k"
proof -
  let ?st = "st\<lparr>count := 1\<rparr>" and ?buf = "page_text g c 1"
  have c0: "queue_array_count st = 0 \<longleftrightarrow> c = 0"
    using assms(1) by (metis sint_0 signed_word_eqI)
  have start: "l_start g 0 st = (if c = 0 then seq_header else [], Some (nat c), ?st)"
    using assms(1,2,4) c0 by (simp add: l_start_def)
  have "\<exists>k st'. c - c < k \<and> page_count PAGE_SIZE g c e k \<and>
      seq_fill PAGE_SIZE 41 g (nat c) 0 ?st ?buf = Some (page_text g c k, map nat [c + 1..c + k - 1], st') \<and>
      sint (queue_array_count st') = c + k"
    by (rule seq_fill_page [OF assms(3,2,5,4)]) (use assms first_fits in \<open>auto simp: page_end_def\<close>)
  then obtain k st' where k: "0 < k" "page_count PAGE_SIZE g c e k"
    "seq_fill PAGE_SIZE 41 g (nat c) 0 ?st ?buf = Some (page_text g c k, map nat [c + 1..c + k - 1], st')"
    "sint (queue_array_count st') = c + k" by auto
  have "[c..c + k - 1] = c # [c + 1..c + k - 1]" using k(1) by (simp add: upto_rec1)
  moreover have "grow PAGE_SIZE (length ?buf) = PAGE_SIZE" using first_fits by (subst grow.simps) simp
  ultimately have "seq_reading PAGE_SIZE g st = Some (page_text g c k, map nat [c..c + k - 1], st')"
    using start k(3) by (simp add: seq_reading_def Let_def flip: page_text_first)
  then show ?thesis using k(2,4) by (auto simp: page_count_def page_end_def)
qed

text \<open>
  Forty entries of 120 bytes are recorded behind the first forty: the page takes 34 of them.
\<close>

definition sample_trace :: module_globals where
  "sample_trace = \<lparr>cyc_count = 0, prob_number = 0, pkg_number = 0, queue_show_base = replicate QUEUE_SHOW_MAX (sample_entry 40),
     array_element = 80, tsk_prob = Running, tsk_stop_prob = Running\<rparr>"

lemma sample_entry_length: "length (l_show (sample_entry 40)) = 120"
  by (simp add: l_show_def sample_entry_def show_u_def show_d_def show_lld_def show_int_def tab_def newline_def
      show_base.simps)

lemma sample_text:
  assumes "0 \<le> k" "k \<le> 41"
  shows "page_text sample_trace 40 k = concat (replicate (nat k) (l_show (sample_entry 40)))"
    and "length (page_text sample_trace 40 k) = 120 * nat k"
proof -
  have "map (\<lambda>l. l_show (queue_show_base sample_trace ! nat l)) [40..40 + k - 1] =
      map (\<lambda>l. l_show (sample_entry 40)) [40..40 + k - 1]"
    using assms by (intro map_cong) (auto simp: sample_trace_def QUEUE_SHOW_MAX_def)
  also have "\<dots> = replicate (nat k) (l_show (sample_entry 40))"
    using assms by (simp add: map_replicate_const)
  finally show t: "page_text sample_trace 40 k = concat (replicate (nat k) (l_show (sample_entry 40)))"
    by (simp only: page_text_def) simp
  show "length (page_text sample_trace 40 k) = 120 * nat k"
    by (simp add: t length_concat sum_list_replicate sample_entry_length)
qed

theorem reading_page_witness:
  "\<exists>st'. seq_reading PAGE_SIZE sample_trace \<lparr>queue_array_count = 40, count = 1\<rparr> =
      Some (concat (replicate 34 (l_show (sample_entry 40))), [40..<74], st') \<and> sint (queue_array_count st') = 74"
proof -
  let ?st = "\<lparr>queue_array_count = 40, count = 1\<rparr>"
  obtain k st' where k: "seq_reading PAGE_SIZE sample_trace ?st = Some (page_text sample_trace 40 k, map nat [40..40 + k - 1], st')"
    "1 \<le> k" "40 + k \<le> min (40 + 40) (max 80 (40 + 2))" "length (page_text sample_trace 40 k) < PAGE_SIZE"
    "40 + k = min (40 + 40) (max 80 (40 + 2)) \<or> PAGE_SIZE \<le> length (page_text sample_trace 40 (k + 1))"
    "sint (queue_array_count st') = 40 + k"
    using reading_page [of 40 ?st 80 sample_trace] by (auto simp: sample_trace_def)
  then have "k \<le> 40" by simp
  then have "120 * nat k < PAGE_SIZE" "k = 40 \<or> PAGE_SIZE \<le> 120 * nat (k + 1)"
    using k(2-5) sample_text(2) [of k] sample_text(2) [of "k + 1"] by auto
  then have "k = 34" using k(2) \<open>k \<le> 40\<close> by (auto simp: PAGE_SIZE_def)
  moreover have "map nat [40..73] = [40..<74]" by (simp add: upto_rec1 upt_rec)
  ultimately show ?thesis using k(1,6) sample_text(1) [of 34] by simp
qed

end
