(* ===== verification/Trace_Probe.thy ===== *)
theory Trace_Probe
  imports Trace_Export Rbf_Abi
begin

text \<open>
  The tracepoint probes (\<open>modules/tracepoint-probe-rbfgrad.c\<close> and its variant for the
  variables of the controller), which pass options through a kernel fifo to a sequence file,
  and the programs \<open>read_proc_rbfgrad_\<close> and \<open>read_proc_rbfgrad_vars_\<close>, which turn its text into
  numbers. The fifo functions of the kernel are parameters: \<open>kfifo_in\<close> gives the number of
  bytes it took and the new fifo, \<open>kfifo_out\<close> the bytes it gave and the new fifo.
\<close>

section \<open>Options\<close>

definition MAX_TO_GET :: nat where "MAX_TO_GET = 10000"

definition ctl_init :: tc_rbfgrad_qopt where
  "ctl_init = zero_qopt"

definition probe_rbfgrad_output :: "('f \<Rightarrow> u8 list \<Rightarrow> nat \<times> 'f) \<Rightarrow> tc_rbfgrad_qopt \<Rightarrow> 'f \<Rightarrow> 'f" where
  "probe_rbfgrad_output kfifo_in ctl fifo = snd (kfifo_in fifo (qopt_bytes ctl))"

text \<open>The functions of the sequence file; the result \<open>None\<close> is the null pointer.\<close>

definition rbfgrad_start :: "nat \<Rightarrow> tc_rbfgrad_qopt option" where
  "rbfgrad_start ps = (if ps = 0 then Some ctl_init else None)"

definition rbfgrad_next ::
    "('f \<Rightarrow> nat \<Rightarrow> u8 list \<times> 'f) \<Rightarrow> nat \<Rightarrow> 'f \<Rightarrow> tc_rbfgrad_qopt option \<times> nat \<times> 'f" where
  "rbfgrad_next kfifo_out ps fifo =
     (let ps = ps + 1
      in if ps \<ge> MAX_TO_GET then (None, ps, fifo)
         else let (bs, fifo) = kfifo_out fifo qopt_size
              in if bs = [] then (None, ps, fifo)
                 else (Some (qopt_of_bytes (bs @ drop (length bs) (qopt_bytes ctl_init))), ps, fifo))"

definition show_double_bits :: "double \<Rightarrow> string" where
  "show_double_bits x = show_lld (dbits x)"

definition rbfgrad_show :: "tc_rbfgrad_qopt \<Rightarrow> string" where
  "rbfgrad_show t =
     show_d (o_sampl_period t) @ newline @ show_d (o_q_ref t) @ newline
     @ show_double_bits (o_p_max t) @ newline @ show_double_bits (o_eta_p t) @ newline
     @ show_double_bits (o_eta_i t) @ newline @ show_double_bits (o_eta_d t) @ newline
     @ show_d (o_m t) @ newline @ show_d (o_n t) @ newline
     @ show_double_bits (o_alpha t) @ newline @ show_double_bits (o_eta t) @ newline"

section \<open>Variables of the controller\<close>

record trace_rbfgrad_parms =
  tr_sampl_period :: s32
  tr_q_ref :: s32
  tr_p_max :: double
  tr_eta_p :: double
  tr_eta_i :: double
  tr_eta_d :: double
  tr_n :: s32
  tr_m :: s32
  tr_alpha :: double
  tr_eta :: double
  tr_p_k :: double
  tr_p_k_1 :: double
  tr_e_k :: double
  tr_e_k_1 :: double
  tr_e_k_2 :: double
  tr_kp_k :: double
  tr_kp_k_1 :: double
  tr_ki_k :: double
  tr_ki_k_1 :: double
  tr_kd_k :: double
  tr_kd_k_1 :: double

definition parms_init :: trace_rbfgrad_parms where
  "parms_init = \<lparr>tr_sampl_period = 0, tr_q_ref = 0, tr_p_max = 0, tr_eta_p = 0, tr_eta_i = 0, tr_eta_d = 0,
     tr_n = 0, tr_m = 0, tr_alpha = 0, tr_eta = 0, tr_p_k = 0, tr_p_k_1 = 0, tr_e_k = 0, tr_e_k_1 = 0, tr_e_k_2 = 0,
     tr_kp_k = 0, tr_kp_k_1 = 0, tr_ki_k = 0, tr_ki_k_1 = 0, tr_kd_k = 0, tr_kd_k_1 = 0\<rparr>"

text \<open>The body of the probe is commented out.\<close>

definition probe_rbfgrad_vars_output :: "trace_rbfgrad_parms \<Rightarrow> 'f \<Rightarrow> 'f" where
  "probe_rbfgrad_vars_output p fifo = fifo"

definition rbfgrad_vars_start :: "nat \<Rightarrow> trace_rbfgrad_parms option" where
  "rbfgrad_vars_start ps = (if ps = 0 then Some parms_init else None)"

text \<open>The structure in memory, and read back; its size is 152 bytes.\<close>

definition vars_bytes :: "trace_rbfgrad_parms \<Rightarrow> u8 list" where
  "vars_bytes t =
     le32_bytes (tr_sampl_period t) @ le32_bytes (tr_q_ref t)
     @ concat (map (le64_bytes \<circ> dbits) [tr_p_max t, tr_eta_p t, tr_eta_i t, tr_eta_d t])
     @ le32_bytes (tr_n t) @ le32_bytes (tr_m t)
     @ concat (map (le64_bytes \<circ> dbits) [tr_alpha t, tr_eta t, tr_p_k t, tr_p_k_1 t, tr_e_k t, tr_e_k_1 t, tr_e_k_2 t,
         tr_kp_k t, tr_kp_k_1 t, tr_ki_k t, tr_ki_k_1 t, tr_kd_k t, tr_kd_k_1 t])"

definition vars_of_bytes :: "u8 list \<Rightarrow> trace_rbfgrad_parms" where
  "vars_of_bytes bs = \<lparr>tr_sampl_period = le32 bs, tr_q_ref = le32 (drop 4 bs), tr_p_max = double_at 8 bs,
     tr_eta_p = double_at 16 bs, tr_eta_i = double_at 24 bs, tr_eta_d = double_at 32 bs,
     tr_n = le32 (drop 40 bs), tr_m = le32 (drop 44 bs), tr_alpha = double_at 48 bs, tr_eta = double_at 56 bs,
     tr_p_k = double_at 64 bs, tr_p_k_1 = double_at 72 bs, tr_e_k = double_at 80 bs, tr_e_k_1 = double_at 88 bs,
     tr_e_k_2 = double_at 96 bs, tr_kp_k = double_at 104 bs, tr_kp_k_1 = double_at 112 bs, tr_ki_k = double_at 120 bs,
     tr_ki_k_1 = double_at 128 bs, tr_kd_k = double_at 136 bs, tr_kd_k_1 = double_at 144 bs\<rparr>"

definition vars_size :: nat where
  "vars_size = 152"

lemma length_vars_bytes [simp]: "length (vars_bytes t) = vars_size"
  by (simp add: vars_bytes_def vars_size_def)

lemma vars_of_bytes_inverse: "vars_of_bytes (vars_bytes t @ r) = t"
  by (simp add: vars_of_bytes_def vars_bytes_def double_at_def)

definition rbfgrad_vars_next ::
    "('f \<Rightarrow> nat \<Rightarrow> u8 list \<times> 'f) \<Rightarrow> nat \<Rightarrow> 'f \<Rightarrow> trace_rbfgrad_parms option \<times> nat \<times> 'f" where
  "rbfgrad_vars_next kfifo_out ps fifo =
     (let ps = ps + 1
      in if ps \<ge> MAX_TO_GET then (None, ps, fifo)
         else let (bs, fifo) = kfifo_out fifo vars_size
              in if bs = [] then (None, ps, fifo)
                 else (Some (vars_of_bytes (bs @ drop (length bs) (vars_bytes parms_init))), ps, fifo))"

text \<open>The error of the last step is printed twice, the one before it not at all.\<close>

definition rbfgrad_vars_show :: "trace_rbfgrad_parms \<Rightarrow> string" where
  "rbfgrad_vars_show t =
     show_double_bits (tr_p_k t) @ newline @ show_double_bits (tr_p_k_1 t) @ newline
     @ show_double_bits (tr_e_k t) @ newline @ show_double_bits (tr_e_k_1 t) @ newline
     @ show_double_bits (tr_e_k_1 t) @ newline @ show_double_bits (tr_kp_k t) @ newline
     @ show_double_bits (tr_kp_k_1 t) @ newline @ show_double_bits (tr_ki_k t) @ newline
     @ show_double_bits (tr_ki_k_1 t) @ newline @ show_double_bits (tr_kd_k t) @ newline
     @ show_double_bits (tr_kd_k_1 t) @ newline"

section \<open>The reading programs\<close>

definition MAX_LINE :: nat where "MAX_LINE = 10000"

definition atoll :: "string \<Rightarrow> s64" where
  "atoll s = fst (strtol s 10)"

text \<open>
  The loop over the lines: the text written for the line with the given number in its
  group, the number of lines in a group, and the result with the count of all lines. The
  buffer of the programs has twenty characters, which the model does not bound.
\<close>

lemma fgets_shorter: "fgets MAX_LINE fp = Some (s, r) \<Longrightarrow> length r < length fp"
  by (cases fp) (auto simp: fgets_def MAX_LINE_def newline_def Let_def split: if_splits)

function read_proc_loop :: "(nat \<Rightarrow> string \<Rightarrow> string) \<Rightarrow> nat \<Rightarrow> string \<Rightarrow> nat \<Rightarrow> nat \<Rightarrow> string \<Rightarrow> nat \<times> string" where
  "read_proc_loop cell period fp count_line count_total out =
     (case fgets MAX_LINE fp of
        None \<Rightarrow> (count_total, out)
      | Some (s, fp) \<Rightarrow>
          let count_line = count_line + 1
          in read_proc_loop cell period fp (if count_line = period then 0 else count_line) (count_total + 1)
               (out @ cell count_line s))"
  by pat_completeness auto

termination
  by (relation "measure (\<lambda>(_, _, fp, _). length fp)") (auto simp: fgets_shorter)

declare read_proc_loop.simps [simp del]

definition params_cell :: "nat \<Rightarrow> string \<Rightarrow> string" where
  "params_cell k s =
     (if k \<in> {1, 2, 7, 8} then show_d (atoi s) @ tab
      else if k \<in> {3, 4, 5, 6, 9} then show_f 16 (Double (atoll s)) @ tab
      else if k = 10 then show_f 16 (Double (atoll s)) @ newline
      else [])"

definition read_proc_rbfgrad :: "string \<Rightarrow> nat \<times> string" where
  "read_proc_rbfgrad fp_proc = read_proc_loop params_cell 10 fp_proc 0 0 []"

definition vars_cell :: "nat \<Rightarrow> string \<Rightarrow> string" where
  "vars_cell k s =
     (if 1 \<le> k \<and> k \<le> 10 then show_f 16 (Double (atoll s)) @ tab
      else if k = 11 then show_f 16 (Double (atoll s)) @ newline
      else [])"

definition read_proc_rbfgrad_vars :: "string \<Rightarrow> nat \<times> string" where
  "read_proc_rbfgrad_vars fp_proc = read_proc_loop vars_cell 11 fp_proc 0 0 []"

section \<open>The programs read what the probes show\<close>

lemma newline_ends: "ends_number (newline @ r)"
  by (simp add: newline_def ends_number_def is_digit_def digit_val_def)

lemma show_int_line:
  assumes "- (2 ^ 63) \<le> i" "i < 2 ^ 63"
  shows "CHR 0x0A \<notin> set (show_int i)" "length (show_int i) \<le> 20"
proof -
  have "list_all (is_digit 10) (show_dec n)" for n by (rule show_base_digits) simp_all
  moreover have "\<not> is_digit 10 (CHR 0x0A)" by (simp add: is_digit_def digit_val_def)
  ultimately have "CHR 0x0A \<notin> set (show_dec n)" for n
    unfolding list_all_iff by blast
  then show "CHR 0x0A \<notin> set (show_int i)" by (simp add: show_int_def)
  have "nat \<bar>i\<bar> \<le> 2 ^ 63" using assms by (simp add: nat_le_iff)
  then have "nat \<bar>i\<bar> < 10 ^ Suc 18" by simp
  then have "length (show_dec (nat \<bar>i\<bar>)) \<le> Suc 18" by (intro length_show_base) simp_all
  then show "length (show_int i) \<le> 20" by (auto simp: show_int_def)
qed

lemma read_lines:
  assumes "\<forall>i \<in> set is. - (2 ^ 63) \<le> i \<and> i < 2 ^ 63" "is \<noteq> []" "k + length is = period"
  shows "read_proc_loop cell period (concat (map (\<lambda>i. show_int i @ newline) is) @ r) k tot out =
    read_proc_loop cell period r 0 (tot + length is)
      (out @ concat (map2 (\<lambda>j i. cell j (show_int i @ newline)) [Suc k..<Suc period] is))"
  using assms
proof (induction "is" arbitrary: k tot out)
  case (Cons i "is")
  have up: "[Suc k..<Suc period] = Suc k # [Suc (Suc k)..<Suc period]"
    using Cons.prems(3) by (subst upt_rec) auto
  let ?r = "concat (map (\<lambda>i. show_int i @ newline) is) @ r"
  have "fgets MAX_LINE (show_int i @ newline @ ?r) = Some (show_int i @ newline, ?r)"
    using show_int_line [of i] Cons.prems(1) by (intro fgets_line) (auto simp: MAX_LINE_def)
  then have step: "read_proc_loop cell period (concat (map (\<lambda>i. show_int i @ newline) (i # is)) @ r) k tot out =
      read_proc_loop cell period ?r (if Suc k = period then 0 else Suc k) (tot + 1) (out @ cell (Suc k) (show_int i @ newline))"
    by (subst read_proc_loop.simps) (simp add: Let_def)
  show ?case
  proof (cases "is = []")
    case True
    then show ?thesis using step up Cons.prems(3) by simp
  next
    case False
    then have "Suc k \<noteq> period" using Cons.prems(3) by auto
    then show ?thesis
      using step up False Cons.IH [of "Suc k" "tot + 1" "out @ cell (Suc k) (show_int i @ newline)"] Cons.prems by simp
  qed
qed simp

text \<open>One record after the other, each as lines of numbers.\<close>

definition rows_text :: "(nat \<Rightarrow> string \<Rightarrow> string) \<Rightarrow> int list \<Rightarrow> string" where
  "rows_text cell is = concat (map2 (\<lambda>j i. cell j (show_int i @ newline)) [1..<Suc (length is)] is)"

lemma read_records:
  assumes "\<forall>is \<in> set iss. length is = period \<and> (\<forall>i \<in> set is. - (2 ^ 63) \<le> i \<and> i < 2 ^ 63)" "0 < period"
  shows "read_proc_loop cell period (concat (map (\<lambda>is. concat (map (\<lambda>i. show_int i @ newline) is)) iss)) 0 tot out =
    (tot + period * length iss, out @ concat (map (rows_text cell) iss))"
  using assms(1)
proof (induction iss arbitrary: tot out)
  case Nil
  then show ?case by (subst read_proc_loop.simps) (simp add: fgets_def)
next
  case (Cons "is" iss)
  then have l: "length is = period" "is \<noteq> []" using assms(2) by auto
  then show ?case
    using read_lines [of "is" 0 period cell "concat (map (\<lambda>is. concat (map (\<lambda>i. show_int i @ newline) is)) iss)" tot out] Cons
    by (simp add: rows_text_def)
qed

definition params_ints :: "tc_rbfgrad_qopt \<Rightarrow> int list" where
  "params_ints t =
     [sint (o_sampl_period t), sint (o_q_ref t), sint (dbits (o_p_max t)), sint (dbits (o_eta_p t)),
      sint (dbits (o_eta_i t)), sint (dbits (o_eta_d t)), sint (o_m t), sint (o_n t), sint (dbits (o_alpha t)), sint (dbits (o_eta t))]"

definition params_row :: "tc_rbfgrad_qopt \<Rightarrow> string" where
  "params_row t =
     show_d (o_sampl_period t) @ tab @ show_d (o_q_ref t) @ tab @ show_f 16 (o_p_max t) @ tab @ show_f 16 (o_eta_p t) @ tab
     @ show_f 16 (o_eta_i t) @ tab @ show_f 16 (o_eta_d t) @ tab @ show_d (o_m t) @ tab @ show_d (o_n t) @ tab
     @ show_f 16 (o_alpha t) @ tab @ show_f 16 (o_eta t) @ newline"

lemma sint_range:
  "- (2 ^ 63) \<le> sint (v :: s32) \<and> sint v < 2 ^ 63" "- (2 ^ 63) \<le> sint (w :: s64) \<and> sint w < 2 ^ 63"
proof -
  show "- (2 ^ 63) \<le> sint v \<and> sint v < 2 ^ 63"
    by (intro conjI, rule order_trans [OF _ sint_s32_bounds(1)], simp, rule less_trans [OF sint_s32_bounds(2)], simp)
  show "- (2 ^ 63) \<le> sint w \<and> sint w < 2 ^ 63"
    using signed_take_bit_int_greater_eq_minus_exp [of 63 "uint w"] signed_take_bit_int_less_exp [of 63 "uint w"]
    by (simp add: sint_uint)
qed

lemma atoll_line: "atoll (show_int (sint (w :: s64)) @ newline) = w"
  using strtol_int [of "[]" newline "sint w"] sint_range(2) [of w] newline_ends [of "[]"] by (simp add: atoll_def)

lemma atoi_line: "atoi (show_int (sint (w :: s32)) @ newline) = w"
proof -
  have "(ucast (word_of_int (sint w) :: s64) :: s32) = w"
    by (rule bit_word_eqI) (auto simp: bit_simps)
  then show ?thesis
    using strtol_int [of "[]" newline "sint w"] sint_range(1) [of w] newline_ends [of "[]"] by (simp add: atoi_def)
qed

lemma params_text:
  "rbfgrad_show t = concat (map (\<lambda>i. show_int i @ newline) (params_ints t))"
  "rows_text params_cell (params_ints t) = params_row t"
proof -
  show "rbfgrad_show t = concat (map (\<lambda>i. show_int i @ newline) (params_ints t))"
    by (simp add: rbfgrad_show_def params_ints_def show_d_def show_double_bits_def show_lld_def)
  have "[1..<Suc (length (params_ints t))] = [1, 2, 3, 4, 5, 6, 7, 8, 9, 10]"
    by (simp add: params_ints_def upt_rec)
  then show "rows_text params_cell (params_ints t) = params_row t"
    by (simp add: rows_text_def params_row_def) (simp add: params_ints_def params_cell_def atoi_line atoll_line)
qed

text \<open>
  The program for the options writes one row per record, with every double restored from
  the bit pattern the probe shows, and counts ten lines per record.
\<close>

lemma read_proc_params:
  "read_proc_rbfgrad (concat (map rbfgrad_show ts)) = (10 * length ts, concat (map params_row ts))"
proof -
  have "length (params_ints t) = 10 \<and> (\<forall>i \<in> set (params_ints t). - (2 ^ 63) \<le> i \<and> i < 2 ^ 63)" for t
    using sint_range by (simp add: params_ints_def)
  moreover have e: "rbfgrad_show = (\<lambda>t. concat (map (\<lambda>i. show_int i @ newline) (params_ints t)))"
    using params_text(1) by blast
  ultimately show ?thesis
    using read_records [of "map params_ints ts" 10 params_cell 0 "[]"]
    by (simp add: read_proc_rbfgrad_def params_text(2) comp_def e)
qed

end
