(* ===== verification/Spec2Isabelle.thy ===== *)
theory Spec2Isabelle
  imports Rbf_System Utils_Host Ll_Names Tc_Qdisc Q_Rbfgrad Q_Mqprio Tc_Disciplines Tc_Main Trace_Probe
begin

text \<open>
  A queueing discipline that controls the queue of a router with a neural network: packets
  are dropped or marked with a probability that an incremental PID controller computes, a
  radial basis function network estimates how the queue answers to the probability, and a
  particle swarm trains the network. The development models the kernel module, the command
  that configures it and the programs that take its trace out of the kernel.

  \<^bold>\<open>Parts and how they interact.\<close> The kernel calls the handlers of the module
  (\<open>modules/sch_rbfgrad.c\<close>) for packets and configuration. A handler decides about a packet with
  \<open>rbfgrad_action\<close> (\<open>include/rbfgrad.h\<close>) from the probability in the parameter block and writes
  a line of the trace. A kernel thread computes a new probability every period
  (\<open>rbfgrad_mark_probability\<close>), which trains the network (\<open>pso_train\<close>, \<open>get_rbf_SSE\<close> of
  \<open>include/rbf.h\<close>) with its own exponential (\<open>include/exp.h\<close>, \<open>include/fabs.h\<close>). Both write the
  same block without a lock. The command \<open>tc qdisc\<close> (\<open>iproute2-3.1.0/tc/tc_qdisc.c\<close>) finds the
  discipline by its name, lets it read its options (\<open>q_rbfgrad.c\<close>), asks the kernel for its
  links to find the device, packs everything into a netlink message with
  \<open>iproute2-3.1.0/lib\<close> and sends it; the handler \<open>rbfgrad_change\<close> installs the options. The trace leaves through sequence files
  (\<open>queuedata/\<close>, \<open>modules/tracepoint-probe-*.c\<close>) and is turned into numbers by \<open>test/transfer.c\<close>
  and \<open>read_proc_*\<close>.

  \<^bold>\<open>Foundations.\<close> \<open>Prelude\<close> names the C integer types as words and holds the counted loop
  \<open>for_up\<close> with its rules. \<open>Double\<close> is IEEE binary64 on bit patterns with round to even, signed
  zeros, infinities and NaNs; \<open>Double_Laws\<close> has the interface of the clamps and minima
  (a locale, interpreted on doubles), \<open>Double_Eval\<close> evaluates ground arithmetic inside the
  logic, \<open>Double_Mono\<close> proves that rounding keeps order. \<open>C_String\<close>, \<open>C_Printf\<close> and
  \<open>Byte_Order\<close> model what the programs use of the C library and of the memory layout.

  \<^bold>\<open>Kernel module.\<close>
  \<^item> \<open>Exp_Fabs\<close>: \<open>exp\<close> and \<open>fabs\<close>; special values, and that unset locals do not matter.
  \<^item> \<open>Rbf_Parms\<close>: the block \<open>rbfgrad_parms\<close> as a record, \<open>rbfgrad_set_parms\<close>, \<open>rand_my\<close>,
    \<open>rbfgrad_action\<close>; ranges of the random numbers, the exact frequency of marks, the state after
    configuration.
  \<^item> \<open>Rbf_Control\<close>: the network error, the swarm, the control law; the error function against its
    closed form, optimality and speed bounds of the swarm, range and law of the probability.
  \<^item> \<open>Rbf_Qdisc\<close>, \<open>Rbf_Packets\<close>: the module's globals, every handler and both threads, whose
    creation may fail; packet conservation, the counters against the packets in a fifo child,
    outcomes, errors, the loops of the threads. A packet has two lengths, its own, which the
    module counts, and \<open>skb_pkt_len\<close>, which its child counts and a size table changes.
    The kernel functions are the record \<open>kernel_env\<close>, its laws named predicates.
  \<^item> \<open>Rbf_System\<close>: handlers interleaved with the steps of the controller thread as a step
    relation. The training and the law of an update are a step for each phase, the clamp at its
    end a step for every memory access, and a change of configuration, which the controller
    does not wait for, a step for every store of \<open>rbfgrad_set_parms\<close>; the other handlers are one
    step each. Memory safety and the range of the probability in every reachable state;
    without interference the steps are \<open>rbfgrad_mark_probability\<close> and \<open>rbfgrad_change\<close>.

  \<^bold>\<open>Command.\<close>
  \<^item> \<open>Rbf_Abi\<close>: options and statistics as both sides see them, with the bytes of the structure.
  \<^item> \<open>Utils_Num\<close> (a locale for the bounded parsers with an interpretation for each),
    \<open>Utils_Cli\<close>, \<open>Utils_Addr\<close>, \<open>Utils_Host\<close> (a locale for memoising tables, interpreted on the name
    cache), \<open>Lib_Addr\<close>: \<open>lib/utils.c\<close> and the address files of \<open>lib/\<close>.
  \<^item> \<open>Netlink_Attr\<close>, \<open>Netlink_Talk\<close>: attributes and message loops of \<open>lib/libnetlink.c\<close>; a message
    is taken apart into what was put in, the first matching answer decides a request, and a
    dump hands over its messages in order, however they are cut into datagrams.
  \<^item> \<open>Ll_Map\<close>: the table of links of \<open>lib/ll_map.c\<close>, a chained hash table; a locale for tables
    keyed by a field of their entries, interpreted on it; it is the map of the last
    announcements, and names lead back to indices.
  \<^item> \<open>Tc_Core\<close>, \<open>Tc_Util\<close>: ticks, rate and size tables, texts and statistics of \<open>tc\<close>; the tables
    are right and their loops end, handles are read as they are printed.
  \<^item> \<open>Rt_Names\<close>, \<open>Ll_Names\<close>: the tables of names of \<open>lib/rt_names.c\<close> (a locale for caches of the
    last answer, interpreted on the lookups by name), \<open>ll_types.c\<close>, \<open>ll_proto.c\<close>, \<open>inet_proto.c\<close>
    and link layer addresses; what is printed is read back.
  \<^item> \<open>Tc_Stab\<close>, \<open>Tc_Kind\<close>: the options of a size table, the registered kinds of disciplines with
    their functions, the estimator; the contract of a discipline that reads options is the
    locale \<open>qdisc_parser\<close>.
  \<^item> \<open>Tc_Qdisc\<close>: \<open>tc_qdisc.c\<close>; from the contract alone, the request that \<open>tc qdisc add\<close> sends.
  \<^item> \<open>Tc_Class\<close>: \<open>tc_class.c\<close>, and the request that \<open>tc class add\<close> sends, again from the contract.
  \<^item> \<open>Tc_Main\<close>: the main program \<open>tc.c\<close> with its options, the choice of the object, and batch files,
    which do what their commands do one after the other.
  \<^item> \<open>Tc_Options\<close>: the loop over the words of a discipline, which the parsers share, as a
    function of what each word does. A locale takes the parsers of this form into the
    contract; two extend it, for disciplines that send a structure and for those that nest
    attributes, with the promise that the printer shows what the parser sent.
    \<open>Tc_Tables\<close> has a third, for rate tables among the options, and what the request for a class
    has in common.
  \<^item> \<open>Q_Rbfgrad\<close>: \<open>q_rbfgrad.c\<close>, which interprets the contract; the message holds the options, unnamed options are zero.
  \<^item> \<open>Q_Plain\<close> (fifo, sfq, multiq, ingress), \<open>Q_Prio\<close> (prio, rr, pfifo_fast), \<open>Q_Red\<close> (red, choke),
    \<open>Q_Blue\<close> (blue, sfb), \<open>Q_Tbf\<close> (tbf), \<open>Q_Htb\<close> (htb), \<open>Q_Drr\<close> (drr, qfq), \<open>Q_Hfsc\<close> (hfsc), \<open>Q_Dsmark\<close>
    (dsmark), \<open>Q_Netem\<close> (netem): the files \<open>tc/q_*.c\<close> of these disciplines, each an interpretation
    of one of the locales or of the contract on its own parser and printer. \<open>Q_Mqprio\<close> (mqprio) is
    outside the contract, since its structure does not fill whole words of the message.
  \<^item> \<open>Decimal_Texts\<close>: \<open>strtod\<close> on decimal texts, so sizes and rates are read exactly.
    \<open>Tc_Disciplines\<close>: what is sent for a discipline or a class, its receiver prints as it
    was read; a class comes back as it was typed; the thresholds of choke are in order.

  \<^bold>\<open>Trace.\<close> \<open>Trace_Export\<close>: the sequence file of the queue trace and \<open>transfer.c\<close>; what one
  reading shows through the kernel's buffer of one page, and that the doubles come back. \<open>Trace_Probe\<close>: the tracepoint probes and the
  programs that read their files.

  \<^bold>\<open>This theory\<close> joins the two sides: a command line reaches the controller, through the table
  of links, the registered kinds, the request and its answer.

  \<^bold>\<open>Conventions.\<close> A function is \<open>None\<close> where the code returns an error and leaves its result
  alone; exits of a process are values (\<open>cli\<close>, \<open>outcome\<close>). Code outside the repository is a
  parameter. Signed arithmetic wraps, shifts take their count modulo 32, conversions of
  doubles out of range give what the processor gives. Unset variables are arguments.

  \<^bold>\<open>Bounds and fuel.\<close> The loops of the two threads take the list of the answers of the kernel and
  are still running when it ends (\<open>thread_func_updates\<close>, \<open>stop_thread_stops\<close>). A reading of the
  trace is given 41 calls of \<open>l_next\<close>, one more than it can use (\<open>reading_page\<close>). The searches of the size table
  are partial functions, shown to return (\<open>size_table_correct\<close>). Everything else is total.

  \<^bold>\<open>Not modelled.\<close> \<open>include/pso.h\<close>, which nothing includes; the commands \<open>ip\<close>, \<open>ss\<close> and the
  other tools of the package; the disciplines \<open>atm\<close>, \<open>cbq\<close> and \<open>gred\<close>, the last of which
  changes the flags of the message it is given, filters, actions and the monitor of
  \<open>tc\<close>; opening of sockets and files, registration with the kernel,
  messages to its log; generated module descriptions. The lock of the queue appears as the
  atomicity of the handlers it protects from each other; the controller takes no lock.

  \<^bold>\<open>Growing it.\<close> A discipline is added with its words, its structure or attributes and its
  printer, and an interpretation of \<open>struct_options\<close>, \<open>nested_options\<close> or \<open>table_options\<close>; the request it sends
  and what the receiver prints follow. Filters would need the same for \<open>filter_util\<close>.
\<close>

section \<open>From the command line to the kernel module\<close>

text \<open>
  What the module relies on of the kernel's \<open>nla_parse_nested\<close>: for a nested attribute that
  holds attributes of different types, with the lengths the policy of the module asks for, it
  finds their payloads; the module reads the options through a pointer to the structure.
\<close>

definition nla_parse_spec :: "(u8 list \<Rightarrow> s32 + tc_rbfgrad_qopt option \<times> u8 list option) \<Rightarrow> bool" where
  "nla_parse_spec parse \<longleftrightarrow>
     (\<forall>rta as p stab. holds_attrs (RTA_DATA rta) as \<and> RTA_PAYLOAD rta = int (attrs_size as)
        \<and> distinct (map fst as) \<and> (\<forall>a \<in> set as. 4 + length (snd a) < 2 ^ 16)
        \<and> attr_map as TCA_RBFGRAD_PARMS = Some p \<and> length p = qopt_size
        \<and> attr_map as TCA_RBFGRAD_STAB = Some stab \<and> length stab = RBFGRAD_STAB_SIZE
        \<longrightarrow> parse rta = Inr (Some (qopt_of_bytes p), Some stab))"

lemma option_keeps:
  "rbfgrad_option kw = Some store \<Longrightarrow> store a q = Some q' \<Longrightarrow> o_flags q' = o_flags q \<and> o_Scell_log q' = o_Scell_log q"
  by (auto simp: rbfgrad_option_def split: if_splits)

lemma args_keep:
  "rbfgrad_args argv st = Ret (Inr (q, e)) \<Longrightarrow> o_flags q = o_flags (fst st) \<and> o_Scell_log q = o_Scell_log (fst st)"
proof (induction argv st rule: rbfgrad_args.induct)
  case (2 kw argv q0 ecn_ok)
  then show ?case
    by (auto split: option.splits cli.splits if_splits dest: option_keeps)
qed simp

lemma message_parsed:
  assumes "nla_parse_spec parse" "holds_attrs (RTA_DATA rta) (rbfgrad_attrs q sbuf)"
    and "RTA_PAYLOAD rta = int (attrs_size (rbfgrad_attrs q sbuf))" "length sbuf = 256"
  shows "parse rta = Inr (Some q, Some sbuf)"
proof -
  let ?as = "rbfgrad_attrs q sbuf"
  have "distinct (map fst ?as)" "\<forall>a \<in> set ?as. 4 + length (snd a) < 2 ^ 16"
    "attr_map ?as TCA_RBFGRAD_PARMS = Some (qopt_bytes q)" "attr_map ?as TCA_RBFGRAD_STAB = Some sbuf"
    using assms(4)
    by (simp_all add: rbfgrad_attrs_def attr_map_def TCA_RBFGRAD_PARMS_def TCA_RBFGRAD_STAB_def qopt_size_def)
  moreover have "length sbuf = RBFGRAD_STAB_SIZE" "length (qopt_bytes q) = qopt_size"
    using assms(4) by (simp_all add: RBFGRAD_STAB_SIZE_def)
  ultimately have "parse rta = Inr (Some (qopt_of_bytes (qopt_bytes q)), Some sbuf)"
    using assms(1-3) unfolding nla_parse_spec_def by blast
  then show ?thesis using qopt_of_bytes_inverse [of q "[]"] by simp
qed

text \<open>The module accepts an attribute with the options of a command line and is configured as they say.\<close>

lemma options_configure:
  assumes "nla_parse_spec (nla_parse_nested env)" "rbfgrad_args argv (zero_qopt, False) = Ret (Inr (q, ecn_ok))"
    and "holds_attrs (RTA_DATA rta) (rbfgrad_attrs (with_ecn ecn_ok q) sbuf)"
    and "RTA_PAYLOAD rta = int (attrs_size (rbfgrad_attrs (with_ecn ecn_ok q) sbuf))" "length sbuf = 256"
    and "0 < o_limit q \<Longrightarrow> fifo_create_dflt env (o_limit q) = Inr c"
  shows "\<exists>sch' g' s'. rbfgrad_change env (Some rta) (sch, g, s) = (0, sch', g', s')
    \<and> limit (priv sch') = o_limit q \<and> (rbfgrad_use_ecn (priv sch') \<longleftrightarrow> ecn_ok)
    \<and> dump_opt (priv sch') = q\<lparr>o_p_init := 0, o_p_min := 0\<rparr>"
proof -
  let ?q = "with_ecn ecn_ok q"
  note p = message_parsed [OF assms(1,3-5)]
  have l: "o_limit ?q = o_limit q" by (simp add: with_ecn_def)
  have z: "o_flags q = 0" "o_Scell_log q = 0" using args_keep [OF assms(2)] by (simp_all add: zero_qopt_def)
  obtain ret sch' g' s' where ch: "rbfgrad_change env (Some rta) (sch, g, s) = (ret, sch', g', s')"
    using prod_cases4 by blast
  note ok = change_ok [OF p _ ch, of c] and d = change_dump [OF p _ ch, of c]
  have "ret = 0" "limit (priv sch') = o_limit q" "flags (priv sch') = ucast (o_flags ?q)"
    using ok(1-3) assms(6) l by simp_all
  moreover have "dump_opt (priv sch') = q\<lparr>o_p_init := 0, o_p_min := 0\<rparr>"
    using d assms(6) l z by (simp add: with_ecn_def)
  ultimately show ?thesis
    using ch z by (auto simp: rbfgrad_use_ecn_def with_ecn_def TC_RBFGRAD_ECN_def)
qed

lemma payload_holds:
  assumes "holds_attrs (rta_payload rta) as" "RTA_PAYLOAD rta = int (attrs_size as)"
  shows "holds_attrs (RTA_DATA rta) as"
  by (rule holds_attrs_take [OF assms(1)]) (simp add: rta_payload_def assms(2))

text \<open>
  C31: a command line configures the controller. For \<open>tc qdisc add dev D root rbfgrad\<close> with
  options that are accepted, and a device found in the dump of the links, one request goes
  out: it names the interface of the device, the root and the discipline, and carries the
  options. The module accepts them: its limit is the limit given, it marks with ECN exactly
  when \<open>ecn\<close> was given, and it dumps the options that were read, but with zero for the initial
  and the least probability, whatever was typed for them. The command succeeds when the first matching
  answer is an acknowledgement, fails with status 2 when it is not, and waits without one.
\<close>
theorem tc_configures_module:
  assumes "nla_parse_spec (nla_parse_nested env)"
    and "rbfgrad_args argv (zero_qopt, False) = Ret (Inr (q, ecn_ok))" "0 < sint (o_q_ref q)" "length sbuf = 256"
    and "get_qdisc_kind (e_dl tc) ''rbfgrad'' (ts_kinds st) = (rbfgrad_qdisc_util pi0 pm0 sbuf details, ks)"
    and "e_links tc = map deliver ds" "e_links_sent tc" "list_all delivery_ok ds" "length (e_junk tc) = IFNAMSIZ + ADDRSIZ"
    and "link_dump (rh_pid (ts_rth st)) (rh_seq (ts_rth st) + 1) mls fin (delivered ds)" "ts_map st = ll_map_init"
    and "only_link (map snd mls) idx l" "idx \<noteq> 0" "l_name l \<noteq> []"
    and "e_sent tc" "e_answers tc = map deliver rs" "list_all delivery_ok rs"
    and "0 < o_limit q \<Longrightarrow> fifo_create_dflt env (o_limit q) = Inr c"
  shows "\<exists>st' b rta sch' g' s'. do_qdisc tc (''add'' # ''dev'' # l_name l # ''root'' # ''rbfgrad'' # argv) st =
        (case find (\<lambda>(pid, m). pid = 0 \<and> m_pid m = rh_pid (ts_rth st) \<and> m_seq m = rh_seq (ts_rth st) + 2 \<and> m_type m = NLMSG_ERROR) (delivered rs) of
           None \<Rightarrow> Blocked | Some (pid, m) \<Rightarrow> Status (if is_ack m then 0 else 2), st')
    \<and> ts_requests st' = ts_requests st @ [b]
    \<and> view_request b = \<lparr>v_type = RTM_NEWQDISC, v_flags = NLM_F_REQUEST OR (NLM_F_EXCL OR NLM_F_CREATE) OR NLM_F_ACK,
        v_ifindex = idx, v_handle = 0, v_parent = TC_H_ROOT, v_kind = Some ''rbfgrad'', v_options = Some rta\<rparr>
    \<and> rbfgrad_change env (Some rta) (sch, g, s) = (0, sch', g', s')
    \<and> limit (priv sch') = o_limit q \<and> (rbfgrad_use_ecn (priv sch') \<longleftrightarrow> ecn_ok)
    \<and> dump_opt (priv sch') = q\<lparr>o_p_init := 0, o_p_min := 0\<rparr>"
proof -
  let ?as = "rbfgrad_attrs (with_ecn ecn_ok q) sbuf"
  let ?u = "rbfgrad_qdisc_util pi0 pm0 sbuf details"
  let ?st1 = "st\<lparr>ts_kinds := ks\<rparr>"
  have acc: "rbfgrad_accepts sbuf argv 384 (\<lambda>bs. holds_attrs bs ?as)" using assms(2-4) by (simp add: rbfgrad_accepts_def)
  have kw: "kind_word ''rbfgrad''" by (simp add: kind_word_def matches_def)
  have nm: "length (l_name l) \<le> 15"
  proof -
    have "l \<in> set (rev (map snd mls))" using assms(12) by (auto simp: only_link_def last_link_def find_Some_iff simp del: set_rev)
    then show ?thesis using assms(10) by (force simp: link_dump_def announces_def IFNAMSIZ_def)
  qed
  have lk: "lookup_kind tc ''rbfgrad'' st = (?u, ?st1)" using assms(5) by (simp add: lookup_kind_def)
  obtain st2 where d: "find_device tc (l_name l) ?st1 = (Inr idx, st2)"
    "ts_rth st2 = (ts_rth st)\<lparr>rh_seq := rh_seq (ts_rth st) + 1, rh_dump := rh_seq (ts_rth st) + 1\<rparr>"
    using find_device_links [OF assms(6-9), of ?st1 mls fin idx l] assms(10-13) by auto
  have pq: "parse_qopt ?u = Some (rbfgrad_parse_opt pi0 pm0 sbuf)" by (simp add: rbfgrad_qdisc_util_def)
  obtain err b rta where m:
    "tc_qdisc_modify tc RTM_NEWQDISC (NLM_F_EXCL OR NLM_F_CREATE) (''dev'' # l_name l # ''root'' # ''rbfgrad'' # argv) st =
      (talk_status (fst (rtnl_talk (ts_rth st2) (NLM_F_REQUEST OR (NLM_F_EXCL OR NLM_F_CREATE)) 0 False None (e_sent tc) (e_answers tc) ())),
       (complain err st2)\<lparr>ts_rth := (ts_rth st2)\<lparr>rh_seq := rh_seq (ts_rth st2) + 1\<rparr>, ts_requests := ts_requests st @ [b]\<rparr>)"
    "view_request b = \<lparr>v_type = RTM_NEWQDISC, v_flags = NLM_F_REQUEST OR (NLM_F_EXCL OR NLM_F_CREATE) OR NLM_F_ACK, v_ifindex = idx,
        v_handle = 0, v_parent = TC_H_ROOT, v_kind = Some ''rbfgrad'', v_options = Some rta\<rparr>"
    "holds_attrs (rta_payload rta) ?as" "RTA_PAYLOAD rta = int 384"
    using rbfgrad.modify_root [OF acc kw assms(14) nm lk pq d(1)] by metis
  have "matches ''add'' ''add'' = 0" by (simp add: matches_def)
  then have q: "do_qdisc tc (''add'' # ''dev'' # l_name l # ''root'' # ''rbfgrad'' # argv) st =
      tc_qdisc_modify tc RTM_NEWQDISC (NLM_F_EXCL OR NLM_F_CREATE) (''dev'' # l_name l # ''root'' # ''rbfgrad'' # argv) st"
    by (simp add: do_qdisc_def)
  have "talk_status (fst (rtnl_talk (ts_rth st2) (NLM_F_REQUEST OR (NLM_F_EXCL OR NLM_F_CREATE)) 0 False None (e_sent tc) (e_answers tc) ())) =
      (case find (\<lambda>(pid, m). pid = 0 \<and> m_pid m = rh_pid (ts_rth st) \<and> m_seq m = rh_seq (ts_rth st) + 2 \<and> m_type m = NLMSG_ERROR) (delivered rs) of
         None \<Rightarrow> Blocked | Some (pid, m) \<Rightarrow> Status (if is_ack m then 0 else 2))"
    using assms(15) unfolding assms(16)
    by (simp add: talk_first_ack [OF assms(17)] d(2) talk_status_def add.assoc split: option.splits prod.splits)
  moreover have pl: "RTA_PAYLOAD rta = int (attrs_size ?as)" using m(4) by (simp add: rbfgrad_attrs_size [OF assms(4)])
  ultimately show ?thesis
    using m q options_configure [OF assms(1,2) payload_holds [OF m(3) pl] pl assms(4,18), of sch g s] by auto
qed

text \<open>An environment that takes the message apart with the library's own parser.\<close>

definition wire_parse :: "u8 list \<Rightarrow> s32 + tc_rbfgrad_qopt option \<times> u8 list option" where
  "wire_parse rta =
     (let tb = fst (parse_rtattr_nested TCA_RBFGRAD_STAB rta)
      in Inr (map_option (qopt_of_bytes \<circ> rta_payload) (tb ! TCA_RBFGRAD_PARMS), map_option rta_payload (tb ! TCA_RBFGRAD_STAB)))"

definition wire_env :: "(sk_buff list, u8 list, u32) kernel_env" where
  "wire_env = \<lparr>random32 = random32 list_env, INET_ECN_set_ce = INET_ECN_set_ce list_env,
     qdisc_drop = qdisc_drop list_env, net_xmit_drop_count = net_xmit_drop_count list_env,
     qdisc_bstats_update = qdisc_bstats_update list_env, qdisc_enqueue = qdisc_enqueue list_env,
     child_dequeue = child_dequeue list_env, child_peek = child_peek list_env, child_drop = child_drop list_env,
     qdisc_reset = qdisc_reset list_env, child_qlen = child_qlen list_env, child_backlog = child_backlog list_env,
     child_handle = child_handle list_env, qdisc_tree_decrease_qlen = qdisc_tree_decrease_qlen list_env,
     noop_qdisc = noop_qdisc list_env, fifo_create_dflt = fifo_create_dflt list_env, nla_parse_nested = wire_parse,
     kthread_run = kthread_run list_env\<rparr>"

lemma wire_parse_spec: "nla_parse_spec wire_parse"
  unfolding nla_parse_spec_def
proof (intro allI impI, elim conjE)
  fix rta as p stab
  assume h: "holds_attrs (RTA_DATA rta) as" "RTA_PAYLOAD rta = int (attrs_size as)"
    "\<forall>a \<in> set as. 4 + length (snd a) < 2 ^ 16" "attr_map as TCA_RBFGRAD_PARMS = Some p"
    "attr_map as TCA_RBFGRAD_STAB = Some stab"
  obtain tb where "parse_rtattr_nested TCA_RBFGRAD_STAB rta = (tb, 0)"
    "\<forall>t \<le> TCA_RBFGRAD_STAB. map_option rta_payload (tb ! t) = attr_map as t"
    using parse_rtattr_loop_holds [OF h(1,3), of "replicate (TCA_RBFGRAD_STAB + 1) None" TCA_RBFGRAD_STAB]
    by (auto simp: parse_rtattr_nested_def parse_rtattr_def h(2) simp del: replicate_Suc)
  moreover have "TCA_RBFGRAD_PARMS \<le> TCA_RBFGRAD_STAB" by (simp add: TCA_RBFGRAD_PARMS_def TCA_RBFGRAD_STAB_def)
  ultimately have "map_option rta_payload (tb ! TCA_RBFGRAD_PARMS) = Some p"
    "map_option rta_payload (tb ! TCA_RBFGRAD_STAB) = Some stab" "fst (parse_rtattr_nested TCA_RBFGRAD_STAB rta) = tb"
    using h(4,5) by simp_all
  then show "wire_parse rta = Inr (Some (qopt_of_bytes p), Some stab)"
    by (auto simp: wire_parse_def Let_def)
qed

text \<open>A process that has just started, and a socket that delivers the links and an acknowledgement.\<close>

definition example_dump :: "(u32 \<times> nl_message list) option" where
  "example_dump = Some (0, map (link_message 0 1) example_links @ [\<lparr>m_type = NLMSG_DONE, m_flags = 0, m_seq = 1, m_pid = 0, m_payload = []\<rparr>])"

definition example_ack :: nl_message where
  "example_ack = \<lparr>m_type = NLMSG_ERROR, m_flags = 0, m_seq = 2, m_pid = 0, m_payload = replicate 20 0\<rparr>"

definition example_tc :: tc_env where
  "example_tc = \<lparr>e_dl = \<lparr>tc_lib_dir = None, dlopen = (\<lambda>_. Some 0),
       dlsym_qdisc = (\<lambda>_ _. Some (rbfgrad_qdisc_util 0 0 (replicate 256 0) False)), dlsym_filter = (\<lambda>_ _. None)\<rparr>,
     e_nametoindex = (\<lambda>_. 0), e_log = (\<lambda>x. x), e_malloc = (\<lambda>_. None), e_junk = replicate 36 0, e_show_details = False,
     e_show_stats = False, e_show_raw = False, e_use_iec = False, e_links_sent = True, e_links = [deliver example_dump],
     e_sent = True, e_answers = [deliver (Some (0, [example_ack]))], e_buf = []\<rparr>"

definition example_st :: tc_state where
  "example_st = \<lparr>ts_rth = \<lparr>rh_pid = 0, rh_seq = 0, rh_dump = 0\<rparr>, ts_map = ll_map_init,
     ts_kinds = \<lparr>BODY = None, qdisc_list = [], filter_list = []\<rparr>, ts_filter = 0, ts_err = [], ts_out = [], ts_requests = []\<rparr>"

lemma example_dump_ok:
  "delivery_ok example_dump"
  "link_dump 0 1 (map (\<lambda>l. (link_message 0 1 l, l)) example_links) \<lparr>m_type = NLMSG_DONE, m_flags = 0, m_seq = 1, m_pid = 0, m_payload = []\<rparr>
     (delivered [example_dump])"
proof -
  show "delivery_ok example_dump"
    using example_announced(1) by (auto simp: delivery_ok_def example_dump_def list_all_iff) (simp add: msg_ok_def)
  have "16 \<le> length (m_payload (link_message 0 1 l))" "m_pid (link_message 0 1 l) = 0" "m_seq (link_message 0 1 l) = 1" for l
    by (simp_all add: link_message_def)
  then show "link_dump 0 1 (map (\<lambda>l. (link_message 0 1 l, l)) example_links) \<lparr>m_type = NLMSG_DONE, m_flags = 0, m_seq = 1, m_pid = 0, m_payload = []\<rparr>
     (delivered [example_dump])"
    using example_announced(2) by (auto simp: link_dump_def delivered_def example_dump_def comp_def)
qed

theorem tc_configures_module_witness:
  "\<exists>st' b rta sch' g' s'.
      do_qdisc example_tc [''add'', ''dev'', ''wan'', ''root'', ''rbfgrad'', ''q_ref'', show_dec 50] example_st = (Status 0, st')
    \<and> ts_requests st' = [b] \<and> v_ifindex (view_request b) = 2 \<and> v_options (view_request b) = Some rta
    \<and> rbfgrad_change wire_env (Some rta) (sample_sch [], sample_globals, 7) = (0, sch', g', s')
    \<and> limit (priv sch') = 0 \<and> \<not> rbfgrad_use_ecn (priv sch') \<and> o_q_ref (dump_opt (priv sch')) = 50"
proof -
  let ?u = "rbfgrad_qdisc_util 0 0 (replicate 256 0) False"
  let ?mls = "map (\<lambda>l. (link_message 0 1 l, l)) example_links"
  let ?fin = "\<lparr>m_type = NLMSG_DONE, m_flags = 0, m_seq = 1, m_pid = 0, m_payload = []\<rparr>"
  have w: "nla_parse_spec (nla_parse_nested wire_env)" using wire_parse_spec by (simp add: wire_env_def)
  have a: "rbfgrad_args [''q_ref'', show_dec 50] (zero_qopt, False) = Ret (Inr (zero_qopt\<lparr>o_q_ref := 50\<rparr>, False))"
    using args_q_ref [of 50 "(zero_qopt, False)"] by simp
  have k: "get_qdisc_kind (e_dl example_tc) ''rbfgrad'' (ts_kinds example_st) = (?u, \<lparr>BODY = None, qdisc_list = [?u], filter_list = []\<rparr>)"
    by (simp add: get_qdisc_kind_def dl_handle_def example_tc_def example_st_def Let_def)
  have e: "e_links example_tc = map deliver [example_dump]" "e_links_sent example_tc" "list_all delivery_ok [example_dump]"
    "length (e_junk example_tc) = IFNAMSIZ + ADDRSIZ" "e_sent example_tc" "e_answers example_tc = map deliver [Some (0, [example_ack])]"
    "list_all delivery_ok [Some (0 :: u32, [example_ack])]"
    using example_dump_ok(1)
    by (simp_all add: example_tc_def IFNAMSIZ_def ADDRSIZ_def delivery_ok_def example_ack_def msg_ok_def)
  have d: "link_dump (rh_pid (ts_rth example_st)) (rh_seq (ts_rth example_st) + 1) ?mls ?fin (delivered [example_dump])"
    "ts_map example_st = ll_map_init"
    using example_dump_ok(2) by (simp_all add: example_st_def)
  have o: "only_link (map snd ?mls) 2 (example_links ! 2)" using example_only by (simp add: comp_def)
  have n: "l_name (example_links ! 2) = ''wan''" by (simp add: example_links_def)
  have "is_ack example_ack" by (simp add: is_ack_def example_ack_def le32_def)
  then have f: "(case find (\<lambda>(pid, m). pid = 0 \<and> m_pid m = rh_pid (ts_rth example_st) \<and> m_seq m = rh_seq (ts_rth example_st) + 2 \<and> m_type m = NLMSG_ERROR)
      (delivered [Some (0, [example_ack])]) of None \<Rightarrow> Blocked | Some (pid, m) \<Rightarrow> Status (if is_ack m then 0 else 2)) = Status 0"
    by (simp add: delivered_def example_ack_def example_st_def)
  show ?thesis
    using tc_configures_module [OF w a _ _ k e(1-4) d o _ _ e(5-7), of "[]" "sample_sch []" sample_globals 7]
    unfolding f n by (auto simp: zero_qopt_def example_st_def)
qed

end
